(* ===== verification/Prelude.thy ===== *)
theory Prelude
  imports Main "HOL-Library.Sublist" "HOL-Library.Multiset"
begin

text \<open>
  Shared vocabulary of the development: Python errors as values, insertion-ordered
  dictionaries as association lists, the "seen set" loop that many components use to drop
  duplicates, and the fact collections the component proofs draw on.
\<close>

section \<open>Fact collections\<close>

named_theorems dict_simps \<open>lookup after update for insertion-ordered dictionaries\<close>
named_theorems tier_simps \<open>evaluation of confidence-tier ranks\<close>

section \<open>Errors\<close>

text \<open>The exception classes the modelled code raises or catches.\<close>

datatype py_error =
    ValueError string
  | TypeError string
  | KeyError string
  | IndexError
  | SystemExit string
  | RuntimeError string
  | AttributeError string
  | ZeroDivisionError
  | OverflowError
  | StructError
  | OSError string

type_synonym 'a res = "py_error + 'a"

definition bind_res :: "'a res \<Rightarrow> ('a \<Rightarrow> 'b res) \<Rightarrow> 'b res" where
  "bind_res r f = (case r of Inl e \<Rightarrow> Inl e | Inr x \<Rightarrow> f x)"

lemma bind_res_simps [simp]:
  "bind_res (Inl e) f = Inl e"
  "bind_res (Inr x) f = f x"
  by (simp_all add: bind_res_def)

lemma bind_res_Inr_iff:
  "bind_res r f = Inr y \<longleftrightarrow> (\<exists>x. r = Inr x \<and> f x = Inr y)"
  by (cases r) auto

lemma bind_res_InrE:
  assumes "bind_res r f = Inr y"
  obtains x where "r = Inr x" and "f x = Inr y"
  using assms by (cases r) auto

text \<open>\<open>check c e\<close> is the guard \<open>if not c: raise e\<close>.\<close>

definition check :: "bool \<Rightarrow> py_error \<Rightarrow> unit res" where
  "check c e = (if c then Inr () else Inl e)"

lemma check_Inr [simp]: "check c e = Inr u \<longleftrightarrow> c"
  by (simp add: check_def)

fun map_res :: "('a \<Rightarrow> 'b res) \<Rightarrow> 'a list \<Rightarrow> 'b list res" where
  "map_res f [] = Inr []"
| "map_res f (x # xs) =
     bind_res (f x) (\<lambda>y. bind_res (map_res f xs) (\<lambda>ys. Inr (y # ys)))"

lemma map_res_Inr_all2:
  "map_res f xs = Inr ys \<longleftrightarrow> list_all2 (\<lambda>x y. f x = Inr y) xs ys"
  by (induction xs arbitrary: ys) (auto simp: bind_res_Inr_iff list_all2_Cons1)

lemma map_res_append:
  "map_res f (xs @ ys) = bind_res (map_res f xs) (\<lambda>us. bind_res (map_res f ys) (\<lambda>vs. Inr (us @ vs)))"
  by (induction xs) (auto simp: bind_res_def split: sum.splits)

lemma map_res_length: "map_res f xs = Inr ys \<Longrightarrow> length ys = length xs"
  by (auto simp: map_res_Inr_all2 list_all2_lengthD)

lemma list_all2_memD2: "list_all2 P xs ys \<Longrightarrow> y \<in> set ys \<Longrightarrow> \<exists>x \<in> set xs. P x y"
  by (induction rule: list_all2_induct) auto

lemma map_res_mem: "map_res f xs = Inr ys \<Longrightarrow> y \<in> set ys \<Longrightarrow> \<exists>x \<in> set xs. f x = Inr y"
  unfolding map_res_Inr_all2 by (rule list_all2_memD2)

section \<open>Dictionaries\<close>

text \<open>
  A Python \<open>dict\<close> keeps insertion order: storing under a present key keeps its position,
  a new key goes to the end.
\<close>

type_synonym ('k, 'v) dict = "('k \<times> 'v) list"

fun dict_set :: "'k \<Rightarrow> 'v \<Rightarrow> ('k, 'v) dict \<Rightarrow> ('k, 'v) dict" where
  "dict_set k v [] = [(k, v)]"
| "dict_set k v ((k', v') # d) = (if k' = k then (k, v) # d else (k', v') # dict_set k v d)"

definition dict_setdefault :: "'k \<Rightarrow> 'v \<Rightarrow> ('k, 'v) dict \<Rightarrow> ('k, 'v) dict" where
  "dict_setdefault k v d = (if map_of d k = None then d @ [(k, v)] else d)"

abbreviation dict_keys :: "('k, 'v) dict \<Rightarrow> 'k list" where
  "dict_keys d \<equiv> map fst d"

abbreviation dict_values :: "('k, 'v) dict \<Rightarrow> 'v list" where
  "dict_values d \<equiv> map snd d"

lemma dict_get_set [dict_simps, simp]:
  "map_of (dict_set k v d) = (map_of d)(k \<mapsto> v)"
  by (induction k v d rule: dict_set.induct) (auto simp: fun_eq_iff)

lemma dict_keys_set:
  "dict_keys (dict_set k v d) = (if k \<in> set (dict_keys d) then dict_keys d else dict_keys d @ [k])"
  by (induction k v d rule: dict_set.induct) auto

lemma distinct_dict_set [intro]:
  "distinct (dict_keys d) \<Longrightarrow> distinct (dict_keys (dict_set k v d))"
  by (simp add: dict_keys_set)

lemma set_dict_set:
  "distinct (dict_keys d) \<Longrightarrow>
     set (dict_set k v d) = insert (k, v) {p \<in> set d. fst p \<noteq> k}"
  by (induction k v d rule: dict_set.induct) (auto simp: rev_image_eqI)

lemma dict_get_setdefault [dict_simps, simp]:
  "map_of (dict_setdefault k v d) k' =
     (if k' = k \<and> map_of d k = None then Some v else map_of d k')"
  by (auto simp: dict_setdefault_def map_add_def split: option.splits)

lemma distinct_dict_setdefault [intro]:
  "distinct (dict_keys d) \<Longrightarrow> distinct (dict_keys (dict_setdefault k v d))"
  by (auto simp: dict_setdefault_def map_of_eq_None_iff)

section \<open>Dropping duplicates with a seen set\<close>

text \<open>
  The loop \<open>for x in xs: if key(x) in seen: continue; seen.add(key(x)); out.append(x)\<close>.
  The lemmas say what every such loop of the program gives: one item per key, the first one,
  in order.
\<close>

fun first_by :: "('a \<Rightarrow> 'k) \<Rightarrow> 'k set \<Rightarrow> 'a list \<Rightarrow> 'a list" where
  "first_by key seen [] = []"
| "first_by key seen (x # xs) =
     (if key x \<in> seen then first_by key seen xs
      else x # first_by key (insert (key x) seen) xs)"

lemma first_by_subset: "set (first_by key seen xs) \<subseteq> set xs"
  by (induction xs arbitrary: seen) auto

lemma first_by_keys: "key ` set (first_by key seen xs) = key ` set xs - seen"
  by (induction xs arbitrary: seen) auto

lemma first_by_distinct: "distinct (map key (first_by key seen xs))"
proof (induction xs arbitrary: seen)
  case (Cons x xs)
  have "key x \<notin> key ` set (first_by key (insert (key x) seen) xs)"
    by (simp add: first_by_keys)
  then show ?case using Cons.IH by simp
qed simp

lemma first_by_length: "length (first_by key seen xs) = card (key ` set xs - seen)"
proof -
  have "length (first_by key seen xs) = length (map key (first_by key seen xs))"
    by simp
  also have "\<dots> = card (key ` set (first_by key seen xs))"
    using distinct_card [OF first_by_distinct [of key seen xs]] by simp
  finally show ?thesis by (simp add: first_by_keys)
qed

lemma first_by_idem:
  "first_by key seen (first_by key seen xs) = first_by key seen xs"
  by (induction xs arbitrary: seen) auto

text \<open>The kept item of a key is the first one with that key.\<close>

lemma first_by_find:
  "k \<notin> seen \<Longrightarrow>
     find (\<lambda>x. key x = k) (first_by key seen xs) = find (\<lambda>x. key x = k) xs"
  by (induction xs arbitrary: seen) auto

lemma find_distinct_key:
  "distinct (map key xs) \<Longrightarrow> x \<in> set xs \<Longrightarrow> find (\<lambda>y. key y = key x) xs = Some x"
  by (induction xs) (auto simp: image_iff)

lemma set_map_filter: "set (List.map_filter g xs) = {y. \<exists>x \<in> set xs. g x = Some y}"
  by (induction xs) (auto simp: List.map_filter_simps split: option.splits)

section \<open>Grouping into a dictionary of lists\<close>

text \<open>The loop \<open>for x in xs: d[key(x)].append(val(x))\<close> over a \<open>defaultdict(list)\<close>.\<close>

definition dict_append :: "'k \<Rightarrow> 'v \<Rightarrow> ('k, 'v list) dict \<Rightarrow> ('k, 'v list) dict" where
  "dict_append k v d = dict_set k ((case map_of d k of None \<Rightarrow> [] | Some vs \<Rightarrow> vs) @ [v]) d"

fun group_into :: "('k, 'v list) dict \<Rightarrow> ('k \<times> 'v) list \<Rightarrow> ('k, 'v list) dict" where
  "group_into d [] = d"
| "group_into d ((k, v) # xs) = group_into (dict_append k v d) xs"

lemma dict_keys_append:
  "dict_keys (dict_append k v d) = (if k \<in> set (dict_keys d) then dict_keys d else dict_keys d @ [k])"
  by (simp add: dict_append_def dict_keys_set)

lemma group_into_distinct: "distinct (dict_keys d) \<Longrightarrow> distinct (dict_keys (group_into d xs))"
  by (induction d xs rule: group_into.induct) (auto simp: dict_append_def)

lemma group_into_lookup:
  "map_of (group_into d xs) k =
     (if k \<in> fst ` set xs
      then Some ((case map_of d k of None \<Rightarrow> [] | Some vs \<Rightarrow> vs) @ map snd (filter (\<lambda>p. fst p = k) xs))
      else map_of d k)"
  by (induction d xs rule: group_into.induct)
    (auto simp: dict_append_def filter_empty_conv split: option.splits)

text \<open>What a grouped dictionary holds when it starts empty.\<close>

lemma group_into_entry:
  "(k, vs) \<in> set (group_into [] xs) \<longleftrightarrow>
     k \<in> fst ` set xs \<and> vs = map snd (filter (\<lambda>p. fst p = k) xs)"
proof -
  have "(k, vs) \<in> set (group_into [] xs) \<longleftrightarrow> map_of (group_into [] xs) k = Some vs"
    using group_into_distinct [of "[]" xs] by simp
  then show ?thesis by (auto simp: group_into_lookup)
qed

section \<open>Confidence tiers\<close>

text \<open>
  The tier strings shared by all stages, in the order of \<open>handoff._cap\<close>'s rank table:
  allowlisted 0, unconfirmed 1, weak 2, strong 3, confirmed 4.
\<close>

datatype tier = Allowlisted | Unconfirmed | Weak | Strong | Confirmed

fun tier_rank :: "tier \<Rightarrow> nat" where
  "tier_rank Allowlisted = 0"
| "tier_rank Unconfirmed = 1"
| "tier_rank Weak = 2"
| "tier_rank Strong = 3"
| "tier_rank Confirmed = 4"

lemma tier_rank_inj: "tier_rank a = tier_rank b \<Longrightarrow> a = b"
  by (cases a; cases b) simp_all

instantiation tier :: linorder
begin
definition less_eq_tier :: "tier \<Rightarrow> tier \<Rightarrow> bool" where "less_eq_tier a b \<longleftrightarrow> tier_rank a \<le> tier_rank b"
definition less_tier :: "tier \<Rightarrow> tier \<Rightarrow> bool" where "less_tier a b \<longleftrightarrow> tier_rank a < tier_rank b"
instance by standard (auto simp: less_eq_tier_def less_tier_def intro: tier_rank_inj)
end

lemma tier_le_iff [tier_simps]: "a \<le> b \<longleftrightarrow> tier_rank a \<le> tier_rank b"
  and tier_less_iff [tier_simps]: "a < b \<longleftrightarrow> tier_rank a < tier_rank b"
  by (simp_all add: less_eq_tier_def less_tier_def)

lemma tier_le_Confirmed [simp]: "t \<le> Confirmed"
  by (cases t) (simp_all add: tier_simps)

end
