(* ===== verification/PyStr.thy ===== *)
theory PyStr
  imports Prelude
begin

text \<open>
  Python strings as lists of bytes (the UTF-8 encoding of the text) with the string methods
  the code calls. Case mapping and whitespace are those of ASCII, which is what host names,
  protocol tokens and time stamps consist of.
\<close>

section \<open>Characters\<close>

definition is_digit :: "char \<Rightarrow> bool" where
  "is_digit c \<longleftrightarrow> (let n = (of_char c :: nat) in 48 \<le> n \<and> n \<le> 57)"

definition is_upper :: "char \<Rightarrow> bool" where
  "is_upper c \<longleftrightarrow> (let n = (of_char c :: nat) in 65 \<le> n \<and> n \<le> 90)"

definition is_lower :: "char \<Rightarrow> bool" where
  "is_lower c \<longleftrightarrow> (let n = (of_char c :: nat) in 97 \<le> n \<and> n \<le> 122)"

definition is_space :: "char \<Rightarrow> bool" where
  "is_space c \<longleftrightarrow> (let n = (of_char c :: nat) in n = 32 \<or> 9 \<le> n \<and> n \<le> 13 \<or> 28 \<le> n \<and> n \<le> 31)"

definition lower_char :: "char \<Rightarrow> char" where
  "lower_char c = (if is_upper c then char_of (of_char c + 32 :: nat) else c)"

definition upper_char :: "char \<Rightarrow> char" where
  "upper_char c = (if is_lower c then char_of (of_char c - 32 :: nat) else c)"

section \<open>String methods\<close>

definition str_lower :: "string \<Rightarrow> string" where "str_lower s = map lower_char s"
definition str_upper :: "string \<Rightarrow> string" where "str_upper s = map upper_char s"

definition lstrip :: "string \<Rightarrow> string" where "lstrip s = dropWhile is_space s"
definition strip :: "string \<Rightarrow> string" where
  "strip s = rev (dropWhile is_space (rev (dropWhile is_space s)))"
definition rstrip_char :: "char \<Rightarrow> string \<Rightarrow> string" where
  "rstrip_char c s = rev (dropWhile (\<lambda>x. x = c) (rev s))"

definition starts_with :: "string \<Rightarrow> string \<Rightarrow> bool" where
  "starts_with s p \<longleftrightarrow> take (length p) s = p"
definition ends_with :: "string \<Rightarrow> string \<Rightarrow> bool" where
  "ends_with s p \<longleftrightarrow> length p \<le> length s \<and> drop (length s - length p) s = p"

text \<open>\<open>p in s\<close>.\<close>

fun contains :: "string \<Rightarrow> string \<Rightarrow> bool" where
  "contains p [] = (p = [])"
| "contains p (c # s) = (starts_with (c # s) p \<or> contains p s)"

text \<open>\<open>s.split(c)\<close> for a one-character separator.\<close>

fun split_on :: "char \<Rightarrow> string \<Rightarrow> string list" where
  "split_on c [] = [[]]"
| "split_on c (x # s) =
     (if x = c then [] # split_on c s
      else (case split_on c s of [] \<Rightarrow> [[x]] | p # ps \<Rightarrow> (x # p) # ps))"

text \<open>\<open>s.split(c, 1)\<close> when \<open>c\<close> occurs: what comes before and after the first \<open>c\<close>.\<close>

fun split_once :: "char \<Rightarrow> string \<Rightarrow> (string \<times> string) option" where
  "split_once c [] = None"
| "split_once c (x # s) =
     (if x = c then Some ([], s) else map_option (\<lambda>(a, b). (x # a, b)) (split_once c s))"

fun join :: "string \<Rightarrow> string list \<Rightarrow> string" where
  "join sep [] = []"
| "join sep [p] = p"
| "join sep (p # q # ps) = p @ sep @ join sep (q # ps)"

text \<open>\<open>s.replace(c, t)\<close> for a one-character \<open>c\<close>.\<close>

definition replace_char :: "char \<Rightarrow> string \<Rightarrow> string \<Rightarrow> string" where
  "replace_char c t s = concat (map (\<lambda>x. if x = c then t else [x]) s)"

text \<open>Decimal digits of a non-negative integer.\<close>

function dec_str :: "int \<Rightarrow> string" where
  "dec_str n = (if n < 10 then [char_of (48 + n)] else dec_str (n div 10) @ [char_of (48 + n mod 10)])"
  by pat_completeness auto
termination
  by (relation "measure nat") auto

declare dec_str.simps [simp del]

definition int_str :: "int \<Rightarrow> string" where
  "int_str k = (if k < 0 then CHR ''-'' # dec_str (- k) else dec_str k)"

definition nat_str :: "nat \<Rightarrow> string" where "nat_str n = dec_str (int n)"

text \<open>Decimal value of a string of digits.\<close>

definition digit_val :: "char \<Rightarrow> int" where "digit_val c = of_char c - 48"

definition dec_val :: "string \<Rightarrow> int" where
  "dec_val s = foldl (\<lambda>n c. 10 * n + digit_val c) 0 s"

section \<open>Lemmas\<close>

lemma split_on_nonempty [simp]: "split_on c s \<noteq> []"
  by (induction s) (auto split: list.splits)

lemma join_split_on: "join [c] (split_on c s) = s"
proof (induction s)
  case (Cons x s)
  obtain p ps where ps: "split_on c s = p # ps" by (cases "split_on c s") auto
  with Cons show ?case by (cases ps) auto
qed simp

lemma split_on_no_sep: "p \<in> set (split_on c s) \<Longrightarrow> c \<notin> set p"
proof (induction s arbitrary: p)
  case (Cons x s)
  obtain q qs where qs: "split_on c s = q # qs" by (cases "split_on c s") auto
  with Cons show ?case by (auto split: if_splits)
qed simp

lemma split_on_simple: "c \<notin> set s \<Longrightarrow> split_on c s = [s]"
  by (induction s) auto

lemma split_on_append: "c \<notin> set p \<Longrightarrow> split_on c (p @ c # s) = p # split_on c s"
  by (induction p) auto

lemma split_on_join:
  "ps \<noteq> [] \<Longrightarrow> \<forall>p \<in> set ps. c \<notin> set p \<Longrightarrow> split_on c (join [c] ps) = ps"
  by (induction "[c]" ps rule: join.induct) (auto simp: split_on_simple split_on_append)

lemma lower_char_idem [simp]: "lower_char (lower_char c) = lower_char c"
proof (cases "is_upper c")
  case True
  then have b: "65 \<le> (of_char c :: nat)" "of_char c \<le> (90 :: nat)" by (simp_all add: is_upper_def Let_def)
  have "of_char (char_of (of_char c + 32 :: nat)) = (of_char c + 32 :: nat)"
    using b by simp
  with True b show ?thesis by (simp add: lower_char_def is_upper_def Let_def)
qed (simp add: lower_char_def)

lemma str_lower_idem [simp]: "str_lower (str_lower s) = str_lower s"
  by (simp add: str_lower_def)

lemma length_str_lower [simp]: "length (str_lower s) = length s"
  by (simp add: str_lower_def)

lemma str_lower_append: "str_lower (s @ t) = str_lower s @ str_lower t"
  by (simp add: str_lower_def)

lemma str_lower_Nil_iff [simp]: "str_lower s = [] \<longleftrightarrow> s = []"
  by (simp add: str_lower_def)

lemma starts_with_append [simp]: "starts_with (p @ s) p"
  by (simp add: starts_with_def)

lemma starts_with_iff: "starts_with s p \<longleftrightarrow> (\<exists>r. s = p @ r)"
  by (auto simp: starts_with_def) (metis append_take_drop_id)

lemma ends_with_iff: "ends_with s p \<longleftrightarrow> (\<exists>r. s = r @ p)"
  by (auto simp: ends_with_def) (metis append_take_drop_id)

lemma contains_iff: "contains p s \<longleftrightarrow> (\<exists>a b. s = a @ p @ b)"
proof (induction s)
  case (Cons c s)
  show ?case
  proof
    assume "contains p (c # s)"
    then show "\<exists>a b. c # s = a @ p @ b"
      using Cons.IH by (auto simp: starts_with_iff) (metis append_Cons append_Nil)+
  next
    assume "\<exists>a b. c # s = a @ p @ b"
    then obtain a b where ab: "c # s = a @ p @ b" by blast
    show "contains p (c # s)"
    proof (cases a)
      case Nil
      then have "starts_with (c # s) p" using ab by (auto simp: starts_with_iff)
      then show ?thesis by simp
    next
      case (Cons a' as)
      with ab have "s = as @ p @ b" by simp
      with Cons.IH show ?thesis by auto
    qed
  qed
qed simp

lemma of_char_digit: "0 \<le> n \<Longrightarrow> n < 10 \<Longrightarrow> of_char (char_of (48 + n :: int)) = (48 + n :: int)"
  by simp

lemma is_digit_char: "0 \<le> n \<Longrightarrow> n < 10 \<Longrightarrow> is_digit (char_of (48 + n :: int))"
proof -
  assume n: "0 \<le> n" "n < 10"
  then have "(of_char (char_of (48 + n :: int)) :: nat) = nat (48 + n)"
    by (metis nat_int of_nat_of_char of_char_digit)
  moreover have "48 \<le> nat (48 + n)" "nat (48 + n) \<le> 57" using n by linarith+
  ultimately show ?thesis by (simp add: is_digit_def Let_def)
qed

lemma dec_str_digits: "0 \<le> n \<Longrightarrow> \<forall>c \<in> set (dec_str n). is_digit c"
proof (induction n rule: dec_str.induct)
  case (1 n)
  then show ?case
    by (cases "n < 10") (auto simp: dec_str.simps [of n] is_digit_char)
qed

lemma dec_val_snoc: "dec_val (s @ [c]) = 10 * dec_val s + digit_val c"
  by (simp add: dec_val_def)

lemma dec_val_dec_str: "0 \<le> n \<Longrightarrow> dec_val (dec_str n) = n"
proof (induction n rule: dec_str.induct)
  case (1 n)
  show ?case
  proof (cases "n < 10")
    case True
    then show ?thesis using "1.prems"
      by (simp add: dec_str.simps [of n] dec_val_def digit_val_def)
  next
    case False
    with "1.IH" show ?thesis
      by (simp add: dec_str.simps [of n] dec_val_snoc digit_val_def)
  qed
qed

lemma dec_str_inj: "0 \<le> m \<Longrightarrow> 0 \<le> n \<Longrightarrow> dec_str m = dec_str n \<Longrightarrow> m = n"
  by (metis dec_val_dec_str)

lemma dec_str_nonempty [simp]: "dec_str n \<noteq> []"
  by (subst dec_str.simps) simp

end
