(* ===== verification/PyFloat.thy ===== *)
theory PyFloat
  imports Complex_Main Prelude
begin

text \<open>
  Python's \<open>float\<close> as the code uses it: finite IEEE-754 binary64 values, represented by the
  rational they denote, every operation being the exact rational operation followed by one
  rounding to nearest, ties to even. Infinities, NaN and the sign of zero are not represented:
  the modelled code only combines byte counts, confidences and time stamps, far from overflow.
  The lemmas give what the component proofs need of rounding: it is monotone, odd, and exact
  on small integers, so a bound that is itself a float survives rounding.
\<close>

type_synonym pyfloat = rat

section \<open>Round half to even\<close>

definition rhe :: "rat \<Rightarrow> int" where
  "rhe x = (let f = \<lfloor>x\<rfloor>; d = x - of_int f in
     if d < 1 / 2 then f else if 1 / 2 < d then f + 1 else if even f then f else f + 1)"

lemma rhe_of_int [simp]: "rhe (of_int k) = k"
  by (simp add: rhe_def Let_def)

lemma rhe_0 [simp]: "rhe 0 = 0" and rhe_1 [simp]: "rhe 1 = 1"
  using rhe_of_int [of 0] rhe_of_int [of 1] by simp_all

lemma rhe_numeral [simp]: "rhe (numeral n) = numeral n"
  using rhe_of_int [of "numeral n"] by simp

lemma rhe_cases: "rhe x = \<lfloor>x\<rfloor> \<or> rhe x = \<lfloor>x\<rfloor> + 1"
  by (simp add: rhe_def Let_def)

lemma rhe_near: "\<bar>of_int (rhe x) - x\<bar> \<le> 1 / 2"
proof -
  have "of_int \<lfloor>x\<rfloor> \<le> x" and "x < of_int \<lfloor>x\<rfloor> + 1"
    using floor_correct [of x] by simp_all
  then show ?thesis by (auto simp: rhe_def Let_def abs_le_iff)
qed

lemma rhe_mono: "x \<le> y \<Longrightarrow> rhe x \<le> rhe y"
proof -
  assume le: "x \<le> y"
  then have fl: "\<lfloor>x\<rfloor> \<le> \<lfloor>y\<rfloor>" by (rule floor_mono)
  show ?thesis
  proof (cases "\<lfloor>x\<rfloor> = \<lfloor>y\<rfloor>")
    case True
    with le show ?thesis by (auto simp: rhe_def Let_def)
  next
    case False
    with fl have "\<lfloor>x\<rfloor> + 1 \<le> \<lfloor>y\<rfloor>" by simp
    moreover have "rhe x \<le> \<lfloor>x\<rfloor> + 1" and "\<lfloor>y\<rfloor> \<le> rhe y"
      using rhe_cases [of x] rhe_cases [of y] by auto
    ultimately show ?thesis by linarith
  qed
qed

lemma rhe_minus: "rhe (- x) = - rhe x"
proof (cases "x = of_int \<lfloor>x\<rfloor>")
  case True
  then show ?thesis by (metis of_int_minus rhe_of_int)
next
  case False
  then have "\<lfloor>- x\<rfloor> = - \<lfloor>x\<rfloor> - 1"
    by (metis Ints_of_int ceiling_altdef floor_minus minus_diff_eq diff_minus_eq_add
        add.commute minus_add_distrib uminus_add_conv_diff)
  then show ?thesis by (auto simp: rhe_def Let_def)
qed

lemma rhe_nonneg: "0 \<le> x \<Longrightarrow> 0 \<le> rhe x"
  using rhe_mono [of 0 x] by simp

section \<open>The binary exponent\<close>

text \<open>\<open>expo x\<close> is the \<open>e\<close> with \<open>2^e \<le> x < 2^(e+1)\<close>, for \<open>x > 0\<close>.\<close>

function expo :: "rat \<Rightarrow> int" where
  "expo x = (if x \<le> 0 then 0 else if 2 \<le> x then expo (x / 2) + 1
             else if x < 1 then expo (2 * x) - 1 else 0)"
  by pat_completeness auto
termination
proof (relation "measure (\<lambda>x. nat \<lfloor>if 1 \<le> x then x else 2 / x\<rfloor>)", goal_cases)
  case (2 x)
  then have "\<lfloor>x / 2\<rfloor> < \<lfloor>x\<rfloor>" by linarith
  with 2 show ?case by (simp add: nat_less_eq_zless)
next
  case (3 x)
  then have pos: "0 < x" and lt: "x < 1" by simp_all
  show ?case
  proof (cases "1 \<le> 2 * x")
    case True
    have "2 < 2 / x" using pos lt by (simp add: field_simps)
    then have "2 \<le> \<lfloor>2 / x\<rfloor>" by (simp add: le_floor_iff)
    moreover have "\<lfloor>2 * x\<rfloor> = 1" using True lt by (simp add: floor_eq_iff)
    ultimately show ?thesis using True lt by simp
  next
    case False
    have "2 / (2 * x) = 1 / x" by simp
    moreover have "2 / x = 1 / x + 1 / x" by simp
    moreover have "1 < 1 / x" using pos lt by (simp add: field_simps)
    ultimately have "\<lfloor>2 / (2 * x)\<rfloor> < \<lfloor>2 / x\<rfloor>" by linarith
    moreover have "0 \<le> \<lfloor>2 / (2 * x)\<rfloor>" using pos by simp
    moreover have "1 \<le> 2 / x" using pos lt by (simp add: field_simps)
    ultimately show ?thesis using False lt by (simp add: nat_less_eq_zless)
  qed
qed simp

declare expo.simps [simp del]

lemma powi_Suc: "(2::rat) powi (e + 1) = 2 * 2 powi e"
  by (simp add: power_int_add)

lemma powi_pos [simp]: "0 < (2::rat) powi e"
  by (simp add: zero_less_power_int)

lemma powi_mono: "a \<le> b \<Longrightarrow> (2::rat) powi a \<le> 2 powi b"
  by (rule power_int_increasing) auto

lemma expo_bounds: "0 < x \<Longrightarrow> 2 powi (expo x) \<le> x \<and> x < 2 * 2 powi (expo x)"
proof (induction x rule: expo.induct)
  case (1 x)
  consider "2 \<le> x" | "x < 1" | "1 \<le> x" "x < 2" by linarith
  then show ?case
  proof cases
    case 1
    with "1.IH"(1) have "2 powi (expo (x / 2)) \<le> x / 2 \<and> x / 2 < 2 * 2 powi (expo (x / 2))"
      by simp
    moreover have "expo x = expo (x / 2) + 1"
      using 1 by (simp add: expo.simps [of x])
    ultimately show ?thesis by (simp only: powi_Suc) linarith
  next
    case 2
    with "1.IH"(2) "1.prems" have IH: "2 powi (expo (2 * x)) \<le> 2 * x \<and> 2 * x < 2 * 2 powi (expo (2 * x))"
      by simp
    have "expo x = expo (2 * x) - 1"
      using 2 "1.prems" by (simp add: expo.simps [of x])
    then have "expo (2 * x) = expo x + 1" by simp
    with IH have "2 powi (expo x + 1) \<le> 2 * x \<and> 2 * x < 2 * 2 powi (expo x + 1)" by simp
    then show ?thesis by (simp only: powi_Suc) linarith
  next
    case 3
    then have "expo x = 0" by (simp add: expo.simps [of x])
    with 3 show ?thesis by simp
  qed
qed

lemma powi_less_cancel: "(2::rat) powi a < 2 powi b \<Longrightarrow> a < b"
  using powi_mono [of b a] by linarith

lemma expo_mono: "0 < x \<Longrightarrow> x \<le> y \<Longrightarrow> expo x \<le> expo y"
proof -
  assume pos: "0 < x" and le: "x \<le> y"
  have "2 powi (expo x) \<le> x" using expo_bounds [OF pos] by simp
  also have "\<dots> \<le> y" by fact
  also have "\<dots> < 2 powi (expo y + 1)" using expo_bounds [of y] pos le by (simp add: powi_Suc)
  finally show ?thesis using powi_less_cancel by fastforce
qed

lemma expo_unique: "2 powi e \<le> x \<Longrightarrow> x < 2 * 2 powi e \<Longrightarrow> expo x = e"
proof -
  assume lo: "2 powi e \<le> x" and hi: "x < 2 * 2 powi e"
  have pos: "0 < x" using lo powi_pos [of e] by linarith
  have "(2::rat) powi e < 2 powi (expo x + 1)"
    using lo expo_bounds [OF pos] by (simp add: powi_Suc)
  moreover have "(2::rat) powi (expo x) < 2 powi (e + 1)"
    using hi expo_bounds [OF pos] by (simp add: powi_Suc)
  ultimately have "e < expo x + 1" and "expo x < e + 1"
    using powi_less_cancel by blast+
  then show ?thesis by simp
qed

section \<open>Rounding to binary64\<close>

text \<open>The unit in the last place at \<open>x\<close>: 53 significand bits, smallest exponent -1074.\<close>

definition ulp :: "rat \<Rightarrow> rat" where
  "ulp x = 2 powi (max (expo \<bar>x\<bar>) (- 1022) - 52)"

definition rnd :: "rat \<Rightarrow> pyfloat" where
  "rnd x = (if x = 0 then 0 else of_int (rhe (x / ulp x)) * ulp x)"

lemma ulp_pos [simp]: "0 < ulp x"
  by (simp add: ulp_def)

lemma rnd_0 [simp]: "rnd 0 = 0"
  by (simp add: rnd_def)

lemma rnd_minus: "rnd (- x) = - rnd x"
  by (simp add: rnd_def ulp_def rhe_minus)

lemma rnd_error: "\<bar>rnd x - x\<bar> \<le> ulp x / 2"
proof (cases "x = 0")
  case True
  then show ?thesis using less_imp_le [OF ulp_pos [of 0]] by simp
next
  case False
  have "rnd x - x = (of_int (rhe (x / ulp x)) - x / ulp x) * ulp x"
    using False less_imp_neq [OF ulp_pos [of x]] by (simp add: rnd_def field_simps)
  then have "\<bar>rnd x - x\<bar> = \<bar>of_int (rhe (x / ulp x)) - x / ulp x\<bar> * ulp x"
    by (simp add: abs_mult less_imp_le [OF ulp_pos])
  also have "\<dots> \<le> 1 / 2 * ulp x"
    by (rule mult_right_mono) (use rhe_near [of "x / ulp x"] less_imp_le [OF ulp_pos [of x]] in simp_all)
  finally show ?thesis by simp
qed

text \<open>A multiple of the unit in the last place is a float.\<close>

lemma rnd_multiple: "rnd x = x" if "x = of_int k * ulp x"
proof (cases "x = 0")
  case False
  have "x / ulp x = of_int k" using that ulp_pos [of x] by (metis divide_eq_eq less_irrefl)
  then show ?thesis using False that by (simp add: rnd_def)
qed simp

lemma ulp_dvd_pow: "e \<le> a \<Longrightarrow> \<exists>k::int. (2::rat) powi a = of_int k * 2 powi e"
proof -
  assume "e \<le> a"
  then have "(2::rat) powi a = 2 powi (a - e) * 2 powi e"
    by (simp flip: power_int_add)
  also have "(2::rat) powi (a - e) = of_int (2 ^ nat (a - e))"
    using \<open>e \<le> a\<close> by (simp add: power_int_def)
  finally show ?thesis by blast
qed

lemma rnd_pow: "- 1074 \<le> a \<Longrightarrow> rnd (2 powi a) = 2 powi a"
proof -
  assume a: "- 1074 \<le> a"
  have "expo (2 powi a) = a" by (rule expo_unique) simp_all
  then have "ulp (2 powi a) = 2 powi (max a (- 1022) - 52)" by (simp add: ulp_def)
  moreover have "max a (- 1022) - 52 \<le> a" using a by simp
  ultimately show ?thesis using ulp_dvd_pow rnd_multiple by metis
qed

lemma rnd_nonneg: "0 \<le> x \<Longrightarrow> 0 \<le> rnd x"
  by (auto simp: rnd_def intro!: mult_nonneg_nonneg rhe_nonneg less_imp_le [OF ulp_pos]
      divide_nonneg_pos)

text \<open>Within one binade rounding is monotone because \<open>rhe\<close> is.\<close>

lemma rnd_mono_same:
  assumes "0 < x" "x \<le> y" "ulp x = ulp y"
  shows "rnd x \<le> rnd y"
proof -
  have "rhe (x / ulp x) \<le> rhe (y / ulp x)"
    by (rule rhe_mono) (rule divide_right_mono [OF assms(2) less_imp_le [OF ulp_pos]])
  then have "of_int (rhe (x / ulp x)) * ulp x \<le> of_int (rhe (y / ulp x)) * ulp x"
    by (intro mult_right_mono) (simp_all add: less_imp_le)
  then show ?thesis using assms by (simp add: rnd_def)
qed

text \<open>The binade's upper end is a float and bounds the rounded value; so does its lower end.\<close>

lemma rnd_le_binade:
  assumes "0 < x" "- 1022 \<le> expo x"
  shows "rnd x \<le> 2 powi (expo x + 1)"
proof -
  let ?u = "ulp x" and ?e = "expo x"
  have u: "?u = 2 powi (?e - 52)" using assms by (simp add: ulp_def)
  obtain k :: int where k: "(2::rat) powi (?e + 1) = of_int k * ?u"
    using ulp_dvd_pow [of "?e - 52" "?e + 1"] u by auto
  have "x \<le> of_int k * ?u" using expo_bounds [OF assms(1)] k by (simp add: powi_Suc)
  then have "x / ?u \<le> of_int k" using ulp_pos [of x] by (simp add: divide_le_eq)
  then have "rhe (x / ?u) \<le> k" using rhe_mono rhe_of_int by metis
  then have "of_int (rhe (x / ?u)) * ?u \<le> of_int k * ?u"
    by (intro mult_right_mono) (simp_all add: less_imp_le)
  then show ?thesis using assms k by (simp add: rnd_def)
qed

lemma rnd_ge_binade:
  assumes "0 < x" "- 1022 \<le> expo x"
  shows "2 powi (expo x) \<le> rnd x"
proof -
  let ?u = "ulp x" and ?e = "expo x"
  have u: "?u = 2 powi (?e - 52)" using assms by (simp add: ulp_def)
  obtain k :: int where k: "(2::rat) powi ?e = of_int k * ?u"
    using ulp_dvd_pow [of "?e - 52" ?e] u by auto
  have "of_int k * ?u \<le> x" using expo_bounds [OF assms(1)] k by simp
  then have "of_int k \<le> x / ?u" using ulp_pos [of x] by (simp add: le_divide_eq)
  then have "k \<le> rhe (x / ?u)" using rhe_mono rhe_of_int by metis
  then have "of_int k * ?u \<le> of_int (rhe (x / ?u)) * ?u"
    by (intro mult_right_mono) (simp_all add: less_imp_le)
  then show ?thesis using assms k by (simp add: rnd_def)
qed

lemma rnd_mono_pos: "0 < x \<Longrightarrow> x \<le> y \<Longrightarrow> rnd x \<le> rnd y"
proof -
  assume x: "0 < x" and le: "x \<le> y"
  then have y: "0 < y" by simp
  show ?thesis
  proof (cases "ulp x = ulp y")
    case True
    then show ?thesis using rnd_mono_same x le by blast
  next
    case False
    have ee: "expo x \<le> expo y" using expo_mono x le by blast
    from False x y have "max (expo x) (- 1022) \<noteq> max (expo y) (- 1022)"
      by (auto simp: ulp_def)
    with ee have ey: "- 1022 < expo y" and ne: "max (expo x) (- 1022) < expo y"
      by (auto simp: max_def split: if_splits)
    have "rnd x \<le> 2 powi (expo y)"
    proof (cases "- 1022 \<le> expo x")
      case True
      have "rnd x \<le> 2 powi (expo x + 1)" by (rule rnd_le_binade [OF x True])
      also have "\<dots> \<le> 2 powi (expo y)" using ne by (intro powi_mono) simp
      finally show ?thesis .
    next
      case False
      have ux: "ulp x = 2 powi (- 1074)" using False x by (simp add: ulp_def)
      obtain k :: int where k: "(2::rat) powi (expo y) = of_int k * ulp x"
        using ulp_dvd_pow [of "- 1074" "expo y"] ey ux by auto
      have "x < 2 powi (expo x + 1)" using expo_bounds [OF x] by (simp add: powi_Suc)
      also have "\<dots> \<le> 2 powi (expo y)" using False ey by (intro powi_mono) simp
      finally have "x / ulp x \<le> of_int k" using k ulp_pos [of x] by (simp add: divide_le_eq)
      then have "rhe (x / ulp x) \<le> k" using rhe_mono rhe_of_int by metis
      then have "of_int (rhe (x / ulp x)) * ulp x \<le> of_int k * ulp x"
        by (intro mult_right_mono) (simp_all add: less_imp_le)
      then show ?thesis using x k by (simp add: rnd_def)
    qed
    also have "\<dots> \<le> rnd y" using rnd_ge_binade [OF y] ey by simp
    finally show ?thesis .
  qed
qed

theorem rnd_mono: "x \<le> y \<Longrightarrow> rnd x \<le> rnd y"
proof -
  assume le: "x \<le> y"
  consider "0 < x" | "x \<le> 0" "0 \<le> y" | "y < 0" by linarith
  then show ?thesis
  proof cases
    case 1
    then show ?thesis using le rnd_mono_pos by blast
  next
    case 2
    have "rnd x \<le> 0" using rnd_nonneg [of "- x"] 2 by (simp add: rnd_minus)
    then show ?thesis using rnd_nonneg [of y] 2 by simp
  next
    case 3
    then have "rnd (- y) \<le> rnd (- x)" using le by (intro rnd_mono_pos) simp_all
    then show ?thesis by (simp add: rnd_minus)
  qed
qed

text \<open>Integers of at most 53 bits are floats.\<close>

lemma rnd_of_int: "\<bar>k\<bar> < 2 ^ 53 \<Longrightarrow> rnd (of_int k) = of_int k"
proof (cases "k = 0")
  case False
  assume k: "\<bar>k\<bar> < 2 ^ 53"
  let ?x = "\<bar>of_int k\<bar> :: rat"
  have pos: "0 < ?x" and ge1: "1 \<le> ?x" using False by (auto simp: abs_if)
  have lt: "?x < 2 powi 53" using k
    by (metis of_int_abs of_int_less_iff of_int_numeral of_int_power power_int_numeral)
  have "expo 1 \<le> expo ?x" by (rule expo_mono) (use ge1 in simp_all)
  moreover have "expo 1 = 0" by (rule expo_unique) simp_all
  ultimately have e0: "0 \<le> expo ?x" by simp
  have "2 powi (expo ?x) < (2::rat) powi 53"
    using expo_bounds [OF pos] lt by linarith
  then have e52: "expo ?x - 52 \<le> 0" using powi_less_cancel by fastforce
  have u: "ulp (of_int k) = 2 powi (expo ?x - 52)" using e0 by (simp add: ulp_def)
  obtain j :: int where "(2::rat) powi 0 = of_int j * ulp (of_int k)"
    using ulp_dvd_pow [OF e52] u by auto
  then have "(of_int k :: rat) = of_int (k * j) * ulp (of_int k)" by simp
  then show ?thesis by (rule rnd_multiple)
qed simp

lemma rnd_1 [simp]: "rnd 1 = 1"
  using rnd_of_int [of 1] by simp

section \<open>Arithmetic of floats\<close>

definition fadd :: "pyfloat \<Rightarrow> pyfloat \<Rightarrow> pyfloat" where "fadd x y = rnd (x + y)"
definition fsub :: "pyfloat \<Rightarrow> pyfloat \<Rightarrow> pyfloat" where "fsub x y = rnd (x - y)"
definition fmul :: "pyfloat \<Rightarrow> pyfloat \<Rightarrow> pyfloat" where "fmul x y = rnd (x * y)"
definition fdiv :: "pyfloat \<Rightarrow> pyfloat \<Rightarrow> pyfloat" where "fdiv x y = rnd (x / y)"

text \<open>
  \<open>int / int\<close> in Python is the correctly rounded quotient. Both \<open>fdiv\<close> and \<open>idiv\<close> are used
  only behind the code's own zero tests.
\<close>

definition idiv :: "int \<Rightarrow> int \<Rightarrow> pyfloat" where "idiv a b = rnd (of_int a / of_int b)"

text \<open>\<open>round(x, n)\<close>: correctly rounded to \<open>n\<close> decimals, then to the nearest float.\<close>

definition pyround :: "nat \<Rightarrow> pyfloat \<Rightarrow> pyfloat" where
  "pyround n x = rnd (of_int (rhe (x * 10 ^ n)) / 10 ^ n)"

definition unit_interval :: "pyfloat \<Rightarrow> bool" where
  "unit_interval x \<longleftrightarrow> 0 \<le> x \<and> x \<le> 1"

lemma rnd_le_1: "x \<le> 1 \<Longrightarrow> rnd x \<le> 1"
  using rnd_mono [of x 1] by simp

lemma rnd_unit: "unit_interval x \<Longrightarrow> unit_interval (rnd x)"
  by (simp add: unit_interval_def rnd_nonneg rnd_le_1)

lemma pyround_mono: "x \<le> y \<Longrightarrow> pyround n x \<le> pyround n y"
  unfolding pyround_def
  by (intro rnd_mono divide_right_mono) (simp_all add: rhe_mono mult_right_mono)

lemma pyround_0 [simp]: "pyround n 0 = 0"
  by (simp add: pyround_def)

lemma pyround_1 [simp]: "pyround n 1 = 1"
  using rhe_of_int [of "10 ^ n"] by (simp add: pyround_def)

lemma pyround_nonneg: "0 \<le> x \<Longrightarrow> 0 \<le> pyround n x"
  using pyround_mono [of 0 x n] by simp

lemma pyround_le_1: "x \<le> 1 \<Longrightarrow> pyround n x \<le> 1"
  using pyround_mono [of x 1 n] by simp

lemma pyround_unit: "unit_interval x \<Longrightarrow> unit_interval (pyround n x)"
  by (simp add: unit_interval_def pyround_nonneg pyround_le_1)

lemma pyround_min_unit: "0 \<le> c \<Longrightarrow> unit_interval (pyround n (min c 1))"
  by (rule pyround_unit) (simp add: unit_interval_def)

text \<open>Deciding a rounded value: the exponent, the significand and a half-ulp bound pin it down.\<close>

lemma ulp_eqI: "2 powi e \<le> \<bar>x\<bar> \<Longrightarrow> \<bar>x\<bar> < 2 * 2 powi e \<Longrightarrow> - 1022 \<le> e \<Longrightarrow>
    ulp x = 2 powi (e - 52)"
  using expo_unique [of e "\<bar>x\<bar>"] by (simp add: ulp_def)

section \<open>Evaluation of rounding on integers\<close>

text \<open>
  The rational operations normalise their results; evaluating \<open>rnd\<close> on the numerator and the
  denominator alone keeps computations on floats fast.
\<close>

function expo_int :: "int \<Rightarrow> int \<Rightarrow> int" where
  "expo_int n d =
     (if n \<le> 0 \<or> d \<le> 0 then 0 else if 2 * d \<le> n then expo_int n (2 * d) + 1
      else if n < d then expo_int (2 * n) d - 1 else 0)"
  by pat_completeness auto
termination
  by (relation "measure (\<lambda>(n, d). if d \<le> n then nat (n - d) else nat (2 * d - n))") auto

declare expo_int.simps [simp del]

lemma expo_int: "0 < n \<Longrightarrow> 0 < d \<Longrightarrow> expo (of_int n / of_int d) = expo_int n d"
proof (induction n d rule: expo_int.induct)
  case (1 n d)
  have pos: "0 < (of_int n / of_int d :: rat)" using 1 by simp
  have two: "(2 :: rat) \<le> of_int n / of_int d \<longleftrightarrow> 2 * d \<le> n" "(of_int n / of_int d :: rat) < 1 \<longleftrightarrow> n < d"
    using \<open>0 < d\<close> of_int_le_iff [where 'a = rat, of "2 * d" n] by (simp_all add: field_simps)
  have half: "of_int n / of_int d / 2 = (of_int n / of_int (2 * d) :: rat)"
    "2 * (of_int n / of_int d) = (of_int (2 * n) / of_int d :: rat)" by simp_all
  have "\<not> of_int n / of_int d \<le> (0 :: rat)" using pos by simp
  moreover note IH = "1.IH"
  ultimately show ?case
    using 1 two(1) two(2) half
    by (simp only: expo.simps [of "of_int n / of_int d"] expo_int.simps [of n d]) (simp del: divide_divide_eq_left)
qed

definition rhe_int :: "int \<Rightarrow> int \<Rightarrow> int" where
  "rhe_int n d = (let q = n div d; r = 2 * (n mod d) in
     if r < d then q else if d < r then q + 1 else if even q then q else q + 1)"

lemma rhe_int: "0 < d \<Longrightarrow> rhe (of_int n / of_int d) = rhe_int n d"
proof -
  assume d: "0 < d"
  have fl: "\<lfloor>of_int n / of_int d :: rat\<rfloor> = n div d" by (rule floor_divide_of_int_eq)
  have "of_int n / of_int d - of_int (n div d) = (of_int (n mod d) / of_int d :: rat)"
  proof -
    have "(of_int n :: rat) = of_int (n div d) * of_int d + of_int (n mod d)"
      by (metis div_mult_mod_eq of_int_add of_int_mult)
    then show ?thesis using d by (simp add: field_simps)
  qed
  moreover have "(of_int (n mod d) / of_int d :: rat) < 1 / 2 \<longleftrightarrow> 2 * (n mod d) < d"
    "(1 / 2 :: rat) < of_int (n mod d) / of_int d \<longleftrightarrow> d < 2 * (n mod d)"
    using d of_int_less_iff [where 'a = rat, of "2 * (n mod d)" d] of_int_less_iff [where 'a = rat, of d "2 * (n mod d)"]
    by (simp_all add: field_simps)
  ultimately show ?thesis unfolding rhe_def rhe_int_def Let_def fl by (simp only:)
qed

definition round_pair :: "int \<Rightarrow> int \<Rightarrow> int \<times> int" where
  "round_pair n d =
     (if n = 0 then (0, 1)
      else let e = max (expo_int \<bar>n\<bar> d) (- 1022) - 52 in
        if 0 \<le> e then (rhe_int n (d * 2 ^ nat e) * 2 ^ nat e, 1)
        else Rat.normalize (rhe_int (n * 2 ^ nat (- e)) d, 2 ^ nat (- e)))"

lemma round_pair:
  assumes "0 < d"
  shows "quotient_of (rnd (of_int n / of_int d)) = round_pair n d"
proof (cases "n = 0")
  case False
  define e where "e = max (expo_int \<bar>n\<bar> d) (- 1022) - 52"
  have u: "ulp (of_int n / of_int d) = 2 powi e"
    using expo_int [of "\<bar>n\<bar>" d] False assms by (simp add: ulp_def e_def)
  show ?thesis
  proof (cases "0 \<le> e")
    case True
    then have p: "(2 :: rat) powi e = of_int (2 ^ nat e)" by (simp add: power_int_def)
    have nz: "of_int n / of_int d \<noteq> (0 :: rat)" using False assms by simp
    have "of_int n / of_int d / of_int (2 ^ nat e) = (of_int n / of_int (d * 2 ^ nat e) :: rat)" by simp
    then have "rnd (of_int n / of_int d) = of_int (rhe_int n (d * 2 ^ nat e) * 2 ^ nat e)"
      using rhe_int [of "d * 2 ^ nat e" n] assms nz by (simp only: rnd_def u p if_False) simp
    then show ?thesis
      using False True by (simp only: round_pair_def Let_def e_def [symmetric] if_True if_False quotient_of_int [unfolded Rat.of_int_def])
  next
    case neg: False
    then have p: "(2 :: rat) powi e = 1 / of_int (2 ^ nat (- e))"
      unfolding power_int_def if_not_P [OF neg] power_inverse of_int_power of_int_numeral by (simp only: inverse_eq_divide)
    have nz: "of_int n / of_int d \<noteq> (0 :: rat)" using False assms by simp
    have eq: "of_int n / of_int d / (1 / of_int (2 ^ nat (- e))) = (of_int (n * 2 ^ nat (- e)) / of_int d :: rat)" by simp
    then have "rnd (of_int n / of_int d) = of_int (rhe_int (n * 2 ^ nat (- e)) d) / of_int (2 ^ nat (- e))"
      unfolding rnd_def u p eq rhe_int [OF assms] if_not_P [OF nz] by (simp only: times_divide_eq_right mult_1_right)
    then have "rnd (of_int n / of_int d) = Fract (rhe_int (n * 2 ^ nat (- e)) d) (2 ^ nat (- e))"
      by (simp add: Fract_of_int_quotient)
    then show ?thesis
      using False neg by (simp only: round_pair_def Let_def e_def [symmetric] if_False quotient_of_Fract)
  qed
qed (simp add: round_pair_def)

lemma quotient_of_rnd [code abstract]:
  "quotient_of (rnd x) = (case quotient_of x of (n, d) \<Rightarrow> round_pair n d)"
proof -
  obtain n d where q: "quotient_of x = (n, d)" by fastforce
  then have "x = of_int n / of_int d" "0 < d"
    using quotient_of_div quotient_of_denom_pos by blast+
  then show ?thesis using round_pair [of d n] q by simp
qed
end
