(* ===== verification/PyVal.thy ===== *)
theory PyVal
  imports PyStr PyFloat
begin

text \<open>
  Values as they come out of \<open>json.load\<close>, with the Python operations the code applies to them:
  truth value, \<open>str\<close>, \<open>dict.get\<close>, \<open>isinstance\<close>.
\<close>

datatype pyval =
    JNull
  | JBool bool
  | JInt int
  | JFloat pyfloat
  | JStr string
  | JList "pyval list"
  | JObj "(string \<times> pyval) list"

section \<open>Shape and truth\<close>

fun truth :: "pyval \<Rightarrow> bool" where
  "truth JNull = False"
| "truth (JBool b) = b"
| "truth (JInt k) = (k \<noteq> 0)"
| "truth (JFloat x) = (x \<noteq> 0)"
| "truth (JStr s) = (s \<noteq> [])"
| "truth (JList xs) = (xs \<noteq> [])"
| "truth (JObj d) = (d \<noteq> [])"

fun is_obj :: "pyval \<Rightarrow> bool" where
  "is_obj (JObj d) = True"
| "is_obj _ = False"

fun obj_of :: "pyval \<Rightarrow> (string \<times> pyval) list" where
  "obj_of (JObj d) = d"
| "obj_of _ = []"

fun list_of :: "pyval \<Rightarrow> pyval list option" where
  "list_of (JList xs) = Some xs"
| "list_of _ = None"

text \<open>\<open>d.get(k)\<close> on a dictionary's items.\<close>

definition get :: "(string \<times> pyval) list \<Rightarrow> string \<Rightarrow> pyval" where
  "get d k = (case map_of d k of None \<Rightarrow> JNull | Some v \<Rightarrow> v)"

text \<open>\<open>hash(v)\<close> succeeds: not a list or a dictionary.\<close>

fun hashable :: "pyval \<Rightarrow> bool" where
  "hashable (JList xs) = False"
| "hashable (JObj d) = False"
| "hashable _ = True"

fun type_name :: "pyval \<Rightarrow> string" where
  "type_name JNull = ''NoneType''"
| "type_name (JBool b) = ''bool''"
| "type_name (JInt k) = ''int''"
| "type_name (JFloat x) = ''float''"
| "type_name (JStr s) = ''str''"
| "type_name (JList xs) = ''list''"
| "type_name (JObj d) = ''dict''"

section \<open>Printing\<close>

text \<open>
  \<open>repr\<close> of a float: the shortest decimal that reads back as the same float, the closest one
  where several are equally short. \<open>dec_exp x\<close> is the decimal exponent of \<open>x > 0\<close>.
\<close>

fun dec_up :: "nat \<Rightarrow> int \<Rightarrow> rat \<Rightarrow> int" where
  "dec_up 0 e x = e"
| "dec_up (Suc n) e x = (if x < 10 then e else dec_up n (e + 1) (x / 10))"

fun dec_down :: "nat \<Rightarrow> int \<Rightarrow> rat \<Rightarrow> int" where
  "dec_down 0 e x = e"
| "dec_down (Suc n) e x = (if 1 \<le> x then e else dec_down n (e - 1) (x * 10))"

definition dec_exp :: "rat \<Rightarrow> int" where
  "dec_exp x = (if 1 \<le> x then dec_up 400 0 x else dec_down 400 0 x)"

text \<open>Significand candidates with \<open>n\<close> digits: the two neighbours that round back to \<open>x\<close>.\<close>

definition repr_candidate :: "pyfloat \<Rightarrow> int \<Rightarrow> nat \<Rightarrow> int option" where
  "repr_candidate x e n =
     (let u = (10::rat) powi (e - int n + 1); lo = \<lfloor>x / u\<rfloor>;
          ok = (\<lambda>k. rnd (of_int k * u) = x);
          near = (if x / u - of_int lo \<le> of_int (lo + 1) - x / u then lo else lo + 1)
      in if ok near then Some near
         else if ok (2 * lo + 1 - near) then Some (2 * lo + 1 - near) else None)"

fun repr_digits :: "pyfloat \<Rightarrow> int \<Rightarrow> nat \<Rightarrow> nat \<Rightarrow> int \<times> nat" where
  "repr_digits x e n 0 = (rhe (x / 10 powi (e - 16)), 17)"
| "repr_digits x e n (Suc fuel) =
     (case repr_candidate x e n of Some k \<Rightarrow> (k, n) | None \<Rightarrow> repr_digits x e (Suc n) fuel)"

definition float_repr :: "pyfloat \<Rightarrow> string" where
  "float_repr x =
     (if x = 0 then ''0.0''
      else let a = \<bar>x\<bar>; e0 = dec_exp a; (k, n) = repr_digits a e0 1 16;
               ds0 = dec_str k;
               e = e0 + int (length ds0) - int n;
               ds = rstrip_char (CHR ''0'') ds0;
               body =
                 (if - 4 \<le> e \<and> e < 16 then
                    (if e < 0 then ''0.'' @ replicate (nat (- e - 1)) (CHR ''0'') @ ds
                     else if int (length ds) \<le> e + 1
                     then ds @ replicate (nat (e + 1) - length ds) (CHR ''0'') @ ''.0''
                     else take (nat (e + 1)) ds @ ''.'' @ drop (nat (e + 1)) ds)
                  else take 1 ds @ (if length ds = 1 then [] else ''.'' @ drop 1 ds)
                     @ ''e'' @ (if e < 0 then ''-'' else ''+'')
                     @ (if \<bar>e\<bar> < 10 then ''0'' else []) @ dec_str \<bar>e\<bar>)
           in (if x < 0 then ''-'' else []) @ body)"

text \<open>\<open>'\{:.nf\}'.format(x)\<close> for \<open>x \<ge> 0\<close>.\<close>

definition fixed_str :: "nat \<Rightarrow> rat \<Rightarrow> string" where
  "fixed_str n x =
     (let k = rhe (\<bar>x\<bar> * 10 ^ n); w = k div 10 ^ n; f = dec_str (k mod 10 ^ n)
      in (if x < 0 then ''-'' else []) @ dec_str w
         @ (if n = 0 then [] else ''.'' @ replicate (n - length f) (CHR ''0'') @ f))"

definition escape_char :: "char \<Rightarrow> char \<Rightarrow> string" where
  "escape_char q c =
     (let n = of_char c :: nat; bs = char_of (92 :: nat) in
      if c = q \<or> c = bs then [bs, c]
      else if n = 10 then [bs, CHR ''n''] else if n = 13 then [bs, CHR ''r'']
      else if n = 9 then [bs, CHR ''t'']
      else if n < 32 \<or> n = 127 then [bs, CHR ''x''] @
        [''0123456789abcdef'' ! (n div 16), ''0123456789abcdef'' ! (n mod 16)]
      else [c])"

definition str_repr :: "string \<Rightarrow> string" where
  "str_repr s =
     (let sq = char_of (39 :: nat); dq = char_of (34 :: nat);
          q = (if sq \<in> set s \<and> dq \<notin> set s then dq else sq)
      in q # concat (map (escape_char q) s) @ [q])"

fun py_repr :: "pyval \<Rightarrow> string" where
  "py_repr JNull = ''None''"
| "py_repr (JBool b) = (if b then ''True'' else ''False'')"
| "py_repr (JInt k) = int_str k"
| "py_repr (JFloat x) = float_repr x"
| "py_repr (JStr s) = str_repr s"
| "py_repr (JList xs) = ''['' @ join '', '' (map py_repr xs) @ '']''"
| "py_repr (JObj d) = [char_of (123 :: nat)]
     @ join '', '' (map (\<lambda>(k, v). str_repr k @ '': '' @ py_repr v) d) @ [char_of (125 :: nat)]"

definition py_str :: "pyval \<Rightarrow> string" where
  "py_str v = (case v of JStr s \<Rightarrow> s | _ \<Rightarrow> py_repr v)"

lemma py_str_JStr [simp]: "py_str (JStr s) = s"
  by (simp add: py_str_def)

lemma get_simps [simp]: "get [] k = JNull"
  "get ((k', v) # d) k = (if k = k' then v else get d k)"
  by (simp_all add: get_def)

lemma get_dict_set [simp]: "get (dict_set k v d) k' = (if k' = k then v else get d k')"
  by (simp add: get_def)

lemma get_notin: "k \<notin> fst ` set d \<Longrightarrow> get d k = JNull"
  by (simp add: get_def map_of_eq_None_iff [THEN iffD2])

end
