(* ===== verification/PyTime.thy ===== *)
theory PyTime
  imports PyStr PyFloat
begin

text \<open>
  Python's \<open>datetime\<close> as the code uses it: microsecond resolution, naive or with a fixed UTC
  offset. \<open>fromisoformat\<close> accepts \<open>YYYY-MM-DD[*HH[:MM[:SS[.fff[fff]]]][+HH:MM[:SS[.ffffff]]]]\<close>,
  the documented grammar of Python 3.7 to 3.10, which is the one the code is written against
  (it replaces a final \<open>Z\<close> by \<open>+00:00\<close> before parsing).
\<close>

section \<open>The proleptic Gregorian calendar\<close>

definition is_leap :: "int \<Rightarrow> bool" where
  "is_leap y \<longleftrightarrow> y mod 4 = 0 \<and> (y mod 100 \<noteq> 0 \<or> y mod 400 = 0)"

definition days_before_year :: "int \<Rightarrow> int" where
  "days_before_year y = (let p = y - 1 in p * 365 + p div 4 - p div 100 + p div 400)"

definition days_in_month :: "int \<Rightarrow> int \<Rightarrow> int" where
  "days_in_month y m =
     (if m = 2 then (if is_leap y then 29 else 28)
      else if m \<in> {4, 6, 9, 11} then 30 else 31)"

fun days_before_month :: "int \<Rightarrow> nat \<Rightarrow> int" where
  "days_before_month y 0 = 0"
| "days_before_month y (Suc 0) = 0"
| "days_before_month y (Suc (Suc m)) = days_before_month y (Suc m) + days_in_month y (int (Suc m))"

text \<open>Day number of a date, day 1 being 0001-01-01 (\<open>date.toordinal\<close>).\<close>

definition ymd_ord :: "int \<Rightarrow> int \<Rightarrow> int \<Rightarrow> int" where
  "ymd_ord y m d = days_before_year y + days_before_month y (nat m) + d"

text \<open>The month and day of a day of the year, and the date of a day number.\<close>

fun month_day :: "int \<Rightarrow> nat \<Rightarrow> int \<Rightarrow> nat \<Rightarrow> int \<times> int" where
  "month_day y m n 0 = (int m, n + 1)"
| "month_day y m n (Suc fuel) =
     (if n < days_in_month y (int m) then (int m, n + 1)
      else month_day y (Suc m) (n - days_in_month y (int m)) fuel)"

definition ord_ymd :: "int \<Rightarrow> int \<times> int \<times> int" where
  "ord_ymd ordinal =
     (let n = ordinal - 1;
          n400 = n div 146097; r400 = n mod 146097;
          n100 = r400 div 36524; r100 = r400 mod 36524;
          n4 = r100 div 1461; r4 = r100 mod 1461;
          n1 = r4 div 365; r1 = r4 mod 365;
          y = n400 * 400 + n100 * 100 + n4 * 4 + n1 + 1
      in if n1 = 4 \<or> n100 = 4 then (y - 1, 12, 31)
         else (let (m, d) = month_day y 1 r1 11 in (y, m, d)))"

section \<open>Date-times\<close>

text \<open>
  \<open>wall\<close>: microseconds of the wall clock since 1970-01-01T00:00:00; \<open>utcoff\<close>: the offset in
  microseconds, \<open>None\<close> for a naive value.
\<close>

record datetime =
  wall :: int
  utcoff :: "int option"

definition utc_of :: "int \<Rightarrow> datetime" where
  "utc_of us = \<lparr>wall = us, utcoff = Some 0\<rparr>"

definition instant :: "datetime \<Rightarrow> int" where
  "instant t = wall t - (case utcoff t of None \<Rightarrow> 0 | Some f \<Rightarrow> f)"

definition aware :: "datetime \<Rightarrow> bool" where
  "aware t \<longleftrightarrow> utcoff t \<noteq> None"

text \<open>Subtraction and comparison: mixing naive and aware values is a \<open>TypeError\<close>.\<close>

definition dt_sub :: "datetime \<Rightarrow> datetime \<Rightarrow> int res" where
  "dt_sub a b =
     (if aware a = aware b then Inr (instant a - instant b)
      else Inl (TypeError ''can't subtract offset-naive and offset-aware datetimes''))"

definition dt_lt :: "datetime \<Rightarrow> datetime \<Rightarrow> bool res" where
  "dt_lt a b =
     (if aware a = aware b then Inr (instant a < instant b)
      else Inl (TypeError ''can't compare offset-naive and offset-aware datetimes''))"

text \<open>\<open>timedelta.total_seconds()\<close> of a difference in microseconds.\<close>

definition total_seconds :: "int \<Rightarrow> pyfloat" where
  "total_seconds us = idiv us (10 ^ 6)"

definition epoch_ord :: int where "epoch_ord = 719163"

section \<open>Parsing\<close>

definition digits2 :: "string \<Rightarrow> int option" where
  "digits2 s = (if length s = 2 \<and> (\<forall>c \<in> set s. is_digit c) then Some (dec_val s) else None)"

definition parse_date :: "string \<Rightarrow> int option" where
  "parse_date s =
     (if length s = 10 \<and> s ! 4 = CHR ''-'' \<and> s ! 7 = CHR ''-''
         \<and> (\<forall>c \<in> set (take 4 s @ take 2 (drop 5 s) @ drop 8 s). is_digit c)
      then (let y = dec_val (take 4 s); m = dec_val (take 2 (drop 5 s));
                d = dec_val (drop 8 s)
            in if 1 \<le> y \<and> 1 \<le> m \<and> m \<le> 12 \<and> 1 \<le> d \<and> d \<le> days_in_month y m
               then Some (ymd_ord y m d) else None)
      else None)"

definition parse_fraction :: "string \<Rightarrow> int option" where
  "parse_fraction s =
     (if \<not> (\<forall>c \<in> set s. is_digit c) then None
      else if length s = 3 then Some (1000 * dec_val s)
      else if length s = 6 then Some (dec_val s) else None)"

text \<open>\<open>HH[:MM[:SS[.fff[fff]]]]\<close> in microseconds.\<close>

definition hms :: "int option \<Rightarrow> int option \<Rightarrow> int option \<Rightarrow> int option \<Rightarrow> int option" where
  "hms h m s f =
     (case (h, m, s, f) of
        (Some h, Some m, Some s, Some f) \<Rightarrow>
          if h < 24 \<and> m < 60 \<and> s < 60 then Some (((h * 60 + m) * 60 + s) * 10 ^ 6 + f) else None
      | _ \<Rightarrow> None)"

definition parse_hms :: "string \<Rightarrow> int option" where
  "parse_hms t =
     (case split_on (CHR '':'') t of
        [h] \<Rightarrow> hms (digits2 h) (Some 0) (Some 0) (Some 0)
      | [h, m] \<Rightarrow> hms (digits2 h) (digits2 m) (Some 0) (Some 0)
      | [h, m, s] \<Rightarrow>
          (case split_once (CHR ''.'') s of
             None \<Rightarrow> hms (digits2 h) (digits2 m) (digits2 s) (Some 0)
           | Some (s', f) \<Rightarrow> hms (digits2 h) (digits2 m) (digits2 s') (parse_fraction f))
      | _ \<Rightarrow> None)"

definition parse_offset :: "int \<Rightarrow> string \<Rightarrow> int option" where
  "parse_offset sign s =
     (if length s \<in> {5, 8, 15} then map_option (\<lambda>v. sign * v) (parse_hms s) else None)"

text \<open>The time part: the first \<open>+\<close> or \<open>-\<close> starts the offset.\<close>

definition parse_time :: "string \<Rightarrow> (int \<times> int option) option" where
  "parse_time t =
     (let clk = takeWhile (\<lambda>c. c \<noteq> CHR ''+'' \<and> c \<noteq> CHR ''-'') t;
          rest = drop (length clk) t
      in case rest of
           [] \<Rightarrow> map_option (\<lambda>v. (v, None)) (parse_hms clk)
         | c # z \<Rightarrow>
             (case (parse_hms clk, parse_offset (if c = CHR ''-'' then - 1 else 1) z) of
                (Some v, Some f) \<Rightarrow> Some (v, Some f)
              | _ \<Rightarrow> None))"

definition day_us :: int where "day_us = 86400 * 10 ^ 6"

text \<open>\<open>datetime.fromisoformat\<close>; \<open>None\<close> is the \<open>ValueError\<close>.\<close>

definition fromisoformat :: "string \<Rightarrow> datetime option" where
  "fromisoformat s =
     (case parse_date (take 10 s) of
        None \<Rightarrow> None
      | Some n \<Rightarrow>
          let base = (n - epoch_ord) * day_us in
          if length s = 10 then Some \<lparr>wall = base, utcoff = None\<rparr>
          else map_option (\<lambda>(v, f). \<lparr>wall = base + v, utcoff = f\<rparr>) (parse_time (drop 11 s)))"

text \<open>The idiom \<open>datetime.fromisoformat(s.replace("Z", "+00:00"))\<close>.\<close>

definition parse_iso :: "string \<Rightarrow> datetime option" where
  "parse_iso s = fromisoformat (replace_char (CHR ''Z'') ''+00:00'' s)"

section \<open>Printing\<close>

definition pad :: "nat \<Rightarrow> int \<Rightarrow> string" where
  "pad w k = (let s = dec_str k in replicate (w - length s) (CHR ''0'') @ s)"

definition offset_str :: "int \<Rightarrow> string" where
  "offset_str f =
     (let a = \<bar>f\<bar>; h = a div (3600 * 10 ^ 6); m = a div (60 * 10 ^ 6) mod 60;
          s = a div 10 ^ 6 mod 60; u = a mod 10 ^ 6
      in (if f < 0 then ''-'' else ''+'') @ pad 2 h @ '':'' @ pad 2 m
         @ (if s = 0 \<and> u = 0 then [] else '':'' @ pad 2 s)
         @ (if u = 0 then [] else ''.'' @ pad 6 u))"

definition isoformat :: "datetime \<Rightarrow> string" where
  "isoformat t =
     (let (y, m, d) = ord_ymd (wall t div day_us + epoch_ord); v = wall t mod day_us;
          u = v mod 10 ^ 6; sec = v div 10 ^ 6
      in pad 4 y @ ''-'' @ pad 2 m @ ''-'' @ pad 2 d @ ''T''
         @ pad 2 (sec div 3600) @ '':'' @ pad 2 (sec div 60 mod 60) @ '':'' @ pad 2 (sec mod 60)
         @ (if u = 0 then [] else ''.'' @ pad 6 u)
         @ (case utcoff t of None \<Rightarrow> [] | Some f \<Rightarrow> offset_str f))"

section \<open>POSIX time stamps\<close>

text \<open>
  \<open>datetime.fromtimestamp(x, timezone.utc)\<close>: fractional part scaled and rounded half to even; a
  value outside the C library's 64-bit time is an \<open>OverflowError\<close>, a year outside 1 to 9999 a
  \<open>ValueError\<close>.
\<close>

definition trunc :: "rat \<Rightarrow> int" where
  "trunc x = (if 0 \<le> x then \<lfloor>x\<rfloor> else - \<lfloor>- x\<rfloor>)"

definition ts_us :: "pyfloat \<Rightarrow> int" where
  "ts_us x = trunc x * 10 ^ 6 + rhe (rnd ((x - of_int (trunc x)) * 10 ^ 6))"

definition fromtimestamp_utc :: "pyfloat \<Rightarrow> datetime res" where
  "fromtimestamp_utc x =
     (let us = ts_us x; n = us div day_us + epoch_ord in
      if 1 \<le> n \<and> n \<le> 3652059 then Inr (utc_of us)
      else if 2 ^ 63 \<le> \<bar>trunc x\<bar> then Inl OverflowError
      else Inl (ValueError ''year is out of range''))"

text \<open>\<open>t.timestamp()\<close> for an aware value.\<close>

definition timestamp :: "datetime \<Rightarrow> pyfloat" where
  "timestamp t = total_seconds (instant t)"

definition astimezone_utc :: "datetime \<Rightarrow> datetime" where
  "astimezone_utc t = utc_of (instant t)"

section \<open>Lemmas\<close>

lemma instant_utc_of [simp]: "instant (utc_of us) = us"
  and aware_utc_of [simp]: "aware (utc_of us)"
  and wall_utc_of [simp]: "wall (utc_of us) = us"
  and utcoff_utc_of [simp]: "utcoff (utc_of us) = Some 0"
  by (simp_all add: instant_def utc_of_def aware_def)

lemma dt_sub_aware: "aware a \<Longrightarrow> aware b \<Longrightarrow> dt_sub a b = Inr (instant a - instant b)"
  by (simp add: dt_sub_def)

lemma total_seconds_mono: "a \<le> b \<Longrightarrow> total_seconds a \<le> total_seconds b"
  unfolding total_seconds_def idiv_def by (intro rnd_mono divide_right_mono) simp_all

lemma total_seconds_0 [simp]: "total_seconds 0 = 0"
  by (simp add: total_seconds_def idiv_def)

lemma total_seconds_of_seconds:
  "\<bar>s\<bar> < 2 ^ 53 \<Longrightarrow> total_seconds (s * 10 ^ 6) = of_int s"
  using rnd_of_int [of s] by (simp add: total_seconds_def idiv_def)

text \<open>Rounding to seconds does not move a difference across a whole number of seconds.\<close>

lemma total_seconds_nonneg_iff: "0 \<le> total_seconds us \<longleftrightarrow> 0 \<le> us"
proof
  assume nn: "0 \<le> total_seconds us"
  show "0 \<le> us"
  proof (rule ccontr)
    assume "\<not> 0 \<le> us"
    then have "us \<le> - 1" by simp
    then have "total_seconds us \<le> total_seconds (- 1)" by (rule total_seconds_mono)
    also have "\<dots> < 0"
      by (simp add: total_seconds_def idiv_def rnd_def ulp_def expo.simps rhe_def Let_def)
    finally show False using nn by simp
  qed
qed (use total_seconds_mono [of 0 us] in simp)

end
