(* ===== verification/Etw.thy ===== *)
theory Etw
  imports PyVal PyTime
begin

text \<open>
  Ingestion of host access events (\<open>pipeline/etw_ingest.py\<close>): validation of one raw JSON
  event, of a batch in strict and in tolerant mode, and the clock-synchronisation assessment.
  \<open>ETWValidationError\<close> is a subclass of \<open>ValueError\<close> and is the only \<open>ValueError\<close> raised here.
\<close>

section \<open>Events\<close>

definition data_type_technique :: "(string \<times> string \<times> string) list" where
  "data_type_technique =
     [(''browser_credentials'', ''T1555.003'', ''Credentials from Web Browsers''),
      (''keystrokes'', ''T1056.001'', ''Keylogging''),
      (''screenshot'', ''T1113'', ''Screen Capture''),
      (''clipboard'', ''T1115'', ''Clipboard Data''),
      (''crypto_wallet'', ''T1005'', ''Data from Local System (crypto wallet)''),
      (''system_info'', ''T1082'', ''System Information Discovery''),
      (''file_access'', ''T1005'', ''Data from Local System (sensitive file)'')]"

definition valid_data_types :: "string list" where
  "valid_data_types = map fst data_type_technique"

definition sorted_data_types :: "string list" where
  "sorted_data_types = [''browser_credentials'', ''clipboard'', ''crypto_wallet'', ''file_access'',
     ''keystrokes'', ''screenshot'', ''system_info'']"

text \<open>\<open>ev_process\<close> is \<open>JNull\<close> for \<open>None\<close>: the code keeps whatever truthy value it finds.\<close>

record etw_event =
  ev_timestamp :: datetime
  ev_data_type :: string
  ev_api_call :: string
  ev_process :: pyval
  ev_raw_timestamp :: string
  ev_mitre :: "string option"
  ev_capability :: "string option"

definition to_dict :: "etw_event \<Rightarrow> (string \<times> pyval) list" where
  "to_dict e =
     [(''timestamp'', JStr (if ev_raw_timestamp e \<noteq> [] then ev_raw_timestamp e else isoformat (ev_timestamp e))),
      (''data_type'', JStr (ev_data_type e)),
      (''api_call'', JStr (ev_api_call e)),
      (''process'', ev_process e),
      (''mitre_technique'', case ev_mitre e of None \<Rightarrow> JNull | Some t \<Rightarrow> JStr t)]"

record ingest_report =
  ir_events :: "etw_event list"
  ir_errors :: "string list"

definition report_ok :: "ingest_report \<Rightarrow> bool" where
  "report_ok r \<longleftrightarrow> ir_errors r = []"

definition summary :: "ingest_report \<Rightarrow> string" where
  "summary r = nat_str (length (ir_events r)) @ '' valid event(s), ''
     @ nat_str (length (ir_errors r)) @ '' error(s), 0 warning(s)''"

section \<open>Validation\<close>

text \<open>
  Conversion to UTC leaves the range of \<open>datetime\<close> for local times at its ends: an
  \<open>OverflowError\<close>.
\<close>

definition to_utc :: "datetime \<Rightarrow> datetime res" where
  "to_utc t =
     (let n = instant t div day_us + epoch_ord in
      if 1 \<le> n \<and> n \<le> 3652059 then Inr (astimezone_utc t) else Inl OverflowError)"

definition parse_timestamp :: "pyval \<Rightarrow> datetime res" where
  "parse_timestamp v =
     (case v of
        JStr s \<Rightarrow>
          (case parse_iso s of
             None \<Rightarrow> Inl (ValueError (''unparseable ISO-8601 timestamp '' @ py_repr v
               @ '': Invalid isoformat string: '' @ str_repr (replace_char (CHR ''Z'') ''+00:00'' s)))
           | Some t \<Rightarrow>
               if \<not> aware t
               then Inl (ValueError (''timestamp '' @ py_repr v @ '' has no timezone; UTC offset is required ''
                 @ ''(clock sync with PCAP timestamps depends on it)''))
               else to_utc t)
      | _ \<Rightarrow> Inl (ValueError (''timestamp must be a string, got '' @ type_name v)))"

definition required_fields :: "string list" where
  "required_fields = [''timestamp'', ''data_type'', ''api_call'']"

definition missing :: "(string \<times> pyval) list \<Rightarrow> string \<Rightarrow> bool" where
  "missing d k \<longleftrightarrow> (case map_of d k of None \<Rightarrow> True | Some v \<Rightarrow> v = JNull \<or> v = JStr [])"

definition event_tag :: "nat \<Rightarrow> string" where
  "event_tag i = ''event['' @ nat_str i @ '']''"

text \<open>\<open>data_type not in VALID_DATA_TYPES\<close>: membership in a frozenset hashes the value first.\<close>

definition lookup_technique :: "nat \<Rightarrow> pyval \<Rightarrow> (string \<times> string \<times> string) res" where
  "lookup_technique i v =
     (if \<not> hashable v then Inl (TypeError (''unhashable type: '' @ str_repr (type_name v)))
      else case v of
             JStr s \<Rightarrow>
               (case map_of data_type_technique s of
                  Some (t, c) \<Rightarrow> Inr (s, t, c)
                | None \<Rightarrow> Inl (ValueError (event_tag i @ '' invalid data_type '' @ py_repr v
                    @ ''; expected one of '' @ py_repr (JList (map JStr sorted_data_types)))))
           | _ \<Rightarrow> Inl (ValueError (event_tag i @ '' invalid data_type '' @ py_repr v
                    @ ''; expected one of '' @ py_repr (JList (map JStr sorted_data_types)))))"

definition parse_event :: "pyval \<Rightarrow> nat \<Rightarrow> etw_event res" where
  "parse_event raw i =
     (if \<not> is_obj raw then Inl (ValueError (event_tag i @ '' is not a JSON object''))
      else let d = obj_of raw in
        case find (missing d) required_fields of
          Some k \<Rightarrow> Inl (ValueError (event_tag i @ '' missing required field '' @ str_repr k))
        | None \<Rightarrow>
            bind_res (parse_timestamp (get d ''timestamp'')) (\<lambda>ts.
            bind_res (lookup_technique i (get d ''data_type'')) (\<lambda>(dt, tech, cap).
              Inr \<lparr>ev_timestamp = ts, ev_data_type = dt,
                   ev_api_call = py_str (get d ''api_call''),
                   ev_process = (let p = get d ''process'' in if truth p then p else JNull),
                   ev_raw_timestamp = (case get d ''timestamp'' of JStr s \<Rightarrow> s | _ \<Rightarrow> []),
                   ev_mitre = Some tech, ev_capability = Some cap\<rparr>)))"

text \<open>The loop of \<open>ingest\<close>: only validation errors are caught, and only in tolerant mode.\<close>

fun ingest_loop :: "bool \<Rightarrow> nat \<Rightarrow> pyval list \<Rightarrow> ingest_report \<Rightarrow> ingest_report res" where
  "ingest_loop strict i [] r = Inr r"
| "ingest_loop strict i (raw # raws) r =
     (case parse_event raw i of
        Inr e \<Rightarrow> ingest_loop strict (Suc i) raws (r\<lparr>ir_events := ir_events r @ [e]\<rparr>)
      | Inl (ValueError m) \<Rightarrow>
          if strict then Inl (ValueError m)
          else ingest_loop strict (Suc i) raws (r\<lparr>ir_errors := ir_errors r @ [m]\<rparr>)
      | Inl e \<Rightarrow> Inl e)"

definition ingest :: "pyval \<Rightarrow> bool \<Rightarrow> ingest_report res" where
  "ingest raw strict =
     (case list_of raw of
        None \<Rightarrow> Inr \<lparr>ir_events = [], ir_errors = [''top-level JSON must be an array of events'']\<rparr>
      | Some raws \<Rightarrow>
          bind_res (ingest_loop strict 0 raws \<lparr>ir_events = [], ir_errors = []\<rparr>) (\<lambda>r.
            Inr (r\<lparr>ir_events := sort_key (\<lambda>e. instant (ev_timestamp e)) (ir_events r)\<rparr>)))"

text \<open>
  \<open>load_etw_events\<close>: the file as \<open>None\<close> (absent), \<open>Some (Inl e)\<close> (not JSON, with the decoder's
  message) or \<open>Some (Inr v)\<close>.
\<close>

definition load_etw_events :: "string \<Rightarrow> (string + pyval) option \<Rightarrow> bool \<Rightarrow> ingest_report res" where
  "load_etw_events path file strict =
     (case file of
        None \<Rightarrow> Inr \<lparr>ir_events = [], ir_errors = [''file not found: '' @ path]\<rparr>
      | Some (Inl e) \<Rightarrow> Inr \<lparr>ir_events = [], ir_errors = [''invalid JSON in '' @ path @ '': '' @ e]\<rparr>
      | Some (Inr v) \<Rightarrow> ingest v strict)"

definition validate_exit_code :: "ingest_report \<Rightarrow> int" where
  "validate_exit_code r = (if report_ok r then 0 else 1)"

section \<open>Clock-sync assessment\<close>

record clock_sync =
  cs_access_span :: "(string \<times> string) option"
  cs_network_span :: "(string \<times> string) option"
  cs_min_forward_delta :: "pyfloat option"
  cs_correlatable :: bool
  cs_likely_skew :: bool
  cs_note :: string

definition no_sync :: "string \<Rightarrow> clock_sync" where
  "no_sync note = \<lparr>cs_access_span = None, cs_network_span = None, cs_min_forward_delta = None,
     cs_correlatable = False, cs_likely_skew = False, cs_note = note\<rparr>"

text \<open>One pair of the double loop: the smallest forward delta so far, and whether any pair fits.\<close>

definition sync_step :: "int \<Rightarrow> pyfloat option \<times> bool \<Rightarrow> pyfloat \<Rightarrow> pyfloat option \<times> bool" where
  "sync_step window st d =
     (let (m, c) = st in
      (if 0 \<le> d \<and> (case m of None \<Rightarrow> True | Some x \<Rightarrow> d < x) then Some d else m,
       c \<or> 0 \<le> d \<and> d \<le> of_int window))"

definition delta :: "datetime \<Rightarrow> datetime \<Rightarrow> pyfloat res" where
  "delta a n = bind_res (dt_sub n a) (\<lambda>us. Inr (total_seconds us))"

definition pair_deltas :: "datetime list \<Rightarrow> datetime list \<Rightarrow> pyfloat list res" where
  "pair_deltas as ns = map_res (\<lambda>(a, n). delta a n) (List.product as ns)"

text \<open>\<open>min\<close> and \<open>max\<close> of a non-empty list: the first of the smallest, of the largest.\<close>

fun first_min :: "datetime \<Rightarrow> datetime list \<Rightarrow> datetime" where
  "first_min m [] = m"
| "first_min m (t # ts) = first_min (if instant t < instant m then t else m) ts"

fun first_max :: "datetime \<Rightarrow> datetime list \<Rightarrow> datetime" where
  "first_max m [] = m"
| "first_max m (t # ts) = first_max (if instant m < instant t then t else m) ts"

definition span :: "datetime list \<Rightarrow> (string \<times> string) option" where
  "span ts = (case ts of [] \<Rightarrow> None
     | t # r \<Rightarrow> Some (isoformat (first_min t r), isoformat (first_max t r)))"

definition sync_note :: "int \<Rightarrow> pyfloat option \<Rightarrow> bool \<Rightarrow> bool \<times> string" where
  "sync_note window m correlatable =
     (if correlatable then (False, ''clocks appear aligned'')
      else case m of
             Some d \<Rightarrow>
               if of_int window < d
               then (True, ''no access'' @ [CHR 0xE2, CHR 0x86, CHR 0x92] @ ''network pair within ''
                     @ int_str window @ ''s; closest is '' @ fixed_str 1 d @ ''s ''
                     @ [CHR 0xE2, CHR 0x80, CHR 0x94] @ '' likely clock skew or misaligned captures'')
               else (False, ''no network events occur after any access event; ''
                     @ ''either no exfil followed the accesses, or timelines don't overlap'')
           | None \<Rightarrow> (False, ''no network events occur after any access event; ''
                     @ ''either no exfil followed the accesses, or timelines don't overlap''))"

text \<open>The network events enter by their time stamps; unparseable ones are skipped.\<close>

definition assess_clock_sync :: "etw_event list \<Rightarrow> string list \<Rightarrow> int \<Rightarrow> clock_sync res" where
  "assess_clock_sync events net_stamps window =
     (if events = [] \<or> net_stamps = [] then Inr (no_sync ''insufficient data to assess clock sync'')
      else let acc = map ev_timestamp events; net = List.map_filter parse_iso net_stamps in
        if net = [] then Inr (no_sync ''no parseable network timestamps'')
        else bind_res (pair_deltas acc net) (\<lambda>ds.
          let (m, c) = foldl (sync_step window) (None, False) ds;
              (skew, note) = sync_note window m c
          in Inr \<lparr>cs_access_span = span acc, cs_network_span = span net,
                  cs_min_forward_delta = map_option (pyround 2) m,
                  cs_correlatable = c, cs_likely_skew = skew, cs_note = note\<rparr>))"


section \<open>Lemmas\<close>

text \<open>What a stored event satisfies: its type is known, its technique is the table's, its time is UTC.\<close>

definition valid_event :: "etw_event \<Rightarrow> bool" where
  "valid_event e \<longleftrightarrow>
     (\<exists>cap. map_of data_type_technique (ev_data_type e) = Some (the (ev_mitre e), cap)
        \<and> ev_capability e = Some cap)
     \<and> ev_mitre e \<noteq> None \<and> aware (ev_timestamp e)
     \<and> (\<exists>t. parse_iso (ev_raw_timestamp e) = Some t \<and> aware t
           \<and> instant t = instant (ev_timestamp e))"

text \<open>A row rejected with a validation error, an accepted one, and one that breaks the whole batch.\<close>

definition rejected :: "pyval \<Rightarrow> bool" where
  "rejected raw \<longleftrightarrow> (\<exists>m. parse_event raw 0 = Inl (ValueError m))"

definition accepted :: "pyval \<Rightarrow> etw_event option" where
  "accepted raw = (case parse_event raw 0 of Inr e \<Rightarrow> Some e | Inl _ \<Rightarrow> None)"

definition fatal :: "pyval \<Rightarrow> bool" where
  "fatal raw \<longleftrightarrow> (\<exists>e. parse_event raw 0 = Inl e \<and> (\<forall>m. e \<noteq> ValueError m))"

lemma parse_timestamp_Inr:
  "parse_timestamp v = Inr t \<longleftrightarrow>
     (\<exists>s u. v = JStr s \<and> parse_iso s = Some u \<and> aware u \<and> to_utc u = Inr t)"
  by (auto simp: parse_timestamp_def split: pyval.splits option.splits)

lemma to_utc_Inr: "to_utc u = Inr t \<Longrightarrow> t = astimezone_utc u"
  by (auto simp: to_utc_def Let_def split: if_splits)

lemma lookup_technique_Inr:
  "lookup_technique i v = Inr (s, t, c) \<longleftrightarrow> v = JStr s \<and> map_of data_type_technique s = Some (t, c)"
  by (auto simp: lookup_technique_def split: pyval.splits option.splits if_splits)

lemma lookup_technique_index:
  "(case lookup_technique i v of Inl (ValueError m) \<Rightarrow> Inl None | Inl e \<Rightarrow> Inl (Some e) | Inr x \<Rightarrow> Inr x)
     = (case lookup_technique j v of Inl (ValueError m) \<Rightarrow> Inl None | Inl e \<Rightarrow> Inl (Some e) | Inr x \<Rightarrow> Inr x)"
  by (cases v) (auto simp: lookup_technique_def split: option.splits)

lemma parse_event_cases [consumes 0, case_names reject ok]:
  obtains m where "parse_event raw i = Inl m"
  | d ts dt tech cap where "raw = JObj d" "find (missing d) required_fields = None"
      "parse_timestamp (get d ''timestamp'') = Inr ts" "get d ''data_type'' = JStr dt"
      "map_of data_type_technique dt = Some (tech, cap)"
      "parse_event raw i = Inr \<lparr>ev_timestamp = ts, ev_data_type = dt,
         ev_api_call = py_str (get d ''api_call''),
         ev_process = (let p = get d ''process'' in if truth p then p else JNull),
         ev_raw_timestamp = (case get d ''timestamp'' of JStr s \<Rightarrow> s | _ \<Rightarrow> []),
         ev_mitre = Some tech, ev_capability = Some cap\<rparr>"
proof (cases "parse_event raw i")
  case (Inr e)
  then obtain d where raw: "raw = JObj d"
    by (cases raw) (auto simp: parse_event_def)
  with Inr have find: "find (missing d) required_fields = None"
    by (cases "find (missing d) required_fields") (auto simp: parse_event_def Let_def)
  with raw Inr obtain ts x where ts: "parse_timestamp (get d ''timestamp'') = Inr ts"
    and x: "lookup_technique i (get d ''data_type'') = Inr x"
    by (auto simp: parse_event_def Let_def bind_res_Inr_iff)
  obtain dt tech cap where [simp]: "x = (dt, tech, cap)" by (cases x)
  from x have l: "get d ''data_type'' = JStr dt" "map_of data_type_technique dt = Some (tech, cap)"
    by (simp_all add: lookup_technique_Inr)
  show ?thesis
    by (rule that(2) [OF raw find ts l]) (use raw find ts x in \<open>simp add: parse_event_def Let_def\<close>)
qed (use that(1) in simp)

lemma parse_event_valid: "parse_event raw i = Inr e \<Longrightarrow> valid_event e"
proof (cases rule: parse_event_cases [of raw i])
  case (ok d ts dt tech cap)
  assume e: "parse_event raw i = Inr e"
  from ok(3) obtain s u where "get d ''timestamp'' = JStr s" "parse_iso s = Some u" "aware u"
      "to_utc u = Inr ts"
    by (auto simp: parse_timestamp_Inr)
  then show ?thesis
    using e ok(5,6) by (auto simp: valid_event_def astimezone_utc_def dest!: to_utc_Inr)
qed simp

text \<open>The position of a row only shows in the message.\<close>

lemma parse_event_index:
  "parse_event raw i = Inr e \<longleftrightarrow> parse_event raw j = Inr e"
  "(\<exists>m. parse_event raw i = Inl (ValueError m)) \<longleftrightarrow> (\<exists>m. parse_event raw j = Inl (ValueError m))"
  using lookup_technique_index [of i "get (obj_of raw) ''data_type''" j]
  by (auto simp: parse_event_def Let_def bind_res_def
      split: option.splits sum.splits py_error.splits if_splits)

lemma ingest_loop_Inr:
  "ingest_loop False i raws r = Inr r' \<Longrightarrow>
     (\<forall>raw \<in> set raws. \<not> fatal raw)
     \<and> ir_events r' = ir_events r @ List.map_filter accepted raws
     \<and> length (ir_errors r') = length (ir_errors r) + length (filter rejected raws)"
proof (induction False i raws r rule: ingest_loop.induct)
  case (2 i raw raws r)
  show ?case
  proof (cases "parse_event raw i")
    case (Inr e)
    then have "parse_event raw 0 = Inr e" using parse_event_index(1) by blast
    then show ?thesis using 2 Inr by (auto simp: fatal_def rejected_def accepted_def List.map_filter_simps)
  next
    case (Inl err)
    then obtain m where m: "err = ValueError m" using 2 by (cases err) auto
    with Inl obtain m' where "parse_event raw 0 = Inl (ValueError m')"
      using parse_event_index(2) [of raw i 0] by auto
    then show ?thesis using 2 Inl m by (auto simp: fatal_def rejected_def accepted_def List.map_filter_simps)
  qed
qed (simp add: List.map_filter_simps)

lemma ingest_loop_Inl:
  "(\<exists>e. ingest_loop False i raws r = Inl e) \<longleftrightarrow> (\<exists>raw \<in> set raws. fatal raw)"
proof (induction False i raws r rule: ingest_loop.induct)
  case (2 i raw raws r)
  show ?case
  proof (cases "parse_event raw i")
    case (Inr e)
    then have "parse_event raw 0 = Inr e" using parse_event_index(1) by blast
    then show ?thesis using 2 Inr by (auto simp: fatal_def)
  next
    case (Inl err)
    have none: "parse_event raw 0 \<noteq> Inr e" for e using Inl parse_event_index(1) [of raw i e 0] by simp
    show ?thesis
    proof (cases "\<exists>m. err = ValueError m")
      case True
      with Inl have "\<exists>m. parse_event raw 0 = Inl (ValueError m)"
        using parse_event_index(2) [of raw i 0] by auto
      then have "\<not> fatal raw" by (auto simp: fatal_def)
      then show ?thesis using 2 Inl True by auto
    next
      case False
      then have "\<not> (\<exists>m. parse_event raw 0 = Inl (ValueError m))"
        using parse_event_index(2) [of raw i 0] Inl by auto
      then have "fatal raw" using none by (cases "parse_event raw 0") (auto simp: fatal_def)
      moreover have "ingest_loop False i (raw # raws) r = Inl err"
        using Inl False by (cases err) auto
      ultimately show ?thesis by auto
    qed
  qed
qed simp

lemma length_partition:
  "\<forall>raw \<in> set raws. \<not> fatal raw \<Longrightarrow>
     length (List.map_filter accepted raws)
       + length (filter rejected raws) = length raws"
proof (induction raws)
  case (Cons raw raws)
  then show ?case
    by (cases "parse_event raw 0") (auto simp: fatal_def rejected_def accepted_def List.map_filter_simps)
qed (simp add: List.map_filter_simps)

lemma aware_ev_timestamp: "valid_event e \<Longrightarrow> aware (ev_timestamp e)"
  by (simp add: valid_event_def)

section \<open>Properties of ingestion\<close>

text \<open>
  C13. Tolerant ingestion of an array loses nothing silently: when it returns, the events are
  exactly the rows that validate (as a multiset), in time order, every one has a known data type
  with the technique of the table and an aware time equal to the one of its raw stamp, and there
  is one error per rejected row.
\<close>

theorem ingest_partition:
  assumes "ingest (JList raws) False = Inr rep"
  shows "mset (ir_events rep)
           = mset (List.map_filter accepted raws)
    \<and> sorted (map (\<lambda>e. instant (ev_timestamp e)) (ir_events rep))
    \<and> (\<forall>e \<in> set (ir_events rep). valid_event e)
    \<and> length (ir_events rep) + length (ir_errors rep) = length raws
    \<and> (report_ok rep \<longleftrightarrow> (\<forall>raw \<in> set raws. \<not> rejected raw))"
proof -
  let ?evs = "List.map_filter accepted raws"
  from assms obtain r where loop: "ingest_loop False 0 raws \<lparr>ir_events = [], ir_errors = []\<rparr> = Inr r"
    and rep: "rep = r\<lparr>ir_events := sort_key (\<lambda>e. instant (ev_timestamp e)) (ir_events r)\<rparr>"
    by (auto simp: ingest_def bind_res_Inr_iff)
  note L = ingest_loop_Inr [OF loop]
  then have evs: "ir_events r = ?evs" by simp
  have valid: "valid_event e" if "e \<in> set ?evs" for e
    using that by (auto simp: List.map_filter_def accepted_def split: sum.splits intro: parse_event_valid)
  have "length ?evs + length (filter rejected raws) = length raws"
    using L by (intro length_partition) simp
  then have len: "length (ir_events rep) + length (ir_errors rep) = length raws"
    using L evs by (simp add: rep)
  have "report_ok rep \<longleftrightarrow> filter rejected raws = []"
    using L by (auto simp: rep report_ok_def simp flip: length_0_conv)
  then show ?thesis
    using len valid evs by (simp add: rep filter_empty_conv)
qed

text \<open>
  "One malformed row can't take the whole handoff down" holds exactly up to fatal rows:
  tolerant ingestion of an array raises if and only if some row fails with an error other than a
  validation error (an unhashable data type, a time outside the UTC range).
\<close>

theorem ingest_raises_iff_fatal:
  "(\<exists>e. ingest (JList raws) False = Inl e) \<longleftrightarrow> (\<exists>raw. raw \<in> set raws \<and> fatal raw)"
proof -
  have "(\<exists>e. ingest (JList raws) False = Inl e)
      \<longleftrightarrow> (\<exists>e. ingest_loop False 0 raws \<lparr>ir_events = [], ir_errors = []\<rparr> = Inl e)"
    by (cases "ingest_loop False 0 raws \<lparr>ir_events = [], ir_errors = []\<rparr>") (simp_all add: ingest_def)
  then show ?thesis unfolding ingest_loop_Inl by auto
qed

text \<open>A row with a list for its data type.\<close>

definition unhashable_row :: pyval where
  "unhashable_row = JObj [(''timestamp'', JStr ''2026-02-03T16:13:59+00:00''),
     (''data_type'', JList []), (''api_call'', JStr ''X'')]"

lemma unhashable_row_fatal: "fatal unhashable_row"
proof -
  have "(case parse_event unhashable_row 0 of Inl (TypeError m) \<Rightarrow> True | _ \<Rightarrow> False)"
    by code_simp
  then show ?thesis
    unfolding fatal_def by (auto split: sum.splits py_error.splits)
qed

text \<open>
  A row whose data type is a list takes the whole handoff down: the batch raises whatever
  well-formed rows stand around it.
\<close>

theorem unhashable_data_type_raises:
  "\<exists>e. ingest (JList (before @ unhashable_row # after)) False = Inl e"
proof -
  have "\<exists>e. ingest_loop False 0 (before @ unhashable_row # after) \<lparr>ir_events = [], ir_errors = []\<rparr> = Inl e"
    unfolding ingest_loop_Inl using unhashable_row_fatal by simp
  then show ?thesis by (auto simp: ingest_def)
qed


lemma ingest_partition_witness:
  "case ingest (JList [JObj [(''timestamp'', JStr ''2026-02-03T16:13:59+00:00''),
       (''data_type'', JStr ''keystrokes''), (''api_call'', JStr ''GetAsyncKeyState'')], JNull]) False of
     Inl _ \<Rightarrow> False
   | Inr rep \<Rightarrow> length (ir_events rep) = 1 \<and> length (ir_errors rep) = 1"
proof -
  let ?rows = "[JObj [(''timestamp'', JStr ''2026-02-03T16:13:59+00:00''),
       (''data_type'', JStr ''keystrokes''), (''api_call'', JStr ''GetAsyncKeyState'')], JNull]"
  have "case ingest (JList ?rows) False of Inl _ \<Rightarrow> False | Inr rep \<Rightarrow> length (ir_events rep) = 1"
    by code_simp
  then obtain rep where rep: "ingest (JList ?rows) False = Inr rep" "length (ir_events rep) = 1"
    by (auto split: sum.splits)
  then show ?thesis using ingest_partition [OF rep(1)] by (simp only: sum.case) simp
qed

end
