(* ===== verification/Bundle.thy ===== *)
theory Bundle
  imports PyTime
begin

text \<open>
  The unified analysis data model (\<open>pipeline/model.py\<close>), its projection to the legacy
  connection records, and the scoping of a bundle to the detonated guest and time window
  (\<open>pipeline/bundle_filter.py\<close>). Field names carry a prefix per class because record
  selectors are global: \<open>ss_\<close> session, \<open>dn_\<close> DNS, \<open>ht_\<close> HTTP, \<open>tl_\<close> TLS, \<open>ft_\<close> FTP,
  \<open>sm_\<close> SMTP, \<open>ar_\<close> artifact, \<open>cn_\<close> connection.
\<close>

section \<open>Records\<close>

record session =
  ss_ts :: pyfloat
  ss_src_ip :: string
  ss_src_port :: int
  ss_dst_ip :: string
  ss_dst_port :: int
  ss_proto :: string
  ss_service :: "string option"
  ss_orig_bytes :: int
  ss_resp_bytes :: int
  ss_history :: string
  ss_duration :: pyfloat
  ss_conn_state :: "string option"
  ss_uid :: "string option"

record dns_tx =
  dn_ts :: pyfloat
  dn_src_ip :: string
  dn_dst_ip :: string
  dn_query :: string
  dn_qtype :: "string option"
  dn_rcode :: "string option"
  dn_answers :: "string list"
  dn_uid :: "string option"

record http_tx =
  ht_ts :: pyfloat
  ht_src_ip :: string
  ht_dst_ip :: string
  ht_dst_port :: int
  ht_method :: "string option"
  ht_host :: "string option"
  ht_uri :: "string option"
  ht_user_agent :: "string option"
  ht_status_code :: "int option"
  ht_req_body_len :: int
  ht_resp_body_len :: int
  ht_uid :: "string option"

record tls_tx =
  tl_ts :: pyfloat
  tl_src_ip :: string
  tl_dst_ip :: string
  tl_dst_port :: int
  tl_server_name :: "string option"
  tl_ja3 :: "string option"
  tl_ja3s :: "string option"
  tl_ja4 :: "string option"
  tl_subject :: "string option"
  tl_issuer :: "string option"
  tl_validation_status :: "string option"
  tl_version :: "string option"
  tl_uid :: "string option"

record ftp_tx =
  ft_ts :: pyfloat
  ft_src_ip :: string
  ft_dst_ip :: string
  ft_command :: string
  ft_arg :: "string option"
  ft_reply_code :: "int option"
  ft_uid :: "string option"

record smtp_tx =
  sm_ts :: pyfloat
  sm_src_ip :: string
  sm_dst_ip :: string
  sm_mail_from :: "string option"
  sm_rcpt_to :: "string list"
  sm_subject :: "string option"
  sm_attachments :: "string list"
  sm_uid :: "string option"

record artifact =
  ar_ts :: pyfloat
  ar_filename :: "string option"
  ar_mime_type :: "string option"
  ar_total_bytes :: int
  ar_md5 :: "string option"
  ar_sha256 :: "string option"
  ar_source_ip :: "string option"
  ar_dest_ip :: "string option"
  ar_is_outbound :: bool
  ar_uid :: "string option"
  ar_preview :: "string option"

text \<open>An ICMP entry is the tuple \<open>(src_ip, dst_ip, data_len)\<close>.\<close>

record analysis_bundle =
  b_source :: string
  b_sessions :: "session list"
  b_dns :: "dns_tx list"
  b_http :: "http_tx list"
  b_tls :: "tls_tx list"
  b_ftp :: "ftp_tx list"
  b_smtp :: "smtp_tx list"
  b_artifacts :: "artifact list"
  b_icmp :: "(string \<times> string \<times> int) list"

text \<open>The connection record of \<open>traffic_analysis.py\<close>, the detectors' input.\<close>

record connection =
  cn_ts :: pyfloat
  cn_src_ip :: string
  cn_dst_ip :: string
  cn_dst_port :: int
  cn_proto :: string
  cn_orig_bytes :: int
  cn_resp_bytes :: int
  cn_history :: string
  cn_http_method :: "string option"
  cn_http_host :: "string option"
  cn_http_uri :: "string option"
  cn_ftp_upload_cmd :: "string option"

text \<open>Truth value of an optional string: neither \<open>None\<close> nor empty.\<close>

definition truthy :: "string option \<Rightarrow> bool" where
  "truthy s \<longleftrightarrow> s \<noteq> None \<and> s \<noteq> Some []"

text \<open>\<open>a or b\<close> on optional strings.\<close>

definition str_or :: "string option \<Rightarrow> string option \<Rightarrow> string option" where
  "str_or a b = (if truthy a then a else b)"

definition opt_str :: "string option \<Rightarrow> string" where
  "opt_str s = (case s of None \<Rightarrow> ''None'' | Some t \<Rightarrow> t)"

definition is_upload :: "ftp_tx \<Rightarrow> bool" where
  "is_upload f \<longleftrightarrow> str_upper (ft_command f) \<in> {''STOR'', ''STOU'', ''APPE''}"

section \<open>Projection to connections\<close>

text \<open>The index dictionaries mix flow keys and Zeek uids.\<close>

datatype flow_key = KFlow string string int | KPair string string | KUid string

fun http_index :: "(flow_key, http_tx) dict \<Rightarrow> http_tx list \<Rightarrow> (flow_key, http_tx) dict" where
  "http_index d [] = d"
| "http_index d (h # hs) =
     (let d1 = dict_setdefault (KFlow (ht_src_ip h) (ht_dst_ip h) (ht_dst_port h)) h d;
          d2 = (case ht_uid h of
                  Some u \<Rightarrow> if u = [] then d1 else dict_setdefault (KUid u) h d1
                | None \<Rightarrow> d1)
      in http_index d2 hs)"

fun ftp_index :: "(flow_key, string) dict \<Rightarrow> ftp_tx list \<Rightarrow> (flow_key, string) dict" where
  "ftp_index d [] = d"
| "ftp_index d (f # fs) =
     (if is_upload f
      then (let cmd = strip (ft_command f @ '' '' @ opt_str (ft_arg f));
                d1 = dict_setdefault (KPair (ft_src_ip f) (ft_dst_ip f)) cmd d;
                d2 = (case ft_uid f of
                        Some u \<Rightarrow> if u = [] then d1 else dict_setdefault (KUid u) cmd d1
                      | None \<Rightarrow> d1)
            in ftp_index d2 fs)
      else ftp_index d fs)"

definition http_of_session :: "(flow_key, http_tx) dict \<Rightarrow> session \<Rightarrow> http_tx option" where
  "http_of_session d s =
     (case Option.bind (ss_uid s) (\<lambda>u. map_of d (KUid u)) of
        Some h \<Rightarrow> Some h
      | None \<Rightarrow> map_of d (KFlow (ss_src_ip s) (ss_dst_ip s) (ss_dst_port s)))"

definition ftp_of_session :: "(flow_key, string) dict \<Rightarrow> session \<Rightarrow> string option" where
  "ftp_of_session d s =
     str_or (Option.bind (ss_uid s) (\<lambda>u. map_of d (KUid u)))
            (map_of d (KPair (ss_src_ip s) (ss_dst_ip s)))"

definition to_connection ::
    "(flow_key, http_tx) dict \<Rightarrow> (flow_key, string) dict \<Rightarrow> session \<Rightarrow> connection" where
  "to_connection hidx fidx s =
     (let h = http_of_session hidx s in
      \<lparr>cn_ts = ss_ts s, cn_src_ip = ss_src_ip s, cn_dst_ip = ss_dst_ip s,
       cn_dst_port = ss_dst_port s, cn_proto = ss_proto s,
       cn_orig_bytes = ss_orig_bytes s, cn_resp_bytes = ss_resp_bytes s,
       cn_history = ss_history s,
       cn_http_method = Option.bind h ht_method,
       cn_http_host = Option.bind h ht_host,
       cn_http_uri = Option.bind h ht_uri,
       cn_ftp_upload_cmd = ftp_of_session fidx s\<rparr>)"

definition to_connections :: "analysis_bundle \<Rightarrow> connection list" where
  "to_connections b =
     map (to_connection (http_index [] (b_http b)) (ftp_index [] (b_ftp b))) (b_sessions b)"

section \<open>Scoping to guest and detonation window\<close>

text \<open>
  \<open>_epoch\<close>: seconds since the epoch of an ISO string. A naive time is read in the host's
  local zone, which \<open>local_utc\<close> (local wall-clock microseconds to UTC microseconds) stands for.
\<close>

definition naive_timestamp :: "(int \<Rightarrow> int) \<Rightarrow> int \<Rightarrow> pyfloat" where
  "naive_timestamp local_utc w =
     (let us = local_utc w in fadd (of_int (us div 10 ^ 6)) (idiv (us mod 10 ^ 6) (10 ^ 6)))"

definition epoch_of :: "(int \<Rightarrow> int) \<Rightarrow> string option \<Rightarrow> pyfloat option" where
  "epoch_of local_utc s =
     (case s of
        None \<Rightarrow> None
      | Some t \<Rightarrow>
          if t = [] then None
          else (case parse_iso t of
                  None \<Rightarrow> None
                | Some d \<Rightarrow> Some (if aware d then timestamp d else naive_timestamp local_utc (wall d))))"

definition keep ::
    "string option \<Rightarrow> pyfloat option \<Rightarrow> pyfloat option \<Rightarrow> string \<Rightarrow> string \<Rightarrow> pyfloat \<Rightarrow> bool" where
  "keep guest start stop src dst ts \<longleftrightarrow>
     (truthy guest \<longrightarrow> guest = Some src \<or> guest = Some dst)
     \<and> (case start of None \<Rightarrow> True | Some s \<Rightarrow> \<not> ts < s)
     \<and> (case stop of None \<Rightarrow> True | Some e \<Rightarrow> \<not> ts > e)"

definition keep_icmp :: "string option \<Rightarrow> string \<times> string \<times> int \<Rightarrow> bool" where
  "keep_icmp guest t \<longleftrightarrow> guest = Some (fst t) \<or> guest = Some (fst (snd t))"

definition total :: "analysis_bundle \<Rightarrow> nat" where
  "total b = length (b_sessions b) + length (b_dns b) + length (b_http b) + length (b_tls b)
     + length (b_ftp b) + length (b_smtp b) + length (b_icmp b)"

record filter_summary =
  fs_removed :: nat
  fs_kept :: nat
  fs_applied :: bool
  fs_scope :: "(string option \<times> string option \<times> string option) option"

definition apply_keep ::
    "string option \<Rightarrow> pyfloat option \<Rightarrow> pyfloat option \<Rightarrow> analysis_bundle \<Rightarrow> analysis_bundle" where
  "apply_keep guest start stop b =
     b\<lparr>b_sessions := filter (\<lambda>r. keep guest start stop (ss_src_ip r) (ss_dst_ip r) (ss_ts r)) (b_sessions b),
       b_dns := filter (\<lambda>r. keep guest start stop (dn_src_ip r) (dn_dst_ip r) (dn_ts r)) (b_dns b),
       b_http := filter (\<lambda>r. keep guest start stop (ht_src_ip r) (ht_dst_ip r) (ht_ts r)) (b_http b),
       b_tls := filter (\<lambda>r. keep guest start stop (tl_src_ip r) (tl_dst_ip r) (tl_ts r)) (b_tls b),
       b_ftp := filter (\<lambda>r. keep guest start stop (ft_src_ip r) (ft_dst_ip r) (ft_ts r)) (b_ftp b),
       b_smtp := filter (\<lambda>r. keep guest start stop (sm_src_ip r) (sm_dst_ip r) (sm_ts r)) (b_smtp b),
       b_icmp := (if truthy guest then filter (keep_icmp guest) (b_icmp b) else b_icmp b)\<rparr>"

text \<open>The bundle is filtered in place: the model returns it with the summary.\<close>

definition filter_bundle ::
    "(int \<Rightarrow> int) \<Rightarrow> analysis_bundle \<Rightarrow> string option \<Rightarrow> string option \<Rightarrow> string option \<Rightarrow> analysis_bundle \<times> filter_summary" where
  "filter_bundle local_utc b guest start_utc end_utc =
     (let start = epoch_of local_utc start_utc; stop = epoch_of local_utc end_utc in
      if \<not> truthy guest \<and> start = None \<and> stop = None
      then (b, \<lparr>fs_removed = 0, fs_kept = total b, fs_applied = False, fs_scope = None\<rparr>)
      else (let b' = apply_keep guest start stop b in
            (b', \<lparr>fs_removed = total b - total b', fs_kept = total b', fs_applied = True,
                  fs_scope = Some (guest, start_utc, end_utc)\<rparr>)))"

section \<open>Lemmas\<close>

lemma truthy_simps [simp]: "\<not> truthy None" "truthy (Some s) \<longleftrightarrow> s \<noteq> []"
  by (simp_all add: truthy_def)

lemma total_apply_keep: "total (apply_keep g s e b) \<le> total b"
  unfolding total_def apply_keep_def by (simp add: add_mono length_filter_le)

lemma apply_keep_idem: "apply_keep g s e (apply_keep g s e b) = apply_keep g s e b"
  by (simp add: apply_keep_def)

lemma http_index_sound:
  "map_of (http_index d hs) k = Some h \<Longrightarrow>
     map_of d k = Some h \<or>
     h \<in> set hs \<and> (k = KFlow (ht_src_ip h) (ht_dst_ip h) (ht_dst_port h)
                    \<or> (\<exists>u. u \<noteq> [] \<and> ht_uid h = Some u \<and> k = KUid u))"
  by (induction d hs rule: http_index.induct)
    (fastforce simp: Let_def split: option.splits if_splits)+

lemma ftp_index_sound:
  "map_of (ftp_index d fs) k = Some c \<Longrightarrow>
     map_of d k = Some c \<or>
     (\<exists>f \<in> set fs. is_upload f \<and> c = strip (ft_command f @ '' '' @ opt_str (ft_arg f))
        \<and> (k = KPair (ft_src_ip f) (ft_dst_ip f) \<or> (\<exists>u. u \<noteq> [] \<and> ft_uid f = Some u \<and> k = KUid u)))"
  by (induction d fs rule: ftp_index.induct)
    (fastforce simp: Let_def split: option.splits if_splits)+

text \<open>The enrichment of a connection comes from a transaction of its own uid or flow.\<close>

lemma http_of_session_sound:
  assumes "http_of_session (http_index [] hs) s = Some h"
  shows "h \<in> set hs \<and>
     (ht_uid h = ss_uid s \<and> ss_uid s \<noteq> None
      \<or> ht_src_ip h = ss_src_ip s \<and> ht_dst_ip h = ss_dst_ip s \<and> ht_dst_port h = ss_dst_port s)"
proof (cases "Option.bind (ss_uid s) (\<lambda>u. map_of (http_index [] hs) (KUid u))")
  case None
  with assms have "map_of (http_index [] hs) (KFlow (ss_src_ip s) (ss_dst_ip s) (ss_dst_port s)) = Some h"
    by (simp add: http_of_session_def)
  from http_index_sound [OF this] show ?thesis by auto
next
  case (Some h')
  with assms have "h' = h" by (simp add: http_of_session_def)
  with Some obtain u where "ss_uid s = Some u" "map_of (http_index [] hs) (KUid u) = Some h"
    by (auto simp: bind_eq_Some_conv)
  with http_index_sound [OF this(2)] show ?thesis by auto
qed

text \<open>The index finds a transaction for a flow whenever there is one.\<close>

lemma http_index_complete:
  "map_of (http_index d hs) k = None \<Longrightarrow>
     map_of d k = None \<and> (\<forall>h \<in> set hs. k \<noteq> KFlow (ht_src_ip h) (ht_dst_ip h) (ht_dst_port h))"
  by (induction d hs rule: http_index.induct)
    (fastforce simp: Let_def split: option.splits if_splits)+

definition in_window :: "pyfloat option \<Rightarrow> pyfloat option \<Rightarrow> pyfloat \<Rightarrow> bool" where
  "in_window start stop ts \<longleftrightarrow>
     (\<forall>s. start = Some s \<longrightarrow> s \<le> ts) \<and> (\<forall>e. stop = Some e \<longrightarrow> ts \<le> e)"

lemma keep_iff:
  "keep guest start stop src dst ts \<longleftrightarrow>
     (truthy guest \<longrightarrow> the guest \<in> {src, dst}) \<and> in_window start stop ts"
  by (cases guest) (auto simp: keep_def in_window_def split: option.splits)

lemma filter_bundle_untouched:
  "\<not> truthy g \<Longrightarrow> epoch_of L s = None \<Longrightarrow> epoch_of L e = None \<Longrightarrow>
     fst (filter_bundle L b g s e) = b"
  by (simp add: filter_bundle_def Let_def)

lemma fst_filter_bundle:
  "fst (filter_bundle L b g s e) = apply_keep g (epoch_of L s) (epoch_of L e) b"
proof (cases "\<not> truthy g \<and> epoch_of L s = None \<and> epoch_of L e = None")
  case True
  then show ?thesis by (simp add: filter_bundle_def Let_def apply_keep_def keep_def)
next
  case False
  then have "filter_bundle L b g s e =
     (let b' = apply_keep g (epoch_of L s) (epoch_of L e) b in
      (b', \<lparr>fs_removed = total b - total b', fs_kept = total b', fs_applied = True,
            fs_scope = Some (g, s, e)\<rparr>))"
    by (simp only: filter_bundle_def Let_def if_False)
  then show ?thesis by (simp add: Let_def)
qed

lemma filter_bundle_count:
  "fs_removed (snd (filter_bundle L b g s e)) + total (fst (filter_bundle L b g s e)) = total b
   \<and> fs_kept (snd (filter_bundle L b g s e)) = total (fst (filter_bundle L b g s e))"
  using total_apply_keep [of g "epoch_of L s" "epoch_of L e" b]
  by (auto simp: filter_bundle_def Let_def)

section \<open>Properties\<close>

text \<open>
  The projection to connections keeps one record per session with the session's endpoint,
  byte counts and time, and whatever HTTP method it shows was seen in a transaction of the same
  Zeek uid or the same flow; a session whose flow has an HTTP transaction is always enriched.
\<close>

theorem to_connections_faithful:
  "length (to_connections b) = length (b_sessions b) \<and>
   list_all2 (\<lambda>s c. cn_ts c = ss_ts s \<and> cn_src_ip c = ss_src_ip s \<and> cn_dst_ip c = ss_dst_ip s
        \<and> cn_dst_port c = ss_dst_port s \<and> cn_orig_bytes c = ss_orig_bytes s
        \<and> cn_resp_bytes c = ss_resp_bytes s
        \<and> (case http_of_session (http_index [] (b_http b)) s of
              None \<Rightarrow> cn_http_method c = None \<and>
                (\<nexists>h. h \<in> set (b_http b) \<and> ht_src_ip h = ss_src_ip s
                     \<and> ht_dst_ip h = ss_dst_ip s \<and> ht_dst_port h = ss_dst_port s)
            | Some h \<Rightarrow> h \<in> set (b_http b) \<and> cn_http_method c = ht_method h
                \<and> cn_http_host c = ht_host h \<and> cn_http_uri c = ht_uri h
                \<and> (ht_uid h = ss_uid s \<and> ss_uid s \<noteq> None
                   \<or> ht_src_ip h = ss_src_ip s \<and> ht_dst_ip h = ss_dst_ip s
                      \<and> ht_dst_port h = ss_dst_port s)))
     (b_sessions b) (to_connections b)"
proof -
  let ?hi = "http_index [] (b_http b)"
  have none: "(\<nexists>h. h \<in> set (b_http b) \<and> ht_src_ip h = ss_src_ip s
       \<and> ht_dst_ip h = ss_dst_ip s \<and> ht_dst_port h = ss_dst_port s)"
    if "http_of_session ?hi s = None" for s
    using that http_index_complete [of "[]" "b_http b" "KFlow (ss_src_ip s) (ss_dst_ip s) (ss_dst_port s)"]
    by (auto simp: http_of_session_def split: option.splits)
  show ?thesis
    using none http_of_session_sound
    by (fastforce simp: to_connections_def to_connection_def Let_def list_all2_map2
        intro!: list.rel_refl_strong split: option.splits)
qed

text \<open>
  Scoping a bundle is exact and idempotent: the record lists keep, in order, precisely the
  flows the guest takes part in and whose time lies in the (closed) window, artifacts are left
  alone, and the summary accounts for every record.
\<close>

theorem filter_bundle_exact:
  "let (b', r) = filter_bundle L b g s e; win = in_window (epoch_of L s) (epoch_of L e) in
   b_sessions b' = [x \<leftarrow> b_sessions b.
      (truthy g \<longrightarrow> the g \<in> {ss_src_ip x, ss_dst_ip x}) \<and> win (ss_ts x)]
   \<and> b_tls b' = [x \<leftarrow> b_tls b. (truthy g \<longrightarrow> the g \<in> {tl_src_ip x, tl_dst_ip x}) \<and> win (tl_ts x)]
   \<and> b_dns b' = [x \<leftarrow> b_dns b. (truthy g \<longrightarrow> the g \<in> {dn_src_ip x, dn_dst_ip x}) \<and> win (dn_ts x)]
   \<and> b_artifacts b' = b_artifacts b
   \<and> fs_removed r + fs_kept r = total b \<and> fs_kept r = total b'
   \<and> fst (filter_bundle L b' g s e) = b'"
proof -
  obtain b' r where eq: "filter_bundle L b g s e = (b', r)" by fastforce
  have b': "b' = apply_keep g (epoch_of L s) (epoch_of L e) b"
    using fst_filter_bundle [of L b g s e] eq by simp
  have cnt: "fs_removed r + fs_kept r = total b \<and> fs_kept r = total b'"
    using filter_bundle_count [of L b g s e] eq by simp
  show ?thesis
    unfolding eq Let_def prod.case using cnt
    by (simp add: fst_filter_bundle b' apply_keep_idem) (simp add: apply_keep_def keep_iff)
qed


section \<open>A concrete bundle\<close>

definition sample_session :: "pyfloat \<Rightarrow> session" where
  "sample_session t = \<lparr>ss_ts = t, ss_src_ip = ''192.168.122.10'', ss_src_port = 50000,
     ss_dst_ip = ''203.0.113.9'', ss_dst_port = 443, ss_proto = ''tcp'', ss_service = None,
     ss_orig_bytes = 200, ss_resp_bytes = 100, ss_history = ''ShADad'', ss_duration = 1,
     ss_conn_state = None, ss_uid = None\<rparr>"

definition sample_bundle :: analysis_bundle where
  "sample_bundle = \<lparr>b_source = ''zeek'', b_sessions = map sample_session [0, 60, 120, 180], b_dns = [],
     b_http = [], b_tls = [], b_ftp = [], b_smtp = [], b_artifacts = [], b_icmp = []\<rparr>"

lemma filter_bundle_witness:
  "length (b_sessions (fst (filter_bundle (\<lambda>t. t) sample_bundle (Some ''192.168.122.99'') None None))) = 0"
proof -
  let ?f = "filter_bundle (\<lambda>t. t) sample_bundle (Some ''192.168.122.99'') None None"
  have "b_sessions (fst ?f) = [x \<leftarrow> b_sessions sample_bundle.
      (truthy (Some ''192.168.122.99'') \<longrightarrow> the (Some ''192.168.122.99'') \<in> {ss_src_ip x, ss_dst_ip x})
      \<and> in_window (epoch_of (\<lambda>t. t) None) (epoch_of (\<lambda>t. t) None) (ss_ts x)]"
    using filter_bundle_exact [of "\<lambda>t. t" sample_bundle "Some ''192.168.122.99''" None None]
    by (simp add: Let_def split_beta)
  then show ?thesis by (simp add: sample_bundle_def sample_session_def truthy_def)
qed

end
