(* ===== verification/IpAddr.thy ===== *)
theory IpAddr
  imports PyStr
begin

text \<open>
  The part of Python's \<open>ipaddress\<close> the code uses: parsing a textual IPv4 or IPv6 address and
  testing membership of a network; and the traffic stage's list of internal networks
  (\<open>integrations/c2-exfil/pipeline/traffic_analysis.py\<close>).
\<close>

section \<open>Addresses\<close>

text \<open>As in \<open>ipaddress\<close>, the numeric value is an unbounded integer with the version beside it.\<close>

datatype ip_addr = IPv4 int | IPv6 int

fun octet :: "string \<Rightarrow> int option" where
  "octet s =
     (if s = [] \<or> \<not> (\<forall>c \<in> set s. is_digit c) \<or> 3 < length s
         \<or> (1 < length s \<and> hd s = CHR ''0'') \<or> 255 < dec_val s
      then None else Some (dec_val s))"

definition parse_ipv4 :: "string \<Rightarrow> int option" where
  "parse_ipv4 s =
     (case map octet (split_on (CHR ''.'') s) of
        [Some a, Some b, Some c, Some d] \<Rightarrow> Some (((a * 256 + b) * 256 + c) * 256 + d)
      | _ \<Rightarrow> None)"

definition hex_digit :: "char \<Rightarrow> int option" where
  "hex_digit c =
     (let n = of_char c :: nat in
      if 48 \<le> n \<and> n \<le> 57 then Some (int n - 48)
      else if 97 \<le> n \<and> n \<le> 102 then Some (int n - 87)
      else if 65 \<le> n \<and> n \<le> 70 then Some (int n - 55) else None)"

fun hex_val :: "int \<Rightarrow> string \<Rightarrow> int option" where
  "hex_val acc [] = Some acc"
| "hex_val acc (c # s) = (case hex_digit c of None \<Rightarrow> None | Some d \<Rightarrow> hex_val (16 * acc + d) s)"

definition hextet :: "string \<Rightarrow> int option" where
  "hextet s = (if s = [] \<or> 4 < length s then None else hex_val 0 s)"

fun hextets :: "int \<Rightarrow> string list \<Rightarrow> int option" where
  "hextets acc [] = Some acc"
| "hextets acc (p # ps) =
     (case hextet p of None \<Rightarrow> None | Some h \<Rightarrow> hextets (65536 * acc + h) ps)"

text \<open>
  The groups of an IPv6 address: a dotted-quad tail counts as two groups, a single empty
  inner group is the \<open>::\<close> that stands for the missing ones.
\<close>

definition hex_str :: "int \<Rightarrow> string" where
  "hex_str k =
     (let d = (\<lambda>n::nat. ''0123456789abcdef'' ! n);
          n = nat k
      in [d (n div 4096 mod 16), d (n div 256 mod 16), d (n div 16 mod 16), d (n mod 16)])"

definition v6_groups :: "string \<Rightarrow> string list option" where
  "v6_groups s =
     (let parts = split_on (CHR '':'') s in
      if length parts < 3 then None
      else if CHR ''.'' \<in> set (last parts)
      then (case parse_ipv4 (last parts) of
              None \<Rightarrow> None
            | Some v \<Rightarrow> Some (butlast parts @ [hex_str (v div 65536), hex_str (v mod 65536)]))
      else Some parts)"

definition empty_inner :: "string list \<Rightarrow> nat list" where
  "empty_inner parts = filter (\<lambda>i. parts ! i = []) [1 ..< length parts - 1]"

definition groups_value :: "string list \<Rightarrow> int option" where
  "groups_value parts =
     (if 9 < length parts then None
      else case empty_inner parts of
        [] \<Rightarrow> if length parts \<noteq> 8 \<or> hd parts = [] \<or> last parts = [] then None
              else hextets 0 parts
      | [i] \<Rightarrow>
          let hi0 = i; lo0 = length parts - i - 1;
              hi = (if hd parts = [] then hi0 - 1 else hi0);
              lo = (if last parts = [] then lo0 - 1 else lo0)
          in if hd parts = [] \<and> hi \<noteq> 0 \<or> last parts = [] \<and> lo \<noteq> 0 \<or> 8 < hi + lo + 1 then None
             else (case hextets 0 (take hi parts) of
                     None \<Rightarrow> None
                   | Some v \<Rightarrow> hextets (v * 65536 ^ (8 - (hi + lo))) (drop (length parts - lo) parts))
      | _ \<Rightarrow> None)"

text \<open>A zone after \<open>%\<close> must be non-empty and free of further \<open>%\<close>; it does not affect the value.\<close>

definition parse_ipv6 :: "string \<Rightarrow> int option" where
  "parse_ipv6 s =
     (if CHR ''/'' \<in> set s then None
      else case split_once (CHR ''%'') s of
        Some (a, zone) \<Rightarrow>
          if zone = [] \<or> CHR ''%'' \<in> set zone then None
          else Option.bind (v6_groups a) groups_value
      | None \<Rightarrow> Option.bind (v6_groups s) groups_value)"

text \<open>\<open>ipaddress.ip_address(s)\<close>; \<open>None\<close> is the \<open>ValueError\<close>.\<close>

definition ip_address :: "string \<Rightarrow> ip_addr option" where
  "ip_address s =
     (case parse_ipv4 s of
        Some v \<Rightarrow> Some (IPv4 v)
      | None \<Rightarrow> map_option IPv6 (parse_ipv6 s))"

section \<open>Networks\<close>

datatype ip_net = Net4 int nat | Net6 int nat

text \<open>\<open>addr in net\<close>: same version, and clearing the host bits gives the network address.\<close>

fun in_net :: "ip_addr \<Rightarrow> ip_net \<Rightarrow> bool" where
  "in_net (IPv4 a) (Net4 base p) = (a div 2 ^ (32 - p) * 2 ^ (32 - p) = base)"
| "in_net (IPv6 a) (Net6 base p) = (a div 2 ^ (128 - p) * 2 ^ (128 - p) = base)"
| "in_net _ _ = False"

definition v4 :: "int \<Rightarrow> int \<Rightarrow> int \<Rightarrow> int \<Rightarrow> int" where
  "v4 a b c d = ((a * 256 + b) * 256 + c) * 256 + d"

text \<open>\<open>_INTERNAL_NETS\<close>: RFC 1918, loopback, link-local, "this network"; \<open>::1\<close>, \<open>fe80::/10\<close>, \<open>fc00::/7\<close>.\<close>

definition internal_nets :: "ip_net list" where
  "internal_nets =
     [Net4 (v4 10 0 0 0) 8, Net4 (v4 172 16 0 0) 12, Net4 (v4 192 168 0 0) 16,
      Net4 (v4 127 0 0 0) 8, Net4 (v4 169 254 0 0) 16, Net4 0 8,
      Net6 1 128, Net6 (0xfe80 * 2 ^ 112) 10, Net6 (0xfc00 * 2 ^ 112) 7]"

definition is_private_ip :: "string \<Rightarrow> bool" where
  "is_private_ip ip =
     (case ip_address ip of
        None \<Rightarrow> False
      | Some addr \<Rightarrow> list_ex (in_net addr) internal_nets)"

section \<open>Lemmas\<close>

text \<open>A CIDR block is an interval.\<close>

lemma div_mult_eq_interval:
  "(a::int) div 2 ^ k * 2 ^ k = b * 2 ^ k \<longleftrightarrow> b * 2 ^ k \<le> a \<and> a < (b + 1) * 2 ^ k"
proof -
  have m: "(0::int) < 2 ^ k" by simp
  have split: "a = a div 2 ^ k * 2 ^ k + a mod 2 ^ k" by (simp only: div_mult_mod_eq)
  have r: "0 \<le> a mod 2 ^ k" "a mod 2 ^ k < 2 ^ k" using m by simp_all
  show ?thesis
  proof
    assume "a div 2 ^ k * 2 ^ k = b * 2 ^ k"
    then show "b * 2 ^ k \<le> a \<and> a < (b + 1) * 2 ^ k"
      using split r distrib_right [of b 1 "2 ^ k"] by (intro conjI) linarith+
  next
    assume i: "b * 2 ^ k \<le> a \<and> a < (b + 1) * 2 ^ k"
    have "a div 2 ^ k = b"
      by (rule int_div_pos_eq [where r = "a - b * 2 ^ k"]) (use i in \<open>simp_all add: distrib_right\<close>)
    then show "a div 2 ^ k * 2 ^ k = b * 2 ^ k" by simp
  qed
qed

lemma in_net4_interval:
  "in_net (IPv4 a) (Net4 (b * 2 ^ (32 - p)) p) \<longleftrightarrow>
     b * 2 ^ (32 - p) \<le> a \<and> a < (b + 1) * 2 ^ (32 - p)"
  by (simp only: in_net.simps div_mult_eq_interval)

end
