(* ===== verification/Traffic.thy ===== *)
theory Traffic
  imports Bundle IpAddr "HOL-Library.Product_Lexorder"
begin

text \<open>
  The traffic-analysis stage (\<open>integrations/c2-exfil/pipeline/traffic_analysis.py\<close>): beaconing,
  volume exfiltration, FTP store commands, unclassified egress and the network tier. The
  population standard deviation is the argument \<open>pstdev\<close>: its rounding differs between Python
  versions, and nothing here depends on it beyond being a function of the sample.
\<close>

section \<open>Verdicts\<close>

record beacon_verdict =
  bv_dst_ip :: string
  bv_dst_port :: int
  bv_connection_count :: nat
  bv_mean_interval_s :: pyfloat
  bv_interval_stddev_s :: pyfloat
  bv_jitter_ratio :: pyfloat
  bv_is_beacon :: bool
  bv_confidence :: pyfloat
  bv_size_cv :: pyfloat
  bv_handshake_ratio :: pyfloat
  bv_unanswered :: bool

record exfil_verdict =
  ev_src_ip :: string
  ev_dst_ip :: string
  ev_dst_port :: int
  ev_orig_bytes :: int
  ev_upload_ratio :: pyfloat
  ev_http_method :: "string option"
  ev_http_uri :: "string option"
  ev_is_exfil :: bool
  ev_confidence :: pyfloat

record egress_verdict =
  gv_dst_ip :: string
  gv_dst_port :: int
  gv_orig_bytes :: int
  gv_upload_ratio :: pyfloat

section \<open>Beaconing\<close>

text \<open>\<open>_responded\<close>: response bytes, or a lower-case letter in Zeek's history.\<close>

definition responded :: "connection \<Rightarrow> bool" where
  "responded c \<longleftrightarrow> 0 < cn_resp_bytes c \<or> list_ex is_lower (cn_history c)"

text \<open>\<open>statistics.mean\<close>: the exact mean, rounded once.\<close>

definition mean :: "rat list \<Rightarrow> pyfloat" where
  "mean xs = rnd (sum_list xs / of_nat (length xs))"

definition beacon_key :: "connection \<Rightarrow> string \<times> int" where
  "beacon_key c = (cn_dst_ip c, cn_dst_port c)"

definition by_dst ::
    "connection list \<Rightarrow> (string \<times> int, (pyfloat \<times> int \<times> bool) list) dict" where
  "by_dst conns =
     group_into [] (map (\<lambda>c. (beacon_key c, (cn_ts c, cn_orig_bytes c, responded c)))
       (filter (\<lambda>c. \<not> is_private_ip (cn_dst_ip c)) conns))"

text \<open>The confidence of a beacon: timing, number of callbacks, size regularity; capped if unanswered.\<close>

definition beacon_confidence :: "pyfloat \<Rightarrow> pyfloat \<Rightarrow> nat \<Rightarrow> pyfloat \<Rightarrow> bool \<Rightarrow> pyfloat" where
  "beacon_confidence jitter max_jitter_ratio n size_cv unanswered =
     (let c = fadd (fadd (fmul (fsub 1 (fdiv jitter max_jitter_ratio)) (rnd (55 / 100)))
                         (fmul (min (idiv (int n) 10) 1) (rnd (35 / 100))))
                   (if size_cv < rnd (1 / 10) then rnd (10 / 100) else 0);
          c' = min 1 c
      in if unanswered then min c' (rnd (3 / 10)) else c')"

definition beacon_verdict_of ::
    "(rat list \<Rightarrow> pyfloat) \<Rightarrow> pyfloat \<Rightarrow> pyfloat \<Rightarrow> string \<times> int \<Rightarrow> (pyfloat \<times> int \<times> bool) list
       \<Rightarrow> beacon_verdict" where
  "beacon_verdict_of pstdev max_jitter_ratio min_interval_s key rows0 =
     (let rows = sort rows0;
          times = map fst rows;
          sizes = map (\<lambda>r. of_int (fst (snd r))) rows;
          answered = length (filter (\<lambda>r. snd (snd r)) rows);
          handshake_ratio = idiv (int answered) (int (length rows));
          intervals = map (\<lambda>(t1, t2). fsub t2 t1) (zip times (tl times));
          mean_iv = mean intervals;
          stddev_iv = (if 1 < length intervals then pstdev intervals else 0);
          jitter = (if 0 < mean_iv then fdiv stddev_iv mean_iv else 1);
          mean_sz = (if sizes = [] then 0 else mean sizes);
          size_cv = (if 0 < mean_sz then fdiv (pstdev sizes) mean_sz else 0);
          is_beacon = (jitter \<le> max_jitter_ratio \<and> min_interval_s \<le> mean_iv);
          unanswered = (is_beacon \<and> answered = 0);
          conf = (if is_beacon
                  then beacon_confidence jitter max_jitter_ratio (length times) size_cv unanswered
                  else 0)
      in \<lparr>bv_dst_ip = fst key, bv_dst_port = snd key, bv_connection_count = length times,
          bv_mean_interval_s = pyround 2 mean_iv, bv_interval_stddev_s = pyround 3 stddev_iv,
          bv_jitter_ratio = pyround 3 jitter, bv_is_beacon = is_beacon,
          bv_confidence = pyround 2 conf, bv_size_cv = pyround 3 size_cv,
          bv_handshake_ratio = pyround 2 handshake_ratio, bv_unanswered = unanswered\<rparr>)"

definition detect_beaconing ::
    "(rat list \<Rightarrow> pyfloat) \<Rightarrow> connection list \<Rightarrow> nat \<Rightarrow> pyfloat \<Rightarrow> pyfloat \<Rightarrow> beacon_verdict list" where
  "detect_beaconing pstdev conns min_count max_jitter_ratio min_interval_s =
     map (\<lambda>(k, rows). beacon_verdict_of pstdev max_jitter_ratio min_interval_s k rows)
       (filter (\<lambda>(k, rows). min_count \<le> length rows) (by_dst conns))"

section \<open>Volume exfiltration\<close>

definition upload_ratio :: "connection \<Rightarrow> pyfloat" where
  "upload_ratio c =
     (let total = cn_orig_bytes c + cn_resp_bytes c in
      if 0 < total then idiv (cn_orig_bytes c) total else 0)"

definition exfil_verdict_of ::
    "int \<Rightarrow> pyfloat \<Rightarrow> int option \<Rightarrow> connection \<Rightarrow> exfil_verdict option" where
  "exfil_verdict_of min_upload_bytes min_upload_ratio min_raw_upload_bytes c =
     (let ratio = upload_ratio c;
          is_post = (cn_http_method c = Some ''POST'');
          raw_limit = (case min_raw_upload_bytes of Some r \<Rightarrow> r | None \<Rightarrow> min_upload_bytes);
          effective_min_bytes = (if is_post then min_upload_bytes else raw_limit);
          big_post = (is_post \<and> min_upload_bytes \<le> cn_orig_bytes c);
          high_ratio = (effective_min_bytes \<le> cn_orig_bytes c \<and> min_upload_ratio \<le> ratio);
          is_exfil = (big_post \<or> high_ratio);
          conf0 = rnd (1 / 2);
          conf1 = (if big_post then fadd conf0 (rnd (3 / 10)) else conf0);
          conf2 = (if min_upload_ratio \<le> ratio then fadd conf1 (rnd (2 / 10)) else conf1)
      in if is_exfil
         then Some \<lparr>ev_src_ip = cn_src_ip c, ev_dst_ip = cn_dst_ip c, ev_dst_port = cn_dst_port c,
                    ev_orig_bytes = cn_orig_bytes c, ev_upload_ratio = pyround 2 ratio,
                    ev_http_method = cn_http_method c, ev_http_uri = cn_http_uri c,
                    ev_is_exfil = True, ev_confidence = pyround 2 (min conf2 1)\<rparr>
         else None)"

fun detect_exfil ::
    "connection list \<Rightarrow> int \<Rightarrow> pyfloat \<Rightarrow> int option \<Rightarrow> exfil_verdict list" where
  "detect_exfil [] mb mr raw = []"
| "detect_exfil (c # cs) mb mr raw =
     (if is_private_ip (cn_dst_ip c) then detect_exfil cs mb mr raw
      else (case exfil_verdict_of mb mr raw c of
              Some v \<Rightarrow> v # detect_exfil cs mb mr raw
            | None \<Rightarrow> detect_exfil cs mb mr raw))"

section \<open>Tier of a network finding\<close>

definition network_confidence_tier :: "bool \<Rightarrow> nat \<Rightarrow> tier" where
  "network_confidence_tier reputation_hit corroborating_signals =
     (if reputation_hit then Confirmed
      else if 2 \<le> corroborating_signals then Strong else Weak)"

section \<open>Unclassified egress\<close>

fun unclassified ::
    "int \<Rightarrow> pyfloat \<Rightarrow> string set \<Rightarrow> (string \<times> int) set \<Rightarrow> connection list \<Rightarrow> egress_verdict list" where
  "unclassified min_bytes min_ratio covered seen [] = []"
| "unclassified min_bytes min_ratio covered seen (c # cs) =
     (if is_private_ip (cn_dst_ip c) \<or> cn_dst_ip c \<in> covered
      then unclassified min_bytes min_ratio covered seen cs
      else if min_bytes \<le> cn_orig_bytes c \<and> min_ratio \<le> upload_ratio c
      then (let key = (cn_dst_ip c, cn_dst_port c) in
            if key \<in> seen then unclassified min_bytes min_ratio covered seen cs
            else \<lparr>gv_dst_ip = cn_dst_ip c, gv_dst_port = cn_dst_port c,
                  gv_orig_bytes = cn_orig_bytes c, gv_upload_ratio = pyround 2 (upload_ratio c)\<rparr>
                 # unclassified min_bytes min_ratio covered (insert key seen) cs)
      else unclassified min_bytes min_ratio covered seen cs)"

definition detect_unclassified_egress ::
    "connection list \<Rightarrow> string set \<Rightarrow> int \<Rightarrow> pyfloat \<Rightarrow> egress_verdict list" where
  "detect_unclassified_egress conns covered min_bytes min_ratio =
     unclassified min_bytes min_ratio covered {} conns"

section \<open>FTP store commands\<close>

definition ftp_verdict_of :: "connection \<Rightarrow> exfil_verdict" where
  "ftp_verdict_of c =
     \<lparr>ev_src_ip = cn_src_ip c, ev_dst_ip = cn_dst_ip c, ev_dst_port = cn_dst_port c,
      ev_orig_bytes = cn_orig_bytes c, ev_upload_ratio = pyround 2 (upload_ratio c),
      ev_http_method = Some ''FTP'', ev_http_uri = cn_ftp_upload_cmd c,
      ev_is_exfil = True, ev_confidence = rnd (8 / 10)\<rparr>"

fun ftp_exfil :: "string set \<Rightarrow> connection list \<Rightarrow> exfil_verdict list" where
  "ftp_exfil seen [] = []"
| "ftp_exfil seen (c # cs) =
     (if \<not> truthy (cn_ftp_upload_cmd c) \<or> is_private_ip (cn_dst_ip c) then ftp_exfil seen cs
      else if cn_dst_ip c \<in> seen then ftp_exfil seen cs
      else ftp_verdict_of c # ftp_exfil (insert (cn_dst_ip c) seen) cs)"

definition detect_ftp_exfil :: "connection list \<Rightarrow> exfil_verdict list" where
  "detect_ftp_exfil conns = ftp_exfil {} conns"

section \<open>Lemmas\<close>

lemma detect_exfil_map_filter:
  "detect_exfil cs mb mr raw =
     List.map_filter (exfil_verdict_of mb mr raw) (filter (\<lambda>c. \<not> is_private_ip (cn_dst_ip c)) cs)"
  by (induction cs) (auto simp: List.map_filter_simps split: option.splits)

lemma ftp_exfil_first_by:
  "ftp_exfil seen cs =
     map ftp_verdict_of (first_by cn_dst_ip seen
       (filter (\<lambda>c. truthy (cn_ftp_upload_cmd c) \<and> \<not> is_private_ip (cn_dst_ip c)) cs))"
  by (induction cs arbitrary: seen) auto

definition egress_candidate :: "int \<Rightarrow> pyfloat \<Rightarrow> string set \<Rightarrow> connection \<Rightarrow> bool" where
  "egress_candidate min_bytes min_ratio covered c \<longleftrightarrow>
     \<not> is_private_ip (cn_dst_ip c) \<and> cn_dst_ip c \<notin> covered
     \<and> min_bytes \<le> cn_orig_bytes c \<and> min_ratio \<le> upload_ratio c"

definition egress_verdict_of :: "connection \<Rightarrow> egress_verdict" where
  "egress_verdict_of c = \<lparr>gv_dst_ip = cn_dst_ip c, gv_dst_port = cn_dst_port c,
     gv_orig_bytes = cn_orig_bytes c, gv_upload_ratio = pyround 2 (upload_ratio c)\<rparr>"

lemma unclassified_first_by:
  "unclassified mb mr covered seen cs =
     map egress_verdict_of (first_by beacon_key seen (filter (egress_candidate mb mr covered) cs))"
  by (induction cs arbitrary: seen)
    (auto simp: Let_def egress_candidate_def egress_verdict_of_def beacon_key_def)

lemma idiv_unit: "0 \<le> a \<Longrightarrow> a \<le> b \<Longrightarrow> unit_interval (idiv a b)"
proof -
  assume "0 \<le> a" "a \<le> b"
  then have "unit_interval (of_int a / of_int b)"
    by (cases "b = 0") (auto simp: unit_interval_def divide_le_eq_1)
  then show ?thesis by (simp add: idiv_def rnd_unit)
qed

text \<open>The confidence is never negative: a beacon's jitter is at most the limit.\<close>

lemma beacon_confidence_unit:
  assumes "jitter \<le> mj" "0 < mj"
  shows "unit_interval (beacon_confidence jitter mj n cv u)"
proof -
  have "jitter / mj \<le> 1" using assms by (simp add: divide_le_eq_1)
  then have a: "0 \<le> fsub 1 (fdiv jitter mj)"
    by (simp add: fsub_def fdiv_def rnd_nonneg rnd_le_1)
  have b: "0 \<le> idiv (int n) 10" by (simp add: idiv_def rnd_nonneg)
  have c: "0 \<le> rnd (3 / 10)" "0 \<le> rnd (55 / 100)" "0 \<le> rnd (35 / 100)" "0 \<le> rnd (10 / 100)"
    by (simp_all add: rnd_nonneg)
  have "0 \<le> fadd (fadd (fmul (fsub 1 (fdiv jitter mj)) (rnd (55 / 100)))
                   (fmul (min (idiv (int n) 10) 1) (rnd (35 / 100))))
             (if cv < rnd (1 / 10) then rnd (10 / 100) else 0)"
    unfolding fadd_def fmul_def using a b c
    by (intro rnd_nonneg add_nonneg_nonneg mult_nonneg_nonneg) simp_all
  then show ?thesis using c(1)
    unfolding beacon_confidence_def Let_def unit_interval_def by auto
qed

lemma beacon_confidence_unanswered: "beacon_confidence j mj n cv True \<le> rnd (3 / 10)"
  by (simp add: beacon_confidence_def Let_def)

lemma beacon_verdict_fields:
  "bv_dst_ip (beacon_verdict_of p mj mi k rows) = fst k"
  "bv_dst_port (beacon_verdict_of p mj mi k rows) = snd k"
  "bv_connection_count (beacon_verdict_of p mj mi k rows) = length rows"
  by (simp_all add: beacon_verdict_of_def Let_def)

lemma beacon_verdict_unit:
  "0 < mj \<Longrightarrow> unit_interval (bv_confidence (beacon_verdict_of p mj mi k rows))"
  unfolding beacon_verdict_of_def Let_def beacon_verdict.simps
  by (rule pyround_unit) (simp add: beacon_confidence_unit unit_interval_def [of 0])

lemma beacon_verdict_quiet:
  "\<not> bv_is_beacon (beacon_verdict_of p mj mi k rows) \<Longrightarrow>
     bv_confidence (beacon_verdict_of p mj mi k rows) = 0"
  unfolding beacon_verdict_of_def Let_def beacon_verdict.simps by (simp only: if_False pyround_0)

lemma beacon_verdict_capped:
  "bv_unanswered (beacon_verdict_of p mj mi k rows) \<Longrightarrow>
     bv_confidence (beacon_verdict_of p mj mi k rows) \<le> pyround 2 (rnd (3 / 10))"
  unfolding beacon_verdict_of_def Let_def beacon_verdict.simps
  by (rule pyround_mono) (simp add: beacon_confidence_unanswered)

lemma beacon_verdict_unanswered:
  "bv_unanswered (beacon_verdict_of p mj mi k rows) \<longleftrightarrow>
     bv_is_beacon (beacon_verdict_of p mj mi k rows) \<and> (\<forall>r \<in> set rows. \<not> snd (snd r))"
  unfolding beacon_verdict_of_def Let_def beacon_verdict.simps
  by (auto simp: filter_empty_conv)

text \<open>The connections to one public destination.\<close>

definition flows_to :: "string \<times> int \<Rightarrow> connection list \<Rightarrow> connection list" where
  "flows_to k conns = filter (\<lambda>c. beacon_key c = k) conns"

lemma by_dst_entry:
  "(k, rows) \<in> set (by_dst conns) \<longleftrightarrow>
     \<not> is_private_ip (fst k) \<and> flows_to k conns \<noteq> []
     \<and> rows = map (\<lambda>c. (cn_ts c, cn_orig_bytes c, responded c)) (flows_to k conns)"
proof -
  let ?pub = "filter (\<lambda>c. \<not> is_private_ip (cn_dst_ip c)) conns"
  have k: "k \<in> beacon_key ` set ?pub \<longleftrightarrow> \<not> is_private_ip (fst k) \<and> flows_to k conns \<noteq> []"
    by (auto simp: flows_to_def filter_empty_conv beacon_key_def image_iff)
  have same: "filter (\<lambda>c. beacon_key c = k) ?pub = flows_to k conns" if "\<not> is_private_ip (fst k)"
    using that by (auto simp: flows_to_def beacon_key_def intro!: filter_cong)
  show ?thesis
    unfolding by_dst_def group_into_entry using k same
    by (auto simp: image_image filter_map o_def)
qed

lemma by_dst_distinct: "distinct (dict_keys (by_dst conns))"
  by (simp add: by_dst_def group_into_distinct)

lemma detect_beaconing_mem:
  "v \<in> set (detect_beaconing p conns mc mj mi) \<longleftrightarrow>
     (\<exists>k. \<not> is_private_ip (fst k) \<and> flows_to k conns \<noteq> [] \<and> mc \<le> length (flows_to k conns)
        \<and> v = beacon_verdict_of p mj mi k
                (map (\<lambda>c. (cn_ts c, cn_orig_bytes c, responded c)) (flows_to k conns)))"
  unfolding detect_beaconing_def by (auto simp: by_dst_entry image_iff)

lemma detect_beaconing_keys:
  assumes "0 < mc"
  shows "set (map (\<lambda>v. (bv_dst_ip v, bv_dst_port v)) (detect_beaconing p conns mc mj mi))
     = {k. \<not> is_private_ip (fst k) \<and> mc \<le> length (flows_to k conns)}"
proof -
  have "k \<in> (\<lambda>v. (bv_dst_ip v, bv_dst_port v)) ` set (detect_beaconing p conns mc mj mi)"
    if "\<not> is_private_ip (fst k)" "mc \<le> length (flows_to k conns)" for k
  proof -
    let ?v = "beacon_verdict_of p mj mi k (map (\<lambda>c. (cn_ts c, cn_orig_bytes c, responded c)) (flows_to k conns))"
    have "flows_to k conns \<noteq> []" using that(2) assms by auto
    then have "?v \<in> set (detect_beaconing p conns mc mj mi)"
      using that by (subst detect_beaconing_mem) blast
    moreover have "k = (bv_dst_ip ?v, bv_dst_port ?v)" by (simp add: beacon_verdict_fields)
    ultimately show ?thesis by (rule rev_image_eqI)
  qed
  then show ?thesis by (auto simp: detect_beaconing_mem beacon_verdict_fields)
qed

lemma detect_beaconing_distinct:
  "distinct (map (\<lambda>v. (bv_dst_ip v, bv_dst_port v)) (detect_beaconing p conns mc mj mi))"
proof -
  have "map (\<lambda>v. (bv_dst_ip v, bv_dst_port v)) (detect_beaconing p conns mc mj mi)
      = map fst (filter (\<lambda>(k, rows). mc \<le> length rows) (by_dst conns))"
    by (simp add: detect_beaconing_def case_prod_beta beacon_verdict_fields)
  then show ?thesis using by_dst_distinct [of conns] by (simp add: distinct_map_filter)
qed

section \<open>Properties\<close>

text \<open>
  C14. Beaconing detection gives exactly one verdict for every public destination with at least
  the minimum number of connections, and none for a private one; its confidence is in [0,1],
  is 0 unless the verdict is a beacon, and a beacon none of whose callbacks was answered is
  tagged and capped at (the rounding of) 0.3.
\<close>

theorem beacon_verdicts_sound:
  assumes "0 < mj" and "0 < mc"
  shows "set (map (\<lambda>v. (bv_dst_ip v, bv_dst_port v)) (detect_beaconing p conns mc mj mi))
       = {k. \<not> is_private_ip (fst k) \<and> mc \<le> length (flows_to k conns)}
   \<and> distinct (map (\<lambda>v. (bv_dst_ip v, bv_dst_port v)) (detect_beaconing p conns mc mj mi))
   \<and> (\<forall>v \<in> set (detect_beaconing p conns mc mj mi).
         unit_interval (bv_confidence v)
       \<and> (\<not> bv_is_beacon v \<longrightarrow> bv_confidence v = 0)
       \<and> (bv_unanswered v \<longleftrightarrow> bv_is_beacon v \<and>
            (\<forall>c \<in> set (flows_to (bv_dst_ip v, bv_dst_port v) conns). \<not> responded c))
       \<and> (bv_unanswered v \<longrightarrow> bv_confidence v \<le> pyround 2 (rnd (3 / 10))))"
proof (intro conjI ballI)
  show "set (map (\<lambda>v. (bv_dst_ip v, bv_dst_port v)) (detect_beaconing p conns mc mj mi))
       = {k. \<not> is_private_ip (fst k) \<and> mc \<le> length (flows_to k conns)}"
    using assms(2) by (rule detect_beaconing_keys)
  show "distinct (map (\<lambda>v. (bv_dst_ip v, bv_dst_port v)) (detect_beaconing p conns mc mj mi))"
    by (rule detect_beaconing_distinct)
next
  fix v assume "v \<in> set (detect_beaconing p conns mc mj mi)"
  then obtain k where v: "v = beacon_verdict_of p mj mi k
      (map (\<lambda>c. (cn_ts c, cn_orig_bytes c, responded c)) (flows_to k conns))"
    by (auto simp: detect_beaconing_mem)
  show "unit_interval (bv_confidence v)" using beacon_verdict_unit [OF assms(1)] v by simp
  show "\<not> bv_is_beacon v \<longrightarrow> bv_confidence v = 0" using beacon_verdict_quiet v by simp
  show "bv_unanswered v \<longleftrightarrow> bv_is_beacon v \<and>
            (\<forall>c \<in> set (flows_to (bv_dst_ip v, bv_dst_port v) conns). \<not> responded c)"
    by (simp add: v beacon_verdict_unanswered beacon_verdict_fields)
  show "bv_unanswered v \<longrightarrow> bv_confidence v \<le> pyround 2 (rnd (3 / 10))"
    using beacon_verdict_capped v by simp
qed

definition pushes_out :: "int \<Rightarrow> pyfloat \<Rightarrow> int option \<Rightarrow> connection \<Rightarrow> bool" where
  "pushes_out mb mr raw c \<longleftrightarrow>
     cn_http_method c = Some ''POST'' \<and> mb \<le> cn_orig_bytes c
     \<or> cn_http_method c \<noteq> Some ''POST'' \<and> (case raw of Some r \<Rightarrow> r | None \<Rightarrow> mb) \<le> cn_orig_bytes c
       \<and> mr \<le> upload_ratio c"

lemma exfil_verdict_None: "exfil_verdict_of mb mr raw c = None \<longleftrightarrow> \<not> pushes_out mb mr raw c"
  by (auto simp: exfil_verdict_of_def pushes_out_def Let_def)

lemma exfil_verdict_Some:
  assumes "exfil_verdict_of mb mr raw c = Some v"
  shows "(ev_src_ip v, ev_dst_ip v, ev_dst_port v, ev_orig_bytes v)
      = (cn_src_ip c, cn_dst_ip c, cn_dst_port c, cn_orig_bytes c)" "ev_is_exfil v" "unit_interval (ev_confidence v)"
proof -
  have pos: "0 \<le> rnd (1 / 2)" "0 \<le> rnd (3 / 10)" "0 \<le> rnd (2 / 10)" by (simp_all add: rnd_nonneg)
  show "(ev_src_ip v, ev_dst_ip v, ev_dst_port v, ev_orig_bytes v)
      = (cn_src_ip c, cn_dst_ip c, cn_dst_port c, cn_orig_bytes c)" "ev_is_exfil v"
    using assms by (auto simp: exfil_verdict_of_def Let_def split: if_split_asm)
  show "unit_interval (ev_confidence v)"
    using assms pos unfolding exfil_verdict_of_def Let_def
    by (auto split: if_splits intro!: pyround_min_unit simp: fadd_def rnd_nonneg)
qed

text \<open>
  Volume exfiltration is flagged for exactly the public flows that push enough data out: a
  POST of at least the POST threshold, or an upload of at least the applicable threshold whose
  upload ratio reaches the limit; the verdicts come in connection order with confidence in [0,1].
\<close>

theorem detect_exfil_exact:
  "map (\<lambda>v. (ev_src_ip v, ev_dst_ip v, ev_dst_port v, ev_orig_bytes v)) (detect_exfil cs mb mr raw)
     = map (\<lambda>c. (cn_src_ip c, cn_dst_ip c, cn_dst_port c, cn_orig_bytes c))
         [c \<leftarrow> cs. \<not> is_private_ip (cn_dst_ip c) \<and>
            (cn_http_method c = Some ''POST'' \<and> mb \<le> cn_orig_bytes c
             \<or> cn_http_method c \<noteq> Some ''POST'' \<and> (case raw of Some r \<Rightarrow> r | None \<Rightarrow> mb) \<le> cn_orig_bytes c
               \<and> mr \<le> upload_ratio c)]
   \<and> (\<forall>v \<in> set (detect_exfil cs mb mr raw). unit_interval (ev_confidence v) \<and> ev_is_exfil v)"
proof (unfold pushes_out_def [symmetric], induction cs)
  case (Cons c cs)
  note IH = Cons.IH
  show ?case
  proof (cases "exfil_verdict_of mb mr raw c")
    case None
    with exfil_verdict_None [of mb mr raw c] show ?thesis using IH by simp
  next
    case (Some v)
    with exfil_verdict_None [of mb mr raw c] exfil_verdict_Some [OF Some]
    show ?thesis using IH by simp
  qed
qed simp

text \<open>
  FTP exfiltration gives exactly one verdict per public server that received a store
  command, taken from the first connection that carried one.
\<close>

theorem detect_ftp_exfil_first:
  "let stores = [c \<leftarrow> conns. truthy (cn_ftp_upload_cmd c) \<and> \<not> is_private_ip (cn_dst_ip c)];
       vs = detect_ftp_exfil conns in
   distinct (map ev_dst_ip vs) \<and> set (map ev_dst_ip vs) = set (map cn_dst_ip stores)
   \<and> (\<forall>v \<in> set vs. find (\<lambda>c. cn_dst_ip c = ev_dst_ip v) stores \<noteq> None
        \<and> v = ftp_verdict_of (the (find (\<lambda>c. cn_dst_ip c = ev_dst_ip v) stores)))"
proof -
  define stores where "stores = [c \<leftarrow> conns. truthy (cn_ftp_upload_cmd c) \<and> \<not> is_private_ip (cn_dst_ip c)]"
  let ?fs = "first_by cn_dst_ip {} stores"
  have vs: "detect_ftp_exfil conns = map ftp_verdict_of ?fs"
    by (simp add: detect_ftp_exfil_def ftp_exfil_first_by stores_def)
  have ip: "ev_dst_ip (ftp_verdict_of c) = cn_dst_ip c" for c by (simp add: ftp_verdict_of_def)
  have dist: "distinct (map cn_dst_ip ?fs)" by (rule first_by_distinct)
  have "find (\<lambda>c. cn_dst_ip c = cn_dst_ip x) stores = Some x" if "x \<in> set ?fs" for x
  proof -
    have "find (\<lambda>c. cn_dst_ip c = cn_dst_ip x) ?fs = Some x"
      using dist that by (rule find_distinct_key)
    then show ?thesis using first_by_find [of "cn_dst_ip x" "{}" cn_dst_ip stores] by simp
  qed
  moreover have "cn_dst_ip ` set ?fs = cn_dst_ip ` set stores"
    using first_by_keys [of cn_dst_ip "{}" stores] by simp
  ultimately show ?thesis
    unfolding Let_def stores_def [symmetric] vs
    using dist by (auto simp: ip o_def)
qed

text \<open>
  The egress net leaves no hole: a destination and port is reported if and only if some flow
  to it leaves the host with enough bytes and upload ratio and its address is neither internal
  nor already explained by a specific detector; each is reported once.
\<close>

theorem unclassified_egress_exact:
  "set (map (\<lambda>v. (gv_dst_ip v, gv_dst_port v)) (detect_unclassified_egress conns covered mb mr))
     = {(cn_dst_ip c, cn_dst_port c) | c. c \<in> set conns \<and> \<not> is_private_ip (cn_dst_ip c)
          \<and> cn_dst_ip c \<notin> covered \<and> mb \<le> cn_orig_bytes c \<and> mr \<le> upload_ratio c}
   \<and> distinct (map (\<lambda>v. (gv_dst_ip v, gv_dst_port v)) (detect_unclassified_egress conns covered mb mr))"
proof -
  let ?cs = "filter (egress_candidate mb mr covered) conns"
  have eq: "map (\<lambda>v. (gv_dst_ip v, gv_dst_port v)) (detect_unclassified_egress conns covered mb mr)
      = map beacon_key (first_by beacon_key {} ?cs)"
    by (simp add: detect_unclassified_egress_def unclassified_first_by egress_verdict_of_def
        beacon_key_def [abs_def] o_def)
  show ?thesis
    unfolding eq using first_by_distinct [of beacon_key "{}" ?cs] first_by_keys [of beacon_key "{}" ?cs]
    by (auto simp: egress_candidate_def beacon_key_def)
qed


section \<open>The properties at concrete flows\<close>

definition sample_conn :: "pyfloat \<Rightarrow> connection" where
  "sample_conn t = \<lparr>cn_ts = t, cn_src_ip = ''192.168.122.10'', cn_dst_ip = ''203.0.113.9'', cn_dst_port = 443,
     cn_proto = ''tcp'', cn_orig_bytes = 200000, cn_resp_bytes = 0, cn_history = ''S'',
     cn_http_method = Some ''POST'', cn_http_host = None, cn_http_uri = None,
     cn_ftp_upload_cmd = Some ''STOR loot.zip''\<rparr>"

lemma beacon_verdicts_witness:
  "set (map (\<lambda>v. (bv_dst_ip v, bv_dst_port v))
        (detect_beaconing (\<lambda>_. 0) [sample_conn 0, sample_conn 60, sample_conn 120] 3 (1 / 4) 5))
     = {k. \<not> is_private_ip (fst k) \<and> 3 \<le> length (flows_to k [sample_conn 0, sample_conn 60, sample_conn 120])}"
  using beacon_verdicts_sound [of "1 / 4" 3 "\<lambda>_. 0" "[sample_conn 0, sample_conn 60, sample_conn 120]" 5]
  by simp

lemma detect_exfil_witness:
  "case detect_exfil [sample_conn 0] 100000 (3 / 4) None of [v] \<Rightarrow> unit_interval (ev_confidence v) | _ \<Rightarrow> False"
proof -
  have "length (detect_exfil [sample_conn 0] 100000 (3 / 4) None) = 1" by code_simp
  then obtain v where "detect_exfil [sample_conn 0] 100000 (3 / 4) None = [v]"
    by (auto simp: length_Suc_conv)
  then show ?thesis using detect_exfil_exact [of "[sample_conn 0]" 100000 "3 / 4" None] by simp
qed

lemma ftp_exfil_witness: "set (map ev_dst_ip (detect_ftp_exfil [sample_conn 0])) = {''203.0.113.9''}"
proof -
  have "set (map cn_dst_ip [c \<leftarrow> [sample_conn 0]. truthy (cn_ftp_upload_cmd c) \<and> \<not> is_private_ip (cn_dst_ip c)])
      = {''203.0.113.9''}" by code_simp
  then show ?thesis using detect_ftp_exfil_first [of "[sample_conn 0]"] by (simp only: Let_def)
qed

end
