(* ===== verification/NetEvent.thy ===== *)
theory NetEvent
  imports Traffic
begin

text \<open>
  The network event: the dictionary that \<open>orchestrator.build_network_events\<close> creates for every
  finding. The keys every constructor of the code sets are plain fields; keys that only some set
  are options, \<open>None\<close> standing for an absent key as well as for a stored \<open>None\<close> (every reader
  uses \<open>e.get\<close>). The constructors always set \<open>confidence\<close>, \<open>reputation_hit\<close>, \<open>dst_ip\<close> and
  \<open>dst_port\<close>, so the defaults some readers give for them never apply.
\<close>

record net_event =
  ne_kind :: string
  ne_dst_ip :: string
  ne_dst_port :: int
  ne_timestamp :: string
  ne_confidence :: pyfloat
  ne_reputation_hit :: bool
  ne_geo_country :: "string option"
  ne_asn :: "string option"
  ne_asn_org :: "string option"
  ne_domain :: "string option"
  ne_ja3_hash :: "string option"
  ne_ja4 :: "string option"
  ne_plaintext :: bool
  ne_tier :: "tier option"
  ne_http_uri :: "string option"
  ne_beacon :: "(pyfloat \<times> pyfloat \<times> pyfloat) option"
  ne_beacon_note :: "string option"
  ne_cert_reason :: "string option"
  ne_dns_evidence :: "string option"
  ne_cloud_service :: "string option"
  ne_cloud_direction :: "string option"
  ne_smtp_rcpt :: "string list"
  ne_smtp_subject :: "string option"
  ne_http_reason :: "string option"
  ne_covert_detail :: "string option"
  ne_egress_detail :: "string option"
  ne_reputation_note :: "string option"
  ne_reputation_source :: "string option"
  ne_static_match :: "string option"
  ne_static_note :: "string option"
  ne_allowlist_match :: "string option"
  ne_network_mode :: "string option"

text \<open>A finding before a detector's own keys are stored.\<close>

definition blank_event :: "string \<Rightarrow> string \<Rightarrow> int \<Rightarrow> string \<Rightarrow> pyfloat \<Rightarrow> bool \<Rightarrow> net_event" where
  "blank_event kind ip port stamp conf rep =
     \<lparr>ne_kind = kind, ne_dst_ip = ip, ne_dst_port = port, ne_timestamp = stamp,
      ne_confidence = conf, ne_reputation_hit = rep, ne_geo_country = None, ne_asn = None,
      ne_asn_org = None, ne_domain = None, ne_ja3_hash = None, ne_ja4 = None,
      ne_plaintext = False, ne_tier = None, ne_http_uri = None, ne_beacon = None,
      ne_beacon_note = None, ne_cert_reason = None, ne_dns_evidence = None,
      ne_cloud_service = None, ne_cloud_direction = None, ne_smtp_rcpt = [],
      ne_smtp_subject = None, ne_http_reason = None, ne_covert_detail = None,
      ne_egress_detail = None, ne_reputation_note = None, ne_reputation_source = None,
      ne_static_match = None, ne_static_note = None, ne_allowlist_match = None,
      ne_network_mode = None\<rparr>"

lemma blank_event_simps [simp]:
  "ne_kind (blank_event k ip p st c rep) = k"
  "ne_dst_ip (blank_event k ip p st c rep) = ip"
  "ne_dst_port (blank_event k ip p st c rep) = p"
  "ne_timestamp (blank_event k ip p st c rep) = st"
  "ne_confidence (blank_event k ip p st c rep) = c"
  "ne_reputation_hit (blank_event k ip p st c rep) = rep"
  "ne_domain (blank_event k ip p st c rep) = None"
  "ne_tier (blank_event k ip p st c rep) = None"
  "ne_static_match (blank_event k ip p st c rep) = None"
  by (simp_all add: blank_event_def)

text \<open>What later stages may rely on: a confidence in [0,1] and a time stamp with an offset.\<close>

definition stamped :: "net_event \<Rightarrow> bool" where
  "stamped e \<longleftrightarrow> (case parse_iso (ne_timestamp e) of None \<Rightarrow> False | Some t \<Rightarrow> aware t)"

lemma stamped_iff: "stamped e \<longleftrightarrow> (\<exists>t. parse_iso (ne_timestamp e) = Some t \<and> aware t)"
  by (auto simp: stamped_def split: option.splits)

definition event_ok :: "net_event \<Rightarrow> bool" where
  "event_ok e \<longleftrightarrow> unit_interval (ne_confidence e) \<and> stamped e"

end
