(* ===== verification/Correlation.thy ===== *)
theory Correlation
  imports Etw NetEvent
begin

text \<open>
  Host-to-network correlation (\<open>pipeline/correlation.py\<close>): every pair of a host access and a
  network event that starts within the window after it becomes a scored and tiered finding;
  best-match mode keeps the strongest one per access.
\<close>

section \<open>Correlated events\<close>

record corr_event =
  ce_data_type :: "string option"
  ce_api_call :: "string option"
  ce_access_ts :: string
  ce_dst_ip :: string
  ce_dst_port :: int
  ce_network_ts :: string
  ce_delta :: pyfloat
  ce_network_confidence :: pyfloat
  ce_reputation_hit :: bool
  ce_confidence :: pyfloat
  ce_tier :: tier
  ce_mitre :: "string option"

text \<open>
  An access is a raw dictionary, whose keys may be missing, or a validated ETW event
  (\<open>_field\<close>, \<open>_ts_string\<close>).
\<close>

datatype access =
    RawAccess (ra_timestamp: "string option") (ra_data_type: "string option")
      (ra_api_call: "string option") (ra_mitre: "string option")
  | EtwAccess etw_event

fun acc_data_type :: "access \<Rightarrow> string option" where
  "acc_data_type (RawAccess ts dt api m) = dt"
| "acc_data_type (EtwAccess e) = Some (ev_data_type e)"

fun acc_api_call :: "access \<Rightarrow> string option" where
  "acc_api_call (RawAccess ts dt api m) = api"
| "acc_api_call (EtwAccess e) = Some (ev_api_call e)"

fun acc_mitre :: "access \<Rightarrow> string option" where
  "acc_mitre (RawAccess ts dt api m) = m"
| "acc_mitre (EtwAccess e) = ev_mitre e"

definition parse_or_raise :: "string \<Rightarrow> datetime res" where
  "parse_or_raise s =
     (case parse_iso s of
        Some t \<Rightarrow> Inr t
      | None \<Rightarrow> Inl (ValueError (''Invalid isoformat string: '' @ s)))"

text \<open>\<open>_parse(_field(acc, "timestamp"))\<close>: a missing stamp has no \<open>replace\<close> method.\<close>

fun acc_time :: "access \<Rightarrow> datetime res" where
  "acc_time (RawAccess None dt api m) = Inl (AttributeError ''replace'')"
| "acc_time (RawAccess (Some s) dt api m) = parse_or_raise s"
| "acc_time (EtwAccess e) = Inr (ev_timestamp e)"

fun ts_string :: "access \<Rightarrow> string res" where
  "ts_string (RawAccess None dt api m) = Inl (KeyError ''timestamp'')"
| "ts_string (RawAccess (Some s) dt api m) = Inr s"
| "ts_string (EtwAccess e) =
     Inr (if ev_raw_timestamp e \<noteq> [] then ev_raw_timestamp e else isoformat (ev_timestamp e))"

section \<open>Scoring\<close>

definition corr_tier :: "pyfloat \<Rightarrow> bool \<Rightarrow> bool \<Rightarrow> tier" where
  "corr_tier corr rep has_timing =
     (if rep \<and> rnd (6 / 10) \<le> corr then Confirmed
      else if has_timing \<and> rnd (6 / 10) \<le> corr then Strong
      else if has_timing \<and> 0 < corr then Weak
      else Unconfirmed)"

definition corr_score :: "int \<Rightarrow> pyfloat \<Rightarrow> pyfloat \<Rightarrow> bool \<Rightarrow> pyfloat" where
  "corr_score window d net_conf rep =
     (let proximity = fsub 1 (fmul (fdiv d (of_int window)) (1 / 2));
          corr = fadd (fadd (fmul proximity (1 / 2)) (fmul net_conf (rnd (3 / 10))))
                      (if rep then rnd (2 / 10) else 0)
      in pyround 2 (min corr 1))"

definition corr_of :: "int \<Rightarrow> access \<Rightarrow> string \<Rightarrow> net_event \<Rightarrow> pyfloat \<Rightarrow> corr_event" where
  "corr_of window acc raw n d =
     (let corr = corr_score window d (ne_confidence n) (ne_reputation_hit n) in
      \<lparr>ce_data_type = acc_data_type acc, ce_api_call = acc_api_call acc, ce_access_ts = raw,
       ce_dst_ip = ne_dst_ip n, ce_dst_port = ne_dst_port n, ce_network_ts = ne_timestamp n,
       ce_delta = pyround 2 d, ce_network_confidence = pyround 2 (ne_confidence n),
       ce_reputation_hit = ne_reputation_hit n, ce_confidence = corr,
       ce_tier = corr_tier corr (ne_reputation_hit n) True, ce_mitre = acc_mitre acc\<rparr>)"

section \<open>The double loop\<close>

text \<open>One pair: nothing outside the window; inside, a zero window divides by zero.\<close>

definition match_pair :: "int \<Rightarrow> access \<Rightarrow> datetime \<Rightarrow> string \<Rightarrow> net_event \<Rightarrow> corr_event list res" where
  "match_pair window acc t raw n =
     bind_res (parse_or_raise (ne_timestamp n)) (\<lambda>nt.
     bind_res (delta t nt) (\<lambda>d.
       if \<not> (0 \<le> d \<and> d \<le> of_int window) then Inr []
       else if window = 0 then Inl ZeroDivisionError
       else Inr [corr_of window acc raw n d]))"

definition match_access :: "int \<Rightarrow> net_event list \<Rightarrow> access \<Rightarrow> corr_event list res" where
  "match_access window nets acc =
     bind_res (acc_time acc) (\<lambda>t.
     bind_res (ts_string acc) (\<lambda>raw.
     bind_res (map_res (match_pair window acc t raw) nets) (\<lambda>rs. Inr (concat rs))))"

text \<open>Best match: per access, the highest score, ties to the smallest time difference.\<close>

definition best_key :: "corr_event \<Rightarrow> string \<times> string option \<times> string option" where
  "best_key r = (ce_access_ts r, ce_data_type r, ce_api_call r)"

definition better :: "corr_event \<Rightarrow> corr_event \<Rightarrow> bool" where
  "better r cur \<longleftrightarrow>
     ce_confidence r > ce_confidence cur
     \<or> ce_confidence r = ce_confidence cur \<and> ce_delta r < ce_delta cur"

definition best_step ::
    "(string \<times> string option \<times> string option, corr_event) dict \<Rightarrow> corr_event
       \<Rightarrow> (string \<times> string option \<times> string option, corr_event) dict" where
  "best_step best r =
     (case map_of best (best_key r) of
        None \<Rightarrow> dict_set (best_key r) r best
      | Some cur \<Rightarrow> if better r cur then dict_set (best_key r) r best else best)"

definition best_of :: "corr_event list \<Rightarrow> corr_event list" where
  "best_of rs = dict_values (foldl best_step [] rs)"

definition correlate :: "access list \<Rightarrow> net_event list \<Rightarrow> int \<Rightarrow> bool \<Rightarrow> corr_event list res" where
  "correlate accs nets window best_match =
     bind_res (map_res (match_access window nets) accs) (\<lambda>rss.
       Inr (if best_match then best_of (concat rss) else concat rss))"

definition time_window_seconds :: int where "time_window_seconds = 15"

section \<open>Lemmas on scores\<close>

lemma rnd_half: "rnd (1 / 2) = 1 / 2" and rnd_quarter: "rnd (1 / 4) = 1 / 4"
  using rnd_pow [of "- 1"] rnd_pow [of "- 2"] by (simp_all add: power_int_minus power_int_numeral)

lemma proximity_bounds:
  assumes "0 \<le> d" "d \<le> of_int w" "0 < w"
  shows "1 / 2 \<le> fsub 1 (fmul (fdiv d (of_int w)) (1 / 2))"
    and "fsub 1 (fmul (fdiv d (of_int w)) (1 / 2)) \<le> 1"
proof -
  have "unit_interval (d / of_int w)" using assms by (simp add: unit_interval_def divide_le_eq_1)
  then have q: "unit_interval (fdiv d (of_int w))" by (simp add: fdiv_def rnd_unit)
  then have "0 \<le> fmul (fdiv d (of_int w)) (1 / 2)"
    by (simp add: fmul_def unit_interval_def rnd_nonneg)
  then show "fsub 1 (fmul (fdiv d (of_int w)) (1 / 2)) \<le> 1" by (simp add: fsub_def rnd_le_1)
  have "fmul (fdiv d (of_int w)) (1 / 2) \<le> rnd (1 / 2)"
    using q unfolding fmul_def unit_interval_def by (intro rnd_mono) simp
  then have "1 / 2 \<le> 1 - fmul (fdiv d (of_int w)) (1 / 2)" by (simp add: rnd_half)
  then show "1 / 2 \<le> fsub 1 (fmul (fdiv d (of_int w)) (1 / 2))"
    unfolding fsub_def using rnd_mono [of "1 / 2"] by (simp add: rnd_half)
qed

text \<open>A pair in the window scores at least a quarter, and never above one.\<close>

lemma corr_score_bounds:
  assumes "0 \<le> d" "d \<le> of_int w" "0 < w" "0 \<le> c"
  shows "1 / 4 \<le> corr_score w d c rep" and "corr_score w d c rep \<le> 1"
proof -
  let ?p = "fsub 1 (fmul (fdiv d (of_int w)) (1 / 2))"
  have "1 / 4 \<le> ?p * (1 / 2)" using proximity_bounds(1) [OF assms(1-3)] by simp
  then have a: "1 / 4 \<le> fmul ?p (1 / 2)"
    unfolding fmul_def using rnd_mono [of "1 / 4"] by (simp add: rnd_quarter)
  have b: "0 \<le> fmul c (rnd (3 / 10))" using assms(4) by (simp add: fmul_def rnd_nonneg)
  have "1 / 4 \<le> fadd (fmul ?p (1 / 2)) (fmul c (rnd (3 / 10)))"
    unfolding fadd_def using a b rnd_mono [of "1 / 4"] by (simp add: rnd_quarter)
  then have "1 / 4 \<le> fadd (fadd (fmul ?p (1 / 2)) (fmul c (rnd (3 / 10)))) (if rep then rnd (2 / 10) else 0)"
    unfolding fadd_def [of "fadd _ _"] using rnd_mono [of "1 / 4"] rnd_nonneg [of "2 / 10"]
    by (simp add: rnd_quarter add_increasing2)
  then have "pyround 2 (1 / 4) \<le> corr_score w d c rep"
    unfolding corr_score_def Let_def by (intro pyround_mono) simp
  moreover have "pyround 2 (1 / 4 :: rat) = 1 / 4" by (simp add: pyround_def rnd_quarter)
  ultimately show "1 / 4 \<le> corr_score w d c rep" by simp
  show "corr_score w d c rep \<le> 1" by (simp add: corr_score_def Let_def pyround_le_1)
qed

lemma corr_of_simps:
  "ce_reputation_hit (corr_of w a raw n d) = ne_reputation_hit n"
  "ce_confidence (corr_of w a raw n d) = corr_score w d (ne_confidence n) (ne_reputation_hit n)"
  "ce_tier (corr_of w a raw n d) = corr_tier (ce_confidence (corr_of w a raw n d)) (ne_reputation_hit n) True"
  by (simp_all add: corr_of_def Let_def)

lemma corr_tier_cases:
  assumes "1 / 4 \<le> c"
  shows "corr_tier c rep True \<in> {Weak, Strong, Confirmed}
     \<and> (corr_tier c rep True = Confirmed \<longleftrightarrow> rep \<and> rnd (6 / 10) \<le> c)
     \<and> (corr_tier c rep True = Strong \<longleftrightarrow> \<not> rep \<and> rnd (6 / 10) \<le> c)"
proof -
  have "0 < c" using assms by simp
  then show ?thesis by (simp add: corr_tier_def)
qed

section \<open>The window in microseconds\<close>

lemma total_seconds_le_iff:
  assumes "0 \<le> w" "w < 2 ^ 32"
  shows "total_seconds us \<le> of_int w \<longleftrightarrow> us \<le> w * 10 ^ 6"
proof
  assume le: "total_seconds us \<le> of_int w"
  show "us \<le> w * 10 ^ 6"
  proof (rule ccontr)
    assume "\<not> us \<le> w * 10 ^ 6"
    then have "w * 10 ^ 6 + 1 \<le> us" by simp
    from total_seconds_mono [OF this] le have small: "total_seconds (w * 10 ^ 6 + 1) \<le> of_int w" by simp
    define x :: rat where "x = of_int (w * 10 ^ 6 + 1) / of_int (10 ^ 6)"
    have x: "x = of_int w + 1 / 10 ^ 6" by (simp add: x_def field_simps)
    have "(of_int w :: rat) \<le> of_int (2 ^ 32 - 1)" using assms(2) by (subst of_int_le_iff) simp
    then have pos: "0 < x" and lt: "x < 2 powi 33" using assms(1) by (simp_all add: x add_nonneg_pos)
    have "(2::rat) powi expo x < 2 powi 33" using expo_bounds [OF pos] lt by simp
    then have "expo x \<le> 32" using powi_less_cancel by fastforce
    then have "ulp x \<le> 2 powi (- 20)"
      using pos unfolding ulp_def by (intro powi_mono) simp
    also have "\<dots> < 2 / 10 ^ 6" by (simp add: power_int_minus)
    finally have "of_int w < rnd x" using rnd_error [of x] unfolding x by linarith
    then show False using small by (simp add: total_seconds_def idiv_def x_def)
  qed
next
  assume "us \<le> w * 10 ^ 6"
  from total_seconds_mono [OF this] have "total_seconds us \<le> total_seconds (w * 10 ^ 6)" .
  also have "\<dots> = of_int w" using assms by (intro total_seconds_of_seconds) simp
  finally show "total_seconds us \<le> of_int w" .
qed

lemma in_window_us:
  "0 < w \<Longrightarrow> w < 2 ^ 32 \<Longrightarrow>
     0 \<le> total_seconds us \<and> total_seconds us \<le> of_int w \<longleftrightarrow> 0 \<le> us \<and> us \<le> w * 10 ^ 6"
  by (simp add: total_seconds_le_iff total_seconds_nonneg_iff)

section \<open>What a pair gives\<close>

text \<open>
  The reference definition of a match, on exact microseconds: the network event starts at least
  0 and at most \<open>window\<close> seconds after the access.
\<close>

definition time_of :: "access \<Rightarrow> int option" where
  "time_of a = (case acc_time a of Inr t \<Rightarrow> Some (instant t) | Inl _ \<Rightarrow> None)"

definition net_time :: "net_event \<Rightarrow> int" where
  "net_time n = (case parse_iso (ne_timestamp n) of Some t \<Rightarrow> instant t | None \<Rightarrow> 0)"

definition raw_stamp :: "access \<Rightarrow> string" where
  "raw_stamp a = (case ts_string a of Inr s \<Rightarrow> s | Inl _ \<Rightarrow> [])"

definition follows :: "int \<Rightarrow> access \<Rightarrow> net_event \<Rightarrow> bool" where
  "follows window a n \<longleftrightarrow>
     (let us = net_time n - the (time_of a) in 0 \<le> us \<and> us \<le> window * 10 ^ 6)"

definition finding_of :: "int \<Rightarrow> access \<Rightarrow> net_event \<Rightarrow> corr_event" where
  "finding_of window a n =
     corr_of window a (raw_stamp a) n (total_seconds (net_time n - the (time_of a)))"

lemma match_pair_Inr:
  assumes "match_pair w a t raw n = Inr rs" "0 < w" "w < 2 ^ 32"
    and a: "acc_time a = Inr t" "ts_string a = Inr raw"
  shows "rs = (if follows w a n then [finding_of w a n] else [])"
proof -
  from assms(1) obtain nt d where nt: "parse_or_raise (ne_timestamp n) = Inr nt" and d: "delta t nt = Inr d"
    and rs: "rs = (if 0 \<le> d \<and> d \<le> of_int w then [corr_of w a raw n d] else [])"
    using assms(2) by (auto simp: match_pair_def bind_res_Inr_iff split: if_splits)
  from nt have "net_time n = instant nt"
    by (auto simp: parse_or_raise_def net_time_def split: option.splits)
  moreover from d have "d = total_seconds (instant nt - instant t)"
    by (auto simp: delta_def dt_sub_def bind_res_Inr_iff split: if_splits)
  moreover have "the (time_of a) = instant t" "raw_stamp a = raw"
    using a by (simp_all add: time_of_def raw_stamp_def)
  ultimately show ?thesis
    using in_window_us [OF assms(2,3)] by (auto simp: rs follows_def finding_of_def Let_def)
qed

lemma list_all2_eq_map: "list_all2 (\<lambda>x y. y = f x) xs ys \<longleftrightarrow> ys = map f xs"
  by (induction xs arbitrary: ys) (auto simp: list_all2_Cons1)

lemma concat_if_filter:
  "concat (map (\<lambda>n. if P n then [f n] else []) ns) = map f (filter P ns)"
  by (induction ns) auto

lemma match_access_Inr:
  assumes "match_access w nets a = Inr rs" "0 < w" "w < 2 ^ 32"
  shows "rs = map (finding_of w a) (filter (follows w a) nets)"
proof -
  from assms(1) obtain t raw rss where a: "acc_time a = Inr t" "ts_string a = Inr raw"
    and rss: "map_res (match_pair w a t raw) nets = Inr rss" and rs: "rs = concat rss"
    by (auto simp: match_access_def bind_res_Inr_iff)
  from rss have "list_all2 (\<lambda>n y. y = (if follows w a n then [finding_of w a n] else [])) nets rss"
    unfolding map_res_Inr_all2
    by (rule list_all2_mono) (rule match_pair_Inr [OF _ assms(2,3) a])
  then show ?thesis by (simp add: rs list_all2_eq_map concat_if_filter)
qed

text \<open>The result of the plain mode in closed form.\<close>

definition all_matches :: "int \<Rightarrow> access list \<Rightarrow> net_event list \<Rightarrow> corr_event list" where
  "all_matches window accs nets =
     concat (map (\<lambda>a. map (finding_of window a) (filter (follows window a) nets)) accs)"

lemma correlate_Inr:
  assumes "correlate accs nets w best = Inr rs" "0 < w" "w < 2 ^ 32"
  shows "rs = (if best then best_of (all_matches w accs nets) else all_matches w accs nets)"
proof -
  from assms(1) obtain rss where rss: "map_res (match_access w nets) accs = Inr rss"
    and rs: "rs = (if best then best_of (concat rss) else concat rss)"
    by (auto simp: correlate_def bind_res_Inr_iff)
  from rss have "list_all2 (\<lambda>a y. y = map (finding_of w a) (filter (follows w a) nets)) accs rss"
    unfolding map_res_Inr_all2 by (rule list_all2_mono) (rule match_access_Inr [OF _ assms(2,3)])
  then show ?thesis by (simp add: rs list_all2_eq_map all_matches_def)
qed

text \<open>
  Sufficient condition for a result: every time can be read and all are aware, as ingestion and
  the orchestrator give them.
\<close>

definition readable :: "access \<Rightarrow> bool" where
  "readable a \<longleftrightarrow>
     (case acc_time a of Inl _ \<Rightarrow> False
      | Inr t \<Rightarrow> aware t \<and> (case ts_string a of Inl _ \<Rightarrow> False | Inr _ \<Rightarrow> True))"

lemma readable_iff: "readable a \<longleftrightarrow> (\<exists>t s. acc_time a = Inr t \<and> aware t \<and> ts_string a = Inr s)"
  by (auto simp: readable_def split: sum.splits)

lemma valid_event_readable: "valid_event e \<Longrightarrow> readable (EtwAccess e)"
  by (simp add: readable_iff aware_ev_timestamp)

lemma map_res_total: "\<forall>x \<in> set xs. \<exists>y. f x = Inr y \<Longrightarrow> \<exists>ys. map_res f xs = Inr ys"
  by (induction xs) (auto simp: bind_res_Inr_iff)

lemma if_Inr_total: "\<not> z \<Longrightarrow> \<exists>y. (if b then Inr x else if z then Inl e else Inr c) = Inr y"
  by simp

lemma correlate_total:
  assumes "\<forall>a \<in> set accs. readable a" "\<forall>n \<in> set nets. stamped n" "0 < w"
  shows "\<exists>rs. correlate accs nets w best = Inr rs"
proof -
  have "\<exists>rs. match_access w nets a = Inr rs" if a: "a \<in> set accs" for a
  proof -
    from a assms(1) obtain t s where t: "acc_time a = Inr t" "aware t" "ts_string a = Inr s"
      by (auto simp: readable_iff)
    have "\<exists>y. match_pair w a t s n = Inr y" if n: "n \<in> set nets" for n
    proof -
      from n assms(2) obtain nt where "parse_iso (ne_timestamp n) = Some nt" "aware nt"
        by (auto simp: stamped_iff)
      then have "match_pair w a t s n =
          (let d = total_seconds (instant nt - instant t) in
           if \<not> (0 \<le> d \<and> d \<le> of_int w) then Inr []
           else if w = 0 then Inl ZeroDivisionError else Inr [corr_of w a s n d])"
        using t(2) by (simp only: match_pair_def parse_or_raise_def delta_def dt_sub_aware
            bind_res_simps option.case Let_def)
      moreover have "w \<noteq> 0" using assms(3) by simp
      ultimately show ?thesis unfolding Let_def by (simp only:) (rule if_Inr_total, simp)
    qed
    then have "\<exists>rss. map_res (match_pair w a t s) nets = Inr rss"
      by (intro map_res_total ballI)
    then obtain rss where "map_res (match_pair w a t s) nets = Inr rss" ..
    then have "match_access w nets a = Inr (concat rss)"
      by (simp only: match_access_def t bind_res_simps)
    then show ?thesis by blast
  qed
  then have "\<exists>rss. map_res (match_access w nets) accs = Inr rss" by (intro map_res_total) blast
  then show ?thesis by (auto simp: correlate_def)
qed

section \<open>Best match\<close>

text \<open>
  The invariant of the best-match loop: one entry per access key seen, stored under its own key,
  taken from the matches, and not beaten by any match with the same key.
\<close>

definition best_inv :: "corr_event list \<Rightarrow> (string \<times> string option \<times> string option, corr_event) dict \<Rightarrow> bool" where
  "best_inv rs best \<longleftrightarrow>
     distinct (dict_keys best) \<and> set (dict_keys best) = best_key ` set rs
     \<and> (\<forall>(k, b) \<in> set best. best_key b = k \<and> b \<in> set rs
          \<and> (\<forall>r \<in> set rs. best_key r = k \<longrightarrow> \<not> better r b))"

lemma better_trans: "better a b \<Longrightarrow> \<not> better c b \<Longrightarrow> \<not> better c a"
  by (auto simp: better_def)

lemma better_irrefl [simp]: "\<not> better a a"
  by (simp add: better_def)

lemma best_inv_entry:
  "best_inv rs best \<Longrightarrow> map_of best k = Some b \<Longrightarrow>
     best_key b = k \<and> b \<in> set rs \<and> (\<forall>r \<in> set rs. best_key r = k \<longrightarrow> \<not> better r b)"
  unfolding best_inv_def by (blast dest: map_of_SomeD)

lemma best_inv_store:
  assumes inv: "best_inv rs best" and fresh: "\<forall>c \<in> set rs. best_key c = best_key r \<longrightarrow> \<not> better c r"
  shows "best_inv (rs @ [r]) (dict_set (best_key r) r best)"
proof -
  have d: "distinct (dict_keys best)" using inv by (simp add: best_inv_def)
  have keys: "set (dict_keys (dict_set (best_key r) r best)) = best_key ` set (rs @ [r])"
    using inv by (auto simp: dict_keys_set best_inv_def)
  have "best_key b = k \<and> b \<in> set (rs @ [r]) \<and> (\<forall>c \<in> set (rs @ [r]). best_key c = k \<longrightarrow> \<not> better c b)"
    if "(k, b) \<in> set (dict_set (best_key r) r best)" for k b
  proof (cases "k = best_key r")
    case True
    then have "b = r" using that set_dict_set [OF d] by auto
    then show ?thesis using True fresh by auto
  next
    case False
    then have "(k, b) \<in> set best" using that set_dict_set [OF d] by auto
    then show ?thesis using inv False by (auto simp: best_inv_def)
  qed
  then show ?thesis using d keys unfolding best_inv_def by (auto intro: distinct_dict_set)
qed

lemma best_inv_step: "best_inv rs best \<Longrightarrow> best_inv (rs @ [r]) (best_step best r)"
proof -
  assume inv: "best_inv rs best"
  show ?thesis
  proof (cases "map_of best (best_key r)")
    case None
    then have "best_key r \<notin> set (dict_keys best)" by (simp add: map_of_eq_None_iff)
    then have "best_key r \<notin> best_key ` set rs" using inv unfolding best_inv_def by simp
    then have "\<forall>c \<in> set rs. best_key c \<noteq> best_key r" by (metis imageI)
    then show ?thesis using None inv by (simp add: best_step_def best_inv_store)
  next
    case (Some cur)
    note cur = best_inv_entry [OF inv Some]
    show ?thesis
    proof (cases "better r cur")
      case True
      then have "\<forall>c \<in> set rs. best_key c = best_key r \<longrightarrow> \<not> better c r"
        using cur better_trans [OF True] by blast
      then show ?thesis using Some True inv by (simp add: best_step_def best_inv_store)
    next
      case False
      have "best_key r \<in> best_key ` set rs" using cur by (metis imageI)
      then have keys: "set (dict_keys best) = best_key ` set (rs @ [r])"
        using inv by (auto simp: best_inv_def)
      have "b = cur" if "(best_key r, b) \<in> set best" for b
        using that inv Some by (simp add: best_inv_def)
      then have "\<not> better r b" if "(k, b) \<in> set best" "best_key r = k" for k b
        using that False by blast
      then show ?thesis
        using Some False inv keys unfolding best_inv_def by (simp add: best_step_def) blast
    qed
  qed
qed

lemma best_inv_foldl: "best_inv done best \<Longrightarrow> best_inv (done @ rs) (foldl best_step best rs)"
proof (induction rs arbitrary: "done" best)
  case (Cons r rs)
  from Cons.IH [OF best_inv_step [OF Cons.prems, of r]] show ?case by simp
qed simp

lemma best_inv_best_of: "\<exists>best. best_inv rs best \<and> best_of rs = dict_values best"
  using best_inv_foldl [of "[]" "[]" rs] by (auto simp: best_inv_def best_of_def)

lemma best_of_spec:
  "distinct (map best_key (best_of rs))
   \<and> best_key ` set (best_of rs) = best_key ` set rs
   \<and> (\<forall>b \<in> set (best_of rs). b \<in> set rs \<and> (\<forall>r \<in> set rs. best_key r = best_key b \<longrightarrow> \<not> better r b))"
proof -
  obtain best where inv: "best_inv rs best" and b: "best_of rs = dict_values best"
    using best_inv_best_of by blast
  have "map best_key (dict_values best) = dict_keys best"
    using inv by (auto simp: best_inv_def)
  then have k: "map best_key (best_of rs) = dict_keys best" by (simp add: b)
  have "best_key ` set (best_of rs) = set (dict_keys best)" unfolding k [symmetric] by simp
  moreover have "distinct (map best_key (best_of rs))" unfolding k using inv by (simp add: best_inv_def)
  moreover have "\<forall>b \<in> set (best_of rs). b \<in> set rs \<and> (\<forall>r \<in> set rs. best_key r = best_key b \<longrightarrow> \<not> better r b)"
    using inv by (auto simp: best_inv_def b)
  ultimately show ?thesis using inv by (simp add: best_inv_def)
qed

section \<open>The clock-sync assessment agrees with correlation\<close>

lemma sync_fold_snd:
  "snd (foldl (sync_step w) st ds) \<longleftrightarrow> snd st \<or> (\<exists>d \<in> set ds. 0 \<le> d \<and> d \<le> of_int w)"
  by (induction ds arbitrary: st) (auto simp: sync_step_def split: prod.splits)

lemma sync_note_skew: "fst (sync_note w m c) \<Longrightarrow> \<not> c"
  unfolding sync_note_def by (cases c) (simp only: if_True fst_conv, simp)

lemma assess_clock_sync_Inr:
  assumes "assess_clock_sync events stamps w = Inr s"
    and "\<not> (events = [] \<or> List.map_filter parse_iso stamps = [])" and "stamps \<noteq> []"
  shows "\<exists>ds. pair_deltas (map ev_timestamp events) (List.map_filter parse_iso stamps) = Inr ds
     \<and> cs_correlatable s = snd (foldl (sync_step w) (None, False) ds)
     \<and> (cs_likely_skew s \<longrightarrow> \<not> cs_correlatable s)"
proof -
  from assms obtain ds where ds: "pair_deltas (map ev_timestamp events) (List.map_filter parse_iso stamps) = Inr ds"
    and s: "cs_correlatable s = snd (foldl (sync_step w) (None, False) ds)"
      "cs_likely_skew s = fst (sync_note w (fst (foldl (sync_step w) (None, False) ds))
          (snd (foldl (sync_step w) (None, False) ds)))"
    by (auto simp: assess_clock_sync_def Let_def bind_res_Inr_iff case_prod_beta)
  have "cs_likely_skew s \<longrightarrow> \<not> cs_correlatable s" unfolding s using sync_note_skew by blast
  with ds s(1) show ?thesis by blast
qed

text \<open>The deltas of the readable pairs, as correlation sees them.\<close>

definition forward_seconds :: "access \<Rightarrow> net_event \<Rightarrow> pyfloat" where
  "forward_seconds a n = total_seconds (net_time n - the (time_of a))"

lemma follows_iff:
  "0 < w \<Longrightarrow> w < 2 ^ 32 \<Longrightarrow>
     follows w a n \<longleftrightarrow> 0 \<le> forward_seconds a n \<and> forward_seconds a n \<le> of_int w"
  unfolding follows_def forward_seconds_def Let_def by (rule in_window_us [symmetric])

lemma pair_deltas_Inr:
  assumes "pair_deltas (map ev_timestamp events) (List.map_filter parse_iso (map ne_timestamp nets)) = Inr ds"
    and "\<forall>n \<in> set nets. parse_iso (ne_timestamp n) \<noteq> None"
  shows "set ds = {forward_seconds (EtwAccess e) n | e n. e \<in> set events \<and> n \<in> set nets}"
proof -
  have mf: "List.map_filter parse_iso (map ne_timestamp nets) = map (\<lambda>n. the (parse_iso (ne_timestamp n))) nets"
    using assms(2) by (induction nets) (auto simp: List.map_filter_simps)
  have pt: "\<exists>e \<in> set events. \<exists>n \<in> set nets. fst p = ev_timestamp e \<and> snd p = the (parse_iso (ne_timestamp n))"
    if "p \<in> set (List.product (map ev_timestamp events) (map (\<lambda>n. the (parse_iso (ne_timestamp n))) nets))" for p
    using that by auto
  have d: "y = total_seconds (instant (snd p) - instant (fst p))"
    if "(case p of (a, n) \<Rightarrow> delta a n) = Inr y" for p y
    using that by (auto simp: delta_def dt_sub_def bind_res_Inr_iff split: if_splits prod.splits)
  have nt: "net_time n = instant (the (parse_iso (ne_timestamp n)))" if "n \<in> set nets" for n
    using that assms(2) by (auto simp: net_time_def split: option.splits)
  have "ds = map (\<lambda>p. total_seconds (instant (snd p) - instant (fst p)))
      (List.product (map ev_timestamp events) (map (\<lambda>n. the (parse_iso (ne_timestamp n))) nets))"
    using assms(1) unfolding pair_deltas_def map_res_Inr_all2 mf
    by (subst list_all2_eq_map [symmetric]) (erule list_all2_mono, erule d)
  then have "set ds = (\<Union>e \<in> set events. \<Union>n \<in> set nets.
      {total_seconds (instant (the (parse_iso (ne_timestamp n))) - instant (ev_timestamp e))})"
    by (simp add: image_def) blast
  also have "\<dots> = (\<Union>e \<in> set events. \<Union>n \<in> set nets. {forward_seconds (EtwAccess e) n})"
    using nt by (simp add: forward_seconds_def time_of_def)
  finally show ?thesis by blast
qed

lemma correlate_Inr_parses:
  assumes "correlate accs nets w best = Inr rs" "accs \<noteq> []"
  shows "\<forall>n \<in> set nets. parse_iso (ne_timestamp n) \<noteq> None"
proof -
  from assms obtain a rs' where "match_access w nets a = Inr rs'"
    by (cases accs) (auto simp: correlate_def bind_res_Inr_iff)
  then obtain t raw rss where "map_res (match_pair w a t raw) nets = Inr rss"
    by (auto simp: match_access_def bind_res_Inr_iff)
  then have "list_all2 (\<lambda>n y. parse_iso (ne_timestamp n) \<noteq> None) nets rss"
    unfolding map_res_Inr_all2
    by (rule list_all2_mono) (auto simp: match_pair_def bind_res_Inr_iff parse_or_raise_def split: option.splits)
  then show ?thesis by (auto simp: list_all2_conv_all_nth in_set_conv_nth)
qed

section \<open>Properties\<close>

text \<open>
  C2. Correlation is sound and complete: when all times can be read and carry an offset it
  returns, and the findings are exactly the pairs of an access and a network event that starts
  between 0 and the window after it, counted in microseconds although the code compares floats.
\<close>

theorem correlate_exact:
  assumes "\<forall>a \<in> set accs. readable a" "\<forall>n \<in> set nets. stamped n" "0 < w" "w < 2 ^ 32"
  shows "correlate accs nets w False
     = Inr (concat (map (\<lambda>a. map (finding_of w a) (filter (follows w a) nets)) accs))"
proof -
  obtain rs where "correlate accs nets w False = Inr rs"
    using correlate_total [OF assms(1-3)] by blast
  with correlate_Inr [OF this assms(3,4)] show ?thesis by (simp add: all_matches_def)
qed

text \<open>
  C8. Every finding is at least weak: its score lies in [1/4, 1], so the tier "unconfirmed" of
  the scale is never given; it is confirmed exactly when the destination is known bad and the
  score reaches 0.6, and strong exactly when it is not known bad and the score reaches 0.6.
\<close>

theorem correlate_tiers:
  assumes "correlate accs nets w best = Inr rs" "0 < w" "w < 2 ^ 32"
    and "\<forall>n \<in> set nets. unit_interval (ne_confidence n)" and "r \<in> set rs"
  shows "1 / 4 \<le> ce_confidence r \<and> ce_confidence r \<le> 1
     \<and> ce_tier r \<in> {Weak, Strong, Confirmed}
     \<and> (ce_tier r = Confirmed \<longleftrightarrow> ce_reputation_hit r \<and> rnd (6 / 10) \<le> ce_confidence r)
     \<and> (ce_tier r = Strong \<longleftrightarrow> \<not> ce_reputation_hit r \<and> rnd (6 / 10) \<le> ce_confidence r)"
proof -
  have "r \<in> set (all_matches w accs nets)"
    using correlate_Inr [OF assms(1-3)] assms(5) best_of_spec by (auto split: if_splits)
  then obtain a n where n: "n \<in> set nets" "follows w a n" and r: "r = finding_of w a n"
    by (auto simp: all_matches_def)
  have d: "0 \<le> forward_seconds a n" "forward_seconds a n \<le> of_int w"
    using n(2) by (simp_all add: follows_iff [OF assms(2,3)])
  have c: "0 \<le> ne_confidence n" using n(1) assms(4) by (simp add: unit_interval_def)
  have conf: "ce_confidence r = corr_score w (forward_seconds a n) (ne_confidence n) (ne_reputation_hit n)"
    and tier: "ce_tier r = corr_tier (ce_confidence r) (ce_reputation_hit r) True"
    by (simp_all add: r finding_of_def corr_of_simps forward_seconds_def)
  have b: "1 / 4 \<le> ce_confidence r" "ce_confidence r \<le> 1"
    unfolding conf by (rule corr_score_bounds [OF d assms(2) c])+
  show ?thesis
    using b corr_tier_cases [OF b(1), of "ce_reputation_hit r", folded tier] by blast
qed

text \<open>
  Best-match mode gives exactly one finding for every access (time stamp, data type and API
  call) that has any, it is one of the plain findings, and no plain finding of the same access
  has a higher score, or the same score and a smaller time difference.
\<close>

theorem correlate_best_match:
  assumes "correlate accs nets w False = Inr rs" "correlate accs nets w True = Inr bs"
  shows "distinct (map best_key bs) \<and> best_key ` set bs = best_key ` set rs \<and> set bs \<subseteq> set rs
     \<and> (\<forall>b \<in> set bs. \<forall>r \<in> set rs. best_key r = best_key b \<longrightarrow>
          ce_confidence r < ce_confidence b
          \<or> ce_confidence r = ce_confidence b \<and> ce_delta b \<le> ce_delta r)"
proof -
  have "bs = best_of rs" using assms by (auto simp: correlate_def bind_res_Inr_iff)
  moreover have "ce_confidence r < ce_confidence b \<or> ce_confidence r = ce_confidence b \<and> ce_delta b \<le> ce_delta r"
    if "\<not> better r b" for r b
    using that by (auto simp: better_def)
  ultimately show ?thesis using best_of_spec [of rs] by blast
qed

text \<open>
  The clock-sync check and correlation agree: whenever both return, the clocks are reported
  correlatable if and only if correlation finds something, and skew is only reported when it
  finds nothing.
\<close>

theorem sync_agrees_with_correlation:
  assumes "assess_clock_sync events (map ne_timestamp nets) w = Inr s"
    and "correlate (map EtwAccess events) nets w False = Inr rs" and "0 < w" "w < 2 ^ 32"
  shows "(cs_correlatable s \<longleftrightarrow> rs \<noteq> []) \<and> (cs_likely_skew s \<longrightarrow> rs = [])"
proof -
  have rs: "rs = all_matches w (map EtwAccess events) nets"
    using correlate_Inr [OF assms(2-4)] by simp
  have found: "rs \<noteq> [] \<longleftrightarrow> (\<exists>e \<in> set events. \<exists>n \<in> set nets.
      0 \<le> forward_seconds (EtwAccess e) n \<and> forward_seconds (EtwAccess e) n \<le> of_int w)"
    by (auto simp: rs all_matches_def filter_empty_conv follows_iff [OF assms(3,4)])
  show ?thesis
  proof (cases "events = [] \<or> List.map_filter parse_iso (map ne_timestamp nets) = []")
    case True
    have "rs = []"
    proof (cases "events = []")
      case False
      with assms(2) have "\<forall>n \<in> set nets. parse_iso (ne_timestamp n) \<noteq> None"
        by (intro correlate_Inr_parses) auto
      then have "nets = []" using True False
        by (cases nets) (auto simp: List.map_filter_simps split: option.splits)
      then show ?thesis using found by simp
    qed (use found in simp)
    moreover have "s = no_sync (cs_note s)"
      using assms(1) True by (auto simp: assess_clock_sync_def no_sync_def split: if_splits)
    then have "\<not> cs_correlatable s \<and> \<not> cs_likely_skew s" by (metis clock_sync.select_convs(4,5) no_sync_def)
    ultimately show ?thesis by simp
  next
    case False
    then have "nets \<noteq> []" by (auto simp: List.map_filter_simps)
    with False obtain ds where ds: "pair_deltas (map ev_timestamp events)
        (List.map_filter parse_iso (map ne_timestamp nets)) = Inr ds"
      and c: "cs_correlatable s = snd (foldl (sync_step w) (None, False) ds)"
      and sk: "cs_likely_skew s \<longrightarrow> \<not> cs_correlatable s"
      using assess_clock_sync_Inr [OF assms(1)] by blast
    have "\<forall>n \<in> set nets. parse_iso (ne_timestamp n) \<noteq> None"
      using assms(2) False by (intro correlate_Inr_parses) auto
    from pair_deltas_Inr [OF ds this] have "cs_correlatable s \<longleftrightarrow> rs \<noteq> []"
      unfolding c found sync_fold_snd by auto
    then show ?thesis using sk by auto
  qed
qed


section \<open>The properties at a concrete access and finding\<close>

definition sample_event :: etw_event where
  "sample_event = \<lparr>ev_timestamp = \<lparr>wall = 1770134400000000, utcoff = Some 0\<rparr>,
     ev_data_type = ''keystrokes'', ev_api_call = ''GetAsyncKeyState'', ev_process = JNull,
     ev_raw_timestamp = ''2026-02-03T16:00:00Z'', ev_mitre = Some ''T1056.001'', ev_capability = None\<rparr>"

definition sample_net :: net_event where
  "sample_net = blank_event ''exfil'' ''203.0.113.9'' 443 ''2026-02-03T16:00:05Z'' (1 / 2) True"

definition sample_finding :: corr_event where
  "sample_finding = \<lparr>ce_data_type = Some ''keystrokes'', ce_api_call = Some ''GetAsyncKeyState'',
     ce_access_ts = ''2026-02-03T16:00:00Z'', ce_dst_ip = ''203.0.113.9'', ce_dst_port = 443,
     ce_network_ts = ''2026-02-03T16:00:05Z'', ce_delta = 5, ce_network_confidence = 1 / 2,
     ce_reputation_hit = True, ce_confidence = 1733885856537641 / 2251799813685248,
     ce_tier = Confirmed, ce_mitre = Some ''T1056.001''\<rparr>"

definition sample_sync :: clock_sync where
  "sample_sync = \<lparr>cs_access_span = Some (''2026-02-03T16:00:00+00:00'', ''2026-02-03T16:00:00+00:00''),
     cs_network_span = Some (''2026-02-03T16:00:05+00:00'', ''2026-02-03T16:00:05+00:00''),
     cs_min_forward_delta = Some 5, cs_correlatable = True, cs_likely_skew = False,
     cs_note = ''clocks appear aligned''\<rparr>"

lemma sample_ok: "readable (EtwAccess sample_event)" "stamped sample_net"
    "unit_interval (ne_confidence sample_net)"
  by code_simp+

lemma sample_match: "match_access 15 [sample_net] (EtwAccess sample_event) = Inr [sample_finding]"
  by code_simp

lemma sample_correlate: "correlate [EtwAccess sample_event] [sample_net] 15 b = Inr [sample_finding]"
  by (simp add: correlate_def sample_match best_of_def best_step_def)

lemma sample_assess: "assess_clock_sync [sample_event] (map ne_timestamp [sample_net]) 15 = Inr sample_sync"
  by code_simp

lemma correlate_exact_witness:
  "(Inr [sample_finding] :: corr_event list res)
     = Inr (concat (map (\<lambda>a. map (finding_of 15 a) (filter (follows 15 a) [sample_net])) [EtwAccess sample_event]))"
  using correlate_exact [of "[EtwAccess sample_event]" "[sample_net]" 15] sample_ok
    sample_correlate [of False] by simp

lemma sample_window: "(0::int) < 15" "(15::int) < 2 ^ 32"
  by simp_all

lemma correlate_tiers_witness:
  "1 / 4 \<le> ce_confidence sample_finding \<and> ce_confidence sample_finding \<le> 1
   \<and> ce_tier sample_finding \<in> {Weak, Strong, Confirmed}"
proof -
  have "\<forall>n \<in> set [sample_net]. unit_interval (ne_confidence n)" "sample_finding \<in> set [sample_finding]"
    using sample_ok(3) by simp_all
  from correlate_tiers [OF sample_correlate [of False] sample_window this] show ?thesis by blast
qed

lemma correlate_best_match_witness:
  "distinct (map best_key [sample_finding]) \<and> best_key ` set [sample_finding] = best_key ` set [sample_finding]"
  using correlate_best_match [OF sample_correlate sample_correlate] by blast

lemma sync_agrees_witness: "cs_correlatable sample_sync \<longleftrightarrow> [sample_finding] \<noteq> []"
proof -
  have "correlate (map EtwAccess [sample_event]) [sample_net] 15 False = Inr [sample_finding]"
    using sample_correlate [of False] by simp
  from sync_agrees_with_correlation [OF sample_assess this sample_window] show ?thesis by blast
qed

end
