(* ===== verification/Gate.thy ===== *)
theory Gate
  imports Prelude
begin

text \<open>
  The contract of an honesty gate: a function on findings that may lower a confidence tier but
  never raises or sets one, leaves protected findings (independent confirmations) alone and
  touches nothing else. The allowlist and the two hand-off gates are its instances.
\<close>

locale tier_gate =
  fixes tier_of :: "'e \<Rightarrow> tier option"
    and protected :: "'e \<Rightarrow> bool"
    and frame :: "'e \<Rightarrow> 'f"
    and gate :: "'e \<Rightarrow> 'e"
  assumes lowers: "(case tier_of e of None \<Rightarrow> tier_of (gate e) = None
                    | Some t \<Rightarrow> \<exists>t'. tier_of (gate e) = Some t' \<and> t' \<le> t)"
    and protects: "protected e \<Longrightarrow> tier_of (gate e) = tier_of e"
    and frames: "frame (gate e) = frame e"
begin

lemma gate_None_iff: "tier_of (gate e) = None \<longleftrightarrow> tier_of e = None"
  using lowers [of e] by (auto split: option.splits)

lemma gate_le: "tier_of (gate e) = Some t' \<Longrightarrow> \<exists>t. tier_of e = Some t \<and> t' \<le> t"
  using lowers [of e] by (auto split: option.splits)

lemma gate_frames: "map frame (map gate es) = map frame es"
  by (simp add: frames o_def)

lemma gate_confirmed: "tier_of (gate e) = Some Confirmed \<Longrightarrow> tier_of e = Some Confirmed"
proof -
  assume "tier_of (gate e) = Some Confirmed"
  from gate_le [OF this] obtain t where t: "tier_of e = Some t" "Confirmed \<le> t" by blast
  then show ?thesis by (cases t) (simp_all add: tier_simps)
qed

lemma gate_pointwise:
  "list_all2 (\<lambda>e e'. frame e' = frame e
      \<and> (tier_of e' = None \<longleftrightarrow> tier_of e = None)
      \<and> (\<forall>t'. tier_of e' = Some t' \<longrightarrow> (\<exists>t. tier_of e = Some t \<and> t' \<le> t))
      \<and> (protected e \<longrightarrow> tier_of e' = tier_of e)) es (map gate es)"
  by (simp add: list_all2_map2 list_all2_same frames gate_None_iff gate_le protects)

lemma gate_never_more_confirmed:
  "length (filter (\<lambda>e. tier_of e = Some Confirmed) (map gate es))
     \<le> length (filter (\<lambda>e. tier_of e = Some Confirmed) es)"
proof (induction es)
  case (Cons e es)
  then show ?case using gate_confirmed [of e] by auto
qed simp

end

text \<open>
  Two gates in sequence are a gate, when being protected is visible in the tier and the frame.
\<close>

locale gate_pair =
  first: tier_gate tier_of protected frame f + second: tier_gate tier_of protected frame g
  for tier_of :: "'e \<Rightarrow> tier option" and protected :: "'e \<Rightarrow> bool" and frame :: "'e \<Rightarrow> 'f"
    and f :: "'e \<Rightarrow> 'e" and g :: "'e \<Rightarrow> 'e" +
  assumes visible: "tier_of a = tier_of b \<Longrightarrow> frame a = frame b \<Longrightarrow> protected a \<longleftrightarrow> protected b"

sublocale gate_pair \<subseteq> both: tier_gate tier_of protected frame "g \<circ> f"
proof
  fix e
  show "(case tier_of e of None \<Rightarrow> tier_of ((g \<circ> f) e) = None
      | Some t \<Rightarrow> \<exists>t'. tier_of ((g \<circ> f) e) = Some t' \<and> t' \<le> t)"
    using first.lowers [of e] second.lowers [of "f e"] by (fastforce split: option.splits)
  show "frame ((g \<circ> f) e) = frame e" by (simp add: first.frames second.frames)
  assume p: "protected e"
  then have "tier_of (f e) = tier_of e" by (rule first.protects)
  moreover from this have "protected (f e)" using p visible first.frames by blast
  ultimately show "tier_of ((g \<circ> f) e) = tier_of e" by (simp add: second.protects)
qed

end
