(* ===== verification/Handoff.thy ===== *)
theory Handoff
  imports Correlation Gate "HOL-Library.List_Lexorder" "HOL-Library.Char_ord"
begin

text \<open>
  Consumption of the hand-off manifest and its honesty gates (\<open>pipeline/handoff.py\<close>). The
  manifest is the JSON value of the file; \<open>schema_ok\<close> stands for the jsonschema check (\<open>None\<close>
  when the library or the schema file is missing). Fields the manifest schema types as strings
  are read as optional strings.
\<close>

section \<open>The manifest\<close>

record handoff =
  ho_schema_version :: pyval
  ho_session_id :: pyval
  ho_cape_task_id :: pyval
  ho_network_mode :: "string option"
  ho_clock_ok :: bool
  ho_telemetry_degraded :: bool
  ho_providers :: "string list"
  ho_guest_ip :: "string option"
  ho_start :: "string option"
  ho_end :: "string option"
  ho_manifest_sha256 :: "string option"

definition opt_string :: "pyval \<Rightarrow> string option" where
  "opt_string v = (case v of JStr s \<Rightarrow> Some s | _ \<Rightarrow> None)"

text \<open>\<open>raw.get(k) or \{\}\<close>, later used with \<open>.get\<close>: a truthy value that is no object has none.\<close>

definition sub_object :: "(string \<times> pyval) list \<Rightarrow> string \<Rightarrow> (string \<times> pyval) list res" where
  "sub_object d k =
     (let v = get d k in
      if \<not> truth v then Inr [] else if is_obj v then Inr (obj_of v) else Inl (AttributeError ''get''))"

definition provider_names :: "pyval \<Rightarrow> string list" where
  "provider_names v =
     (case v of
        JList ps \<Rightarrow>
          List.map_filter (\<lambda>p. case get (obj_of p) ''provider'' of JStr s \<Rightarrow> if s = [] then None else Some s | _ \<Rightarrow> None)
            (filter is_obj ps)
      | _ \<Rightarrow> [])"

definition supported_schema :: string where "supported_schema = ''1.0''"

definition load_handoff :: "(pyval \<Rightarrow> bool) option \<Rightarrow> bool \<Rightarrow> pyval \<Rightarrow> handoff res" where
  "load_handoff schema_ok strict raw =
     (if \<not> is_obj raw then Inl (AttributeError ''get'')
      else let d = obj_of raw in
        bind_res (check (get d ''schema_version'' = JStr supported_schema \<or> \<not> strict)
                    (ValueError ''handoff schema_version'')) (\<lambda>_.
        bind_res (check ((case schema_ok of None \<Rightarrow> True | Some ok \<Rightarrow> ok raw) \<or> \<not> strict)
                    (ValueError ''schema validation'')) (\<lambda>_.
        bind_res (sub_object d ''correlation'') (\<lambda>corr.
        bind_res (sub_object d ''telemetry'') (\<lambda>tel.
        bind_res (sub_object d ''guest_vm_identity'') (\<lambda>ident.
        bind_res (sub_object d ''integrity'') (\<lambda>integ.
          Inr \<lparr>ho_schema_version = get d ''schema_version'', ho_session_id = get d ''session_id'',
               ho_cape_task_id = get d ''cape_task_id'',
               ho_network_mode = opt_string (get d ''network_mode''),
               ho_clock_ok = truth (get corr ''clock_quality_acceptable''),
               ho_telemetry_degraded = truth (get tel ''telemetry_degraded''),
               ho_providers = provider_names (get tel ''providers_unavailable''),
               ho_guest_ip = opt_string (get ident ''guest_ip''),
               ho_start = opt_string (get d ''detonation_start_utc''),
               ho_end = opt_string (get d ''detonation_end_utc''),
               ho_manifest_sha256 = opt_string (get integ ''hash_manifest_sha256'')\<rparr>)))))))"

definition simulated :: "handoff \<Rightarrow> bool" where
  "simulated h \<longleftrightarrow> ho_network_mode h = Some ''simulated_inetsim''"

section \<open>Degraded telemetry\<close>

definition default_provider_map :: "(string \<times> string list) list" where
  "default_provider_map =
     [(''kernel-file'', [''file_access'']), (''kernel-registry'', [''system_info'']),
      (''kernel-process'', [''system_info'']),
      (''win32k'', [''keystrokes'', ''screenshot'', ''clipboard'']),
      (''crypto'', [''browser_credentials'', ''crypto_wallet'']),
      (''dpapi'', [''browser_credentials'']), (''clipboard'', [''clipboard'']),
      (''input'', [''keystrokes''])]"

text \<open>The site's map file, when it can be read, replaces the default; keys are lowered.\<close>

definition provider_map :: "(string \<times> string list) list option \<Rightarrow> (string \<times> string list) list" where
  "provider_map file =
     (case file of Some m \<Rightarrow> map (\<lambda>(k, v). (str_lower k, v)) m | None \<Rightarrow> default_provider_map)"

definition provider_hits :: "(string \<times> string list) list \<Rightarrow> string \<Rightarrow> string list list" where
  "provider_hits pmap prov = map snd (filter (\<lambda>(k, dts). contains k (str_lower prov)) pmap)"

definition affected_data_types :: "(string \<times> string list) list \<Rightarrow> handoff \<Rightarrow> string list \<times> bool" where
  "affected_data_types pmap h =
     (if \<not> ho_telemetry_degraded h then ([], False)
      else (concat (concat (map (provider_hits pmap) (ho_providers h))),
            list_ex (\<lambda>p. provider_hits pmap p = []) (ho_providers h) \<or> ho_providers h = []))"

section \<open>Capping\<close>

text \<open>
  \<open>_cap\<close> works on dictionaries and objects; \<open>indep\<close> is \<open>reputation_hit or static_match\<close>.
  The result tells whether the tier was lowered.
\<close>

definition cap_tier :: "tier \<Rightarrow> bool \<Rightarrow> tier option \<Rightarrow> tier option \<times> bool" where
  "cap_tier cap indep cur =
     (if indep then (cur, False)
      else case cur of
             None \<Rightarrow> (cur, False)
           | Some t \<Rightarrow> if tier_rank cap < tier_rank t then (Some cap, True) else (cur, False))"

definition static_or_rep :: "net_event \<Rightarrow> bool" where
  "static_or_rep e \<longleftrightarrow> ne_reputation_hit e \<or> truthy (ne_static_match e)"

definition cap_event :: "net_event \<Rightarrow> net_event \<times> bool" where
  "cap_event e =
     (let (t, b) = cap_tier Weak (static_or_rep e) (ne_tier e) in (e\<lparr>ne_tier := t\<rparr>, b))"

text \<open>A correlated event always has a tier and has no \<open>static_match\<close> attribute.\<close>

definition cap_corr :: "corr_event \<Rightarrow> corr_event \<times> bool" where
  "cap_corr c =
     (let (t, b) = cap_tier Weak (ce_reputation_hit c) (Some (ce_tier c)) in
      (c\<lparr>ce_tier := (case t of Some u \<Rightarrow> u | None \<Rightarrow> ce_tier c)\<rparr>, b))"

section \<open>The network gate\<close>

definition timing_kinds :: "string list" where "timing_kinds = [''beacon'']"

definition mark_simulated :: "handoff \<Rightarrow> net_event \<Rightarrow> net_event" where
  "mark_simulated h e = (if simulated h then e\<lparr>ne_network_mode := Some ''simulated_inetsim''\<rparr> else e)"

definition clock_cap :: "handoff \<Rightarrow> net_event \<Rightarrow> net_event \<times> bool" where
  "clock_cap h e =
     (if \<not> ho_clock_ok h \<and> ne_kind e \<in> set timing_kinds then cap_event e else (e, False))"

definition gate_event :: "handoff \<Rightarrow> net_event \<Rightarrow> net_event" where
  "gate_event h e = fst (clock_cap h (mark_simulated h e))"

definition simulated_note :: string where
  "simulated_note =
     ''NETWORK SIMULATED (inetsim): C2/exfil destinations and cadence are ''
     @ ''ATTEMPTED, not confirmed-delivered. The ABSENCE of exfil here is NOT ''
     @ ''evidence the sample is clean '' @ [CHR 0xE2, CHR 0x80, CHR 0x94]
     @ '' it only means the simulator did not elicit it. Do not score a simulated run as benign.''"

definition clock_note :: "nat \<Rightarrow> string" where
  "clock_note capped =
     ''CLOCK QUALITY NOT ACCEPTABLE: host/network clocks not reliably aligned ''
     @ [CHR 0xE2, CHR 0x80, CHR 0x94] @ '' timing-based findings capped to weak (''
     @ nat_str capped @ '' affected). Reputation/static confirmations are unaffected.''"

definition gate_network_events :: "net_event list \<Rightarrow> handoff option \<Rightarrow> net_event list \<times> string list" where
  "gate_network_events es ho =
     (case ho of
        None \<Rightarrow> (es, [])
      | Some h \<Rightarrow>
          (map (gate_event h) es,
           (if simulated h then [simulated_note] else [])
           @ (if \<not> ho_clock_ok h
              then [clock_note (length (filter (\<lambda>e. snd (clock_cap h (mark_simulated h e))) es))] else [])))"

section \<open>The correlation gate\<close>

definition telemetry_hit :: "(string \<times> string list) list \<Rightarrow> handoff \<Rightarrow> corr_event \<Rightarrow> bool" where
  "telemetry_hit pmap h c =
     (let (affected, all) = affected_data_types pmap h in
      ho_telemetry_degraded h
      \<and> (all \<or> (case ce_data_type c of Some dt \<Rightarrow> dt \<in> set affected | None \<Rightarrow> False)))"

definition gate_corr :: "(string \<times> string list) list \<Rightarrow> handoff \<Rightarrow> corr_event \<Rightarrow> corr_event" where
  "gate_corr pmap h c =
     (let c1 = (if \<not> ho_clock_ok h then fst (cap_corr c) else c) in
      if telemetry_hit pmap h c1 then fst (cap_corr c1) else c1)"

definition gate_correlated ::
    "(string \<times> string list) list \<Rightarrow> corr_event list \<Rightarrow> handoff option \<Rightarrow> corr_event list \<times> string list" where
  "gate_correlated pmap cs ho =
     (case ho of
        None \<Rightarrow> (cs, [])
      | Some h \<Rightarrow>
          let cs1 = (if \<not> ho_clock_ok h then map (fst \<circ> cap_corr) cs else cs);
              capped = length (filter (snd \<circ> cap_corr) cs);
              cs2 = map (\<lambda>c. if telemetry_hit pmap h c then fst (cap_corr c) else c) cs1;
              capped2 = length (filter (\<lambda>c. telemetry_hit pmap h c \<and> snd (cap_corr c)) cs1);
              (affected, all) = affected_data_types pmap h
          in (cs2,
              (if \<not> ho_clock_ok h \<and> 0 < capped
               then [''CLOCK QUALITY NOT ACCEPTABLE: '' @ nat_str capped
                     @ '' host<->network correlation(s) rest on timing alignment and were capped to weak.''] else [])
              @ (if ho_telemetry_degraded h
                 then [''TELEMETRY DEGRADED (providers unavailable: ''
                       @ (if ho_providers h = [] then ''unspecified'' else join '', '' (ho_providers h))
                       @ ''): host-collection absence is not evidence for [''
                       @ (if all then ''all data types''
                          else if affected = [] then ''none''
                          else join '', '' (sort (remdups affected)))
                       @ '']; '' @ nat_str capped2 @ '' correlated finding(s) capped to weak.''] else [])))"

section \<open>Lemmas\<close>

lemma cap_tier_spec:
  "(case cur of None \<Rightarrow> fst (cap_tier c r cur) = None
     | Some t \<Rightarrow> fst (cap_tier c r cur) = Some (if r then t else min t c))"
  by (auto simp: cap_tier_def tier_simps min_def split: option.splits dest: tier_rank_inj)

lemma cap_event_tier: "ne_tier (fst (cap_event e)) = (if static_or_rep e then ne_tier e else map_option (min Weak) (ne_tier e))"
  using cap_tier_spec [where cur = "ne_tier e" and c = Weak and r = "static_or_rep e"]
  by (auto simp: cap_event_def min.commute split: prod.splits option.splits)

lemma cap_corr_tier: "ce_tier (fst (cap_corr c)) = (if ce_reputation_hit c then ce_tier c else min Weak (ce_tier c))"
  using cap_tier_spec [where cur = "Some (ce_tier c)" and c = Weak and r = "ce_reputation_hit c"]
  by (auto simp: cap_corr_def min.commute split: prod.splits)

lemma cap_corr_other:
  "ce_data_type (fst (cap_corr c)) = ce_data_type c" "ce_reputation_hit (fst (cap_corr c)) = ce_reputation_hit c"
  "(fst (cap_corr c))\<lparr>ce_tier := Weak\<rparr> = c\<lparr>ce_tier := Weak\<rparr>"
  by (simp_all add: cap_corr_def split: prod.splits)

text \<open>What the network gate may not touch: everything but the tier and the network mode.\<close>

definition event_frame :: "net_event \<Rightarrow> net_event" where
  "event_frame e = e\<lparr>ne_tier := None, ne_network_mode := None, ne_allowlist_match := None\<rparr>"

lemma gate_event_tier:
  "ne_tier (gate_event h e) =
     (if ho_clock_ok h \<or> ne_kind e \<notin> set timing_kinds \<or> static_or_rep e then ne_tier e
      else map_option (min Weak) (ne_tier e))"
  by (auto simp: gate_event_def clock_cap_def mark_simulated_def cap_event_tier static_or_rep_def)

lemma cap_event_frame: "event_frame (fst (cap_event e)) = event_frame e"
  by (simp add: cap_event_def event_frame_def split: prod.splits)

lemma gate_event_frame: "event_frame (gate_event h e) = event_frame e"
  by (simp add: gate_event_def clock_cap_def cap_event_frame) (simp add: mark_simulated_def event_frame_def)

lemma telemetry_hit_cap: "telemetry_hit pmap h (fst (cap_corr c)) = telemetry_hit pmap h c"
  by (simp add: telemetry_hit_def cap_corr_other)

lemma gate_corr_tier:
  "ce_tier (gate_corr pmap h c) =
     (if ce_reputation_hit c \<or> ho_clock_ok h \<and> \<not> telemetry_hit pmap h c then ce_tier c
      else min Weak (ce_tier c))"
  by (simp add: gate_corr_def Let_def cap_corr_tier cap_corr_other telemetry_hit_cap)

lemma gate_correlated_map:
  "fst (gate_correlated pmap cs (Some h)) = map (gate_corr pmap h) cs"
  by (simp add: gate_correlated_def gate_corr_def Let_def split: prod.splits)

interpretation net_gate: tier_gate ne_tier static_or_rep event_frame "gate_event h"
  by unfold_locales
    (auto simp: gate_event_tier gate_event_frame tier_simps min_def split: option.splits)

interpretation corr_gate: tier_gate "\<lambda>c. Some (ce_tier c)" ce_reputation_hit
    "\<lambda>c. c\<lparr>ce_tier := Weak\<rparr>" "gate_corr pmap h"
proof unfold_locales
  fix c
  show "(gate_corr pmap h c)\<lparr>ce_tier := Weak\<rparr> = c\<lparr>ce_tier := Weak\<rparr>"
    by (simp add: gate_corr_def Let_def cap_corr_other)
qed (auto simp: gate_corr_tier)

section \<open>Properties\<close>

text \<open>
  The correlation gate: without a hand-off nothing changes; with one, exactly the findings
  without a reputation hit are capped to at most weak, and only when the clock is not acceptable
  or the telemetry of their data type is degraded; nothing but the tier changes and no tier rises.
\<close>

theorem gate_correlated_exact:
  "fst (gate_correlated pmap cs None) = cs
   \<and> map ce_tier (fst (gate_correlated pmap cs (Some h)))
       = map (\<lambda>c. if ce_reputation_hit c \<or> ho_clock_ok h \<and> \<not> telemetry_hit pmap h c then ce_tier c
                   else min Weak (ce_tier c)) cs
   \<and> map (\<lambda>c. c\<lparr>ce_tier := Weak\<rparr>) (fst (gate_correlated pmap cs (Some h)))
       = map (\<lambda>c. c\<lparr>ce_tier := Weak\<rparr>) cs
   \<and> length (filter (\<lambda>c. Some (ce_tier c) = Some Confirmed) (fst (gate_correlated pmap cs (Some h))))
       \<le> length (filter (\<lambda>c. Some (ce_tier c) = Some Confirmed) cs)"
proof -
  have "fst (gate_correlated pmap cs None) = cs" by (simp add: gate_correlated_def)
  moreover have "map ce_tier (map (gate_corr pmap h) cs)
       = map (\<lambda>c. if ce_reputation_hit c \<or> ho_clock_ok h \<and> \<not> telemetry_hit pmap h c then ce_tier c
                   else min Weak (ce_tier c)) cs"
    by (simp add: gate_corr_tier)
  ultimately show ?thesis
    unfolding gate_correlated_map
    using corr_gate.gate_frames [of pmap h cs] corr_gate.gate_never_more_confirmed [of pmap h cs] by blast
qed

text \<open>
  The network gate: under an unacceptable clock every beacon without an independent
  confirmation ends at most weak, every other finding keeps its tier, an acceptable clock changes
  no tier, a simulated run marks every finding, and nothing else is touched.
\<close>

theorem gate_network_exact:
  "fst (gate_network_events es None) = es
   \<and> map ne_tier (fst (gate_network_events es (Some h)))
       = map (\<lambda>e. if ne_kind e = ''beacon'' \<and> \<not> (ho_clock_ok h \<or> static_or_rep e)
                   then map_option (min Weak) (ne_tier e) else ne_tier e) es
   \<and> map event_frame (fst (gate_network_events es (Some h))) = map event_frame es
   \<and> map ne_network_mode (fst (gate_network_events es (Some h)))
       = map (\<lambda>e. if simulated h then Some ''simulated_inetsim'' else ne_network_mode e) es"
proof -
  have "fst (gate_network_events es None) = es"
    and m: "fst (gate_network_events es (Some h)) = map (gate_event h) es" for es
    by (simp_all add: gate_network_events_def)
  moreover have "map ne_tier (map (gate_event h) es)
      = map (\<lambda>e. if ne_kind e = ''beacon'' \<and> \<not> (ho_clock_ok h \<or> static_or_rep e)
                   then map_option (min Weak) (ne_tier e) else ne_tier e) es"
    by (auto simp: gate_event_tier timing_kinds_def)
  moreover have "ne_network_mode (gate_event h e)
      = (if simulated h then Some ''simulated_inetsim'' else ne_network_mode e)" for e
    by (simp add: gate_event_def clock_cap_def cap_event_def mark_simulated_def split: prod.splits)
  ultimately show ?thesis using net_gate.gate_frames [of h es] by (simp add: m)
qed

text \<open>
  A missing or non-boolean-true quality flag is read in the safe direction: loading a
  manifest whose correlation block lacks \<open>clock_quality_acceptable\<close> gives a hand-off with an
  unacceptable clock, whatever the block says otherwise, so every beacon that no intelligence
  confirms is capped.
\<close>

theorem missing_clock_quality_is_unacceptable:
  assumes "load_handoff ok strict (JObj d) = Inr h"
    and "get (obj_of (get d ''correlation'')) ''clock_quality_acceptable'' = JNull"
  shows "\<not> ho_clock_ok h
   \<and> (\<forall>e \<in> set (fst (gate_network_events es (Some h))).
        ne_kind e = ''beacon'' \<and> \<not> static_or_rep e \<longrightarrow> (\<forall>t. ne_tier e = Some t \<longrightarrow> t \<le> Weak))"
proof -
  from assms(1) obtain corr where corr: "sub_object d ''correlation'' = Inr corr"
    and h: "ho_clock_ok h = truth (get corr ''clock_quality_acceptable'')"
    by (auto simp: load_handoff_def bind_res_Inr_iff)
  have "corr = [] \<or> corr = obj_of (get d ''correlation'')"
    using corr by (auto simp: sub_object_def Let_def split: if_splits)
  then have bad: "\<not> ho_clock_ok h" using h assms(2) by auto
  have "t \<le> Weak" if "e \<in> set es" "ne_kind (gate_event h e) = ''beacon''"
      "\<not> static_or_rep (gate_event h e)" "ne_tier (gate_event h e) = Some t" for e t
  proof -
    have "ne_kind (gate_event h e) = ne_kind e" "static_or_rep (gate_event h e) = static_or_rep e"
      using gate_event_frame [of h e] by (cases e; cases "gate_event h e"; simp add: event_frame_def static_or_rep_def)+
    then show ?thesis
      using that bad by (auto simp: gate_event_tier timing_kinds_def)
  qed
  then show ?thesis using bad by (auto simp: gate_network_events_def)
qed


lemma missing_clock_witness:
  "case load_handoff None False (JObj [(''schema_version'', JStr ''1.0'')]) of
     Inl _ \<Rightarrow> False | Inr h \<Rightarrow> \<not> ho_clock_ok h"
proof -
  let ?d = "[(''schema_version'', JStr ''1.0'')]"
  have "case load_handoff None False (JObj ?d) of Inl _ \<Rightarrow> False | Inr _ \<Rightarrow> True" by code_simp
  then obtain h where h: "load_handoff None False (JObj ?d) = Inr h" by (auto split: sum.splits)
  have "get (obj_of (get ?d ''correlation'')) ''clock_quality_acceptable'' = JNull" by code_simp
  from missing_clock_quality_is_unacceptable [OF h this] show ?thesis by (simp add: h)
qed

end
