(* ===== verification/Allowlist.thy ===== *)
theory Allowlist
  imports Handoff
begin

text \<open>
  The sanctioned-service allowlist (\<open>pipeline/allowlist.py\<close>): weak findings to known-good
  endpoints are set to \<open>allowlisted\<close>. The domain set is a list in the order in which Python
  iterates over it; a network carries the text \<open>str(c)\<close> prints for it.
\<close>

section \<open>Lists\<close>

definition default_domains :: "string list" where
  "default_domains =
     [''update.microsoft.com'', ''windowsupdate.com'', ''ctldl.windowsupdate.com'',
      ''delivery.mp.microsoft.com'', ''au.download.windowsupdate.com'',
      ''msftconnecttest.com'', ''msftncsi.com'', ''time.windows.com'',
      ''events.data.microsoft.com'', ''watson.telemetry.microsoft.com'',
      ''settings-win.data.microsoft.com'',
      ''ocsp.digicert.com'', ''ocsp.msocsp.com'', ''crl.microsoft.com'',
      ''ocsp.pki.goog'', ''ocsp.sectigo.com'', ''crl.identrust.com'',
      ''clients2.google.com'', ''connectivitycheck.gstatic.com'',
      ''detectportal.firefox.com'', ''connectivity-check.ubuntu.com'',
      ''pool.ntp.org'', ''ntp.org'']"

type_synonym allow_list = "string list \<times> (string \<times> ip_net) list"

text \<open>
  The site file, when present and readable, adds domains (lowered, stripped) and the networks
  that parse; \<open>parse_net\<close> is \<open>ipaddress.ip_network(c, strict=False)\<close>.
\<close>

definition load_allowlist ::
    "(string \<Rightarrow> (string \<times> ip_net) option) \<Rightarrow> (string list \<times> string list) option \<Rightarrow> allow_list" where
  "load_allowlist parse_net file =
     (case file of
        None \<Rightarrow> (default_domains, [])
      | Some (ds, cs) \<Rightarrow>
          (remdups (default_domains @ map (\<lambda>d. strip (str_lower d)) ds), List.map_filter parse_net cs))"

definition under :: "string \<Rightarrow> string \<Rightarrow> bool" where
  "under h d \<longleftrightarrow> h = d \<or> ends_with h (CHR ''.'' # d)"

definition domain_match :: "string list \<Rightarrow> string option \<Rightarrow> string option" where
  "domain_match domains dom_opt =
     (if truthy dom_opt
      then (let h = rstrip_char (CHR ''.'') (str_lower (the dom_opt)) in find (under h) domains)
      else None)"

definition cidr_match :: "(string \<times> ip_net) list \<Rightarrow> string \<Rightarrow> string option" where
  "cidr_match cidrs ip =
     (if ip = [] then None
      else case ip_address ip of
             None \<Rightarrow> None
           | Some a \<Rightarrow> map_option fst (find (\<lambda>(t, n). in_net a n) cidrs))"

text \<open>\<open>is_allowlisted\<close>: the matched entry, domain entries first.\<close>

definition is_allowlisted :: "allow_list \<Rightarrow> string option \<Rightarrow> string \<Rightarrow> string option" where
  "is_allowlisted al dom_opt ip =
     (case domain_match (fst al) dom_opt of Some d \<Rightarrow> Some d | None \<Rightarrow> cidr_match (snd al) ip)"

section \<open>Application\<close>

definition allow_event :: "allow_list \<Rightarrow> net_event \<Rightarrow> net_event" where
  "allow_event al e =
     (if ne_tier e \<noteq> Some Weak then e
      else case is_allowlisted al (ne_domain e) (ne_dst_ip e) of
             None \<Rightarrow> e
           | Some m \<Rightarrow> e\<lparr>ne_tier := Some Allowlisted, ne_allowlist_match := Some m\<rparr>)"

definition allow_hit :: "allow_list \<Rightarrow> net_event \<Rightarrow> bool" where
  "allow_hit al e \<longleftrightarrow> ne_tier e = Some Weak \<and> is_allowlisted al (ne_domain e) (ne_dst_ip e) \<noteq> None"

text \<open>The events are updated in place; the number of down-tiered ones is returned.\<close>

definition apply_allowlist :: "allow_list \<Rightarrow> net_event list \<Rightarrow> net_event list \<times> nat" where
  "apply_allowlist al es = (map (allow_event al) es, length (filter (allow_hit al) es))"

section \<open>Lemmas\<close>

lemma find_not_None: "find P xs \<noteq> None \<longleftrightarrow> (\<exists>x \<in> set xs. P x)"
  by (induction xs) auto

lemma allow_event_tier:
  "ne_tier (allow_event al e) = (if allow_hit al e then Some Allowlisted else ne_tier e)"
  by (auto simp: allow_event_def allow_hit_def split: option.splits)

lemma allow_event_frame: "event_frame (allow_event al e) = event_frame e"
  by (simp add: allow_event_def event_frame_def split: option.splits)

text \<open>A confirmed finding with an independent indicator is protected from both gates.\<close>

definition confirmed_indep :: "net_event \<Rightarrow> bool" where
  "confirmed_indep e \<longleftrightarrow> static_or_rep e \<and> ne_tier e = Some Confirmed"

lemma confirmed_indep_visible:
  "ne_tier a = ne_tier b \<Longrightarrow> event_frame a = event_frame b \<Longrightarrow> confirmed_indep a \<longleftrightarrow> confirmed_indep b"
  by (cases a; cases b) (simp add: confirmed_indep_def static_or_rep_def event_frame_def)

interpretation allow_gate: tier_gate ne_tier confirmed_indep event_frame "allow_event al"
  by unfold_locales
    (auto simp: allow_event_tier allow_event_frame allow_hit_def confirmed_indep_def tier_simps split: option.splits)

text \<open>The two gates at the end of \<open>build_network_events\<close>, in their order.\<close>

interpretation final_gates: gate_pair ne_tier confirmed_indep event_frame "allow_event al" "gate_event h"
proof unfold_locales
  fix e
  show "(case ne_tier e of None \<Rightarrow> ne_tier (gate_event h e) = None
      | Some t \<Rightarrow> \<exists>t'. ne_tier (gate_event h e) = Some t' \<and> t' \<le> t)"
    by (rule net_gate.lowers)
  show "event_frame (gate_event h e) = event_frame e" by (rule net_gate.frames)
  show "ne_tier (gate_event h e) = ne_tier e" if "confirmed_indep e"
    using that net_gate.protects by (simp add: confirmed_indep_def)
qed (rule confirmed_indep_visible)

section \<open>Properties\<close>

text \<open>
  The allowlist is conservative: exactly the weak findings whose domain is a listed domain
  or below one, or whose address lies in a listed network, become allowlisted, the number
  returned is their number, every other finding keeps its tier, and nothing is dropped or
  otherwise altered.
\<close>

theorem allowlist_exact:
  "map ne_tier (fst (apply_allowlist al es))
     = map (\<lambda>e. if ne_tier e = Some Weak \<and>
           ((truthy (ne_domain e) \<and>
              (\<exists>d \<in> set (fst al). under (rstrip_char (CHR ''.'') (str_lower (the (ne_domain e)))) d))
            \<or> (ne_dst_ip e \<noteq> [] \<and> (\<exists>a. ip_address (ne_dst_ip e) = Some a \<and> (\<exists>tn \<in> set (snd al). in_net a (snd tn)))))
         then Some Allowlisted else ne_tier e) es
   \<and> map event_frame (fst (apply_allowlist al es)) = map event_frame es
   \<and> snd (apply_allowlist al es) = length (filter (allow_hit al) es)"
proof -
  have dm: "domain_match ds d \<noteq> None \<longleftrightarrow> truthy d \<and> (\<exists>x \<in> set ds. under (rstrip_char (CHR ''.'') (str_lower (the d))) x)" for ds d
    by (simp add: domain_match_def Let_def find_not_None del: not_None_eq)
  have cm: "cidr_match cs ip \<noteq> None \<longleftrightarrow> ip \<noteq> [] \<and> (\<exists>a. ip_address ip = Some a \<and> (\<exists>tn \<in> set cs. in_net a (snd tn)))" for cs ip
    using find_not_None [of _ cs]
    by (auto simp: cidr_match_def case_prod_beta split: option.splits simp del: not_None_eq)
  have "is_allowlisted al d ip \<noteq> None \<longleftrightarrow> domain_match (fst al) d \<noteq> None \<or> cidr_match (snd al) ip \<noteq> None" for d ip
    by (auto simp: is_allowlisted_def split: option.splits)
  then have hit: "allow_hit al e \<longleftrightarrow> ne_tier e = Some Weak \<and>
           ((truthy (ne_domain e) \<and>
              (\<exists>d \<in> set (fst al). under (rstrip_char (CHR ''.'') (str_lower (the (ne_domain e)))) d))
            \<or> (ne_dst_ip e \<noteq> [] \<and> (\<exists>a. ip_address (ne_dst_ip e) = Some a \<and> (\<exists>tn \<in> set (snd al). in_net a (snd tn)))))" for e
    unfolding allow_hit_def dm cm by simp
  have "map ne_tier (fst (apply_allowlist al es)) = map (\<lambda>e. if allow_hit al e then Some Allowlisted else ne_tier e) es"
    by (simp add: apply_allowlist_def allow_event_tier)
  moreover have "map event_frame (fst (apply_allowlist al es)) = map event_frame es"
    using allow_gate.gate_frames [of al es] by (simp add: apply_allowlist_def)
  ultimately show ?thesis by (simp only: hit apply_allowlist_def snd_conv)
qed

text \<open>
  Which entry is recorded as the match depends on the iteration order of the domain set:
  for one weak finding two orders of the same default set record different entries, although
  the tier is the same.
\<close>

theorem allowlist_match_depends_on_order:
  "\<exists>ds1 ds2. set ds1 = set default_domains \<and> set ds2 = set default_domains
     \<and> (\<exists>e. ne_tier (allow_event (ds1, []) e) = ne_tier (allow_event (ds2, []) e)
          \<and> ne_allowlist_match (allow_event (ds1, []) e) = Some ''windowsupdate.com''
          \<and> ne_allowlist_match (allow_event (ds2, []) e) = Some ''ctldl.windowsupdate.com'')"
proof -
  define e where "e = (blank_event ''exfil'' ''203.0.113.9'' 443 ''2026-01-01T00:00:00+00:00'' 0 False)
      \<lparr>ne_domain := Some ''ctldl.windowsupdate.com'', ne_tier := Some Weak\<rparr>"
  have 1: "is_allowlisted (default_domains, []) (ne_domain e) (ne_dst_ip e) = Some ''windowsupdate.com''"
    unfolding e_def by code_simp
  have 2: "is_allowlisted (rev default_domains, []) (ne_domain e) (ne_dst_ip e) = Some ''ctldl.windowsupdate.com''"
    unfolding e_def by code_simp
  have t: "ne_tier e = Some Weak" by (simp add: e_def)
  show ?thesis
    by (rule exI [of _ default_domains], rule exI [of _ "rev default_domains"],
        intro conjI exI [of _ e]) (simp_all add: allow_event_def 1 2 t)
qed

end
