(* ===== verification/PyUrl.thy ===== *)
theory PyUrl
  imports PyStr
begin

text \<open>
  The part of \<open>urllib.parse.urlparse\<close> the code uses: the host name of a URL. A malformed
  bracketed host is a \<open>ValueError\<close>.
\<close>

definition is_scheme_char :: "char \<Rightarrow> bool" where
  "is_scheme_char c \<longleftrightarrow> is_upper c \<or> is_lower c \<or> is_digit c \<or> c \<in> set ''+-.''"

text \<open>What follows the scheme, if the text before the first colon can be one.\<close>

definition after_scheme :: "string \<Rightarrow> string" where
  "after_scheme s =
     (case split_once (CHR '':'') s of
        None \<Rightarrow> s
      | Some (a, b) \<Rightarrow>
          if a \<noteq> [] \<and> (is_upper (hd a) \<or> is_lower (hd a)) \<and> (\<forall>c \<in> set a. is_scheme_char c) then b else s)"

definition url_netloc :: "string \<Rightarrow> string" where
  "url_netloc url =
     (let s = after_scheme (filter (\<lambda>c. of_char c \<notin> {9, 10, 13 :: nat}) url) in
      if starts_with s ''//'' then takeWhile (\<lambda>c. c \<notin> set ''/?#'') (drop 2 s) else [])"

definition before_char :: "char \<Rightarrow> string \<Rightarrow> string" where
  "before_char c s = takeWhile (\<lambda>x. x \<noteq> c) s"

definition after_last :: "char \<Rightarrow> string \<Rightarrow> string" where
  "after_last c s = rev (takeWhile (\<lambda>x. x \<noteq> c) (rev s))"

definition lower_host :: "string \<Rightarrow> string" where
  "lower_host h = (let a = before_char (CHR ''%'') h in str_lower a @ drop (length a) h)"

text \<open>\<open>urlparse(u).hostname\<close>: \<open>[]\<close> stands for \<open>None\<close>, which the code treats alike (\<open>or\<close>).\<close>

definition url_hostname :: "string \<Rightarrow> string res" where
  "url_hostname url =
     (let net = url_netloc url in
      if (CHR ''['' \<in> set net) \<noteq> (CHR '']'' \<in> set net) then Inl (ValueError ''Invalid IPv6 URL'')
      else let info = after_last (CHR ''@'') net;
               h = (case split_once (CHR ''['') info of
                      Some (_, b) \<Rightarrow> before_char (CHR '']'') b
                    | None \<Rightarrow> before_char (CHR '':'') info)
           in Inr (lower_host h))"

end
