(* ===== verification/StaticPrior.thy ===== *)
theory StaticPrior
  imports Allowlist PyUrl
begin

text \<open>
  Ingestion of the static IOC prior and its correlation with observed destinations
  (\<open>pipeline/static_prior.py\<close>).
\<close>

section \<open>Indicators\<close>

definition valid_types :: "string list" where
  "valid_types = [''domain'', ''email'', ''hash'', ''ip'', ''url'']"

record indicator =
  in_type :: string
  in_value :: string

text \<open>The strings an indicator can match; a URL with a malformed bracketed host raises.\<close>

definition match_keys :: "indicator \<Rightarrow> string list res" where
  "match_keys ind =
     (let v = strip (in_value ind) in
      if in_type ind = ''ip'' then Inr [v]
      else if in_type ind = ''domain'' then Inr [str_lower v]
      else if in_type ind = ''email'' then Inr [str_lower v, str_lower (after_last (CHR ''@'') v)]
      else if in_type ind = ''url''
      then bind_res (url_hostname (if contains ''://'' v then v else ''http://'' @ v)) (\<lambda>host.
             Inr ((if host = [] then [] else [str_lower host])
                  @ (if ip_address host = None then [] else [host])))
      else Inr [v])"

record static_prior =
  sp_sample :: pyval
  sp_family :: pyval
  sp_capabilities :: "pyval list"
  sp_indicators :: "indicator list"

section \<open>Ingestion\<close>

text \<open>Iterating over \<open>v or []\<close>: a string gives its characters, a dictionary its keys.\<close>

definition iterate :: "pyval \<Rightarrow> pyval list res" where
  "iterate v =
     (if \<not> truth v then Inr []
      else case v of
             JList xs \<Rightarrow> Inr xs
           | JStr s \<Rightarrow> Inr (map (\<lambda>c. JStr [c]) s)
           | JObj d \<Rightarrow> Inr (map (JStr \<circ> fst) d)
           | _ \<Rightarrow> Inl (TypeError (str_repr (type_name v) @ '' object is not iterable'')))"

definition indicator_tag :: "nat \<Rightarrow> string" where
  "indicator_tag i = ''c2_indicators['' @ nat_str i @ '']''"

text \<open>One indicator: accepted, reported as an error text, or an exception.\<close>

definition read_indicator :: "nat \<Rightarrow> pyval \<Rightarrow> (string + indicator) res" where
  "read_indicator i ind =
     (let d = obj_of ind in
      if \<not> is_obj ind \<or> map_of d ''type'' = None \<or> map_of d ''value'' = None
      then Inr (Inl (indicator_tag i @ '' must have 'type' and 'value'' @ [char_of (39 :: nat)]))
      else let t = get d ''type'' in
        if \<not> hashable t then Inl (TypeError (''unhashable type: '' @ str_repr (type_name t)))
        else case t of
               JStr ty \<Rightarrow>
                 if ty \<notin> set valid_types
                 then Inr (Inl (indicator_tag i @ '' invalid type '' @ py_repr t @ '' (expected ''
                        @ py_repr (JList (map JStr valid_types)) @ '')''))
                 else if strip (py_str (get d ''value'')) = []
                 then Inr (Inl (indicator_tag i @ '' empty value''))
                 else Inr (Inr \<lparr>in_type = ty, in_value = strip (py_str (get d ''value''))\<rparr>)
             | _ \<Rightarrow> Inr (Inl (indicator_tag i @ '' invalid type '' @ py_repr t @ '' (expected ''
                        @ py_repr (JList (map JStr valid_types)) @ '')'')))"

fun prior_loop :: "nat \<Rightarrow> pyval list \<Rightarrow> indicator list \<Rightarrow> string list \<Rightarrow> (indicator list \<times> string list) res" where
  "prior_loop i [] inds errs = Inr (inds, errs)"
| "prior_loop i (x # xs) inds errs =
     (case read_indicator i x of
        Inl e \<Rightarrow> Inl e
      | Inr (Inl m) \<Rightarrow> prior_loop (Suc i) xs inds (errs @ [m])
      | Inr (Inr ind) \<Rightarrow> prior_loop (Suc i) xs (inds @ [ind]) errs)"

text \<open>\<open>ingest_prior(raw)\<close> in the tolerant mode the program uses.\<close>

definition ingest_prior :: "pyval \<Rightarrow> (static_prior \<times> string list) res" where
  "ingest_prior raw =
     (if \<not> is_obj raw then Inl (AttributeError ''get'')
      else let d = obj_of raw in
        bind_res (iterate (get d ''capabilities'')) (\<lambda>caps.
        bind_res (iterate (get d ''c2_indicators'')) (\<lambda>xs.
        bind_res (prior_loop 0 xs [] []) (\<lambda>(inds, errs).
          Inr (\<lparr>sp_sample = get d ''sample_sha256'', sp_family = get d ''family'',
                sp_capabilities = caps, sp_indicators = inds\<rparr>, errs)))))"

text \<open>\<open>load_static_prior\<close> over the file: absent, not JSON, or a value.\<close>

definition empty_prior :: static_prior where
  "empty_prior = \<lparr>sp_sample = JNull, sp_family = JNull, sp_capabilities = [], sp_indicators = []\<rparr>"

definition load_static_prior :: "string \<Rightarrow> (string + pyval) option \<Rightarrow> (static_prior \<times> string list) res" where
  "load_static_prior path file =
     (case file of
        None \<Rightarrow> Inr (empty_prior, [''file not found: '' @ path])
      | Some (Inl e) \<Rightarrow> Inr (empty_prior, [''invalid JSON: '' @ e])
      | Some (Inr v) \<Rightarrow> ingest_prior v)"

section \<open>Correlation with the network\<close>

record static_corr =
  sc_indicator :: indicator
  sc_observed :: bool
  sc_matched :: "string list"

definition lower_opt :: "string option \<Rightarrow> string" where
  "lower_opt d = (case d of Some s \<Rightarrow> str_lower s | None \<Rightarrow> [])"

definition net_ips :: "net_event list \<Rightarrow> string list" where
  "net_ips es = filter (\<lambda>ip. ip \<noteq> []) (map ne_dst_ip es)"

definition net_domains :: "net_event list \<Rightarrow> string list" where
  "net_domains es = map (\<lambda>e. lower_opt (ne_domain e)) (filter (\<lambda>e. truthy (ne_domain e)) es)"

definition correlate_indicator :: "net_event list \<Rightarrow> indicator \<Rightarrow> static_corr res" where
  "correlate_indicator es ind =
     bind_res (match_keys ind) (\<lambda>keys.
       let matched = sort (remdups (filter (\<lambda>k. k \<in> set (net_ips es) \<or> k \<in> set (net_domains es)) keys))
       in Inr \<lparr>sc_indicator = ind, sc_observed = (matched \<noteq> []), sc_matched = matched\<rparr>)"

definition correlate_static_prior :: "static_prior \<Rightarrow> net_event list \<Rightarrow> static_corr list res" where
  "correlate_static_prior prior es = map_res (correlate_indicator es) (sp_indicators prior)"

section \<open>Promotion of the network findings\<close>

text \<open>
  The block of \<open>build_network_events\<close> that uses the correlation: matched findings become
  confirmed, unmatched indicators are added as dormant findings.
\<close>

definition family_tag :: "static_prior \<Rightarrow> string" where
  "family_tag p = (if truth (sp_family p) then '' ('' @ py_str (sp_family p) @ '')'' else [])"

definition matched_dst :: "static_corr list \<Rightarrow> string set" where
  "matched_dst cs = set (concat (map sc_matched (filter sc_observed cs)))"

definition matches_static :: "string set \<Rightarrow> net_event \<Rightarrow> bool" where
  "matches_static matched e \<longleftrightarrow>
     ne_dst_ip e \<in> matched \<or> (lower_opt (ne_domain e) \<noteq> [] \<and> lower_opt (ne_domain e) \<in> matched)"

definition promote :: "string \<Rightarrow> string set \<Rightarrow> net_event \<Rightarrow> net_event" where
  "promote fam matched e =
     (if matches_static matched e
      then e\<lparr>ne_tier := Some Confirmed, ne_reputation_hit := True,
             ne_static_match := Some (''matches static-extracted C2'' @ fam)\<rparr>
      else e)"

definition dormant_event :: "string \<Rightarrow> string \<Rightarrow> indicator \<Rightarrow> net_event" where
  "dormant_event fam stamp ind =
     (let is_ip = (in_type ind = ''ip'') in
      (blank_event ''static_ioc'' (if is_ip then in_value ind else []) 0 stamp (rnd (8 / 10)) False)
        \<lparr>ne_domain := (if is_ip then None else Some (in_value ind)), ne_tier := Some Strong,
         ne_static_note := Some (''C2 in binary'' @ fam @ '', not observed on network (dormant)'')\<rparr>)"

definition apply_static_prior :: "string \<Rightarrow> static_prior \<Rightarrow> net_event list \<Rightarrow> net_event list res" where
  "apply_static_prior stamp prior es =
     bind_res (correlate_static_prior prior es) (\<lambda>cs.
       Inr (map (promote (family_tag prior) (matched_dst cs)) es
            @ map (\<lambda>c. dormant_event (family_tag prior) stamp (sc_indicator c))
                (filter (\<lambda>c. \<not> sc_observed c) cs)))"

section \<open>Lemmas\<close>

text \<open>An indicator names a finding when one of its keys is the finding's address or domain.\<close>

definition names :: "indicator \<Rightarrow> net_event \<Rightarrow> bool" where
  "names ind e \<longleftrightarrow>
     (case match_keys ind of
        Inl _ \<Rightarrow> False
      | Inr keys \<Rightarrow> list_ex (\<lambda>k. k \<noteq> [] \<and> k = ne_dst_ip e
                                 \<or> truthy (ne_domain e) \<and> k = lower_opt (ne_domain e)) keys)"

lemma names_iff:
  "names ind e \<longleftrightarrow>
     (\<exists>keys k. match_keys ind = Inr keys \<and> k \<in> set keys
        \<and> (k \<noteq> [] \<and> k = ne_dst_ip e \<or> truthy (ne_domain e) \<and> k = lower_opt (ne_domain e)))"
  by (auto simp: names_def list_ex_iff split: sum.splits)

lemma sc_matched_iff:
  assumes "correlate_indicator es ind = Inr c"
  shows "k \<in> set (sc_matched c) \<longleftrightarrow>
     (\<exists>keys. match_keys ind = Inr keys \<and> k \<in> set keys) \<and> (k \<in> set (net_ips es) \<or> k \<in> set (net_domains es))"
    and "sc_indicator c = ind" and "sc_observed c \<longleftrightarrow> sc_matched c \<noteq> []"
  using assms by (auto simp: correlate_indicator_def bind_res_Inr_iff Let_def)

lemma sc_observed_iff:
  assumes "correlate_indicator es ind = Inr c"
  shows "sc_observed c \<longleftrightarrow> (\<exists>e \<in> set es. names ind e)"
proof -
  have "sc_observed c \<longleftrightarrow> (\<exists>k. k \<in> set (sc_matched c))"
    using sc_matched_iff(3) [OF assms] by (metis all_not_in_conv set_empty)
  also have "\<dots> \<longleftrightarrow> (\<exists>e \<in> set es. names ind e)"
    unfolding sc_matched_iff(1) [OF assms] net_ips_def net_domains_def names_iff by auto
  finally show ?thesis .
qed

lemma correlate_static_prior_all2:
  "correlate_static_prior p es = Inr cs \<Longrightarrow>
     list_all2 (\<lambda>ind c. correlate_indicator es ind = Inr c) (sp_indicators p) cs"
  by (simp add: correlate_static_prior_def map_res_Inr_all2)

lemma list_all2_memD1: "list_all2 P xs ys \<Longrightarrow> x \<in> set xs \<Longrightarrow> \<exists>y \<in> set ys. P x y"
  by (induction rule: list_all2_induct) auto

lemma lower_opt_truthy: "lower_opt d \<noteq> [] \<longleftrightarrow> truthy d"
  by (cases d) (auto simp: lower_opt_def)

lemma matched_dst_iff:
  assumes "correlate_static_prior p es = Inr cs"
  shows "k \<in> matched_dst cs \<longleftrightarrow>
     (\<exists>ind \<in> set (sp_indicators p). \<exists>keys. match_keys ind = Inr keys \<and> k \<in> set keys)
     \<and> (k \<in> set (net_ips es) \<or> k \<in> set (net_domains es))"
proof -
  note all = correlate_static_prior_all2 [OF assms]
  have obs: "sc_observed c" if "c \<in> set cs" "k \<in> set (sc_matched c)" for c
    using list_all2_memD2 [OF all that(1)] sc_matched_iff(3) that(2) by fastforce
  have "k \<in> matched_dst cs \<longleftrightarrow> (\<exists>c \<in> set cs. k \<in> set (sc_matched c))"
    using obs by (auto simp: matched_dst_def)
  also have "\<dots> \<longleftrightarrow> (\<exists>ind \<in> set (sp_indicators p). \<exists>keys. match_keys ind = Inr keys \<and> k \<in> set keys)
     \<and> (k \<in> set (net_ips es) \<or> k \<in> set (net_domains es))" (is "?l \<longleftrightarrow> ?r")
  proof
    assume ?l
    then obtain c where c: "c \<in> set cs" "k \<in> set (sc_matched c)" by blast
    obtain ind where "ind \<in> set (sp_indicators p)" "correlate_indicator es ind = Inr c"
      using list_all2_memD2 [OF all c(1)] by blast
    then show ?r using c(2) sc_matched_iff(1) by blast
  next
    assume ?r
    then obtain ind keys where i: "ind \<in> set (sp_indicators p)" "match_keys ind = Inr keys" "k \<in> set keys"
      and k: "k \<in> set (net_ips es) \<or> k \<in> set (net_domains es)" by blast
    obtain c where "c \<in> set cs" "correlate_indicator es ind = Inr c"
      using list_all2_memD1 [OF all i(1)] by blast
    then show ?l using i k sc_matched_iff(1) by blast
  qed
  finally show ?thesis .
qed

lemma matches_static_iff:
  assumes "correlate_static_prior p es = Inr cs" and e: "e \<in> set es"
  shows "matches_static (matched_dst cs) e \<longleftrightarrow> (\<exists>ind \<in> set (sp_indicators p). names ind e)"
proof
  assume "matches_static (matched_dst cs) e"
  then consider (ip) "ne_dst_ip e \<in> matched_dst cs" | (dm) "truthy (ne_domain e)" "lower_opt (ne_domain e) \<in> matched_dst cs"
    by (auto simp: matches_static_def lower_opt_truthy)
  then show "\<exists>ind \<in> set (sp_indicators p). names ind e"
  proof cases
    case ip
    then have "ne_dst_ip e \<in> set (net_ips es) \<or> ne_dst_ip e \<in> set (net_domains es)"
      using matched_dst_iff [OF assms(1)] by blast
    moreover have "[] \<notin> set (net_domains es)" using lower_opt_truthy by (force simp: net_domains_def)
    ultimately have "ne_dst_ip e \<noteq> []" by (auto simp: net_ips_def)
    then show ?thesis using ip by (auto simp: matched_dst_iff [OF assms(1)] names_iff)
  qed (auto simp: matched_dst_iff [OF assms(1)] names_iff)
next
  assume "\<exists>ind \<in> set (sp_indicators p). names ind e"
  then show "matches_static (matched_dst cs) e"
    using e by (force simp: matched_dst_iff [OF assms(1)] names_iff matches_static_def lower_opt_truthy
        net_ips_def net_domains_def)
qed

section \<open>Property\<close>

text \<open>
  C12. The static prior: when it applies, exactly the findings that some extracted indicator
  names become confirmed with reputation and a static match, every other finding is unchanged,
  and the findings added at the end are one dormant, strong one per indicator that names no
  finding, in the order of the prior.
\<close>

theorem static_prior_exact:
  assumes "apply_static_prior stamp prior es = Inr out"
  shows "out = map (\<lambda>e. if \<exists>ind \<in> set (sp_indicators prior). names ind e
                        then e\<lparr>ne_tier := Some Confirmed, ne_reputation_hit := True,
                               ne_static_match := Some (''matches static-extracted C2'' @ family_tag prior)\<rparr>
                        else e) es
           @ map (dormant_event (family_tag prior) stamp)
               (filter (\<lambda>ind. \<not> (\<exists>e \<in> set es. names ind e)) (sp_indicators prior))"
proof -
  from assms obtain cs where cs: "correlate_static_prior prior es = Inr cs"
    and out: "out = map (promote (family_tag prior) (matched_dst cs)) es
            @ map (\<lambda>c. dormant_event (family_tag prior) stamp (sc_indicator c))
                (filter (\<lambda>c. \<not> sc_observed c) cs)"
    by (auto simp: apply_static_prior_def bind_res_Inr_iff)
  have "list_all2 (\<lambda>ind c. sc_indicator c = ind \<and> (sc_observed c \<longleftrightarrow> (\<exists>e \<in> set es. names ind e)))
      (sp_indicators prior) cs"
    using correlate_static_prior_all2 [OF cs]
    by (rule list_all2_mono) (simp add: sc_matched_iff(2) sc_observed_iff)
  then have "map (\<lambda>c. dormant_event (family_tag prior) stamp (sc_indicator c)) (filter (\<lambda>c. \<not> sc_observed c) cs)
      = map (dormant_event (family_tag prior) stamp)
          (filter (\<lambda>ind. \<not> (\<exists>e \<in> set es. names ind e)) (sp_indicators prior))"
    by (induction rule: list_all2_induct) auto
  then show ?thesis
    unfolding out by (simp add: promote_def matches_static_iff [OF cs] cong: map_cong)
qed


definition sample_prior :: static_prior where
  "sample_prior = \<lparr>sp_sample = JNull, sp_family = JStr ''redline'', sp_capabilities = [],
     sp_indicators = [\<lparr>in_type = ''ip'', in_value = ''203.0.113.9''\<rparr>]\<rparr>"

lemma static_prior_witness:
  "case apply_static_prior ''2026-02-03T16:00:00+00:00'' sample_prior
     [blank_event ''beacon'' ''203.0.113.9'' 443 ''2026-02-03T16:00:05Z'' (1 / 2) False] of
     Inl _ \<Rightarrow> False | Inr out \<Rightarrow> map ne_tier out = [Some Confirmed]"
proof -
  let ?e = "blank_event ''beacon'' ''203.0.113.9'' 443 ''2026-02-03T16:00:05Z'' (1 / 2) False"
  have "case apply_static_prior ''2026-02-03T16:00:00+00:00'' sample_prior [?e] of Inl _ \<Rightarrow> False | Inr _ \<Rightarrow> True"
    by code_simp
  then obtain out where out: "apply_static_prior ''2026-02-03T16:00:00+00:00'' sample_prior [?e] = Inr out"
    by (auto split: sum.splits)
  have n: "names \<lparr>in_type = ''ip'', in_value = ''203.0.113.9''\<rparr> ?e" by code_simp
  show ?thesis unfolding out sum.case using static_prior_exact [OF out] n by (simp add: sample_prior_def)
qed

end
