(* ===== verification/Intel.thy ===== *)
theory Intel
  imports PyUrl
begin

text \<open>
  Threat intelligence: the local indicator table with its feed importers
  (\<open>pipeline/feed_import.py\<close>) and the attribution of destinations against it
  (\<open>pipeline/attribution.py\<close>). The table is the \<open>bad_indicators\<close> relation keyed by value; an
  absent database file is the empty table. The GeoLite2 reader is the parameter \<open>geo\<close>, giving
  country, ASN and organisation.
\<close>

section \<open>The indicator table\<close>

record intel_row =
  ti_source :: "string option"
  ti_note :: "string option"
  ti_type :: string
  ti_seen :: "string option"

type_synonym intel_db = "(string, intel_row) dict"

definition some_str :: "string option \<Rightarrow> bool" where
  "some_str s \<longleftrightarrow> s \<noteq> None \<and> s \<noteq> Some []"

definition seed_row :: "string \<Rightarrow> string \<Rightarrow> intel_row" where
  "seed_row source note = \<lparr>ti_source = Some source, ti_note = Some note, ti_type = ''ip'', ti_seen = None\<rparr>"

definition seeds :: "(string \<times> intel_row) list" where
  "seeds =
     [(''188.190.10.10'', seed_row ''abuse.ch/FeodoTracker'' ''Redline Stealer C2 (reference sample)''),
      (''91.92.240.190'', seed_row ''abuse.ch/URLhaus'' ''StealC-V2 C2 (reference sample)''),
      (''153.92.1.49'', seed_row ''abuse.ch/FeodoTracker'' ''Lumma Stealer C2 (2026-01-31 exercise)'')]"

text \<open>\<open>INSERT OR IGNORE\<close> keeps a present row, \<open>INSERT OR REPLACE\<close> overwrites it.\<close>

definition init_threatintel_db :: "bool \<Rightarrow> intel_db \<Rightarrow> intel_db" where
  "init_threatintel_db seed db =
     (if seed then foldl (\<lambda>d (v, r). dict_setdefault v r d) db seeds else db)"

definition insert_or_replace :: "intel_db \<Rightarrow> string \<times> intel_row \<Rightarrow> intel_db" where
  "insert_or_replace db p = dict_set (fst p) (snd p) db"

section \<open>Lookups\<close>

definition reputation_lookup :: "intel_db \<Rightarrow> string \<Rightarrow> (string option \<times> string option) option" where
  "reputation_lookup db v = map_option (\<lambda>r. (ti_source r, ti_note r)) (map_of db v)"

record attribution =
  at_ip :: string
  at_geo_country :: "string option"
  at_asn :: "string option"
  at_asn_org :: "string option"
  at_hit :: bool
  at_source :: "string option"
  at_note :: "string option"

type_synonym geo_reader = "string \<Rightarrow> string option \<times> string option \<times> string option"

text \<open>One round of the fingerprint loop: skipped after a hit and for an absent fingerprint.\<close>

definition fingerprint_step ::
    "intel_db \<Rightarrow> bool \<times> string option \<times> string option \<Rightarrow> string \<times> string option
       \<Rightarrow> bool \<times> string option \<times> string option" where
  "fingerprint_step db st lf =
     (let (hit, source, note) = st; (label, fp) = lf in
      if hit \<or> \<not> some_str fp then st
      else case reputation_lookup db (the fp) of
             None \<Rightarrow> st
           | Some (fs, fn) \<Rightarrow>
               (True,
                if some_str fs then fs else Some (''known_bad_'' @ str_lower label),
                Some (if some_str fn then label @ '' match: '' @ the fn
                      else ''known-bad '' @ label @ '' fingerprint'')))"

definition attribute :: "geo_reader \<Rightarrow> intel_db \<Rightarrow> string \<Rightarrow> string option \<Rightarrow> string option \<Rightarrow> attribution" where
  "attribute geo db ip ja3 ja4 =
     (let (country, asn, org) = geo ip;
          st0 = (case reputation_lookup db ip of None \<Rightarrow> (False, None, None) | Some (s, n) \<Rightarrow> (True, s, n));
          (hit, source, note) = foldl (fingerprint_step db) st0 [(''JA3'', ja3), (''JA4'', ja4)]
      in \<lparr>at_ip = ip, at_geo_country = country, at_asn = asn, at_asn_org = org,
          at_hit = hit, at_source = source, at_note = note\<rparr>)"

definition registered_domain :: "string \<Rightarrow> string" where
  "registered_domain domain =
     (let labels = split_on (CHR ''.'') (rstrip_char (CHR ''.'') (str_lower domain)) in
      if 2 \<le> length labels then join ''.'' (drop (length labels - 2) labels)
      else str_lower domain)"

fun first_lookup :: "intel_db \<Rightarrow> string list \<Rightarrow> (string option \<times> string option) option" where
  "first_lookup db [] = None"
| "first_lookup db (c # cs) =
     (case reputation_lookup db c of Some r \<Rightarrow> Some r | None \<Rightarrow> first_lookup db cs)"

definition domain_reputation :: "intel_db \<Rightarrow> string \<Rightarrow> (string option \<times> string option) option" where
  "domain_reputation db domain =
     (if domain = [] then None
      else first_lookup db [rstrip_char (CHR ''.'') (str_lower domain), registered_domain domain])"

section \<open>Feed import\<close>

text \<open>
  A feed file is the list of its lines. \<open>clean\<close> is \<open>.strip().strip('"')\<close>.
\<close>

definition clean :: "string \<Rightarrow> string" where
  "clean s = (let q = char_of (34 :: nat) in rstrip_char q (dropWhile (\<lambda>c. c = q) (strip s)))"

definition data_line :: "string \<Rightarrow> string option" where
  "data_line line = (let l = strip line in if l = [] \<or> starts_with l ''#'' then None else Some l)"

definition feodo_row :: "string \<Rightarrow> (string \<times> intel_row) option" where
  "feodo_row line =
     Option.bind (data_line line) (\<lambda>l.
       let parts = split_on (CHR '','') l in
       if length parts < 6 then None
       else Some (clean (parts ! 1),
              \<lparr>ti_source = Some ''abuse.ch/FeodoTracker'',
               ti_note = Some (clean (parts ! 5) @ '' C2 (port '' @ clean (parts ! 2) @ '')''),
               ti_type = ''ip'', ti_seen = Some (clean (parts ! 0))\<rparr>))"

definition import_feodo :: "string list \<Rightarrow> intel_db \<Rightarrow> intel_db \<times> nat" where
  "import_feodo lines db =
     (let rows = List.map_filter feodo_row lines in (foldl insert_or_replace db rows, length rows))"

text \<open>A URL whose host cannot be read raises out of the importer.\<close>

definition urlhaus_row :: "string \<Rightarrow> (string \<times> intel_row) option res" where
  "urlhaus_row line =
     (case data_line line of
        None \<Rightarrow> Inr None
      | Some l \<Rightarrow>
          let parts = split_on (CHR '','') l in
          if length parts < 7 then Inr None
          else let url = clean (parts ! 2); threat = clean (parts ! 5); tags = clean (parts ! 6) in
            bind_res (url_hostname url) (\<lambda>h.
              Inr (Some (if h = [] then url else h,
                \<lparr>ti_source = Some ''abuse.ch/URLhaus'',
                 ti_note = Some (if tags = [] then threat else threat @ '' ('' @ tags @ '')''),
                 ti_type = ''domain'', ti_seen = Some (clean (parts ! 1))\<rparr>))))"

text \<open>
  The rows are committed together at the end: when a line raises, none of them reaches the table.
\<close>

definition import_urlhaus :: "string list \<Rightarrow> intel_db \<Rightarrow> intel_db \<times> nat res" where
  "import_urlhaus lines db =
     (case map_res urlhaus_row lines of
        Inl e \<Rightarrow> (db, Inl e)
      | Inr rows \<Rightarrow>
          let rs = List.map_filter id rows in (foldl insert_or_replace db rs, Inr (length rs)))"

definition list_row :: "string \<Rightarrow> string \<Rightarrow> string \<Rightarrow> (string \<times> intel_row) option" where
  "list_row kind source line =
     Option.bind (data_line line) (\<lambda>l.
       let v = str_lower (clean (before_char (CHR '','') l)) in
       if v = [] then None
       else Some (v, \<lparr>ti_source = Some source, ti_note = Some (kind @ '' blocklist''),
                      ti_type = kind, ti_seen = None\<rparr>))"

definition import_indicator_list :: "string \<Rightarrow> string \<Rightarrow> string list \<Rightarrow> intel_db \<Rightarrow> intel_db \<times> nat" where
  "import_indicator_list kind source lines db =
     (let rows = List.map_filter (list_row kind source) lines in
      (foldl insert_or_replace db rows, length rows))"

definition known_bad_row :: "string \<Rightarrow> string \<Rightarrow> string \<times> string \<Rightarrow> string \<times> intel_row" where
  "known_bad_row source kind p =
     (fst p, \<lparr>ti_source = Some source, ti_note = Some (snd p), ti_type = kind, ti_seen = None\<rparr>)"

text \<open>The hardcoded fingerprint tables are arguments: \<open>KNOWN_BAD_JA3\<close> and \<open>KNOWN_BAD_JA4\<close>.\<close>

definition import_known_bad :: "string \<Rightarrow> string \<Rightarrow> (string \<times> string) list \<Rightarrow> intel_db \<Rightarrow> intel_db \<times> nat" where
  "import_known_bad source kind table db =
     (foldl insert_or_replace db (map (known_bad_row source kind) table), length table)"

definition db_stats :: "intel_db \<Rightarrow> (string, nat) dict" where
  "db_stats db =
     foldl (\<lambda>d (v, r). let t = (if ti_type r = [] then ''ip'' else ti_type r) in
              dict_set t (Suc (case map_of d t of None \<Rightarrow> 0 | Some n \<Rightarrow> n)) d) [] db"

section \<open>Lemmas\<close>

lemma foldl_insert_lookup:
  "map_of (foldl insert_or_replace db rows) v = (case map_of (rev rows) v of Some r \<Rightarrow> Some r | None \<Rightarrow> map_of db v)"
  by (induction rows arbitrary: db) (auto simp: insert_or_replace_def map_add_def split: option.splits)

lemma foldl_insert_dom:
  "dom (map_of (foldl insert_or_replace db rows)) = fst ` set rows \<union> dom (map_of db)"
  by (induction rows arbitrary: db) (auto simp: insert_or_replace_def)

lemma reputation_lookup_iff: "(\<exists>r. reputation_lookup db v = Some r) \<longleftrightarrow> v \<in> dom (map_of db)"
  by (auto simp: reputation_lookup_def)

lemma first_lookup_iff: "(\<exists>r. first_lookup db cs = Some r) \<longleftrightarrow> (\<exists>c \<in> set cs. c \<in> dom (map_of db))"
  by (induction cs) (auto simp: reputation_lookup_def split: option.splits)

lemma fingerprint_step_hit:
  "fst (fingerprint_step db st (label, fp)) \<longleftrightarrow>
     fst st \<or> (some_str fp \<and> the fp \<in> dom (map_of db))"
  by (cases st) (auto simp: fingerprint_step_def reputation_lookup_def Let_def split: option.splits)

lemma fingerprint_step_keep: "fst st \<Longrightarrow> fingerprint_step db st lf = st"
  by (cases st; cases lf) (simp add: fingerprint_step_def)

lemma attribute_hit:
  "at_hit (attribute geo db ip ja3 ja4) \<longleftrightarrow>
     ip \<in> dom (map_of db) \<or> (\<exists>fp \<in> {ja3, ja4}. some_str fp \<and> the fp \<in> dom (map_of db))"
proof -
  let ?st0 = "(case reputation_lookup db ip of None \<Rightarrow> (False, None, None) | Some (s, n) \<Rightarrow> (True, s, n))"
  have "at_hit (attribute geo db ip ja3 ja4)
      = fst (foldl (fingerprint_step db) ?st0 [(''JA3'', ja3), (''JA4'', ja4)])"
    by (simp add: attribute_def Let_def split: prod.splits)
  moreover have "fst ?st0 \<longleftrightarrow> ip \<in> dom (map_of db)"
    by (auto simp: reputation_lookup_def split: option.splits)
  ultimately show ?thesis by (auto simp: fingerprint_step_hit)
qed

lemma attribute_ip_first:
  assumes "map_of db ip = Some r"
  shows "at_source (attribute geo db ip ja3 ja4) = ti_source r \<and> at_note (attribute geo db ip ja3 ja4) = ti_note r"
  using assms
  by (simp add: attribute_def reputation_lookup_def fingerprint_step_keep Let_def split: prod.splits)

lemma split_on_sep: "split_on c (s @ c # t) = split_on c s @ split_on c t"
  by (induction c s rule: split_on.induct) (auto split: list.splits)

lemma str_lower_set: "str_lower s = s \<Longrightarrow> c \<in> set s \<Longrightarrow> lower_char c = c"
  unfolding str_lower_def by (induction s) auto

lemma rstrip_char_no: "s \<noteq> [] \<Longrightarrow> last s \<noteq> c \<Longrightarrow> rstrip_char c s = s"
  by (cases s rule: rev_cases) (simp_all add: rstrip_char_def)

lemma dropWhile_none: "\<forall>c \<in> set s. \<not> P c \<Longrightarrow> dropWhile P s = s"
  by (cases s) auto

lemma strip_no_space: "\<forall>c \<in> set s. \<not> is_space c \<Longrightarrow> strip s = s"
  by (simp add: strip_def dropWhile_none)

text \<open>A name \<open>a.b\<close> on a line of its own is imported as it stands.\<close>

definition plain_name :: "string \<Rightarrow> bool" where
  "plain_name d \<longleftrightarrow> d \<noteq> [] \<and> str_lower d = d \<and> \<not> starts_with d ''#''
     \<and> (\<forall>c \<in> set d. \<not> is_space c \<and> c \<noteq> CHR '','' \<and> c \<noteq> char_of (34 :: nat))"

lemma clean_plain: "plain_name d \<Longrightarrow> clean d = d"
proof -
  assume d: "plain_name d"
  have "dropWhile (\<lambda>c. c = char_of (34 :: nat)) d = d"
    using d unfolding plain_name_def by (intro dropWhile_none) blast
  moreover have "rstrip_char (char_of (34 :: nat)) d = d"
    using d last_in_set [of d] unfolding plain_name_def by (intro rstrip_char_no) blast+
  moreover have "strip d = d" using d unfolding plain_name_def by (intro strip_no_space) blast
  ultimately show ?thesis unfolding clean_def Let_def by (simp only:)
qed

lemma list_row_plain:
  assumes "plain_name d"
  shows "list_row kind source d = Some (d, \<lparr>ti_source = Some source, ti_note = Some (kind @ '' blocklist''),
     ti_type = kind, ti_seen = None\<rparr>)"
proof -
  have "strip d = d" using assms by (intro strip_no_space) (simp add: plain_name_def)
  then have "data_line d = Some d" using assms by (simp add: data_line_def plain_name_def)
  moreover have "before_char (CHR '','') d = d"
    using assms by (auto simp: before_char_def plain_name_def takeWhile_eq_all_conv)
  ultimately show ?thesis
    using assms by (simp add: list_row_def clean_plain) (simp add: plain_name_def)
qed

lemma domain_reputation_iff:
  "(\<exists>r. domain_reputation db h = Some r) \<longleftrightarrow>
     h \<noteq> [] \<and> (rstrip_char (CHR ''.'') (str_lower h) \<in> dom (map_of db) \<or> registered_domain h \<in> dom (map_of db))"
  using first_lookup_iff [of db "[rstrip_char (CHR ''.'') (str_lower h), registered_domain h]"]
  unfolding domain_reputation_def by (cases "h = []") (simp_all del: first_lookup.simps)

lemma registered_domain_suffix:
  assumes "str_lower h = sub @ CHR ''.'' # a @ CHR ''.'' # b" "CHR ''.'' \<notin> set a" "CHR ''.'' \<notin> set b" "b \<noteq> []"
  shows "registered_domain h = a @ CHR ''.'' # b"
proof -
  have "last (str_lower h) \<in> set b" using assms(1,4) by simp
  then have "last (str_lower h) \<noteq> CHR ''.''" using assms(3) by metis
  then have "rstrip_char (CHR ''.'') (str_lower h) = str_lower h"
    using assms by (intro rstrip_char_no) auto
  moreover have "split_on (CHR ''.'') (str_lower h) = split_on (CHR ''.'') sub @ [a, b]"
    using assms by (simp add: split_on_sep split_on_simple)
  ultimately show ?thesis by (simp add: registered_domain_def)
qed

section \<open>Properties\<close>

text \<open>
  Attribution: a destination is known bad exactly when its address or one of its non-empty
  TLS fingerprints is in the indicator table, and an address hit decides source and note
  whatever the fingerprints are.
\<close>

theorem attribute_exact:
  "(at_hit (attribute geo db ip ja3 ja4) \<longleftrightarrow>
      ip \<in> dom (map_of db) \<or> some_str ja3 \<and> the ja3 \<in> dom (map_of db)
      \<or> some_str ja4 \<and> the ja4 \<in> dom (map_of db))
   \<and> (case map_of db ip of None \<Rightarrow> True
      | Some r \<Rightarrow> at_source (attribute geo db ip ja3 ja4) = ti_source r
               \<and> at_note (attribute geo db ip ja3 ja4) = ti_note r)"
  using attribute_ip_first by (auto simp: attribute_hit domIff split: option.splits)

text \<open>
  Importing a domain list promotes every host under a listed domain: after the import of a
  list with the line \<open>a.b\<close>, the domain itself and every sub-domain of it, in any letter case,
  has a reputation, whatever else the table and the list hold.
\<close>

theorem imported_domain_covers_subdomains:
  assumes "plain_name (a @ CHR ''.'' # b)" "CHR ''.'' \<notin> set a" "CHR ''.'' \<notin> set b" "b \<noteq> []"
    and "a @ CHR ''.'' # b \<in> set lines"
    and "str_lower h = a @ CHR ''.'' # b \<or> (\<exists>sub. str_lower h = sub @ CHR ''.'' # a @ CHR ''.'' # b)"
  shows "\<exists>r. domain_reputation (fst (import_indicator_list kind source lines db)) h = Some r"
proof -
  let ?d = "a @ CHR ''.'' # b"
  have "?d \<in> fst ` set (List.map_filter (list_row kind source) lines)"
    using assms(5) list_row_plain [OF assms(1), of kind source]
    by (force simp: List.map_filter_def)
  then have "?d \<in> dom (map_of (fst (import_indicator_list kind source lines db)))"
    by (simp add: import_indicator_list_def Let_def foldl_insert_dom)
  moreover have "h \<noteq> []" using assms(6) by (cases h) (auto simp: str_lower_def)
  moreover have "rstrip_char (CHR ''.'') (str_lower h) = ?d \<or> registered_domain h = ?d"
  proof (cases "str_lower h = ?d")
    case True
    then have "rstrip_char (CHR ''.'') (str_lower h) = str_lower h"
      using assms(3,4) by (intro rstrip_char_no) (auto dest: last_in_set)
    then show ?thesis using True by simp
  next
    case False
    then show ?thesis using registered_domain_suffix assms(2-4,6) by blast
  qed
  ultimately show ?thesis unfolding domain_reputation_iff by metis
qed

text \<open>
  No import ever removes an indicator, and the URLhaus import is all or nothing: it raises
  exactly when some line has a URL with a malformed bracketed host, and then the table is
  unchanged, the well-formed lines of the feed being lost as well.
\<close>

theorem imports_only_add:
  "dom (map_of db) \<subseteq> dom (map_of (fst (import_feodo lines db)))
   \<and> dom (map_of db) \<subseteq> dom (map_of (fst (import_urlhaus lines db)))
   \<and> dom (map_of db) \<subseteq> dom (map_of (fst (import_indicator_list kind source lines db)))
   \<and> ((\<exists>e. snd (import_urlhaus lines db) = Inl e)
        \<longleftrightarrow> (\<exists>l e. l \<in> set lines \<and> urlhaus_row l = Inl e))
   \<and> ((\<exists>e. snd (import_urlhaus lines db) = Inl e) \<longrightarrow> fst (import_urlhaus lines db) = db)"
proof -
  have raises: "(\<exists>e. map_res urlhaus_row lines = Inl e) \<longleftrightarrow> (\<exists>l e. l \<in> set lines \<and> urlhaus_row l = Inl e)"
  proof (induction lines)
    case (Cons l lines)
    then show ?case
      by (cases "urlhaus_row l"; cases "map_res urlhaus_row lines") (force)+
  qed simp
  have "(\<exists>e. snd (import_urlhaus lines db) = Inl e) \<longleftrightarrow> (\<exists>e. map_res urlhaus_row lines = Inl e)"
    by (simp add: import_urlhaus_def Let_def split: sum.splits)
  then show ?thesis
    unfolding raises
    by (auto simp: import_feodo_def import_urlhaus_def import_indicator_list_def Let_def
        foldl_insert_dom split: sum.splits)
qed

lemma imports_only_add_witness:
  "fst (import_urlhaus [''1,d,http://[x,on,l,t,g'', ''2,d,http://a.b/c,on,l,t,g''] []) = []"
proof -
  have "\<exists>e. snd (import_urlhaus [''1,d,http://[x,on,l,t,g'', ''2,d,http://a.b/c,on,l,t,g''] []) = Inl e"
    by (intro exI [of _ "ValueError ''Invalid IPv6 URL''"]) code_simp
  then show ?thesis
    using imports_only_add [of "[]" "[''1,d,http://[x,on,l,t,g'', ''2,d,http://a.b/c,on,l,t,g'']"] by blast
qed

lemma imported_domain_covers_subdomains_witness:
  "\<exists>r. domain_reputation (fst (import_indicator_list ''domain'' ''custom'' [''# feed'', ''evil.example''] []))
     ''Sub.EVIL.example'' = Some r"
proof -
  have plain: "plain_name (''evil'' @ CHR ''.'' # ''example'')" by code_simp
  have "str_lower ''Sub.EVIL.example'' = ''sub'' @ CHR ''.'' # ''evil'' @ CHR ''.'' # ''example''"
    by code_simp
  then show ?thesis
    using imported_domain_covers_subdomains [OF plain, of "[''# feed'', ''evil.example'']" "''Sub.EVIL.example''"
        "''domain''" "''custom''" "[]"]
    by auto
qed

end
