(* ===== verification/Dns.thy ===== *)
theory Dns
  imports PyVal Bundle
begin

text \<open>
  DNS tunnelling, DGA and DoH detection (\<open>pipeline/dns_analysis.py\<close>). \<open>math.log2\<close> is the
  parameter \<open>log2\<close>; the learned classifier of \<open>detect_dga_ml\<close> is the parameter \<open>model\<close>: \<open>None\<close>
  when no model file is present, otherwise a scoring function giving the probability and the
  names of the leading features.
\<close>

section \<open>Features of a name\<close>

definition count_step :: "('a, int) dict \<Rightarrow> 'a \<Rightarrow> ('a, int) dict" where
  "count_step d x = dict_set x ((case map_of d x of Some n \<Rightarrow> n | None \<Rightarrow> 0) + 1) d"

definition counter :: "'a list \<Rightarrow> ('a, int) dict" where
  "counter xs = foldl count_step [] xs"

definition float_sum :: "pyfloat list \<Rightarrow> pyfloat" where
  "float_sum xs = foldl fadd 0 xs"

definition entropy :: "(pyfloat \<Rightarrow> pyfloat) \<Rightarrow> string \<Rightarrow> pyfloat" where
  "entropy log2 s =
     (if s = [] then 0
      else let n = int (length s) in
        - float_sum (map (\<lambda>c. fmul (idiv c n) (log2 (idiv c n))) (dict_values (counter s))))"

definition dns_registered_domain :: "string \<Rightarrow> string" where
  "dns_registered_domain q =
     (let labels = split_on (CHR ''.'') q in
      if 2 \<le> length labels then join ''.'' (drop (length labels - 2) labels) else q)"

definition dns_subdomain :: "string \<Rightarrow> string" where
  "dns_subdomain q =
     (let labels = split_on (CHR ''.'') q in
      if 2 < length labels then join ''.'' (take (length labels - 2) labels) else [])"

definition most_common :: "nat \<Rightarrow> ('a, int) dict \<Rightarrow> 'a list" where
  "most_common k d = map fst (take k (sort_key (\<lambda>p. - snd p) d))"

record dns_finding =
  df_kind :: string
  df_domain :: string
  df_query_count :: int
  df_avg_entropy :: pyfloat
  df_avg_sub_len :: pyfloat
  df_tunnel_rt :: pyfloat
  df_unique :: pyfloat
  df_nxdomain :: pyfloat
  df_confidence :: pyfloat
  df_resolvers :: "string list"
  df_evidence :: string

section \<open>Tunnelling\<close>

text \<open>The per-domain accumulator; the set of sub-domains is kept as a list of its members.\<close>

record dns_stats =
  ds_n :: int
  ds_ent :: "pyfloat list"
  ds_len :: "int list"
  ds_rt :: "(string, int) dict"
  ds_uniq :: "string list"
  ds_nx :: int
  ds_resolvers :: "(string, int) dict"

definition no_stats :: dns_stats where
  "no_stats = \<lparr>ds_n = 0, ds_ent = [], ds_len = [], ds_rt = [], ds_uniq = [], ds_nx = 0, ds_resolvers = []\<rparr>"

definition stats_add :: "(pyfloat \<Rightarrow> pyfloat) \<Rightarrow> dns_tx \<Rightarrow> dns_stats \<Rightarrow> dns_stats" where
  "stats_add log2 q d =
     (let sub = dns_subdomain (dn_query q) in
      d\<lparr>ds_n := ds_n d + 1,
        ds_rt := count_step (ds_rt d) (str_upper (case dn_qtype q of Some t \<Rightarrow> t | None \<Rightarrow> [])),
        ds_resolvers := (if dn_dst_ip q \<noteq> [] then count_step (ds_resolvers d) (dn_dst_ip q) else ds_resolvers d),
        ds_nx := (if dn_rcode q = Some ''NXDOMAIN'' then ds_nx d + 1 else ds_nx d),
        ds_uniq := (if sub \<noteq> [] then List.insert sub (ds_uniq d) else ds_uniq d),
        ds_ent := (if sub \<noteq> [] then ds_ent d @ [entropy log2 sub] else ds_ent d),
        ds_len := (if sub \<noteq> [] then ds_len d @ [int (length sub)] else ds_len d)\<rparr>)"

definition per_step :: "(pyfloat \<Rightarrow> pyfloat) \<Rightarrow> (string, dns_stats) dict \<Rightarrow> dns_tx \<Rightarrow> (string, dns_stats) dict" where
  "per_step log2 per q =
     (let dom = dns_registered_domain (dn_query q) in
      dict_set dom (stats_add log2 q (case map_of per dom of Some d \<Rightarrow> d | None \<Rightarrow> no_stats)) per)"

definition per_domain :: "(pyfloat \<Rightarrow> pyfloat) \<Rightarrow> dns_tx list \<Rightarrow> (string, dns_stats) dict" where
  "per_domain log2 dns = foldl (per_step log2) [] dns"

definition tunnel_record_types :: "string list" where
  "tunnel_record_types = [''TXT'', ''NULL'', ''CNAME'', ''MX'']"

definition avg_ent :: "dns_stats \<Rightarrow> pyfloat" where
  "avg_ent d = fdiv (float_sum (ds_ent d)) (of_int (int (length (ds_ent d))))"

definition avg_len :: "dns_stats \<Rightarrow> pyfloat" where
  "avg_len d = idiv (sum_list (ds_len d)) (int (length (ds_len d)))"

definition tunnel_fraction :: "dns_stats \<Rightarrow> pyfloat" where
  "tunnel_fraction d =
     idiv (sum_list (map (\<lambda>t. case map_of (ds_rt d) t of Some n \<Rightarrow> n | None \<Rightarrow> 0) tunnel_record_types)) (ds_n d)"

definition uniq_ratio :: "dns_stats \<Rightarrow> pyfloat" where
  "uniq_ratio d = idiv (int (length (ds_uniq d))) (ds_n d)"

text \<open>The four signals with their weight and reason.\<close>

definition tunnel_signals :: "dns_stats \<Rightarrow> (nat \<times> string) list" where
  "tunnel_signals d =
     (if rnd (32 / 10) \<le> avg_ent d then [(1, ''entropy='' @ fixed_str 2 (avg_ent d))] else [])
     @ (if 20 \<le> avg_len d then [(1, ''sublen='' @ fixed_str 0 (avg_len d))] else [])
     @ (if 1 / 2 \<le> tunnel_fraction d then [(2, ''tunnelRT='' @ fixed_str 2 (tunnel_fraction d))] else [])
     @ (if 50 \<le> ds_n d \<and> 1 / 2 \<le> uniq_ratio d
        then [(1, ''vol='' @ int_str (ds_n d) @ ''/uniq='' @ fixed_str 2 (uniq_ratio d))] else [])"

definition tunnel_score :: "dns_stats \<Rightarrow> nat" where
  "tunnel_score d = sum_list (map fst (tunnel_signals d))"

definition tunnel_confidence :: "nat \<Rightarrow> pyfloat" where
  "tunnel_confidence score = min 1 (fadd (1 / 2) (fmul (rnd (15 / 100)) (of_nat score)))"

definition tunnel_finding :: "int \<Rightarrow> string \<times> dns_stats \<Rightarrow> dns_finding option" where
  "tunnel_finding min_queries p =
     (let (dom, d) = p in
      if ds_n d < min_queries \<or> ds_ent d = [] then None
      else if tunnel_score d < 3 then None
      else Some \<lparr>df_kind = ''dns_tunnel'', df_domain = dom, df_query_count = ds_n d,
             df_avg_entropy = pyround 2 (avg_ent d), df_avg_sub_len = pyround 1 (avg_len d),
             df_tunnel_rt = pyround 2 (tunnel_fraction d), df_unique = pyround 2 (uniq_ratio d),
             df_nxdomain = pyround 2 (idiv (ds_nx d) (ds_n d)),
             df_confidence = pyround 2 (tunnel_confidence (tunnel_score d)),
             df_resolvers = most_common 3 (ds_resolvers d),
             df_evidence = join ''; '' (map snd (tunnel_signals d))\<rparr>)"

definition detect_dns_tunneling :: "(pyfloat \<Rightarrow> pyfloat) \<Rightarrow> dns_tx list \<Rightarrow> int \<Rightarrow> dns_finding list" where
  "detect_dns_tunneling log2 dns min_queries =
     List.map_filter (tunnel_finding min_queries) (per_domain log2 dns)"

section \<open>Algorithmic domains\<close>

definition dga_step :: "(string, int \<times> int) dict \<Rightarrow> dns_tx \<Rightarrow> (string, int \<times> int) dict" where
  "dga_step d q =
     (let dom = dns_registered_domain (dn_query q);
          (n, nx) = (case map_of d dom of Some p \<Rightarrow> p | None \<Rightarrow> (0, 0))
      in dict_set dom (n + 1, if dn_rcode q = Some ''NXDOMAIN'' then nx + 1 else nx) d)"

definition detect_dga :: "(pyfloat \<Rightarrow> pyfloat) \<Rightarrow> dns_tx list \<Rightarrow> nat \<Rightarrow> pyfloat \<Rightarrow> dns_finding list" where
  "detect_dga log2 dns min_queries min_nx_ratio =
     (let doms = foldl dga_step [] dns;
          nx_domains = map fst (filter (\<lambda>(d, n, nx). 0 < nx) doms)
      in if length nx_domains < min_queries \<or> nx_domains = [] then []
         else let ents = map (\<lambda>d. entropy log2 (hd (split_on (CHR ''.'') d))) nx_domains;
                  avg = fdiv (float_sum ents) (of_int (int (length ents)));
                  total = sum_list (map (\<lambda>(d, n, nx). n) doms);
                  nx = sum_list (map (\<lambda>(d, n, nx). nx) doms);
                  ratio = (if total \<noteq> 0 then idiv nx total else 0);
                  count = nat_str (length nx_domains)
              in if rnd (32 / 10) \<le> avg \<and> min_nx_ratio \<le> ratio
                 then [\<lparr>df_kind = ''dga'', df_domain = ''<'' @ count @ '' algorithmic domains>'',
                        df_query_count = total, df_avg_entropy = pyround 2 avg, df_avg_sub_len = 0,
                        df_tunnel_rt = 0, df_unique = 1, df_nxdomain = pyround 2 ratio,
                        df_confidence = rnd (7 / 10), df_resolvers = [],
                        df_evidence = count @ '' high-entropy NXDOMAIN domains''\<rparr>]
                 else [])"

type_synonym dga_model = "(string \<Rightarrow> pyfloat \<times> string list) option"

definition ml_step :: "(string, int \<times> (string, int) dict) dict \<Rightarrow> dns_tx \<Rightarrow> (string, int \<times> (string, int) dict) dict" where
  "ml_step per q =
     (let dom = dns_registered_domain (dn_query q);
          (n, rs) = (case map_of per dom of Some p \<Rightarrow> p | None \<Rightarrow> (0, []))
      in dict_set dom (n + 1, if dn_dst_ip q \<noteq> [] then count_step rs (dn_dst_ip q) else rs) per)"

definition ml_finding ::
    "(string \<Rightarrow> pyfloat \<times> string list) \<Rightarrow> pyfloat \<Rightarrow> string set \<Rightarrow> string \<times> int \<times> (string, int) dict \<Rightarrow> dns_finding option" where
  "ml_finding score min_prob already p =
     (let (dom, n, rs) = p; sld = hd (split_on (CHR ''.'') dom); (prob, top) = score sld in
      if dom \<in> already then None
      else if length sld < 8 then None
      else if prob < min_prob then None
      else Some \<lparr>df_kind = ''dga_ml'', df_domain = dom, df_query_count = n, df_avg_entropy = 0,
             df_avg_sub_len = of_nat (length sld), df_tunnel_rt = 0, df_unique = 0, df_nxdomain = 0,
             df_confidence = pyround 2 prob, df_resolvers = most_common 3 rs,
             df_evidence = ''ML DGA classifier p='' @ fixed_str 2 prob
               @ '' (dictionary-DGA morphology; drivers: '' @ join '', '' (take 4 top) @ '')''\<rparr>)"

definition detect_dga_ml :: "dga_model \<Rightarrow> dns_tx list \<Rightarrow> pyfloat \<Rightarrow> string set \<Rightarrow> dns_finding list" where
  "detect_dga_ml model dns min_prob already =
     (case model of
        None \<Rightarrow> []
      | Some score \<Rightarrow> List.map_filter (ml_finding score min_prob already) (foldl ml_step [] dns))"

section \<open>DNS over HTTPS\<close>

definition known_doh :: "string list" where
  "known_doh = [''cloudflare-dns.com'', ''mozilla.cloudflare-dns.com'', ''dns.google'',
     ''dns.google.com'', ''dns.quad9.net'', ''doh.opendns.com'', ''dns.nextdns.io'',
     ''doh.cleanbrowsing.org'', ''dns.adguard.com'']"

definition doh_hit :: "string option \<Rightarrow> string option" where
  "doh_hit s =
     (if truthy s \<and> str_lower (the s) \<in> set known_doh then Some (str_lower (the s)) else None)"

definition detect_doh :: "tls_tx list \<Rightarrow> http_tx list \<Rightarrow> string set" where
  "detect_doh tls http =
     set (List.map_filter (doh_hit \<circ> tl_server_name) tls @ List.map_filter (doh_hit \<circ> ht_host) http)"

section \<open>Lemmas\<close>

lemma per_domain_distinct:
  "distinct (dict_keys per) \<Longrightarrow> distinct (dict_keys (foldl (per_step log2) per dns))"
proof (induction dns arbitrary: per)
  case (Cons q dns)
  have "distinct (dict_keys (per_step log2 per q))"
    unfolding per_step_def Let_def by (intro distinct_dict_set Cons.prems)
  then show ?case by (simp add: Cons.IH)
qed simp

lemma stats_add_n [simp]: "ds_n (stats_add log2 q d) = ds_n d + 1"
  unfolding stats_add_def Let_def by simp

lemma per_step_count:
  "(case map_of (per_step log2 per q) dm of Some d \<Rightarrow> ds_n d | None \<Rightarrow> 0)
     = (case map_of per dm of Some d \<Rightarrow> ds_n d | None \<Rightarrow> 0)
       + (if dns_registered_domain (dn_query q) = dm then 1 else 0)"
  unfolding per_step_def Let_def by (simp add: no_stats_def split: option.splits)

lemma per_domain_count:
  "(case map_of (foldl (per_step log2) per dns) dm of Some d \<Rightarrow> ds_n d | None \<Rightarrow> 0)
     = (case map_of per dm of Some d \<Rightarrow> ds_n d | None \<Rightarrow> 0)
       + int (length (filter (\<lambda>q. dns_registered_domain (dn_query q) = dm) dns))"
proof (induction dns arbitrary: per)
  case (Cons q dns)
  show ?case
    by (simp only: foldl_Cons Cons.IH per_step_count) simp
qed simp

lemma per_domain_entry:
  assumes "(dm, d) \<in> set (per_domain log2 dns)"
  shows "ds_n d = int (length (filter (\<lambda>q. dns_registered_domain (dn_query q) = dm) dns))"
proof -
  have "map_of (per_domain log2 dns) dm = Some d"
    using assms per_domain_distinct [of "[]" log2 dns] by (simp add: per_domain_def)
  then show ?thesis using per_domain_count [of log2 "[]" dns dm] by (simp add: per_domain_def)
qed

lemma tunnel_finding_Some:
  "tunnel_finding m (dm, d) = Some f \<Longrightarrow>
     df_domain f = dm \<and> df_query_count f = ds_n d \<and> m \<le> ds_n d \<and> 3 \<le> tunnel_score d
     \<and> df_confidence f = pyround 2 (tunnel_confidence (tunnel_score d))"
  by (auto simp: tunnel_finding_def split: if_splits)

lemma tunnel_score_le: "tunnel_score d \<le> 5"
  by (simp add: tunnel_score_def tunnel_signals_def)

lemma length_tunnel_signals: "tunnel_score d \<le> length (tunnel_signals d) + 1"
  by (simp add: tunnel_score_def tunnel_signals_def)

lemma tunnel_confidence_unit: "unit_interval (tunnel_confidence s)"
  by (simp add: tunnel_confidence_def unit_interval_def fadd_def fmul_def rnd_nonneg)

text \<open>
  A score of three or more makes at least 0.95.
\<close>

lemma tunnel_confidence_3: "rnd (95 / 100) \<le> pyround 2 (tunnel_confidence 3)"
  by code_simp

lemma tunnel_confidence_ge: "3 \<le> s \<Longrightarrow> rnd (95 / 100) \<le> pyround 2 (tunnel_confidence s)"
proof -
  assume "3 \<le> s"
  then have "rnd (15 / 100) * 3 \<le> rnd (15 / 100) * of_nat s"
    by (intro mult_left_mono rnd_nonneg) simp_all
  then have "tunnel_confidence 3 \<le> tunnel_confidence s"
    unfolding tunnel_confidence_def fadd_def fmul_def
    by (intro min.mono rnd_mono add_left_mono order_refl) simp
  from pyround_mono [OF this, of 2] show ?thesis
    using tunnel_confidence_3 by simp
qed

section \<open>Property\<close>

text \<open>
  C16. DNS tunnelling is multi-signal: every finding is for a queried registered domain, one
  finding per domain, its query count is the number of its queries and at least the minimum,
  its score is at least 3, so at least two of the four signals fired and are listed, and its
  confidence lies between 0.95 and 1.
\<close>

theorem dns_tunnel_multi_signal:
  "distinct (map df_domain (detect_dns_tunneling log2 dns m))
   \<and> (\<forall>f \<in> set (detect_dns_tunneling log2 dns m).
        df_query_count f
          = int (length (filter (\<lambda>q. dns_registered_domain (dn_query q) = df_domain f) dns))
      \<and> m \<le> df_query_count f \<and> rnd (95 / 100) \<le> df_confidence f \<and> df_confidence f \<le> 1
      \<and> (\<exists>d. (df_domain f, d) \<in> set (per_domain log2 dns)
           \<and> 3 \<le> tunnel_score d \<and> 2 \<le> length (tunnel_signals d)))"
proof -
  have sub: "set (map df_domain (List.map_filter (tunnel_finding m) ps)) \<subseteq> set (map fst ps)
      \<and> (distinct (map fst ps) \<longrightarrow> distinct (map df_domain (List.map_filter (tunnel_finding m) ps)))" for ps
  proof (induction ps)
    case (Cons p ps)
    obtain dm d where "p = (dm, d)" by (cases p)
    with Cons show ?case
      by (auto simp: List.map_filter_simps split: option.splits dest!: tunnel_finding_Some)
  qed (simp add: List.map_filter_simps)
  have "distinct (map fst (per_domain log2 dns))"
    using per_domain_distinct [of "[]"] by (simp add: per_domain_def)
  then have dist: "distinct (map df_domain (detect_dns_tunneling log2 dns m))"
    using sub by (simp add: detect_dns_tunneling_def)
  have each: "\<exists>d. (df_domain f, d) \<in> set (per_domain log2 dns) \<and> df_query_count f = ds_n d
      \<and> m \<le> ds_n d \<and> 3 \<le> tunnel_score d \<and> df_confidence f = pyround 2 (tunnel_confidence (tunnel_score d))"
    if "f \<in> set (detect_dns_tunneling log2 dns m)" for f
    using that by (auto simp: detect_dns_tunneling_def set_map_filter dest!: tunnel_finding_Some)
  show ?thesis
  proof (intro conjI ballI dist)
    fix f assume "f \<in> set (detect_dns_tunneling log2 dns m)"
    from each [OF this] obtain d where d: "(df_domain f, d) \<in> set (per_domain log2 dns)"
      "df_query_count f = ds_n d" "m \<le> ds_n d" "3 \<le> tunnel_score d"
      "df_confidence f = pyround 2 (tunnel_confidence (tunnel_score d))" by blast
    show "df_query_count f
        = int (length (filter (\<lambda>q. dns_registered_domain (dn_query q) = df_domain f) dns))"
      using per_domain_entry [OF d(1)] d(2) by simp
    show "m \<le> df_query_count f" using d by simp
    show "rnd (95 / 100) \<le> df_confidence f" using tunnel_confidence_ge [OF d(4)] d(5) by simp
    show "df_confidence f \<le> 1"
      using pyround_unit [OF tunnel_confidence_unit] d(5) by (simp add: unit_interval_def)
    show "\<exists>d. (df_domain f, d) \<in> set (per_domain log2 dns) \<and> 3 \<le> tunnel_score d \<and> 2 \<le> length (tunnel_signals d)"
      using d length_tunnel_signals [of d] by (intro exI [of _ d]) simp
  qed
qed


definition sample_query :: dns_tx where
  "sample_query = \<lparr>dn_ts = 0, dn_src_ip = ''192.168.122.10'', dn_dst_ip = ''192.168.122.1'',
     dn_query = ''aaaaaaaaaaaaaaaaaaaaaaaa.evil.example'', dn_qtype = Some ''TXT'', dn_rcode = None,
     dn_answers = [], dn_uid = None\<rparr>"

lemma dns_tunnel_witness:
  "case detect_dns_tunneling (\<lambda>x. 0) [sample_query] 1 of
     [f] \<Rightarrow> rnd (95 / 100) \<le> df_confidence f \<and> df_confidence f \<le> 1
   | _ \<Rightarrow> False"
proof -
  have "length (detect_dns_tunneling (\<lambda>x. 0) [sample_query] 1) = 1" by code_simp
  then obtain f where f: "detect_dns_tunneling (\<lambda>x. 0) [sample_query] 1 = [f]"
    by (auto simp: length_Suc_conv)
  have "f \<in> set (detect_dns_tunneling (\<lambda>x. 0) [sample_query] 1)" by (simp add: f)
  then show ?thesis
    using dns_tunnel_multi_signal [of "\<lambda>x. 0" "[sample_query]" 1] unfolding f by simp
qed

end
