(* ===== verification/Detect.thy ===== *)
theory Detect
  imports PyVal Bundle
begin

text \<open>
  The specific detectors: application-service exfiltration (\<open>app_exfil.py\<close>), HTTP gates and
  agents (\<open>http_analysis.py\<close>), covert channels (\<open>covert_channels.py\<close>), server certificates
  (\<open>tls_analysis.analyze_certificate\<close>). Each maps transactions to findings with a confidence
  and, where the code grades, a tier (\<open>severity\<close> "strong" or "weak").
\<close>

section \<open>Cloud and SaaS services\<close>

datatype risk = High | Dual

definition cloud_services :: "(string \<times> string \<times> risk) list" where
  "cloud_services =
     [(''api.telegram.org'', ''Telegram Bot API'', High), (''discord.com'', ''Discord'', High),
      (''discordapp.com'', ''Discord'', High), (''pastebin.com'', ''Pastebin'', High),
      (''hastebin.com'', ''Hastebin'', High), (''ghostbin.com'', ''Ghostbin'', High),
      (''mega.nz'', ''Mega'', High), (''mega.co.nz'', ''Mega'', High),
      (''anonfiles.com'', ''AnonFiles'', High), (''gofile.io'', ''GoFile'', High),
      (''file.io'', ''File.io'', High), (''transfer.sh'', ''transfer.sh'', High),
      (''tmpfiles.org'', ''tmpfiles'', High), (''0x0.st'', ''0x0.st'', High),
      (''ngrok.io'', ''ngrok tunnel'', High), (''trycloudflare.com'', ''Cloudflare tunnel'', High),
      (''drive.google.com'', ''Google Drive'', Dual),
      (''drive.usercontent.google.com'', ''Google Drive'', Dual),
      (''docs.google.com'', ''Google Docs'', Dual), (''dropbox.com'', ''Dropbox'', Dual),
      (''dropboxapi.com'', ''Dropbox API'', Dual), (''onedrive.live.com'', ''OneDrive'', Dual),
      (''1drv.ms'', ''OneDrive'', Dual)]"

definition risk_conf :: "risk \<Rightarrow> pyfloat" where
  "risk_conf r = (case r of High \<Rightarrow> rnd (75 / 100) | Dual \<Rightarrow> rnd (4 / 10))"

record cloud_finding =
  cf_service :: string
  cf_risk :: risk
  cf_domain :: string
  cf_dst_ip :: string
  cf_dst_port :: int
  cf_direction :: string
  cf_category :: string
  cf_confidence :: pyfloat

text \<open>\<open>h == d or h.endswith("." + d)\<close>.\<close>

definition under_domain :: "string \<Rightarrow> string \<Rightarrow> bool" where
  "under_domain h d \<longleftrightarrow> h = d \<or> ends_with h (CHR ''.'' # d)"

definition match_service :: "string option \<Rightarrow> (string \<times> risk \<times> string) option" where
  "match_service host =
     (if \<not> truthy host then None
      else let h = rstrip_char (CHR ''.'') (str_lower (the host)) in
        map_option (\<lambda>(d, name, r). (name, r, d)) (find (\<lambda>(d, _). under_domain h d) cloud_services))"

type_synonym endpoint = "string \<times> string \<times> int \<times> string option"

definition endpoints :: "tls_tx list \<Rightarrow> http_tx list \<Rightarrow> endpoint list" where
  "endpoints tls http =
     map (\<lambda>t. (tl_src_ip t, tl_dst_ip t, tl_dst_port t, tl_server_name t)) tls
     @ map (\<lambda>h. (ht_src_ip h, ht_dst_ip h, ht_dst_port h, ht_host h)) http"

definition byte_dir :: "session list \<Rightarrow> (string \<times> string \<times> int, int \<times> int) dict" where
  "byte_dir ss =
     foldl (\<lambda>d s. dict_set (ss_src_ip s, ss_dst_ip s, ss_dst_port s) (ss_orig_bytes s, ss_resp_bytes s) d) [] ss"

definition cloud_direction :: "int \<Rightarrow> int \<Rightarrow> string \<times> string" where
  "cloud_direction orig resp =
     (if fmul (rnd (of_int resp)) (rnd (12 / 10)) < of_int orig \<and> 0 < orig then (''upload'', ''cloud_exfil'')
      else if orig < resp then (''download'', ''cloud_staging'')
      else (''unknown'', ''cloud_exfil''))"

definition cloud_finding_of ::
    "(string \<times> string \<times> int, int \<times> int) dict \<Rightarrow> endpoint \<Rightarrow> string \<times> risk \<times> string \<Rightarrow> cloud_finding" where
  "cloud_finding_of bd ep m =
     (let (src, dst, dport, host) = ep; (name, r, domain) = m;
          (orig, resp) = (case map_of bd (src, dst, dport) of Some p \<Rightarrow> p | None \<Rightarrow> (0, 0));
          (dir, cat) = cloud_direction orig resp
      in \<lparr>cf_service = name, cf_risk = r,
          cf_domain = (if truthy host then the host else domain), cf_dst_ip = dst,
          cf_dst_port = dport, cf_direction = dir, cf_category = cat, cf_confidence = risk_conf r\<rparr>)"

fun cloud_loop ::
    "(string \<times> string \<times> int, int \<times> int) dict \<Rightarrow> (string \<times> string option) set \<Rightarrow> endpoint list \<Rightarrow> cloud_finding list" where
  "cloud_loop bd seen [] = []"
| "cloud_loop bd seen ((src, dst, dport, host) # eps) =
     (case match_service host of
        None \<Rightarrow> cloud_loop bd seen eps
      | Some m \<Rightarrow>
          if (dst, host) \<in> seen then cloud_loop bd seen eps
          else cloud_finding_of bd (src, dst, dport, host) m # cloud_loop bd (insert (dst, host) seen) eps)"

definition detect_cloud_exfil :: "tls_tx list \<Rightarrow> http_tx list \<Rightarrow> session list \<Rightarrow> cloud_finding list" where
  "detect_cloud_exfil tls http ss = cloud_loop (byte_dir ss) {} (endpoints tls http)"

section \<open>SMTP\<close>

record smtp_finding =
  sf_dst_ip :: string
  sf_mail_from :: "string option"
  sf_rcpt_to :: "string list"
  sf_subject :: "string option"
  sf_has_attachment :: bool
  sf_self_send :: bool
  sf_confidence :: pyfloat

definition smtp_self_send :: "smtp_tx \<Rightarrow> bool" where
  "smtp_self_send tx =
     (let mf = str_lower (case sm_mail_from tx of Some s \<Rightarrow> s | None \<Rightarrow> [])
      in mf \<noteq> [] \<and> list_ex (\<lambda>r. mf = str_lower r) (sm_rcpt_to tx))"

definition smtp_confidence :: "bool \<Rightarrow> bool \<Rightarrow> pyfloat" where
  "smtp_confidence attach self =
     (let c = fadd (fadd (rnd (6 / 10)) (if attach then rnd (15 / 100) else 0))
                   (if self then rnd (15 / 100) else 0)
      in pyround 2 (min c 1))"

definition smtp_finding_of :: "smtp_tx \<Rightarrow> smtp_finding option" where
  "smtp_finding_of tx =
     (if \<not> (truthy (sm_mail_from tx) \<or> sm_rcpt_to tx \<noteq> []) then None
      else let attach = sm_attachments tx \<noteq> []; self = smtp_self_send tx in
        Some \<lparr>sf_dst_ip = sm_dst_ip tx, sf_mail_from = sm_mail_from tx, sf_rcpt_to = sm_rcpt_to tx,
              sf_subject = sm_subject tx, sf_has_attachment = attach, sf_self_send = self,
              sf_confidence = smtp_confidence attach self\<rparr>)"

definition detect_smtp_exfil :: "smtp_tx list \<Rightarrow> smtp_finding list" where
  "detect_smtp_exfil smtp = List.map_filter smtp_finding_of smtp"

section \<open>HTTP gates and agents\<close>

text \<open>
  The gate expression searched without regard to case: the alternatives without special
  characters as substrings, \<open>/gate/?$\<close> at the end, \<open>/is-?ready\<close> as its two words.
\<close>

definition gate_literals :: "string list" where
  "gate_literals = [''/gate.php'', ''/api/set_agent'', ''/panel/'', ''/c2/'', ''/loader/'',
     ''/isready'', ''/is-ready'', ''/submit.php'', ''/tasks.php'', ''/receiver/'',
     ''/gateway.php'', ''/index.php?id='', ''/api/gate'']"

definition gate_at_end :: "string \<Rightarrow> bool" where
  "gate_at_end u \<longleftrightarrow>
     (let v = (if u \<noteq> [] \<and> of_char (last u) = (10 :: nat) then butlast u else u) in
      list_ex (\<lambda>w. ends_with w ''/gate'' \<or> ends_with w ''/gate/'') [u, v])"

definition gate_search :: "string \<Rightarrow> bool" where
  "gate_search uri = (let u = str_lower uri in list_ex (\<lambda>p. contains p u) gate_literals \<or> gate_at_end u)"

definition suspicious_ua :: "string list" where
  "suspicious_ua = [[], ''-'', ''mozilla'', ''mozilla/5.0'', ''microsoft-cryptoapi/10.0'',
     ''python-requests'', ''curl'', ''wininet'', ''go-http-client'']"

record http_finding =
  hf_dst_ip :: string
  hf_dst_port :: int
  hf_host :: "string option"
  hf_uri :: "string option"
  hf_method :: "string option"
  hf_reason :: string
  hf_severity :: tier
  hf_confidence :: pyfloat

definition opt_or_empty :: "string option \<Rightarrow> string" where
  "opt_or_empty s = (case s of Some t \<Rightarrow> t | None \<Rightarrow> [])"

definition odd_agent :: "http_tx \<Rightarrow> bool" where
  "odd_agent h \<longleftrightarrow> ht_user_agent h \<noteq> None
     \<and> str_lower (strip (opt_or_empty (ht_user_agent h))) \<in> set suspicious_ua"

definition http_finding_of :: "http_tx \<Rightarrow> http_finding option" where
  "http_finding_of h =
     (let uri = opt_or_empty (ht_uri h); gate = gate_search uri; odd = odd_agent h;
          reasons = (if gate then [''C2 gate pattern in URI ('' @ take 48 uri @ '')''] else [])
            @ (if odd then [''suspicious/hardcoded user-agent ('' @ str_repr (opt_or_empty (ht_user_agent h)) @ '')''] else [])
      in if reasons = [] then None
         else Some \<lparr>hf_dst_ip = ht_dst_ip h, hf_dst_port = ht_dst_port h, hf_host = ht_host h,
                    hf_uri = ht_uri h, hf_method = ht_method h, hf_reason = join ''; '' reasons,
                    hf_severity = (if gate then Strong else Weak),
                    hf_confidence = (if gate then rnd (7 / 10) else rnd (45 / 100))\<rparr>)"

fun http_loop :: "(string \<times> string) set \<Rightarrow> http_tx list \<Rightarrow> http_finding list" where
  "http_loop seen [] = []"
| "http_loop seen (h # hs) =
     (case http_finding_of h of
        None \<Rightarrow> http_loop seen hs
      | Some f \<Rightarrow>
          let key = (ht_dst_ip h, opt_or_empty (ht_uri h)) in
          if key \<in> seen then http_loop seen hs else f # http_loop (insert key seen) hs)"

definition detect_http_exfil :: "http_tx list \<Rightarrow> http_finding list" where
  "detect_http_exfil http = http_loop {} http"

section \<open>Covert channels\<close>

definition std_http_ports :: "int list" where
  "std_http_ports = [80, 8080, 8000, 8008, 8888]"

definition std_tls_ports :: "int list" where
  "std_tls_ports = [443, 8443, 993, 995, 465, 990, 636, 989, 5061, 21, 587, 25]"

record covert_finding =
  vf_kind :: string
  vf_dst_ip :: string
  vf_dst_port :: int
  vf_detail :: string
  vf_confidence :: pyfloat
  vf_severity :: tier

definition icmp_finding :: "nat \<Rightarrow> int \<Rightarrow> string \<times> int list \<Rightarrow> covert_finding option" where
  "icmp_finding min_packets min_avg p =
     (let (dst, lens) = p; avg = idiv (sum_list lens) (int (length lens)) in
      if length lens < min_packets then None
      else if avg < of_int min_avg then None
      else Some \<lparr>vf_kind = ''icmp_tunnel'', vf_dst_ip = dst, vf_dst_port = 0,
        vf_detail = nat_str (length lens) @ '' ICMP echoes, avg payload '' @ fixed_str 0 avg
          @ ''B (normal ping ~32-48B)'',
        vf_confidence = rnd (75 / 100), vf_severity = Strong\<rparr>)"

definition detect_icmp_tunnel :: "(string \<times> string \<times> int) list \<Rightarrow> nat \<Rightarrow> int \<Rightarrow> covert_finding list" where
  "detect_icmp_tunnel icmp min_packets min_avg =
     List.map_filter (icmp_finding min_packets min_avg)
       (group_into [] (map (\<lambda>(src, dst, n). (dst, n)) icmp))"

definition mismatch_finding :: "string \<Rightarrow> string \<Rightarrow> int \<Rightarrow> covert_finding" where
  "mismatch_finding proto ip port =
     \<lparr>vf_kind = ''port_mismatch'', vf_dst_ip = ip, vf_dst_port = port,
      vf_detail = proto @ '' on non-standard port '' @ int_str port,
      vf_confidence = rnd (4 / 10), vf_severity = Weak\<rparr>"

text \<open>The two loops share their seen set: the candidates are HTTP first, then TLS.\<close>

definition mismatch_candidates :: "http_tx list \<Rightarrow> tls_tx list \<Rightarrow> (string \<times> string \<times> int) list" where
  "mismatch_candidates http tls =
     map (\<lambda>h. (''HTTP'', ht_dst_ip h, ht_dst_port h)) (filter (\<lambda>h. ht_dst_port h \<notin> set std_http_ports) http)
     @ map (\<lambda>t. (''TLS'', tl_dst_ip t, tl_dst_port t)) (filter (\<lambda>t. tl_dst_port t \<notin> set std_tls_ports) tls)"

definition detect_port_mismatch :: "http_tx list \<Rightarrow> tls_tx list \<Rightarrow> covert_finding list" where
  "detect_port_mismatch http tls =
     map (\<lambda>(p, ip, port). mismatch_finding p ip port) (first_by snd {} (mismatch_candidates http tls))"

section \<open>Certificates\<close>

record cert_finding =
  tf_dst_ip :: string
  tf_server_name :: "string option"
  tf_reason :: string
  tf_severity :: tier

definition analyze_certificate :: "tls_tx \<Rightarrow> cert_finding option" where
  "analyze_certificate t =
     (let subj = strip (opt_or_empty (tl_subject t)); issuer = strip (opt_or_empty (tl_issuer t));
          val = str_lower (strip (opt_or_empty (tl_validation_status t)))
      in if subj \<noteq> [] \<and> issuer \<noteq> [] \<and> subj = issuer
         then Some \<lparr>tf_dst_ip = tl_dst_ip t, tf_server_name = tl_server_name t,
                    tf_reason = ''self-signed certificate'', tf_severity = Strong\<rparr>
         else if val \<noteq> [] \<and> val \<notin> {''ok'', [], ''-''}
         then Some \<lparr>tf_dst_ip = tl_dst_ip t, tf_server_name = tl_server_name t,
                    tf_reason = ''certificate validation failed: '' @ val, tf_severity = Weak\<rparr>
         else None)"

section \<open>Lemmas\<close>

lemma match_service_truthy: "match_service host \<noteq> None \<Longrightarrow> truthy host"
  by (auto simp: match_service_def split: if_splits)

lemma cloud_finding_of_key:
  "truthy host \<Longrightarrow> cf_dst_ip (cloud_finding_of bd (src, dst, dport, host) m) = dst
     \<and> Some (cf_domain (cloud_finding_of bd (src, dst, dport, host) m)) = host"
  by (cases host) (auto simp: cloud_finding_of_def Let_def split: prod.splits)

definition matched :: "endpoint \<Rightarrow> bool" where
  "matched ep \<longleftrightarrow> match_service (snd (snd (snd ep))) \<noteq> None"

definition endpoint_key :: "endpoint \<Rightarrow> string \<times> string option" where
  "endpoint_key ep = (fst (snd ep), snd (snd (snd ep)))"

lemma cloud_loop_keys:
  "map (\<lambda>f. (cf_dst_ip f, Some (cf_domain f))) (cloud_loop bd seen eps)
     = map endpoint_key (first_by endpoint_key seen (filter matched eps))"
proof (induction bd seen eps rule: cloud_loop.induct)
  case (2 bd seen src dst dport host eps)
  show ?case
  proof (cases "match_service host")
    case None
    then show ?thesis using 2(1) by (simp add: matched_def)
  next
    case (Some m)
    then have "truthy host" by (intro match_service_truthy) simp
    note key = cloud_finding_of_key [OF this, of bd src dst dport m]
    have "matched (src, dst, dport, host)" "endpoint_key (src, dst, dport, host) = (dst, host)"
      using Some by (simp_all add: matched_def endpoint_key_def)
    then show ?thesis using 2(2,3) Some key by simp
  qed
qed simp

definition http_key :: "http_tx \<Rightarrow> string \<times> string" where
  "http_key h = (ht_dst_ip h, opt_or_empty (ht_uri h))"

lemma http_loop_first_by:
  "http_loop seen hs
     = map (the \<circ> http_finding_of) (first_by http_key seen (filter (\<lambda>h. http_finding_of h \<noteq> None) hs))"
  by (induction seen hs rule: http_loop.induct)
    (auto simp: http_key_def Let_def split: option.splits)

lemma http_finding_fields:
  assumes "http_finding_of h = Some f"
  shows "hf_dst_ip f = ht_dst_ip h \<and> opt_or_empty (hf_uri f) = opt_or_empty (ht_uri h)
     \<and> (hf_severity f = Strong \<longleftrightarrow> gate_search (opt_or_empty (ht_uri h)))
     \<and> (hf_severity f = Weak \<longleftrightarrow> \<not> gate_search (opt_or_empty (ht_uri h)))"
proof -
  let ?g = "gate_search (opt_or_empty (ht_uri h))"
  from assms have "hf_dst_ip f = ht_dst_ip h" "hf_uri f = ht_uri h"
      "hf_severity f = (if ?g then Strong else Weak)"
    unfolding http_finding_of_def Let_def by (auto simp only: option.inject http_finding.simps split: if_split_asm)
  then show ?thesis by simp
qed

lemma http_finding_None:
  "http_finding_of h = None \<longleftrightarrow> \<not> gate_search (opt_or_empty (ht_uri h)) \<and> \<not> odd_agent h"
  unfolding http_finding_of_def Let_def by simp

section \<open>Properties\<close>

text \<open>
  Cloud detection misses no known service and reports each once: the findings' pairs of
  address and host are exactly those of the TLS and HTTP endpoints whose host is a listed service
  or a sub-domain of one, without repetition.
\<close>

theorem cloud_exfil_exact:
  "set (map (\<lambda>f. (cf_dst_ip f, Some (cf_domain f))) (detect_cloud_exfil tls http ss))
     = {(dst, host) | src dst dport host. (src, dst, dport, host) \<in> set (endpoints tls http)
          \<and> match_service host \<noteq> None}
   \<and> distinct (map (\<lambda>f. (cf_dst_ip f, Some (cf_domain f))) (detect_cloud_exfil tls http ss))"
proof -
  let ?eps = "filter matched (endpoints tls http)"
  have keys: "map (\<lambda>f. (cf_dst_ip f, Some (cf_domain f))) (detect_cloud_exfil tls http ss)
      = map endpoint_key (first_by endpoint_key {} ?eps)"
    by (simp add: detect_cloud_exfil_def cloud_loop_keys)
  have "endpoint_key ` set ?eps = {(dst, host) | src dst dport host.
      (src, dst, dport, host) \<in> set (endpoints tls http) \<and> match_service host \<noteq> None}"
    by (force simp: endpoint_key_def matched_def)
  then show ?thesis
    unfolding keys using first_by_keys [of endpoint_key "{}" ?eps] first_by_distinct [of endpoint_key "{}" ?eps]
    by simp
qed

text \<open>
  HTTP findings are exactly one per address and URI that some transaction with a gate URI or
  a suspicious agent has; a finding is strong exactly when the URI itself is a gate, so the
  grading does not depend on which transaction was seen first.
\<close>

theorem http_exfil_exact:
  "set (map (\<lambda>f. (hf_dst_ip f, opt_or_empty (hf_uri f))) (detect_http_exfil http))
     = {(ht_dst_ip h, opt_or_empty (ht_uri h)) | h. h \<in> set http
          \<and> (gate_search (opt_or_empty (ht_uri h)) \<or> odd_agent h)}
   \<and> distinct (map (\<lambda>f. (hf_dst_ip f, opt_or_empty (hf_uri f))) (detect_http_exfil http))
   \<and> (\<forall>f \<in> set (detect_http_exfil http).
        hf_severity f = (if gate_search (opt_or_empty (hf_uri f)) then Strong else Weak))"
proof -
  let ?hs = "filter (\<lambda>h. http_finding_of h \<noteq> None) http"
  let ?first = "first_by http_key {} ?hs"
  have fs: "detect_http_exfil http = map (the \<circ> http_finding_of) ?first"
    by (simp add: detect_http_exfil_def http_loop_first_by)
  have mem: "\<exists>f. http_finding_of h = Some f" if "h \<in> set ?first" for h
    using that first_by_subset [of http_key "{}" ?hs] by auto
  have key: "(hf_dst_ip (the (http_finding_of h)), opt_or_empty (hf_uri (the (http_finding_of h)))) = http_key h"
    if "h \<in> set ?first" for h
    using mem [OF that] http_finding_fields by (auto simp: http_key_def)
  have keys: "map (\<lambda>f. (hf_dst_ip f, opt_or_empty (hf_uri f))) (detect_http_exfil http) = map http_key ?first"
    unfolding fs using key by simp
  have sev: "hf_severity f = (if gate_search (opt_or_empty (hf_uri f)) then Strong else Weak)"
    if "f \<in> set (detect_http_exfil http)" for f
  proof -
    from that obtain h where h: "h \<in> set ?first" and f: "f = the (http_finding_of h)"
      by (auto simp: fs)
    from mem [OF h] f have "http_finding_of h = Some f" by auto
    from http_finding_fields [OF this] show ?thesis by auto
  qed
  have "http_key ` set ?hs = {(ht_dst_ip h, opt_or_empty (ht_uri h)) | h. h \<in> set http
          \<and> (gate_search (opt_or_empty (ht_uri h)) \<or> odd_agent h)}"
    using http_finding_None by (auto simp: http_key_def)
  then show ?thesis
    unfolding keys using sev first_by_keys [of http_key "{}" ?hs] first_by_distinct [of http_key "{}" ?hs]
    by simp
qed

text \<open>
  Port mismatches are exactly one finding per address and port on which HTTP or TLS was
  spoken outside the standard ports of that protocol.
\<close>

theorem port_mismatch_exact:
  "set (map (\<lambda>f. (vf_dst_ip f, vf_dst_port f)) (detect_port_mismatch http tls))
     = {(ht_dst_ip h, ht_dst_port h) | h. h \<in> set http \<and> ht_dst_port h \<notin> set std_http_ports}
       \<union> {(tl_dst_ip t, tl_dst_port t) | t. t \<in> set tls \<and> tl_dst_port t \<notin> set std_tls_ports}
   \<and> distinct (map (\<lambda>f. (vf_dst_ip f, vf_dst_port f)) (detect_port_mismatch http tls))"
proof -
  let ?cs = "mismatch_candidates http tls"
  have keys: "map (\<lambda>f. (vf_dst_ip f, vf_dst_port f)) (detect_port_mismatch http tls) = map snd (first_by snd {} ?cs)"
    by (auto simp: detect_port_mismatch_def mismatch_finding_def)
  have "snd ` set ?cs = {(ht_dst_ip h, ht_dst_port h) | h. h \<in> set http \<and> ht_dst_port h \<notin> set std_http_ports}
       \<union> {(tl_dst_ip t, tl_dst_port t) | t. t \<in> set tls \<and> tl_dst_port t \<notin> set std_tls_ports}"
    by (force simp: mismatch_candidates_def)
  then show ?thesis
    unfolding keys using first_by_keys [of snd "{}" ?cs] first_by_distinct [of snd "{}" ?cs] by simp
qed


definition sample_http :: http_tx where
  "sample_http = \<lparr>ht_ts = 0, ht_src_ip = ''192.168.122.10'', ht_dst_ip = ''203.0.113.9'',
     ht_dst_port = 80, ht_method = Some ''POST'', ht_host = None, ht_uri = Some ''/gate.php'',
     ht_user_agent = None, ht_status_code = None, ht_req_body_len = 0, ht_resp_body_len = 0, ht_uid = None\<rparr>"

lemma http_exfil_witness:
  "case detect_http_exfil [sample_http] of
     [f] \<Rightarrow> hf_severity f = (if gate_search (opt_or_empty (hf_uri f)) then Strong else Weak)
   | _ \<Rightarrow> False"
proof -
  have "length (detect_http_exfil [sample_http]) = 1" by code_simp
  then obtain f where f: "detect_http_exfil [sample_http] = [f]" by (auto simp: length_Suc_conv)
  show ?thesis using http_exfil_exact [of "[sample_http]"] unfolding f by simp
qed

end
