(* ===== verification/Orchestrator.thy ===== *)
theory Orchestrator
  imports StaticPrior Intel Dns Detect
begin

text \<open>
  The network half of \<open>pipeline/orchestrator.py\<close>: \<open>build_network_events\<close>, one definition per
  stage of the function in its order. The environment collects what the code takes from outside:
  the intelligence table, the GeoLite2 reader, the allowlist, the numeric library functions and
  the classifier.
\<close>

section \<open>Environment and indexes\<close>

record env =
  en_geo :: geo_reader
  en_db :: intel_db
  en_allow :: allow_list
  en_pstdev :: "rat list \<Rightarrow> pyfloat"
  en_log2 :: "pyfloat \<Rightarrow> pyfloat"
  en_model :: dga_model

definition attr :: "env \<Rightarrow> string \<Rightarrow> string option \<Rightarrow> string option \<Rightarrow> attribution" where
  "attr en ip ja3 ja4 = attribute (en_geo en) (en_db en) ip ja3 ja4"

definition iso :: "pyfloat \<Rightarrow> string res" where
  "iso ts = bind_res (fromtimestamp_utc ts) (\<lambda>t. Inr (isoformat t))"

definition first_ts :: "connection list \<Rightarrow> (string \<times> int, pyfloat) dict" where
  "first_ts conns = foldl (\<lambda>d c. dict_setdefault (cn_dst_ip c, cn_dst_port c) (cn_ts c) d) [] conns"

definition http_hosts :: "connection list \<Rightarrow> (string, string) dict" where
  "http_hosts conns =
     foldl (\<lambda>d c. if truthy (cn_http_host c) then dict_setdefault (cn_dst_ip c) (the (cn_http_host c)) d else d)
       [] conns"

text \<open>\<open>ja3_records\<close>: the last TLS transaction of a flow with a fingerprint; hash and server name.\<close>

definition ja3_records :: "tls_tx list \<Rightarrow> (string \<times> string \<times> int, string \<times> string option) dict" where
  "ja3_records tls =
     foldl (\<lambda>d t. if truthy (tl_ja3 t)
                  then dict_set (tl_src_ip t, tl_dst_ip t, tl_dst_port t) (the (tl_ja3 t), tl_server_name t) d
                  else d) [] tls"

definition ja3_of :: "(string \<times> string \<times> int, string \<times> string option) dict \<Rightarrow> string \<Rightarrow> int
     \<Rightarrow> string option \<times> string option" where
  "ja3_of recs ip port =
     (case find (\<lambda>((s, d, p), r). d = ip \<and> p = port) recs of
        None \<Rightarrow> (None, None)
      | Some (k, h, sn) \<Rightarrow> (Some h, sn))"

definition conn0_ts :: "connection list \<Rightarrow> pyfloat" where
  "conn0_ts conns = (case conns of [] \<Rightarrow> 0 | c # _ \<Rightarrow> cn_ts c)"

definition stamp_of :: "connection list \<Rightarrow> string \<Rightarrow> int \<Rightarrow> string res" where
  "stamp_of conns ip port =
     iso (case map_of (first_ts conns) (ip, port) of Some t \<Rightarrow> t | None \<Rightarrow> conn0_ts conns)"

section \<open>Exfiltration and beacon findings\<close>

fun merge_ftp :: "exfil_verdict list \<Rightarrow> (string \<times> int) set \<Rightarrow> exfil_verdict list \<Rightarrow> exfil_verdict list" where
  "merge_ftp acc seen [] = acc"
| "merge_ftp acc seen (fe # fes) =
     (if (ev_dst_ip fe, ev_dst_port fe) \<notin> seen
      then merge_ftp (acc @ [fe]) (insert (ev_dst_ip fe, ev_dst_port fe) seen) fes
      else merge_ftp acc seen fes)"

definition all_exfils :: "connection list \<Rightarrow> exfil_verdict list" where
  "all_exfils conns =
     (let ex = detect_exfil conns 1024 (rnd (7 / 10)) (Some (200 * 1024)) in
      merge_ftp ex ((\<lambda>e. (ev_dst_ip e, ev_dst_port e)) ` set ex) (detect_ftp_exfil conns))"

definition with_geo :: "attribution \<Rightarrow> net_event \<Rightarrow> net_event" where
  "with_geo a e = e\<lparr>ne_geo_country := at_geo_country a, ne_asn := at_asn a, ne_asn_org := at_asn_org a\<rparr>"

definition exfil_event :: "env \<Rightarrow> analysis_bundle \<Rightarrow> connection list \<Rightarrow> exfil_verdict \<Rightarrow> net_event res" where
  "exfil_event en b conns v =
     (let (ja3, sn) = ja3_of (ja3_records (b_tls b)) (ev_dst_ip v) (ev_dst_port v);
          a = attr en (ev_dst_ip v) ja3 None
      in bind_res (stamp_of conns (ev_dst_ip v) (ev_dst_port v)) (\<lambda>st.
           Inr (with_geo a (blank_event ''exfil'' (ev_dst_ip v) (ev_dst_port v) st (ev_confidence v) (at_hit a))
             \<lparr>ne_http_uri := ev_http_uri v,
              ne_domain := str_or (map_of (http_hosts conns) (ev_dst_ip v)) sn,
              ne_ja3_hash := ja3, ne_plaintext := (ev_http_method v \<noteq> None)\<rparr>)))"

definition beacon_note :: "pyfloat \<Rightarrow> string" where
  "beacon_note ratio =
     ''no completed handshake ('' @ fixed_str 0 (fmul ratio 100) @ ''% of callbacks answered) ''
     @ [CHR 0xE2, CHR 0x80, CHR 0x94]
     @ '' regular SYN retries to an unresponsive host mimic beaconing; not evidence of an established C2 channel''"

definition beacon_event :: "env \<Rightarrow> analysis_bundle \<Rightarrow> connection list \<Rightarrow> beacon_verdict \<Rightarrow> net_event res" where
  "beacon_event en b conns v =
     (let (ja3, sn) = ja3_of (ja3_records (b_tls b)) (bv_dst_ip v) (bv_dst_port v);
          a = attr en (bv_dst_ip v) ja3 None;
          storm = (bv_unanswered v \<and> \<not> at_hit a)
      in bind_res (stamp_of conns (bv_dst_ip v) (bv_dst_port v)) (\<lambda>st.
           Inr (with_geo a (blank_event ''beacon'' (bv_dst_ip v) (bv_dst_port v) st (bv_confidence v) (at_hit a))
             \<lparr>ne_beacon := Some (bv_mean_interval_s v, bv_jitter_ratio v, bv_handshake_ratio v),
              ne_domain := str_or (map_of (http_hosts conns) (bv_dst_ip v)) sn,
              ne_ja3_hash := ja3, ne_plaintext := False,
              ne_tier := (if storm then Some Weak else None),
              ne_beacon_note := (if storm then Some (beacon_note (bv_handshake_ratio v)) else None)\<rparr>)))"

section \<open>TLS findings\<close>

definition ja3_event :: "attribution \<Rightarrow> tls_tx \<Rightarrow> string \<Rightarrow> net_event" where
  "ja3_event a t st =
     with_geo a (blank_event ''ja3'' (tl_dst_ip t) (tl_dst_port t) st (rnd (7 / 10)) True)
       \<lparr>ne_domain := tl_server_name t, ne_ja3_hash := tl_ja3 t, ne_ja4 := tl_ja4 t\<rparr>"

definition cert_event :: "cert_finding \<Rightarrow> tls_tx \<Rightarrow> string \<Rightarrow> net_event" where
  "cert_event cf t st =
     (blank_event ''tls_cert'' (tl_dst_ip t) (tl_dst_port t) st (rnd (6 / 10)) False)
       \<lparr>ne_domain := tl_server_name t, ne_ja3_hash := tl_ja3 t, ne_ja4 := tl_ja4 t,
        ne_tier := Some (tf_severity cf), ne_cert_reason := Some (tf_reason cf)\<rparr>"

text \<open>
  One TLS transaction: a fingerprint finding covers the address, a certificate finding does not.
\<close>

definition tls_step :: "env \<Rightarrow> connection list \<Rightarrow> net_event list \<times> string set \<Rightarrow> tls_tx
     \<Rightarrow> (net_event list \<times> string set) res" where
  "tls_step en conns st t =
     (let (evs, covered) = st; ip = tl_dst_ip t in
      if is_private_ip ip then Inr (evs, covered)
      else let a = attr en ip (tl_ja3 t) (tl_ja4 t) in
        if at_hit a \<and> ip \<notin> covered
        then bind_res (stamp_of conns ip (tl_dst_port t)) (\<lambda>s.
               Inr (evs @ [ja3_event a t s], insert ip covered))
        else case analyze_certificate t of
               None \<Rightarrow> Inr (evs, covered)
             | Some cf \<Rightarrow>
                 if ip \<in> covered then Inr (evs, covered)
                 else bind_res (stamp_of conns ip (tl_dst_port t)) (\<lambda>s.
                        Inr (evs @ [cert_event cf t s], covered)))"

fun tls_loop :: "env \<Rightarrow> connection list \<Rightarrow> net_event list \<times> string set \<Rightarrow> tls_tx list \<Rightarrow> net_event list res" where
  "tls_loop en conns st [] = Inr (fst st)"
| "tls_loop en conns st (t # ts) = bind_res (tls_step en conns st t) (\<lambda>st'. tls_loop en conns st' ts)"

section \<open>Findings of the specific detectors\<close>

definition dns_ts :: "dns_tx list \<Rightarrow> connection list \<Rightarrow> pyfloat" where
  "dns_ts dns conns = (case dns of [] \<Rightarrow> conn0_ts conns | q # qs \<Rightarrow> foldl min (dn_ts q) (map dn_ts qs))"

definition resolver_of :: "dns_finding \<Rightarrow> string" where
  "resolver_of f = (case df_resolvers f of [] \<Rightarrow> [] | r # _ \<Rightarrow> r)"

definition resolver_bad :: "env \<Rightarrow> dns_finding \<Rightarrow> bool" where
  "resolver_bad en f \<longleftrightarrow> resolver_of f \<noteq> [] \<and> at_hit (attr en (resolver_of f) None None)"

definition dns_event :: "env \<Rightarrow> string \<Rightarrow> tier \<Rightarrow> string \<Rightarrow> dns_finding \<Rightarrow> net_event" where
  "dns_event en st base kind f =
     (blank_event kind (resolver_of f) 53 st (df_confidence f) (resolver_bad en f))
       \<lparr>ne_domain := Some (df_domain f), ne_plaintext := True,
        ne_tier := Some (if resolver_bad en f then Confirmed else base),
        ne_dns_evidence := Some (df_evidence f)\<rparr>"

definition dns_events :: "env \<Rightarrow> string \<Rightarrow> dns_tx list \<Rightarrow> net_event list" where
  "dns_events en st dns =
     (let stat = detect_dga (en_log2 en) dns 10 (1 / 2);
          ml = detect_dga_ml (en_model en) dns (3 / 4) (set (map df_domain stat))
      in map (\<lambda>f. dns_event en st Strong (df_kind f) f) (detect_dns_tunneling (en_log2 en) dns 5 @ stat)
         @ map (dns_event en st Weak ''dga'') ml)"

text \<open>A finding at an address, confirmed when the address is known bad.\<close>

definition ip_bad :: "env \<Rightarrow> string \<Rightarrow> bool" where
  "ip_bad en ip = at_hit (attr en ip None None)"

definition ip_event :: "env \<Rightarrow> string \<Rightarrow> string \<Rightarrow> string \<Rightarrow> int \<Rightarrow> pyfloat \<Rightarrow> tier \<Rightarrow> net_event" where
  "ip_event en st kind ip port conf base =
     (blank_event kind ip port st conf (ip_bad en ip))
       \<lparr>ne_tier := Some (if ip_bad en ip then Confirmed else base)\<rparr>"

definition cloud_event :: "env \<Rightarrow> string \<Rightarrow> cloud_finding \<Rightarrow> net_event" where
  "cloud_event en st f =
     (ip_event en st (cf_category f) (cf_dst_ip f) (cf_dst_port f) (cf_confidence f)
        (if cf_risk f = High then Strong else Weak))
       \<lparr>ne_domain := Some (cf_domain f), ne_cloud_service := Some (cf_service f),
        ne_cloud_direction := Some (cf_direction f)\<rparr>"

definition smtp_event :: "env \<Rightarrow> string \<Rightarrow> smtp_finding \<Rightarrow> net_event" where
  "smtp_event en st f =
     (ip_event en st ''smtp_exfil'' (sf_dst_ip f) 25 (sf_confidence f)
        (if sf_has_attachment f \<or> sf_self_send f then Strong else Weak))
       \<lparr>ne_domain := (case sf_rcpt_to f of [] \<Rightarrow> None | r # _ \<Rightarrow> Some r), ne_plaintext := True,
        ne_smtp_rcpt := sf_rcpt_to f, ne_smtp_subject := sf_subject f\<rparr>"

definition http_event :: "env \<Rightarrow> string \<Rightarrow> http_finding \<Rightarrow> net_event" where
  "http_event en st f =
     (ip_event en st ''http_c2'' (hf_dst_ip f) (hf_dst_port f) (hf_confidence f) (hf_severity f))
       \<lparr>ne_domain := hf_host f, ne_plaintext := True, ne_http_reason := Some (hf_reason f),
        ne_http_uri := hf_uri f\<rparr>"

definition covert_event :: "env \<Rightarrow> string \<Rightarrow> covert_finding \<Rightarrow> net_event" where
  "covert_event en st f =
     (ip_event en st (vf_kind f) (vf_dst_ip f) (vf_dst_port f) (vf_confidence f) (vf_severity f))
       \<lparr>ne_covert_detail := Some (vf_detail f)\<rparr>"

definition service_events :: "env \<Rightarrow> string \<Rightarrow> analysis_bundle \<Rightarrow> net_event list" where
  "service_events en st b =
     map (cloud_event en st) (detect_cloud_exfil (b_tls b) (b_http b) (b_sessions b))
     @ map (smtp_event en st) (detect_smtp_exfil (b_smtp b))
     @ map (http_event en st) (filter (\<lambda>f. \<not> is_private_ip (hf_dst_ip f)) (detect_http_exfil (b_http b)))
     @ map (covert_event en st)
         (filter (\<lambda>f. \<not> is_private_ip (vf_dst_ip f))
           (detect_icmp_tunnel (b_icmp b) 8 64 @ detect_port_mismatch (b_http b) (b_tls b)))"

section \<open>Unclassified egress\<close>

definition sni_by_ip :: "tls_tx list \<Rightarrow> (string, string) dict" where
  "sni_by_ip tls =
     foldl (\<lambda>d t. if truthy (tl_server_name t) then dict_set (tl_dst_ip t) (the (tl_server_name t)) d else d) [] tls"

definition egress_event :: "env \<Rightarrow> string \<Rightarrow> tls_tx list \<Rightarrow> egress_verdict \<Rightarrow> net_event" where
  "egress_event en st tls g =
     (ip_event en st ''unclassified_egress'' (gv_dst_ip g) (gv_dst_port g) (rnd (4 / 10)) Weak)
       \<lparr>ne_domain := map_of (sni_by_ip tls) (gv_dst_ip g),
        ne_egress_detail := Some (int_str (gv_orig_bytes g) @ ''B out, upload-ratio ''
          @ float_repr (gv_upload_ratio g) @ '' (unexplained by specific detectors)'')\<rparr>"

definition egress_events :: "env \<Rightarrow> string \<Rightarrow> analysis_bundle \<Rightarrow> connection list \<Rightarrow> net_event list \<Rightarrow> net_event list" where
  "egress_events en st b conns es =
     map (egress_event en st (b_tls b))
       (detect_unclassified_egress conns (set (map ne_dst_ip es)) 2048 (rnd (6 / 10)))"

section \<open>Reputation, context and tiers\<close>

definition domain_stage :: "env \<Rightarrow> net_event \<Rightarrow> net_event" where
  "domain_stage en e =
     (if truthy (ne_domain e) \<and> \<not> ne_reputation_hit e
      then case domain_reputation (en_db en) (the (ne_domain e)) of
             None \<Rightarrow> e
           | Some (source, note) \<Rightarrow>
               e\<lparr>ne_reputation_hit := True, ne_tier := Some Confirmed,
                 ne_reputation_note := Some (''domain intel: '' @ opt_str (str_or note source))\<rparr>
      else e)"

definition context_stage :: "env \<Rightarrow> net_event \<Rightarrow> net_event" where
  "context_stage en e =
     (if ne_reputation_hit e \<and> \<not> truthy (ne_reputation_note e)
      then let a = attr en (ne_dst_ip e) (ne_ja3_hash e) (ne_ja4 e) in
        e\<lparr>ne_reputation_note := at_note a, ne_reputation_source := at_source a,
          ne_asn_org := (if truthy (ne_asn_org e) then ne_asn_org e else at_asn_org a)\<rparr>
      else e)"

definition signal_count :: "net_event list \<Rightarrow> string \<Rightarrow> nat" where
  "signal_count es ip = length (remdups (map ne_kind (filter (\<lambda>e. ne_dst_ip e = ip) es)))"

definition tier_stage :: "net_event list \<Rightarrow> net_event \<Rightarrow> net_event" where
  "tier_stage es e =
     (case ne_tier e of
        Some t \<Rightarrow> e
      | None \<Rightarrow> e\<lparr>ne_tier := Some (network_confidence_tier (ne_reputation_hit e) (signal_count es (ne_dst_ip e)))\<rparr>)"

definition grade :: "env \<Rightarrow> net_event list \<Rightarrow> net_event list" where
  "grade en es = (let es' = map (context_stage en \<circ> domain_stage en) es in map (tier_stage es') es')"

section \<open>The pipeline\<close>

text \<open>Everything up to the tiers, on the scoped bundle.\<close>

definition detected_events :: "env \<Rightarrow> analysis_bundle \<Rightarrow> (net_event list \<times> string) res" where
  "detected_events en b =
     (let conns = to_connections b;
          beacons = detect_beaconing (en_pstdev en) conns 4 (1 / 4) 1
      in bind_res (map_res (exfil_event en b conns) (all_exfils conns)) (\<lambda>ex.
         bind_res (map_res (beacon_event en b conns) (filter bv_is_beacon beacons)) (\<lambda>be.
         bind_res (tls_loop en conns (ex @ be, set (map ne_dst_ip (ex @ be))) (b_tls b)) (\<lambda>es.
         bind_res (iso (dns_ts (b_dns b) conns)) (\<lambda>st.
           let es2 = es @ dns_events en st (b_dns b) @ service_events en st b
           in Inr (es2 @ egress_events en st b conns es2, st))))))"

text \<open>
  \<open>build_network_events\<close>: the bundle is scoped when there is a hand-off; \<open>prior\<close> is the
  static-prior file, absent when no path is given or it does not exist. The notes of the gate
  are the function attribute \<open>last_notes\<close>.
\<close>

definition prior_stage :: "string \<Rightarrow> (string + pyval) option \<Rightarrow> net_event list \<Rightarrow> net_event list res" where
  "prior_stage st prior es =
     (case prior of
        None \<Rightarrow> Inr es
      | Some file \<Rightarrow>
          bind_res (load_static_prior [] (Some file)) (\<lambda>(p, errs). apply_static_prior st p es))"

definition build_network_events ::
    "env \<Rightarrow> (int \<Rightarrow> int) \<Rightarrow> analysis_bundle \<Rightarrow> (string + pyval) option \<Rightarrow> handoff option
       \<Rightarrow> (net_event list \<times> string list) res" where
  "build_network_events en local_utc bundle prior ho =
     (let b = (case ho of
                 None \<Rightarrow> bundle
               | Some h \<Rightarrow> fst (filter_bundle local_utc bundle (ho_guest_ip h) (ho_start h) (ho_end h)))
      in bind_res (detected_events en b) (\<lambda>(es, st).
         bind_res (prior_stage st prior (grade en es)) (\<lambda>es2.
           Inr (gate_network_events (fst (apply_allowlist (en_allow en) es2)) ho))))"

section \<open>Lemmas: what a detected event satisfies\<close>

text \<open>Known bad by the intelligence table: address, fingerprints, or destination domain.\<close>

definition intel_hit :: "env \<Rightarrow> net_event \<Rightarrow> bool" where
  "intel_hit en e = at_hit (attr en (ne_dst_ip e) (ne_ja3_hash e) (ne_ja4 e))"

definition domain_bad :: "env \<Rightarrow> net_event \<Rightarrow> bool" where
  "domain_bad en e \<longleftrightarrow> truthy (ne_domain e) \<and> domain_reputation (en_db en) (the (ne_domain e)) \<noteq> None"

definition known_bad :: "env \<Rightarrow> net_event \<Rightarrow> bool" where
  "known_bad en e \<longleftrightarrow> intel_hit en e \<or> domain_bad en e"

text \<open>Reputation is exactly an intelligence hit, and a preset tier is confirmed exactly with it.\<close>

definition born_ok :: "env \<Rightarrow> net_event \<Rightarrow> bool" where
  "born_ok en e \<longleftrightarrow> (ne_reputation_hit e \<longleftrightarrow> intel_hit en e)
     \<and> (\<forall>t. ne_tier e = Some t \<longrightarrow> (t = Confirmed \<longleftrightarrow> ne_reputation_hit e))"

lemma attr_hit: "at_hit (attr en ip ja3 ja4) \<longleftrightarrow>
    ip \<in> dom (map_of (en_db en)) \<or> (\<exists>fp \<in> {ja3, ja4}. some_str fp \<and> the fp \<in> dom (map_of (en_db en)))"
  by (simp add: attr_def attribute_hit)

lemma attr_hit_None [simp]: "\<not> some_str None"
  by (simp add: some_str_def)

lemma with_geo_simps [simp]:
  "ne_kind (with_geo a e) = ne_kind e" "ne_dst_ip (with_geo a e) = ne_dst_ip e"
  "ne_dst_port (with_geo a e) = ne_dst_port e" "ne_timestamp (with_geo a e) = ne_timestamp e"
  "ne_confidence (with_geo a e) = ne_confidence e" "ne_reputation_hit (with_geo a e) = ne_reputation_hit e"
  "ne_domain (with_geo a e) = ne_domain e" "ne_tier (with_geo a e) = ne_tier e"
  "ne_ja3_hash (with_geo a e) = ne_ja3_hash e" "ne_ja4 (with_geo a e) = ne_ja4 e"
  "ne_static_match (with_geo a e) = ne_static_match e"
  by (simp_all add: with_geo_def)

lemma blank_fingerprints [simp]:
  "ne_ja3_hash (blank_event k ip p st c rep) = None" "ne_ja4 (blank_event k ip p st c rep) = None"
  by (simp_all add: blank_event_def)

lemma exfil_event_born: "exfil_event en b conns v = Inr e \<Longrightarrow> born_ok en e"
  by (auto simp: exfil_event_def bind_res_Inr_iff born_ok_def intel_hit_def Let_def split: prod.splits)

lemma beacon_event_born: "beacon_event en b conns v = Inr e \<Longrightarrow> born_ok en e"
  by (auto simp: beacon_event_def bind_res_Inr_iff born_ok_def intel_hit_def Let_def split: prod.splits if_splits)

lemma ja3_event_born: "at_hit (attr en (tl_dst_ip t) (tl_ja3 t) (tl_ja4 t)) \<Longrightarrow> born_ok en (ja3_event a t s)"
  by (simp add: ja3_event_def born_ok_def intel_hit_def)

lemma cert_tier: "analyze_certificate t = Some cf \<Longrightarrow> tf_severity cf \<noteq> Confirmed"
  by (auto simp: analyze_certificate_def Let_def split: if_splits)

lemma cert_event_born:
  "\<not> at_hit (attr en (tl_dst_ip t) (tl_ja3 t) (tl_ja4 t)) \<Longrightarrow> analyze_certificate t = Some cf \<Longrightarrow>
     born_ok en (cert_event cf t s)"
  using cert_tier by (auto simp: cert_event_def born_ok_def intel_hit_def)

lemma tls_step_born:
  assumes "tls_step en conns (evs, covered) t = Inr (evs', covered')" "\<forall>e \<in> set evs. born_ok en e"
  shows "\<forall>e \<in> set evs'. born_ok en e"
  using assms ja3_event_born cert_event_born
  by (auto simp: tls_step_def Let_def bind_res_Inr_iff split: if_splits option.splits)

lemma tls_loop_born:
  "tls_loop en conns st ts = Inr es \<Longrightarrow> \<forall>e \<in> set (fst st). born_ok en e \<Longrightarrow> \<forall>e \<in> set es. born_ok en e"
proof (induction en conns st ts rule: tls_loop.induct)
  case (2 en conns st t ts)
  then obtain evs' covered' where s: "tls_step en conns st t = Inr (evs', covered')"
    and r: "tls_loop en conns (evs', covered') ts = Inr es"
    by (auto simp: bind_res_Inr_iff)
  have "\<forall>e \<in> set evs'. born_ok en e"
    using tls_step_born [of en conns "fst st" "snd st" t] s 2(3) by simp
  then show ?case using 2(1) [OF r] by simp
qed simp

definition clean_db :: "env \<Rightarrow> bool" where
  "clean_db en \<longleftrightarrow> map_of (en_db en) [] = None"

lemma dns_event_born: "clean_db en \<Longrightarrow> base \<noteq> Confirmed \<Longrightarrow> born_ok en (dns_event en st base k f)"
  by (cases "resolver_of f = []")
    (auto simp: dns_event_def born_ok_def intel_hit_def resolver_bad_def attr_hit clean_db_def domIff)

lemma ip_event_simps [simp]:
  "ne_kind (ip_event en st k ip p c base) = k" "ne_dst_ip (ip_event en st k ip p c base) = ip"
  "ne_reputation_hit (ip_event en st k ip p c base) = ip_bad en ip"
  "ne_tier (ip_event en st k ip p c base) = Some (if ip_bad en ip then Confirmed else base)"
  "ne_ja3_hash (ip_event en st k ip p c base) = None" "ne_ja4 (ip_event en st k ip p c base) = None"
  "ne_timestamp (ip_event en st k ip p c base) = st" "ne_confidence (ip_event en st k ip p c base) = c"
  by (simp_all add: ip_event_def)

lemma cloud_event_born: "born_ok en (cloud_event en st f)"
  and smtp_event_born: "born_ok en (smtp_event en st sf)"
  and egress_event_born: "born_ok en (egress_event en st tls g)"
  by (auto simp: cloud_event_def smtp_event_def egress_event_def born_ok_def intel_hit_def ip_bad_def)

lemma http_event_born: "hf_severity f \<noteq> Confirmed \<Longrightarrow> born_ok en (http_event en st f)"
  and covert_event_born: "vf_severity v \<noteq> Confirmed \<Longrightarrow> born_ok en (covert_event en st v)"
  by (auto simp: http_event_def covert_event_def born_ok_def intel_hit_def ip_bad_def)

lemma http_severity: "f \<in> set (detect_http_exfil http) \<Longrightarrow> hf_severity f \<noteq> Confirmed"
proof -
  assume "f \<in> set (detect_http_exfil http)"
  then have "\<exists>h. http_finding_of h = Some f"
    unfolding detect_http_exfil_def http_loop_first_by
    using first_by_subset [of http_key "{}" "filter (\<lambda>h. http_finding_of h \<noteq> None) http"] by force
  then obtain h where "http_finding_of h = Some f" ..
  from http_finding_fields [OF this] show ?thesis
    by (cases "gate_search (opt_or_empty (ht_uri h))") auto
qed

lemma icmp_severity: "v \<in> set (detect_icmp_tunnel icmp n m) \<Longrightarrow> vf_severity v \<noteq> Confirmed"
  by (auto simp: detect_icmp_tunnel_def set_map_filter icmp_finding_def Let_def split: if_splits)

lemma mismatch_severity: "v \<in> set (detect_port_mismatch http tls) \<Longrightarrow> vf_severity v \<noteq> Confirmed"
  by (auto simp: detect_port_mismatch_def mismatch_finding_def)

lemma dns_events_born: "clean_db en \<Longrightarrow> e \<in> set (dns_events en st dns) \<Longrightarrow> born_ok en e"
  by (auto simp: dns_events_def Let_def intro: dns_event_born)

lemma service_events_born: "e \<in> set (service_events en st b) \<Longrightarrow> born_ok en e"
  unfolding service_events_def
  by (auto intro: cloud_event_born smtp_event_born http_event_born [OF http_severity] covert_event_born
      dest: icmp_severity mismatch_severity)

lemmas born_intros = exfil_event_born beacon_event_born dns_events_born service_events_born egress_event_born

lemma detected_events_born:
  assumes "detected_events en b = Inr (es, st)" "clean_db en" "e \<in> set es"
  shows "born_ok en e"
proof -
  let ?conns = "to_connections b"
  from assms(1) obtain ex be es1 where
    ex: "map_res (exfil_event en b ?conns) (all_exfils ?conns) = Inr ex" and
    be: "map_res (beacon_event en b ?conns) (filter bv_is_beacon (detect_beaconing (en_pstdev en) ?conns 4 (1 / 4) 1)) = Inr be" and
    tls: "tls_loop en ?conns (ex @ be, set (map ne_dst_ip (ex @ be))) (b_tls b) = Inr es1" and
    es: "es = (es1 @ dns_events en st (b_dns b) @ service_events en st b)
           @ egress_events en st b ?conns (es1 @ dns_events en st (b_dns b) @ service_events en st b)"
    by (auto simp: detected_events_def Let_def bind_res_Inr_iff)
  have "\<forall>e \<in> set (ex @ be). born_ok en e"
    using map_res_mem [OF ex] map_res_mem [OF be] exfil_event_born beacon_event_born by fastforce
  then have "\<forall>e \<in> set es1. born_ok en e" using tls_loop_born [OF tls] by simp
  then show ?thesis
    using assms(2,3) unfolding es egress_events_def
    by (auto intro: dns_events_born service_events_born egress_event_born)
qed

section \<open>Lemmas: grading\<close>

text \<open>A graded event: it has a tier, and confirmed, reputation and known bad are the same.\<close>

definition graded :: "env \<Rightarrow> net_event \<Rightarrow> bool" where
  "graded en e \<longleftrightarrow> (\<exists>t. ne_tier e = Some t \<and> (t = Confirmed \<longleftrightarrow> ne_reputation_hit e))
     \<and> (ne_reputation_hit e \<longleftrightarrow> known_bad en e)"

lemma domain_stage_spec:
  "ne_reputation_hit (domain_stage en e) \<longleftrightarrow> ne_reputation_hit e \<or> domain_bad en e"
  "ne_tier (domain_stage en e) = (if \<not> ne_reputation_hit e \<and> domain_bad en e then Some Confirmed else ne_tier e)"
  "ne_kind (domain_stage en e) = ne_kind e" "ne_dst_ip (domain_stage en e) = ne_dst_ip e"
  "ne_domain (domain_stage en e) = ne_domain e" "ne_ja3_hash (domain_stage en e) = ne_ja3_hash e"
  "ne_ja4 (domain_stage en e) = ne_ja4 e"
  by (auto simp: domain_stage_def domain_bad_def split: option.splits)

lemma context_stage_spec:
  "ne_reputation_hit (context_stage en e) = ne_reputation_hit e" "ne_tier (context_stage en e) = ne_tier e"
  "ne_kind (context_stage en e) = ne_kind e" "ne_dst_ip (context_stage en e) = ne_dst_ip e"
  "ne_domain (context_stage en e) = ne_domain e" "ne_ja3_hash (context_stage en e) = ne_ja3_hash e"
  "ne_ja4 (context_stage en e) = ne_ja4 e"
  by (simp_all add: context_stage_def Let_def)

lemma tier_stage_spec:
  "ne_reputation_hit (tier_stage es e) = ne_reputation_hit e"
  "ne_tier (tier_stage es e) = Some (case ne_tier e of Some t \<Rightarrow> t
      | None \<Rightarrow> network_confidence_tier (ne_reputation_hit e) (signal_count es (ne_dst_ip e)))"
  "ne_kind (tier_stage es e) = ne_kind e" "ne_dst_ip (tier_stage es e) = ne_dst_ip e"
  "ne_domain (tier_stage es e) = ne_domain e" "ne_ja3_hash (tier_stage es e) = ne_ja3_hash e"
  "ne_ja4 (tier_stage es e) = ne_ja4 e"
  by (simp_all add: tier_stage_def split: option.splits)

lemmas stage_specs = domain_stage_spec context_stage_spec tier_stage_spec

lemma network_tier_Confirmed: "network_confidence_tier rep n = Confirmed \<longleftrightarrow> rep"
  by (simp add: network_confidence_tier_def)

lemma known_bad_cong:
  "ne_dst_ip a = ne_dst_ip b \<Longrightarrow> ne_ja3_hash a = ne_ja3_hash b \<Longrightarrow> ne_ja4 a = ne_ja4 b \<Longrightarrow>
     ne_domain a = ne_domain b \<Longrightarrow> known_bad en a = known_bad en b"
  by (simp add: known_bad_def intel_hit_def domain_bad_def)

lemma grade_graded: "\<forall>e \<in> set es. born_ok en e \<Longrightarrow> e' \<in> set (grade en es) \<Longrightarrow> graded en e'"
proof -
  assume born: "\<forall>e \<in> set es. born_ok en e" and "e' \<in> set (grade en es)"
  then obtain e gs where e: "e \<in> set es" and e': "e' = tier_stage gs (context_stage en (domain_stage en e))"
    by (auto simp: grade_def Let_def)
  have "known_bad en e' = known_bad en e" by (rule known_bad_cong) (simp_all add: e' stage_specs)
  moreover have "ne_reputation_hit e' \<longleftrightarrow> known_bad en e"
    using born e by (auto simp: e' stage_specs born_ok_def known_bad_def)
  moreover have "\<exists>t. ne_tier e' = Some t \<and> (t = Confirmed \<longleftrightarrow> ne_reputation_hit e')"
    using born e by (auto simp: e' stage_specs born_ok_def network_tier_Confirmed split: option.splits)
  ultimately show ?thesis by (simp add: graded_def)
qed

section \<open>Lemmas: prior and gates\<close>

lemma promote_known_bad: "known_bad en (promote fam m e) = known_bad en e"
  by (rule known_bad_cong) (simp_all add: promote_def)

lemma names_cong: "ne_dst_ip a = ne_dst_ip b \<Longrightarrow> ne_domain a = ne_domain b \<Longrightarrow> names ind a = names ind b"
  by (simp add: names_iff)

text \<open>The indicators of the prior file.\<close>

definition prior_indicators :: "(string + pyval) option \<Rightarrow> indicator list" where
  "prior_indicators prior =
     (case prior of
        None \<Rightarrow> []
      | Some file \<Rightarrow> (case load_static_prior [] (Some file) of Inr (p, _) \<Rightarrow> sp_indicators p | Inl _ \<Rightarrow> []))"

definition in_binary :: "(string + pyval) option \<Rightarrow> net_event \<Rightarrow> bool" where
  "in_binary prior e \<longleftrightarrow> (\<exists>ind \<in> set (prior_indicators prior). names ind e)"

text \<open>What holds of an observed finding from the prior stage on.\<close>

definition settled :: "env \<Rightarrow> (string + pyval) option \<Rightarrow> net_event \<Rightarrow> bool" where
  "settled en prior e \<longleftrightarrow> (\<exists>t. ne_tier e = Some t \<and> (t = Confirmed \<longleftrightarrow> ne_reputation_hit e))
     \<and> (ne_reputation_hit e \<longleftrightarrow> known_bad en e \<or> in_binary prior e)"

lemma static_prior_memE:
  assumes "apply_static_prior st p es = Inr out" "e' \<in> set out"
  obtains e where "e \<in> set es" "\<exists>ind \<in> set (sp_indicators p). names ind e"
      "e' = e\<lparr>ne_tier := Some Confirmed, ne_reputation_hit := True,
             ne_static_match := Some (''matches static-extracted C2'' @ family_tag p)\<rparr>"
    | "e' \<in> set es" "\<not> (\<exists>ind \<in> set (sp_indicators p). names ind e')"
    | ind where "e' = dormant_event (family_tag p) st ind"
  using assms(2) static_prior_exact [OF assms(1)] by (auto split: if_splits)

lemma prior_stage_settled:
  assumes "prior_stage st prior es = Inr out" "\<forall>e \<in> set es. graded en e"
    and "e' \<in> set out" "ne_kind e' \<noteq> ''static_ioc''"
  shows "settled en prior e'"
proof (cases prior)
  case None
  then show ?thesis
    using assms by (auto simp: prior_stage_def settled_def graded_def in_binary_def prior_indicators_def)
next
  case (Some pf)
  with assms(1) obtain p errs where p: "load_static_prior [] (Some pf) = Inr (p, errs)"
    and out: "apply_static_prior st p es = Inr out"
    by (auto simp: prior_stage_def bind_res_Inr_iff)
  have inds: "prior_indicators prior = sp_indicators p" by (simp add: prior_indicators_def Some p)
  from out assms(3) show ?thesis
  proof (cases rule: static_prior_memE)
    case (1 e)
    then have "in_binary prior e'" using names_cong [of e' e] by (simp add: in_binary_def inds)
    then show ?thesis by (simp add: settled_def 1(3))
  next
    case 2
    then show ?thesis using assms(2) by (auto simp: settled_def graded_def in_binary_def inds)
  next
    case (3 ind)
    then show ?thesis using assms(4) by (simp add: dormant_event_def Let_def)
  qed
qed

text \<open>The final gates keep the frame and never touch a confirmed finding with an indicator.\<close>

lemma event_frame_sel:
  "ne_kind (event_frame e) = ne_kind e"
  "ne_dst_ip (event_frame e) = ne_dst_ip e"
  "ne_domain (event_frame e) = ne_domain e"
  "ne_ja3_hash (event_frame e) = ne_ja3_hash e"
  "ne_ja4 (event_frame e) = ne_ja4 e"
  "ne_reputation_hit (event_frame e) = ne_reputation_hit e"
  "ne_static_match (event_frame e) = ne_static_match e"
  "ne_confidence (event_frame e) = ne_confidence e"
  "ne_timestamp (event_frame e) = ne_timestamp e"
  "ne_dst_port (event_frame e) = ne_dst_port e"
  by (simp_all add: event_frame_def)

lemma frame_eqD:
  assumes "event_frame a = event_frame b"
  shows "ne_kind a = ne_kind b"
    "ne_dst_ip a = ne_dst_ip b"
    "ne_domain a = ne_domain b"
    "ne_ja3_hash a = ne_ja3_hash b"
    "ne_ja4 a = ne_ja4 b"
    "ne_reputation_hit a = ne_reputation_hit b"
    "ne_static_match a = ne_static_match b"
    "ne_confidence a = ne_confidence b"
    "ne_timestamp a = ne_timestamp b"
    "ne_dst_port a = ne_dst_port b"
  by (metis assms event_frame_sel)+

lemma settled_gate:
  assumes "settled en prior e" "event_frame e' = event_frame e"
    and "\<exists>t'. ne_tier e' = Some t' \<and> (\<forall>t. ne_tier e = Some t \<longrightarrow> t' \<le> t)"
    and "confirmed_indep e \<Longrightarrow> ne_tier e' = ne_tier e"
  shows "settled en prior e'"
proof -
  note f = frame_eqD [OF assms(2)]
  have "known_bad en e' = known_bad en e" by (rule known_bad_cong) (simp_all add: f)
  moreover have "names ind e' = names ind e" for ind by (rule names_cong) (rule f)+
  then have "in_binary prior e' = in_binary prior e" by (simp add: in_binary_def)
  moreover from assms(1) obtain t where t: "ne_tier e = Some t" "t = Confirmed \<longleftrightarrow> ne_reputation_hit e"
    by (auto simp: settled_def)
  moreover from assms(3) obtain t' where t': "ne_tier e' = Some t'" "t' \<le> t" using t by auto
  moreover have "t' = Confirmed \<longleftrightarrow> ne_reputation_hit e"
  proof
    assume "t' = Confirmed"
    then have "t = Confirmed" using t'(2) by (cases t) (simp_all add: tier_simps)
    then show "ne_reputation_hit e" using t by simp
  next
    assume rep: "ne_reputation_hit e"
    then have "confirmed_indep e" using t by (simp add: confirmed_indep_def static_or_rep_def)
    then show "t' = Confirmed" using assms(4) t t' rep by simp
  qed
  ultimately show ?thesis using assms(1) by (simp add: settled_def f)
qed

definition final_gate :: "env \<Rightarrow> handoff option \<Rightarrow> net_event \<Rightarrow> net_event" where
  "final_gate en ho e =
     (case ho of None \<Rightarrow> allow_event (en_allow en) e | Some h \<Rightarrow> gate_event h (allow_event (en_allow en) e))"

lemma final_gate_settled: "settled en prior e \<Longrightarrow> settled en prior (final_gate en ho e)"
proof -
  assume s: "settled en prior e"
  then obtain t where t: "ne_tier e = Some t" by (auto simp: settled_def)
  show ?thesis
  proof (cases ho)
    case None
    show ?thesis
      unfolding final_gate_def None option.case
      using t allow_gate.lowers [where e = e and al = "en_allow en"] allow_gate.frames allow_gate.protects
      by (intro settled_gate [OF s]) auto
  next
    case (Some h)
    show ?thesis
      unfolding final_gate_def Some option.case
      using t final_gates.both.lowers [where e = e and al = "en_allow en" and h = h] final_gates.both.frames final_gates.both.protects
      by (intro settled_gate [OF s]) auto
  qed
qed

definition scoped :: "(int \<Rightarrow> int) \<Rightarrow> analysis_bundle \<Rightarrow> handoff option \<Rightarrow> analysis_bundle" where
  "scoped local_utc bundle ho =
     (case ho of
        None \<Rightarrow> bundle
      | Some h \<Rightarrow> fst (filter_bundle local_utc bundle (ho_guest_ip h) (ho_start h) (ho_end h)))"

lemma build_network_events_parts:
  assumes "build_network_events en L bundle prior ho = Inr (out, notes)"
  obtains es st es2 where "detected_events en (scoped L bundle ho) = Inr (es, st)"
      "prior_stage st prior (grade en es) = Inr es2" "out = map (final_gate en ho) es2"
proof -
  from assms obtain es st es2 where 1: "detected_events en (scoped L bundle ho) = Inr (es, st)"
      "prior_stage st prior (grade en es) = Inr es2"
    and out: "out = fst (gate_network_events (fst (apply_allowlist (en_allow en) es2)) ho)"
    by (auto simp: build_network_events_def scoped_def Let_def bind_res_Inr_iff)
  have "out = map (final_gate en ho) es2"
    unfolding out by (cases ho) (simp_all add: gate_network_events_def apply_allowlist_def final_gate_def)
  with 1 that show ?thesis by blast
qed

section \<open>Properties\<close>

text \<open>
  C1. Confirmed means independently corroborated, and nothing else does: whenever the pipeline
  returns, every observed finding carries a tier, and it is confirmed if and only if its address,
  one of its TLS fingerprints or its domain is in the intelligence table or it is named by an
  indicator extracted from the binary; no gate, allowlist entry or number of behavioural signals
  can take that tier away or grant it.
\<close>

theorem confirmed_iff_independent_indicator:
  assumes "build_network_events en local_utc bundle prior ho = Inr (out, notes)"
    and "clean_db en" and "e \<in> set out" "ne_kind e \<noteq> ''static_ioc''"
  shows "(ne_tier e = Some Confirmed \<longleftrightarrow> known_bad en e \<or> in_binary prior e)
     \<and> (ne_reputation_hit e \<longleftrightarrow> ne_tier e = Some Confirmed) \<and> ne_tier e \<noteq> None"
proof -
  from assms(1) obtain es st es2 where d: "detected_events en (scoped local_utc bundle ho) = Inr (es, st)"
    and p: "prior_stage st prior (grade en es) = Inr es2" and out: "out = map (final_gate en ho) es2"
    by (rule build_network_events_parts)
  from assms(3) out obtain e0 where e0: "e0 \<in> set es2" "e = final_gate en ho e0" by auto
  have "event_frame e = event_frame e0"
    unfolding e0(2) final_gate_def by (cases ho) (simp_all add: allow_gate.frames net_gate.frames)
  then have "ne_kind e0 \<noteq> ''static_ioc''" using assms(4) frame_eqD(1) by metis
  moreover have "\<forall>e \<in> set (grade en es). graded en e"
    using detected_events_born [OF d assms(2)] grade_graded by blast
  ultimately have "settled en prior e0" using prior_stage_settled [OF p] e0(1) by blast
  then have "settled en prior e" unfolding e0(2) by (rule final_gate_settled)
  then show ?thesis by (auto simp: settled_def)
qed

section \<open>Nothing is lost, and nothing internal is reported\<close>

text \<open>What identifies a finding through the later stages.\<close>

definition finding_id :: "net_event \<Rightarrow> string \<times> string \<times> int \<times> string \<times> pyfloat" where
  "finding_id e = (ne_kind e, ne_dst_ip e, ne_dst_port e, ne_timestamp e, ne_confidence e)"

lemma stage_ids:
  "ne_dst_port (domain_stage en e) = ne_dst_port e" "ne_timestamp (domain_stage en e) = ne_timestamp e"
  "ne_confidence (domain_stage en e) = ne_confidence e"
  "ne_dst_port (context_stage en e) = ne_dst_port e" "ne_timestamp (context_stage en e) = ne_timestamp e"
  "ne_confidence (context_stage en e) = ne_confidence e"
  "ne_dst_port (tier_stage es e) = ne_dst_port e" "ne_timestamp (tier_stage es e) = ne_timestamp e"
  "ne_confidence (tier_stage es e) = ne_confidence e"
  by (auto simp: domain_stage_def context_stage_def tier_stage_def Let_def split: option.splits)

lemma grade_ids: "map finding_id (grade en es) = map finding_id es"
  by (simp add: grade_def finding_id_def stage_specs stage_ids Let_def)

lemma final_gate_frame: "event_frame (final_gate en ho e) = event_frame e"
  by (cases ho) (simp_all add: final_gate_def allow_gate.frames net_gate.frames)

lemma final_gate_id: "finding_id (final_gate en ho e) = finding_id e"
  using frame_eqD [OF final_gate_frame] by (simp add: finding_id_def)

lemma prior_stage_ids:
  assumes "prior_stage st prior es = Inr out"
  shows "map finding_id (take (length es) out) = map finding_id es
     \<and> (\<forall>e \<in> set (drop (length es) out). ne_kind e = ''static_ioc'')"
proof (cases prior)
  case None
  then show ?thesis using assms by (simp add: prior_stage_def)
next
  case (Some pf)
  with assms obtain p where out: "apply_static_prior st p es = Inr out"
    by (auto simp: prior_stage_def bind_res_Inr_iff)
  show ?thesis
    unfolding static_prior_exact [OF out]
    by (auto simp: finding_id_def dormant_event_def Let_def)
qed

lemma merge_ftp_subset: "set (merge_ftp acc seen fes) \<subseteq> set acc \<union> set fes"
  by (induction acc seen fes rule: merge_ftp.induct) auto

lemma all_exfils_public: "v \<in> set (all_exfils conns) \<Longrightarrow> \<not> is_private_ip (ev_dst_ip v)"
proof -
  assume "v \<in> set (all_exfils conns)"
  then consider "v \<in> set (detect_exfil conns 1024 (rnd (7 / 10)) (Some (200 * 1024)))"
      | "v \<in> set (detect_ftp_exfil conns)"
    using merge_ftp_subset unfolding all_exfils_def Let_def by blast
  then show ?thesis
  proof cases
    case 1
    then obtain c where "\<not> is_private_ip (cn_dst_ip c)"
        "exfil_verdict_of 1024 (rnd (7 / 10)) (Some (200 * 1024)) c = Some v"
      by (auto simp: detect_exfil_map_filter set_map_filter)
    then show ?thesis by (auto simp: exfil_verdict_of_def Let_def split: if_splits)
  next
    case 2
    then obtain c where "c \<in> set (first_by cn_dst_ip {} (filter (\<lambda>c. truthy (cn_ftp_upload_cmd c)
        \<and> \<not> is_private_ip (cn_dst_ip c)) conns))" "v = ftp_verdict_of c"
      by (auto simp: detect_ftp_exfil_def ftp_exfil_first_by)
    then show ?thesis using first_by_subset by (fastforce simp: ftp_verdict_of_def)
  qed
qed

lemma exfil_event_key: "exfil_event en b conns v = Inr e \<Longrightarrow> ne_kind e = ''exfil'' \<and> ne_dst_ip e = ev_dst_ip v"
  by (auto simp: exfil_event_def bind_res_Inr_iff Let_def split: prod.splits)

lemma beacon_event_key: "beacon_event en b conns v = Inr e \<Longrightarrow> ne_kind e = ''beacon'' \<and> ne_dst_ip e = bv_dst_ip v"
  by (auto simp: beacon_event_def bind_res_Inr_iff Let_def split: prod.splits)

lemma tls_step_public:
  assumes "tls_step en conns (evs, covered) t = Inr (evs', covered')" "e \<in> set evs'"
  shows "e \<in> set evs \<or> \<not> is_private_ip (ne_dst_ip e)"
  using assms
  by (auto simp: tls_step_def Let_def bind_res_Inr_iff ja3_event_def cert_event_def split: if_splits option.splits)

lemma tls_loop_public:
  "tls_loop en conns st ts = Inr es \<Longrightarrow> e \<in> set es \<Longrightarrow> e \<in> set (fst st) \<or> \<not> is_private_ip (ne_dst_ip e)"
proof (induction en conns st ts rule: tls_loop.induct)
  case (2 en conns st t ts)
  then obtain evs' covered' where s: "tls_step en conns st t = Inr (evs', covered')"
    and r: "tls_loop en conns (evs', covered') ts = Inr es"
    by (auto simp: bind_res_Inr_iff)
  then show ?case
    using 2(1) [OF r 2(3)] tls_step_public [of en conns "fst st" "snd st" t] by auto
qed simp

text \<open>The kinds whose destination may be internal: resolvers, providers, mail servers, binaries.\<close>

definition internal_kinds :: "string list" where
  "internal_kinds = [''dns_tunnel'', ''dga'', ''cloud_exfil'', ''cloud_staging'', ''smtp_exfil'', ''static_ioc'']"

lemma dns_kind: "e \<in> set (dns_events en st dns) \<Longrightarrow> ne_kind e \<in> set internal_kinds"
proof -
  have t: "df_kind f = ''dns_tunnel''" if "f \<in> set (detect_dns_tunneling l d m)" for f l d m
    using that by (auto simp: detect_dns_tunneling_def set_map_filter tunnel_finding_def split: if_splits)
  have g: "df_kind f = ''dga''" if "f \<in> set (detect_dga l d m r)" for f l d m r
    using that by (auto simp: detect_dga_def Let_def split: if_splits)
  assume "e \<in> set (dns_events en st dns)"
  then show ?thesis by (auto simp: dns_events_def dns_event_def Let_def internal_kinds_def dest!: t g)
qed

lemma cloud_kind: "f \<in> set (detect_cloud_exfil tls http ss) \<Longrightarrow> cf_category f \<in> {''cloud_exfil'', ''cloud_staging''}"
proof -
  have c: "cf_category (cloud_finding_of bd ep m) \<in> {''cloud_exfil'', ''cloud_staging''}" for bd ep m
    by (auto simp: cloud_finding_of_def cloud_direction_def Let_def split: prod.splits)
  have "f \<in> set (cloud_loop bd seen eps) \<Longrightarrow> cf_category f \<in> {''cloud_exfil'', ''cloud_staging''}" for bd seen eps
    using c by (induction bd seen eps rule: cloud_loop.induct) (simp_all split: option.splits if_splits, blast)
  then show "f \<in> set (detect_cloud_exfil tls http ss) \<Longrightarrow> ?thesis"
    unfolding detect_cloud_exfil_def .
qed

lemma service_public:
  "e \<in> set (service_events en st b) \<Longrightarrow> ne_kind e \<notin> set internal_kinds \<Longrightarrow> \<not> is_private_ip (ne_dst_ip e)"
  by (auto simp: service_events_def cloud_event_def smtp_event_def http_event_def covert_event_def
      internal_kinds_def dest: cloud_kind)

lemma egress_public: "e \<in> set (egress_events en st b conns es) \<Longrightarrow> \<not> is_private_ip (ne_dst_ip e)"
proof -
  assume "e \<in> set (egress_events en st b conns es)"
  then obtain c where "c \<in> set (first_by beacon_key {} (filter (egress_candidate 2048 (rnd (6 / 10)) (set (map ne_dst_ip es))) conns))"
    "ne_dst_ip e = cn_dst_ip c"
    by (auto simp: egress_events_def detect_unclassified_egress_def unclassified_first_by egress_event_def
        egress_verdict_of_def)
  then show ?thesis using first_by_subset by (fastforce simp: egress_candidate_def)
qed

lemma detected_events_public:
  assumes "detected_events en b = Inr (es, st)" "e \<in> set es" "ne_kind e \<notin> set internal_kinds"
  shows "\<not> is_private_ip (ne_dst_ip e)"
proof -
  let ?conns = "to_connections b"
  from assms(1) obtain ex be es1 where
    ex: "map_res (exfil_event en b ?conns) (all_exfils ?conns) = Inr ex" and
    be: "map_res (beacon_event en b ?conns) (filter bv_is_beacon (detect_beaconing (en_pstdev en) ?conns 4 (1 / 4) 1)) = Inr be" and
    tls: "tls_loop en ?conns (ex @ be, set (map ne_dst_ip (ex @ be))) (b_tls b) = Inr es1" and
    es: "es = (es1 @ dns_events en st (b_dns b) @ service_events en st b)
           @ egress_events en st b ?conns (es1 @ dns_events en st (b_dns b) @ service_events en st b)"
    by (auto simp: detected_events_def Let_def bind_res_Inr_iff)
  have "\<not> is_private_ip (ne_dst_ip e)" if "e \<in> set ex" for e
    using map_res_mem [OF ex that] exfil_event_key all_exfils_public by fastforce
  moreover have "\<not> is_private_ip (ne_dst_ip e)" if "e \<in> set be" for e
    using map_res_mem [OF be that] beacon_event_key
    by (fastforce simp: detect_beaconing_mem beacon_verdict_fields)
  ultimately have "e \<in> set es1 \<Longrightarrow> ?thesis" using tls_loop_public [OF tls] by auto
  then show ?thesis
    using assms(2,3) dns_kind service_public egress_public unfolding es by auto
qed

text \<open>
  C9. The pipeline loses nothing and reports nothing internal: the findings of the detectors on
  the scoped bundle come out first and in order with the same kind, destination, time and
  confidence, whatever the prior, the allowlist and the gates do; everything after them is a
  dormant indicator; and an internal address only occurs for a resolver, a service, a mail
  server or an indicator from the binary.
\<close>

theorem pipeline_keeps_findings:
  assumes "build_network_events en local_utc bundle prior ho = Inr (out, notes)"
  shows "\<exists>es st. detected_events en (scoped local_utc bundle ho) = Inr (es, st)
     \<and> map finding_id (take (length es) out) = map finding_id es
     \<and> (\<forall>e \<in> set (drop (length es) out). ne_kind e = ''static_ioc'')
     \<and> (\<forall>e \<in> set out. is_private_ip (ne_dst_ip e) \<longrightarrow> ne_kind e \<in> set internal_kinds)"
proof -
  from assms obtain es st es2 where d: "detected_events en (scoped local_utc bundle ho) = Inr (es, st)"
    and p: "prior_stage st prior (grade en es) = Inr es2" and out: "out = map (final_gate en ho) es2"
    by (rule build_network_events_parts)
  have len: "length (grade en es) = length es" by (simp add: grade_def Let_def)
  have ids: "map finding_id out = map finding_id es2" by (simp add: out final_gate_id)
  have keep: "map finding_id (take (length es) out) = map finding_id es"
    using prior_stage_ids [OF p] grade_ids [of en es] ids by (simp add: len take_map [symmetric])
  have rest: "ne_kind e = ''static_ioc''" if "e \<in> set (drop (length es) out)" for e
    using that prior_stage_ids [OF p] frame_eqD(1) [OF final_gate_frame] by (auto simp: len out drop_map)
  have "ne_kind e \<in> set internal_kinds" if e: "e \<in> set out" and priv: "is_private_ip (ne_dst_ip e)" for e
  proof -
    have "e \<in> set (take (length es) out) \<or> e \<in> set (drop (length es) out)"
      using e by (metis append_take_drop_id Un_iff set_append)
    then show ?thesis
    proof
      assume "e \<in> set (take (length es) out)"
      then have "finding_id e \<in> set (map finding_id es)" unfolding keep [symmetric] by simp
      then obtain e0 where "e0 \<in> set es" "finding_id e0 = finding_id e" by auto
      then show ?thesis
        using detected_events_public [OF d, of e0] priv by (auto simp: finding_id_def)
    qed (use rest in \<open>simp add: internal_kinds_def\<close>)
  qed
  then show ?thesis using d keep rest by blast
qed

text \<open>
  C10. A bad clock silences no finding but lets no beacon overclaim: with a hand-off whose clock
  is not acceptable, every beacon in the result that no independent indicator confirms is weak
  or allowlisted.
\<close>

theorem bad_clock_caps_beacons:
  assumes "build_network_events en local_utc bundle prior (Some h) = Inr (out, notes)"
    and "\<not> ho_clock_ok h" "e \<in> set out" "ne_kind e = ''beacon''" "\<not> static_or_rep e"
    and "ne_tier e = Some t"
  shows "t \<le> Weak"
proof -
  from assms(1) obtain es st es2 where out: "out = map (final_gate en (Some h)) es2"
    by (rule build_network_events_parts)
  with assms(3) obtain e0 where e: "e = gate_event h e0" by (auto simp: final_gate_def)
  note f = frame_eqD [OF net_gate.frames [of h e0]]
  have "ne_kind e0 = ''beacon''" "\<not> static_or_rep e0"
    using assms(4,5) f by (simp_all add: e static_or_rep_def)
  then show ?thesis using assms(2,6) by (auto simp: e gate_event_tier timing_kinds_def)
qed


section \<open>The pipeline on a concrete bundle\<close>

text \<open>
  Four callbacks a minute apart to one public address, once under an unacceptable clock and once
  with that address in the intelligence table.
\<close>

definition sample_env :: "intel_db \<Rightarrow> env" where
  "sample_env db = \<lparr>en_geo = \<lambda>_. (None, None, None), en_db = db, en_allow = ([], []), en_pstdev = \<lambda>_. 0,
     en_log2 = \<lambda>_. 0, en_model = None\<rparr>"

definition bad_row :: intel_row where
  "bad_row = \<lparr>ti_source = None, ti_note = None, ti_type = ''ip'', ti_seen = None\<rparr>"

definition sample_handoff :: handoff where
  "sample_handoff = \<lparr>ho_schema_version = JStr ''1.0'', ho_session_id = JStr ''s1'',
     ho_cape_task_id = JInt 7, ho_network_mode = None, ho_clock_ok = False,
     ho_telemetry_degraded = False, ho_providers = [], ho_guest_ip = Some ''192.168.122.10'',
     ho_start = None, ho_end = None, ho_manifest_sha256 = Some (replicate 64 (CHR ''a''))\<rparr>"

definition sample_run :: "(net_event list \<times> string list) res" where
  "sample_run = build_network_events (sample_env []) (\<lambda>t. t) sample_bundle None (Some sample_handoff)"

definition bad_run :: "(net_event list \<times> string list) res" where
  "bad_run = build_network_events (sample_env [(''203.0.113.9'', bad_row)]) (\<lambda>t. t) sample_bundle None None"

definition one_beacon :: "(net_event list \<times> string list) res \<Rightarrow> (net_event \<Rightarrow> bool) \<Rightarrow> bool" where
  "one_beacon r P =
     (case r of
        Inr ([e], notes) \<Rightarrow> ne_kind e = ''beacon'' \<and> ne_dst_ip e = ''203.0.113.9'' \<and> ne_tier e \<noteq> None \<and> P e
      | _ \<Rightarrow> False)"

lemma one_beacon_Inr:
  "one_beacon (Inr ([e], n)) P \<longleftrightarrow>
     ne_kind e = ''beacon'' \<and> ne_dst_ip e = ''203.0.113.9'' \<and> ne_tier e \<noteq> None \<and> P e"
  by (simp add: one_beacon_def)

lemma one_beaconE:
  assumes "one_beacon r P"
  obtains e n t where "r = Inr ([e], n)" "ne_kind e = ''beacon''" "ne_dst_ip e = ''203.0.113.9''"
    "ne_tier e = Some t" "P e"
proof -
  obtain es n where r: "r = Inr (es, n)" using assms by (cases r) (auto simp: one_beacon_def)
  moreover obtain e where "es = [e]"
    using assms r by (cases es rule: remdups_adj.cases) (auto simp: one_beacon_def)
  ultimately show thesis using assms that by (auto simp: one_beacon_Inr)
qed

lemma sample_run_beacon: "one_beacon sample_run (\<lambda>e. \<not> static_or_rep e)"
  by code_simp

lemma bad_run_beacon: "one_beacon bad_run (\<lambda>e. ne_reputation_hit e)"
  by code_simp

lemma confirmed_iff_witness: "one_beacon bad_run (\<lambda>e. ne_tier e = Some Confirmed)"
proof -
  obtain e n t where e: "bad_run = Inr ([e], n)" "ne_kind e = ''beacon''" "ne_dst_ip e = ''203.0.113.9''"
      "ne_tier e = Some t" "ne_reputation_hit e"
    by (rule one_beaconE [OF bad_run_beacon])
  have "clean_db (sample_env [(''203.0.113.9'', bad_row)])" by (simp add: clean_db_def sample_env_def)
  from confirmed_iff_independent_indicator [OF e(1) [unfolded bad_run_def] this, of e] e
  show ?thesis unfolding e(1) one_beacon_Inr by simp
qed

lemma pipeline_keeps_witness: "one_beacon sample_run (\<lambda>e. \<not> is_private_ip (ne_dst_ip e))"
proof -
  obtain e n t where e: "sample_run = Inr ([e], n)" "ne_kind e = ''beacon''" "ne_dst_ip e = ''203.0.113.9''"
      "ne_tier e = Some t" "\<not> static_or_rep e"
    by (rule one_beaconE [OF sample_run_beacon])
  have "is_private_ip (ne_dst_ip e) \<longrightarrow> ne_kind e \<in> set internal_kinds"
    using pipeline_keeps_findings [OF e(1) [unfolded sample_run_def]] by auto
  then show ?thesis using e(2-4) unfolding e(1) one_beacon_Inr by (simp add: internal_kinds_def)
qed

lemma bad_clock_witness: "one_beacon sample_run (\<lambda>e. ne_tier e \<noteq> Some Strong \<and> ne_tier e \<noteq> Some Confirmed)"
proof -
  obtain e n t where e: "sample_run = Inr ([e], n)" "ne_kind e = ''beacon''" "ne_dst_ip e = ''203.0.113.9''"
      "ne_tier e = Some t" "\<not> static_or_rep e"
    by (rule one_beaconE [OF sample_run_beacon])
  have "\<not> ho_clock_ok sample_handoff" "e \<in> set [e]" by (simp_all add: sample_handoff_def)
  from bad_clock_caps_beacons [OF e(1) [unfolded sample_run_def] this e(2,5,4)]
  have "t \<le> Weak" .
  then show ?thesis using e(2-4) unfolding e(1) one_beacon_Inr by (auto simp: tier_simps)
qed

end
