(* ===== verification/Json.thy ===== *)
theory Json
  imports PyVal "HOL-Library.List_Lexorder" "HOL-Library.Char_ord" "HOL-Library.Product_Lexorder"
begin

text \<open>
  \<open>json.dumps(v, sort_keys=True)\<close>: the canonical text that the custody chain hashes. Strings are
  UTF-8 bytes here, so the escapes of non-ASCII characters go through their code points.
\<close>

section \<open>Strings\<close>

text \<open>Code points of UTF-8 bytes; a stray byte stands for itself.\<close>

fun code_points :: "int list \<Rightarrow> int list" where
  "code_points (a # b # c # d # r) =
     (if a < 0xC0 then a # code_points (b # c # d # r)
      else if a < 0xE0 then ((a - 0xC0) * 64 + (b - 0x80)) # code_points (c # d # r)
      else if a < 0xF0 then (((a - 0xE0) * 64 + (b - 0x80)) * 64 + (c - 0x80)) # code_points (d # r)
      else ((((a - 0xF0) * 64 + (b - 0x80)) * 64 + (c - 0x80)) * 64 + (d - 0x80)) # code_points r)"
| "code_points (a # b # c # []) =
     (if a < 0xC0 then a # code_points [b, c]
      else if a < 0xE0 then ((a - 0xC0) * 64 + (b - 0x80)) # code_points [c]
      else [((a - 0xE0) * 64 + (b - 0x80)) * 64 + (c - 0x80)])"
| "code_points (a # b # []) =
     (if a < 0xC0 then a # code_points [b] else [(a - 0xC0) * 64 + (b - 0x80)])"
| "code_points [a] = [a]"
| "code_points [] = []"

definition hex4 :: "int \<Rightarrow> string" where
  "hex4 n = map (\<lambda>k. ''0123456789abcdef'' ! nat (n div 16 ^ k mod 16)) [3, 2, 1, 0]"

definition u_escape :: "int \<Rightarrow> string" where
  "u_escape n =
     (let e = (\<lambda>k. [char_of (92 :: nat), CHR ''u''] @ hex4 k) in
      if n < 0x10000 then e n
      else e (0xD800 + (n - 0x10000) div 1024) @ e (0xDC00 + (n - 0x10000) mod 1024))"

definition json_char :: "int \<Rightarrow> string" where
  "json_char n =
     (let bs = char_of (92 :: nat) in
      if n = 34 \<or> n = 92 then [bs, char_of n]
      else if n = 10 then [bs, CHR ''n''] else if n = 13 then [bs, CHR ''r'']
      else if n = 9 then [bs, CHR ''t''] else if n = 12 then [bs, CHR ''f'']
      else if n = 8 then [bs, CHR ''b'']
      else if 32 \<le> n \<and> n \<le> 126 then [char_of n]
      else u_escape n)"

definition json_string :: "string \<Rightarrow> string" where
  "json_string s =
     [char_of (34 :: nat)] @ concat (map json_char (code_points (map of_char s))) @ [char_of (34 :: nat)]"

section \<open>Values\<close>

fun json_dumps :: "pyval \<Rightarrow> string" where
  "json_dumps JNull = ''null''"
| "json_dumps (JBool b) = (if b then ''true'' else ''false'')"
| "json_dumps (JInt k) = int_str k"
| "json_dumps (JFloat x) = float_repr x"
| "json_dumps (JStr s) = json_string s"
| "json_dumps (JList xs) = ''['' @ join '', '' (map json_dumps xs) @ '']''"
| "json_dumps (JObj d) = [char_of (123 :: nat)]
     @ join '', '' (map (\<lambda>(k, t). json_string k @ '': '' @ t)
         (sort_key fst (map (\<lambda>(k, v). (k, json_dumps v)) d)))
     @ [char_of (125 :: nat)]"

text \<open>\<open>json.dumps(v, indent=2)\<close> at a nesting level; keys keep their order.\<close>

definition new_line :: "nat \<Rightarrow> string" where
  "new_line level = char_of (10 :: nat) # replicate (2 * level) (CHR '' '')"

fun json_pretty :: "nat \<Rightarrow> pyval \<Rightarrow> string" where
  "json_pretty l (JList xs) =
     (if xs = [] then ''[]''
      else ''['' @ new_line (Suc l) @ join ('','' @ new_line (Suc l)) (map (json_pretty (Suc l)) xs)
           @ new_line l @ '']'')"
| "json_pretty l (JObj d) =
     (if d = [] then [char_of (123 :: nat), char_of (125 :: nat)]
      else [char_of (123 :: nat)] @ new_line (Suc l)
           @ join ('','' @ new_line (Suc l)) (map (\<lambda>(k, v). json_string k @ '': '' @ json_pretty (Suc l) v) d)
           @ new_line l @ [char_of (125 :: nat)])"
| "json_pretty l v = json_dumps v"

end
