(* ===== verification/Evidence.thy ===== *)
theory Evidence
  imports Orchestrator Json
begin

text \<open>
  The evidence rows and their custody chain: \<open>orchestrator.emit_schema_rows\<close>,
  \<open>evidence.verify_chain\<close>, \<open>evidence.build_case_manifest\<close> and the seeded check with which
  \<open>scripts/build-c2-result.py\<close> seals a result. SHA-256 is the parameter \<open>H\<close> from the hashed text
  to the hex digest; \<open>uuid4\<close> is a function of the row's position.
\<close>

type_synonym row = "(string \<times> pyval) list"

section \<open>The hash chain\<close>

text \<open>
  The contract of a chained record: sealing stores a digest that can be read back and is not part
  of what is hashed.
\<close>

locale hash_chain =
  fixes link :: "'h \<Rightarrow> 'r \<Rightarrow> 'h" and stored :: "'r \<Rightarrow> 'h option" and seal :: "'r \<Rightarrow> 'h \<Rightarrow> 'r"
  assumes stored_seal: "stored (seal r h) = Some h"
    and link_seal: "link p (seal r h) = link p r"
begin

primrec seal_from :: "'h \<Rightarrow> 'r list \<Rightarrow> 'r list" where
  "seal_from p [] = []"
| "seal_from p (r # rs) = seal r (link p r) # seal_from (link p r) rs"

primrec valid_from :: "'h \<Rightarrow> 'r list \<Rightarrow> bool" where
  "valid_from p [] = True"
| "valid_from p (r # rs) = (stored r = Some (link p r) \<and> valid_from (link p r) rs)"

primrec tip :: "'h \<Rightarrow> 'r list \<Rightarrow> 'h" where
  "tip p [] = p"
| "tip p (r # rs) = tip (link p r) rs"

lemma seal_valid: "valid_from p (seal_from p rs)"
  by (induction rs arbitrary: p) (simp_all add: stored_seal link_seal)

lemma tip_seal: "tip p (seal_from p rs) = tip p rs"
  by (induction rs arbitrary: p) (simp_all add: link_seal)

lemma valid_append: "valid_from p (xs @ ys) \<longleftrightarrow> valid_from p xs \<and> valid_from (tip p xs) ys"
  by (induction xs arbitrary: p) simp_all

lemma tip_stored: "valid_from p xs \<Longrightarrow> xs \<noteq> [] \<Longrightarrow> stored (last xs) = Some (tip p xs)"
  by (induction xs arbitrary: p) auto

text \<open>The predecessor each record is linked to.\<close>

primrec preds :: "'h \<Rightarrow> 'r list \<Rightarrow> 'h list" where
  "preds p [] = []"
| "preds p (r # rs) = p # preds (link p r) rs"

text \<open>
  When equal links come from equal predecessors and contents or else from a collision, two chains
  with one tip have the same contents or exhibit a collision at some position.
\<close>

lemma tip_determines:
  assumes sep: "\<And>p q r s. good p \<Longrightarrow> good q \<Longrightarrow> link p r = link q s \<Longrightarrow>
      p = q \<and> content r = content s \<or> collide p r q s"
    and good: "\<And>p r. good (link p r)"
  shows "length xs = length ys \<Longrightarrow> good p \<Longrightarrow> good q \<Longrightarrow> tip p xs = tip q ys \<Longrightarrow>
    p = q \<and> map content xs = map content ys
    \<or> (\<exists>i < length xs. collide (preds p xs ! i) (xs ! i) (preds q ys ! i) (ys ! i))"
proof (induction xs ys arbitrary: p q rule: list_induct2)
  case (Cons x xs y ys)
  let ?later = "\<exists>i < length xs. collide (preds (link p x) xs ! i) (xs ! i) (preds (link q y) ys ! i) (ys ! i)"
  have "link p x = link q y \<and> map content xs = map content ys \<or> ?later"
    using Cons.IH [OF good good] Cons.prems(3) by simp
  then show ?case
  proof
    assume same: "link p x = link q y \<and> map content xs = map content ys"
    then show ?case using sep [OF Cons.prems(1,2), of x y] by fastforce
  next
    assume ?later
    then obtain i where "i < length xs"
      "collide (preds (link p x) xs ! i) (xs ! i) (preds (link q y) ys ! i) (ys ! i)" by blast
    then show ?case by (intro disjI2 exI [of _ "Suc i"]) simp
  qed
qed simp

end

section \<open>Rows\<close>

definition zero_seed :: string where
  "zero_seed = replicate 64 (CHR ''0'')"

definition row_content :: "row \<Rightarrow> row" where
  "row_content r = filter (\<lambda>(k, v). k \<noteq> ''evidence_hash'') r"

definition row_link :: "(string \<Rightarrow> string) \<Rightarrow> string \<Rightarrow> row \<Rightarrow> string" where
  "row_link H prev r = H (prev @ json_dumps (JObj (row_content r)))"

definition row_hash :: "row \<Rightarrow> string option" where
  "row_hash r = (case get r ''evidence_hash'' of JStr s \<Rightarrow> Some s | _ \<Rightarrow> None)"

definition seal_row :: "row \<Rightarrow> string \<Rightarrow> row" where
  "seal_row r h = dict_set ''evidence_hash'' (JStr h) r"

definition str_val :: "string option \<Rightarrow> pyval" where
  "str_val s = (case s of None \<Rightarrow> JNull | Some t \<Rightarrow> JStr t)"

fun tier_name :: "tier \<Rightarrow> string" where
  "tier_name Allowlisted = ''allowlisted''"
| "tier_name Unconfirmed = ''unconfirmed''"
| "tier_name Weak = ''weak''"
| "tier_name Strong = ''strong''"
| "tier_name Confirmed = ''confirmed''"

definition mitre :: "(string \<times> string) list" where
  "mitre = [(''browser_credentials'', ''T1555.003''), (''keystrokes'', ''T1056.001''),
     (''screenshot'', ''T1113''), (''exfil'', ''T1041''), (''beacon'', ''T1071.001''),
     (''ja3'', ''T1573''), (''tls_cert'', ''T1573''), (''dns_tunnel'', ''T1071.004''),
     (''dga'', ''T1568.002''), (''cloud_exfil'', ''T1567.002''), (''cloud_staging'', ''T1105''),
     (''smtp_exfil'', ''T1048.003''), (''http_c2'', ''T1071.001''), (''icmp_tunnel'', ''T1095''),
     (''port_mismatch'', ''T1571''), (''static_ioc'', ''T1071''), (''unclassified_egress'', ''T1041'')]"

text \<open>The per-run columns shared by both kinds of row.\<close>

record run_ids =
  rn_sample :: string
  rn_session :: pyval
  rn_task :: pyval

definition row_head :: "run_ids \<Rightarrow> string \<Rightarrow> row" where
  "row_head ids uuid =
     [(''event_id'', JStr uuid), (''sample_id'', JStr (rn_sample ids)),
      (''session_id'', rn_session ids), (''cape_task_id'', rn_task ids), (''platform'', JStr ''windows'')]"

definition net_match :: "net_event list \<Rightarrow> corr_event \<Rightarrow> net_event option" where
  "net_match nets c = find (\<lambda>n. ne_dst_ip n = ce_dst_ip c \<and> ne_dst_port n = ce_dst_port c) nets"

definition score_val :: "bool \<Rightarrow> pyval" where
  "score_val hit = JFloat (if hit then 1 else 0)"

definition corr_row :: "run_ids \<Rightarrow> net_event list \<Rightarrow> string \<Rightarrow> corr_event \<Rightarrow> row" where
  "corr_row ids nets uuid c =
     (let m = net_match nets c; col = (\<lambda>f. str_val (Option.bind m f)) in
      row_head ids uuid @
      [(''timestamp'', JStr (ce_network_ts c)),
       (''data_type_accessed'', str_val (ce_data_type c)), (''access_api_call'', str_val (ce_api_call c)),
       (''destination_ip'', JStr (ce_dst_ip c)), (''destination_port'', JInt (ce_dst_port c)),
       (''destination_domain'', col ne_domain), (''asn'', col ne_asn), (''asn_org'', col ne_asn_org),
       (''geo_country'', col ne_geo_country), (''reputation_score'', score_val (ce_reputation_hit c)),
       (''reputation_note'', col ne_reputation_note), (''reputation_source'', col ne_reputation_source),
       (''ja3_hash'', col ne_ja3_hash),
       (''plaintext_available'', case m of None \<Rightarrow> JNull | Some n \<Rightarrow> JBool (ne_plaintext n)),
       (''confidence_score'', JFloat (ce_confidence c)),
       (''confidence_tier'', JStr (tier_name (ce_tier c))),
       (''mitre_technique_id'',
          str_val (str_or (ce_mitre c) (Option.bind (ce_data_type c) (map_of mitre))))])"

definition net_row :: "run_ids \<Rightarrow> string \<Rightarrow> net_event \<Rightarrow> row" where
  "net_row ids uuid e =
     row_head ids uuid @
     [(''timestamp'', JStr (ne_timestamp e)), (''data_type_accessed'', JNull), (''access_api_call'', JNull),
      (''destination_ip'', JStr (ne_dst_ip e)), (''destination_port'', JInt (ne_dst_port e)),
      (''destination_domain'', str_val (ne_domain e)), (''asn'', str_val (ne_asn e)),
      (''asn_org'', str_val (ne_asn_org e)), (''geo_country'', str_val (ne_geo_country e)),
      (''reputation_score'', score_val (ne_reputation_hit e)),
      (''reputation_note'', str_val (ne_reputation_note e)),
      (''reputation_source'', str_val (ne_reputation_source e)),
      (''ja3_hash'', str_val (ne_ja3_hash e)), (''plaintext_available'', JBool (ne_plaintext e)),
      (''confidence_score'', JFloat (ne_confidence e)),
      (''confidence_tier'', JStr (tier_name (case ne_tier e of Some t \<Rightarrow> t
          | None \<Rightarrow> if ne_reputation_hit e then Confirmed else Weak))),
      (''mitre_technique_id'', str_val (map_of mitre (ne_kind e)))]"

text \<open>
  The emitting loop over the unsealed rows: the first row records a seed that is not the default
  one, then each row is hashed onto its predecessor.
\<close>

fun seal_rows :: "(string \<Rightarrow> string) \<Rightarrow> string \<Rightarrow> row list \<Rightarrow> row list" where
  "seal_rows H prev [] = []"
| "seal_rows H prev (r # rs) =
     (let h = row_link H prev r in seal_row r h # seal_rows H h rs)"

definition mark_seed :: "string \<Rightarrow> row list \<Rightarrow> row list" where
  "mark_seed seed rows =
     (case rows of
        [] \<Rightarrow> []
      | r # rs \<Rightarrow> (if seed \<noteq> zero_seed then r @ [(''manifest_sha256'', JStr seed)] else r) # rs)"

definition chain_seed :: "handoff option \<Rightarrow> string" where
  "chain_seed ho =
     (case Option.bind ho ho_manifest_sha256 of
        None \<Rightarrow> zero_seed
      | Some s \<Rightarrow> if s = [] then zero_seed else s)"

definition run_ids_of :: "string \<Rightarrow> handoff option \<Rightarrow> run_ids" where
  "run_ids_of sample ho =
     \<lparr>rn_sample = sample,
      rn_session = (case ho of None \<Rightarrow> JNull | Some h \<Rightarrow> ho_session_id h),
      rn_task = (case ho of None \<Rightarrow> JNull | Some h \<Rightarrow> ho_cape_task_id h)\<rparr>"

definition unsealed_rows ::
    "(nat \<Rightarrow> string) \<Rightarrow> net_event list \<Rightarrow> corr_event list \<Rightarrow> string \<Rightarrow> handoff option \<Rightarrow> row list" where
  "unsealed_rows uuid nets cs sample ho =
     (let ids = run_ids_of sample ho in
      map (\<lambda>(i, c). corr_row ids nets (uuid i) c) (List.enumerate 0 cs)
      @ map (\<lambda>(i, e). net_row ids (uuid i) e) (List.enumerate (length cs) nets))"

definition emit_schema_rows ::
    "(string \<Rightarrow> string) \<Rightarrow> (nat \<Rightarrow> string) \<Rightarrow> net_event list \<Rightarrow> corr_event list \<Rightarrow> string \<Rightarrow> handoff option \<Rightarrow> row list" where
  "emit_schema_rows H uuid nets cs sample ho =
     seal_rows H (chain_seed ho) (mark_seed (chain_seed ho) (unsealed_rows uuid nets cs sample ho))"

section \<open>Verification\<close>

fun verify_from :: "(string \<Rightarrow> string) \<Rightarrow> string \<Rightarrow> int \<Rightarrow> row list \<Rightarrow> bool \<times> int" where
  "verify_from H prev i [] = (True, - 1)"
| "verify_from H prev i (r # rs) =
     (let expected = row_link H prev r in
      if row_hash r \<noteq> Some expected then (False, i) else verify_from H expected (i + 1) rs)"

definition verify_chain :: "(string \<Rightarrow> string) \<Rightarrow> row list \<Rightarrow> bool \<times> int" where
  "verify_chain H rows = verify_from H zero_seed 0 rows"

text \<open>The texts that the verifier hashes, one per row: the running digest before the row's JSON.\<close>

fun hashed_texts :: "(string \<Rightarrow> string) \<Rightarrow> string \<Rightarrow> row list \<Rightarrow> string list" where
  "hashed_texts H prev [] = []"
| "hashed_texts H prev (r # rs) =
     (prev @ json_dumps (JObj (row_content r))) # hashed_texts H (row_link H prev r) rs"

text \<open>The check of \<open>build-c2-result.py\<close>; the custody tip when it passes.\<close>

fun check_rows :: "(string \<Rightarrow> string) \<Rightarrow> pyval \<Rightarrow> pyval \<Rightarrow> string \<Rightarrow> nat \<Rightarrow> string \<Rightarrow> row list \<Rightarrow> string res" where
  "check_rows H session task seed index previous [] = Inr previous"
| "check_rows H session task seed index previous (raw # raws) =
     (if get raw ''session_id'' \<noteq> session \<or> get raw ''cape_task_id'' \<noteq> task
      then Inl (SystemExit (''event '' @ nat_str index @ '' handoff join identity mismatch''))
      else let manifest_link = get raw ''manifest_sha256'' in
        if (index = 0 \<and> manifest_link \<noteq> JStr seed) \<or> (0 < index \<and> manifest_link \<noteq> JNull)
        then Inl (SystemExit ''invalid event custody seed placement'')
        else let actual = row_link H previous raw in
          if row_hash raw \<noteq> Some actual
          then Inl (SystemExit (''event '' @ nat_str index @ '' evidence chain mismatch''))
          else check_rows H session task seed (Suc index) actual raws)"

definition check_result ::
    "(string \<Rightarrow> string) \<Rightarrow> pyval \<Rightarrow> int \<Rightarrow> string \<Rightarrow> row list \<Rightarrow> string res" where
  "check_result H session task_id manifest_hash rows =
     (let seed = str_lower manifest_hash in
      check_rows H (JStr (py_str session)) (JInt task_id) seed 0 seed rows)"

section \<open>Case manifest\<close>

record input_record =
  inp_role :: string
  inp_path :: string
  inp_sha256 :: string
  inp_size :: nat

text \<open>\<open>os.path.join\<close> of a directory and a file name.\<close>

definition join_path :: "string \<Rightarrow> string \<Rightarrow> string" where
  "join_path d n = (if ends_with d ''/'' then d @ n else d @ ''/'' @ n)"

text \<open>Files by path; \<open>os.listdir\<close> of the Zeek directory as a list of names.\<close>

definition input_of :: "(string \<Rightarrow> string) \<Rightarrow> (string \<Rightarrow> string option) \<Rightarrow> string \<Rightarrow> string \<Rightarrow> input_record list" where
  "input_of H file role p =
     (case file p of
        None \<Rightarrow> []
      | Some s \<Rightarrow> [\<lparr>inp_role = role, inp_path = p, inp_sha256 = H s, inp_size = length s\<rparr>])"

definition collect_inputs ::
    "(string \<Rightarrow> string) \<Rightarrow> (string \<Rightarrow> string option) \<Rightarrow> (string \<Rightarrow> string list option)
       \<Rightarrow> string option \<Rightarrow> string option \<Rightarrow> string option \<Rightarrow> input_record list" where
  "collect_inputs H file listdir sample pcap zeek_dir =
     (if truthy sample then input_of H file ''sample'' (the sample) else [])
     @ (if truthy pcap then input_of H file ''pcap'' (the pcap) else [])
     @ (if truthy zeek_dir
        then case listdir (the zeek_dir) of
               None \<Rightarrow> []
             | Some entries \<Rightarrow>
                 concat (map (\<lambda>n. input_of H file ''zeek_log'' (join_path (the zeek_dir) n))
                   (filter (\<lambda>n. ends_with n ''.log'') (sort entries)))
        else [])"

definition case_text :: "input_record list \<Rightarrow> (string \<times> pyval) list \<Rightarrow> string" where
  "case_text inputs params =
     json_dumps (JObj [(''inputs'', JList (map JStr (sort (map inp_sha256 inputs)))), (''parameters'', JObj params)])"

definition case_id :: "(string \<Rightarrow> string) \<Rightarrow> input_record list \<Rightarrow> (string \<times> pyval) list \<Rightarrow> string" where
  "case_id H inputs params = H (case_text inputs params)"

section \<open>Lemmas\<close>

lemma row_content_set: "row_content (dict_set ''evidence_hash'' v r) = row_content r"
  unfolding row_content_def by (induction r) auto

interpretation custody: hash_chain "row_link H" row_hash seal_row
  by unfold_locales
    (simp_all add: seal_row_def row_hash_def get_def row_link_def row_content_set)

lemma seal_rows_eq: "seal_rows H p rs = custody.seal_from H p rs"
  by (induction rs arbitrary: p) (simp_all add: Let_def)

lemma hashed_texts_nth:
  "i < length rs \<Longrightarrow>
     hashed_texts H p rs ! i = custody.preds H p rs ! i @ json_dumps (JObj (row_content (rs ! i)))"
  by (induction rs arbitrary: p i) (auto simp: nth_Cons split: nat.split)

lemma verify_from_eq:
  "fst (verify_from H p i rs) \<longleftrightarrow> custody.valid_from H p rs"
  by (induction rs arbitrary: p i) (simp_all add: Let_def)

lemma verify_from_index:
  "0 \<le> i \<Longrightarrow> snd (verify_from H p i rs) = - 1 \<longleftrightarrow> custody.valid_from H p rs"
  by (induction rs arbitrary: p i) (auto simp: Let_def)

lemma length_zero_seed: "length zero_seed = 64"
  by (simp add: zero_seed_def)

lemma verify_chain_valid: "verify_chain H rows = (True, - 1) \<longleftrightarrow> custody.valid_from H zero_seed rows"
  unfolding verify_chain_def prod_eq_iff fst_conv snd_conv
  using verify_from_eq [of H zero_seed 0 rows] verify_from_index [of 0 H zero_seed rows] by blast

lemma unsealed_get:
  assumes "r \<in> set (unsealed_rows uuid nets cs sample ho)"
  shows "get r ''session_id'' = rn_session (run_ids_of sample ho)"
    and "get r ''cape_task_id'' = rn_task (run_ids_of sample ho)"
    and "map_of r ''manifest_sha256'' = None" and "map_of r ''evidence_hash'' = None"
  using assms
  by (auto simp: unsealed_rows_def Let_def corr_row_def net_row_def row_head_def)

lemma get_seal_row: "k \<noteq> ''evidence_hash'' \<Longrightarrow> get (seal_row r h) k = get r k"
  by (simp add: seal_row_def get_def)

lemma get_append: "get (r @ d) k = (if map_of r k = None then get d k else get r k)"
  by (simp add: get_def map_add_def split: option.splits)

lemma get_append_present: "get r k \<noteq> JNull \<Longrightarrow> get (r @ d) k = get r k"
  by (cases "map_of r k") (simp_all add: get_def map_add_def)

text \<open>What the result check needs of the unsealed rows.\<close>

definition joined :: "pyval \<Rightarrow> pyval \<Rightarrow> row \<Rightarrow> bool" where
  "joined session task r \<longleftrightarrow> get r ''session_id'' = session \<and> get r ''cape_task_id'' = task"

lemma check_rows_sealed:
  assumes "\<forall>r \<in> set rs. joined session task r \<and> get r ''manifest_sha256'' = JNull"
  shows "check_rows H session task seed (Suc i) p (seal_rows H p rs) = Inr (custody.tip H p rs)"
  using assms
proof (induction rs arbitrary: p i)
  case (Cons r rs)
  have "row_link H p (seal_row r h) = row_link H p r" for h by (rule custody.link_seal)
  moreover have "row_hash (seal_row r h) = Some h" for h by (rule custody.stored_seal)
  ultimately show ?case
    using Cons by (simp add: Let_def joined_def get_seal_row)
qed simp

lemma check_rows_first:
  assumes "joined session task r" "get r ''manifest_sha256'' = JStr seed"
    and "\<forall>r \<in> set rs. joined session task r \<and> get r ''manifest_sha256'' = JNull"
  shows "check_rows H session task seed 0 p (seal_rows H p (r # rs)) = Inr (custody.tip H p (r # rs))"
proof -
  have "row_link H p (seal_row r h) = row_link H p r" "row_hash (seal_row r h) = Some h" for h
    by (rule custody.link_seal, rule custody.stored_seal)
  then show ?thesis
    using assms check_rows_sealed [OF assms(3)] by (simp add: Let_def joined_def get_seal_row)
qed

lemma mark_seed_default: "mark_seed zero_seed rows = rows"
  by (cases rows) (simp_all add: mark_seed_def)

lemma length_seal_rows [simp]: "length (seal_rows H p rs) = length rs"
  by (induction rs arbitrary: p) (simp_all add: Let_def)

lemma length_unsealed: "length (unsealed_rows uuid nets cs sample ho) = length cs + length nets"
  by (simp add: unsealed_rows_def Let_def)

lemma length_emit: "length (emit_schema_rows H uuid nets cs sample ho) = length cs + length nets"
proof -
  have "length (mark_seed seed rows) = length rows" for seed rows
    by (cases rows) (simp_all add: mark_seed_def)
  then show ?thesis by (simp add: emit_schema_rows_def length_unsealed)
qed

section \<open>Properties\<close>

text \<open>
  The custody chain of a run without a hand-off hash is accepted: the rows emitted with the
  default seed pass \<open>verify_chain\<close>, and there is one row per correlated and per network finding.
\<close>

theorem unseeded_chain_verifies:
  "chain_seed ho = zero_seed \<Longrightarrow>
     verify_chain H (emit_schema_rows H uuid nets cs sample ho) = (True, - 1)
     \<and> length (emit_schema_rows H uuid nets cs sample ho) = length cs + length nets"
proof -
  assume seed: "chain_seed ho = zero_seed"
  have "custody.valid_from H zero_seed (emit_schema_rows H uuid nets cs sample ho)"
    unfolding emit_schema_rows_def seal_rows_eq seed by (rule custody.seal_valid)
  then have "verify_chain H (emit_schema_rows H uuid nets cs sample ho) = (True, - 1)"
    by (rule verify_chain_valid [THEN iffD2])
  then show ?thesis by (intro conjI length_emit)
qed

text \<open>
  C15. A chain linked to the hand-off is rejected by \<open>verify_chain\<close>: with any seed other than the
  default one the check that an independent party is told to run fails at row 0, unless the
  digests of the first row's text after the two seeds happen to be the same.
\<close>

theorem seeded_chain_fails_verification:
  assumes "chain_seed ho \<noteq> zero_seed" and "cs \<noteq> [] \<or> nets \<noteq> []"
  shows "let rows = emit_schema_rows H uuid nets cs sample ho;
             text = json_dumps (JObj (row_content (hd rows)))
         in H (chain_seed ho @ text) = H (zero_seed @ text) \<or> verify_chain H rows = (False, 0)"
proof -
  let ?seed = "chain_seed ho"
  let ?rows = "mark_seed ?seed (unsealed_rows uuid nets cs sample ho)"
  have "unsealed_rows uuid nets cs sample ho \<noteq> []"
    using assms(2) length_unsealed [of uuid nets cs sample ho] by (metis add_is_0 length_0_conv)
  then obtain r rs where rows: "?rows = r # rs"
    by (cases "unsealed_rows uuid nets cs sample ho") (auto simp: mark_seed_def)
  have emit: "emit_schema_rows H uuid nets cs sample ho
      = seal_row r (row_link H ?seed r) # seal_rows H (row_link H ?seed r) rs"
    by (simp add: emit_schema_rows_def rows Let_def)
  have content: "row_content (seal_row r h) = row_content r" for h
    by (simp add: seal_row_def row_content_set)
  have "row_hash (seal_row r (row_link H ?seed r)) = Some (row_link H ?seed r)"
    by (rule custody.stored_seal)
  then show ?thesis
    by (simp add: verify_chain_def emit Let_def row_link_def content)
qed

text \<open>
  C4. The result builder accepts exactly what the analyzer emits for its hand-off: rows emitted
  for a hand-off with a string session, an integer task and a lower-case manifest hash pass its
  seeded check, and the custody tip it records is the chain value after the last row.
\<close>

theorem emitted_rows_pass_result_check:
  assumes "ho_session_id h = JStr session" "ho_cape_task_id h = JInt task"
    and "ho_manifest_sha256 h = Some seed" "seed \<noteq> []" "seed \<noteq> zero_seed" "str_lower seed = seed"
  shows "\<exists>tip. check_result H (JStr session) task seed (emit_schema_rows H uuid nets cs sample (Some h)) = Inr tip
     \<and> (\<forall>r. emit_schema_rows H uuid nets cs sample (Some h) \<noteq> []
            \<and> r = last (emit_schema_rows H uuid nets cs sample (Some h)) \<longrightarrow> row_hash r = Some tip)"
proof -
  let ?u = "unsealed_rows uuid nets cs sample (Some h)"
  let ?m = "mark_seed seed ?u"
  have seed: "chain_seed (Some h) = seed" using assms(3,4) by (simp add: chain_seed_def)
  have ids: "joined (JStr session) (JInt task) r \<and> get r ''manifest_sha256'' = JNull" if "r \<in> set ?u" for r
    using unsealed_get [OF that] assms(1,2) by (simp add: joined_def run_ids_of_def get_def)
  have check: "check_rows H (JStr session) (JInt task) seed 0 seed (seal_rows H seed ?m) = Inr (custody.tip H seed ?m)"
  proof (cases ?u)
    case Nil
    then show ?thesis by (simp add: mark_seed_def)
  next
    case (Cons r rs)
    let ?r = "r @ [(''manifest_sha256'', JStr seed)]"
    have m: "?m = ?r # rs" using assms(5) by (simp add: mark_seed_def Cons)
    have r: "r \<in> set ?u" by (simp add: Cons)
    note fields = unsealed_get [OF r]
    have "joined (JStr session) (JInt task) ?r"
      using fields(1,2) assms(1,2) by (simp add: joined_def get_append_present run_ids_of_def)
    moreover have "get ?r ''manifest_sha256'' = JStr seed" using fields(3) by (simp add: get_append)
    moreover have "\<forall>r \<in> set rs. joined (JStr session) (JInt task) r \<and> get r ''manifest_sha256'' = JNull"
      using ids by (simp add: Cons)
    ultimately show ?thesis unfolding m by (rule check_rows_first)
  qed
  have emit: "emit_schema_rows H uuid nets cs sample (Some h) = custody.seal_from H seed ?m"
    by (simp add: emit_schema_rows_def seed seal_rows_eq)
  have "row_hash (last (emit_schema_rows H uuid nets cs sample (Some h))) = Some (custody.tip H seed ?m)"
    if "emit_schema_rows H uuid nets cs sample (Some h) \<noteq> []"
    using that custody.tip_stored [OF custody.seal_valid] unfolding emit by (simp add: custody.tip_seal)
  then show ?thesis
    using check assms(6) emit by (auto simp: check_result_def seal_rows_eq emit_schema_rows_def seed)
qed

text \<open>
  C5. The chain is tamper evident: two accepted sequences of the same length with the same last
  digest have the same contents (their canonical JSON agrees row by row), or at some position
  the two verifications hash different texts to the same digest, a collision one can point at;
  digests are assumed to have 64 characters, as hex SHA-256 has.
\<close>

theorem chain_tamper_evident:
  assumes "verify_chain H xs = (True, - 1)" "verify_chain H ys = (True, - 1)"
    and "length xs = length ys" "xs \<noteq> []" "row_hash (last xs) = row_hash (last ys)"
    and "\<forall>x. length (H x) = 64"
  shows "map (\<lambda>r. json_dumps (JObj (row_content r))) xs = map (\<lambda>r. json_dumps (JObj (row_content r))) ys
     \<or> (\<exists>i < length xs. hashed_texts H zero_seed xs ! i \<noteq> hashed_texts H zero_seed ys ! i
          \<and> H (hashed_texts H zero_seed xs ! i) = H (hashed_texts H zero_seed ys ! i))"
proof -
  let ?c = "\<lambda>r. json_dumps (JObj (row_content r))"
  let ?collide = "\<lambda>p r q s. p @ ?c r \<noteq> q @ ?c s \<and> H (p @ ?c r) = H (q @ ?c s)"
  have "custody.valid_from H zero_seed xs" "custody.valid_from H zero_seed ys"
    using assms(1,2) by (simp_all only: verify_chain_valid)
  moreover have "ys \<noteq> []" using assms(3,4) by auto
  ultimately have tips: "custody.tip H zero_seed xs = custody.tip H zero_seed ys"
    using assms(4,5) custody.tip_stored by (metis option.inject)
  have sep: "p = q \<and> ?c r = ?c s \<or> ?collide p r q s"
    if "length p = 64" "length q = 64" "row_link H p r = row_link H q s" for p q r s
    using that by (auto simp: row_link_def)
  have "length (row_link H p r) = 64" for p r using assms(6) by (simp add: row_link_def)
  from custody.tip_determines [where good = "\<lambda>p. length p = 64" and content = ?c and collide = ?collide,
      OF sep this assms(3) length_zero_seed length_zero_seed tips]
  show ?thesis using assms(3) hashed_texts_nth by (metis (no_types, lifting))
qed


section \<open>The properties on concrete rows\<close>

lemma sample_seed: "chain_seed (Some sample_handoff) = replicate 64 (CHR ''a'')" "replicate 64 (CHR ''a'') \<noteq> zero_seed"
  by (simp_all add: chain_seed_def sample_handoff_def zero_seed_def)

lemma unseeded_chain_witness:
  "verify_chain (\<lambda>x. x) (emit_schema_rows (\<lambda>x. x) (\<lambda>_. ''id'') [sample_net] [] ''s'' None) = (True, - 1)"
  by (rule unseeded_chain_verifies [THEN conjunct1]) (simp add: chain_seed_def)

lemma seeded_chain_witness:
  "verify_chain (\<lambda>x. x) (emit_schema_rows (\<lambda>x. x) (\<lambda>_. ''id'') [sample_net] [] ''s'' (Some sample_handoff)) = (False, 0)"
  using seeded_chain_fails_verification [of "Some sample_handoff" "[]" "[sample_net]" "\<lambda>x. x" "\<lambda>_. ''id''" "''s''"]
  unfolding sample_seed(1) by (simp add: sample_seed(2) Let_def)

lemma emitted_rows_witness:
  "\<exists>tip. check_result (\<lambda>x. x) (JStr ''s1'') 7 (replicate 64 (CHR ''a''))
     (emit_schema_rows (\<lambda>x. x) (\<lambda>_. ''id'') [sample_net] [] ''s'' (Some sample_handoff)) = Inr tip"
proof -
  have fields: "ho_session_id sample_handoff = JStr ''s1''" "ho_cape_task_id sample_handoff = JInt 7"
    "ho_manifest_sha256 sample_handoff = Some (replicate 64 (CHR ''a''))"
    by (simp_all add: sample_handoff_def)
  have "replicate 64 (CHR ''a'') \<noteq> []" "str_lower (replicate 64 (CHR ''a'')) = replicate 64 (CHR ''a'')"
    by code_simp+
  from emitted_rows_pass_result_check [OF fields this(1) sample_seed(2) this(2)]
  show ?thesis by blast
qed

lemma chain_tamper_witness:
  "\<exists>i < 1. hashed_texts (\<lambda>_. zero_seed) zero_seed [seal_row [(''a'', JNull)] zero_seed] ! i
     \<noteq> hashed_texts (\<lambda>_. zero_seed) zero_seed [seal_row [(''b'', JNull)] zero_seed] ! i"
proof -
  let ?H = "\<lambda>_ :: string. zero_seed"
  let ?xs = "[seal_row [(''a'', JNull)] zero_seed]" and ?ys = "[seal_row [(''b'', JNull)] zero_seed]"
  have ok: "verify_chain ?H ?xs = (True, - 1)" "verify_chain ?H ?ys = (True, - 1)"
    "length ?xs = length ?ys" "?xs \<noteq> []" "row_hash (last ?xs) = row_hash (last ?ys)"
    by code_simp+
  have len: "\<forall>x. length (?H x) = 64" by (simp add: length_zero_seed)
  have "map (\<lambda>r. json_dumps (JObj (row_content r))) ?xs \<noteq> map (\<lambda>r. json_dumps (JObj (row_content r))) ?ys"
    by code_simp
  with chain_tamper_evident [OF ok len] show ?thesis by auto
qed

end
