(* ===== verification/PyNum.thy ===== *)
theory PyNum
  imports PyVal PyTime
begin

text \<open>
  Python's conversions and accesses on decoded JSON values that may fail: \<open>int(v)\<close>,
  \<open>float(v)\<close>, \<open>v.get(k, default)\<close>, \<open>v[k]\<close> and iteration. The special values \<open>nan\<close> and
  \<open>inf\<close> are not represented; a text that spells one is treated as not a number.
\<close>

section \<open>Numbers\<close>

text \<open>Digits with single underscores between them.\<close>

fun digit_run :: "string \<Rightarrow> bool" where
  "digit_run [] = False"
| "digit_run [c] = is_digit c"
| "digit_run (c # d # s) = (is_digit c \<and> (if d = CHR ''_'' then digit_run s else digit_run (d # s)))"

definition digits_value :: "string \<Rightarrow> int" where
  "digits_value s = dec_val (filter is_digit s)"

definition unsign :: "string \<Rightarrow> int \<times> string" where
  "unsign s =
     (case s of
        [] \<Rightarrow> (1, [])
      | c # r \<Rightarrow> if c = CHR ''-'' then (- 1, r) else if c = CHR ''+'' then (1, r) else (1, s))"

definition int_of_string :: "string \<Rightarrow> int option" where
  "int_of_string s =
     (let (sg, r) = unsign (strip s) in if digit_run r then Some (sg * digits_value r) else None)"

text \<open>\<open>digits[.digits][e[sign]digits]\<close>; one side of the point may be empty.\<close>

definition mantissa :: "string \<Rightarrow> rat option" where
  "mantissa s =
     (case split_once (CHR ''.'') s of
        None \<Rightarrow> if digit_run s then Some (of_int (digits_value s)) else None
      | Some (a, b) \<Rightarrow>
          if (a = [] \<or> digit_run a) \<and> (b = [] \<or> digit_run b) \<and> (a \<noteq> [] \<or> b \<noteq> [])
          then Some (of_int (digits_value a)
                 + of_int (digits_value b) / 10 ^ length (filter is_digit b))
          else None)"

definition float_of_string :: "string \<Rightarrow> pyfloat option" where
  "float_of_string s =
     (let (sg, r) = unsign (str_lower (strip s)) in
      case split_once (CHR ''e'') r of
        None \<Rightarrow> map_option (\<lambda>m. rnd (of_int sg * m)) (mantissa r)
      | Some (m, e) \<Rightarrow>
          (let (es, er) = unsign e in
           if digit_run er
           then map_option (\<lambda>v. rnd (of_int sg * v * 10 powi (es * digits_value er))) (mantissa m)
           else None))"

fun py_int :: "pyval \<Rightarrow> int res" where
  "py_int (JInt k) = Inr k"
| "py_int (JBool b) = Inr (if b then 1 else 0)"
| "py_int (JFloat x) = Inr (trunc x)"
| "py_int (JStr s) =
     (case int_of_string s of Some k \<Rightarrow> Inr k | None \<Rightarrow> Inl (ValueError ''invalid literal for int()''))"
| "py_int _ = Inl (TypeError ''int() argument'')"

fun py_float :: "pyval \<Rightarrow> pyfloat res" where
  "py_float (JInt k) = Inr (rnd (of_int k))"
| "py_float (JBool b) = Inr (if b then 1 else 0)"
| "py_float (JFloat x) = Inr x"
| "py_float (JStr s) =
     (case float_of_string s of Some x \<Rightarrow> Inr x | None \<Rightarrow> Inl (ValueError ''could not convert string to float''))"
| "py_float _ = Inl (TypeError ''float() argument'')"

section \<open>Equality\<close>

text \<open>\<open>a == b\<close> for values that are not containers.\<close>

fun num_of :: "pyval \<Rightarrow> rat option" where
  "num_of (JBool b) = Some (if b then 1 else 0)"
| "num_of (JInt k) = Some (of_int k)"
| "num_of (JFloat x) = Some x"
| "num_of v = None"

definition py_eq :: "pyval \<Rightarrow> pyval \<Rightarrow> bool" where
  "py_eq a b \<longleftrightarrow> (case (num_of a, num_of b) of (Some x, Some y) \<Rightarrow> x = y | _ \<Rightarrow> a = b)"

section \<open>Access\<close>

text \<open>\<open>v.get(k, default)\<close> and \<open>v[k]\<close>.\<close>

definition get_default :: "pyval \<Rightarrow> string \<Rightarrow> pyval \<Rightarrow> pyval res" where
  "get_default v k dflt =
     (if is_obj v then Inr (case map_of (obj_of v) k of Some x \<Rightarrow> x | None \<Rightarrow> dflt)
      else Inl (AttributeError ''get''))"

definition item :: "pyval \<Rightarrow> string \<Rightarrow> pyval res" where
  "item v k =
     (if is_obj v then (case map_of (obj_of v) k of Some x \<Rightarrow> Inr x | None \<Rightarrow> Inl (KeyError k))
      else Inl (TypeError ''indices must be integers''))"

text \<open>Iterating over a value: a string gives its characters, a dictionary its keys.\<close>

fun items_of :: "pyval \<Rightarrow> pyval list res" where
  "items_of (JList xs) = Inr xs"
| "items_of (JStr s) = Inr (map (\<lambda>c. JStr [c]) s)"
| "items_of (JObj d) = Inr (map (JStr \<circ> fst) d)"
| "items_of v = Inl (TypeError (str_repr (type_name v) @ '' object is not iterable''))"

lemma get_default_JObj [simp]:
  "get_default (JObj d) k x = Inr (case map_of d k of Some v \<Rightarrow> v | None \<Rightarrow> x)"
  by (simp add: get_default_def)

lemma item_JObj [simp]:
  "item (JObj d) k = (case map_of d k of Some x \<Rightarrow> Inr x | None \<Rightarrow> Inl (KeyError k))"
  by (simp add: item_def)

end
