(* ===== verification/TimeText.thy ===== *)
theory TimeText
  imports PyTime
begin

text \<open>
  The round trip between \<open>datetime.isoformat\<close> and \<open>datetime.fromisoformat\<close> for aware UTC times:
  the calendar arithmetic is inverted exactly over the whole range of \<open>datetime\<close>, and the text
  that the components write (with the final \<open>+00:00\<close> replaced by \<open>Z\<close> or not) is read back as the
  same instant by the components that consume it.
\<close>

section \<open>Writing UTC times\<close>

text \<open>\<open>s.replace(a, b)\<close> for a non-empty \<open>a\<close>: left to right, no overlaps.\<close>

function str_replace :: "string \<Rightarrow> string \<Rightarrow> string \<Rightarrow> string" where
  "str_replace a b [] = []"
| "str_replace a b (c # s) =
     (if a \<noteq> [] \<and> starts_with (c # s) a then b @ str_replace a b (drop (length a) (c # s))
      else c # str_replace a b s)"
  by pat_completeness auto
termination
  by (relation "measure (\<lambda>(a, b, s). length s)") auto

text \<open>The idiom \<open>t.isoformat().replace("+00:00", "Z")\<close>.\<close>

definition iso_z :: "datetime \<Rightarrow> string" where
  "iso_z t = str_replace ''+00:00'' ''Z'' (isoformat t)"

text \<open>The values of \<open>datetime\<close>: years 1 to 9999.\<close>

definition in_calendar :: "int \<Rightarrow> bool" where
  "in_calendar us \<longleftrightarrow> 1 \<le> us div day_us + epoch_ord \<and> us div day_us + epoch_ord \<le> 3652059"

section \<open>The calendar\<close>

lemma days_before_month_Suc:
  "1 \<le> m \<Longrightarrow> days_before_month y (Suc m) = days_before_month y m + days_in_month y (int m)"
  by (cases m) auto

lemma month_day_spec:
  assumes "month_day y m n fuel = (m', d)" "1 \<le> m" "m + fuel = 12" "0 \<le> n"
    and "days_before_month y m + n < days_before_month y 12 + 31"
  shows "1 \<le> m' \<and> m' \<le> 12 \<and> 1 \<le> d \<and> d \<le> days_in_month y m'
    \<and> days_before_month y (nat m') + d = days_before_month y m + n + 1"
  using assms
proof (induction fuel arbitrary: m n)
  case 0
  then show ?case by (auto simp: days_in_month_def)
next
  case (Suc fuel)
  show ?case
  proof (cases "n < days_in_month y (int m)")
    case True
    then show ?thesis using Suc.prems by auto
  next
    case False
    have "month_day y (Suc m) (n - days_in_month y (int m)) fuel = (m', d)"
      using Suc.prems False by simp
    then show ?thesis
      using Suc.IH [of "Suc m" "n - days_in_month y (int m)"] Suc.prems False
      by (simp add: days_before_month_Suc)
  qed
qed

lemma days_before_december: "days_before_month y 12 = (if is_leap y then 335 else 334)"
  by (simp add: eval_nat_numeral days_in_month_def)

lemma days_before_year_digits:
  assumes "0 \<le> b" "b \<le> 3" "0 \<le> c" "c \<le> 24" "0 \<le> e" "e \<le> 3"
  shows "days_before_year (a * 400 + b * 100 + c * 4 + e + 1) = 146097 * a + 36524 * b + 1461 * c + 365 * e"
proof -
  let ?p = "a * 400 + b * 100 + c * 4 + e"
  have "?p div 4 = 100 * a + 25 * b + c" by (rule int_div_pos_eq [where r = e]) (use assms in auto)
  moreover have "?p div 100 = 4 * a + b"
    by (rule int_div_pos_eq [where r = "c * 4 + e"]) (use assms in auto)
  moreover have "?p div 400 = a"
    by (rule int_div_pos_eq [where r = "b * 100 + c * 4 + e"]) (use assms in auto)
  ultimately show ?thesis by (simp add: days_before_year_def Let_def)
qed

lemma mod_top: "0 < t \<Longrightarrow> t \<le> k \<Longrightarrow> t mod k = 0 \<longleftrightarrow> t = (k :: int)"
  by (cases "t = k") auto

lemma is_leap_digits:
  assumes "0 \<le> b" "b \<le> 3" "0 \<le> c" "c \<le> 24" "0 \<le> e" "e \<le> 3"
  shows "is_leap (a * 400 + b * 100 + c * 4 + e + 1) \<longleftrightarrow> e = 3 \<and> (c < 24 \<or> b = 3)"
proof -
  let ?y = "a * 400 + b * 100 + c * 4 + e + 1"
  have "?y = (e + 1) + 4 * (100 * a + 25 * b + c)" by simp
  then have "?y mod 4 = (e + 1) mod 4" by (metis mod_mult_self2)
  moreover have "(e + 1) mod 4 = 0 \<longleftrightarrow> e + 1 = 4" by (rule mod_top) (use assms in auto)
  ultimately have four: "?y mod 4 = 0 \<longleftrightarrow> e = 3" by simp
  have "?y = (c * 4 + e + 1) + 100 * (4 * a + b)" by simp
  then have "?y mod 100 = (c * 4 + e + 1) mod 100" by (metis mod_mult_self2)
  moreover have "(c * 4 + e + 1) mod 100 = 0 \<longleftrightarrow> c * 4 + e + 1 = 100"
    by (rule mod_top) (use assms in auto)
  moreover have "c * 4 + e + 1 = 100 \<longleftrightarrow> c = 24 \<and> e = 3" using assms by (intro iffI conjI; linarith)
  ultimately have hundred: "?y mod 100 = 0 \<longleftrightarrow> c = 24 \<and> e = 3" by simp
  have "?y = (b * 100 + c * 4 + e + 1) + 400 * a" by simp
  then have "?y mod 400 = (b * 100 + c * 4 + e + 1) mod 400" by (metis mod_mult_self2)
  moreover have "(b * 100 + c * 4 + e + 1) mod 400 = 0 \<longleftrightarrow> b * 100 + c * 4 + e + 1 = 400"
    by (rule mod_top) (use assms in auto)
  moreover have "b * 100 + c * 4 + e + 1 = 400 \<longleftrightarrow> b = 3 \<and> c = 24 \<and> e = 3"
    using assms by (intro iffI conjI; linarith)
  ultimately have four_hundred: "?y mod 400 = 0 \<longleftrightarrow> b = 3 \<and> c = 24 \<and> e = 3" by simp
  show ?thesis unfolding is_leap_def four hundred four_hundred using assms(4) by auto
qed

text \<open>Every day number of the range is printed as a valid date of a year 1 to 9999 and read back.\<close>

lemma ord_ymd_spec:
  assumes "ord_ymd n = (y, m, d)" "1 \<le> n" "n \<le> 3652059"
  shows "1 \<le> y \<and> y \<le> 9999 \<and> 1 \<le> m \<and> m \<le> 12 \<and> 1 \<le> d \<and> d \<le> days_in_month y m \<and> ymd_ord y m d = n"
proof -
  define a ra where "a = (n - 1) div 146097" and "ra = (n - 1) mod 146097"
  define b rb where "b = ra div 36524" and "rb = ra mod 36524"
  define c rc where "c = rb div 1461" and "rc = rb mod 1461"
  define e re where "e = rc div 365" and "re = rc mod 365"
  have eqs: "n - 1 = 146097 * a + ra" "ra = 36524 * b + rb" "rb = 1461 * c + rc" "rc = 365 * e + re"
    by (simp_all add: a_def ra_def b_def rb_def c_def rc_def e_def re_def)
  have ranges: "0 \<le> ra" "ra < 146097" "0 \<le> rb" "rb < 36524" "0 \<le> rc" "rc < 1461" "0 \<le> re" "re < 365"
    by (simp_all add: ra_def rb_def rc_def re_def)
  have nn: "0 \<le> a" "0 \<le> b" "0 \<le> c" "0 \<le> e"
    using assms(2) ranges by (simp_all add: a_def b_def c_def e_def pos_imp_zdiv_nonneg_iff)
  have le: "a \<le> 24" "b \<le> 4" "c \<le> 24" "e \<le> 4" using eqs ranges nn assms(3) by linarith+
  have y400: "b * 100 + c * 4 + e \<le> 398" if "a = 24" "b \<le> 3" "e \<le> 3"
  proof (rule ccontr)
    assume "\<not> b * 100 + c * 4 + e \<le> 398"
    then have "b = 3" "c = 24" "e = 3" using that le by linarith+
    then show False using eqs ranges that(1) assms(3) by linarith
  qed
  have split: "ord_ymd n = (let y = a * 400 + b * 100 + c * 4 + e + 1 in
      if e = 4 \<or> b = 4 then (y - 1, 12, 31) else (let (m, d) = month_day y 1 re 11 in (y, m, d)))"
    unfolding ord_ymd_def Let_def a_def ra_def b_def rb_def c_def rc_def e_def re_def by simp
  show ?thesis
  proof (cases "e = 4 \<or> b = 4")
    case True
    define c' where "c' = (if b = 4 then 24 else c)"
    define b' where "b' = (if b = 4 then 3 else b)"
    have digits: "0 \<le> b'" "b' \<le> 3" "0 \<le> c'" "c' \<le> 24" "c' < 24 \<or> b' = 3"
      "y = a * 400 + b' * 100 + c' * 4 + 3 + 1" "m = 12" "d = 31" "n = 146097 * a + 36524 * b' + 1461 * c' + 1461"
      using True assms(1) eqs ranges nn le unfolding split b'_def c'_def by (auto simp: Let_def)
    have "is_leap y"
      using is_leap_digits [of b' c' 3 a] digits by simp
    then have "ymd_ord y m d = n"
      using days_before_year_digits [of b' c' 3 a] digits
      by (simp add: ymd_ord_def days_before_december)
    moreover have "1 \<le> y" "y \<le> 9999" using digits nn le assms(3) by linarith+
    ultimately show ?thesis using digits by (simp add: days_in_month_def)
  next
    case False
    then have digits: "b \<le> 3" "e \<le> 3" using le by auto
    let ?y = "a * 400 + b * 100 + c * 4 + e + 1"
    have y: "y = ?y" "month_day ?y 1 re 11 = (m, d)"
      using False assms(1) unfolding split by (auto simp: Let_def split: prod.splits)
    have dec: "days_before_month ?y 12 + 31 \<ge> 365" by (simp add: days_before_december)
    have "days_before_month ?y 1 = 0" by simp
    then have md: "1 \<le> m \<and> m \<le> 12 \<and> 1 \<le> d \<and> d \<le> days_in_month ?y m
        \<and> days_before_month ?y (nat m) + d = re + 1"
      using month_day_spec [OF y(2)] ranges dec by simp
    have "days_before_year ?y = 146097 * a + 36524 * b + 1461 * c + 365 * e"
      by (rule days_before_year_digits) (use digits nn le in auto)
    then have "ymd_ord y m d = n" using md eqs y(1) by (simp add: ymd_ord_def)
    moreover have "y \<le> 9999"
    proof (cases "a = 24")
      case True
      then show ?thesis using y400 digits y(1) by simp
    next
      case False
      then show ?thesis using y(1) digits le by linarith
    qed
    ultimately show ?thesis using md y(1) nn by simp
  qed
qed

section \<open>Padded numbers\<close>

lemma length_dec_str: "0 \<le> k \<Longrightarrow> k < 10 ^ w \<Longrightarrow> 0 < w \<Longrightarrow> length (dec_str k) \<le> w"
proof (induction w arbitrary: k)
  case (Suc w)
  show ?case
  proof (cases "k < 10")
    case True
    then show ?thesis by (subst dec_str.simps) simp
  next
    case False
    then have "0 < w" using Suc.prems by (cases w) auto
    moreover have "k div 10 < 10 ^ w" using Suc.prems by (simp add: div_less_iff_less_mult)
    ultimately have "length (dec_str (k div 10)) \<le> w" using Suc False by simp
    then show ?thesis using False by (subst dec_str.simps) simp
  qed
qed simp

lemma dec_val_zeros: "dec_val (replicate j (CHR ''0'') @ s) = dec_val s"
  by (induction j) (simp_all add: dec_val_def digit_val_def)

definition padded :: "nat \<Rightarrow> int \<Rightarrow> bool" where
  "padded w k \<longleftrightarrow> 0 \<le> k \<and> k < 10 ^ w \<and> 0 < w"

lemma pad_props:
  assumes "padded w k"
  shows "length (pad w k) = w" "dec_val (pad w k) = k" "\<forall>c \<in> set (pad w k). is_digit c"
proof -
  have k: "0 \<le> k" "k < 10 ^ w" "0 < w" using assms by (simp_all add: padded_def)
  show "length (pad w k) = w" using length_dec_str [OF k] by (simp add: pad_def Let_def)
  show "dec_val (pad w k) = k" using k by (simp add: pad_def Let_def dec_val_zeros dec_val_dec_str)
  show "\<forall>c \<in> set (pad w k). is_digit c"
    using dec_str_digits [OF k(1)] by (auto simp: pad_def Let_def is_digit_def)
qed

lemma separators_not_digits:
  "\<not> is_digit (CHR ''-'')" "\<not> is_digit (CHR '':'')" "\<not> is_digit (CHR ''.'')"
  "\<not> is_digit (CHR ''+'')" "\<not> is_digit (CHR ''Z'')" "\<not> is_digit (CHR ''T'')"
  "\<not> is_digit (CHR '' '')"
  by code_simp+

lemma pad_chars:
  assumes "padded w k"
  shows "CHR ''-'' \<notin> set (pad w k)" "CHR '':'' \<notin> set (pad w k)" "CHR ''.'' \<notin> set (pad w k)"
    "CHR ''+'' \<notin> set (pad w k)" "CHR ''Z'' \<notin> set (pad w k)" "CHR '' '' \<notin> set (pad w k)"
  using pad_props(3) [OF assms] separators_not_digits by blast+

lemma digits2_pad: "padded 2 k \<Longrightarrow> digits2 (pad 2 k) = Some k"
  using pad_props [of 2 k] by (simp add: digits2_def)


section \<open>Reading back the parts\<close>

lemma parse_date_pads:
  assumes "padded 4 y" "padded 2 m" "padded 2 d" "1 \<le> y" "1 \<le> m" "m \<le> 12" "1 \<le> d" "d \<le> days_in_month y m"
  shows "parse_date (pad 4 y @ ''-'' @ pad 2 m @ ''-'' @ pad 2 d) = Some (ymd_ord y m d)"
proof -
  let ?s = "pad 4 y @ ''-'' @ pad 2 m @ ''-'' @ pad 2 d"
  note len = pad_props(1) [OF assms(1)] pad_props(1) [OF assms(2)] pad_props(1) [OF assms(3)]
  have parts: "take 4 ?s = pad 4 y" "take 2 (drop 5 ?s) = pad 2 m" "drop 8 ?s = pad 2 d"
    "length ?s = 10" "?s ! 4 = CHR ''-''" "?s ! 7 = CHR ''-''"
    using len by (simp_all add: nth_append)
  show ?thesis
    unfolding parse_date_def parts
    using assms(4-8) pad_props(2,3) [OF assms(1)] pad_props(2,3) [OF assms(2)] pad_props(2,3) [OF assms(3)]
    by (simp add: Let_def ball_Un)
qed

lemma split_once_append: "c \<notin> set p \<Longrightarrow> split_once c (p @ c # s) = Some (p, s)"
  by (induction p) auto

lemma split_once_None: "c \<notin> set p \<Longrightarrow> split_once c p = None"
  by (induction p) auto

lemma parse_fraction_pad: "padded 6 u \<Longrightarrow> parse_fraction (pad 6 u) = Some u"
  using pad_props [of 6 u] by (simp add: parse_fraction_def)

lemma parse_hms_pads:
  assumes "padded 2 h" "padded 2 m" "padded 2 s" "padded 6 u" "h < 24" "m < 60" "s < 60"
  shows "parse_hms (pad 2 h @ '':'' @ pad 2 m @ '':'' @ pad 2 s @ (if u = 0 then [] else ''.'' @ pad 6 u))
    = Some (((h * 60 + m) * 60 + s) * 10 ^ 6 + u)"
proof -
  let ?t = "pad 2 s @ (if u = 0 then [] else ''.'' @ pad 6 u)"
  have "CHR '':'' \<notin> set ?t" using pad_chars(2) [OF assms(3)] pad_chars(2) [OF assms(4)] by auto
  then have split: "split_on (CHR '':'') (pad 2 h @ '':'' @ pad 2 m @ '':'' @ ?t) = [pad 2 h, pad 2 m, ?t]"
    using split_on_append [OF pad_chars(2) [OF assms(1)]] split_on_append [OF pad_chars(2) [OF assms(2)]]
    by (simp add: split_on_simple)
  have hm: "digits2 (pad 2 h) = Some h" "digits2 (pad 2 m) = Some m" "digits2 (pad 2 s) = Some s"
    using assms(1-3) by (simp_all add: digits2_pad)
  show ?thesis
  proof (cases "u = 0")
    case True
    then have "split_once (CHR ''.'') ?t = None"
      using pad_chars(3) [OF assms(3)] by (simp add: split_once_None)
    then show ?thesis unfolding parse_hms_def split using True hm assms(5-7) by (simp add: hms_def)
  next
    case False
    then have "split_once (CHR ''.'') ?t = Some (pad 2 s, pad 6 u)"
      using split_once_append [OF pad_chars(3) [OF assms(3)]] by simp
    then show ?thesis unfolding parse_hms_def split
      using False hm assms(4-7) by (simp add: hms_def parse_fraction_pad)
  qed
qed

lemma parse_offset_zero: "parse_offset 1 ''00:00'' = Some 0"
  by code_simp

lemma parse_time_utc:
  assumes "CHR ''+'' \<notin> set t" "CHR ''-'' \<notin> set t" "parse_hms t = Some v"
  shows "parse_time (t @ ''+00:00'') = Some (v, Some 0)"
proof -
  have "takeWhile (\<lambda>c. c \<noteq> CHR ''+'' \<and> c \<noteq> CHR ''-'') (t @ ''+00:00'') = t"
    using assms(1,2) by (subst takeWhile_append2) auto
  then show ?thesis using assms(3) parse_offset_zero by (simp add: parse_time_def)
qed

section \<open>Writing and reading a UTC time\<close>

definition utc_body :: "int \<Rightarrow> string" where
  "utc_body us =
     (let (y, m, d) = ord_ymd (us div day_us + epoch_ord); v = us mod day_us;
          u = v mod 10 ^ 6; sec = v div 10 ^ 6
      in (pad 4 y @ ''-'' @ pad 2 m @ ''-'' @ pad 2 d) @ ''T''
         @ pad 2 (sec div 3600) @ '':'' @ pad 2 (sec div 60 mod 60) @ '':'' @ pad 2 (sec mod 60)
         @ (if u = 0 then [] else ''.'' @ pad 6 u))"

lemma offset_str_zero: "offset_str 0 = ''+00:00''"
  by code_simp

lemma isoformat_utc: "isoformat (utc_of us) = utc_body us @ ''+00:00''"
  by (simp add: isoformat_def utc_body_def Let_def offset_str_zero split: prod.splits)

text \<open>The clock part of a moment of the day.\<close>

lemma clock_parts:
  assumes "0 \<le> v" "v < day_us"
  defines "sec \<equiv> v div 10 ^ 6" and "u \<equiv> v mod 10 ^ 6"
  shows "padded 2 (sec div 3600)" "padded 2 (sec div 60 mod 60)" "padded 2 (sec mod 60)" "padded 6 u"
    "sec div 3600 < 24" "sec div 60 mod 60 < 60" "sec mod 60 < 60"
    "((sec div 3600 * 60 + sec div 60 mod 60) * 60 + sec mod 60) * 10 ^ 6 + u = v"
proof -
  have s: "0 \<le> sec" "sec < 86400" "0 \<le> u" "u < 10 ^ 6" "sec * 10 ^ 6 + u = v"
    using assms by (simp_all add: sec_def u_def day_us_def pos_imp_zdiv_nonneg_iff div_less_iff_less_mult)
  have h: "0 \<le> sec div 3600" "sec div 3600 < 24" using s by (simp_all add: pos_imp_zdiv_nonneg_iff div_less_iff_less_mult)
  have "sec div 3600 = sec div 60 div 60" by (simp add: zdiv_zmult2_eq [symmetric])
  then have "sec div 3600 * 60 + sec div 60 mod 60 = sec div 60" by simp
  then show "((sec div 3600 * 60 + sec div 60 mod 60) * 60 + sec mod 60) * 10 ^ 6 + u = v"
    using s(5) by simp
  show "padded 2 (sec div 3600)" "padded 2 (sec div 60 mod 60)" "padded 2 (sec mod 60)" "padded 6 u"
    "sec div 3600 < 24" "sec div 60 mod 60 < 60" "sec mod 60 < 60"
    using s h by (simp_all add: padded_def)
qed

lemma date_prefix:
  assumes "length p = 10"
  shows "take 10 ((p @ [c] @ q) @ z) = p" "drop 11 ((p @ [c] @ q) @ z) = q @ z" "length ((p @ [c] @ q) @ z) \<noteq> 10"
  using assms by simp_all

lemma fromisoformat_body:
  assumes "in_calendar us"
  shows "fromisoformat (utc_body us @ ''+00:00'') = Some (utc_of us)"
    and "CHR ''+'' \<notin> set (utc_body us)" and "CHR ''Z'' \<notin> set (utc_body us)"
    and "CHR '' '' \<notin> set (utc_body us)"
proof -
  let ?n = "us div day_us + epoch_ord" and ?v = "us mod day_us"
  define sec u where "sec = ?v div 10 ^ 6" and "u = ?v mod 10 ^ 6"
  obtain y m d where ymd: "ord_ymd ?n = (y, m, d)" by (metis prod_cases3)
  have date: "1 \<le> y" "y \<le> 9999" "1 \<le> m" "m \<le> 12" "1 \<le> d" "d \<le> days_in_month y m" "ymd_ord y m d = ?n"
    using ord_ymd_spec [OF ymd] assms by (simp_all add: in_calendar_def)
  have "d \<le> 31" using date(6) by (simp add: days_in_month_def split: if_splits)
  then have p: "padded 4 y" "padded 2 m" "padded 2 d" using date by (simp_all add: padded_def)
  have "0 \<le> ?v" "?v < day_us" by (simp_all add: day_us_def)
  note clock = clock_parts [OF this, folded sec_def u_def]
  let ?date = "pad 4 y @ ''-'' @ pad 2 m @ ''-'' @ pad 2 d"
  let ?clk = "pad 2 (sec div 3600) @ '':'' @ pad 2 (sec div 60 mod 60) @ '':'' @ pad 2 (sec mod 60)
    @ (if u = 0 then [] else ''.'' @ pad 6 u)"
  have body: "utc_body us = ?date @ ''T'' @ ?clk"
    by (simp add: utc_body_def ymd sec_def u_def Let_def)
  have len: "length ?date = 10" using pad_props(1) [OF p(1)] pad_props(1) [OF p(2)] pad_props(1) [OF p(3)] by simp
  note chars = pad_chars [OF p(1)] pad_chars [OF p(2)] pad_chars [OF p(3)] pad_chars [OF clock(1)]
    pad_chars [OF clock(2)] pad_chars [OF clock(3)] pad_chars [OF clock(4)]
  show "CHR ''+'' \<notin> set (utc_body us)" "CHR ''Z'' \<notin> set (utc_body us)" "CHR '' '' \<notin> set (utc_body us)"
    unfolding body using chars by auto
  have clk: "CHR ''+'' \<notin> set ?clk" "CHR ''-'' \<notin> set ?clk" using chars by auto
  have "take 10 (utc_body us @ ''+00:00'') = ?date" "drop 11 (utc_body us @ ''+00:00'') = ?clk @ ''+00:00''"
    "length (utc_body us @ ''+00:00'') \<noteq> 10"
    unfolding body using date_prefix [OF len] by blast+
  moreover have "parse_date ?date = Some ?n" using parse_date_pads [OF p date(1,3-6)] date(7) by simp
  moreover have "parse_time (?clk @ ''+00:00'') = Some (?v, Some 0)"
    using parse_time_utc [OF clk parse_hms_pads [OF clock(1-7)]] clock(8) by simp
  moreover have "(?n - epoch_ord) * day_us + ?v = us" by simp
  ultimately show "fromisoformat (utc_body us @ ''+00:00'') = Some (utc_of us)"
    by (simp add: fromisoformat_def Let_def utc_of_def)
qed

lemma str_replace_skip: "a \<noteq> [] \<Longrightarrow> hd a \<notin> set p \<Longrightarrow> str_replace a b (p @ s) = p @ str_replace a b s"
proof (induction p)
  case (Cons c p)
  then have "\<not> starts_with (c # p @ s) a" by (cases a) (auto simp: starts_with_def)
  with Cons show ?case by simp
qed simp

lemma replace_utc_suffix: "str_replace ''+00:00'' ''Z'' ''+00:00'' = ''Z''"
  by code_simp

lemma iso_z_utc:
  assumes "in_calendar us"
  shows "iso_z (utc_of us) = utc_body us @ ''Z''"
  using fromisoformat_body(2) [OF assms]
  by (simp add: iso_z_def isoformat_utc str_replace_skip replace_utc_suffix del: str_replace.simps)

lemma replace_char_absent: "c \<notin> set s \<Longrightarrow> replace_char c t s = s"
  by (induction s) (auto simp: replace_char_def)

lemma replace_char_append: "replace_char c t (a @ b) = replace_char c t a @ replace_char c t b"
  by (simp add: replace_char_def)

text \<open>What the consumers' idioms give on the two texts.\<close>

lemma iso_texts:
  assumes "in_calendar us"
  shows "replace_char (CHR ''Z'') ''+00:00'' (iso_z (utc_of us)) = utc_body us @ ''+00:00''"
    and "replace_char (CHR ''Z'') ''+00:00'' (isoformat (utc_of us)) = utc_body us @ ''+00:00''"
proof -
  have z: "replace_char (CHR ''Z'') ''+00:00'' (utc_body us) = utc_body us"
    using fromisoformat_body(3) [OF assms] by (rule replace_char_absent)
  have "replace_char (CHR ''Z'') ''+00:00'' ''Z'' = ''+00:00''"
    "replace_char (CHR ''Z'') ''+00:00'' ''+00:00'' = ''+00:00''"
    by code_simp+
  then show "replace_char (CHR ''Z'') ''+00:00'' (iso_z (utc_of us)) = utc_body us @ ''+00:00''"
    "replace_char (CHR ''Z'') ''+00:00'' (isoformat (utc_of us)) = utc_body us @ ''+00:00''"
    using z by (simp_all add: iso_z_utc [OF assms] isoformat_utc replace_char_append)
qed

lemma parse_iso_texts:
  assumes "in_calendar us"
  shows "parse_iso (iso_z (utc_of us)) = Some (utc_of us)" "parse_iso (isoformat (utc_of us)) = Some (utc_of us)"
  using fromisoformat_body(1) [OF assms] by (simp_all add: parse_iso_def iso_texts [OF assms])

lemma body_no_space:
  assumes "in_calendar us"
  shows "replace_char (CHR '' '') ''T'' (utc_body us @ ''+00:00'') = utc_body us @ ''+00:00''"
proof -
  have "replace_char (CHR '' '') ''T'' ''+00:00'' = ''+00:00''" by code_simp
  then show ?thesis
    using replace_char_absent [OF fromisoformat_body(4) [OF assms]] by (simp add: replace_char_append)
qed

section \<open>Property\<close>

text \<open>
  C19. Time stamps round-trip: every UTC time of the range of \<open>datetime\<close> that a component writes,
  with the final offset replaced by \<open>Z\<close> or left in place, is read back by the consumers' idiom as
  the same time to the microsecond.
\<close>

theorem timestamps_round_trip:
  assumes "in_calendar us"
  shows "parse_iso (iso_z (utc_of us)) = Some (utc_of us) \<and> parse_iso (isoformat (utc_of us)) = Some (utc_of us)"
  using parse_iso_texts [OF assms] by blast

lemma timestamps_round_trip_witness:
  "parse_iso (iso_z (utc_of (- 1))) = Some (utc_of (- 1))"
  by (rule timestamps_round_trip [THEN conjunct1]) code_simp

end
