(* ===== verification/Clock.thy ===== *)
theory Clock
  imports PyNum TimeText
begin

text \<open>
  Clock-offset measurement: the command-line tool \<open>scripts/measure-clock-offset.py\<close> and the CAPE
  auxiliary module \<open>cape/modules/auxiliary/winstdt_clock_sync.py\<close>. Both sample the guest clock
  between two host time stamps; the first keeps the sample with the smallest round trip of a
  series, the second keeps the latest sample of a background thread and one taken at the end.
  Nanosecond counters are Python integers, and the host's may be set back between two readings. The
  network answers are arguments.
\<close>

section \<open>The measurement tool\<close>

record clock_sample =
  ck_send :: int
  ck_receive :: int
  ck_midpoint :: int
  ck_guest :: int
  ck_offset :: int
  ck_rtt :: int
  ck_uncertainty :: int

definition make_sample :: "int \<Rightarrow> int \<Rightarrow> int \<Rightarrow> clock_sample" where
  "make_sample send receive guest =
     (let mid = (send + receive) div 2; rtt = receive - send in
      \<lparr>ck_send = send, ck_receive = receive, ck_midpoint = mid, ck_guest = guest,
       ck_offset = guest - mid, ck_rtt = rtt, ck_uncertainty = rtt div 2 + 100\<rparr>)"

text \<open>\<open>query_guest_epoch_ns\<close> on the agent's answer: the \<open>stdout\<close> text must be an integer.\<close>

definition query_guest :: "int \<Rightarrow> pyval \<Rightarrow> int \<Rightarrow> clock_sample res" where
  "query_guest t0 payload t1 =
     bind_res (get_default payload ''stdout'' (JStr [])) (\<lambda>v.
       case int_of_string (strip (py_str v)) of
         None \<Rightarrow> Inl (RuntimeError ''CAPE agent returned an invalid guest timestamp'')
       | Some g \<Rightarrow> Inr (make_sample t0 t1 g))"

definition sample_obj :: "clock_sample \<Rightarrow> pyval" where
  "sample_obj s = JObj
     [(''host_send_unix_ns'', JInt (ck_send s)), (''host_receive_unix_ns'', JInt (ck_receive s)),
      (''host_midpoint_unix_ns'', JInt (ck_midpoint s)), (''guest_unix_ns'', JInt (ck_guest s)),
      (''guest_minus_host_ns'', JInt (ck_offset s)), (''round_trip_ns'', JInt (ck_rtt s)),
      (''uncertainty_ns'', JInt (ck_uncertainty s))]"

text \<open>\<open>min(samples, key=\<dots>)\<close>: the first of the smallest.\<close>

fun min_key :: "('a \<Rightarrow> int) \<Rightarrow> 'a \<Rightarrow> 'a list \<Rightarrow> 'a" where
  "min_key f b [] = b"
| "min_key f b (x # xs) = min_key f (if f x < f b then x else b) xs"

text \<open>\<open>int(statistics.median(xs))\<close> of integers: the middle one, or the truncated float mean of two.\<close>

definition int_median :: "int list \<Rightarrow> int" where
  "int_median xs =
     (let ys = sort xs; n = length ys in
      if odd n then ys ! (n div 2) else trunc (idiv (ys ! (n div 2 - 1) + ys ! (n div 2)) 2))"

record measurement =
  mm_best :: clock_sample
  mm_url :: string
  mm_measured_at :: string
  mm_count :: nat
  mm_spread :: int
  mm_median :: int

definition utc_iso :: "int \<Rightarrow> string res" where
  "utc_iso ns = bind_res (fromtimestamp_utc (idiv ns (10 ^ 9))) (\<lambda>t. Inr (iso_z t))"

definition build_measurement :: "clock_sample list \<Rightarrow> string \<Rightarrow> measurement res" where
  "build_measurement samples url =
     (case samples of
        [] \<Rightarrow> Inl (ValueError ''min() arg is an empty sequence'')
      | s # ss \<Rightarrow>
          let best = min_key ck_rtt s ss; offsets = map ck_offset samples in
          bind_res (utc_iso (ck_midpoint best)) (\<lambda>stamp.
            Inr \<lparr>mm_best = best, mm_url = url, mm_measured_at = stamp, mm_count = length samples,
                 mm_spread = Max (set offsets) - Min (set offsets), mm_median = int_median offsets\<rparr>))"

definition measurement_obj :: "measurement \<Rightarrow> pyval" where
  "measurement_obj m = JObj
     [(''method'', JStr ''agent_http_midpoint''), (''measured_at_utc'', JStr (mm_measured_at m)),
      (''guest_endpoint'', JStr (mm_url m)),
      (''offset_definition'', JStr ''guest_utc_minus_host_utc''),
      (''guest_minus_host_ns'', JInt (ck_offset (mm_best m))),
      (''uncertainty_ns'', JInt (ck_uncertainty (mm_best m))),
      (''minimum_round_trip_ns'', JInt (ck_rtt (mm_best m))),
      (''sample_count'', JInt (int (mm_count m))), (''offset_spread_ns'', JInt (mm_spread m)),
      (''median_guest_minus_host_ns'', JInt (mm_median m)),
      (''selected_sample'', sample_obj (mm_best m))]"

section \<open>Quality and drift\<close>

record clock_result =
  cr_url :: string
  cr_measurements :: "(string \<times> measurement) list"
  cr_max_allowed :: int
  cr_max_observed :: int
  cr_acceptable :: bool
  cr_drift :: "(int \<times> int \<times> pyfloat option) option"

definition by_midpoint :: "(string \<times> measurement) list \<Rightarrow> measurement list" where
  "by_midpoint ms = sort_key (\<lambda>m. ck_midpoint (mm_best m)) (map snd ms)"

definition drift_of :: "measurement list \<Rightarrow> (int \<times> int \<times> pyfloat option) option" where
  "drift_of ordered =
     (if 2 \<le> length ordered
      then (let a = hd ordered; b = last ordered;
                elapsed = ck_midpoint (mm_best b) - ck_midpoint (mm_best a);
                delta = ck_offset (mm_best b) - ck_offset (mm_best a)
            in Some (delta, elapsed,
                 if elapsed = 0 then None else Some (fmul (idiv delta elapsed) (10 ^ 6))))
      else None)"

definition build_result :: "(string \<times> measurement) list \<Rightarrow> string \<Rightarrow> int \<Rightarrow> clock_result res" where
  "build_result ms url allowed =
     (if ms = [] then Inl (ValueError ''max() arg is an empty sequence'')
      else let ordered = by_midpoint ms;
               observed = Max (set (map (\<lambda>m. ck_uncertainty (mm_best m)) ordered))
           in Inr \<lparr>cr_url = url, cr_measurements = ms, cr_max_allowed = allowed,
                   cr_max_observed = observed, cr_acceptable = (observed \<le> allowed),
                   cr_drift = drift_of ordered\<rparr>)"

text \<open>
  One run of \<open>main\<close>: at least three samples, the measurements of earlier phases kept in the
  output file, the new one stored under its phase, and exit status 2 for an unacceptable result.
\<close>

definition clock_run ::
    "(string \<times> measurement) list option \<Rightarrow> string \<Rightarrow> clock_sample list \<Rightarrow> string \<Rightarrow> int \<Rightarrow> (clock_result \<times> int) res" where
  "clock_run existing phase samples url allowed =
     (if length samples < 3 then Inl (SystemExit ''--samples must be at least 3'')
      else bind_res (build_measurement samples url) (\<lambda>m.
        let old = (if phase = ''single'' then [] else (case existing of None \<Rightarrow> [] | Some ms \<Rightarrow> ms)) in
        bind_res (build_result (dict_set phase m old) url allowed) (\<lambda>r.
          Inr (r, if cr_acceptable r then 0 else 2))))"

section \<open>The auxiliary module\<close>

text \<open>\<open>_sample\<close> of the module: the guest time is the HTTP \<open>Date\<close> header, whole seconds.\<close>

definition aux_sample :: "int \<Rightarrow> int \<Rightarrow> int \<Rightarrow> clock_sample" where
  "aux_sample before after guest =
     (let mid = before + (after - before) div 2 in
      \<lparr>ck_send = before, ck_receive = after, ck_midpoint = mid, ck_guest = guest,
       ck_offset = guest - mid, ck_rtt = after - before,
       ck_uncertainty = (after - before) div 2 + 500000000\<rparr>)"

definition aux_sample_obj :: "clock_sample \<Rightarrow> pyval" where
  "aux_sample_obj s = JObj
     [(''host_start_unix_ns'', JInt (ck_send s)), (''host_end_unix_ns'', JInt (ck_receive s)),
      (''host_midpoint_unix_ns'', JInt (ck_midpoint s)), (''guest_unix_ns'', JInt (ck_guest s)),
      (''guest_minus_host_ns'', JInt (ck_offset s)), (''uncertainty_ns'', JInt (ck_uncertainty s))]"

definition aux_measurement :: "clock_sample \<Rightarrow> pyval" where
  "aux_measurement s = JObj
     [(''selected_sample'', aux_sample_obj s), (''guest_minus_host_ns'', JInt (ck_offset s)),
      (''uncertainty_ns'', JInt (ck_uncertainty s))]"

text \<open>The document that \<open>stop\<close> writes from the start sample and the end sample.\<close>

definition aux_uncertainty :: "clock_sample option \<Rightarrow> clock_sample option \<Rightarrow> int option" where
  "aux_uncertainty start end_s =
     (case (start, end_s) of
        (None, None) \<Rightarrow> None
      | (Some s, None) \<Rightarrow> Some (ck_uncertainty s)
      | (None, Some e) \<Rightarrow> Some (ck_uncertainty e)
      | (Some s, Some e) \<Rightarrow> Some (max (ck_uncertainty s) (ck_uncertainty e)))"

definition aux_acceptable :: "clock_sample option \<Rightarrow> clock_sample option \<Rightarrow> bool" where
  "aux_acceptable start end_s \<longleftrightarrow> start \<noteq> None \<and> end_s \<noteq> None
     \<and> (case aux_uncertainty start end_s of None \<Rightarrow> False | Some u \<Rightarrow> u < 7500000000)"

definition aux_document :: "clock_sample option \<Rightarrow> clock_sample option \<Rightarrow> pyval" where
  "aux_document start end_s = JObj
     [(''schema_version'', JStr ''1.0''),
      (''algorithm'', JStr ''http_date_midpoint_linear_interpolation''),
      (''measurements'', JObj
         ((case start of None \<Rightarrow> [] | Some s \<Rightarrow> [(''start'', aux_measurement s)])
          @ (case end_s of None \<Rightarrow> [] | Some e \<Rightarrow> [(''end'', aux_measurement e)]))),
      (''quality'', JObj
         [(''acceptable'', JBool (aux_acceptable start end_s)),
          (''maximum_observed_uncertainty_ns'',
             case aux_uncertainty start end_s of None \<Rightarrow> JNull | Some u \<Rightarrow> JInt u)])]"


section \<open>The sampling thread\<close>

text \<open>
  \<open>_start_sampler\<close> runs beside \<open>start\<close> and \<open>stop\<close>: each probe, its answer, its failure
  (\<open>OSError\<close>, \<open>ValueError\<close> or \<open>TypeError\<close>, which the loop passes over) or its crash (any other
  exception, as \<open>HTTPException\<close> is, ends the thread), the
  passing of the 30-second deadline and the setting of the stop event are separate steps. The
  wait of one second after a probe belongs to the loop head. \<open>stop\<close> joins the thread for at most
  three seconds, so a probe that is still under way then may finish later. The host times of an
  answer are two readings of \<open>time.time_ns\<close>, in any order: the wall clock may be set back between them.
\<close>

datatype thread = NotStarted | LoopHead | Probing | Finished

record sync_state =
  sy_thread :: thread
  sy_start :: "clock_sample option"
  sy_stop :: bool
  sy_expired :: bool

definition initial_sync :: sync_state where
  "initial_sync = \<lparr>sy_thread = NotStarted, sy_start = None, sy_stop = False, sy_expired = False\<rparr>"

inductive sampler_step :: "sync_state \<Rightarrow> sync_state \<Rightarrow> bool" where
  start: "sy_thread s = NotStarted \<Longrightarrow> sampler_step s (s\<lparr>sy_thread := LoopHead\<rparr>)"
| probe: "sy_thread s = LoopHead \<Longrightarrow> \<not> sy_stop s \<Longrightarrow> \<not> sy_expired s \<Longrightarrow>
    sampler_step s (s\<lparr>sy_thread := Probing\<rparr>)"
| answer: "sy_thread s = Probing \<Longrightarrow>
    sampler_step s (s\<lparr>sy_thread := LoopHead, sy_start := Some (aux_sample before after guest)\<rparr>)"
| fail: "sy_thread s = Probing \<Longrightarrow> sampler_step s (s\<lparr>sy_thread := LoopHead\<rparr>)"
| crash: "sy_thread s = Probing \<Longrightarrow> sampler_step s (s\<lparr>sy_thread := Finished\<rparr>)"
| leave: "sy_thread s = LoopHead \<Longrightarrow> sy_stop s \<or> sy_expired s \<Longrightarrow>
    sampler_step s (s\<lparr>sy_thread := Finished\<rparr>)"
| deadline: "sampler_step s (s\<lparr>sy_expired := True\<rparr>)"
| request_stop: "sampler_step s (s\<lparr>sy_stop := True\<rparr>)"

inductive_cases sampler_stepE: "sampler_step s t"

section \<open>Lemmas\<close>

lemma min_key_least: "min_key f b xs \<in> set (b # xs) \<and> (\<forall>x \<in> set (b # xs). f (min_key f b xs) \<le> f x)"
proof (induction xs arbitrary: b)
  case (Cons x xs)
  show ?case using Cons.IH [of "if f x < f b then x else b"] by (auto split: if_splits)
qed simp

text \<open>
  A truthful sample of a guest clock that is \<open>theta\<close> ahead: the guest read its clock at a host
  time \<open>t\<close> between sending and receiving.
\<close>

definition truthful :: "int \<Rightarrow> clock_sample \<Rightarrow> bool" where
  "truthful theta s \<longleftrightarrow> (\<exists>send receive t. send \<le> t \<and> t \<le> receive \<and> s = make_sample send receive (t + theta))"

lemma truthful_bound: "truthful theta s \<Longrightarrow> \<bar>ck_offset s - theta\<bar> \<le> ck_uncertainty s"
proof -
  assume "truthful theta s"
  then obtain a b t where t: "a \<le> t" "t \<le> b" and s: "s = make_sample a b (t + theta)"
    by (auto simp: truthful_def)
  have "2 * ((a + b) div 2) \<le> a + b" "a + b \<le> 2 * ((a + b) div 2) + 1"
    "b - a \<le> 2 * ((b - a) div 2) + 1" by linarith+
  then show ?thesis using t by (simp add: s make_sample_def Let_def)
qed

lemma floor_multiple: "0 < k \<Longrightarrow> x div k * k \<le> x \<and> x < x div k * k + (k :: int)"
  using div_mult_mod_eq [of x k] pos_mod_sign [of k x] pos_mod_bound [of k x] by linarith

text \<open>What the HTTP \<open>Date\<close> header gives: the guest time without its fraction of a second.\<close>

definition aux_truthful :: "int \<Rightarrow> clock_sample \<Rightarrow> bool" where
  "aux_truthful theta s \<longleftrightarrow> (\<exists>before after t. before \<le> t \<and> t \<le> after
     \<and> s = aux_sample before after ((t + theta) div 10 ^ 9 * 10 ^ 9))"

lemma aux_truthful_bound:
  assumes "aux_truthful theta s"
  shows "- (ck_uncertainty s + 500000000) \<le> ck_offset s - theta" "ck_offset s - theta \<le> ck_uncertainty s"
proof -
  obtain a b t where t: "a \<le> t" "t \<le> b" and s: "s = aux_sample a b ((t + theta) div 10 ^ 9 * 10 ^ 9)"
    using assms by (auto simp: aux_truthful_def)
  define g where "g = (t + theta) div 10 ^ 9 * 10 ^ 9"
  have "g \<le> t + theta" "t + theta < g + 10 ^ 9"
    using floor_multiple [of "10 ^ 9" "t + theta"] by (simp_all add: g_def)
  moreover have "2 * ((b - a) div 2) \<le> b - a" "b - a \<le> 2 * ((b - a) div 2) + 1" by linarith+
  ultimately show "- (ck_uncertainty s + 500000000) \<le> ck_offset s - theta" "ck_offset s - theta \<le> ck_uncertainty s"
    using t by (simp_all add: s aux_sample_def Let_def flip: g_def)
qed

lemma stopped_stable:
  "sampler_step\<^sup>*\<^sup>* s t \<Longrightarrow> sy_stop s \<Longrightarrow> sy_thread s \<noteq> Probing \<Longrightarrow>
     sy_stop t \<and> sy_thread t \<noteq> Probing \<and> sy_start t = sy_start s"
  by (induction rule: rtranclp_induct) (auto elim!: sampler_stepE)

definition held_ok :: "sync_state \<Rightarrow> bool" where
  "held_ok s \<longleftrightarrow> (case sy_start s of None \<Rightarrow> True
     | Some c \<Rightarrow> ck_midpoint c = ck_send c + (ck_receive c - ck_send c) div 2 \<and> ck_offset c = ck_guest c - ck_midpoint c
         \<and> ck_uncertainty c = (ck_receive c - ck_send c) div 2 + 500000000)"

lemma aux_sample_ok:
  "ck_midpoint (aux_sample a b g) = a + (b - a) div 2 \<and> ck_offset (aux_sample a b g) = g - (a + (b - a) div 2)
     \<and> ck_uncertainty (aux_sample a b g) = (b - a) div 2 + 500000000
     \<and> ck_send (aux_sample a b g) = a \<and> ck_receive (aux_sample a b g) = b \<and> ck_guest (aux_sample a b g) = g"
  by (simp add: aux_sample_def Let_def)

lemma held_ok_step: "sampler_step s t \<Longrightarrow> held_ok s \<Longrightarrow> held_ok t"
  by (erule sampler_step.cases) (auto simp: held_ok_def aux_sample_ok)

lemma sampler_samples: "sampler_step\<^sup>*\<^sup>* initial_sync s \<Longrightarrow> held_ok s"
  by (induction rule: rtranclp_induct) (auto simp: held_ok_step, simp add: held_ok_def initial_sync_def)

text \<open>
  Schedules: an infinite run in which a thread that has not finished moves eventually. A probe has
  a socket timeout of two seconds, so it answers or fails.
\<close>

definition fair_run :: "(nat \<Rightarrow> sync_state) \<Rightarrow> bool" where
  "fair_run r \<longleftrightarrow> (\<forall>i. sampler_step (r i) (r (Suc i)))
     \<and> (\<forall>i. sy_thread (r i) \<noteq> Finished \<longrightarrow> (\<exists>j\<ge>i. sy_thread (r (Suc j)) \<noteq> sy_thread (r j)))"

definition told_to_end :: "sync_state \<Rightarrow> bool" where
  "told_to_end s \<longleftrightarrow> sy_stop s \<or> sy_expired s"

definition moves_left :: "thread \<Rightarrow> nat" where
  "moves_left t = (case t of NotStarted \<Rightarrow> 2 | LoopHead \<Rightarrow> 1 | Probing \<Rightarrow> 2 | Finished \<Rightarrow> 0)"

lemma ending_step:
  assumes "sampler_step s t" "told_to_end s"
  shows "told_to_end t \<and> (sy_thread t = sy_thread s \<or> moves_left (sy_thread t) < moves_left (sy_thread s))"
  using assms by (auto simp: told_to_end_def moves_left_def elim!: sampler_stepE)

lemma ending_run:
  assumes "\<And>i. sampler_step (r i) (r (Suc i))" "told_to_end (r i)"
  shows "told_to_end (r (i + n)) \<and> moves_left (sy_thread (r (i + n))) \<le> moves_left (sy_thread (r i))"
proof (induction n)
  case (Suc n)
  then show ?case using ending_step [OF assms(1) [of "i + n"]] by fastforce
qed (simp add: assms(2))

lemma finished_run:
  assumes "\<And>i. sampler_step (r i) (r (Suc i))" "sy_thread (r i) = Finished"
  shows "sy_thread (r (i + n)) = Finished \<and> sy_start (r (i + n)) = sy_start (r i)"
proof (induction n)
  case (Suc n)
  then show ?case using assms(1) [of "i + n"] by (auto elim!: sampler_stepE)
qed (simp add: assms(2))

lemma fair_run_finishes:
  assumes "fair_run r" "told_to_end (r i)"
  shows "\<exists>n\<ge>i. sy_thread (r n) = Finished"
  using assms(2)
proof (induction "moves_left (sy_thread (r i))" arbitrary: i rule: less_induct)
  case less
  have step: "sampler_step (r i) (r (Suc i))" for i using assms(1) by (simp add: fair_run_def)
  show ?case
  proof (cases "sy_thread (r i) = Finished")
    case False
    then obtain j where j: "i \<le> j" "sy_thread (r (Suc j)) \<noteq> sy_thread (r j)"
      using assms(1) unfolding fair_run_def by blast
    have at_j: "told_to_end (r j)" "moves_left (sy_thread (r j)) \<le> moves_left (sy_thread (r i))"
      using ending_run [of r i "j - i", OF step less.prems] j(1) by simp_all
    have "told_to_end (r (Suc j))" "moves_left (sy_thread (r (Suc j))) < moves_left (sy_thread (r i))"
      using ending_step [OF step at_j(1)] j(2) at_j(2) by auto
    from less.hyps [OF this(2,1)] obtain n where "Suc j \<le> n" "sy_thread (r n) = Finished" by blast
    then show ?thesis using j(1) by (intro exI [of _ n]) simp
  qed blast
qed

section \<open>Properties\<close>

text \<open>
  C20. The tool's measurement is sound and the best of its series: if every sample of a run was
  taken from a guest clock a constant \<open>theta\<close> ahead, the reported offset differs from \<open>theta\<close> by
  at most the reported uncertainty, and no sample of the series has a smaller one.
\<close>

theorem measurement_within_uncertainty:
  assumes "build_measurement samples url = Inr m" "\<forall>s \<in> set samples. truthful theta s"
  shows "\<bar>ck_offset (mm_best m) - theta\<bar> \<le> ck_uncertainty (mm_best m)
     \<and> mm_best m \<in> set samples \<and> (\<forall>s \<in> set samples. ck_uncertainty (mm_best m) \<le> ck_uncertainty s)"
proof -
  obtain s ss where samples: "samples = s # ss" and best: "mm_best m = min_key ck_rtt s ss"
    using assms(1) by (cases samples) (auto simp: build_measurement_def Let_def bind_res_Inr_iff)
  have least: "mm_best m \<in> set samples" "\<forall>x \<in> set samples. ck_rtt (mm_best m) \<le> ck_rtt x"
    using min_key_least [of ck_rtt s ss] by (simp_all add: samples best)
  have unc: "ck_uncertainty x = ck_rtt x div 2 + 100" if "x \<in> set samples" for x
    using assms(2) that by (auto simp: truthful_def make_sample_def Let_def)
  have "ck_uncertainty (mm_best m) \<le> ck_uncertainty x" if "x \<in> set samples" for x
    using least(2) that unc [OF least(1)] unc [OF that] by (simp add: zdiv_mono1)
  then show ?thesis using least(1) assms(2) truthful_bound by blast
qed

lemma measurement_witness:
  "\<bar>ck_offset (make_sample (- 2) 2 1000) - 1000\<bar> \<le> 102"
proof -
  let ?ss = "[make_sample 0 10 1005, make_sample (- 2) 2 1000]"
  have best: "min_key ck_rtt (make_sample 0 10 1005) [make_sample (- 2) 2 1000] = make_sample (- 2) 2 1000"
    and mid: "ck_midpoint (make_sample (- 2) 2 1000) = 0" "ck_uncertainty (make_sample (- 2) 2 1000) = 102"
    and stamp: "case utc_iso 0 of Inl _ \<Rightarrow> False | Inr _ \<Rightarrow> True"
    by code_simp+
  obtain z where "utc_iso 0 = Inr z" using stamp by (auto split: sum.splits)
  then obtain m where m: "build_measurement ?ss ''u'' = Inr m" "mm_best m = make_sample (- 2) 2 1000"
    using best mid by (simp add: build_measurement_def Let_def)
  have "truthful 1000 (make_sample 0 10 1005)"
    unfolding truthful_def by (rule exI [of _ 0], rule exI [of _ 10], rule exI [of _ 5]) simp
  moreover have "truthful 1000 (make_sample (- 2) 2 1000)"
    unfolding truthful_def by (rule exI [of _ "- 2"], rule exI [of _ 2], rule exI [of _ 0]) simp
  ultimately show ?thesis
    using measurement_within_uncertainty [OF m(1), of 1000] m(2) mid(2) by simp
qed

text \<open>
  The module's uncertainty is too small by up to half a second: the \<open>Date\<close> header drops the
  fraction of the second, so an honest sample can be off by half a second more than the stated
  uncertainty on the low side, never more, and some sample is off by more than it states.
\<close>

theorem header_sample_error:
  "(aux_truthful theta s \<longrightarrow> ck_offset s - theta \<in> {- (ck_uncertainty s + 500000000) .. ck_uncertainty s})
   \<and> (\<exists>s. aux_truthful 999999999 s \<and> ck_uncertainty s < \<bar>ck_offset s - 999999999\<bar>)"
proof
  show "aux_truthful theta s \<longrightarrow> ck_offset s - theta \<in> {- (ck_uncertainty s + 500000000) .. ck_uncertainty s}"
    using aux_truthful_bound by simp
  have "aux_truthful 999999999 (aux_sample 0 0 0)"
    unfolding aux_truthful_def by (intro exI [of _ 0]) simp
  moreover have "ck_uncertainty (aux_sample 0 0 0) < \<bar>ck_offset (aux_sample 0 0 0) - 999999999\<bar>"
    by code_simp
  ultimately show "\<exists>s. aux_truthful 999999999 s \<and> ck_uncertainty s < \<bar>ck_offset s - 999999999\<bar>" by blast
qed

lemma header_sample_witness: "ck_offset (aux_sample 0 2 0) - 5 \<in> {- 500000001 - 500000000 .. 500000001}"
proof -
  have "aux_truthful 5 (aux_sample 0 2 0)"
    unfolding aux_truthful_def by (rule exI [of _ 0], rule exI [of _ 2], rule exI [of _ 1]) simp
  moreover have "ck_uncertainty (aux_sample 0 2 0) = 500000001" by code_simp
  ultimately show ?thesis using header_sample_error [of 5 "aux_sample 0 2 0"] by simp
qed

text \<open>
  C21. The start sample is stable once \<open>stop\<close> has set its event and no probe is under way: from
  every such reachable state of the thread, however it goes on, the sample that \<open>stop\<close> reads stays
  the same. A probe under way at that moment can still replace it. Every sample ever held has its
  midpoint and its uncertainty of half a second more than half the round trip; the midpoint lies
  between the host times and the uncertainty is at least half a second if the host clock was not set
  back during the probe. If it was, the uncertainty can be negative, and such a sample is kept.
\<close>

theorem sampler_stable_after_stop:
  assumes "sampler_step\<^sup>*\<^sup>* initial_sync s" "sy_stop s"
  shows "(sy_thread s \<noteq> Probing \<longrightarrow> (\<forall>t. sampler_step\<^sup>*\<^sup>* s t \<longrightarrow> sy_start t = sy_start s))
     \<and> (sy_thread s = Probing \<longrightarrow> (\<exists>t. sampler_step\<^sup>*\<^sup>* s t \<and> sy_start t \<noteq> sy_start s)
          \<and> (\<exists>t c. sampler_step\<^sup>*\<^sup>* s t \<and> sy_start t = Some c \<and> ck_receive c < ck_send c \<and> ck_uncertainty c < 0))
     \<and> (\<forall>c. sy_start s = Some c \<longrightarrow>
          ck_midpoint c = ck_send c + (ck_receive c - ck_send c) div 2 \<and> ck_offset c = ck_guest c - ck_midpoint c
          \<and> ck_uncertainty c = (ck_receive c - ck_send c) div 2 + 500000000
          \<and> (ck_send c \<le> ck_receive c \<longrightarrow>
               500000000 \<le> ck_uncertainty c \<and> ck_send c \<le> ck_midpoint c \<and> ck_midpoint c \<le> ck_receive c))"
proof (intro conjI impI allI)
  show "sy_start t = sy_start s" if "sy_thread s \<noteq> Probing" "sampler_step\<^sup>*\<^sup>* s t" for t
    using stopped_stable [OF that(2) assms(2) that(1)] by blast
next
  assume probing: "sy_thread s = Probing"
  have answered: "sampler_step\<^sup>*\<^sup>* s (s\<lparr>sy_thread := LoopHead, sy_start := Some (aux_sample a b 0)\<rparr>)" for a b
    by (rule r_into_rtranclp, rule sampler_step.answer [OF probing])
  obtain before where b: "Some (aux_sample before before 0) \<noteq> sy_start s"
  proof (cases "sy_start s")
    case (Some c)
    have "ck_send (aux_sample (ck_send c + 1) (ck_send c + 1) 0) \<noteq> ck_send c"
      by (simp add: aux_sample_def Let_def)
    then show ?thesis using that Some by fastforce
  qed (use that in auto)
  then show "\<exists>t. sampler_step\<^sup>*\<^sup>* s t \<and> sy_start t \<noteq> sy_start s"
    using answered [of before before]
    by (intro exI [of _ "s\<lparr>sy_thread := LoopHead, sy_start := Some (aux_sample before before 0)\<rparr>"]) auto
  show "\<exists>t c. sampler_step\<^sup>*\<^sup>* s t \<and> sy_start t = Some c \<and> ck_receive c < ck_send c \<and> ck_uncertainty c < 0"
    using answered [of 2000000000 0]
    by (intro exI [of _ "s\<lparr>sy_thread := LoopHead, sy_start := Some (aux_sample 2000000000 0 0)\<rparr>"]
        exI [of _ "aux_sample 2000000000 0 0"]) (simp add: aux_sample_ok)
next
  fix c assume c: "sy_start s = Some c"
  then have ok: "ck_midpoint c = ck_send c + (ck_receive c - ck_send c) div 2" "ck_offset c = ck_guest c - ck_midpoint c"
    "ck_uncertainty c = (ck_receive c - ck_send c) div 2 + 500000000"
    using sampler_samples [OF assms(1)] by (simp_all add: held_ok_def)
  show "ck_midpoint c = ck_send c + (ck_receive c - ck_send c) div 2" "ck_offset c = ck_guest c - ck_midpoint c"
    "ck_uncertainty c = (ck_receive c - ck_send c) div 2 + 500000000" using ok .
  show "500000000 \<le> ck_uncertainty c" "ck_send c \<le> ck_midpoint c" "ck_midpoint c \<le> ck_receive c"
    if "ck_send c \<le> ck_receive c" using that by (simp_all add: ok)
qed

lemma sampler_witness:
  "sy_start (initial_sync\<lparr>sy_stop := True\<rparr>) = sy_start (initial_sync\<lparr>sy_stop := True, sy_thread := LoopHead\<rparr>)"
proof -
  have "sampler_step\<^sup>*\<^sup>* initial_sync (initial_sync\<lparr>sy_stop := True\<rparr>)"
    by (rule r_into_rtranclp, rule sampler_step.request_stop)
  moreover have "sampler_step\<^sup>*\<^sup>* (initial_sync\<lparr>sy_stop := True\<rparr>)
      (initial_sync\<lparr>sy_stop := True, sy_thread := LoopHead\<rparr>)"
    by (rule r_into_rtranclp, rule sampler_step.start) (simp add: initial_sync_def)
  ultimately show ?thesis
    using sampler_stable_after_stop [of "initial_sync\<lparr>sy_stop := True\<rparr>"] by (simp add: initial_sync_def)
qed

text \<open>
  C22. The sampler ends: in every schedule in which the thread keeps moving, once the stop event is
  set or the 30 seconds have passed the thread finishes, and from then on the start sample is final.
\<close>

theorem sampler_finishes:
  assumes "fair_run r" "sy_stop (r i) \<or> sy_expired (r i)"
  shows "\<exists>n\<ge>i. \<forall>m\<ge>n. sy_thread (r m) = Finished \<and> sy_start (r m) = sy_start (r n)"
proof -
  obtain n where n: "i \<le> n" "sy_thread (r n) = Finished"
    using fair_run_finishes [OF assms(1)] assms(2) unfolding told_to_end_def by blast
  have "sampler_step (r i) (r (Suc i))" for i using assms(1) by (simp add: fair_run_def)
  from finished_run [of r n, OF this n(2)] have "\<forall>m\<ge>n. sy_thread (r m) = Finished \<and> sy_start (r m) = sy_start (r n)"
    by (metis le_add_diff_inverse)
  with n(1) show ?thesis by blast
qed

text \<open>Started, probing, told to stop while the probe is under way, answered, finished.\<close>

definition sampler_trace :: "nat \<Rightarrow> sync_state" where
  "sampler_trace i =
     (let stop = initial_sync\<lparr>sy_stop := True\<rparr> in
      if i = 0 then initial_sync
      else if i = 1 then initial_sync\<lparr>sy_thread := LoopHead\<rparr>
      else if i = 2 then initial_sync\<lparr>sy_thread := Probing\<rparr>
      else if i = 3 then stop\<lparr>sy_thread := Probing\<rparr>
      else if i = 4 then stop\<lparr>sy_thread := LoopHead, sy_start := Some (aux_sample 0 2 0)\<rparr>
      else stop\<lparr>sy_thread := Finished, sy_start := Some (aux_sample 0 2 0)\<rparr>)"

lemma sampler_trace_fair: "fair_run sampler_trace"
proof -
  let ?answered = "initial_sync\<lparr>sy_stop := True, sy_thread := LoopHead, sy_start := Some (aux_sample 0 2 0)\<rparr>"
  have "sampler_step initial_sync (initial_sync\<lparr>sy_thread := LoopHead\<rparr>)"
    by (rule sampler_step.start) (simp add: initial_sync_def)
  moreover have "sampler_step (initial_sync\<lparr>sy_thread := LoopHead\<rparr>) (initial_sync\<lparr>sy_thread := Probing\<rparr>)"
    using sampler_step.probe [of "initial_sync\<lparr>sy_thread := LoopHead\<rparr>"] by (simp add: initial_sync_def)
  moreover have "sampler_step (initial_sync\<lparr>sy_thread := Probing\<rparr>) (initial_sync\<lparr>sy_stop := True, sy_thread := Probing\<rparr>)"
    using sampler_step.request_stop [of "initial_sync\<lparr>sy_thread := Probing\<rparr>"] by (simp add: initial_sync_def)
  moreover have "sampler_step (initial_sync\<lparr>sy_stop := True, sy_thread := Probing\<rparr>) ?answered"
    using sampler_step.answer [of "initial_sync\<lparr>sy_stop := True, sy_thread := Probing\<rparr>" 0 2 0] by (simp add: initial_sync_def)
  moreover have "sampler_step ?answered (?answered\<lparr>sy_thread := Finished\<rparr>)"
    by (rule sampler_step.leave) simp_all
  moreover have "sampler_step (?answered\<lparr>sy_thread := Finished\<rparr>) (?answered\<lparr>sy_thread := Finished\<rparr>)"
    using sampler_step.request_stop [of "?answered\<lparr>sy_thread := Finished\<rparr>"] by (simp add: initial_sync_def)
  ultimately have step: "sampler_step (sampler_trace i) (sampler_trace (Suc i))" for i
    unfolding sampler_trace_def Let_def by (simp add: initial_sync_def)
  have "sy_thread (sampler_trace (Suc 4)) \<noteq> sy_thread (sampler_trace 4)" by (simp add: sampler_trace_def)
  moreover have "i \<le> 4" if "sy_thread (sampler_trace i) \<noteq> Finished" for i
    using that by (auto simp: sampler_trace_def Let_def split: if_splits)
  ultimately show ?thesis using step unfolding fair_run_def by blast
qed

lemma sampler_finishes_witness:
  "\<exists>n\<ge>3. \<forall>m\<ge>n. sy_thread (sampler_trace m) = Finished \<and> sy_start (sampler_trace m) = sy_start (sampler_trace n)"
  by (rule sampler_finishes [OF sampler_trace_fair]) (simp add: sampler_trace_def)

end
