(* ===== verification/AccessEvents.thy ===== *)
theory AccessEvents
  imports Clock Etw
begin

text \<open>
  Host access events (\<open>winstdt/access_events.py\<close>): the API calls that CAPE observed in the
  guest, moved to the host clock by linear interpolation between the start and the end offset,
  and the status document that says whether they may be correlated with the network. The
  document of \<open>Clock\<close> is its input and its output is what \<open>Etw\<close> ingests.
\<close>

section \<open>Times\<close>

definition max_uncertainty_ns :: int where "max_uncertainty_ns = 15 * 1000000000 div 2"

definition api_types :: "(string \<times> string) list" where
  "api_types =
     [(''CryptUnprotectData'', ''browser_credentials''), (''BCryptDecrypt'', ''browser_credentials''),
      (''SetWindowsHookExA'', ''keystrokes''), (''SetWindowsHookExW'', ''keystrokes''),
      (''GetAsyncKeyState'', ''keystrokes''), (''BitBlt'', ''screenshot''),
      (''CreateCompatibleBitmap'', ''screenshot''), (''GetClipboardData'', ''clipboard''),
      (''OpenClipboard'', ''clipboard''), (''GetComputerNameExA'', ''system_info''),
      (''GetComputerNameExW'', ''system_info''), (''GetUserNameA'', ''system_info''),
      (''GetUserNameW'', ''system_info''), (''ReadFile'', ''file_access''),
      (''CreateFileA'', ''file_access''), (''CreateFileW'', ''file_access''),
      (''NtReadFile'', ''file_access''), (''NtCreateFile'', ''file_access''),
      (''SetClipboardData'', ''clipboard''), (''GetComputerNameW'', ''system_info'')]"

text \<open>\<open>_datetime\<close>: a number is a POSIX time, anything else is read as ISO text, UTC if naive.\<close>

definition py_datetime :: "pyval \<Rightarrow> datetime res" where
  "py_datetime v =
     (case v of
        JInt k \<Rightarrow> fromtimestamp_utc (rnd (of_int k))
      | JFloat x \<Rightarrow> fromtimestamp_utc x
      | JBool b \<Rightarrow> fromtimestamp_utc (if b then 1 else 0)
      | _ \<Rightarrow>
          (case fromisoformat (replace_char (CHR '' '') ''T'' (replace_char (CHR ''Z'') ''+00:00'' (py_str v))) of
             None \<Rightarrow> Inl (ValueError ''Invalid isoformat string'')
           | Some t \<Rightarrow> Inr (if aware t then t else t\<lparr>utcoff := Some 0\<rparr>)))"

definition to_iso :: "datetime \<Rightarrow> string" where
  "to_iso t = iso_z (astimezone_utc t)"

text \<open>\<open>int(t.timestamp() * 1e9)\<close>.\<close>

definition ns_of :: "datetime \<Rightarrow> int" where
  "ns_of t = trunc (fmul (timestamp t) (10 ^ 9))"

section \<open>Interpolation\<close>

text \<open>A point: host time, guest minus host, uncertainty.\<close>

type_synonym point = "int \<times> int \<times> int"

definition point_of :: "pyval \<Rightarrow> datetime \<Rightarrow> point res" where
  "point_of m fallback =
     bind_res (get_default m ''selected_sample'' (JObj [])) (\<lambda>sel.
     bind_res (get_default sel ''host_midpoint_unix_ns'' (JInt (ns_of fallback))) (\<lambda>h.
     bind_res (py_int h) (\<lambda>host.
     bind_res (item m ''guest_minus_host_ns'') (\<lambda>g.
     bind_res (py_int g) (\<lambda>off.
     bind_res (get_default m ''uncertainty_ns'' (JInt 0)) (\<lambda>u.
     bind_res (py_int u) (\<lambda>unc. Inr (host, off, unc))))))))"

definition fraction :: "int \<Rightarrow> point \<Rightarrow> point \<Rightarrow> pyfloat" where
  "fraction guest_ns s e =
     (let span = fst e - fst s in
      if span \<le> 0 then 0 else min 1 (max 0 (idiv (guest_ns - fst s) span)))"

definition offset_at :: "int \<Rightarrow> point \<Rightarrow> point \<Rightarrow> int" where
  "offset_at guest_ns s e =
     fst (snd s) + trunc (fmul (rnd (of_int (fst (snd e) - fst (snd s)))) (fraction guest_ns s e))"

definition correct :: "datetime \<Rightarrow> point \<Rightarrow> point \<Rightarrow> datetime res" where
  "correct guest s e =
     (let ns = ns_of guest in fromtimestamp_utc (idiv (ns - offset_at ns s e) (10 ^ 9)))"

section \<open>Events and status\<close>

record access_event =
  ae_timestamp :: string
  ae_data_type :: string
  ae_api_call :: string
  ae_process :: pyval

definition access_obj :: "access_event \<Rightarrow> pyval" where
  "access_obj a = JObj
     [(''timestamp'', JStr (ae_timestamp a)), (''data_type'', JStr (ae_data_type a)),
      (''api_call'', JStr (ae_api_call a)), (''process'', ae_process a)]"

text \<open>One call: skipped, rejected, or an event; only the four listed exceptions reject.\<close>

datatype outcome = Skipped | Rejected | Observed access_event

fun rejects :: "py_error \<Rightarrow> bool" where
  "rejects (KeyError k) = True"
| "rejects (TypeError m) = True"
| "rejects (ValueError m) = True"
| "rejects _ = False"

definition call_outcome :: "datetime \<Rightarrow> datetime \<Rightarrow> point \<Rightarrow> point \<Rightarrow> pyval \<Rightarrow> pyval \<Rightarrow> outcome res" where
  "call_outcome start_t end_t s e process call =
     (if \<not> is_obj call then Inr Skipped
      else let api = get (obj_of call) ''api'' in
        if \<not> hashable api then Inl (TypeError ''unhashable type'')
        else case api of
               JStr a \<Rightarrow>
                 (case map_of api_types a of
                    None \<Rightarrow> Inr Skipped
                  | Some ty \<Rightarrow>
                      (case bind_res (item call ''timestamp'') (\<lambda>v. bind_res (py_datetime v) (\<lambda>t. correct t s e)) of
                         Inl err \<Rightarrow> if rejects err then Inr Rejected else Inl err
                       | Inr t \<Rightarrow>
                           if instant t < instant start_t \<or> instant end_t < instant t then Inr Rejected
                           else Inr (Observed \<lparr>ae_timestamp = to_iso t, ae_data_type = ty, ae_api_call = a,
                                  ae_process = (let p = get (obj_of process) ''process_name'' in
                                                if truth p then p else JNull)\<rparr>)))
             | _ \<Rightarrow> Inr Skipped)"

text \<open>The calls of the processes that are objects with a list of calls.\<close>

definition calls_of :: "pyval \<Rightarrow> (pyval \<times> pyval) list" where
  "calls_of process =
     (if is_obj process
      then (case map_of (obj_of process) ''calls'' of
              Some (JList cs) \<Rightarrow> map (\<lambda>c. (process, c)) cs
            | _ \<Rightarrow> [])
      else [])"

definition observed_calls :: "pyval \<Rightarrow> (pyval \<times> pyval) list res" where
  "observed_calls results =
     bind_res (get_default results ''behavior'' (JObj [])) (\<lambda>b.
     bind_res (get_default b ''processes'' (JList [])) (\<lambda>ps.
     bind_res (items_of ps) (\<lambda>xs. Inr (concat (map calls_of xs)))))"

fun observed :: "outcome list \<Rightarrow> access_event list" where
  "observed [] = []"
| "observed (Observed a # os) = a # observed os"
| "observed (Skipped # os) = observed os"
| "observed (Rejected # os) = observed os"

definition rejected_count :: "outcome list \<Rightarrow> nat" where
  "rejected_count os = length (filter (\<lambda>c. c = Rejected) os)"


section \<open>Validation and corroboration\<close>

text \<open>
  \<open>_validate_events\<close>: with a schema and the library the schema decides (\<open>validator\<close>), otherwise
  every event is checked field by field.
\<close>

definition basic_valid :: "access_event \<Rightarrow> bool" where
  "basic_valid a \<longleftrightarrow> (case py_datetime (JStr (ae_timestamp a)) of Inl _ \<Rightarrow> False | Inr _ \<Rightarrow> True)
     \<and> ae_data_type a \<in> set (map snd api_types) \<and> ae_api_call a \<noteq> []"

definition events_valid :: "(access_event list \<Rightarrow> bool) option \<Rightarrow> access_event list \<Rightarrow> bool" where
  "events_valid validator events \<longleftrightarrow>
     (case validator of Some ok \<Rightarrow> ok events | None \<Rightarrow> list_all basic_valid events)"

text \<open>Some ETW item is within two seconds and does not contradict the call or the process.\<close>

fun etw_match :: "access_event \<Rightarrow> datetime \<Rightarrow> pyval list \<Rightarrow> bool res" where
  "etw_match a when [] = Inr False"
| "etw_match a when (it # its) =
     (if \<not> is_obj it then Inl (AttributeError ''get'')
      else let d = obj_of it; ts = get d ''timestamp''; api = get d ''api_call''; pr = get d ''process'' in
        if \<not> truth ts then etw_match a when its
        else bind_res (py_datetime ts) (\<lambda>t.
          if \<bar>total_seconds (instant t - instant when)\<bar> \<le> 2
             \<and> (truth api \<longrightarrow> api = JStr (ae_api_call a)) \<and> (truth pr \<longrightarrow> pr = ae_process a)
          then Inr True else etw_match a when its))"

definition event_matched :: "pyval list \<Rightarrow> access_event \<Rightarrow> bool res" where
  "event_matched etw a =
     bind_res (py_datetime (JStr (ae_timestamp a))) (\<lambda>when. etw_match a when etw)"

definition etw_state :: "access_event list \<Rightarrow> pyval list option \<Rightarrow> string res" where
  "etw_state events etw =
     (case etw of
        None \<Rightarrow> Inr ''not_available''
      | Some [] \<Rightarrow> Inr ''not_available''
      | Some items \<Rightarrow>
          bind_res (map_res (event_matched items) events) (\<lambda>ms.
            let n = length (filter (\<lambda>b. b) ms) in
            Inr (if n = length events then ''corroborated''
                 else if 0 < n then ''partially_corroborated'' else ''conflicting'')))"

section \<open>Building the artifacts\<close>

record access_status =
  as_count :: nat
  as_etw_state :: string
  as_max_uncertainty :: "int option"
  as_eligible :: bool
  as_reason :: "string option"
  as_rejected :: nat

definition status_obj :: "access_status \<Rightarrow> pyval" where
  "status_obj s = JObj
     [(''schema_version'', JStr ''1.0''), (''event_count'', JInt (int (as_count s))),
      (''source'', JStr ''cape_capemon''), (''etw_corroboration_state'', JStr (as_etw_state s)),
      (''clock_algorithm'', JStr ''linear_start_end_interpolation''),
      (''maximum_uncertainty_ns'', case as_max_uncertainty s of None \<Rightarrow> JNull | Some u \<Rightarrow> JInt u),
      (''correlation_eligible'', JBool (as_eligible s)),
      (''reason_code'', case as_reason s of None \<Rightarrow> JNull | Some r \<Rightarrow> JStr r),
      (''rejected_event_count'', JInt (int (as_rejected s)))]"

text \<open>\<open>k in v\<close>.\<close>

fun has_key :: "string \<Rightarrow> pyval \<Rightarrow> bool res" where
  "has_key k (JObj d) = Inr (map_of d k \<noteq> None)"
| "has_key k (JList xs) = Inr (JStr k \<in> set xs)"
| "has_key k (JStr s) = Inr (contains k s)"
| "has_key k v = Inl (TypeError ''argument is not iterable'')"

text \<open>The two points with the largest uncertainty and the clock's verdict, if measured.\<close>

definition clock_points :: "pyval \<Rightarrow> datetime \<Rightarrow> datetime \<Rightarrow> ((point \<times> point) \<times> int \<times> string option) option res" where
  "clock_points clock start_t end_t =
     (let d = obj_of clock;
          ms = (if is_obj clock then (case map_of d ''measurements'' of Some m \<Rightarrow> m | None \<Rightarrow> JObj []) else JObj []) in
      bind_res (has_key ''start'' ms) (\<lambda>h1.
      bind_res (if h1 then has_key ''end'' ms else Inr False) (\<lambda>h2.
        if \<not> (h1 \<and> h2) then Inr None
        else
          bind_res (item ms ''start'') (\<lambda>m1. bind_res (point_of m1 start_t) (\<lambda>p1.
          bind_res (item ms ''end'') (\<lambda>m2. bind_res (point_of m2 end_t) (\<lambda>p2.
          bind_res (get_default clock ''quality'' (JObj [])) (\<lambda>q.
          bind_res (get_default q ''maximum_observed_uncertainty_ns'' (JInt 0)) (\<lambda>mx.
          bind_res (py_int mx) (\<lambda>mu.
            let u = max (max (snd (snd p1)) (snd (snd p2))) mu in
            Inr (Some ((p1, p2), u,
              if \<not> truth (case map_of (obj_of q) ''acceptable'' of Some v \<Rightarrow> v | None \<Rightarrow> JBool False)
              then Some ''clock_quality_rejected''
              else if max_uncertainty_ns \<le> u then Some ''clock_uncertainty_exceeds_correlation_limit''
              else None))))))))))))"

text \<open>From the outcomes of the calls to the events and the status.\<close>

definition finish_access ::
    "(access_event list \<Rightarrow> bool) option \<Rightarrow> ((point \<times> point) \<times> int \<times> string option) option
       \<Rightarrow> outcome list \<Rightarrow> pyval list option \<Rightarrow> (access_event list \<times> access_status) res" where
  "finish_access validator pts outcomes etw =
     (let valid = events_valid validator (observed outcomes);
          events = (if valid then observed outcomes else []);
          reason1 = (if \<not> valid then Some ''access_event_schema_invalid''
                     else case pts of None \<Rightarrow> Some ''clock_measurements_incomplete'' | Some (_, _, r) \<Rightarrow> r)
      in bind_res (etw_state events etw) (\<lambda>st.
           let reason2 = (if st = ''conflicting'' then Some ''etw_material_conflict'' else reason1);
               reason3 = (if events = [] \<and> reason2 = None then Some ''no_observed_access_events'' else reason2)
           in Inr (events,
                \<lparr>as_count = length events, as_etw_state = st,
                 as_max_uncertainty = (case pts of None \<Rightarrow> None | Some (_, u, _) \<Rightarrow> Some u),
                 as_eligible = (reason3 = None), as_reason = reason3,
                 as_rejected = rejected_count outcomes\<rparr>)))"

definition call_outcomes ::
    "pyval \<Rightarrow> datetime \<Rightarrow> datetime \<Rightarrow> ((point \<times> point) \<times> int \<times> string option) option \<Rightarrow> outcome list res" where
  "call_outcomes results start_t end_t pts =
     (case pts of
        None \<Rightarrow> Inr []
      | Some ((s, e), rest) \<Rightarrow>
          bind_res (observed_calls results) (\<lambda>cs.
            map_res (\<lambda>(p, c). call_outcome start_t end_t s e p c) cs))"

definition build_access_events ::
    "(access_event list \<Rightarrow> bool) option \<Rightarrow> pyval \<Rightarrow> pyval \<Rightarrow> pyval \<Rightarrow> pyval \<Rightarrow> pyval list option
       \<Rightarrow> (access_event list \<times> access_status) res" where
  "build_access_events validator results clock start_v end_v etw =
     bind_res (py_datetime start_v) (\<lambda>start_t.
     bind_res (py_datetime end_v) (\<lambda>end_t.
     bind_res (clock_points clock start_t end_t) (\<lambda>pts.
     bind_res (call_outcomes results start_t end_t pts) (\<lambda>outcomes.
       finish_access validator pts outcomes etw))))"

section \<open>Lemmas\<close>

lemma fromtimestamp_Inr: "fromtimestamp_utc x = Inr t \<Longrightarrow> \<exists>us. t = utc_of us \<and> in_calendar us"
  by (auto simp: fromtimestamp_utc_def Let_def in_calendar_def split: if_splits)

lemma correct_Inr: "correct g s e = Inr t \<Longrightarrow> \<exists>us. t = utc_of us \<and> in_calendar us"
  by (auto simp: correct_def Let_def dest: fromtimestamp_Inr)

text \<open>What every event of the result satisfies.\<close>

definition sound_event :: "datetime \<Rightarrow> datetime \<Rightarrow> access_event \<Rightarrow> bool" where
  "sound_event start_t end_t a \<longleftrightarrow>
     (\<exists>us. ae_timestamp a = iso_z (utc_of us) \<and> in_calendar us
        \<and> instant start_t \<le> us \<and> us \<le> instant end_t)
     \<and> map_of api_types (ae_api_call a) = Some (ae_data_type a)
     \<and> (truth (ae_process a) \<or> ae_process a = JNull)"

lemma call_outcome_sound:
  assumes "call_outcome start_t end_t s e p c = Inr (Observed a)"
  shows "sound_event start_t end_t a"
proof -
  obtain api ty t where "map_of api_types api = Some ty"
      "bind_res (item c ''timestamp'') (\<lambda>v. bind_res (py_datetime v) (\<lambda>t. correct t s e)) = Inr t"
      "instant start_t \<le> instant t" "instant t \<le> instant end_t"
      "ae_timestamp a = to_iso t" "ae_api_call a = api" "ae_data_type a = ty"
      "truth (ae_process a) \<or> ae_process a = JNull"
    using assms by (auto simp: call_outcome_def Let_def split: if_splits pyval.splits option.splits sum.splits)
  moreover from this(2) obtain us where "t = utc_of us" "in_calendar us"
    by (auto simp: bind_res_Inr_iff dest: correct_Inr)
  ultimately show ?thesis
    by (auto simp: sound_event_def to_iso_def astimezone_utc_def)
qed

lemma observed_mem: "a \<in> set (observed os) \<longleftrightarrow> Observed a \<in> set os"
  by (induction os rule: observed.induct) auto

lemma py_datetime_iso: "in_calendar us \<Longrightarrow> py_datetime (JStr (iso_z (utc_of us))) = Inr (utc_of us)"
  by (simp add: py_datetime_def iso_texts body_no_space fromisoformat_body(1))

lemma api_types_facts:
  assumes "map_of api_types a = Some ty"
  shows "a \<noteq> []" "ty \<in> set (map snd api_types)" "map_of data_type_technique ty \<noteq> None"
proof -
  have "\<forall>p \<in> set api_types. fst p \<noteq> [] \<and> map_of data_type_technique (snd p) \<noteq> None" by code_simp
  then show "a \<noteq> []" "map_of data_type_technique ty \<noteq> None" "ty \<in> set (map snd api_types)"
    using map_of_SomeD [OF assms] by force+
qed

lemma sound_event_valid: "sound_event start_t end_t a \<Longrightarrow> basic_valid a"
  using api_types_facts by (fastforce simp: sound_event_def basic_valid_def py_datetime_iso simp del: set_map)


lemma fraction_unit: "unit_interval (fraction g s e)"
  by (simp add: fraction_def unit_interval_def Let_def)

lemma scaled_between:
  assumes "unit_interval f" "\<bar>d\<bar> < 2 ^ 53"
  shows "min 0 d \<le> trunc (fmul (rnd (of_int d)) f) \<and> trunc (fmul (rnd (of_int d)) f) \<le> max 0 d"
proof -
  have f: "0 \<le> f" "f \<le> 1" using assms(1) by (simp_all add: unit_interval_def)
  have r: "rnd (of_int d) = of_int d" using assms(2) by (rule rnd_of_int)
  let ?x = "fmul (of_int d) f"
  show ?thesis
  proof (cases "0 \<le> d")
    case True
    then have "0 \<le> of_int d * f" "of_int d * f \<le> of_int d" using f by (simp_all add: mult_left_le)
    then have "0 \<le> ?x" "?x \<le> of_int d"
      using rnd_mono [of "of_int d * f" "of_int d"] r by (simp_all add: fmul_def rnd_nonneg)
    then show ?thesis using True r by (simp add: trunc_def floor_le_iff)
  next
    case False
    then have "of_int d * f \<le> 0" "of_int d \<le> of_int d * f"
      using f by (simp_all add: mult_nonpos_nonneg mult_le_cancel_left1)
    then have "?x \<le> 0" "of_int d \<le> ?x"
      using rnd_mono [of "of_int d * f" 0] rnd_mono [of "of_int d" "of_int d * f"] r by (simp_all add: fmul_def)
    then have "- \<lfloor>- ?x\<rfloor> \<le> 0 \<or> ?x = 0" "d \<le> - \<lfloor>- ?x\<rfloor>" by linarith+
    then show ?thesis using False r \<open>?x \<le> 0\<close> by (auto simp: trunc_def)
  qed
qed

lemma etw_of_access:
  assumes "sound_event start_t end_t a"
  shows "\<exists>e. (\<forall>i. parse_event (access_obj a) i = Inr e) \<and> ev_raw_timestamp e = ae_timestamp a
    \<and> ev_data_type e = ae_data_type a \<and> ev_api_call e = ae_api_call a \<and> ev_process e = ae_process a
    \<and> parse_iso (ae_timestamp a) = Some (ev_timestamp e)"
proof -
  obtain us where us: "ae_timestamp a = iso_z (utc_of us)" "in_calendar us"
    and api: "map_of api_types (ae_api_call a) = Some (ae_data_type a)"
    and pr: "truth (ae_process a) \<or> ae_process a = JNull"
    using assms by (auto simp: sound_event_def)
  note facts = api_types_facts [OF api]
  obtain tech cap where tech: "map_of data_type_technique (ae_data_type a) = Some (tech, cap)"
    using facts(3) by auto
  have "map_of data_type_technique [] = None" by code_simp
  then have ty: "ae_data_type a \<noteq> []" using tech by auto
  have "ae_timestamp a \<noteq> []" by (simp add: us(1) iso_z_utc [OF us(2)])
  then have "find (missing [(''timestamp'', JStr (ae_timestamp a)), (''data_type'', JStr (ae_data_type a)),
      (''api_call'', JStr (ae_api_call a)), (''process'', ae_process a)]) required_fields = None"
    using facts(1) ty by (simp add: required_fields_def missing_def)
  moreover have "to_utc (utc_of us) = Inr (utc_of us)"
    using us(2) by (simp add: to_utc_def in_calendar_def astimezone_utc_def Let_def)
  then have "parse_timestamp (JStr (ae_timestamp a)) = Inr (utc_of us)"
    using parse_iso_texts(1) [OF us(2)] by (simp add: parse_timestamp_def us(1))
  moreover have "parse_iso (ae_timestamp a) = Some (utc_of us)"
    using parse_iso_texts(1) [OF us(2)] by (simp add: us(1))
  ultimately show ?thesis
    using tech pr by (auto simp: parse_event_def access_obj_def lookup_technique_def Let_def)
qed

text \<open>Where the events and the status of a result come from.\<close>

lemma build_access_parts:
  assumes "build_access_events validator results clock start_v end_v etw = Inr (events, st)"
  obtains start_t end_t pts outcomes where
    "py_datetime start_v = Inr start_t" "py_datetime end_v = Inr end_t"
    "clock_points clock start_t end_t = Inr pts" "call_outcomes results start_t end_t pts = Inr outcomes"
    "finish_access validator pts outcomes etw = Inr (events, st)"
  using assms unfolding build_access_events_def bind_res_Inr_iff by blast

lemma finish_access_facts:
  assumes "finish_access validator pts outcomes etw = Inr (events, st)"
  shows "events = (if events_valid validator (observed outcomes) then observed outcomes else [])"
    and "as_count st = length events" "as_rejected st = rejected_count outcomes"
    and "as_max_uncertainty st = (case pts of None \<Rightarrow> None | Some (_, u, _) \<Rightarrow> Some u)"
    and "as_eligible st \<longleftrightarrow> as_reason st = None"
    and "as_eligible st \<longleftrightarrow> events \<noteq> [] \<and> as_etw_state st \<noteq> ''conflicting''
       \<and> (case pts of None \<Rightarrow> False | Some (_, _, r) \<Rightarrow> r = None)"
    and "etw_state events etw = Inr (as_etw_state st)"
proof -
  define evs where "evs = (if events_valid validator (observed outcomes) then observed outcomes else [])"
  define r where "r = (if \<not> events_valid validator (observed outcomes) then Some ''access_event_schema_invalid''
                     else case pts of None \<Rightarrow> Some ''clock_measurements_incomplete'' | Some (_, _, r) \<Rightarrow> r)"
  obtain s where s: "etw_state evs etw = Inr s" and ev: "events = evs"
    and st: "as_count st = length evs" "as_etw_state st = s" "as_rejected st = rejected_count outcomes"
      "as_max_uncertainty st = (case pts of None \<Rightarrow> None | Some (_, u, _) \<Rightarrow> Some u)"
      "as_reason st = (let r2 = (if s = ''conflicting'' then Some ''etw_material_conflict'' else r)
         in if evs = [] \<and> r2 = None then Some ''no_observed_access_events'' else r2)"
      "as_eligible st \<longleftrightarrow> as_reason st = None"
    using assms unfolding finish_access_def Let_def evs_def [symmetric] r_def [symmetric] bind_res_Inr_iff
    by auto
  show "events = (if events_valid validator (observed outcomes) then observed outcomes else [])"
    by (simp add: ev evs_def)
  show "as_count st = length events" "as_rejected st = rejected_count outcomes"
    "as_max_uncertainty st = (case pts of None \<Rightarrow> None | Some (_, u, _) \<Rightarrow> Some u)"
    "as_eligible st \<longleftrightarrow> as_reason st = None" "etw_state events etw = Inr (as_etw_state st)"
    by (simp_all add: ev s st)
  have "evs \<noteq> [] \<Longrightarrow> r = (case pts of None \<Rightarrow> Some ''clock_measurements_incomplete'' | Some (_, _, r) \<Rightarrow> r)"
    by (auto simp: evs_def r_def split: if_splits)
  then show "as_eligible st \<longleftrightarrow> events \<noteq> [] \<and> as_etw_state st \<noteq> ''conflicting''
       \<and> (case pts of None \<Rightarrow> False | Some (_, _, r) \<Rightarrow> r = None)"
    by (cases "evs = []") (simp_all add: ev st Let_def case_prod_beta split: option.split)
qed

lemma call_outcomes_sound:
  assumes "call_outcomes results start_t end_t pts = Inr outcomes" "a \<in> set (observed outcomes)"
  shows "sound_event start_t end_t a"
proof -
  have "Observed a \<in> set outcomes" using assms(2) by (simp add: observed_mem)
  then obtain s e rest cs where pts: "pts = Some ((s, e), rest)"
      and cs: "map_res (\<lambda>(p, c). call_outcome start_t end_t s e p c) cs = Inr outcomes"
    using assms(1) by (auto simp: call_outcomes_def bind_res_Inr_iff split: option.splits prod.splits)
  obtain pc where "(\<lambda>(p, c). call_outcome start_t end_t s e p c) pc = Inr (Observed a)"
    using map_res_mem [OF cs \<open>Observed a \<in> set outcomes\<close>] by blast
  then show ?thesis by (cases pc) (auto dest: call_outcome_sound)
qed

lemma build_access_sound:
  assumes "build_access_events validator results clock start_v end_v etw = Inr (events, st)"
  obtains start_t end_t where "py_datetime start_v = Inr start_t" "py_datetime end_v = Inr end_t"
    "\<forall>a \<in> set events. sound_event start_t end_t a"
proof -
  from assms obtain start_t end_t pts outcomes where
    *: "py_datetime start_v = Inr start_t" "py_datetime end_v = Inr end_t"
    "call_outcomes results start_t end_t pts = Inr outcomes"
    "finish_access validator pts outcomes etw = Inr (events, st)"
    by (rule build_access_parts)
  have "\<forall>a \<in> set events. sound_event start_t end_t a"
    using finish_access_facts(1) [OF *(4)] call_outcomes_sound [OF *(3)] by (auto split: if_splits)
  with * that show thesis by blast
qed

lemma ingest_loop_all:
  assumes "\<forall>x \<in> set xs. \<forall>i. parse_event (g x) i = Inr (f x)"
  shows "ingest_loop strict i (map g xs) r = Inr (r\<lparr>ir_events := ir_events r @ map f xs\<rparr>)"
  using assms by (induction xs arbitrary: i r) simp_all

section \<open>Properties\<close>

text \<open>
  The interpolated offset stays between the two measured ones: whatever the guest time and
  however the floating-point interpolation rounds, the offset applied is at least the smaller and
  at most the larger of the start and the end offset, for offsets less than 104 days apart.
\<close>

theorem interpolated_offset_between:
  assumes "\<bar>fst (snd e) - fst (snd s)\<bar> < 2 ^ 53"
  shows "min (fst (snd s)) (fst (snd e)) \<le> offset_at ns s e
     \<and> offset_at ns s e \<le> max (fst (snd s)) (fst (snd e))"
  using scaled_between [OF fraction_unit [of ns s e] assms] by (auto simp: offset_at_def)

lemma interpolated_offset_witness: "100 \<le> offset_at 5 (0, 100, 0) (10, 200, 0)"
  using interpolated_offset_between [of "(10, 200, 0)" "(0, 100, 0)" 5] by simp

text \<open>When the clock is accepted: both measurements are there, the quality says so, and no uncertainty reaches 7.5 s.\<close>

lemma point_of_Inr:
  assumes "point_of m fallback = Inr p"
  shows "\<exists>d. m = JObj d \<and> py_int (case map_of d ''uncertainty_ns'' of Some v \<Rightarrow> v | None \<Rightarrow> JInt 0) = Inr (snd (snd p))"
proof -
  from assms obtain u where u: "get_default m ''uncertainty_ns'' (JInt 0) = Inr u" "py_int u = Inr (snd (snd p))"
    unfolding point_of_def bind_res_Inr_iff by auto
  then show ?thesis by (cases m) (auto simp: get_default_def)
qed

lemma has_key_True: "has_key k v = Inr True \<Longrightarrow> item v k = Inr x \<Longrightarrow> \<exists>d. v = JObj d \<and> map_of d k = Some x"
  by (cases v) (auto simp: item_def split: option.splits)

lemma clock_points_accepted:
  "(\<exists>ps u. clock_points clock start_t end_t = Inr (Some (ps, u, None))) \<longleftrightarrow>
     (\<exists>d ms m1 m2 p1 p2 q mu v. clock = JObj d \<and> map_of d ''measurements'' = Some (JObj ms)
               \<and> map_of ms ''start'' = Some (JObj m1) \<and> map_of ms ''end'' = Some (JObj m2)
               \<and> point_of (JObj m1) start_t = Inr p1 \<and> point_of (JObj m2) end_t = Inr p2
               \<and> py_int (case map_of m1 ''uncertainty_ns'' of Some x \<Rightarrow> x | None \<Rightarrow> JInt 0) = Inr (snd (snd p1))
               \<and> py_int (case map_of m2 ''uncertainty_ns'' of Some x \<Rightarrow> x | None \<Rightarrow> JInt 0) = Inr (snd (snd p2))
               \<and> map_of d ''quality'' = Some (JObj q) \<and> map_of q ''acceptable'' = Some v \<and> truth v
               \<and> py_int (case map_of q ''maximum_observed_uncertainty_ns'' of Some x \<Rightarrow> x | None \<Rightarrow> JInt 0) = Inr mu
               \<and> snd (snd p1) < 7500000000 \<and> snd (snd p2) < 7500000000 \<and> mu < 7500000000)" (is "?l \<longleftrightarrow> ?r")
proof
  assume ?l
  then obtain ps u where cp: "clock_points clock start_t end_t = Inr (Some (ps, u, None))" by blast
  define ms where "ms = (if is_obj clock then (case map_of (obj_of clock) ''measurements'' of Some m \<Rightarrow> m | None \<Rightarrow> JObj []) else JObj [])"
  from cp obtain m1 m2 p1 p2 q mx mu where *: "has_key ''start'' ms = Inr True" "has_key ''end'' ms = Inr True"
    "item ms ''start'' = Inr m1" "item ms ''end'' = Inr m2" "point_of m1 start_t = Inr p1" "point_of m2 end_t = Inr p2"
    "get_default clock ''quality'' (JObj []) = Inr q" "get_default q ''maximum_observed_uncertainty_ns'' (JInt 0) = Inr mx"
    "py_int mx = Inr mu"
    and ok: "truth (case map_of (obj_of q) ''acceptable'' of Some v \<Rightarrow> v | None \<Rightarrow> JBool False)"
      "\<not> max_uncertainty_ns \<le> max (max (snd (snd p1)) (snd (snd p2))) mu"
    unfolding clock_points_def Let_def ms_def [symmetric] bind_res_Inr_iff
    by (auto simp: bind_res_Inr_iff split: if_splits)
  obtain d where d: "clock = JObj d" using *(7) by (cases clock) (auto simp: get_default_def)
  obtain qd where q: "q = JObj qd" using *(8) by (cases q) (auto simp: get_default_def)
  obtain d1 where m1: "m1 = JObj d1" "py_int (case map_of d1 ''uncertainty_ns'' of Some x \<Rightarrow> x | None \<Rightarrow> JInt 0) = Inr (snd (snd p1))"
    using point_of_Inr [OF *(5)] by blast
  obtain d2 where m2: "m2 = JObj d2" "py_int (case map_of d2 ''uncertainty_ns'' of Some x \<Rightarrow> x | None \<Rightarrow> JInt 0) = Inr (snd (snd p2))"
    using point_of_Inr [OF *(6)] by blast
  obtain msd where msd: "ms = JObj msd" "map_of msd ''start'' = Some (JObj d1)" using has_key_True [OF *(1,3)] by (auto simp: m1)
  have "map_of msd ''end'' = Some (JObj d2)" using has_key_True [OF *(2,4)] by (auto simp: msd(1) m2)
  moreover obtain v where "map_of qd ''acceptable'' = Some v" "truth v" using ok(1) by (auto simp: q split: option.splits)
  moreover have "map_of d ''measurements'' = Some (JObj msd)" using msd by (auto simp: ms_def d split: option.splits)
  moreover from calculation have "map_of d ''quality'' = Some (JObj qd)"
    using *(7) by (auto simp: get_default_def d q split: option.splits)
  moreover have "py_int (case map_of qd ''maximum_observed_uncertainty_ns'' of Some x \<Rightarrow> x | None \<Rightarrow> JInt 0) = Inr mu"
    using *(8,9) by (simp add: get_default_def q)
  moreover have "snd (snd p1) < 7500000000 \<and> snd (snd p2) < 7500000000 \<and> mu < 7500000000"
    using ok(2) unfolding max_uncertainty_ns_def not_le by simp
  ultimately show ?r using d msd *(5,6) m1 m2 by blast
next
  assume ?r
  then show ?l
    by (auto simp: clock_points_def get_default_def item_def max_uncertainty_ns_def Let_def)
qed

text \<open>When an ETW item supports an event.\<close>

definition supports :: "access_event \<Rightarrow> int \<Rightarrow> (string \<times> pyval) list \<Rightarrow> bool" where
  "supports a us d \<longleftrightarrow> truth (get d ''timestamp'')
     \<and> (\<exists>t. py_datetime (get d ''timestamp'') = Inr t \<and> \<bar>total_seconds (instant t - us)\<bar> \<le> 2)
     \<and> (truth (get d ''api_call'') \<longrightarrow> get d ''api_call'' = JStr (ae_api_call a))
     \<and> (truth (get d ''process'') \<longrightarrow> get d ''process'' = ae_process a)"

lemma etw_match_iff:
  "etw_match a w its = Inr b \<Longrightarrow> b \<longleftrightarrow> (\<exists>d. JObj d \<in> set its \<and> supports a (instant w) d)"
proof (induction its)
  case (Cons it its)
  obtain d where it: "it = JObj d" using Cons.prems by (cases it) simp_all
  show ?case
  proof (cases "truth (get d ''timestamp'')")
    case False
    then have "\<not> supports a (instant w) d" "etw_match a w its = Inr b"
      using Cons.prems by (simp_all add: it supports_def Let_def)
    then show ?thesis using Cons.IH by (auto simp: it)
  next
    case True
    then obtain t where t: "py_datetime (get d ''timestamp'') = Inr t"
      using Cons.prems by (auto simp: it Let_def bind_res_Inr_iff)
    have e: "etw_match a w (it # its) = (if supports a (instant w) d then Inr True else etw_match a w its)"
      using True by (simp add: it t supports_def Let_def)
    show ?thesis using Cons.prems Cons.IH unfolding e by (auto simp: it split: if_splits)
  qed
qed simp

lemma event_matched_iff:
  assumes "event_matched its a = Inr b" "sound_event start_t end_t a"
  shows "b \<longleftrightarrow> (\<exists>d us. JObj d \<in> set its \<and> parse_iso (ae_timestamp a) = Some (utc_of us) \<and> supports a us d)"
proof -
  obtain us where us: "ae_timestamp a = iso_z (utc_of us)" "in_calendar us"
    using assms(2) by (auto simp: sound_event_def)
  have p: "parse_iso (ae_timestamp a) = Some (utc_of us)" using parse_iso_texts(1) [OF us(2)] us(1) by simp
  have "etw_match a (utc_of us) its = Inr b" using assms(1) by (simp add: event_matched_def us py_datetime_iso)
  from etw_match_iff [OF this] have "b \<longleftrightarrow> (\<exists>d. JObj d \<in> set its \<and> supports a us d)" by simp
  moreover have "us' = us" if "parse_iso (ae_timestamp a) = Some (utc_of us')" for us'
    using that p by (metis instant_utc_of option.inject)
  ultimately show ?thesis using p by metis
qed

lemma map_res_any: "map_res f xs = Inr bs \<Longrightarrow> True \<in> set bs \<longleftrightarrow> (\<exists>x \<in> set xs. f x = Inr True)"
  unfolding map_res_Inr_all2 by (induction rule: list_all2_induct) auto

lemma map_res_defined: "map_res f xs = Inr bs \<Longrightarrow> x \<in> set xs \<Longrightarrow> \<exists>b. f x = Inr b"
  unfolding map_res_Inr_all2 by (induction rule: list_all2_induct) auto

lemma etw_not_conflicting:
  assumes "etw_state events etw = Inr s" "\<And>a. a \<in> set events \<Longrightarrow> sound_event start_t end_t a" "events \<noteq> []"
  shows "s \<noteq> ''conflicting'' \<longleftrightarrow> etw = None \<or> etw = Some [] \<or>
     (\<exists>a \<in> set events. \<exists>d us. JObj d \<in> set (the etw) \<and> parse_iso (ae_timestamp a) = Some (utc_of us) \<and> supports a us d)"
proof (cases "etw = None \<or> etw = Some []")
  case True
  then show ?thesis using assms(1) by (auto simp: etw_state_def)
next
  case False
  then obtain its where etw: "etw = Some its" "its \<noteq> []" by auto
  then obtain ms where ms: "map_res (event_matched its) events = Inr ms"
    and s: "s = (if length (filter (\<lambda>b. b) ms) = length events then ''corroborated''
                 else if 0 < length (filter (\<lambda>b. b) ms) then ''partially_corroborated'' else ''conflicting'')"
    using assms(1) by (cases its) (auto simp: etw_state_def bind_res_Inr_iff Let_def split: if_splits)
  have "s \<noteq> ''conflicting'' \<longleftrightarrow> True \<in> set ms"
    unfolding s using assms(3) by (auto simp: filter_empty_conv)
  also have "\<dots> \<longleftrightarrow> (\<exists>a \<in> set events. event_matched its a = Inr True)" by (rule map_res_any [OF ms])
  also have "\<dots> \<longleftrightarrow> (\<exists>a \<in> set events. \<exists>d us. JObj d \<in> set its \<and> parse_iso (ae_timestamp a) = Some (utc_of us) \<and> supports a us d)"
  proof (rule bex_cong [OF refl])
    fix a assume a: "a \<in> set events"
    obtain b where b: "event_matched its a = Inr b" using map_res_defined [OF ms a] by blast
    from event_matched_iff [OF this assms(2) [OF a]]
    show "event_matched its a = Inr True
        \<longleftrightarrow> (\<exists>d us. JObj d \<in> set its \<and> parse_iso (ae_timestamp a) = Some (utc_of us) \<and> supports a us d)"
      by (simp add: b)
  qed
  finally show ?thesis using etw False by simp
qed

text \<open>
  C17. Only observed, known and in-window accesses are reported: every event of a result carries
  an API call of the table with its data type and the text of a UTC time inside the analysis
  window; the status counts the events. Correlation is allowed exactly when there are events, the
  ETW items, if any, support one of them (within two seconds, without naming another call or
  process), both clock measurements are there, the clock quality is acceptable, and the largest
  of the three uncertainties is below 7.5 seconds.
\<close>

theorem access_events_sound:
  assumes "build_access_events validator results clock start_v end_v etw = Inr (events, st)"
  shows "\<exists>start_t end_t. py_datetime start_v = Inr start_t \<and> py_datetime end_v = Inr end_t
     \<and> (\<forall>a \<in> set events. \<exists>us. parse_iso (ae_timestamp a) = Some (utc_of us)
          \<and> instant start_t \<le> us \<and> us \<le> instant end_t
          \<and> map_of api_types (ae_api_call a) = Some (ae_data_type a))
     \<and> as_count st = length events
     \<and> (as_eligible st \<longleftrightarrow> events \<noteq> []
          \<and> (etw = None \<or> etw = Some [] \<or>
             (\<exists>a \<in> set events. \<exists>d us. JObj d \<in> set (the etw) \<and> parse_iso (ae_timestamp a) = Some (utc_of us)
                \<and> truth (get d ''timestamp'')
                \<and> (\<exists>t. py_datetime (get d ''timestamp'') = Inr t \<and> \<bar>total_seconds (instant t - us)\<bar> \<le> 2)
                \<and> (truth (get d ''api_call'') \<longrightarrow> get d ''api_call'' = JStr (ae_api_call a))
                \<and> (truth (get d ''process'') \<longrightarrow> get d ''process'' = ae_process a)))
          \<and> (\<exists>d ms m1 m2 p1 p2 q mu v. clock = JObj d \<and> map_of d ''measurements'' = Some (JObj ms)
               \<and> map_of ms ''start'' = Some (JObj m1) \<and> map_of ms ''end'' = Some (JObj m2)
               \<and> point_of (JObj m1) start_t = Inr p1 \<and> point_of (JObj m2) end_t = Inr p2
               \<and> py_int (case map_of m1 ''uncertainty_ns'' of Some x \<Rightarrow> x | None \<Rightarrow> JInt 0) = Inr (snd (snd p1))
               \<and> py_int (case map_of m2 ''uncertainty_ns'' of Some x \<Rightarrow> x | None \<Rightarrow> JInt 0) = Inr (snd (snd p2))
               \<and> map_of d ''quality'' = Some (JObj q) \<and> map_of q ''acceptable'' = Some v \<and> truth v
               \<and> py_int (case map_of q ''maximum_observed_uncertainty_ns'' of Some x \<Rightarrow> x | None \<Rightarrow> JInt 0) = Inr mu
               \<and> snd (snd p1) < 7500000000 \<and> snd (snd p2) < 7500000000 \<and> mu < 7500000000))"
proof -
  from assms obtain start_t end_t pts outcomes where
    *: "py_datetime start_v = Inr start_t" "py_datetime end_v = Inr end_t"
    "clock_points clock start_t end_t = Inr pts"
    "call_outcomes results start_t end_t pts = Inr outcomes"
    "finish_access validator pts outcomes etw = Inr (events, st)"
    by (rule build_access_parts)
  note facts = finish_access_facts [OF *(5)]
  have sound: "sound_event start_t end_t a" if "a \<in> set events" for a
    using that facts(1) call_outcomes_sound [OF *(4)] by (auto split: if_splits)
  have window: "\<forall>a \<in> set events. \<exists>us. parse_iso (ae_timestamp a) = Some (utc_of us)
          \<and> instant start_t \<le> us \<and> us \<le> instant end_t
          \<and> map_of api_types (ae_api_call a) = Some (ae_data_type a)"
    using sound parse_iso_texts(1) by (fastforce simp: sound_event_def)
  have "(case pts of None \<Rightarrow> False | Some (_, _, r) \<Rightarrow> r = None)
      \<longleftrightarrow> (\<exists>ps u. clock_points clock start_t end_t = Inr (Some (ps, u, None)))"
    by (auto simp: *(3) split: option.splits)
  note clock = this [unfolded clock_points_accepted]
  show ?thesis
    using *(1,2) facts(2) window etw_not_conflicting [OF facts(7) sound, unfolded supports_def] unfolding facts(6) clock
    by (intro exI [of _ start_t] exI [of _ end_t] conjI) blast+
qed


definition sample_results :: pyval where
  "sample_results = JObj [(''behavior'', JObj [(''processes'', JList
     [JObj [(''process_name'', JStr ''a.exe''),
            (''calls'', JList [JObj [(''api'', JStr ''BitBlt''), (''timestamp'', JInt 0)]])]])])]"

definition sample_clock :: pyval where
  "sample_clock = aux_document (Some (aux_sample 0 0 0)) (Some (aux_sample 0 2 0))"

definition sample_access_event :: access_event where
  "sample_access_event = \<lparr>ae_timestamp = ''1970-01-01T00:00:00Z'', ae_data_type = ''screenshot'',
     ae_api_call = ''BitBlt'', ae_process = JStr ''a.exe''\<rparr>"

lemma sample_access_run:
  "\<exists>st. build_access_events None sample_results sample_clock (JInt 0) (JInt 0) None = Inr ([sample_access_event], st)"
proof -
  let ?s = "(0, 0, 500000000)" and ?e = "(1, - 1, 500000001)"
  let ?p = "JObj [(''process_name'', JStr ''a.exe''),
       (''calls'', JList [JObj [(''api'', JStr ''BitBlt''), (''timestamp'', JInt 0)]])]"
  let ?c = "JObj [(''api'', JStr ''BitBlt''), (''timestamp'', JInt 0)]"
  have t: "py_datetime (JInt 0) = Inr (utc_of 0)" "correct (utc_of 0) ?s ?e = Inr (utc_of 0)"
    "to_iso (utc_of 0) = ''1970-01-01T00:00:00Z''" "map_of api_types ''BitBlt'' = Some ''screenshot''"
    "clock_points sample_clock (utc_of 0) (utc_of 0) = Inr (Some ((?s, ?e), 500000001, None))"
    "observed_calls sample_results = Inr [(?p, ?c)]" "basic_valid sample_access_event"
    by code_simp+
  have "call_outcome (utc_of 0) (utc_of 0) ?s ?e ?p ?c = Inr (Observed sample_access_event)"
    by (simp add: call_outcome_def t(1-4) sample_access_event_def)
  then have "call_outcomes sample_results (utc_of 0) (utc_of 0) (Some ((?s, ?e), 500000001, None))
      = Inr [Observed sample_access_event]"
    by (simp add: call_outcomes_def t(6))
  then show ?thesis
    by (simp add: build_access_events_def t(1,5,7) finish_access_def events_valid_def etw_state_def Let_def)
qed

lemma access_events_witness:
  "case build_access_events None sample_results sample_clock (JInt 0) (JInt 0) None of
     Inr ([a], st) \<Rightarrow> map_of api_types (ae_api_call a) = Some (ae_data_type a) \<and> as_count st = 1
   | _ \<Rightarrow> False"
proof -
  obtain st where r: "build_access_events None sample_results sample_clock (JInt 0) (JInt 0) None
      = Inr ([sample_access_event], st)"
    using sample_access_run by blast
  from access_events_sound [OF r] have "map_of api_types (ae_api_call sample_access_event) = Some (ae_data_type sample_access_event)" "as_count st = 1"
    by auto
  then show ?thesis unfolding r by simp
qed

text \<open>
  C18. What is written is read back: the events of every result are accepted without an error by
  the analyzer's ingestion, one event per record with the same instant, data type, API call and
  process, in time order.
\<close>

theorem access_events_ingest:
  assumes "build_access_events validator results clock start_v end_v etw = Inr (events, st)"
  shows "\<exists>rep. ingest (JList (map access_obj events)) strict = Inr rep \<and> ir_errors rep = []
     \<and> mset (map (\<lambda>e. (Some (ev_timestamp e), ev_data_type e, ev_api_call e, ev_process e)) (ir_events rep))
         = mset (map (\<lambda>a. (parse_iso (ae_timestamp a), ae_data_type a, ae_api_call a, ae_process a)) events)
     \<and> sorted (map (\<lambda>e. instant (ev_timestamp e)) (ir_events rep))"
proof -
  obtain start_t end_t where "\<forall>a \<in> set events. sound_event start_t end_t a"
    by (rule build_access_sound [OF assms])
  then obtain f where f: "\<forall>a \<in> set events. (\<forall>i. parse_event (access_obj a) i = Inr (f a))
      \<and> (Some (ev_timestamp (f a)), ev_data_type (f a), ev_api_call (f a), ev_process (f a))
          = (parse_iso (ae_timestamp a), ae_data_type a, ae_api_call a, ae_process a)"
    using etw_of_access by (metis (no_types, lifting))
  let ?rep = "\<lparr>ir_events = sort_key (\<lambda>e. instant (ev_timestamp e)) (map f events), ir_errors = []\<rparr>"
  have "ingest (JList (map access_obj events)) strict = Inr ?rep"
    using ingest_loop_all [of events access_obj f strict 0 "\<lparr>ir_events = [], ir_errors = []\<rparr>"] f
    by (simp add: ingest_def)
  moreover have "mset (map (\<lambda>e. (Some (ev_timestamp e), ev_data_type e, ev_api_call e, ev_process e)) (ir_events ?rep))
      = mset (map (\<lambda>a. (Some (ev_timestamp (f a)), ev_data_type (f a), ev_api_call (f a), ev_process (f a))) events)"
    by (simp add: mset_map multiset.map_comp comp_def)
  moreover have "map (\<lambda>a. (Some (ev_timestamp (f a)), ev_data_type (f a), ev_api_call (f a), ev_process (f a))) events
      = map (\<lambda>a. (parse_iso (ae_timestamp a), ae_data_type a, ae_api_call a, ae_process a)) events"
    using f by simp
  ultimately show ?thesis by (intro exI [of _ ?rep]) (simp del: map_eq_conv)
qed

lemma access_events_ingest_witness:
  "case build_access_events None sample_results sample_clock (JInt 0) (JInt 0) None of
     Inl _ \<Rightarrow> False
   | Inr (events, st) \<Rightarrow> (case ingest (JList (map access_obj events)) True of
                           Inl _ \<Rightarrow> False | Inr rep \<Rightarrow> ir_errors rep = [])"
proof -
  obtain st where r: "build_access_events None sample_results sample_clock (JInt 0) (JInt 0) None
      = Inr ([sample_access_event], st)"
    using sample_access_run by blast
  obtain rep where "ingest (JList (map access_obj [sample_access_event])) True = Inr rep" "ir_errors rep = []"
    using access_events_ingest [OF r, of True] by blast
  then show ?thesis by (simp add: r)
qed

end
