(* ===== verification/FileTree.thy ===== *)
theory FileTree
  imports PyNum Json
begin

text \<open>
  Directories as the operator scripts and the exporter use them: a tree is a dictionary from the
  relative paths of its files to their contents. Reading a file that is not there raises; writing
  a path again keeps its place; hashing goes through the paths in the order of \<open>pathlib\<close>.
\<close>

type_synonym files = "(string \<times> string) list"

section \<open>Paths\<close>

definition base_name :: "string \<Rightarrow> string" where
  "base_name p = last (split_on (CHR ''/'') p)"

text \<open>Paths are ordered by their components.\<close>

definition path_key :: "string \<Rightarrow> string list" where
  "path_key p = split_on (CHR ''/'') p"

section \<open>Reading and writing\<close>

definition read_file :: "files \<Rightarrow> string \<Rightarrow> string res" where
  "read_file b p = (case map_of b p of None \<Rightarrow> Inl (OSError p) | Some c \<Rightarrow> Inr c)"

definition read_json :: "(string \<Rightarrow> pyval res) \<Rightarrow> files \<Rightarrow> string \<Rightarrow> pyval res" where
  "read_json loads b p = bind_res (read_file b p) loads"

text \<open>\<open>json.dumps(v, indent=2) + "\n"\<close>.\<close>

definition write_json :: "string \<Rightarrow> pyval \<Rightarrow> files \<Rightarrow> files" where
  "write_json path v b = dict_set path (json_pretty 0 v @ [char_of (10 :: nat)]) b"

definition remove_file :: "string \<Rightarrow> files \<Rightarrow> files" where
  "remove_file p b = filter (\<lambda>(q, c). q \<noteq> p) b"

text \<open>\<open>if a.exists(): a.rename(b)\<close>.\<close>

definition rename_file :: "string \<Rightarrow> string \<Rightarrow> files \<Rightarrow> files" where
  "rename_file p q b = (case map_of b p of None \<Rightarrow> b | Some c \<Rightarrow> dict_set q c (remove_file p b))"

text \<open>\<open>file_hashes\<close>: every file below a root with its digest, in path order.\<close>

definition file_hashes :: "(string \<Rightarrow> string) \<Rightarrow> files \<Rightarrow> (string \<times> string) list" where
  "file_hashes H b = map (\<lambda>(p, c). (p, H c)) (sort_key (\<lambda>(p, c). path_key p) b)"

section \<open>Building objects\<close>

text \<open>The fields of a dictionary display are evaluated in order; the first exception wins.\<close>

definition eval_fields :: "(string \<times> pyval res) list \<Rightarrow> pyval res" where
  "eval_fields fs = bind_res (map_res (\<lambda>(k, r). bind_res r (\<lambda>v. Inr (k, v))) fs) (\<lambda>d. Inr (JObj d))"

text \<open>\<open>v.lower()\<close>.\<close>

definition lower_of :: "pyval \<Rightarrow> string res" where
  "lower_of v = (case v of JStr s \<Rightarrow> Inr (str_lower s) | _ \<Rightarrow> Inl (AttributeError ''lower''))"

section \<open>Lemmas\<close>

lemma read_file_Inr: "read_file b p = Inr c \<longleftrightarrow> map_of b p = Some c"
  by (simp add: read_file_def split: option.split)

lemma remove_file_lookup [simp]: "map_of (remove_file p b) q = (if q = p then None else map_of b q)"
  unfolding remove_file_def by (induction b) auto

lemma remove_file_keys: "dict_keys (remove_file p b) = filter (\<lambda>q. q \<noteq> p) (dict_keys b)"
  unfolding remove_file_def by (induction b) auto

lemma distinct_remove_file: "distinct (dict_keys b) \<Longrightarrow> distinct (dict_keys (remove_file p b))"
  by (simp add: remove_file_keys)

lemma distinct_write_json: "distinct (dict_keys b) \<Longrightarrow> distinct (dict_keys (write_json p v b))"
  by (simp add: write_json_def distinct_dict_set)

lemma distinct_rename_file: "distinct (dict_keys b) \<Longrightarrow> distinct (dict_keys (rename_file p q b))"
  by (simp add: rename_file_def distinct_dict_set distinct_remove_file split: option.split)

lemma write_json_lookup [simp]:
  "map_of (write_json p v b) q = (if q = p then Some (json_pretty 0 v @ [char_of (10 :: nat)]) else map_of b q)"
  by (simp add: write_json_def)

lemma rename_file_lookup:
  "map_of (rename_file p q b) r =
     (if map_of b p = None then map_of b r else if r = q then map_of b p else if r = p then None else map_of b r)"
  by (simp add: rename_file_def split: option.split)

lemma set_file_hashes: "set (file_hashes H b) = (\<lambda>(p, c). (p, H c)) ` set b"
  by (simp add: file_hashes_def)

lemma sort_key_keys: "mset (dict_keys (sort_key f b)) = mset (dict_keys b)"
  by (simp only: mset_map mset_sort)

lemma file_hashes_keys: "mset (dict_keys (file_hashes H b)) = mset (dict_keys b)"
  unfolding file_hashes_def map_map o_def split_beta fst_conv by (rule sort_key_keys)

lemma file_hashes_lookup:
  assumes "distinct (dict_keys b)"
  shows "map_of (file_hashes H b) p = map_option H (map_of b p)"
proof -
  let ?s = "sort_key (\<lambda>(p, c). path_key p) b"
  have "distinct (dict_keys ?s)" using assms sort_key_keys by (metis mset_eq_imp_distinct_iff)
  then have "map_of ?s = map_of b" using assms by (simp add: map_of_inject_set)
  moreover have "map_of (map (\<lambda>(p, c). (p, H c)) d) p = map_option H (map_of d p)" for d
    by (induction d) auto
  ultimately show ?thesis by (simp add: file_hashes_def)
qed

lemma eval_fields_get:
  assumes "eval_fields fs = Inr v" "map_of fs k = Some r"
  shows "\<exists>x. r = Inr x \<and> item v k = Inr x"
proof -
  from assms(1) obtain d where d: "map_res (\<lambda>(k, r). bind_res r (\<lambda>v. Inr (k, v))) fs = Inr d" and v: "v = JObj d"
    by (auto simp: eval_fields_def bind_res_Inr_iff)
  have "\<exists>x. r = Inr x \<and> map_of d k = Some x"
    using d assms(2) by (induction fs arbitrary: d) (auto simp: bind_res_Inr_iff split: if_splits)
  then show ?thesis by (auto simp: v)
qed

end
