(* ===== verification/HandoffExport.thy ===== *)
theory HandoffExport
  imports AccessEvents Handoff FileTree
begin

text \<open>
  The CAPE reporting module that writes the hand-off bundle
  (\<open>cape/modules/reporting/winstdt_handoff_export.py\<close>): reading the loosely typed results of
  CAPE, the manifest, the capability inventory, the hash manifest and its signature. The bundle
  under construction is a dictionary from relative paths to file contents. What the module takes
  from outside (the analysis directory, the JSON decoder, SHA-256, the clock, the process
  environment and the capture converter) is the record \<open>export_env\<close>.
\<close>

section \<open>Environment\<close>

datatype node = File string | Directory

record export_env =
  xe_node :: "string \<Rightarrow> node option"
  xe_tree :: "string \<Rightarrow> (string \<times> string) list option"
  xe_load :: "string \<Rightarrow> pyval res"
  xe_hash :: "string \<Rightarrow> string"
  xe_now :: "nat \<Rightarrow> string"
  xe_var :: "string \<Rightarrow> string option"
  xe_convert :: "string \<Rightarrow> (string \<Rightarrow> string res) option"
  xe_mtime :: "string \<Rightarrow> string"

section \<open>Reading loosely typed values\<close>

fun first_text :: "pyval list \<Rightarrow> string" where
  "first_text [] = []"
| "first_text (v # vs) =
     (if v = JNull then first_text vs
      else let t = strip (py_str v) in if t \<noteq> [] then t else first_text vs)"

fun first_number :: "pyval list \<Rightarrow> pyfloat" where
  "first_number [] = 0"
| "first_number (v # vs) =
     (if v = JNull then first_number vs
      else case py_float v of Inr x \<Rightarrow> x | Inl _ \<Rightarrow> first_number vs)"

definition as_dict :: "pyval \<Rightarrow> (string \<times> pyval) list" where
  "as_dict v = (if is_obj v then obj_of v else [])"

definition list_of_text :: "pyval \<Rightarrow> string list \<Rightarrow> string list" where
  "list_of_text v dflt =
     (case list_of v of
        None \<Rightarrow> dflt
      | Some xs \<Rightarrow> filter (\<lambda>s. strip s \<noteq> []) (map py_str xs))"

definition list_of_rule_names :: "pyval \<Rightarrow> string list" where
  "list_of_rule_names v =
     (case list_of v of
        None \<Rightarrow> []
      | Some xs \<Rightarrow>
          filter (\<lambda>s. s \<noteq> [])
            (map (\<lambda>x. if is_obj x then first_text [get (obj_of x) ''name'', get (obj_of x) ''rule'']
                      else first_text [x]) xs))"

record provider_issue =
  pi_provider :: string
  pi_reason :: string
  pi_message :: string

definition read_issue :: "pyval \<Rightarrow> provider_issue" where
  "read_issue v =
     \<lparr>pi_provider = first_text [get (as_dict v) ''provider''],
      pi_reason = first_text [get (as_dict v) ''reason'', JStr ''unknown''],
      pi_message = first_text [get (as_dict v) ''message'', JStr ''provider unavailable'']\<rparr>"

definition list_of_provider_issues :: "pyval \<Rightarrow> provider_issue list" where
  "list_of_provider_issues v =
     (case list_of v of
        None \<Rightarrow> []
      | Some xs \<Rightarrow> filter (\<lambda>i. pi_provider i \<noteq> []) (map read_issue xs))"

definition issue_obj :: "provider_issue \<Rightarrow> pyval" where
  "issue_obj i = JObj [(''provider'', JStr (pi_provider i)), (''reason'', JStr (pi_reason i)),
     (''message'', JStr (pi_message i))]"

definition strings :: "string list \<Rightarrow> pyval" where
  "strings xs = JList (map JStr xs)"

text \<open>\<open>cape_time\<close>: CAPE's text made to end in \<open>Z\<close>, or the time of the call.\<close>

definition cape_time :: "string \<Rightarrow> pyval \<Rightarrow> string" where
  "cape_time now v =
     (case v of
        JStr s \<Rightarrow>
          let t = strip s in
          if t = [] then now
          else if ends_with t ''Z'' then t
          else if CHR ''T'' \<in> set t then t @ ''Z''
          else replace_char (CHR '' '') ''T'' t @ ''Z''
      | _ \<Rightarrow> now)"

definition get_task_id :: "pyval \<Rightarrow> int res" where
  "get_task_id results =
     (let info = as_dict (get (obj_of results) ''info'');
          id = trunc (first_number [get info ''id'', get info ''task_id'', get (obj_of results) ''task_id'', JInt 0])
      in if id \<le> 0 then Inl (ValueError ''CAPE task id is missing'') else Inr id)"

section \<open>Options\<close>

record export_options =
  xo_root :: string
  xo_cape_ref :: string
  xo_image :: string
  xo_network_mode :: string
  xo_capemon :: bool
  xo_agent :: string
  xo_yara :: string
  xo_clamav :: string
  xo_hash_log :: string
  xo_validator :: "string option"
  xo_fail_on_error :: bool
  xo_converter :: string
  xo_profile :: string

definition text_option :: "(string \<times> pyval) list \<Rightarrow> string \<Rightarrow> string \<Rightarrow> string" where
  "text_option d name dflt =
     (let t = strip (py_str (case map_of d name of Some v \<Rightarrow> v | None \<Rightarrow> JStr dflt)) in
      if t = [] then dflt else t)"

definition yes_words :: "string list" where "yes_words = [''1'', ''yes'', ''true'', ''on'']"

definition bool_option :: "(string \<times> pyval) list \<Rightarrow> string \<Rightarrow> bool \<Rightarrow> bool" where
  "bool_option d name dflt =
     (case (case map_of d name of Some v \<Rightarrow> v | None \<Rightarrow> JBool dflt) of
        JBool b \<Rightarrow> b
      | v \<Rightarrow> str_lower (strip (py_str v)) \<in> set yes_words)"

definition options_from_mapping :: "(string \<times> pyval) list \<Rightarrow> export_options" where
  "options_from_mapping d =
     (let text = text_option d; validator = text ''validator_path'' []; converter = text ''pcap_converter'' [] in
      \<lparr>xo_root = text ''handoff_root'' ''/srv/winstdt/handoff'',
       xo_cape_ref = text ''cape_git_ref'' ''unknown'', xo_image = text ''image_version'' ''unknown'',
       xo_network_mode = text ''network_mode'' ''simulated_inetsim'',
       xo_capemon = bool_option d ''capemon_enabled'' True,
       xo_agent = text ''winstdt_guest_agent_version'' (text ''guest_agent_version'' ''unknown''),
       xo_yara = text ''yara_rules_ref'' ''unknown'', xo_clamav = text ''clamav_db_version'' ''unknown'',
       xo_hash_log = text ''hash_log_ref'' ''local'',
       xo_validator = (if validator = [] then None else Some validator),
       xo_fail_on_error = bool_option d ''fail_on_validator_error'' True,
       xo_converter = (if converter = [] then ''editcap'' else converter),
       xo_profile = text ''default_profile'' ''standard''\<rparr>)"


section \<open>Profiles\<close>

definition option_names :: "string list" where
  "option_names = [''capa'', ''floss'', ''die'', ''trid'', ''screenshots'', ''suricata'',
     ''tls_interception'', ''memory_dump'', ''volatility'']"

definition profile_options :: "(string \<times> bool list) list" where
  "profile_options =
     [(''standard'', [True, False, True, True, True, True, False, False, False]),
      (''deep_static'', [True, True, True, True, False, True, False, False, False]),
      (''tls_intercept'', [True, False, True, True, True, True, True, False, False]),
      (''full_memory'', [True, False, True, True, True, True, False, True, True]),
      (''full_investigation'', [True, True, True, True, True, True, False, True, True])]"

definition resolve_profile :: "pyval \<Rightarrow> string \<Rightarrow> string \<times> (string \<times> bool) list" where
  "resolve_profile results dflt =
     (let info = as_dict (get (obj_of results) ''info''); opts = as_dict (get info ''options'');
          p0 = first_text [get opts ''winstdt_profile'', get info ''winstdt_profile'', JStr dflt];
          p = (if map_of profile_options p0 \<noteq> None then p0
               else if map_of profile_options dflt \<noteq> None then dflt else ''standard'')
      in (p, map (\<lambda>(n, b). (n, case map_of opts n of
                                None \<Rightarrow> b
                              | Some v \<Rightarrow> str_lower (py_str v) \<in> set yes_words))
               (zip option_names (case map_of profile_options p of Some bs \<Rightarrow> bs | None \<Rightarrow> []))))"

section \<open>Telemetry\<close>

definition baseline_providers :: "string list" where
  "baseline_providers = [''Microsoft-Windows-Kernel-Process'', ''Microsoft-Windows-Kernel-File'',
     ''Microsoft-Windows-Kernel-Registry'', ''Microsoft-Windows-Kernel-Network'']"

definition optional_providers :: "string list" where
  "optional_providers = [''Microsoft-Windows-Kernel-Image'', ''Microsoft-Windows-Threat-Intelligence'']"

record telemetry =
  te_started :: bool
  te_completed :: bool
  te_degraded :: bool
  te_reasons :: "provider_issue list"
  te_targeted :: "string list"
  te_enabled :: "string list"
  te_unavailable :: "provider_issue list"
  te_ti_status :: string

fun merge_issues :: "provider_issue list \<Rightarrow> provider_issue list \<Rightarrow> provider_issue list" where
  "merge_issues reasons [] = reasons"
| "merge_issues reasons (i # is) = merge_issues (if i \<in> set reasons then reasons else reasons @ [i]) is"

definition build_telemetry :: "(string \<times> pyval) list \<Rightarrow> telemetry" where
  "build_telemetry d =
     (let unavailable = list_of_provider_issues (get d ''providers_unavailable'');
          reasons = merge_issues (list_of_provider_issues (get d ''degradation_reasons'')) unavailable;
          flag = (\<lambda>k. case map_of d k of Some v \<Rightarrow> truth v | None \<Rightarrow> True)
      in \<lparr>te_started = flag ''capture_started'', te_completed = flag ''capture_completed'',
          te_degraded = (truth (get d ''telemetry_degraded'') \<or> reasons \<noteq> []), te_reasons = reasons,
          te_targeted = list_of_text (get d ''providers_targeted'') (baseline_providers @ optional_providers),
          te_enabled = list_of_text (get d ''providers_enabled'') [], te_unavailable = unavailable,
          te_ti_status = first_text [get d ''etw_ti_status'', JStr ''not_attempted'']\<rparr>)"

definition telemetry_obj :: "telemetry \<Rightarrow> pyval" where
  "telemetry_obj t = JObj
     [(''format'', JStr ''etl''), (''artifact_path'', JStr ''behavior/trace.etl''),
      (''capture_started'', JBool (te_started t)), (''capture_completed'', JBool (te_completed t)),
      (''telemetry_degraded'', JBool (te_degraded t)),
      (''degradation_reasons'', JList (map issue_obj (te_reasons t))),
      (''providers_targeted'', strings (te_targeted t)), (''providers_enabled'', strings (te_enabled t)),
      (''providers_unavailable'', JList (map issue_obj (te_unavailable t))),
      (''etw_ti_status'', JStr (te_ti_status t))]"

section \<open>Capture inputs and status\<close>

record capture_issue =
  xe_stage :: string
  xe_code :: string
  xe_message :: string

definition capture_error :: "string \<Rightarrow> string \<Rightarrow> capture_issue" where
  "capture_error code message = \<lparr>xe_stage = ''capture'', xe_code = code, xe_message = message\<rparr>"

definition error_obj :: "capture_issue \<Rightarrow> pyval" where
  "error_obj e = JObj [(''stage'', JStr (xe_stage e)), (''code'', JStr (xe_code e)), (''message'', JStr (xe_message e))]"

definition dedupe_errors :: "capture_issue list \<Rightarrow> capture_issue list" where
  "dedupe_errors es = first_by (\<lambda>e. (xe_stage e, xe_code e, xe_message e)) {} es"

definition first_existing :: "export_env \<Rightarrow> string list \<Rightarrow> string option" where
  "first_existing en paths = find (\<lambda>p. xe_node en p \<noteq> None) paths"

text \<open>The contents of a usable file: a regular file that is not empty.\<close>

definition usable :: "export_env \<Rightarrow> string option \<Rightarrow> string option" where
  "usable en path =
     (case Option.bind path (xe_node en) of
        Some (File c) \<Rightarrow> if c = [] then None else Some c
      | _ \<Rightarrow> None)"

definition has_file :: "files \<Rightarrow> string \<Rightarrow> bool" where
  "has_file b path \<longleftrightarrow> (case map_of b path of None \<Rightarrow> False | Some c \<Rightarrow> c \<noteq> [])"

fun read_first_json :: "export_env \<Rightarrow> string list \<Rightarrow> (string \<times> pyval) list res" where
  "read_first_json en [] = Inr []"
| "read_first_json en (p # ps) =
     (case xe_node en p of
        None \<Rightarrow> read_first_json en ps
      | Some Directory \<Rightarrow> Inl (RuntimeError ''is a directory'')
      | Some (File c) \<Rightarrow> bind_res (xe_load en c) (\<lambda>v. Inr (as_dict v)))"

record package_inputs =
  pk_pcap :: "string option"
  pk_etl :: "string option"
  pk_sidecar :: "(string \<times> pyval) list"
  pk_errors :: "capture_issue list"
  pk_clock :: "string option"

definition build_package_inputs :: "export_env \<Rightarrow> int \<Rightarrow> package_inputs res" where
  "build_package_inputs en task_id =
     (let pcap = first_existing en [''dump.pcapng'', ''dump.pcap'', ''network/dump.pcapng'', ''network/dump.pcap''];
          etl = first_existing en [''behavior/trace.etl'', ''winstdt/trace.etl'', ''files/behavior/trace.etl'',
                  ''aux/trace.etl'', ''trace.etl''];
          errors = (if usable en pcap = None
                    then [capture_error ''pcap_missing'' ''CAPE PCAP artifact is missing or empty''] else [])
                 @ (if usable en etl = None
                    then [capture_error ''etl_missing'' ''ETW trace.etl artifact is missing or empty''] else []);
          root = (case xe_var en ''WINSTDT_CLOCK_SYNC_ROOT'' of Some r \<Rightarrow> r | None \<Rightarrow> ''/srv/winstdt/clock-sync'')
      in bind_res (read_first_json en [''behavior/telemetry.json'', ''winstdt/telemetry.json'',
             ''files/behavior/telemetry.json'', ''aux/telemetry.json'', ''telemetry.json'']) (\<lambda>sidecar.
           Inr \<lparr>pk_pcap = pcap, pk_etl = etl, pk_sidecar = sidecar, pk_errors = errors,
                pk_clock = first_existing en [''aux/clock-sync.json'', root @ ''/'' @ int_str task_id @ ''.json'']\<rparr>))"

definition pcap_path :: string where "pcap_path = ''network/capture.pcapng''"
definition trace_etl_path :: string where "trace_etl_path = ''behavior/trace.etl''"

definition derive_status :: "pyval \<Rightarrow> package_inputs \<Rightarrow> files \<Rightarrow> string" where
  "derive_status results pk b =
     (if pk_errors pk \<noteq> [] \<or> \<not> has_file b pcap_path \<or> \<not> has_file b trace_etl_path then ''capture_error''
      else let info = as_dict (get (obj_of results) ''info'');
               status = str_lower (py_str (case map_of info ''status'' of Some v \<Rightarrow> v | None \<Rightarrow> JStr []))
           in if contains ''timeout'' status then ''timeout''
              else if status \<in> {''failed_analysis'', ''analysis_error''} then ''analysis_error''
              else ''completed'')"

definition missing_artifact_errors :: "files \<Rightarrow> capture_issue list" where
  "missing_artifact_errors b =
     (if has_file b pcap_path then []
      else [capture_error ''pcap_unusable'' ''network/capture.pcapng is missing or empty''])
     @ (if has_file b trace_etl_path then []
        else [capture_error ''etl_unusable'' ''behavior/trace.etl is missing or empty''])"

text \<open>
  \<open>copy_if_present\<close> and \<open>copy_pcap\<close>: the capture goes through the converter unless it already is
  a pcapng file or the converter is not installed.
\<close>

definition copy_if_present :: "export_env \<Rightarrow> string \<Rightarrow> string option \<Rightarrow> string \<Rightarrow> files \<Rightarrow> files res" where
  "copy_if_present en converter source dest b =
     (case usable en source of
        None \<Rightarrow> Inr b
      | Some c \<Rightarrow>
          if ends_with dest ''.pcapng'' \<and> \<not> ends_with (str_lower (the source)) ''.pcapng''
          then (case xe_convert en converter of
                  Some run \<Rightarrow> bind_res (run c) (\<lambda>c'. Inr (dict_set dest c' b))
                | None \<Rightarrow> Inr (dict_set dest c b))
          else Inr (dict_set dest c b))"


section \<open>Sample metadata and access events\<close>

definition build_sample_meta :: "pyval \<Rightarrow> pyval res" where
  "build_sample_meta results =
     (let d = obj_of results; info = as_dict (get (as_dict (get d ''target'')) ''file'');
          static = as_dict (get d ''static''); pre = as_dict (get (as_dict (get d ''winstdt'')) ''pretriage'')
      in bind_res (get_default (JObj pre) ''yara'' (JObj [])) (\<lambda>yara.
         bind_res (get_default yara ''fast_hits'' JNull) (\<lambda>fast.
         bind_res (get_default yara ''deep_hits'' JNull) (\<lambda>deep.
           Inr (JObj
             [(''schema_version'', JStr ''1.0''),
              (''sample_sha256'', JStr (first_text [get pre ''sample_sha256'', get info ''sha256'', get d ''sha256'',
                 JStr (replicate 64 (CHR ''0''))])),
              (''sample_md5'', JStr (first_text [get pre ''sample_md5'', get info ''md5'', JStr []])),
              (''sample_sha1'', JStr (first_text [get pre ''sample_sha1'', get info ''sha1'', JStr []])),
              (''file_type'', JStr (first_text [get pre ''file_type'', get static ''filetype'', get info ''type'',
                 JStr ''unknown''])),
              (''static_risk_score'', JFloat (first_number [get pre ''static_risk_score'', JFloat 0])),
              (''static_hypotheses'', strings (list_of_text (get pre ''static_hypotheses'') [])),
              (''yara'', JObj [(''fast_hits'', strings (list_of_rule_names fast)),
                               (''deep_hits'', strings (list_of_rule_names deep))]),
              (''clamav'', if is_obj (get pre ''clamav'') then get pre ''clamav''
                 else JObj [(''status'', JStr ''not_run''), (''signature'', JNull)]),
              (''vt_lookup'', JStr (first_text [get pre ''vt_lookup'', JStr ''not_run'']))])))))"

definition access_events_path :: string where "access_events_path = ''behavior/access_events.json''"
definition access_status_path :: string where "access_status_path = ''behavior/access_events.status.json''"

text \<open>\<open>write_access_events\<close>: the two artifacts and the manifest's correlation block.\<close>

definition correlation_block :: "access_status \<Rightarrow> pyval" where
  "correlation_block st = JObj
     [(''access_events_path'', JStr access_events_path),
      (''access_events_status_path'', JStr access_status_path),
      (''event_count'', JInt (int (as_count st))), (''source'', JStr ''cape_capemon''),
      (''etw_corroboration_state'', JStr (as_etw_state st)),
      (''clock_algorithm'', JStr ''linear_start_end_interpolation''),
      (''maximum_uncertainty_ns'', case as_max_uncertainty st of None \<Rightarrow> JNull | Some u \<Rightarrow> JInt u),
      (''host_network_correlation_enabled'', JBool (as_eligible st)),
      (''reason_code'', case as_reason st of None \<Rightarrow> JNull | Some r \<Rightarrow> JStr r)]"

definition write_access_events ::
    "export_env \<Rightarrow> pyval \<Rightarrow> string option \<Rightarrow> files \<Rightarrow> (files \<times> pyval) res" where
  "write_access_events en results clock_path b =
     bind_res (read_first_json en (case clock_path of None \<Rightarrow> [] | Some p \<Rightarrow> [p])) (\<lambda>clock.
     bind_res (read_first_json en [''behavior/etw-events.json'', ''winstdt/etw-events.json'']) (\<lambda>etw.
       let info = as_dict (get (obj_of results) ''info'') in
       bind_res (build_access_events None results (JObj clock) (get info ''started'') (get info ''ended'')
                   (list_of (get etw ''events''))) (\<lambda>(events, st).
         Inr (write_json access_status_path (status_obj st)
                (write_json access_events_path (JList (map access_obj events)) b),
              correlation_block st))))"

section \<open>Capabilities\<close>

definition aliases :: "(string \<times> string list) list" where
  "aliases =
     [(''capa'', [''capa'', ''flare_capa'']), (''floss'', [''floss'']), (''die'', [''die'']), (''trid'', [''trid'']),
      (''screenshots'', [''screenshots'']), (''suricata'', [''suricata'']),
      (''tls_interception'', [''tls_interception'', ''mitmdump'']), (''memory_dump'', [''memory_dump'']),
      (''volatility'', [''volatility'', ''volatility3''])]"

definition static_names :: "string list" where "static_names = [''capa'', ''floss'', ''die'', ''trid'']"

text \<open>The first alias that is present; its value may be \<open>None\<close>.\<close>

definition alias_value :: "pyval \<Rightarrow> string list \<Rightarrow> pyval" where
  "alias_value results keys =
     (case find (\<lambda>k. map_of (obj_of results) k \<noteq> None) keys of
        None \<Rightarrow> JNull
      | Some k \<Rightarrow> get (obj_of results) k)"

fun result_count :: "pyval \<Rightarrow> int" where
  "result_count JNull = 0"
| "result_count (JList xs) = int (length xs)"
| "result_count (JObj d) = int (length d)"
| "result_count v = 1"

definition capability_entry :: "bool \<Rightarrow> pyval \<Rightarrow> string \<Rightarrow> string \<Rightarrow> (string \<times> pyval) list" where
  "capability_entry requested v now source_hash =
     (let n = result_count v; rev = JStr (if v \<noteq> JNull then ''reported_by_cape'' else ''unknown'') in
      [(''requested'', JBool requested), (''policy'', JStr ''profile''),
       (''status'', JStr (if v \<noteq> JNull then (if n \<noteq> 0 then ''completed'' else ''completed_zero_matches'')
                          else if \<not> requested then ''not_requested'' else ''tool_failure'')),
       (''version'', rev), (''revision'', rev), (''started_at_utc'', JStr now), (''ended_at_utc'', JStr now),
       (''source_artifact'', JStr source_hash), (''result_count'', JInt n),
       (''warning_error_code'', if v \<noteq> JNull \<or> \<not> requested then JNull else JStr ''result_absent''),
       (''truncated'', JBool False), (''timeout'', JBool False)])"

definition requested_flag :: "(string \<times> bool) list \<Rightarrow> string \<Rightarrow> bool" where
  "requested_flag req n = (case map_of req n of Some b \<Rightarrow> b | None \<Rightarrow> False)"

type_synonym sections = "(string \<times> (string \<times> pyval) list) list"

text \<open>The tool loop: every present result is written below \<open>analysis/\<close>.\<close>

definition tool_entries :: "export_env \<Rightarrow> pyval \<Rightarrow> (string \<times> bool) list \<Rightarrow> sections" where
  "tool_entries en results req =
     (let hash = first_text [get (as_dict (get (as_dict (get (obj_of results) ''target'')) ''file'')) ''sha256'',
                   JStr (replicate 64 (CHR ''0''))]
      in map (\<lambda>(n, keys). (n, capability_entry (requested_flag req n) (alias_value results keys) (xe_now en 0) hash))
           aliases)"

definition write_tools :: "pyval \<Rightarrow> files \<Rightarrow> files" where
  "write_tools results b =
     (let hash = first_text [get (as_dict (get (as_dict (get (obj_of results) ''target'')) ''file'')) ''sha256'',
                   JStr (replicate 64 (CHR ''0''))]
      in foldl (\<lambda>b (n, keys). let v = alias_value results keys in
                  if v = JNull then b
                  else write_json (''analysis/'' @ n @ ''.json'')
                    (JObj [(''tool'', JStr n), (''source_artifact_sha256'', JStr hash), (''result'', v)]) b)
           b aliases)"

text \<open>\<open>copy_capability_tree\<close>: files in path order until the count or the byte budget is used up.\<close>

fun take_budget :: "nat \<Rightarrow> nat \<Rightarrow> (string \<times> string) list \<Rightarrow> (string \<times> string) list" where
  "take_budget n bytes [] = []"
| "take_budget n bytes ((p, c) # fs) =
     (if n = 0 \<or> bytes < length c then [] else (p, c) # take_budget (n - 1) (bytes - length c) fs)"

definition copy_tree :: "export_env \<Rightarrow> string \<Rightarrow> string \<Rightarrow> nat \<Rightarrow> nat \<Rightarrow> files \<Rightarrow> files" where
  "copy_tree en source dest max_files max_bytes b =
     (case xe_tree en source of
        None \<Rightarrow> b
      | Some fs \<Rightarrow>
          foldl (\<lambda>b (p, c). dict_set (dest @ ''/'' @ p) c b) b
            (take_budget max_files max_bytes (sort_key (\<lambda>p. split_on (CHR ''/'') (fst p)) fs)))"


text \<open>Files directly inside a directory of the bundle: path and name.\<close>

definition direct_children :: "files \<Rightarrow> string \<Rightarrow> (string \<times> string) list" where
  "direct_children b dir =
     List.map_filter (\<lambda>(p, c).
        if starts_with p (dir @ ''/'') \<and> CHR ''/'' \<notin> set (drop (Suc (length dir)) p)
        then Some (p, drop (Suc (length dir)) p) else None) b"

text \<open>Lines of a text file with universal newlines.\<close>

fun count_lines :: "string \<Rightarrow> nat" where
  "count_lines [] = 0"
| "count_lines [c] = 1"
| "count_lines (c # d # s) =
     (if c = char_of (13 :: nat) \<and> d = char_of (10 :: nat) then Suc (count_lines s)
      else if c = char_of (10 :: nat) \<or> c = char_of (13 :: nat) then Suc (count_lines (d # s))
      else count_lines (d # s))"

definition update_section :: "string \<Rightarrow> string \<Rightarrow> int \<Rightarrow> pyval \<Rightarrow> sections \<Rightarrow> sections" where
  "update_section name status n code ss =
     map (\<lambda>(k, e). if k = name
        then (k, dict_set ''warning_error_code'' code
                   (dict_set ''result_count'' (JInt n) (dict_set ''status'' (JStr status) e)))
        else (k, e)) ss"

definition index_screenshots :: "export_env \<Rightarrow> files \<times> sections \<Rightarrow> files \<times> sections" where
  "index_screenshots en st =
     (let (b, ss) = st; shots = sort_key snd (direct_children b ''screenshots'') in
      if shots = [] then st
      else (write_json ''screenshots/index.json''
              (JObj [(''capture_method'', JStr ''qemu''),
                     (''images'', JList (map (\<lambda>(p, n). JObj
                        [(''path'', JStr n), (''timestamp_utc'', JStr (xe_mtime en p)),
                         (''sha256'', JStr (xe_hash en (the (map_of b p)))), (''dimensions'', JNull),
                         (''deduplicated'', JBool False)]) shots))]) b,
            update_section ''screenshots'' ''completed'' (int (length shots)) JNull ss))"

definition count_suricata :: "files \<times> sections \<Rightarrow> files \<times> sections" where
  "count_suricata st =
     (let (b, ss) = st in
      if has_file b ''network/suricata/eve.json''
      then (b, update_section ''suricata'' ''completed''
                 (int (count_lines (the (map_of b ''network/suricata/eve.json'')))) JNull ss)
      else st)"

definition note_tls :: "files \<times> sections \<Rightarrow> files \<times> sections" where
  "note_tls st =
     (let (b, ss) = st in
      if has_file b ''network/tls/traffic.har''
      then (b, update_section ''tls_interception'' ''intercepted'' 1 JNull ss) else st)"

definition volatility_files :: "files \<Rightarrow> nat" where
  "volatility_files b = length (filter (\<lambda>(p, n). ends_with n ''.json'') (direct_children b ''memory/volatility''))"

definition note_volatility :: "files \<times> sections \<Rightarrow> files \<times> sections" where
  "note_volatility st =
     (let (b, ss) = st in
      if 0 < volatility_files b
      then (b, update_section ''volatility'' ''completed'' (int (volatility_files b)) JNull ss) else st)"

definition copy_memory :: "export_env \<Rightarrow> bool \<Rightarrow> files \<times> sections \<Rightarrow> files \<times> sections" where
  "copy_memory en requested st =
     (let (b, ss) = st; vol = 0 < volatility_files b in
      case usable en (first_existing en [''memory.raw'', ''memory.dmp'']) of
        None \<Rightarrow> st
      | Some c \<Rightarrow>
          if \<not> requested then st
          else (dict_set ''memory/memory.raw'' c b,
                update_section ''memory_dump''
                  (if vol then ''captured_and_processed'' else ''captured_processing_failed'') 1
                  (if vol then JNull else JStr ''volatility_output_absent'') ss))"

definition copy_trees :: "export_env \<Rightarrow> files \<Rightarrow> files" where
  "copy_trees en b =
     copy_tree en ''volatility'' ''memory/volatility'' 1000 (512 * 1024 * 1024)
      (copy_tree en ''tls'' ''network/tls'' 1000 (256 * 1024 * 1024)
       (copy_tree en ''suricata'' ''network/suricata'' 10000 (512 * 1024 * 1024)
        (copy_tree en ''shots'' ''screenshots'' 120 (256 * 1024 * 1024) b)))"

definition export_capabilities ::
    "export_env \<Rightarrow> pyval \<Rightarrow> (string \<times> bool) list \<Rightarrow> files \<Rightarrow> files \<times> sections" where
  "export_capabilities en results req b =
     copy_memory en (requested_flag req ''memory_dump'')
       (note_volatility (note_tls (count_suricata (index_screenshots en
          (copy_trees en (write_tools results b), tool_entries en results req)))))"

definition sections_obj :: "sections \<Rightarrow> pyval" where
  "sections_obj ss =
     (let part = (\<lambda>P. JObj (map (\<lambda>(k, e). (k, JObj e)) (filter (\<lambda>(k, e). P k) ss))) in
      JObj [(''static'', part (\<lambda>k. k \<in> set static_names)), (''dynamic'', part (\<lambda>k. k \<notin> set static_names))])"

section \<open>Manifest\<close>

definition build_manifest ::
    "export_env \<Rightarrow> pyval \<Rightarrow> export_options \<Rightarrow> int \<Rightarrow> package_inputs \<Rightarrow> pyval \<Rightarrow> files \<Rightarrow> string
       \<Rightarrow> (string \<times> bool) list \<Rightarrow> sections \<Rightarrow> pyval \<Rightarrow> (string \<times> pyval) list" where
  "build_manifest en results opts task_id pk meta b profile req caps corr =
     (let info = as_dict (get (obj_of results) ''info''); m = obj_of meta;
          status = derive_status results pk b;
          errors = pk_errors pk @ (if status = ''capture_error'' then missing_artifact_errors b else [])
      in [(''schema_version'', JStr ''1.0''), (''session_id'', JStr (int_str task_id)), (''status'', JStr status),
          (''errors'', JList (map error_obj (dedupe_errors errors))),
          (''sample_sha256'', get m ''sample_sha256''),
          (''submitted_at_utc'', JStr (cape_time (xe_now en 1) (get info ''started''))),
          (''detonation_start_utc'', JStr (cape_time (xe_now en 2) (get info ''started''))),
          (''detonation_end_utc'', JStr (cape_time (xe_now en 3) (get info ''ended''))),
          (''guest_vm_identity'', JObj
             [(''image_version'', JStr (xo_image opts)),
              (''vm_uuid'', JStr (first_text [get info ''machine_uuid'', get info ''machine_id'', JStr ''unknown''])),
              (''guest_ip'', JStr (first_text [get info ''machine_ip'', get info ''guest_ip'', JStr ''unknown'']))]),
          (''network_mode'', JStr (xo_network_mode opts)),
          (''static_risk_score'', get m ''static_risk_score''), (''static_hypotheses'', get m ''static_hypotheses''),
          (''cape_task_id'', JInt task_id), (''capemon_enabled'', JBool (xo_capemon opts)),
          (''profile'', JStr profile), (''resolved_options'', JObj (map (\<lambda>(n, v). (n, JBool v)) req)),
          (''capabilities'', sections_obj caps), (''correlation'', corr),
          (''telemetry'', telemetry_obj (build_telemetry (pk_sidecar pk))),
          (''tool_versions'', JObj
             [(''cape_git_ref'', JStr (xo_cape_ref opts)), (''winstdt_schema_version'', JStr ''1.0''),
              (''winstdt_reporting_module_version'', JStr ''0.2.0''),
              (''winstdt_guest_agent_version'', JStr (xo_agent opts)),
              (''yara_rules_ref'', JStr (xo_yara opts)), (''clamav_db_version'', JStr (xo_clamav opts))]),
          (''artifact_paths'', JObj
             ([(''pcap'', JStr pcap_path), (''trace_etl'', JStr trace_etl_path), (''report_json'', JStr ''report.json''),
               (''report_html'', JStr ''report.html''), (''access_events'', JStr access_events_path),
               (''access_events_status'', JStr access_status_path)]
              @ (if usable en (pk_clock pk) = None then [] else [(''clock_sync'', JStr ''behavior/clock-sync.json'')]))),
          (''integrity'', JObj
             [(''hash_manifest'', JStr ''hashes.sha256''), (''hash_manifest_sha256'', JStr (replicate 64 (CHR ''0''))),
              (''hash_log_ref'', JStr (xo_hash_log opts))])])"


section \<open>Reports\<close>

definition manifest_part :: "(string \<times> pyval) list \<Rightarrow> string \<Rightarrow> (string \<times> pyval) list" where
  "manifest_part m k = obj_of (get m k)"

definition issue_messages :: "pyval \<Rightarrow> pyval" where
  "issue_messages v = JList (case list_of v of None \<Rightarrow> [] | Some xs \<Rightarrow> map (\<lambda>i. get (obj_of i) ''message'') xs)"

definition analyst_report :: "string \<Rightarrow> (string \<times> pyval) list \<Rightarrow> (string \<times> pyval) list \<Rightarrow> pyval" where
  "analyst_report now m meta =
     (let tel = manifest_part m ''telemetry'' in JObj
       [(''schema_version'', JStr ''1.0''), (''generated_at_utc'', JStr now), (''session_id'', get m ''session_id''),
        (''validation'', JObj
           [(''status'', get m ''status''), (''telemetry_degraded'', get tel ''telemetry_degraded''),
            (''warnings'', issue_messages (get tel ''degradation_reasons''))]),
        (''sample'', JObj
           [(''hashes'', JObj [(''sha256'', get meta ''sample_sha256''), (''sha1'', get meta ''sample_sha1''),
                               (''md5'', get meta ''sample_md5'')]),
            (''file_type'', get meta ''file_type''), (''static_risk_score'', get meta ''static_risk_score''),
            (''static_hypotheses'', get meta ''static_hypotheses'')]),
        (''cape'', JObj
           [(''task_id'', get m ''cape_task_id''), (''status'', get m ''status''),
            (''submitted_at_utc'', get m ''submitted_at_utc''),
            (''detonation_start_utc'', get m ''detonation_start_utc''),
            (''detonation_end_utc'', get m ''detonation_end_utc''),
            (''guest_vm_identity'', get m ''guest_vm_identity''), (''capemon_enabled'', get m ''capemon_enabled'')]),
        (''telemetry'', JObj [(''etw_provider_state'', get m ''telemetry''),
            (''telemetry_degradation_warnings'', get tel ''degradation_reasons'')]),
        (''profile'', get m ''profile''), (''resolved_options'', get m ''resolved_options''),
        (''capabilities'', get m ''capabilities''), (''artifact_paths'', get m ''artifact_paths''),
        (''enrichment'', JObj [(''yara'', get meta ''yara''), (''clamav'', get meta ''clamav''),
            (''virustotal'', get meta ''vt_lookup'')]),
        (''residual_anti_evasion_risks'', strings
           [''Timing/RDTSC side channels require manual anti-evasion validation.'',
            ''CPUID timing side channels remain a residual risk.'',
            ''Deep hypervisor introspection cannot be fully hidden by repo-level configuration.'',
            ''Driver, kernel, and custom-QEMU findings require external engineering decisions.''])])"

definition html_escape :: "string \<Rightarrow> string" where
  "html_escape s = concat (map (\<lambda>c.
     if c = CHR ''&'' then ''&amp;'' else if c = CHR ''<'' then ''&lt;'' else if c = CHR ''>'' then ''&gt;''
     else if c = char_of (34 :: nat) then ''&quot;'' else if c = char_of (39 :: nat) then ''&#x27;'' else [c]) s)"

text \<open>Fixed markup, with a back quote for every double quote.\<close>

definition markup :: "string \<Rightarrow> string" where
  "markup s = replace_char (CHR ''`'') [char_of (34 :: nat)] s"

definition render_html :: "(string \<times> pyval) list \<Rightarrow> string" where
  "render_html report =
     (let nl = [char_of (10 :: nat)];
          lb = [char_of (123 :: nat)]; rb = [char_of (125 :: nat)];
          session = html_escape (py_str (get report ''session_id''));
          artifacts = join nl (map (\<lambda>(n, p). ''<li><code>'' @ html_escape n @ ''</code>: <code>''
                        @ html_escape (py_str p) @ ''</code></li>'') (obj_of (get report ''artifact_paths'')))
      in ''<!doctype html>'' @ nl @ markup ''<html lang=`en`><head><meta charset=`utf-8`>''
         @ ''<title>WinST/DT Report '' @ session @ ''</title>''
         @ ''<style>body'' @ lb @ ''font-family:Arial,sans-serif;margin:32px;line-height:1.45;color:#202124'' @ rb
         @ ''code,pre'' @ lb @ ''background:#f4f6f8;border:1px solid #d9dde3;border-radius:4px'' @ rb
         @ ''code'' @ lb @ ''padding:1px 4px'' @ rb @ ''pre'' @ lb @ ''padding:16px;overflow:auto'' @ rb
         @ ''.status'' @ lb @ ''font-weight:700'' @ rb @ ''</style>''
         @ ''</head><body><h1>WinST/DT Analyst Report</h1>''
         @ ''<p>Session <code>'' @ session @ ''</code> validation status: ''
         @ markup ''<span class=`status`>'' @ html_escape (py_str (get (obj_of (get report ''validation'')) ''status''))
         @ ''</span></p><h2>Artifacts</h2><ul>'' @ artifacts @ ''</ul>''
         @ ''<h2>Report Model</h2><pre>'' @ html_escape (json_pretty 0 (JObj report)) @ ''</pre>''
         @ ''</body></html>'' @ nl)"

definition events_jsonl_enabled :: "export_env \<Rightarrow> bool" where
  "events_jsonl_enabled en \<longleftrightarrow>
     str_lower (strip (case xe_var en ''WINSTDT_ENABLE_EVENTS_JSONL'' of Some v \<Rightarrow> v | None \<Rightarrow> [])) \<in> set yes_words"

text \<open>\<open>json.dumps(v)\<close> on one line, keys in order.\<close>

fun json_line :: "pyval \<Rightarrow> string" where
  "json_line (JList xs) = ''['' @ join '', '' (map json_line xs) @ '']''"
| "json_line (JObj d) = [char_of (123 :: nat)]
     @ join '', '' (map (\<lambda>(k, v). json_string k @ '': '' @ json_line v) d) @ [char_of (125 :: nat)]"
| "json_line v = json_dumps v"

definition bundle_summary :: "string \<Rightarrow> (string \<times> pyval) list \<Rightarrow> string" where
  "bundle_summary now m =
     json_line (JObj
       [(''schema_version'', JStr ''1.0''), (''session_id'', get m ''session_id''), (''timestamp_utc'', JStr now),
        (''source'', JStr ''cape''), (''event_type'', JStr ''bundle_summary''),
        (''raw'', JObj [(''status'', get m ''status''), (''cape_task_id'', get m ''cape_task_id''),
           (''telemetry_degraded'', get (manifest_part m ''telemetry'') ''telemetry_degraded''),
           (''etl_authoritative'', JBool True)])]) @ [char_of (10 :: nat)]"

section \<open>Hash manifest and signature\<close>

definition hashed_paths :: "files \<Rightarrow> string list" where
  "hashed_paths b = sort (filter (\<lambda>p. base_name p \<notin> {''manifest.json'', ''hashes.sha256''}) (map fst b))"

definition hash_line :: "export_env \<Rightarrow> files \<Rightarrow> string \<Rightarrow> string" where
  "hash_line en b p = xe_hash en (the (map_of b p)) @ ''  '' @ p"

definition hash_manifest :: "export_env \<Rightarrow> files \<Rightarrow> string" where
  "hash_manifest en b =
     join [char_of (10 :: nat)] (map (hash_line en b) (hashed_paths b)) @ [char_of (10 :: nat)]"

definition sign_hash_manifest :: "export_env \<Rightarrow> files \<Rightarrow> (files \<times> pyval option) res" where
  "sign_hash_manifest en b =
     (let var = (\<lambda>k. strip (case xe_var en k of Some v \<Rightarrow> v | None \<Rightarrow> [])); adapter = str_lower (var ''WINSTDT_SIGNING_ADAPTER'') in
      if adapter = [] then Inr (b, None)
      else if adapter = ''hsm'' then Inl (RuntimeError ''HSM signing is disabled by default'')
      else if adapter \<noteq> ''local_file'' then Inl (RuntimeError (''unsupported signing adapter: '' @ adapter))
      else if var ''WINSTDT_LOCAL_SIGNING_KEY'' = [] then Inl (RuntimeError ''local_file signing requires a key'')
      else case xe_node en (var ''WINSTDT_LOCAL_SIGNING_KEY'') of
             Some (File key) \<Rightarrow>
               Inr (dict_set ''integrity/signature.sha256''
                      (xe_hash en (key @ the (map_of b ''hashes.sha256'')) @ [char_of (10 :: nat)]) b,
                    Some (JObj [(''adapter'', JStr ''local_file''), (''algorithm'', JStr ''sha256(key || hashes.sha256)''),
                      (''key_id'', JStr (take 16 (xe_hash en key))),
                      (''signature_path'', JStr ''integrity/signature.sha256''), (''signed_at_utc'', JStr (xe_now en 6))]))
           | _ \<Rightarrow> Inl (RuntimeError ''signing key cannot be read''))"

section \<open>The bundle\<close>

text \<open>
  The steps of \<open>export_handoff_bundle\<close>: the artifacts, the reports over the manifest (and the
  optional event log, which adds its path to the manifest), then sealing.
\<close>

definition add_reports ::
    "export_env \<Rightarrow> (string \<times> pyval) list \<Rightarrow> (string \<times> pyval) list \<Rightarrow> files \<Rightarrow> files \<times> (string \<times> pyval) list" where
  "add_reports en meta m b =
     (let jsonl = events_jsonl_enabled en;
          b1 = (if jsonl then dict_set ''behavior/events.jsonl'' (bundle_summary (xe_now en 4) m) b else b);
          m1 = (if jsonl
                then dict_set ''artifact_paths''
                       (JObj (dict_set ''events_jsonl'' (JStr ''behavior/events.jsonl'') (manifest_part m ''artifact_paths''))) m
                else m);
          report = analyst_report (xe_now en 5) m1 meta
      in (dict_set ''report.html'' (render_html (obj_of report)) (write_json ''report.json'' report b1), m1))"

definition finish_bundle ::
    "export_env \<Rightarrow> pyval \<Rightarrow> export_options \<Rightarrow> int \<Rightarrow> package_inputs \<Rightarrow> files \<times> pyval
       \<Rightarrow> (files \<times> (string \<times> pyval) list) res" where
  "finish_bundle en results opts tid pk p =
     (let (profile, req) = resolve_profile results (xo_profile opts);
          (b5, caps) = export_capabilities en results req (fst p)
      in bind_res (build_sample_meta results) (\<lambda>meta.
         let b6 = write_json ''sample.meta.json'' meta b5
         in Inr (add_reports en (obj_of meta)
              (build_manifest en results opts tid pk meta b6 profile req caps (snd p)) b6)))"

definition fill_bundle ::
    "export_env \<Rightarrow> pyval \<Rightarrow> export_options \<Rightarrow> int \<Rightarrow> (files \<times> (string \<times> pyval) list) res" where
  "fill_bundle en results opts tid =
     bind_res (build_package_inputs en tid) (\<lambda>pk.
     bind_res (copy_if_present en (xo_converter opts) (pk_pcap pk) pcap_path []) (\<lambda>b1.
     bind_res (copy_if_present en (xo_converter opts) (pk_etl pk) trace_etl_path b1) (\<lambda>b2.
     bind_res (copy_if_present en (xo_converter opts) (pk_clock pk) ''behavior/clock-sync.json'' b2) (\<lambda>b3.
     bind_res (write_access_events en results (pk_clock pk) b3) (\<lambda>p.
       finish_bundle en results opts tid pk p)))))"

definition seal_bundle :: "export_env \<Rightarrow> files \<Rightarrow> (string \<times> pyval) list \<Rightarrow> (files \<times> (string \<times> pyval) list) res" where
  "seal_bundle en b m =
     (let b1 = dict_set ''hashes.sha256'' (hash_manifest en b) b;
          digest = xe_hash en (hash_manifest en b);
          m1 = dict_set ''integrity''
                 (JObj (dict_set ''hash_manifest_sha256'' (JStr digest) (manifest_part m ''integrity''))) m
      in bind_res (sign_hash_manifest en b1) (\<lambda>(b2, sig).
           let m2 = (case sig of None \<Rightarrow> m1 | Some s \<Rightarrow> dict_set ''signature'' s m1)
           in Inr (write_json ''manifest.json'' (JObj m2) b2, m2)))"

definition export_bundle :: "export_env \<Rightarrow> pyval \<Rightarrow> export_options \<Rightarrow> (files \<times> (string \<times> pyval) list) res" where
  "export_bundle en results opts =
     bind_res (get_task_id results) (\<lambda>tid.
     bind_res (fill_bundle en results opts tid) (\<lambda>(b, m). seal_bundle en b m))"

text \<open>\<open>validate_exported_bundle\<close>: the exit status and the error text of the validator.\<close>

definition validate_exported :: "export_options \<Rightarrow> int \<Rightarrow> string \<Rightarrow> string \<Rightarrow> unit res" where
  "validate_exported opts code err out =
     (if code \<noteq> 0 \<and> xo_fail_on_error opts
      then Inl (RuntimeError (if strip err \<noteq> [] then strip err else strip out)) else Inr ())"


text \<open>\<open>corrected_timestamp\<close>, a single-offset correction kept beside the interpolating one.\<close>

definition corrected_timestamp :: "pyval \<Rightarrow> int \<Rightarrow> string option res" where
  "corrected_timestamp v offset_ns =
     (if v = JNull then Inr None
      else
        let parsed = (case v of
               JInt k \<Rightarrow> fromtimestamp_utc (rnd (of_int k))
             | JFloat x \<Rightarrow> fromtimestamp_utc x
             | JBool b \<Rightarrow> fromtimestamp_utc (if b then 1 else 0)
             | _ \<Rightarrow> (case parse_iso (py_str v) of
                        None \<Rightarrow> Inl (ValueError ''Invalid isoformat string'')
                      | Some t \<Rightarrow> Inr (if aware t then t else t\<lparr>utcoff := Some 0\<rparr>)));
            host = bind_res parsed (\<lambda>t. fromtimestamp_utc (fsub (timestamp t) (idiv offset_ns 1000000000)))
        in case host of
             Inr t \<Rightarrow> Inr (Some (iso_z t))
           | Inl e \<Rightarrow> if rejects e then Inr None else Inl e)"

section \<open>Lemmas\<close>

text \<open>Where the manifest of a filled bundle comes from.\<close>

lemma add_reports_manifest: "k \<noteq> ''artifact_paths'' \<Longrightarrow> get (snd (add_reports en meta m b)) k = get m k"
  by (simp add: add_reports_def Let_def)

lemma finish_bundle_Inr:
  assumes "finish_bundle en results opts tid pk p = Inr (b, m)"
  shows "\<exists>meta b' profile req caps. (b, m) = add_reports en (obj_of meta)
       (build_manifest en results opts tid pk meta b' profile req caps (snd p)) b'"
proof -
  obtain profile req where r: "resolve_profile results (xo_profile opts) = (profile, req)" by fastforce
  obtain b5 caps where c: "export_capabilities en results req (fst p) = (b5, caps)" by fastforce
  obtain meta where "(b, m) = add_reports en (obj_of meta) (build_manifest en results opts tid pk meta
      (write_json ''sample.meta.json'' meta b5) profile req caps (snd p)) (write_json ''sample.meta.json'' meta b5)"
    using assms unfolding finish_bundle_def r c Let_def prod.case bind_res_Inr_iff by (auto simp: eq_commute)
  then show ?thesis by blast
qed

lemma fill_bundle_Inr:
  assumes "fill_bundle en results opts tid = Inr (b, m)"
  obtains pk meta b' profile req caps st where
    "(b, m) = add_reports en (obj_of meta)
       (build_manifest en results opts tid pk meta b' profile req caps (correlation_block st)) b'"
    "build_package_inputs en tid = Inr pk"
proof -
  from assms obtain pk b3 p where
    *: "build_package_inputs en tid = Inr pk" "write_access_events en results (pk_clock pk) b3 = Inr p"
    "finish_bundle en results opts tid pk p = Inr (b, m)"
    unfolding fill_bundle_def bind_res_Inr_iff by blast
  obtain st where "snd p = correlation_block st"
    using *(2) by (auto simp: write_access_events_def bind_res_Inr_iff Let_def split: prod.splits)
  with finish_bundle_Inr [OF *(3)] *(1) that show thesis by auto
qed

lemma sign_hash_manifest_Inr:
  assumes "sign_hash_manifest en b = Inr (b', sig)"
  shows "p \<noteq> ''integrity/signature.sha256'' \<Longrightarrow> map_of b' p = map_of b p"
  using assms by (auto simp: sign_hash_manifest_def Let_def split: if_splits option.splits node.splits)

lemma seal_bundle_Inr:
  assumes "seal_bundle en b m = Inr (b', m')"
  shows "\<And>k. k \<notin> {''integrity'', ''signature''} \<Longrightarrow> get m' k = get m k"
    and "get m' ''integrity'' = JObj (dict_set ''hash_manifest_sha256'' (JStr (xe_hash en (hash_manifest en b)))
           (manifest_part m ''integrity''))"
    and "map_of b' ''hashes.sha256'' = Some (hash_manifest en b)"
    and "\<And>p. p \<notin> {''hashes.sha256'', ''manifest.json'', ''integrity/signature.sha256''} \<Longrightarrow> map_of b' p = map_of b p"
    and "map_of b' ''manifest.json'' = Some (json_pretty 0 (JObj m') @ [char_of (10 :: nat)])"
proof -
  define b1 where "b1 = dict_set ''hashes.sha256'' (hash_manifest en b) b"
  define m1 where "m1 = dict_set ''integrity''
      (JObj (dict_set ''hash_manifest_sha256'' (JStr (xe_hash en (hash_manifest en b))) (manifest_part m ''integrity''))) m"
  obtain b2 sig where sign: "sign_hash_manifest en b1 = Inr (b2, sig)"
      and m': "m' = (case sig of None \<Rightarrow> m1 | Some s \<Rightarrow> dict_set ''signature'' s m1)"
      and b': "b' = dict_set ''manifest.json'' (json_pretty 0 (JObj m') @ [char_of (10 :: nat)]) b2"
    using assms unfolding seal_bundle_def Let_def bind_res_Inr_iff
    by (fold b1_def, fold m1_def) (auto simp: write_json_def)
  show "get m' k = get m k" if "k \<notin> {''integrity'', ''signature''}" for k
    using that by (cases sig) (simp_all add: m' m1_def)
  show "get m' ''integrity'' = JObj (dict_set ''hash_manifest_sha256'' (JStr (xe_hash en (hash_manifest en b)))
           (manifest_part m ''integrity''))"
    by (cases sig) (simp_all add: m' m1_def)
  show "map_of b' ''hashes.sha256'' = Some (hash_manifest en b)"
    using sign_hash_manifest_Inr [OF sign, of "''hashes.sha256''"] by (simp add: b' b1_def)
  show "map_of b' p = map_of b p" if "p \<notin> {''hashes.sha256'', ''manifest.json'', ''integrity/signature.sha256''}" for p
    using that sign_hash_manifest_Inr [OF sign, of p] by (simp add: b' b1_def)
  show "map_of b' ''manifest.json'' = Some (json_pretty 0 (JObj m') @ [char_of (10 :: nat)])"
    by (simp add: b')
qed


lemma manifest_fields:
  fixes en results opts tid pk meta b profile req caps corr
  defines "m \<equiv> build_manifest en results opts tid pk meta b profile req caps corr"
  shows "get m ''schema_version'' = JStr ''1.0''" "get m ''session_id'' = JStr (int_str tid)"
    "get m ''cape_task_id'' = JInt tid" "get m ''network_mode'' = JStr (xo_network_mode opts)"
    "get m ''correlation'' = corr" "get m ''telemetry'' = telemetry_obj (build_telemetry (pk_sidecar pk))"
    "is_obj (get m ''guest_vm_identity'')" "truth (get m ''guest_vm_identity'')"
    "get m ''status'' = JStr (derive_status results pk b)"
    "get m ''errors'' = JList (map error_obj (dedupe_errors (pk_errors pk
        @ (if derive_status results pk b = ''capture_error'' then missing_artifact_errors b else []))))"
  by (simp_all add: m_def build_manifest_def Let_def)

lemma provider_names_issues:
  assumes "\<forall>i \<in> set is. pi_provider i \<noteq> []"
  shows "provider_names (JList (map issue_obj is)) = map pi_provider is"
  using assms by (induction "is") (auto simp: provider_names_def issue_obj_def List.map_filter_simps)

lemma unavailable_named: "i \<in> set (te_unavailable (build_telemetry d)) \<Longrightarrow> pi_provider i \<noteq> []"
  by (auto simp: build_telemetry_def Let_def list_of_provider_issues_def split: option.splits)

lemma dedupe_Nil: "dedupe_errors es = [] \<longleftrightarrow> es = []"
proof
  assume "dedupe_errors es = []"
  then have "(\<lambda>e. (xe_stage e, xe_code e, xe_message e)) ` set es - {} = {}"
    using first_by_keys [of "\<lambda>e. (xe_stage e, xe_code e, xe_message e)" "{}" es]
    by (simp add: dedupe_errors_def)
  then show "es = []" by simp
qed (simp add: dedupe_errors_def)

lemma status_errors:
  "derive_status results pk b = ''capture_error'' \<longleftrightarrow>
     dedupe_errors (pk_errors pk @ (if derive_status results pk b = ''capture_error''
       then missing_artifact_errors b else [])) \<noteq> []"
proof (cases "pk_errors pk \<noteq> [] \<or> \<not> has_file b pcap_path \<or> \<not> has_file b trace_etl_path")
  case True
  then show ?thesis by (auto simp: dedupe_Nil derive_status_def missing_artifact_errors_def)
next
  case False
  then have "derive_status results pk b \<noteq> ''capture_error''"
    by (simp add: derive_status_def Let_def)
  then show ?thesis using False by (simp add: dedupe_Nil)
qed

text \<open>What is loaded from a manifest with the exporter's fields.\<close>

lemma dict_set_nonempty: "dict_set k v d \<noteq> []"
  by (induction k v d rule: dict_set.induct) (simp_all split: if_splits)

lemma load_exported:
  assumes "get m ''schema_version'' = JStr ''1.0''" "get m ''correlation'' = correlation_block st"
    and "get m ''telemetry'' = telemetry_obj t" "\<forall>i \<in> set (te_unavailable t). pi_provider i \<noteq> []"
    and "is_obj (get m ''guest_vm_identity'')" "truth (get m ''guest_vm_identity'')"
    and "get m ''integrity'' = JObj (dict_set ''hash_manifest_sha256'' (JStr digest) old)"
  shows "\<exists>h. load_handoff None True (JObj m) = Inr h
     \<and> ho_session_id h = get m ''session_id'' \<and> ho_cape_task_id h = get m ''cape_task_id''
     \<and> ho_network_mode h = opt_string (get m ''network_mode'') \<and> \<not> ho_clock_ok h
     \<and> ho_telemetry_degraded h = te_degraded t \<and> ho_providers h = map pi_provider (te_unavailable t)
     \<and> ho_manifest_sha256 h = Some digest"
proof -
  have "dict_set ''hash_manifest_sha256'' (JStr digest) old \<noteq> []"
    by (rule dict_set_nonempty)
  then have integ: "sub_object m ''integrity'' = Inr (dict_set ''hash_manifest_sha256'' (JStr digest) old)"
    by (simp add: sub_object_def assms(7))
  have corr: "sub_object m ''correlation'' = Inr (obj_of (correlation_block st))"
    and tel: "sub_object m ''telemetry'' = Inr (obj_of (telemetry_obj t))"
    by (simp_all add: sub_object_def assms(2,3) correlation_block_def telemetry_obj_def Let_def)
  have ident: "sub_object m ''guest_vm_identity'' = Inr (obj_of (get m ''guest_vm_identity''))"
    using assms(5,6) by (simp add: sub_object_def Let_def)
  have "get (obj_of (correlation_block st)) ''clock_quality_acceptable'' = JNull"
    by (simp add: correlation_block_def)
  moreover have "get (obj_of (telemetry_obj t)) ''telemetry_degraded'' = JBool (te_degraded t)"
    "get (obj_of (telemetry_obj t)) ''providers_unavailable'' = JList (map issue_obj (te_unavailable t))"
    by (simp_all add: telemetry_obj_def)
  ultimately show ?thesis
    using provider_names_issues [OF assms(4)]
    by (simp add: check_def load_handoff_def assms(1) supported_schema_def integ corr tel ident opt_string_def)
qed

text \<open>No step before sealing writes below \<open>integrity\<close>.\<close>

definition signature_path :: string where "signature_path = ''integrity/signature.sha256''"

definition unsigned :: "files \<Rightarrow> bool" where "unsigned b \<longleftrightarrow> map_of b signature_path = None"

lemma unsigned_Nil [simp]: "unsigned []"
  by (simp add: unsigned_def)

lemma unsigned_set [simp]: "unsigned (dict_set k v b) \<longleftrightarrow> k \<noteq> signature_path \<and> unsigned b"
  by (auto simp: unsigned_def)

lemma unsigned_json [simp]: "unsigned (write_json k v b) \<longleftrightarrow> k \<noteq> signature_path \<and> unsigned b"
  by (simp add: write_json_def)

lemma unsigned_foldl:
  assumes "\<And>b x. unsigned b \<Longrightarrow> unsigned (f b x)" "unsigned b"
  shows "unsigned (foldl f b xs)"
  using assms(2) by (induction xs arbitrary: b) (simp_all add: assms(1))

lemma unsigned_copy_tree:
  assumes "unsigned b" "\<not> starts_with signature_path (dest @ ''/'')"
  shows "unsigned (copy_tree en source dest n k b)"
proof (cases "xe_tree en source")
  case (Some fs)
  have "dest @ ''/'' @ p \<noteq> signature_path" for p
    using assms(2) by (metis append_assoc starts_with_append)
  then show ?thesis
    unfolding copy_tree_def Some option.case case_prod_beta
    by (intro unsigned_foldl assms(1)) simp
qed (simp add: copy_tree_def assms)

lemma unsigned_write_tools: "unsigned b \<Longrightarrow> unsigned (write_tools results b)"
  unfolding write_tools_def Let_def case_prod_beta
  by (rule unsigned_foldl) (simp_all add: signature_path_def)

lemma unsigned_copy_trees: "unsigned b \<Longrightarrow> unsigned (copy_trees en b)"
  unfolding copy_trees_def
  by (intro unsigned_copy_tree) (simp_all add: signature_path_def starts_with_def)

lemma unsigned_index: "unsigned (fst st) \<Longrightarrow> unsigned (fst (index_screenshots en st))"
  by (simp add: index_screenshots_def Let_def case_prod_beta signature_path_def)

lemma fst_notes [simp]:
  "fst (count_suricata st) = fst st" "fst (note_tls st) = fst st" "fst (note_volatility st) = fst st"
  by (simp_all add: count_suricata_def note_tls_def note_volatility_def Let_def case_prod_beta)

lemma unsigned_copy_memory: "unsigned (fst st) \<Longrightarrow> unsigned (fst (copy_memory en r st))"
  by (simp add: copy_memory_def Let_def case_prod_beta signature_path_def split: option.split)

lemma unsigned_capabilities: "unsigned b \<Longrightarrow> unsigned (fst (export_capabilities en results req b))"
  by (simp add: export_capabilities_def unsigned_copy_memory unsigned_index unsigned_copy_trees
      unsigned_write_tools)

lemma unsigned_copy_if_present:
  "copy_if_present en conv source dest b = Inr b' \<Longrightarrow> unsigned b \<Longrightarrow> dest \<noteq> signature_path \<Longrightarrow> unsigned b'"
  by (auto simp: copy_if_present_def bind_res_Inr_iff split: option.splits if_splits)

lemma unsigned_access_events:
  "write_access_events en results clock b = Inr p \<Longrightarrow> unsigned b \<Longrightarrow> unsigned (fst p)"
  by (auto simp: write_access_events_def bind_res_Inr_iff Let_def access_status_path_def
      access_events_path_def signature_path_def split: prod.splits)

lemma unsigned_add_reports: "unsigned b \<Longrightarrow> unsigned (fst (add_reports en meta m b))"
  by (simp add: add_reports_def Let_def signature_path_def)

lemma unsigned_finish:
  assumes "finish_bundle en results opts tid pk p = Inr q" "unsigned (fst p)"
  shows "unsigned (fst q)"
proof -
  obtain profile req where r: "resolve_profile results (xo_profile opts) = (profile, req)" by fastforce
  obtain b5 caps where c: "export_capabilities en results req (fst p) = (b5, caps)" by fastforce
  have "unsigned b5" using unsigned_capabilities [OF assms(2), of en results req] by (simp add: c)
  then have "unsigned (write_json ''sample.meta.json'' v b5)" for v by (simp add: signature_path_def)
  then show ?thesis
    using assms(1) unfolding finish_bundle_def r c Let_def prod.case bind_res_Inr_iff
    by (auto intro: unsigned_add_reports)
qed

lemma unsigned_fill: "fill_bundle en results opts tid = Inr q \<Longrightarrow> unsigned (fst q)"
  unfolding fill_bundle_def bind_res_Inr_iff
  by (elim exE conjE)
    (rule unsigned_finish, assumption, rule unsigned_access_events, assumption,
      (rule unsigned_copy_if_present, assumption)+,
      simp_all add: pcap_path_def trace_etl_path_def signature_path_def)

lemma export_bundle_Inr:
  assumes "export_bundle en results opts = Inr (b, m)"
  obtains tid b0 m0 where "get_task_id results = Inr tid" "fill_bundle en results opts tid = Inr (b0, m0)"
    "seal_bundle en b0 m0 = Inr (b, m)"
  using assms by (auto simp: export_bundle_def bind_res_Inr_iff)

section \<open>Properties\<close>

lemma exported_origin:
  assumes "export_bundle en results opts = Inr (b, m)"
  obtains tid b0 m0 pk meta b' profile req caps st where "get_task_id results = Inr tid"
    "seal_bundle en b0 m0 = Inr (b, m)"
    "(b0, m0) = add_reports en (obj_of meta)
        (build_manifest en results opts tid pk meta b' profile req caps (correlation_block st)) b'"
    "\<And>k. k \<notin> {''integrity'', ''signature'', ''artifact_paths''} \<Longrightarrow>
        get m k = get (build_manifest en results opts tid pk meta b' profile req caps (correlation_block st)) k"
proof -
  obtain tid b0 m0 where t: "get_task_id results = Inr tid" and f: "fill_bundle en results opts tid = Inr (b0, m0)"
      and s: "seal_bundle en b0 m0 = Inr (b, m)"
    by (rule export_bundle_Inr [OF assms])
  obtain pk meta b' profile req caps st where m0: "(b0, m0) = add_reports en (obj_of meta)
       (build_manifest en results opts tid pk meta b' profile req caps (correlation_block st)) b'"
    by (rule fill_bundle_Inr [OF f])
  have "get m k = get (build_manifest en results opts tid pk meta b' profile req caps (correlation_block st)) k"
    if "k \<notin> {''integrity'', ''signature'', ''artifact_paths''}" for k
    using that seal_bundle_Inr(1) [OF s, of k] add_reports_manifest [of k en "obj_of meta" _ b'] m0
    by (metis insertCI insert_iff snd_conv)
  with t s m0 show thesis by (rule that)
qed

lemma base_name_signature: "base_name ''hashes.sha256'' = ''hashes.sha256''" "base_name ''manifest.json'' = ''manifest.json''"
  by code_simp+

text \<open>
  What \<open>schemas/handoff_manifest.schema.json\<close> asks of the \<open>correlation\<close> object: all five fields
  and no other.
\<close>

definition schema_correlation :: "pyval \<Rightarrow> bool" where
  "schema_correlation v \<longleftrightarrow> is_obj v \<and> set (map fst (obj_of v)) =
     {''access_events_path'', ''event_count'', ''clock_quality_acceptable'', ''host_network_correlation_enabled'', ''reason''}"

lemma load_without_strict:
  "load_handoff None True raw = Inr h \<Longrightarrow> load_handoff schema_ok False raw = Inr h"
  by (cases "is_obj raw"; cases "get (obj_of raw) ''schema_version'' = JStr supported_schema")
    (simp_all add: load_handoff_def check_def Let_def)

lemma load_refused:
  "load_handoff None True raw = Inr h \<Longrightarrow> \<not> ok raw \<Longrightarrow> load_handoff (Some ok) True raw = Inl (ValueError ''schema validation'')"
  by (cases "is_obj raw"; cases "get (obj_of raw) ''schema_version'' = JStr supported_schema")
    (simp_all add: load_handoff_def check_def Let_def)

text \<open>
  C23. Whether the manifest of an exported bundle loads depends on the schema. Where the library or
  the schema file is missing, strict mode loads it, and without strict mode it always loads: with
  the task's session, task id and network mode and the digest of the hash manifest that lies in the
  bundle as its integrity reference, and with an unacceptable clock whatever CAPE measured, since
  the exporter never writes the key \<open>clock_quality_acceptable\<close> that the loader reads. Where the
  repository's schema is enforced, strict mode refuses every exported manifest: its \<open>correlation\<close>
  object lacks that key and \<open>reason\<close>, both required, and has others, which are forbidden.
\<close>

theorem exported_manifest_loads:
  assumes "export_bundle en results opts = Inr (b, m)"
  shows "\<exists>h tid hashes. get_task_id results = Inr tid \<and> load_handoff None True (JObj m) = Inr h
     \<and> (\<forall>schema_ok. load_handoff schema_ok False (JObj m) = Inr h)
     \<and> ho_session_id h = JStr (int_str tid) \<and> ho_cape_task_id h = JInt tid
     \<and> ho_network_mode h = Some (xo_network_mode opts) \<and> \<not> ho_clock_ok h
     \<and> map_of b ''hashes.sha256'' = Some hashes \<and> ho_manifest_sha256 h = Some (xe_hash en hashes)
     \<and> (\<forall>ok. (\<forall>d. ok (JObj d) \<longrightarrow> schema_correlation (get d ''correlation''))
          \<longrightarrow> load_handoff (Some ok) True (JObj m) = Inl (ValueError ''schema validation''))"
proof -
  obtain tid b0 m0 pk meta b' profile req caps st where t: "get_task_id results = Inr tid"
      and s: "seal_bundle en b0 m0 = Inr (b, m)"
      and m0: "(b0, m0) = add_reports en (obj_of meta)
        (build_manifest en results opts tid pk meta b' profile req caps (correlation_block st)) b'"
      and keep: "\<And>k. k \<notin> {''integrity'', ''signature'', ''artifact_paths''} \<Longrightarrow>
        get m k = get (build_manifest en results opts tid pk meta b' profile req caps (correlation_block st)) k"
    by (rule exported_origin [OF assms]) blast
  note fields = manifest_fields [of en results opts tid pk meta b' profile req caps "correlation_block st"]
  have "\<forall>i \<in> set (te_unavailable (build_telemetry (pk_sidecar pk))). pi_provider i \<noteq> []"
    by (blast dest: unavailable_named)
  then obtain h where h: "load_handoff None True (JObj m) = Inr h" "ho_session_id h = get m ''session_id''"
      "ho_cape_task_id h = get m ''cape_task_id''" "ho_network_mode h = opt_string (get m ''network_mode'')"
      "\<not> ho_clock_ok h" "ho_manifest_sha256 h = Some (xe_hash en (hash_manifest en b0))"
    using load_exported [of m st "build_telemetry (pk_sidecar pk)" "xe_hash en (hash_manifest en b0)" "manifest_part m0 ''integrity''"] seal_bundle_Inr(2) [OF s]
    by (auto simp: keep fields)
  have "''reason'' \<notin> set (map fst (obj_of (correlation_block st)))"
    by (simp add: correlation_block_def)
  moreover have "''reason'' \<in> set (map fst (obj_of v))" if "schema_correlation v" for v
    using that unfolding schema_correlation_def by simp
  ultimately have "\<not> schema_correlation (correlation_block st)" by blast
  then have "\<not> schema_correlation (get m ''correlation'')" by (simp add: keep fields)
  then have refused: "\<forall>ok. (\<forall>d. ok (JObj d) \<longrightarrow> schema_correlation (get d ''correlation''))
      \<longrightarrow> load_handoff (Some ok) True (JObj m) = Inl (ValueError ''schema validation'')"
    using load_refused [OF h(1)] by blast
  have ids: "ho_session_id h = JStr (int_str tid)" "ho_cape_task_id h = JInt tid" "ho_network_mode h = Some (xo_network_mode opts)"
    by (simp_all add: h keep fields opt_string_def)
  show ?thesis
    using t h(1,5,6) ids seal_bundle_Inr(3) [OF s] load_without_strict [OF h(1)] refused by blast
qed

text \<open>
  C24. The hash manifest of an exported bundle has one line for every file of the finished bundle
  except the manifest, hash manifests (under any directory) and the signature, with the digest of
  the file's final contents, and no other line.
\<close>

theorem hash_manifest_covers_bundle:
  assumes "export_bundle en results opts = Inr (b, m)"
  shows "\<exists>ls. map_of b ''hashes.sha256'' = Some (join [char_of (10 :: nat)] ls @ [char_of (10 :: nat)])
     \<and> set ls = {xe_hash en c @ ''  '' @ p | p c. map_of b p = Some c
                  \<and> base_name p \<notin> {''manifest.json'', ''hashes.sha256''} \<and> p \<noteq> ''integrity/signature.sha256''}"
proof -
  obtain tid b0 m0 where f: "fill_bundle en results opts tid = Inr (b0, m0)"
      and s: "seal_bundle en b0 m0 = Inr (b, m)"
    by (rule export_bundle_Inr [OF assms])
  have u: "map_of b0 ''integrity/signature.sha256'' = None"
    using unsigned_fill [OF f] by (simp add: unsigned_def signature_path_def)
  have same: "map_of b p = map_of b0 p"
    if "base_name p \<notin> {''manifest.json'', ''hashes.sha256''}" "p \<noteq> ''integrity/signature.sha256''" for p
    using that base_name_signature by (intro seal_bundle_Inr(4) [OF s]) auto
  have hashed: "p \<in> set (hashed_paths b0) \<longleftrightarrow> map_of b0 p \<noteq> None \<and> base_name p \<notin> {''manifest.json'', ''hashes.sha256''}" for p
    by (force simp: hashed_paths_def map_of_eq_None_iff)
  have "set (map (hash_line en b0) (hashed_paths b0)) =
      {xe_hash en c @ ''  '' @ p | p c. map_of b p = Some c
        \<and> base_name p \<notin> {''manifest.json'', ''hashes.sha256''} \<and> p \<noteq> ''integrity/signature.sha256''}"
    (is "?L = ?R")
  proof (intro subset_antisym subsetI)
    fix l assume "l \<in> ?L"
    then obtain p where p: "l = hash_line en b0 p" "map_of b0 p \<noteq> None"
        "base_name p \<notin> {''manifest.json'', ''hashes.sha256''}"
      by (auto simp: hashed)
    then obtain c where c: "map_of b0 p = Some c" by blast
    have p': "p \<noteq> ''integrity/signature.sha256''" using u c by auto
    with p(3) c same [of p] have "map_of b p = Some c" by simp
    moreover have "l = xe_hash en c @ ''  '' @ p" using p(1) c by (simp add: hash_line_def)
    ultimately show "l \<in> ?R" using p(3) p' by blast
  next
    fix l assume "l \<in> ?R"
    then obtain p c where p: "l = xe_hash en c @ ''  '' @ p" "map_of b p = Some c"
        "base_name p \<notin> {''manifest.json'', ''hashes.sha256''}" "p \<noteq> ''integrity/signature.sha256''"
      by blast
    then have "map_of b0 p = Some c" using same [of p] by simp
    with p have "l = hash_line en b0 p" "p \<in> set (hashed_paths b0)"
      by (simp_all add: hash_line_def hashed)
    then show "l \<in> ?L" by simp
  qed
  then show ?thesis
    using seal_bundle_Inr(3) [OF s] unfolding hash_manifest_def by blast
qed

text \<open>
  A bundle is marked as a capture error exactly when its manifest lists an error; a bundle with
  any other status holds a capture and an event trace that are not empty.
\<close>

theorem exported_status_exact:
  assumes "export_bundle en results opts = Inr (b, m)"
  shows "(get m ''status'' = JStr ''capture_error'' \<longleftrightarrow> get m ''errors'' \<noteq> JList [])
     \<and> get m ''status'' \<in> JStr ` {''capture_error'', ''timeout'', ''analysis_error'', ''completed''}
     \<and> (get m ''status'' = JStr ''capture_error''
          \<or> (\<exists>c d. map_of b ''network/capture.pcapng'' = Some c \<and> c \<noteq> []
               \<and> map_of b ''behavior/trace.etl'' = Some d \<and> d \<noteq> []))"
proof -
  obtain tid b0 m0 pk meta b' profile req caps st where t: "get_task_id results = Inr tid"
      and s: "seal_bundle en b0 m0 = Inr (b, m)"
      and m0: "(b0, m0) = add_reports en (obj_of meta)
        (build_manifest en results opts tid pk meta b' profile req caps (correlation_block st)) b'"
      and keep: "\<And>k. k \<notin> {''integrity'', ''signature'', ''artifact_paths''} \<Longrightarrow>
        get m k = get (build_manifest en results opts tid pk meta b' profile req caps (correlation_block st)) k"
    by (rule exported_origin [OF assms]) blast
  have files: "map_of b p = map_of b' p" if "p \<in> {pcap_path, trace_etl_path}" for p
  proof -
    have "map_of b p = map_of b0 p"
      using that by (intro seal_bundle_Inr(4) [OF s]) (auto simp: pcap_path_def trace_etl_path_def)
    moreover have "b0 = fst (add_reports en (obj_of meta)
        (build_manifest en results opts tid pk meta b' profile req caps (correlation_block st)) b')"
      by (simp flip: m0)
    ultimately show ?thesis
      using that by (auto simp: add_reports_def Let_def write_json_def pcap_path_def trace_etl_path_def)
  qed
  note fields = manifest_fields(9,10) [of en results opts tid pk meta b' profile req caps "correlation_block st"]
  have "derive_status results pk b' = ''capture_error'' \<or> (has_file b pcap_path \<and> has_file b trace_etl_path)"
    by (auto simp: derive_status_def has_file_def files)
  moreover have "derive_status results pk b' \<in> {''capture_error'', ''timeout'', ''analysis_error'', ''completed''}"
    by (simp add: derive_status_def Let_def)
  ultimately show ?thesis
    using status_errors [of results pk b']
    by (auto simp: keep fields has_file_def pcap_path_def trace_etl_path_def split: option.splits)
qed

text \<open>
  The copy of a capability directory takes a longest prefix of its files, in path order, within
  both the file budget and the byte budget.
\<close>

theorem take_budget_prefix:
  "\<exists>k. take_budget n bytes fs = take k fs \<and> k \<le> min n (length fs)
     \<and> sum_list (map (\<lambda>f. length (snd f)) (take k fs)) \<le> bytes
     \<and> (k = length fs \<or> k = n \<or> bytes < sum_list (map (\<lambda>f. length (snd f)) (take (Suc k) fs)))"
proof (induction n bytes fs rule: take_budget.induct)
  case (2 n bytes p c fs)
  show ?case
  proof (cases "n = 0 \<or> bytes < length c")
    case False
    with 2 obtain k where "take_budget (n - 1) (bytes - length c) fs = take k fs" "k \<le> min (n - 1) (length fs)"
        "sum_list (map (\<lambda>f. length (snd f)) (take k fs)) \<le> bytes - length c"
        "k = length fs \<or> k = n - 1 \<or> bytes - length c < sum_list (map (\<lambda>f. length (snd f)) (take (Suc k) fs))"
      by blast
    with False show ?thesis by (intro exI [of _ "Suc k"]) auto
  qed (auto intro: exI [of _ 0])
qed simp


text \<open>A task whose analysis left no artifact: the bundle is still written, as a capture error.\<close>

definition bare_env :: export_env where
  "bare_env = \<lparr>xe_node = (\<lambda>p. None), xe_tree = (\<lambda>p. None), xe_load = (\<lambda>c. Inr JNull), xe_hash = id,
     xe_now = (\<lambda>i. ''2026-02-03T00:00:00Z''), xe_var = (\<lambda>v. None), xe_convert = (\<lambda>c. None),
     xe_mtime = (\<lambda>p. ''2026-02-03T00:00:00Z'')\<rparr>"

definition bare_results :: pyval where
  "bare_results = JObj [(''info'', JObj [(''id'', JInt 7), (''started'', JInt 0), (''ended'', JInt 0)])]"

lemma bare_task: "get_task_id bare_results = Inr 7"
  by code_simp

lemma bare_node [simp]: "xe_node bare_env p = None"
  by (simp add: bare_env_def)

lemma bare_nodes [simp]: "first_existing bare_env ps = None" "read_first_json bare_env ps = Inr []"
  "usable bare_env None = None"
  by (induction ps) (simp_all add: first_existing_def bare_env_def usable_def)

lemma bare_copy [simp]: "copy_if_present bare_env conv None dest b = Inr b"
  by (simp add: copy_if_present_def)

lemma bare_access: "\<exists>r. build_access_events None bare_results (JObj []) (JInt 0) (JInt 0) None = Inr r"
proof -
  have "\<not> isl (build_access_events None bare_results (JObj []) (JInt 0) (JInt 0) None)" by code_simp
  then show ?thesis by (cases "build_access_events None bare_results (JObj []) (JInt 0) (JInt 0) None") simp_all
qed

lemma bare_sample: "\<exists>meta. build_sample_meta bare_results = Inr meta"
proof -
  have "\<not> isl (build_sample_meta bare_results)" by code_simp
  then show ?thesis by (cases "build_sample_meta bare_results") simp_all
qed

lemma bare_info: "get (as_dict (get (obj_of bare_results) ''info'')) ''started'' = JInt 0"
  "get (as_dict (get (obj_of bare_results) ''info'')) ''ended'' = JInt 0"
  by code_simp+

lemma bare_events: "\<exists>p. write_access_events bare_env bare_results None b = Inr p"
proof -
  obtain r where "build_access_events None bare_results (JObj []) (JInt 0) (JInt 0) None = Inr r"
    using bare_access by blast
  moreover have "list_of (get [] ''events'') = None" by (simp add: get_def)
  ultimately show ?thesis
    unfolding write_access_events_def option.case bare_nodes bind_res_simps Let_def bare_info
    by (simp add: case_prod_beta)
qed

lemma bare_finish: "\<exists>q. finish_bundle bare_env bare_results opts tid pk p = Inr q"
  using bare_sample by (auto simp: finish_bundle_def Let_def bind_res_Inr_iff case_prod_beta)


lemma bare_unsigned: "sign_hash_manifest bare_env b = Inr (b, None)"
proof -
  have "strip [] = []" "str_lower [] = []" by code_simp+
  then show ?thesis by (simp add: sign_hash_manifest_def bare_env_def)
qed

lemma bare_exports:
  "\<exists>b m. export_bundle bare_env bare_results opts = Inr (b, m)"
proof -
  obtain pk where pk: "build_package_inputs bare_env 7 = Inr pk" "pk_pcap pk = None" "pk_etl pk = None" "pk_clock pk = None"
    by (simp add: build_package_inputs_def Let_def)
  obtain p where p: "write_access_events bare_env bare_results None [] = Inr p" using bare_events by blast
  obtain q where q: "finish_bundle bare_env bare_results opts 7 pk p = Inr q" using bare_finish by blast
  have "fill_bundle bare_env bare_results opts 7 = Inr q"
    by (simp add: fill_bundle_def pk p q)
  then show ?thesis
    by (simp add: export_bundle_def bare_task seal_bundle_def bare_unsigned Let_def case_prod_beta)
qed

theorem exported_manifest_witness:
  "\<exists>b m h. export_bundle bare_env bare_results (options_from_mapping []) = Inr (b, m)
     \<and> load_handoff None True (JObj m) = Inr h \<and> ho_cape_task_id h = JInt 7 \<and> \<not> ho_clock_ok h
     \<and> load_handoff (Some (\<lambda>v. schema_correlation (get (obj_of v) ''correlation''))) True (JObj m) = Inl (ValueError ''schema validation'')"
proof -
  obtain b m where x: "export_bundle bare_env bare_results (options_from_mapping []) = Inr (b, m)"
    using bare_exports by blast
  from exported_manifest_loads [OF x] obtain h tid where "get_task_id bare_results = Inr tid"
      "load_handoff None True (JObj m) = Inr h" "ho_cape_task_id h = JInt tid" "\<not> ho_clock_ok h"
    and r: "\<And>ok. \<forall>d. ok (JObj d) \<longrightarrow> schema_correlation (get d ''correlation'')
          \<Longrightarrow> load_handoff (Some ok) True (JObj m) = Inl (ValueError ''schema validation'')"
    by blast
  moreover have "load_handoff (Some (\<lambda>v. schema_correlation (get (obj_of v) ''correlation''))) True (JObj m)
      = Inl (ValueError ''schema validation'')"
    by (rule r) simp
  ultimately show ?thesis using x bare_task by auto
qed

theorem hash_manifest_witness:
  "\<exists>b m ls. export_bundle bare_env bare_results (options_from_mapping []) = Inr (b, m)
     \<and> map_of b ''hashes.sha256'' = Some (join [char_of (10 :: nat)] ls @ [char_of (10 :: nat)])"
  using bare_exports [of "options_from_mapping []"] hash_manifest_covers_bundle by blast

theorem exported_status_witness:
  "\<exists>b m. export_bundle bare_env bare_results (options_from_mapping []) = Inr (b, m)
     \<and> get m ''status'' \<in> JStr ` {''capture_error'', ''timeout'', ''analysis_error'', ''completed''}"
  using bare_exports [of "options_from_mapping []"] exported_status_exact by blast

end
