(* ===== verification/Gateway.thy ===== *)
theory Gateway
  imports PyNum IpAddr Json
begin

text \<open>
  The egress gateway's policy generator (\<open>scripts/configure-egress-gateway.py\<close>): validation of a
  run configuration, the signed canonical policy, and the rendered fail-closed packet filter. The
  configuration is the decoded JSON dictionary, updated in place as the code does. The two
  readings of the clock, the hash and the signature tool are parameters.
\<close>

section \<open>Values\<close>

text \<open>\<open>[A-Za-z0-9_.-]\<close>\<close>

definition word_char :: "char \<Rightarrow> bool" where
  "word_char c \<longleftrightarrow> is_upper c \<or> is_lower c \<or> is_digit c \<or> c \<in> set ''_.-''"

definition run_id_ok :: "string \<Rightarrow> bool" where
  "run_id_ok s \<longleftrightarrow> s \<noteq> [] \<and> length s \<le> 64 \<and> list_all word_char s
     \<and> (is_upper (hd s) \<or> is_lower (hd s) \<or> is_digit (hd s))"

definition interface_ok :: "string \<Rightarrow> bool" where
  "interface_ok s \<longleftrightarrow> s \<noteq> [] \<and> length s \<le> 15 \<and> list_all word_char s"

text \<open>\<open>(?=.{1,253}$)[A-Za-z0-9.-]+\<close>\<close>

definition dns_name_ok :: "string \<Rightarrow> bool" where
  "dns_name_ok s \<longleftrightarrow> s \<noteq> [] \<and> length s \<le> 253 \<and> list_all (\<lambda>c. word_char c \<and> c \<noteq> CHR ''_'') s"

text \<open>\<open>ipaddress.ip_address(v)\<close> on any value, and \<open>str\<close> of an IPv4 address.\<close>

definition ip_number :: "int \<Rightarrow> ip_addr res" where
  "ip_number k =
     (if 0 \<le> k \<and> k < 2 ^ 32 then Inr (IPv4 k)
      else if 0 \<le> k \<and> k < 2 ^ 128 then Inr (IPv6 k) else Inl (ValueError ''not an address''))"

definition ip_of_value :: "pyval \<Rightarrow> ip_addr res" where
  "ip_of_value v =
     (case v of
        JInt k \<Rightarrow> ip_number k
      | JBool b \<Rightarrow> ip_number (if b then 1 else 0)
      | _ \<Rightarrow> (case ip_address (py_str v) of
               Some ip \<Rightarrow> Inr ip
             | None \<Rightarrow> Inl (ValueError ''does not appear to be an IPv4 or IPv6 address'')))"

definition ipv4_text :: "int \<Rightarrow> string" where
  "ipv4_text v = join ''.'' (map dec_str [v div 2 ^ 24, v div 2 ^ 16 mod 256, v div 2 ^ 8 mod 256, v mod 256])"

section \<open>Validation\<close>

definition blocked_networks :: "ip_net list" where
  "blocked_networks =
     [Net4 (v4 10 66 0 0) 24, Net4 (v4 127 0 0 0) 8, Net4 (v4 169 254 0 0) 16, Net4 (v4 224 0 0 0) 4]"

definition controlled_responder :: int where "controlled_responder = v4 192 168 125 10"
definition controlled_ports :: "int list" where "controlled_ports = [8080, 8443]"

definition run_fields :: "string list" where
  "run_fields = [''run_id'', ''internal_interface'', ''external_interface'', ''guest_ip'',
     ''destinations'', ''expires_at_utc'', ''max_connections'', ''max_bytes'', ''approval'']"

definition approval_fields :: "string list" where
  "approval_fields = [''approval_id'', ''signer_identity'', ''policy_sha256'', ''signature_path'']"

type_synonym config = "(string \<times> pyval) list"

text \<open>A literal IPv4 address; an IPv6 address exits.\<close>

definition ipv4_of :: "pyval \<Rightarrow> int res" where
  "ipv4_of v =
     bind_res (ip_of_value v) (\<lambda>ip.
       case ip of
         IPv4 k \<Rightarrow> Inr k
       | IPv6 k \<Rightarrow> Inl (SystemExit ''the initial gateway milestone supports IPv4 only''))"

definition check_head :: "pyval \<Rightarrow> config res" where
  "check_head raw =
     (if \<not> is_obj raw then Inl (AttributeError ''keys'')
      else let c = obj_of raw; missing = filter (\<lambda>k. map_of c k = None) (sort run_fields);
               a = get c ''approval''
        in if missing \<noteq> [] then Inl (SystemExit (''missing required fields: '' @ join '', '' missing))
           else if \<not> run_id_ok (py_str (get c ''run_id'')) then Inl (SystemExit ''run_id contains unsafe characters'')
           else (case find (\<lambda>f. \<not> truth (get (obj_of a) f)) approval_fields of
                   Some f \<Rightarrow> Inl (SystemExit (''approval.'' @ f @ '' is required''))
                 | None \<Rightarrow> Inr c))"

definition expiry_of :: "datetime \<Rightarrow> datetime \<Rightarrow> pyval \<Rightarrow> datetime res" where
  "expiry_of now1 now2 v =
     (case v of
        JStr s \<Rightarrow>
          (case parse_iso s of
             None \<Rightarrow> Inl (ValueError ''Invalid isoformat string'')
           | Some t \<Rightarrow>
               if \<not> aware t \<or> instant t \<le> instant now1
               then Inl (SystemExit ''configuration is expired or lacks a timezone'')
               else if 86400 < total_seconds (instant t - instant now2)
               then Inl (SystemExit ''expiry may not be more than 24 hours in the future'')
               else Inr t)
      | _ \<Rightarrow> Inl (AttributeError ''replace''))"

definition check_interfaces :: "config \<Rightarrow> unit res" where
  "check_interfaces c =
     bind_res (check (interface_ok (py_str (get c ''internal_interface''))) (SystemExit ''invalid internal_interface'')) (\<lambda>_.
     bind_res (check (interface_ok (py_str (get c ''external_interface''))) (SystemExit ''invalid external_interface'')) (\<lambda>_.
     check (\<not> py_eq (get c ''internal_interface'') (get c ''external_interface''))
       (SystemExit ''gateway interfaces must be different'')))"

definition check_limits :: "config \<Rightarrow> config res" where
  "check_limits c =
     bind_res (py_int (get c ''max_connections'')) (\<lambda>n.
     bind_res (py_int (get c ''max_bytes'')) (\<lambda>b.
     bind_res (check (1 \<le> n \<and> n \<le> 1000) (SystemExit ''max_connections must be between 1 and 1000 per minute'')) (\<lambda>_.
     bind_res (check (1024 \<le> b \<and> b \<le> 1073741824) (SystemExit ''max_bytes must be between 1 KiB and 1 GiB'')) (\<lambda>_.
     Inr (dict_set ''max_bytes'' (JInt b) (dict_set ''max_connections'' (JInt n) c))))))"

definition check_destination :: "pyval \<Rightarrow> pyval res" where
  "check_destination d =
     bind_res (item d ''ip'') (\<lambda>v.
     bind_res (ipv4_of v) (\<lambda>ip.
     bind_res (check (ip \<noteq> 0 \<and> \<not> list_ex (in_net (IPv4 ip)) blocked_networks)
                (SystemExit (''destination is in a protected network: '' @ ipv4_text ip))) (\<lambda>_.
     bind_res (check (ip = controlled_responder)
                (SystemExit ''public or non-responder destinations are unsupported'')) (\<lambda>_.
     bind_res (item d ''protocol'') (\<lambda>proto.
     bind_res (check (proto \<in> {JStr ''tcp'', JStr ''udp''}) (SystemExit ''protocol must be tcp or udp'')) (\<lambda>_.
     bind_res (item d ''port'') (\<lambda>p.
     bind_res (py_int p) (\<lambda>port.
     bind_res (check (1 \<le> port \<and> port \<le> 65535) (SystemExit ''invalid destination port'')) (\<lambda>_.
     bind_res (check (proto = JStr ''tcp'' \<and> port \<in> set controlled_ports)
                (SystemExit ''only controlled responder HTTP/HTTPS ports are permitted'')) (\<lambda>_.
     Inr (JObj (dict_set ''port'' (JInt port) (dict_set ''ip'' (JStr (ipv4_text ip)) (obj_of d))))))))))))))"

definition check_destinations :: "config \<Rightarrow> config res" where
  "check_destinations c =
     bind_res (check (truth (get c ''destinations''))
                (SystemExit ''at least one literal destination is required'')) (\<lambda>_.
     bind_res (items_of (get c ''destinations'')) (\<lambda>ds.
     bind_res (map_res check_destination ds) (\<lambda>ds'.
     Inr (dict_set ''destinations'' (JList ds') c))))"

definition destinations :: "config \<Rightarrow> config list" where
  "destinations c = (case list_of (get c ''destinations'') of Some ds \<Rightarrow> map obj_of ds | None \<Rightarrow> [])"

text \<open>\<open>dns["name"].lower()\<close> on anything but a string is an \<open>AttributeError\<close>.\<close>

definition check_dns :: "config \<Rightarrow> config res" where
  "check_dns c =
     (let dns = get c ''dns'' in
      if \<not> truth dns then Inr c
      else
        bind_res (item dns ''name'') (\<lambda>n.
        bind_res (check (dns_name_ok (py_str n)) (SystemExit ''invalid pinned DNS name'')) (\<lambda>_.
        bind_res (item dns ''pinned_ip'') (\<lambda>v.
        bind_res (ip_of_value v) (\<lambda>ip.
        bind_res (check ((case ip of IPv4 k \<Rightarrow> JStr (ipv4_text k) \<in> set (map (\<lambda>d. get d ''ip'') (destinations c))
                                   | IPv6 k \<Rightarrow> False))
                   (SystemExit ''pinned DNS IP must also be an allowed destination'')) (\<lambda>_.
        case n of
          JStr s \<Rightarrow>
            if rstrip_char (CHR ''.'') (str_lower s) \<noteq> ''validation.winstdt.test''
            then Inl (SystemExit ''only the controlled validation hostname may be pinned'')
            else Inr (dict_set ''dns'' (JObj (dict_set ''pinned_ip''
                        (JStr (case ip of IPv4 k \<Rightarrow> ipv4_text k | IPv6 k \<Rightarrow> [])) (obj_of dns))) c)
        | _ \<Rightarrow> Inl (AttributeError ''lower'')))))))"

definition load_config :: "datetime \<Rightarrow> datetime \<Rightarrow> pyval \<Rightarrow> config res" where
  "load_config now1 now2 raw =
     bind_res (check_head raw) (\<lambda>c.
     bind_res (expiry_of now1 now2 (get c ''expires_at_utc'')) (\<lambda>t.
     bind_res (ipv4_of (get c ''guest_ip'')) (\<lambda>g.
     let c1 = dict_set ''guest_ip'' (JStr (ipv4_text g))
                (dict_set ''_expires_epoch'' (JInt (trunc (timestamp t))) c) in
     bind_res (check_interfaces c1) (\<lambda>_.
     bind_res (check_limits c1) (\<lambda>c2.
     bind_res (check_destinations c2) (\<lambda>c3.
     check_dns c3))))))"

section \<open>Approval\<close>

text \<open>\<open>json.dumps(v, sort_keys=True, separators=(",", ":"))\<close>\<close>

fun json_compact :: "pyval \<Rightarrow> string" where
  "json_compact (JList xs) = ''['' @ join '','' (map json_compact xs) @ '']''"
| "json_compact (JObj d) = [char_of (123 :: nat)]
     @ join '','' (map (\<lambda>(k, t). json_string k @ '':'' @ t)
         (sort_key fst (map (\<lambda>(k, v). (k, json_compact v)) d)))
     @ [char_of (125 :: nat)]"
| "json_compact v = json_dumps v"

definition signed_part :: "config \<Rightarrow> config" where
  "signed_part c = filter (\<lambda>(k, v). k \<noteq> ''approval'' \<and> \<not> starts_with k ''_'') c"

definition canonical_policy :: "config \<Rightarrow> string" where
  "canonical_policy c =
     json_compact (JObj [(''approval_id'', get (obj_of (get c ''approval'')) ''approval_id''),
                         (''policy'', JObj (signed_part c))]) @ [char_of (10 :: nat)]"

text \<open>
  The signature path is joined to the configuration's directory unless it is absolute; \<open>keygen\<close>
  is \<open>ssh-keygen -Y verify\<close> for a signer, a signature file and a payload.
\<close>

definition signature_file :: "string \<Rightarrow> string \<Rightarrow> string" where
  "signature_file dir p = (if starts_with p ''/'' then p else dir @ ''/'' @ p)"

definition verify_approval ::
    "(string \<Rightarrow> string) \<Rightarrow> (string \<Rightarrow> string \<Rightarrow> string \<Rightarrow> bool) \<Rightarrow> string \<Rightarrow> config \<Rightarrow> unit res" where
  "verify_approval H keygen dir c =
     (let a = obj_of (get c ''approval'') in
      if JStr (H (json_compact (JObj (signed_part c)))) \<noteq> get a ''policy_sha256''
      then Inl (SystemExit ''approval policy hash does not match canonical policy'')
      else case get a ''signature_path'' of
             JStr p \<Rightarrow>
               (case get a ''signer_identity'' of
                  JStr i \<Rightarrow>
                    if keygen i (signature_file dir p) (canonical_policy c) then Inr ()
                    else Inl (SystemExit ''gateway approval signature verification failed'')
                | _ \<Rightarrow> Inl (TypeError ''expected str, bytes or os.PathLike object''))
           | _ \<Rightarrow> Inl (TypeError ''argument should be a str or an os.PathLike object''))"

section \<open>The packet filter\<close>

definition quoted :: "string \<Rightarrow> string" where
  "quoted s = [char_of (34 :: nat)] @ s @ [char_of (34 :: nat)]"

definition block :: "string \<Rightarrow> string" where
  "block s = s @ [char_of (123 :: nat)]"

definition unblock :: string where "unblock = [char_of (125 :: nat)]"

definition iif :: "string \<Rightarrow> string" where "iif i = ''iifname '' @ quoted i"
definition oif :: "string \<Rightarrow> string" where "oif i = ''oifname '' @ quoted i"

definition input_rules :: "config \<Rightarrow> string list" where
  "input_rules c =
     (let internal = iif (py_str (get c ''internal_interface'')); external = iif (py_str (get c ''external_interface''));
          guest = py_str (get c ''guest_ip'')
      in [block '' chain input '' @ '' type filter hook input priority 0; policy drop;'',
          ''  '' @ iif ''lo'' @ '' accept'',
          ''  ct state established,related accept'',
          ''  '' @ internal @ '' ip saddr 10.66.0.1 tcp dport 22 accept'',
          ''  '' @ internal @ '' ip protocol icmp accept'',
          ''  '' @ external @ '' udp sport 67 udp dport 68 accept'']
         @ (if truth (get c ''dns'')
            then [''  '' @ internal @ '' ip saddr '' @ guest @ '' udp dport 53 accept'',
                  ''  '' @ internal @ '' ip saddr '' @ guest @ '' tcp dport 53 accept'']
            else []))"

definition guest_match :: "config \<Rightarrow> config \<Rightarrow> string" where
  "guest_match c d =
     iif (py_str (get c ''internal_interface'')) @ '' '' @ oif (py_str (get c ''external_interface''))
     @ '' ip saddr '' @ py_str (get c ''guest_ip'') @ '' ip daddr '' @ py_str (get d ''ip'') @ '' ''
     @ py_str (get d ''protocol'') @ '' dport '' @ py_str (get d ''port'')"

definition destination_rules :: "config \<Rightarrow> nat \<Rightarrow> config \<Rightarrow> string list" where
  "destination_rules c k d =
     (let m = guest_match c d; n = py_str (get c ''max_connections'') in
      [''  '' @ m @ '' quota name run_quota_'' @ nat_str k @ '' counter drop'',
       ''  '' @ m @ '' ct state new limit rate '' @ n @ ''/minute burst '' @ n @ '' packets counter accept'',
       ''  '' @ m @ '' ct state established counter accept''])"

definition return_rule :: "config \<Rightarrow> string" where
  "return_rule c =
     ''  '' @ iif (py_str (get c ''external_interface'')) @ '' '' @ oif (py_str (get c ''internal_interface''))
     @ '' ip daddr '' @ py_str (get c ''guest_ip'') @ '' ct state established,related counter accept''"

definition forward_header :: string where
  "forward_header = block '' chain forward '' @ '' type filter hook forward priority 0; policy drop;''"

definition forward_rules :: "config \<Rightarrow> string list" where
  "forward_rules c =
     return_rule c
       # concat (map2 (destination_rules c) [1 ..< Suc (length (destinations c))] (destinations c))"

definition nat_rules :: "config \<Rightarrow> string list" where
  "nat_rules c =
     [block '' chain postrouting '' @ '' type nat hook postrouting priority srcnat; policy accept;'',
      ''  '' @ iif (py_str (get c ''internal_interface'')) @ '' '' @ oif (py_str (get c ''external_interface''))
        @ '' ip saddr '' @ py_str (get c ''guest_ip'') @ '' counter masquerade'']"

definition quota_rules :: "config \<Rightarrow> string list" where
  "quota_rules c =
     map (\<lambda>k. block ('' quota run_quota_'' @ nat_str k @ '' '') @ '' over '' @ py_str (get c ''max_bytes'')
           @ '' bytes '' @ unblock)
       [1 ..< Suc (length (destinations c))]"

definition policy_lines :: "config \<Rightarrow> string list" where
  "policy_lines c =
     [''flush ruleset'', block ''table inet winstdt_run ''] @ input_rules c @ ['' '' @ unblock, forward_header]
     @ forward_rules c @ ['' '' @ unblock] @ nat_rules c @ ['' '' @ unblock] @ quota_rules c @ [unblock, []]"

definition render :: "config \<Rightarrow> string" where
  "render c = join [char_of (10 :: nat)] (policy_lines c)"

text \<open>\<open>main\<close>: the ruleset and the metadata written beside it; \<open>now3\<close> is the third clock reading.\<close>

definition run_metadata :: "datetime \<Rightarrow> config \<Rightarrow> config" where
  "run_metadata now3 c =
     dict_set ''generated_at_utc'' (JStr (isoformat now3))
       (dict_set ''expires_epoch'' (get c ''_expires_epoch'')
         (dict_set ''approval_id'' (get (obj_of (get c ''approval'')) ''approval_id'')
           (filter (\<lambda>(k, v). \<not> starts_with k ''_'') c)))"

definition configure ::
    "datetime \<Rightarrow> datetime \<Rightarrow> datetime \<Rightarrow> (string \<Rightarrow> string) \<Rightarrow> (string \<Rightarrow> string \<Rightarrow> string \<Rightarrow> bool) \<Rightarrow> string
       \<Rightarrow> pyval \<Rightarrow> (string \<times> config) res" where
  "configure now1 now2 now3 H keygen dir raw =
     bind_res (load_config now1 now2 raw) (\<lambda>c.
     bind_res (verify_approval H keygen dir c) (\<lambda>_.
     Inr (render c, run_metadata now3 c)))"

section \<open>Accepted configurations\<close>

text \<open>What \<open>load_config\<close> guarantees of the dictionary it returns.\<close>

definition confined :: "config \<Rightarrow> bool" where
  "confined d \<longleftrightarrow> get d ''ip'' = JStr (ipv4_text controlled_responder) \<and> get d ''protocol'' = JStr ''tcp''
     \<and> (\<exists>p \<in> set controlled_ports. get d ''port'' = JInt p)"

lemma check_destination_confined:
  assumes "check_destination d = Inr d'"
  shows "confined (obj_of d')"
proof -
  obtain ip proto port where *: "ip = controlled_responder" "item d ''protocol'' = Inr proto" "proto = JStr ''tcp''"
      "port \<in> set controlled_ports"
      "d' = JObj (dict_set ''port'' (JInt port) (dict_set ''ip'' (JStr (ipv4_text ip)) (obj_of d)))"
    using assms unfolding check_destination_def bind_res_Inr_iff check_Inr by blast
  have "get (obj_of d) ''protocol'' = JStr ''tcp''"
    using *(2,3) by (auto simp: item_def get_def split: if_splits option.splits)
  then show ?thesis using * by (auto simp: confined_def)
qed

lemma check_destinations_confined:
  assumes "check_destinations c = Inr c'"
  shows "destinations c' \<noteq> []" "\<forall>d \<in> set (destinations c'). confined d"
    "\<And>k. k \<noteq> ''destinations'' \<Longrightarrow> get c' k = get c k"
proof -
  obtain ds ds' where *: "truth (get c ''destinations'')" "items_of (get c ''destinations'') = Inr ds"
      "map_res check_destination ds = Inr ds'" "c' = dict_set ''destinations'' (JList ds') c"
    using assms unfolding check_destinations_def bind_res_Inr_iff check_Inr by blast
  have dest: "destinations c' = map obj_of ds'" by (simp add: destinations_def *(4))
  have "ds \<noteq> []" using *(1,2) by (cases "get c ''destinations''") auto
  then show "destinations c' \<noteq> []" using map_res_length [OF *(3)] by (auto simp: dest)
  show "\<forall>d \<in> set (destinations c'). confined d"
    using check_destination_confined map_res_mem [OF *(3)] by (force simp: dest)
  show "get c' k = get c k" if "k \<noteq> ''destinations''" for k
    using that by (simp add: *(4))
qed

lemma check_dns_keeps:
  assumes "check_dns c = Inr c'"
  shows "destinations c' = destinations c" "\<And>k. k \<noteq> ''dns'' \<Longrightarrow> get c' k = get c k"
proof -
  have "c' = c \<or> (\<exists>v. c' = dict_set ''dns'' v c)"
  proof (cases "truth (get c ''dns'')")
    case True
    with assms obtain n ip where "(case n of
          JStr s \<Rightarrow>
            if rstrip_char (CHR ''.'') (str_lower s) \<noteq> ''validation.winstdt.test''
            then Inl (SystemExit ''only the controlled validation hostname may be pinned'')
            else Inr (dict_set ''dns'' (JObj (dict_set ''pinned_ip''
                        (JStr (case ip of IPv4 k \<Rightarrow> ipv4_text k | IPv6 k \<Rightarrow> [])) (obj_of (get c ''dns'')))) c)
        | _ \<Rightarrow> Inl (AttributeError ''lower'')) = Inr c'"
      unfolding check_dns_def Let_def if_not_P [OF not_not [THEN iffD2, OF True]] bind_res_Inr_iff by blast
    then show ?thesis by (auto split: pyval.splits if_splits)
  qed (use assms in \<open>simp add: check_dns_def\<close>)
  then show "destinations c' = destinations c" "\<And>k. k \<noteq> ''dns'' \<Longrightarrow> get c' k = get c k"
    by (auto simp: destinations_def)
qed

lemma dec_val_nonneg: "\<forall>c \<in> set s. is_digit c \<Longrightarrow> 0 \<le> dec_val s"
proof (induction s rule: rev_induct)
  case (snoc c s)
  then have "0 \<le> dec_val s" "is_digit c" by simp_all
  moreover have "0 \<le> digit_val c"
  proof -
    have "48 \<le> (of_char c :: nat)" using \<open>is_digit c\<close> by (simp add: is_digit_def Let_def)
    moreover have "(of_char c :: int) = int (of_char c)" by (rule of_nat_of_char [symmetric])
    ultimately show ?thesis unfolding digit_val_def by linarith
  qed
  ultimately show ?case by (simp add: dec_val_snoc)
qed (simp add: dec_val_def)

lemma octet_range: "octet s = Some a \<Longrightarrow> 0 \<le> a \<and> a \<le> 255"
  by (auto simp: dec_val_nonneg split: if_splits)

lemma parse_ipv4_range:
  assumes "parse_ipv4 s = Some v"
  shows "0 \<le> v \<and> v < 2 ^ 32"
proof -
  obtain a b c d where *: "map octet (split_on (CHR ''.'') s) = [Some a, Some b, Some c, Some d]"
      "v = ((a * 256 + b) * 256 + c) * 256 + d"
    using assms by (auto simp: parse_ipv4_def split: list.splits option.splits)
  have "0 \<le> x \<and> x \<le> 255" if "x \<in> {a, b, c, d}" for x
  proof -
    have "Some x \<in> set (map octet (split_on (CHR ''.'') s))" unfolding *(1) using that by auto
    then show ?thesis using octet_range by (metis imageE list.set_map)
  qed
  from this [of a] this [of b] this [of c] this [of d] show ?thesis by (simp add: *(2))
qed

lemma ipv4_of_range:
  assumes "ipv4_of v = Inr k"
  shows "0 \<le> k \<and> k < 2 ^ 32"
proof -
  obtain ip where "ip_of_value v = Inr ip" "(case ip of IPv4 k \<Rightarrow> Inr k
       | IPv6 k \<Rightarrow> Inl (SystemExit ''the initial gateway milestone supports IPv4 only'')) = Inr k"
    using assms unfolding ipv4_of_def bind_res_Inr_iff by blast
  then have "ip_of_value v = Inr (IPv4 k)" by (cases ip) simp_all
  then consider n where "ip_number n = Inr (IPv4 k)" | s where "ip_address s = Some (IPv4 k)"
    by (auto simp: ip_of_value_def split: pyval.splits option.splits)
  then show ?thesis
  proof cases
    case 1
    then show ?thesis by (auto simp: ip_number_def split: if_splits)
  next
    case 2
    then show ?thesis by (auto simp: ip_address_def split: option.splits dest: parse_ipv4_range)
  qed
qed

lemma digits_word: "is_digit c \<Longrightarrow> word_char c"
  by (simp add: word_char_def)

lemma dec_str_word: "0 \<le> n \<Longrightarrow> list_all word_char (dec_str n)"
  using dec_str_digits [of n] digits_word by (auto simp: list_all_iff)

lemma ipv4_text_word: "0 \<le> v \<Longrightarrow> list_all word_char (ipv4_text v)"
  by (simp add: ipv4_text_def dec_str_word pos_imp_zdiv_nonneg_iff word_char_def [of "CHR ''.''"])

lemma newline_not_word: "list_all word_char s \<Longrightarrow> char_of (10 :: nat) \<notin> set s"
proof -
  have "\<not> word_char (char_of (10 :: nat))" by code_simp
  then show "list_all word_char s \<Longrightarrow> char_of (10 :: nat) \<notin> set s" by (auto simp: list_all_iff)
qed

text \<open>The facts about an in_force configuration that the properties use.\<close>

record gateway_view =
  gw_internal :: string
  gw_external :: string
  gw_guest :: int
  gw_connections :: int
  gw_bytes :: int

definition in_force :: "config \<Rightarrow> gateway_view \<Rightarrow> bool" where
  "in_force c w \<longleftrightarrow>
     py_str (get c ''internal_interface'') = gw_internal w \<and> interface_ok (gw_internal w)
     \<and> py_str (get c ''external_interface'') = gw_external w \<and> interface_ok (gw_external w)
     \<and> get c ''guest_ip'' = JStr (ipv4_text (gw_guest w)) \<and> 0 \<le> gw_guest w \<and> gw_guest w < 2 ^ 32
     \<and> get c ''max_connections'' = JInt (gw_connections w) \<and> 1 \<le> gw_connections w \<and> gw_connections w \<le> 1000
     \<and> get c ''max_bytes'' = JInt (gw_bytes w) \<and> 1024 \<le> gw_bytes w \<and> gw_bytes w \<le> 1073741824
     \<and> destinations c \<noteq> [] \<and> (\<forall>d \<in> set (destinations c). confined d)"

lemma check_limits_facts:
  assumes "check_limits c = Inr c'"
  shows "\<exists>n b. c' = dict_set ''max_bytes'' (JInt b) (dict_set ''max_connections'' (JInt n) c)
     \<and> 1 \<le> n \<and> n \<le> 1000 \<and> 1024 \<le> b \<and> b \<le> 1073741824
     \<and> py_int (get c ''max_connections'') = Inr n \<and> py_int (get c ''max_bytes'') = Inr b"
  using assms unfolding check_limits_def bind_res_Inr_iff check_Inr by blast

lemma item_get: "item v k = Inr x \<Longrightarrow> \<exists>d. v = JObj d \<and> get d k = x"
  by (cases v) (auto simp: item_def get_def split: option.splits)

lemma check_destination_origin:
  assumes "check_destination x = Inr y"
  shows "\<exists>d port. x = JObj d \<and> ipv4_of (get d ''ip'') = Inr controlled_responder \<and> get d ''protocol'' = JStr ''tcp''
     \<and> py_int (get d ''port'') = Inr port \<and> get (obj_of y) ''port'' = JInt port"
proof -
  obtain v ip proto p port where *: "item x ''ip'' = Inr v" "ipv4_of v = Inr ip" "ip = controlled_responder"
      "item x ''protocol'' = Inr proto" "proto = JStr ''tcp''" "item x ''port'' = Inr p" "py_int p = Inr port"
      "y = JObj (dict_set ''port'' (JInt port) (dict_set ''ip'' (JStr (ipv4_text ip)) (obj_of x)))"
    using assms unfolding check_destination_def bind_res_Inr_iff check_Inr by blast
  obtain d where d: "x = JObj d" "get d ''ip'' = v" using item_get [OF *(1)] by blast
  have "get d ''protocol'' = proto" "get d ''port'' = p" using item_get [OF *(4)] item_get [OF *(6)] d(1) by auto
  then show ?thesis using d * by auto
qed

lemma map_res_not_obj: "map_res check_destination (map JStr xs) = Inr ys \<Longrightarrow> xs = []"
  by (cases xs) (auto simp: check_destination_def item_def bind_res_Inr_iff)

lemma check_destinations_origin:
  assumes "check_destinations c = Inr c'"
  shows "\<exists>ds. get c ''destinations'' = JList ds
     \<and> list_all2 (\<lambda>x e. \<exists>y. check_destination x = Inr y \<and> e = obj_of y) ds (destinations c')"
proof -
  obtain ds ds' where *: "truth (get c ''destinations'')" "items_of (get c ''destinations'') = Inr ds"
      "map_res check_destination ds = Inr ds'" "c' = dict_set ''destinations'' (JList ds') c"
    using assms unfolding check_destinations_def bind_res_Inr_iff check_Inr by blast
  have "\<exists>ds. get c ''destinations'' = JList ds"
  proof (cases "get c ''destinations''")
    case (JStr t)
    then have "ds = map JStr (map (\<lambda>x. [x]) t)" using *(2) by (simp add: o_def)
    then show ?thesis using map_res_not_obj *(1,3) JStr by fastforce
  next
    case (JObj d)
    then have "ds = map JStr (map fst d)" using *(2) by simp
    then show ?thesis using map_res_not_obj *(1,3) JObj by fastforce
  qed (use *(1,2) in auto)
  moreover have "destinations c' = map obj_of ds'" by (simp add: destinations_def *(4))
  moreover have "list_all2 (\<lambda>x e. \<exists>y. check_destination x = Inr y \<and> e = obj_of y) ds (map obj_of ds')"
    using *(3) unfolding map_res_Inr_all2 by (auto simp: list_all2_map2 elim!: list_all2_mono)
  ultimately show ?thesis using *(2) by auto
qed

text \<open>Where the fields of an accepted configuration come from.\<close>

lemma load_config_origin:
  assumes "load_config now1 now2 raw = Inr c"
  obtains d w ds where "raw = JObj d" "in_force c w"
    "gw_internal w = py_str (get d ''internal_interface'')" "gw_external w = py_str (get d ''external_interface'')"
    "\<not> py_eq (get d ''internal_interface'') (get d ''external_interface'')"
    "ipv4_of (get d ''guest_ip'') = Inr (gw_guest w)" "py_int (get d ''max_connections'') = Inr (gw_connections w)"
    "py_int (get d ''max_bytes'') = Inr (gw_bytes w)" "get c ''approval'' = get d ''approval''"
    "get d ''destinations'' = JList ds"
    "list_all2 (\<lambda>x e. \<exists>y. check_destination x = Inr y \<and> e = obj_of y) ds (destinations c)"
proof -
  obtain c0 t g c2 c3 where h: "check_head raw = Inr c0" and
    g: "ipv4_of (get c0 ''guest_ip'') = Inr g" and
    ifs: "check_interfaces (dict_set ''guest_ip'' (JStr (ipv4_text g))
        (dict_set ''_expires_epoch'' (JInt (trunc (timestamp t))) c0)) = Inr ()" and
    lim: "check_limits (dict_set ''guest_ip'' (JStr (ipv4_text g))
        (dict_set ''_expires_epoch'' (JInt (trunc (timestamp t))) c0)) = Inr c2" and
    ds: "check_destinations c2 = Inr c3" and dns: "check_dns c3 = Inr c"
    using assms unfolding load_config_def Let_def bind_res_Inr_iff by auto
  have raw: "raw = JObj c0" using h by (cases raw) (auto simp: check_head_def Let_def split: if_splits option.splits)
  note keep = check_dns_keeps [OF dns] check_destinations_confined [OF ds]
  obtain n b where c2: "c2 = dict_set ''max_bytes'' (JInt b) (dict_set ''max_connections'' (JInt n)
      (dict_set ''guest_ip'' (JStr (ipv4_text g)) (dict_set ''_expires_epoch'' (JInt (trunc (timestamp t))) c0)))"
    and lims: "1 \<le> n" "n \<le> 1000" "1024 \<le> b" "b \<le> 1073741824"
    and ints: "py_int (get c0 ''max_connections'') = Inr n" "py_int (get c0 ''max_bytes'') = Inr b"
    using check_limits_facts [OF lim] by simp blast
  have names: "interface_ok (py_str (get c0 ''internal_interface''))" "interface_ok (py_str (get c0 ''external_interface''))"
    "\<not> py_eq (get c0 ''internal_interface'') (get c0 ''external_interface'')"
    using ifs unfolding check_interfaces_def bind_res_Inr_iff check_Inr by simp_all
  have "in_force c \<lparr>gw_internal = py_str (get c0 ''internal_interface''),
      gw_external = py_str (get c0 ''external_interface''), gw_guest = g, gw_connections = n, gw_bytes = b\<rparr>"
    using names lims ipv4_of_range [OF g] keep(1,3,4)
    by (simp add: in_force_def keep(2,5) c2)
  moreover obtain xs where "get c0 ''destinations'' = JList xs"
      "list_all2 (\<lambda>x e. \<exists>y. check_destination x = Inr y \<and> e = obj_of y) xs (destinations c)"
    using check_destinations_origin [OF ds] by (auto simp: keep(1) c2)
  moreover have "get c ''approval'' = get c0 ''approval''" by (simp add: keep(2,5) c2)
  ultimately show thesis using that raw names(3) g ints by simp
qed

lemma load_config_accepted: "load_config now1 now2 raw = Inr c \<Longrightarrow> \<exists>w. in_force c w"
  by (rule load_config_origin) blast+

text \<open>No field of an in_force configuration can break a line of the policy.\<close>

lemmas literal_lines = unblock_def block_def quoted_def iif_def oif_def forward_header_def

lemma interface_word: "interface_ok s \<Longrightarrow> list_all word_char s"
  by (simp add: interface_ok_def)

lemma int_str_word: "0 \<le> k \<Longrightarrow> list_all word_char (int_str k)"
  by (simp add: int_str_def dec_str_word)

lemma nat_str_word: "list_all word_char (nat_str k)"
  by (simp add: nat_str_def dec_str_word)

lemma py_str_JInt [simp]: "py_str (JInt k) = int_str k"
  by (simp add: py_str_def)

lemma newline_char: "char_of (10 :: nat) = CHR 0x0A" "char_of (34 :: nat) = CHR 0x22"
  "char_of (123 :: nat) = CHR 0x7B" "char_of (125 :: nat) = CHR 0x7D"
  by code_simp+

definition one_line :: "string \<Rightarrow> bool" where "one_line s \<longleftrightarrow> CHR 0x0A \<notin> set s"

lemma one_line_simps [simp]:
  "one_line []" "one_line (x # s) \<longleftrightarrow> x \<noteq> CHR 0x0A \<and> one_line s"
  "one_line (s @ t) \<longleftrightarrow> one_line s \<and> one_line t"
  by (auto simp: one_line_def)

lemma one_line_word: "list_all word_char s \<Longrightarrow> one_line s"
  using newline_not_word [of s] by (simp add: one_line_def newline_char)

lemma one_line_parts [simp]:
  "one_line (quoted s) \<longleftrightarrow> one_line s" "one_line (iif s) \<longleftrightarrow> one_line s" "one_line (oif s) \<longleftrightarrow> one_line s"
  "one_line (block s) \<longleftrightarrow> one_line s" "one_line unblock"  "one_line forward_header"
  by (simp_all add: literal_lines newline_char)

lemma policy_lines_plain:
  assumes "in_force c w"
  shows "\<forall>l \<in> set (policy_lines c). one_line l"
proof -
  have c: "py_str (get c ''internal_interface'') = gw_internal w" "py_str (get c ''external_interface'') = gw_external w"
      "get c ''guest_ip'' = JStr (ipv4_text (gw_guest w))" "get c ''max_connections'' = JInt (gw_connections w)"
      "get c ''max_bytes'' = JInt (gw_bytes w)"
    using assms by (simp_all add: in_force_def)
  have i: "one_line (gw_internal w)" "one_line (gw_external w)" "one_line (ipv4_text (gw_guest w))"
      "one_line (int_str (gw_connections w))" "one_line (int_str (gw_bytes w))" "\<And>k. one_line (nat_str k)"
    using assms unfolding in_force_def
    by (simp_all add: one_line_word interface_word ipv4_text_word int_str_word nat_str_word)
  have d: "one_line (guest_match c d)" if "d \<in> set (destinations c)" for d
  proof -
    have "confined d" using that assms by (simp add: in_force_def)
    then obtain p where "get d ''ip'' = JStr (ipv4_text controlled_responder)" "get d ''protocol'' = JStr ''tcp''"
        "p \<in> set controlled_ports" "get d ''port'' = JInt p"
      unfolding confined_def by blast
    moreover have "one_line (ipv4_text controlled_responder)"
      by (intro one_line_word ipv4_text_word) (simp add: controlled_responder_def v4_def)
    moreover have "one_line (int_str p)"
      using \<open>p \<in> _\<close> by (intro one_line_word int_str_word) (auto simp: controlled_ports_def)
    ultimately show ?thesis by (simp add: guest_match_def c i)
  qed
  have "list_all one_line (input_rules c)" by (simp add: input_rules_def Let_def c i)
  then have "\<forall>l \<in> set (input_rules c). one_line l" by (simp add: list_all_iff)
  moreover have "\<forall>l \<in> set (destination_rules c k e). one_line l" if "e \<in> set (destinations c)" for k e
    using that by (simp add: destination_rules_def Let_def c i d)
  moreover have "one_line (return_rule c)" by (simp add: return_rule_def c i)
  moreover have "\<forall>l \<in> set (nat_rules c). one_line l" "\<forall>l \<in> set (quota_rules c). one_line l"
    by (simp_all add: nat_rules_def quota_rules_def c i)
  ultimately show ?thesis
    by (auto simp: policy_lines_def forward_rules_def dest: set_zip_rightD)
qed

section \<open>Properties\<close>

text \<open>The rules of the forward chain in a ruleset: between its header and the next closing brace.\<close>

definition forward_chain :: "string list \<Rightarrow> string list" where
  "forward_chain ls = takeWhile (\<lambda>l. l \<noteq> '' '' @ unblock) (tl (dropWhile (\<lambda>l. l \<noteq> forward_header) ls))"

lemma dropWhile_until: "list_all P xs \<Longrightarrow> \<not> P x \<Longrightarrow> dropWhile P (xs @ x # ys) = x # ys"
  by (induction xs) auto

lemma forward_chain_policy: "forward_chain (policy_lines c) = forward_rules c"
proof -
  let ?pre = "[''flush ruleset'', block ''table inet winstdt_run ''] @ input_rules c @ ['' '' @ unblock]"
  have pre: "list_all (\<lambda>l. l \<noteq> forward_header) ?pre"
    by (simp add: input_rules_def Let_def literal_lines)
  have "list_all (\<lambda>l. l \<noteq> '' '' @ unblock) (destination_rules c k d)" for k d
    by (simp add: destination_rules_def guest_match_def Let_def literal_lines newline_char)
  then have "l \<noteq> '' '' @ unblock" if "l \<in> set (forward_rules c)" for l
    using that by (auto simp: forward_rules_def return_rule_def list_all_iff literal_lines newline_char)
  then have "takeWhile (\<lambda>l. l \<noteq> '' '' @ unblock) (forward_rules c @ ('' '' @ unblock) # r) = forward_rules c" for r
    by (simp add: takeWhile_append2)
  moreover have "policy_lines c = ?pre
      @ forward_header # forward_rules c @ ('' '' @ unblock) # nat_rules c @ ['' '' @ unblock] @ quota_rules c @ [unblock, []]"
    by (simp add: policy_lines_def)
  moreover have "dropWhile (\<lambda>l. l \<noteq> forward_header) (?pre @ forward_header # r) = forward_header # r" for r
    by (rule dropWhile_until [OF pre]) simp
  ultimately show ?thesis
    unfolding forward_chain_def by (simp only: list.sel)
qed

lemma render_lines:
  assumes "in_force c w"
  shows "split_on (char_of (10 :: nat)) (render c) = policy_lines c"
  unfolding render_def
  by (rule split_on_join) (use policy_lines_plain [OF assms] in \<open>simp_all add: policy_lines_def one_line_def newline_char\<close>)

text \<open>The forward chain in terms of the configuration's values.\<close>

definition destination_lines :: "config \<Rightarrow> gateway_view \<Rightarrow> int list \<Rightarrow> bool" where
  "destination_lines c w ports \<longleftrightarrow> set ports \<subseteq> {8080, 8443} \<and> forward_rules c =
     (''  iifname '' @ quoted (gw_external w) @ '' oifname '' @ quoted (gw_internal w) @ '' ip daddr ''
        @ ipv4_text (gw_guest w) @ '' ct state established,related counter accept'')
      # concat (map2 (\<lambda>k p.
             let m = ''  iifname '' @ quoted (gw_internal w) @ '' oifname '' @ quoted (gw_external w) @ '' ip saddr ''
                       @ ipv4_text (gw_guest w) @ '' ip daddr 192.168.125.10 tcp dport '' @ int_str p
             in [m @ '' quota name run_quota_'' @ nat_str k @ '' counter drop'',
                 m @ '' ct state new limit rate '' @ int_str (gw_connections w) @ ''/minute burst ''
                   @ int_str (gw_connections w) @ '' packets counter accept'',
                 m @ '' ct state established counter accept'']) [1 ..< Suc (length ports)] ports)"

lemma destination_lines_policy:
  assumes w: "in_force c w"
  shows "destination_lines c w (map (\<lambda>e. case get e ''port'' of JInt p \<Rightarrow> p | _ \<Rightarrow> 0) (destinations c))"
proof -
  define port where "port d = (case get d ''port'' of JInt p \<Rightarrow> p | _ \<Rightarrow> 0)" for d
  have dest: "get d ''ip'' = JStr ''192.168.125.10'' \<and> get d ''protocol'' = JStr ''tcp''
      \<and> get d ''port'' = JInt (port d) \<and> port d \<in> {8080, 8443}" if "d \<in> set (destinations c)" for d
  proof -
    have "ipv4_text controlled_responder = ''192.168.125.10''" by code_simp
    then show ?thesis using that w by (auto simp: in_force_def confined_def port_def controlled_ports_def)
  qed
  let ?f = "\<lambda>k p.
             let m = ''  iifname '' @ quoted (gw_internal w) @ '' oifname '' @ quoted (gw_external w) @ '' ip saddr ''
                       @ ipv4_text (gw_guest w) @ '' ip daddr 192.168.125.10 tcp dport '' @ int_str p
             in [m @ '' quota name run_quota_'' @ nat_str k @ '' counter drop'',
                 m @ '' ct state new limit rate '' @ int_str (gw_connections w) @ ''/minute burst ''
                   @ int_str (gw_connections w) @ '' packets counter accept'',
                 m @ '' ct state established counter accept'']"
  have "destination_rules c k d = ?f k (port d)" if "d \<in> set (destinations c)" for k d
    using w dest [OF that] by (simp add: destination_rules_def guest_match_def iif_def oif_def in_force_def Let_def)
  then have "map2 (destination_rules c) ks (destinations c) = map2 ?f ks (map port (destinations c))" for ks
    by (auto simp: zip_map2 case_prod_beta dest!: set_zip_rightD intro!: map_cong)
  then have "forward_rules c = (''  iifname '' @ quoted (gw_external w) @ '' oifname '' @ quoted (gw_internal w) @ '' ip daddr ''
        @ ipv4_text (gw_guest w) @ '' ct state established,related counter accept'')
      # concat (map2 ?f [1 ..< Suc (length (map port (destinations c)))] (map port (destinations c)))"
    using w by (simp only: forward_rules_def length_map) (simp add: return_rule_def iif_def oif_def in_force_def)
  moreover have "set (map port (destinations c)) \<subseteq> {8080, 8443}" using dest by auto
  ultimately show ?thesis unfolding destination_lines_def port_def by blast
qed

text \<open>The quotas a ruleset defines.\<close>

definition quota_lines :: "string list \<Rightarrow> string list" where
  "quota_lines ls = filter (\<lambda>l. starts_with l '' quota '') ls"

lemma quota_lines_policy: "quota_lines (policy_lines c) = quota_rules c"
proof -
  have plain: "\<not> starts_with l '' quota ''" if "l \<in> set (input_rules c @ forward_rules c @ nat_rules c)" for l
    using that by (auto simp: input_rules_def forward_rules_def return_rule_def destination_rules_def nat_rules_def Let_def
        block_def starts_with_def split: if_splits)
  have "filter (\<lambda>l. starts_with l '' quota '') (quota_rules c) = quota_rules c"
    by (auto simp: quota_rules_def block_def starts_with_def intro!: filter_True)
  moreover have "filter (\<lambda>l. starts_with l '' quota '') (input_rules c) = []"
    "filter (\<lambda>l. starts_with l '' quota '') (forward_rules c) = []" "filter (\<lambda>l. starts_with l '' quota '') (nat_rules c) = []"
    using plain by (simp_all add: filter_empty_conv)
  moreover have "\<not> starts_with [] '' quota ''" "\<not> starts_with unblock '' quota ''" "\<not> starts_with forward_header '' quota ''"
    "\<not> starts_with (CHR '' '' # unblock) '' quota ''" "\<not> starts_with (block ''table inet winstdt_run '') '' quota ''"
    "\<not> starts_with ''flush ruleset'' '' quota ''"
    by (simp_all add: starts_with_def block_def unblock_def forward_header_def)
  ultimately show ?thesis by (simp add: quota_lines_def policy_lines_def)
qed

text \<open>
  C25. Whatever configuration is submitted, a ruleset is only produced for one whose policy carries
  the approved digest and a signature of the signer it names that verifies. The forward chain then
  consists of the return rule and, per destination, a quota drop followed by two accepts, each
  matching the configured guest address going from the configured inside to the configured outside
  interface and to the controlled responder 192.168.125.10 on the destination's TCP port 8080 or
  8443; new connections are limited to the configured rate, and each destination has one quota of
  the configured size. The two interfaces differ, and no value of the configuration can break out of
  its line.
\<close>

theorem gateway_policy_confined:
  assumes "configure now1 now2 now3 H keygen dir raw = Inr (rules, meta)"
  shows "\<exists>d c g n b ds ports signer sig. raw = JObj d \<and> load_config now1 now2 raw = Inr c
     \<and> get (obj_of (get d ''approval'')) ''policy_sha256'' = JStr (H (json_compact (JObj (signed_part c))))
     \<and> get (obj_of (get d ''approval'')) ''signer_identity'' = JStr signer
     \<and> get (obj_of (get d ''approval'')) ''signature_path'' = JStr sig
     \<and> keygen signer (signature_file dir sig) (canonical_policy c)
     \<and> ipv4_of (get d ''guest_ip'') = Inr g \<and> py_int (get d ''max_connections'') = Inr n \<and> n \<in> {1 .. 1000}
     \<and> py_int (get d ''max_bytes'') = Inr b \<and> b \<in> {1024 .. 1073741824}
     \<and> interface_ok (py_str (get d ''internal_interface'')) \<and> interface_ok (py_str (get d ''external_interface''))
     \<and> \<not> py_eq (get d ''internal_interface'') (get d ''external_interface'')
     \<and> get d ''destinations'' = JList ds \<and> ds \<noteq> [] \<and> set ports \<subseteq> {8080, 8443}
     \<and> list_all2 (\<lambda>x p. \<exists>e. x = JObj e \<and> ipv4_of (get e ''ip'') = Inr (v4 192 168 125 10)
          \<and> get e ''protocol'' = JStr ''tcp'' \<and> py_int (get e ''port'') = Inr p) ds ports
     \<and> forward_chain (split_on (char_of (10 :: nat)) rules) =
         (''  iifname '' @ quoted (py_str (get d ''external_interface'')) @ '' oifname ''
            @ quoted (py_str (get d ''internal_interface'')) @ '' ip daddr '' @ ipv4_text g
            @ '' ct state established,related counter accept'')
         # concat (map2 (\<lambda>k p.
             let m = ''  iifname '' @ quoted (py_str (get d ''internal_interface'')) @ '' oifname ''
                       @ quoted (py_str (get d ''external_interface'')) @ '' ip saddr '' @ ipv4_text g
                       @ '' ip daddr 192.168.125.10 tcp dport '' @ int_str p
             in [m @ '' quota name run_quota_'' @ nat_str k @ '' counter drop'',
                 m @ '' ct state new limit rate '' @ int_str n @ ''/minute burst '' @ int_str n @ '' packets counter accept'',
                 m @ '' ct state established counter accept'']) [1 ..< Suc (length ports)] ports)
     \<and> quota_lines (split_on (char_of (10 :: nat)) rules) =
         map (\<lambda>k. '' quota run_quota_'' @ nat_str k @ '' '' @ [CHR 0x7B] @ '' over '' @ int_str b @ '' bytes '' @ [CHR 0x7D])
           [1 ..< Suc (length ports)]"
proof -
  obtain c where c: "load_config now1 now2 raw = Inr c" and v: "verify_approval H keygen dir c = Inr ()"
      and r: "rules = render c"
    using assms unfolding configure_def bind_res_Inr_iff by auto
  obtain d w ds where raw: "raw = JObj d" and w: "in_force c w"
    and names: "gw_internal w = py_str (get d ''internal_interface'')" "gw_external w = py_str (get d ''external_interface'')"
      "\<not> py_eq (get d ''internal_interface'') (get d ''external_interface'')"
    and nums: "ipv4_of (get d ''guest_ip'') = Inr (gw_guest w)" "py_int (get d ''max_connections'') = Inr (gw_connections w)"
      "py_int (get d ''max_bytes'') = Inr (gw_bytes w)"
    and app: "get c ''approval'' = get d ''approval''"
    and ds: "get d ''destinations'' = JList ds"
      "list_all2 (\<lambda>x e. \<exists>y. check_destination x = Inr y \<and> e = obj_of y) ds (destinations c)"
    by (rule load_config_origin [OF c])
  obtain signer sig where sig: "keygen signer (signature_file dir sig) (canonical_policy c)"
      "get (obj_of (get d ''approval'')) ''policy_sha256'' = JStr (H (json_compact (JObj (signed_part c))))"
      "get (obj_of (get d ''approval'')) ''signer_identity'' = JStr signer"
      "get (obj_of (get d ''approval'')) ''signature_path'' = JStr sig"
    using v by (auto simp: verify_approval_def Let_def app split: if_splits pyval.splits)
  define ports where "ports = map (\<lambda>e. case get e ''port'' of JInt p \<Rightarrow> p | _ \<Rightarrow> 0) (destinations c)"
  have origin: "list_all2 (\<lambda>x p. \<exists>e. x = JObj e \<and> ipv4_of (get e ''ip'') = Inr (v4 192 168 125 10)
          \<and> get e ''protocol'' = JStr ''tcp'' \<and> py_int (get e ''port'') = Inr p) ds ports"
    unfolding ports_def list_all2_map2 controlled_responder_def [symmetric]
    by (rule list_all2_mono [OF ds(2)]) (use check_destination_origin in fastforce)
  have dest: "destination_lines c w ports" unfolding ports_def by (rule destination_lines_policy [OF w])
  have len: "length ports = length (destinations c)" by (simp add: ports_def)
  have ne: "ds \<noteq> []" using w ds(2) by (auto simp: in_force_def)
  have lims: "gw_connections w \<in> {1 .. 1000}" "gw_bytes w \<in> {1024 .. 1073741824}"
    "interface_ok (gw_internal w)" "interface_ok (gw_external w)"
    using w by (simp_all add: in_force_def)
  have fwd: "forward_chain (split_on (char_of (10 :: nat)) rules) = forward_rules c"
    "quota_lines (split_on (char_of (10 :: nat)) rules) = quota_rules c"
    by (simp_all only: r render_lines [OF w] forward_chain_policy quota_lines_policy)
  have quota: "quota_rules c = map (\<lambda>k. '' quota run_quota_'' @ nat_str k @ '' '' @ [CHR 0x7B] @ '' over ''
      @ int_str (gw_bytes w) @ '' bytes '' @ [CHR 0x7D]) [1 ..< Suc (length ports)]"
    using w by (simp add: quota_rules_def len block_def unblock_def in_force_def newline_char)
  show ?thesis
    unfolding fwd quota
    using raw c sig nums lims names(3) ds(1) ne origin dest [unfolded destination_lines_def names] unfolding names
    by blast
qed

text \<open>
  An in_force configuration is in force: its expiry is an instant with a zone after the first
  and at most a day after the second reading of the clock, it admits between 1 and 1000 new
  connections a minute and between 1 KiB and 1 GiB per destination, and the ruleset has one quota
  of exactly that size for every destination.
\<close>

theorem gateway_config_limits:
  assumes "load_config now1 now2 raw = Inr c"
  shows "\<exists>t s n b.
     get (obj_of raw) ''expires_at_utc'' = JStr s \<and> parse_iso s = Some t \<and> aware t
     \<and> instant now1 < instant t \<and> instant t \<le> instant now2 + 86400 * 10 ^ 6
     \<and> get c ''max_connections'' = JInt n \<and> n \<in> {1 .. 1000}
     \<and> get c ''max_bytes'' = JInt b \<and> b \<in> {1024 .. 1073741824}
     \<and> quota_rules c = map (\<lambda>k. '' quota run_quota_'' @ nat_str k @ '' '' @ [char_of (123 :: nat)] @ '' over ''
           @ int_str b @ '' bytes '' @ [char_of (125 :: nat)]) [1 ..< Suc (length (destinations c))]"
proof -
  obtain c0 t where h: "check_head raw = Inr c0" and e: "expiry_of now1 now2 (get c0 ''expires_at_utc'') = Inr t"
    using assms unfolding load_config_def bind_res_Inr_iff by blast
  have c0: "c0 = obj_of raw"
    using h by (auto simp: check_head_def Let_def split: if_splits option.splits)
  obtain s where s: "get c0 ''expires_at_utc'' = JStr s" "parse_iso s = Some t" "aware t" "instant now1 < instant t"
      "\<not> 86400 < total_seconds (instant t - instant now2)"
    using e by (auto simp: expiry_of_def split: pyval.splits option.splits if_splits)
  have day: "instant t \<le> instant now2 + 86400 * 10 ^ 6"
  proof (rule ccontr)
    assume "\<not> ?thesis"
    then have "total_seconds 86400000001 \<le> total_seconds (instant t - instant now2)"
      by (intro total_seconds_mono) simp
    moreover have "86400 < total_seconds 86400000001" by code_simp
    ultimately show False using s(5) by simp
  qed
  obtain w where w: "in_force c w" using load_config_accepted [OF assms] by blast
  then have "quota_rules c = map (\<lambda>k. '' quota run_quota_'' @ nat_str k @ '' '' @ [char_of (123 :: nat)] @ '' over ''
           @ int_str (gw_bytes w) @ '' bytes '' @ [char_of (125 :: nat)]) [1 ..< Suc (length (destinations c))]"
    by (simp add: quota_rules_def block_def unblock_def in_force_def)
  with w s(1-4) day show ?thesis
    by (intro exI [of _ t] exI [of _ s] exI [of _ "gw_connections w"] exI [of _ "gw_bytes w"])
      (simp add: in_force_def c0)
qed

lemma get_signed: "k \<noteq> ''approval'' \<Longrightarrow> \<not> starts_with k ''_'' \<Longrightarrow> get (signed_part c) k = get c k"
  by (induction c) (auto simp: signed_part_def split: if_splits)

text \<open>
  Everything the ruleset depends on is covered by the signature: rendering reads nothing of a
  configuration but its signed part.
\<close>

theorem render_reads_signed_part: "render (signed_part c) = render c"
proof -
  have g: "get (signed_part c) ''internal_interface'' = get c ''internal_interface''"
    "get (signed_part c) ''external_interface'' = get c ''external_interface''"
    "get (signed_part c) ''guest_ip'' = get c ''guest_ip''" "get (signed_part c) ''dns'' = get c ''dns''"
    "get (signed_part c) ''max_connections'' = get c ''max_connections''"
    "get (signed_part c) ''max_bytes'' = get c ''max_bytes''"
    "get (signed_part c) ''destinations'' = get c ''destinations''"
    by (simp_all add: get_signed starts_with_def)
  then have d: "destinations (signed_part c) = destinations c" by (simp add: destinations_def)
  have "guest_match (signed_part c) = guest_match c" "return_rule (signed_part c) = return_rule c"
    by (rule ext) (simp_all add: guest_match_def return_rule_def g)
  moreover from this have "destination_rules (signed_part c) = destination_rules c"
    by (intro ext) (simp add: destination_rules_def g)
  moreover have "input_rules (signed_part c) = input_rules c" "nat_rules (signed_part c) = nat_rules c"
      "quota_rules (signed_part c) = quota_rules c"
    by (simp_all add: input_rules_def nat_rules_def quota_rules_def g d)
  ultimately show ?thesis by (simp add: render_def policy_lines_def forward_rules_def d)
qed

text \<open>A run that reaches the responder's HTTPS port for an hour.\<close>

definition sample_run_config :: pyval where
  "sample_run_config = JObj
     [(''run_id'', JStr ''run-7''), (''internal_interface'', JStr ''eth1''), (''external_interface'', JStr ''eth0''),
      (''guest_ip'', JStr ''10.66.0.20''),
      (''destinations'', JList [JObj [(''ip'', JStr ''192.168.125.10''), (''protocol'', JStr ''tcp''), (''port'', JStr ''8443'')]]),
      (''expires_at_utc'', JStr ''1970-01-01T01:00:00Z''), (''max_connections'', JInt 5), (''max_bytes'', JInt 4096),
      (''approval'', JObj [(''approval_id'', JStr ''a1''), (''signer_identity'', JStr ''ops''),
         (''policy_sha256'', JStr ''00''), (''signature_path'', JStr ''run.sig'')])]"

lemma sample_run_accepted: "\<exists>c. load_config (utc_of 0) (utc_of 0) sample_run_config = Inr c"
proof -
  have "\<not> isl (load_config (utc_of 0) (utc_of 0) sample_run_config)" by code_simp
  then show ?thesis by (cases "load_config (utc_of 0) (utc_of 0) sample_run_config") simp_all
qed

lemma sample_run_configured:
  "\<exists>rules meta. configure (utc_of 0) (utc_of 0) (utc_of 0) (\<lambda>_. ''00'') (\<lambda>_ _ _. True) ''/srv'' sample_run_config
     = Inr (rules, meta)"
proof -
  let ?r = "bind_res (load_config (utc_of 0) (utc_of 0) sample_run_config)
     (\<lambda>c. verify_approval (\<lambda>_. ''00'') (\<lambda>_ _ _. True) ''/srv'' c)"
  have "\<not> isl ?r" by code_simp
  then obtain c where "load_config (utc_of 0) (utc_of 0) sample_run_config = Inr c"
      "verify_approval (\<lambda>_. ''00'') (\<lambda>_ _ _. True) ''/srv'' c = Inr ()"
    by (cases ?r) (auto simp: bind_res_Inr_iff)
  then show ?thesis by (simp add: configure_def)
qed

theorem gateway_policy_witness:
  "\<exists>rules meta ports. configure (utc_of 0) (utc_of 0) (utc_of 0) (\<lambda>_. ''00'') (\<lambda>_ _ _. True) ''/srv'' sample_run_config
     = Inr (rules, meta)
   \<and> length (forward_chain (split_on (char_of (10 :: nat)) rules)) = Suc (3 * length ports)
   \<and> ports \<noteq> [] \<and> set ports \<subseteq> {8080 :: int, 8443}"
proof -
  obtain rules meta where r: "configure (utc_of 0) (utc_of 0) (utc_of 0) (\<lambda>_. ''00'') (\<lambda>_ _ _. True) ''/srv''
      sample_run_config = Inr (rules, meta)"
    using sample_run_configured by blast
  have len: "length (concat (map2 (\<lambda>k p. [f k p, g k p, h k p]) ks ps)) = 3 * min (length ks) (length ps)"
    for f g h :: "nat \<Rightarrow> int \<Rightarrow> string" and ks ps
    by (induction ks ps rule: list_induct2') simp_all
  from gateway_policy_confined [OF r] r show ?thesis
    by (auto simp: Let_def len simp del: upt_Suc)
qed

theorem gateway_limits_witness:
  "\<exists>c n. load_config (utc_of 0) (utc_of 0) sample_run_config = Inr c
     \<and> get c ''max_connections'' = JInt n \<and> n \<in> {1 .. 1000}"
  using sample_run_accepted gateway_config_limits by blast

end
