(* ===== verification/PyBytes.thy ===== *)
theory PyBytes
  imports PyStr "HOL-Library.Word"
begin

text \<open>
  Python's \<open>bytes\<close> as lists of 8-bit words: decoding to text, indexing and \<open>struct.unpack\<close> with
  their exceptions, and the big- and little-endian numbers the network formats are made of.
\<close>

type_synonym bytes = "8 word list"

section \<open>Text\<close>

definition byte_char :: "8 word \<Rightarrow> char" where
  "byte_char b = char_of (unat b)"

definition char_byte :: "char \<Rightarrow> 8 word" where
  "char_byte c = of_nat (of_char c)"

text \<open>
  \<open>bytes.decode("ascii", "ignore")\<close> drops every byte from 128 on; \<open>decode("latin-1")\<close> keeps all.
  A latin-1 text is kept as its code points, one character each.
\<close>

definition ascii_text :: "bytes \<Rightarrow> string" where
  "ascii_text bs = map byte_char (filter (\<lambda>b. b < 128) bs)"

definition latin1 :: "bytes \<Rightarrow> string" where
  "latin1 bs = map byte_char bs"

text \<open>
  \<open>strip\<close> of a latin-1 text also removes the code points 0x85 and 0xA0; \<open>split("\r\n")\<close>; and
  the part after the first colon.
\<close>

definition space1 :: "char \<Rightarrow> bool" where
  "space1 c \<longleftrightarrow> is_space c \<or> (of_char c :: nat) = 0x85 \<or> (of_char c :: nat) = 0xA0"

definition strip_by :: "(char \<Rightarrow> bool) \<Rightarrow> string \<Rightarrow> string" where
  "strip_by P s = rev (dropWhile P (rev (dropWhile P s)))"

fun split_crlf :: "string \<Rightarrow> string list" where
  "split_crlf (c # d # s) =
     (if c = CHR 0x0D \<and> d = CHR 0x0A then [] # split_crlf s
      else case split_crlf (d # s) of [] \<Rightarrow> [[c]] | p # ps \<Rightarrow> (c # p) # ps)"
| "split_crlf s = [s]"

definition after_colon :: "string \<Rightarrow> string" where
  "after_colon s = (case split_once (CHR '':'') s of Some (_, r) \<Rightarrow> r | None \<Rightarrow> [])"

section \<open>Numbers\<close>

definition be_value :: "bytes \<Rightarrow> nat" where
  "be_value bs = foldl (\<lambda>n b. 256 * n + unat b) 0 bs"

definition le_value :: "bytes \<Rightarrow> nat" where
  "le_value bs = be_value (rev bs)"

fun be_bytes :: "nat \<Rightarrow> nat \<Rightarrow> bytes" where
  "be_bytes 0 k = []"
| "be_bytes (Suc n) k = be_bytes n (k div 256) @ [of_nat (k mod 256)]"

definition le_bytes :: "nat \<Rightarrow> nat \<Rightarrow> bytes" where
  "le_bytes n k = rev (be_bytes n k)"

definition slice :: "nat \<Rightarrow> nat \<Rightarrow> 'a list \<Rightarrow> 'a list" where
  "slice i n b = take n (drop i b)"

text \<open>\<open>b[i]\<close> and \<open>struct.unpack(">H", b[i:i + 2])[0]\<close>.\<close>

definition byte_at :: "bytes \<Rightarrow> nat \<Rightarrow> nat res" where
  "byte_at b i = (if i < length b then Inr (unat (b ! i)) else Inl IndexError)"

definition u16 :: "bytes \<Rightarrow> nat \<Rightarrow> nat res" where
  "u16 b i = (if length (slice i 2 b) = 2 then Inr (be_value (slice i 2 b)) else Inl StructError)"

text \<open>\<open>[_u16(b, i) for i in range(start, start + n, 2)]\<close>.\<close>

definition u16_list :: "bytes \<Rightarrow> nat \<Rightarrow> nat \<Rightarrow> nat list res" where
  "u16_list b start n = map_res (\<lambda>k. u16 b (start + 2 * k)) [0..<(n + 1) div 2]"

section \<open>Lemmas\<close>

lemma length_be_bytes [simp]: "length (be_bytes n k) = n"
  by (induction n k rule: be_bytes.induct) simp_all

lemma length_le_bytes [simp]: "length (le_bytes n k) = n"
  by (simp add: le_bytes_def)

lemma be_value_snoc: "be_value (bs @ [b]) = 256 * be_value bs + unat b"
  by (simp add: be_value_def)

lemma be_value_bytes [simp]: "k < 256 ^ n \<Longrightarrow> be_value (be_bytes n k) = k"
proof (induction n k rule: be_bytes.induct)
  case (2 n k)
  have "k div 256 < 256 ^ n" using "2.prems" by (simp add: div_less_iff_less_mult mult.commute)
  then have "be_value (be_bytes n (k div 256)) = k div 256" by (rule "2.IH")
  then show ?case by (simp add: be_value_snoc unat_of_nat)
qed (simp add: be_value_def)

lemma le_value_bytes [simp]: "k < 256 ^ n \<Longrightarrow> le_value (le_bytes n k) = k"
  by (simp add: le_value_def le_bytes_def)

lemma be_value_one [simp]: "be_value [b] = unat b"
  by (simp add: be_value_def)

lemma be_value_bound: "be_value bs < 256 ^ length bs"
proof (induction bs rule: rev_induct)
  case (snoc b bs)
  have "unat b < 256" using unsigned_less [of b, where ?'a = nat] by simp
  with snoc show ?case by (simp add: be_value_snoc)
qed (simp add: be_value_def)

text \<open>Reading what stands behind a known prefix.\<close>

lemma slice_append [simp]: "slice (length p) n (p @ q) = take n q"
  by (simp add: slice_def)

lemma slice_at: "length p = i \<Longrightarrow> length m = n \<Longrightarrow> slice i n (p @ m @ r) = m"
  by (simp add: slice_def)

lemma nth_at: "length p = i \<Longrightarrow> (p @ b # r) ! i = b"
  by auto

lemma u16_at: "length p = i \<Longrightarrow> k < 65536 \<Longrightarrow> u16 (p @ be_bytes 2 k @ r) i = Inr k"
  by (simp add: u16_def slice_at del: be_bytes.simps)

lemma byte_at_at: "length p = i \<Longrightarrow> byte_at (p @ b # r) i = Inr (unat b)"
  by (auto simp: byte_at_def nth_append)

lemma unat_byte: "n < 256 \<Longrightarrow> unat (of_nat n :: 8 word) = n"
  by (simp add: unat_of_nat)

lemma byte_char_byte: "(of_char c :: nat) < 128 \<Longrightarrow> char_byte c < 128 \<and> byte_char (char_byte c) = c"
  by (simp add: byte_char_def char_byte_def word_less_nat_alt unat_of_nat)

lemma ascii_text_bytes: "\<forall>c \<in> set s. (of_char c :: nat) < 128 \<Longrightarrow> ascii_text (map char_byte s) = s"
  by (auto simp: ascii_text_def byte_char_byte filter_map o_def intro!: map_idI)

definition bytes16 :: "nat list \<Rightarrow> bytes" where
  "bytes16 ks = concat (map (be_bytes 2) ks)"

lemma length_bytes16 [simp]: "length (bytes16 ks) = 2 * length ks"
  by (induction ks) (simp_all add: bytes16_def del: be_bytes.simps)

lemma u16_list_bytes:
  assumes "length p = i" "\<forall>k \<in> set ks. k < 65536"
  shows "u16_list (p @ bytes16 ks @ r) i (2 * length ks) = Inr ks"
proof -
  have "map_res (\<lambda>k. u16 (p @ bytes16 ks @ r) (i + 2 * k)) [0..<length ks] = Inr ks"
    using assms
  proof (induction ks arbitrary: r rule: rev_induct)
    case (snoc k ks)
    have "u16 ((p @ bytes16 ks) @ be_bytes 2 k @ r) (i + 2 * length ks) = Inr k"
      by (rule u16_at) (use snoc.prems in simp_all)
    moreover have "map_res (\<lambda>j. u16 (p @ bytes16 ks @ be_bytes 2 k @ r) (i + 2 * j)) [0..<length ks] = Inr ks"
      using snoc by simp
    ultimately show ?case by (simp add: map_res_append bytes16_def del: be_bytes.simps)
  qed simp
  then show ?thesis by (simp add: u16_list_def)
qed

section \<open>Names on the wire\<close>

text \<open>A DNS name: each label behind its length, then a zero byte.\<close>

fun encode_name :: "string list \<Rightarrow> bytes" where
  "encode_name [] = [0]"
| "encode_name (l # ls) = of_nat (length l) # map char_byte l @ encode_name ls"

definition label_ok :: "string \<Rightarrow> bool" where
  "label_ok l \<longleftrightarrow> l \<noteq> [] \<and> length l < 256 \<and> (\<forall>c \<in> set l. (of_char c :: nat) < 128)"

lemma ascii_text_label: "label_ok l \<Longrightarrow> ascii_text (map char_byte l) = l"
  by (simp add: label_ok_def ascii_text_bytes)

end
