(* ===== verification/Responder.thy ===== *)
theory Responder
  imports PyNum Json PyBytes
begin

text \<open>
  The controlled responder (\<open>responder/controlled_responder.py\<close>): the DNS answer to a query packet,
  over 8-bit words, its TCP framing, and the HTTP handler's receipts. Sockets, TLS and threads are
  outside; the JSON decoder, SHA-256, the signing tool and the clock are parameters.
\<close>

section \<open>DNS\<close>

text \<open>
  The label loop: \<open>i\<close> is the index of a length byte; the result is the labels and the index where
  the loop stops, at a zero byte or past the end.
\<close>

function read_labels :: "bytes \<Rightarrow> nat \<Rightarrow> string list \<times> nat" where
  "read_labels q i =
     (if i < length q \<and> q ! i \<noteq> 0
      then let size = unat (q ! i); (ls, j) = read_labels q (i + size + 1)
           in (ascii_text (take size (drop (i + 1) q)) # ls, j)
      else ([], i))"
  by pat_completeness auto
termination
  by (relation "measure (\<lambda>(q, i). length q - i)") auto

declare read_labels.simps [simp del]

definition fixture_name :: string where "fixture_name = ''validation.winstdt.test''"

definition answer_record :: bytes where
  "answer_record = [0xC0, 0x0C, 0, 1, 0, 1, 0, 0, 0, 0x1E, 0, 4, 192, 168, 125, 10]"

definition dns_response :: "bytes \<Rightarrow> bytes" where
  "dns_response q =
     (if length q < 12 then []
      else let (labels, i) = read_labels q 12; e = i + 5;
               question = take (e - 12) (drop 12 q); id = take 2 q; count = take 2 (drop 4 q)
        in if length q < e \<or> str_lower (join ''.'' labels) \<noteq> fixture_name
           then id @ [0x81, 0x83] @ count @ [0, 0, 0, 0, 0, 0] @ question
           else id @ [0x81, 0x80] @ count @ [0, 1, 0, 0, 0, 0] @ question @ answer_record)"

text \<open>
  \<open>serve_dns_tcp\<close>: the two length bytes, then as much of the query as one read returns; the answer
  is framed the same way (\<open>struct.pack\<close> raises beyond 65535 bytes).
\<close>

definition frame :: "bytes \<Rightarrow> bytes option" where
  "frame r = (if length r < 65536 then Some (of_nat (length r div 256) # of_nat (length r mod 256) # r) else None)"

definition tcp_reply :: "bytes \<Rightarrow> bytes \<Rightarrow> bytes option" where
  "tcp_reply len rest =
     (case len of
        [a, b] \<Rightarrow> frame (dns_response (take (unat a * 256 + unat b) rest))
      | _ \<Rightarrow> None)"

section \<open>Receipts\<close>

definition marker :: string where "marker = ''WINSTDT-CONTROLLED-CANARY/1''"

definition request_fields :: "string list" where
  "request_fields = [''marker'', ''run_id'', ''sequence'', ''canary'']"

record responder_env =
  re_load :: "string \<Rightarrow> pyval res"
  re_hash :: "string \<Rightarrow> string"
  re_sign :: "string \<Rightarrow> string option"
  re_now :: string

text \<open>\<open>json.dumps(value, sort_keys=True, separators=(",", ":"))\<close> of a flat dictionary.\<close>

definition canonical :: "(string \<times> pyval) list \<Rightarrow> string" where
  "canonical d = [char_of (123 :: nat)]
     @ join '','' (map (\<lambda>(k, t). json_string k @ '':'' @ t) (sort_key fst (map (\<lambda>(k, v). (k, json_dumps v)) d)))
     @ [char_of (125 :: nat)]"

text \<open>\<open>set(request) != \{...\}\<close>: the keys of a dictionary, the elements of a list, the characters of a string.\<close>

definition key_set :: "pyval \<Rightarrow> pyval list res" where
  "key_set v =
     bind_res (items_of v) (\<lambda>xs.
       if list_all hashable xs then Inr xs else Inl (TypeError ''unhashable type''))"

definition sequence_ok :: "pyval \<Rightarrow> bool" where
  "sequence_ok v =
     (case v of
        JInt k \<Rightarrow> k \<in> {1, 2, 3}
      | JFloat x \<Rightarrow> x \<in> {1, 2, 3}
      | JBool b \<Rightarrow> b
      | _ \<Rightarrow> False)"

definition check_request :: "pyval \<Rightarrow> unit res" where
  "check_request r =
     bind_res (key_set r) (\<lambda>ks.
     bind_res (check (set ks = JStr ` set request_fields) (ValueError ''unexpected fields'')) (\<lambda>_.
     bind_res (item r ''marker'') (\<lambda>m.
     if m \<noteq> JStr marker then Inl (ValueError ''invalid controlled request'')
     else bind_res (item r ''sequence'') (\<lambda>s.
       check (sequence_ok s) (ValueError ''invalid controlled request'')))))"

definition receipt_of :: "responder_env \<Rightarrow> string \<Rightarrow> pyval \<Rightarrow> (string \<times> pyval) list" where
  "receipt_of en body r =
     [(''schema_version'', JStr ''1.0''), (''run_id'', JStr (py_str (get (obj_of r) ''run_id''))),
      (''sequence'', get (obj_of r) ''sequence''), (''request_sha256'', JStr (re_hash en body)),
      (''canary_sha256'', JStr (re_hash en (py_str (get (obj_of r) ''canary'')))),
      (''received_at_utc'', JStr (re_now en))]"

datatype reply = Ok string | BadRequest | NotFound

text \<open>
  \<open>do_POST\<close> for a content-length header, the request stream and the log: \<open>ValueError\<close> and a failing
  signature are answered with 400, any other error aborts the connection (\<open>Inl\<close>).
\<close>

definition do_post ::
    "responder_env \<Rightarrow> string \<Rightarrow> string \<Rightarrow> string \<Rightarrow> string list \<Rightarrow> (reply \<times> string list) res" where
  "do_post en content_length stream peer entries =
     (let attempt =
        bind_res (py_int (JStr content_length)) (\<lambda>n.
        bind_res (check (1 \<le> n \<and> n \<le> 16384) (ValueError ''invalid body length'')) (\<lambda>_.
        let body = take (nat n) stream in
        bind_res (re_load en body) (\<lambda>r.
        bind_res (check_request r) (\<lambda>_.
        let receipt = receipt_of en body r in
        case re_sign en (canonical receipt) of
          None \<Rightarrow> Inl (ValueError ''signing failed'')
        | Some sig \<Rightarrow>
            let signed = receipt @ [(''signature'', JStr sig)] in
            Inr (Ok (canonical signed @ [char_of (10 :: nat)]),
                 entries @ [json_dumps (JObj (dict_set ''source_ip'' (JStr peer) signed)) @ [char_of (10 :: nat)]])))))
      in case attempt of
           Inr r \<Rightarrow> Inr r
         | Inl (ValueError m) \<Rightarrow> Inr (BadRequest, entries)
         | Inl e \<Rightarrow> Inl e)"

definition do_get :: "string \<Rightarrow> string \<Rightarrow> string list \<Rightarrow> reply" where
  "do_get path peer entries =
     (if path \<noteq> ''/receipts'' \<or> peer \<noteq> ''192.168.125.1'' then NotFound else Ok (concat entries))"

section \<open>Lemmas\<close>

lemma read_labels_encoded:
  assumes "list_all label_ok ls"
  shows "read_labels (p @ encode_name ls @ r) (length p) = (ls, length p + length (encode_name ls) - 1)"
  using assms
proof (induction ls arbitrary: p)
  case Nil
  show ?case by (simp add: read_labels.simps [of _ "length p"] nth_append)
next
  case (Cons l ls)
  let ?q = "p @ encode_name (l # ls) @ r"
  have here: "?q ! length p = of_nat (length l)" "length p < length ?q" by (simp_all add: nth_append)
  have size: "unat (of_nat (length l) :: 8 word) = length l" "(of_nat (length l) :: 8 word) \<noteq> 0"
  proof -
    show "unat (of_nat (length l) :: 8 word) = length l"
      using Cons.prems by (simp add: label_ok_def unat_of_nat)
    then show "(of_nat (length l) :: 8 word) \<noteq> 0" using Cons.prems by (auto simp: label_ok_def)
  qed
  have "read_labels ?q (length p + length l + 1) =
      read_labels ((p @ of_nat (length l) # map char_byte l) @ encode_name ls @ r)
        (length (p @ of_nat (length l) # map char_byte l))"
    by simp
  also have "\<dots> = (ls, length p + length l + 1 + length (encode_name ls) - 1)"
    using Cons.IH [of "p @ of_nat (length l) # map char_byte l"] Cons.prems by simp
  finally have rest: "read_labels ?q (length p + length l + 1) = \<dots>" .
  have label: "ascii_text (take (length l) (drop (length p + 1) ?q)) = l"
    using Cons.prems ascii_text_label [of l] by simp
  show ?case
    unfolding read_labels.simps [of ?q "length p"] here(1) size(1)
    using here(2) size(2) rest label by (simp add: Let_def)
qed

section \<open>Properties\<close>

text \<open>
  A well-formed query is answered with its own identifier, question count and question: the
  fixture's name in any case, and no other name, gets the one address record of the responder.
\<close>

theorem dns_response_exact:
  assumes "length hdr = 12" "list_all label_ok ls" "length qt = 4"
  shows "dns_response (hdr @ encode_name ls @ qt @ extra) =
     (if str_lower (join ''.'' ls) = ''validation.winstdt.test''
      then take 2 hdr @ [0x81, 0x80] @ take 2 (drop 4 hdr) @ [0, 1, 0, 0, 0, 0] @ encode_name ls @ qt
           @ [0xC0, 0x0C, 0, 1, 0, 1, 0, 0, 0, 0x1E, 0, 4, 192, 168, 125, 10]
      else take 2 hdr @ [0x81, 0x83] @ take 2 (drop 4 hdr) @ [0, 0, 0, 0, 0, 0] @ encode_name ls @ qt)"
proof -
  let ?q = "hdr @ encode_name ls @ qt @ extra"
  have len: "0 < length (encode_name ls)" by (cases ls) simp_all
  have labels: "read_labels ?q 12 = (ls, 12 + length (encode_name ls) - 1)"
    using read_labels_encoded [OF assms(2), of hdr "qt @ extra"] assms(1) by simp
  define e where "e = 12 + length (encode_name ls) - 1 + 5"
  have e: "e = 12 + length (encode_name ls @ qt)" using len assms(3) by (simp add: e_def)
  have "take (e - 12) (drop 12 ?q) = encode_name ls @ qt" using assms(1) by (simp add: e)
  moreover have "\<not> length ?q < e" using assms(1) by (simp add: e)
  moreover have "take 2 ?q = take 2 hdr" "take 2 (drop 4 ?q) = take 2 (drop 4 hdr)" "\<not> length ?q < 12"
    using assms(1) by simp_all
  ultimately show ?thesis
    unfolding dns_response_def Let_def labels prod.case e_def [symmetric] fixture_name_def answer_record_def
    by (cases "str_lower (join ''.'' ls) = ''validation.winstdt.test''") (simp_all only: if_False if_True simp_thms append_assoc append_Cons append_Nil)
qed

text \<open>
  Whatever bytes arrive, the responder neither reads past the query nor amplifies it: short
  packets are dropped, and any reply is at most 16 bytes longer than the query, repeats its
  identifier, and carries an answer only when it says so, and then the responder's own address.
\<close>

theorem dns_response_bounded:
  "if length q < 12 then dns_response q = []
   else length (dns_response q) \<le> length q + 16 \<and> take 2 (dns_response q) = take 2 q
     \<and> (take 2 (drop 2 (dns_response q)) = [0x81, 0x83] \<and> take 2 (drop 6 (dns_response q)) = [0, 0]
        \<or> take 2 (drop 2 (dns_response q)) = [0x81, 0x80] \<and> take 2 (drop 6 (dns_response q)) = [0, 1]
          \<and> (\<exists>body. dns_response q = body @ answer_record))"
proof (cases "length q < 12")
  case False
  obtain ls i where l: "read_labels q 12 = (ls, i)" by fastforce
  have c: "length (take 2 q) = 2" "length (take 2 (drop 4 q)) = 2" using False by simp_all
  have two: "\<exists>a b. xs = [a, b]" if "length xs = 2" for xs :: bytes
    using that by (cases xs rule: remdups_adj.cases) auto
  from two [OF c(1)] obtain a b where ab: "take 2 q = [a, b]" by blast
  from two [OF c(2)] obtain u v where uv: "take 2 (drop 4 q) = [u, v]" by blast
  have len: "length (take (i + 5 - 12) (drop 12 q)) \<le> length q - 12" by simp
  show ?thesis
    using False len unfolding dns_response_def Let_def l prod.case ab uv
    by (auto simp: answer_record_def)
qed (simp add: dns_response_def)

lemma sequence_ok_values:
  "sequence_ok v \<longleftrightarrow> v \<in> {JInt 1, JInt 2, JInt 3, JFloat 1, JFloat 2, JFloat 3, JBool True}"
  by (cases v) (auto simp: sequence_ok_def)

lemma check_request_accepts:
  assumes "check_request r = Inr ()"
  shows "\<exists>d. r = JObj d \<and> set (map fst d) = {''marker'', ''run_id'', ''sequence'', ''canary''}
     \<and> get d ''marker'' = JStr ''WINSTDT-CONTROLLED-CANARY/1'' \<and> sequence_ok (get d ''sequence'')"
proof -
  obtain ks m s where ks: "key_set r = Inr ks" "set ks = JStr ` set request_fields"
      and m: "item r ''marker'' = Inr m" "m = JStr marker" and s: "item r ''sequence'' = Inr s" "sequence_ok s"
    using assms unfolding check_request_def bind_res_Inr_iff check_Inr by (auto simp: bind_res_Inr_iff split: if_splits)
  obtain d where d: "r = JObj d" using m(1) by (cases r) (auto simp: item_def)
  have "ks = map JStr (map fst d)" using ks(1) by (simp add: key_set_def d split: if_splits)
  then have "JStr ` set (map fst d) = JStr ` set request_fields" using ks(2) by (simp add: image_image)
  then have "set (map fst d) = set request_fields" by (subst (asm) inj_image_eq_iff) (auto simp: inj_def)
  moreover have "get d ''marker'' = JStr marker" "sequence_ok (get d ''sequence'')"
    using m s by (auto simp: d get_def split: option.splits)
  ultimately show ?thesis unfolding request_fields_def marker_def list.set by (auto simp: d)
qed


section \<open>Concrete packets and requests\<close>

definition sample_labels :: "string list" where "sample_labels = [''Validation'', ''winstdt'', ''test'']"

theorem dns_response_witness:
  "dns_response (replicate 12 7 @ encode_name sample_labels @ [0, 1, 0, 1])
     = [7, 7, 0x81, 0x80, 7, 7, 0, 1, 0, 0, 0, 0] @ encode_name sample_labels @ [0, 1, 0, 1] @ answer_record"
proof -
  have "list_all label_ok sample_labels" by code_simp
  moreover have "str_lower (join ''.'' sample_labels) = ''validation.winstdt.test''" by code_simp
  ultimately show ?thesis
    using dns_response_exact [of "replicate 12 7" sample_labels "[0, 1, 0, 1]" "[]"]
    by (simp add: answer_record_def eval_nat_numeral)
qed

definition sample_request :: "(string \<times> pyval) list" where
  "sample_request = [(''marker'', JStr marker), (''run_id'', JStr ''run-7''), (''sequence'', JInt 1), (''canary'', JStr ''c'')]"

definition sample_responder :: responder_env where
  "sample_responder = \<lparr>re_load = (\<lambda>_. Inr (JObj sample_request)), re_hash = id, re_sign = (\<lambda>_. Some ''sig''),
     re_now = ''2026-02-03T16:00:00Z''\<rparr>"

lemma sample_request_accepted: "check_request (JObj sample_request) = Inr ()"
  by code_simp


end
