(* ===== verification/Report.thy ===== *)
theory Report
  imports Evidence
begin

text \<open>
  What the orchestrator's last stages report about a case: the merged host and network timeline
  (\<open>pipeline/timeline.py\<close>), item-level provenance (\<open>pipeline/provenance.py\<close>) and the attribution
  to malware families (\<open>pipeline/family_attribution.py\<close>). They only read the findings.
\<close>

section \<open>Timeline\<close>

definition phases :: "(string \<times> string) list" where
  "phases =
     [(''T1555'', ''collection''), (''T1555.003'', ''collection''), (''T1056.001'', ''collection''),
      (''T1113'', ''collection''), (''T1115'', ''collection''), (''T1005'', ''collection''),
      (''T1082'', ''discovery''), (''T1074'', ''collection''),
      (''T1041'', ''exfiltration''), (''T1048'', ''exfiltration''), (''T1048.003'', ''exfiltration''),
      (''T1567'', ''exfiltration''), (''T1567.002'', ''exfiltration''), (''T1071.004'', ''exfiltration''),
      (''T1071.001'', ''command-and-control''), (''T1571'', ''command-and-control''),
      (''T1573'', ''command-and-control''), (''T1095'', ''command-and-control''),
      (''T1568.002'', ''command-and-control''), (''T1105'', ''staging''), (''T1572'', ''exfiltration'')]"

definition phase_of :: "string option \<Rightarrow> string \<Rightarrow> string" where
  "phase_of tech dflt = (case Option.bind tech (map_of phases) of Some p \<Rightarrow> p | None \<Rightarrow> dflt)"

record timeline_entry =
  tm_timestamp :: string
  tm_actor :: string
  tm_phase :: string
  tm_mitre :: "string option"
  tm_description :: string
  tm_tier :: "tier option"

text \<open>\<open>getattr(a, f, None) or ...\<close>: an attribute of a validated event, where an empty text is falsy.\<close>

fun stamp_text :: "access \<Rightarrow> string" where
  "stamp_text (RawAccess ts dt api m) = ''None''"
| "stamp_text (EtwAccess e) =
     (if ev_raw_timestamp e \<noteq> [] then ev_raw_timestamp e else isoformat (ev_timestamp e))"

definition attr_or :: "access \<Rightarrow> string option \<Rightarrow> string option" where
  "attr_or a v = (case a of RawAccess _ _ _ _ \<Rightarrow> v | EtwAccess _ \<Rightarrow> if truthy v then v else None)"

definition host_entry :: "access \<Rightarrow> timeline_entry" where
  "host_entry a =
     (let tech = attr_or a (acc_mitre a) in
      \<lparr>tm_timestamp = stamp_text a, tm_actor = ''host'', tm_phase = phase_of tech ''collection'', tm_mitre = tech,
       tm_description = ''host accessed '' @ opt_str (attr_or a (acc_data_type a)) @ '' via ''
         @ opt_str (attr_or a (acc_api_call a)),
       tm_tier = None\<rparr>)"

definition detail :: "net_event \<Rightarrow> string option" where
  "detail e = str_or (ne_http_reason e) (str_or (ne_dns_evidence e) (str_or (ne_cloud_service e)
     (str_or (ne_covert_detail e) (ne_smtp_subject e))))"

definition net_entry :: "net_event \<Rightarrow> timeline_entry" where
  "net_entry e =
     (let tech = map_of mitre (ne_kind e); who = opt_str (str_or (ne_domain e) (Some (ne_dst_ip e))) in
      if ne_kind e = ''static_ioc''
      then \<lparr>tm_timestamp = ne_timestamp e, tm_actor = ''static'', tm_phase = ''c2-indicator'', tm_mitre = tech,
            tm_description = ''C2 in binary, not observed on network: '' @ who, tm_tier = ne_tier e\<rparr>
      else \<lparr>tm_timestamp = ne_timestamp e, tm_actor = ''network'', tm_phase = phase_of tech ''exfiltration'',
            tm_mitre = tech,
            tm_description = ne_kind e @ '' to '' @ who
              @ (if truthy (detail e) then '' ('' @ opt_str (detail e) @ '')'' else []),
            tm_tier = ne_tier e\<rparr>)"

text \<open>\<open>_dt\<close>: an unreadable time is the naive maximum.\<close>

definition datetime_max :: datetime where
  "datetime_max = \<lparr>wall = (ymd_ord 9999 12 31 - epoch_ord + 1) * day_us - 1, utcoff = None\<rparr>"

definition entry_time :: "timeline_entry \<Rightarrow> datetime" where
  "entry_time e = (case parse_iso (tm_timestamp e) of Some t \<Rightarrow> t | None \<Rightarrow> datetime_max)"

text \<open>
  Sorting compares the entries; a list with both naive and aware times needs at least one comparison
  between the two kinds, which is the \<open>TypeError\<close>.
\<close>

definition build_timeline :: "access list \<Rightarrow> net_event list \<Rightarrow> timeline_entry list res" where
  "build_timeline accs nets =
     (let es = map host_entry accs @ map net_entry nets in
      if list_all (\<lambda>e. aware (entry_time e)) es \<or> list_all (\<lambda>e. \<not> aware (entry_time e)) es
      then Inr (sort_key (\<lambda>e. instant (entry_time e)) es)
      else Inl (TypeError ''can't compare offset-naive and offset-aware datetimes''))"

definition ljust :: "nat \<Rightarrow> string \<Rightarrow> string" where
  "ljust n s = s @ replicate (n - length s) (CHR '' '')"

definition timeline_line :: "timeline_entry \<Rightarrow> string" where
  "timeline_line e =
     ''  '' @ tm_timestamp e @ ''  '' @ ljust 7 (tm_actor e) @ '' '' @ ljust 20 (tm_phase e)
     @ ljust 11 (if truthy (tm_mitre e) then '' '' @ opt_str (tm_mitre e) else []) @ '' '' @ tm_description e
     @ (case tm_tier e of None \<Rightarrow> [] | Some t \<Rightarrow> '' ['' @ tier_name t @ '']'')"

definition render_timeline :: "timeline_entry list \<Rightarrow> string" where
  "render_timeline es = join [char_of (10 :: nat)] (map timeline_line es)"

section \<open>Provenance\<close>

definition item_types :: "(string \<times> string) list" where
  "item_types =
     [(''browser_credentials'', ''credential''), (''keystrokes'', ''keystroke_log''), (''screenshot'', ''screenshot''),
      (''clipboard'', ''clipboard_data''), (''crypto_wallet'', ''crypto_wallet''), (''system_info'', ''system_info''),
      (''file_access'', ''file''), (''otp'', ''otp'')]"

definition protocols :: "(string \<times> string) list" where
  "protocols =
     [(''exfil'', ''FTP/HTTP''), (''smtp_exfil'', ''SMTP''), (''cloud_exfil'', ''HTTPS (cloud)''),
      (''cloud_staging'', ''HTTPS (cloud)''), (''dns_tunnel'', ''DNS''), (''http_c2'', ''HTTP''),
      (''ja3'', ''TLS''), (''tls_cert'', ''TLS''), (''beacon'', ''TLS/HTTP''), (''dga'', ''DNS''),
      (''icmp_tunnel'', ''ICMP''), (''port_mismatch'', ''non-standard-port''), (''static_ioc'', ''unknown'')]"

definition item_keywords :: "(string \<times> string) list" where
  "item_keywords =
     [(''otp'', ''otp''), (''2fa'', ''otp''), (''token'', ''otp''), (''password'', ''credential''),
      (''passwords'', ''credential''), (''pw_'', ''credential''), (''cred'', ''credential''),
      (''login'', ''credential''), (''cookie'', ''cookie''), (''wallet'', ''crypto_wallet''),
      (''keylog'', ''keystroke_log'')]"

record provenance =
  pv_item :: "string option"
  pv_data_type :: "string option"
  pv_via :: "string option"
  pv_accessed :: string
  pv_ip :: string
  pv_port :: int
  pv_domain :: "string option"
  pv_protocol :: string
  pv_exfiltrated :: string
  pv_delta :: pyfloat
  pv_evidence :: "string option"
  pv_inferred :: bool
  pv_tier :: tier
  pv_bytes :: int
  pv_sha256 :: "string option"
  pv_preview :: "string option"

fun first_truthy :: "string option list \<Rightarrow> string option" where
  "first_truthy [] = None"
| "first_truthy (v # vs) = (if truthy v then v else first_truthy vs)"

definition descriptor :: "net_event \<Rightarrow> string option" where
  "descriptor e = first_truthy [ne_http_uri e, ne_smtp_subject e, ne_cloud_service e, ne_dns_evidence e,
     ne_cert_reason e, ne_covert_detail e]"

fun refine_loop :: "string option \<Rightarrow> string \<Rightarrow> (string \<times> string) list \<Rightarrow> string option" where
  "refine_loop base low [] = base"
| "refine_loop base low ((kw, item) # kws) =
     (if contains kw low
      then if base \<in> {Some ''clipboard_data'', Some ''keystroke_log''} \<and> item = ''otp'' then Some ''otp''
           else if Some item = base then base else refine_loop base low kws
      else refine_loop base low kws)"

definition refine_item :: "string option \<Rightarrow> string option \<Rightarrow> string option" where
  "refine_item base d = (if truthy d then refine_loop base (str_lower (the d)) item_keywords else base)"

definition base_item :: "string option \<Rightarrow> string option" where
  "base_item dt = (case Option.bind dt (map_of item_types) of Some i \<Rightarrow> Some i | None \<Rightarrow> dt)"

text \<open>The largest recovered artifact per destination, the first of equal ones.\<close>

definition larger :: "string option \<Rightarrow> artifact option \<Rightarrow> artifact \<Rightarrow> artifact option" where
  "larger ip cur a =
     (if ar_dest_ip a \<noteq> ip then cur
      else case cur of
             None \<Rightarrow> Some a
           | Some b \<Rightarrow> if ar_total_bytes b < ar_total_bytes a then Some a else Some b)"

definition artifact_for :: "artifact list \<Rightarrow> string \<Rightarrow> artifact option" where
  "artifact_for arts ip = foldl (larger (Some ip)) None arts"

definition net_for :: "net_event list \<Rightarrow> string \<Rightarrow> int \<Rightarrow> net_event option" where
  "net_for nets ip port =
     (case find (\<lambda>e. ne_dst_ip e = ip \<and> ne_dst_port e = port) nets of
        Some e \<Rightarrow> Some e
      | None \<Rightarrow> find (\<lambda>e. ne_dst_ip e = ip) nets)"

definition provenance_of :: "net_event list \<Rightarrow> artifact list \<Rightarrow> corr_event \<Rightarrow> provenance" where
  "provenance_of nets arts c =
     (let net = net_for nets (ce_dst_ip c) (ce_dst_port c);
          kind = (case net of Some e \<Rightarrow> ne_kind e | None \<Rightarrow> ''exfil'');
          d = Option.bind net descriptor; art = artifact_for arts (ce_dst_ip c)
      in \<lparr>pv_item = refine_item (base_item (ce_data_type c)) d, pv_data_type = ce_data_type c,
          pv_via = ce_api_call c, pv_accessed = ce_access_ts c, pv_ip = ce_dst_ip c, pv_port = ce_dst_port c,
          pv_domain = Option.bind net ne_domain,
          pv_protocol = (case map_of protocols kind of Some p \<Rightarrow> p | None \<Rightarrow> ''unknown''),
          pv_exfiltrated = ce_network_ts c, pv_delta = ce_delta c, pv_evidence = d,
          pv_inferred = (case net of Some e \<Rightarrow> \<not> ne_plaintext e | None \<Rightarrow> True), pv_tier = ce_tier c,
          pv_bytes = (case art of Some a \<Rightarrow> ar_total_bytes a | None \<Rightarrow> 0),
          pv_sha256 = Option.bind art ar_sha256, pv_preview = Option.bind art ar_preview\<rparr>)"

definition build_provenance :: "corr_event list \<Rightarrow> net_event list \<Rightarrow> artifact list \<Rightarrow> provenance list" where
  "build_provenance corr nets arts = map (provenance_of nets arts) corr"

definition em_dash :: string where "em_dash = map char_of [226 :: nat, 128, 148]"
definition ellipsis :: string where "ellipsis = map char_of [226 :: nat, 128, 166]"

text \<open>Slicing a missing digest is a \<open>TypeError\<close>.\<close>

definition statement :: "provenance \<Rightarrow> string res" where
  "statement r =
     (let who = opt_str (str_or (pv_domain r) (Some (pv_ip r)));
          verb = (if pv_inferred r then ''was (inferred to be) exfiltrated'' else ''was exfiltrated'');
          via = (if truthy (pv_via r) then '' via '' @ opt_str (pv_via r) else []);
          line = (\<lambda>recovered. opt_str (pv_item r) @ via @ '' at '' @ pv_accessed r @ '' '' @ verb @ '' to '' @ who
            @ '' over '' @ pv_protocol r @ '' at '' @ pv_exfiltrated r @ '' (+'' @ float_repr (pv_delta r) @ ''s) [''
            @ tier_name (pv_tier r) @ '']'' @ recovered)
      in if pv_bytes r = 0 then Inr (line [])
         else case pv_sha256 r of
                None \<Rightarrow> Inl (TypeError ''NoneType object is not subscriptable'')
              | Some h \<Rightarrow> Inr (line ('' '' @ em_dash @ '' recovered '' @ int_str (pv_bytes r) @ '' B (sha256 ''
                                 @ take 12 h @ ellipsis @ '')'')))"

section \<open>Families\<close>

definition families :: "(string \<times> string list) list" where
  "families =
     [(''RedLine Stealer'', [''redline'']), (''Lumma Stealer'', [''lumma'']),
      (''AgentTesla'', [''agenttesla'', ''agent tesla'']), (''Snake Keylogger'', [''snake keylogger'', ''snake'']),
      (''GuLoader'', [''guloader'']), (''Cobalt Strike'', [''cobalt strike'', ''cobaltstrike'']),
      (''Metasploit'', [''metasploit'', ''meterpreter'']), (''Emotet'', [''emotet'']), (''TrickBot'', [''trickbot'']),
      (''IcedID'', [''icedid'']), (''StealC'', [''stealc'']), (''Hancitor'', [''hancitor'']), (''Amadey'', [''amadey'']),
      (''Pony'', [''pony'']), (''Formbook'', [''formbook'', ''xloader'']), (''Qakbot'', [''qakbot'', ''qbot'']),
      (''dnscat2'', [''dnscat'']), (''VIP Recovery'', [''vip recovery''])]"

datatype belief = Possible | Likely | Known

fun belief_rank :: "belief \<Rightarrow> nat" where
  "belief_rank Known = 3"
| "belief_rank Likely = 2"
| "belief_rank Possible = 1"

record family_verdict =
  fv_family :: string
  fv_confidence :: belief
  fv_basis :: string
  fv_evidence :: "string list"

text \<open>
  \<open>_match_families\<close> returns a set; \<open>order\<close> stands for the order in which Python iterates over it.
\<close>

definition match_families :: "(string list \<Rightarrow> string list) \<Rightarrow> string \<Rightarrow> string list" where
  "match_families order t =
     order (map fst (filter (\<lambda>(fam, kws). list_ex (\<lambda>k. contains k (str_lower t)) kws) families))"

text \<open>Own notes of an event, then the reputation notes looked up once per address and domain.\<close>

definition own_texts :: "net_event \<Rightarrow> string list" where
  "own_texts e = map the (filter truthy [ne_static_match e, ne_static_note e, ne_reputation_note e, ne_dns_evidence e])"

definition address_note :: "geo_reader \<Rightarrow> intel_db \<Rightarrow> net_event \<Rightarrow> string list" where
  "address_note geo db e =
     (let n = at_note (attribute geo db (ne_dst_ip e) (ne_ja3_hash e) (ne_ja4 e))
      in if truthy n then [the n] else [])"

definition domain_note :: "intel_db \<Rightarrow> string \<Rightarrow> string list" where
  "domain_note db d =
     (case domain_reputation db d of
        Some (s, n) \<Rightarrow> if truthy n then [the n] else []
      | None \<Rightarrow> [])"

fun intel_texts :: "geo_reader \<Rightarrow> intel_db \<Rightarrow> string set \<Rightarrow> string set \<Rightarrow> net_event list \<Rightarrow> string list" where
  "intel_texts geo db seen_ip seen_dom [] = []"
| "intel_texts geo db seen_ip seen_dom (e # es) =
     own_texts e
     @ (if \<not> ne_reputation_hit e then intel_texts geo db seen_ip seen_dom es
        else let new_ip = (ne_dst_ip e \<noteq> [] \<and> ne_dst_ip e \<notin> seen_ip);
                 new_dom = (truthy (ne_domain e) \<and> the (ne_domain e) \<notin> seen_dom)
             in (if new_ip then address_note geo db e else [])
                @ (if new_dom then domain_note db (the (ne_domain e)) else [])
                @ intel_texts geo db (if new_ip then insert (ne_dst_ip e) seen_ip else seen_ip)
                    (if new_dom then insert (the (ne_domain e)) seen_dom else seen_dom) es)"

definition behavioural :: "net_event list \<Rightarrow> (string \<times> string) list" where
  "behavioural es =
     (let has = (\<lambda>k. list_ex (\<lambda>e. ne_kind e = k) es);
          uris = str_lower (join '' '' (map (\<lambda>e. opt_or_empty (ne_http_uri e)) es));
          subj = str_lower (join '' '' (map (\<lambda>e. opt_or_empty (ne_smtp_subject e)) es))
      in (if has ''dns_tunnel'' \<or> has ''dga''
          then [(''dnscat2'', ''DNS tunnelling (TXT/MX/CNAME, high-entropy subdomains)'')] else [])
       @ (if has ''http_c2'' \<and> has ''beacon'' then [(''Cobalt Strike'', ''HTTP C2 gate + periodic beacon'')] else [])
       @ (if has ''smtp_exfil'' \<or> contains ''pw_'' uris \<or> contains ''stor pw'' uris \<or> contains ''pc name'' subj
          then [(''AgentTesla'', ''credential/system-info exfil over SMTP/FTP'')] else []))"

text \<open>\<open>_add\<close> on the dictionary of the best verdict per family.\<close>

type_synonym candidate = "string \<times> belief \<times> string \<times> string"

definition add_candidate :: "(string, family_verdict) dict \<Rightarrow> candidate \<Rightarrow> (string, family_verdict) dict" where
  "add_candidate best c =
     (let (fam, conf, basis, ev) = c;
          fresh = \<lparr>fv_family = fam, fv_confidence = conf, fv_basis = basis, fv_evidence = [ev]\<rparr>
      in case map_of best fam of
           None \<Rightarrow> dict_set fam fresh best
         | Some cur \<Rightarrow>
             if belief_rank (fv_confidence cur) < belief_rank conf then dict_set fam fresh best
             else if ev \<in> set (fv_evidence cur) then best
             else dict_set fam (cur\<lparr>fv_evidence := fv_evidence cur @ [ev]\<rparr>) best)"

definition candidates ::
    "(string list \<Rightarrow> string list) \<Rightarrow> geo_reader \<Rightarrow> intel_db \<Rightarrow> net_event list \<Rightarrow> string option \<Rightarrow> candidate list" where
  "candidates order geo db es prior =
     (if truthy prior then [(the prior, Known, ''static_prior'', ''family extracted from the binary by ST/DT'')] else [])
     @ concat (map (\<lambda>t. map (\<lambda>fam. (fam, Likely, ''threat_intel'', ''threat-intel note: '' @ t))
                          (match_families order t))
                (intel_texts geo db {} {} es))
     @ map (\<lambda>(fam, ev). (fam, Possible, ''behavioural'', ev)) (behavioural es)"

text \<open>Sorting by rank and family name, both descending.\<close>

definition verdict_key :: "family_verdict \<Rightarrow> nat \<times> string" where
  "verdict_key v = (belief_rank (fv_confidence v), fv_family v)"

definition attribute_family ::
    "(string list \<Rightarrow> string list) \<Rightarrow> geo_reader \<Rightarrow> intel_db \<Rightarrow> net_event list \<Rightarrow> string option \<Rightarrow> family_verdict list" where
  "attribute_family order geo db es prior =
     rev (sort_key verdict_key (map snd (foldl add_candidate [] (candidates order geo db es prior))))"

section \<open>Lemmas\<close>

definition new_verdict :: "candidate \<Rightarrow> family_verdict" where
  "new_verdict c = (let (fam, conf, basis, ev) = c in
     \<lparr>fv_family = fam, fv_confidence = conf, fv_basis = basis, fv_evidence = [ev]\<rparr>)"

text \<open>The entry of one family only depends on the candidates of that family.\<close>

fun add_one :: "family_verdict option \<Rightarrow> candidate \<Rightarrow> family_verdict option" where
  "add_one None c = Some (new_verdict c)"
| "add_one (Some cur) (fam, conf, basis, ev) = Some
     (if belief_rank (fv_confidence cur) < belief_rank conf then new_verdict (fam, conf, basis, ev)
      else if ev \<in> set (fv_evidence cur) then cur
      else cur\<lparr>fv_evidence := fv_evidence cur @ [ev]\<rparr>)"

lemma add_candidate_lookup:
  "map_of (add_candidate best c) f = (if fst c = f then add_one (map_of best f) c else map_of best f)"
  by (cases c; cases "map_of best (fst c)")
    (auto simp: add_candidate_def new_verdict_def Let_def split: option.splits)

lemma fold_candidates_lookup:
  "map_of (foldl add_candidate best cs) f = foldl add_one (map_of best f) (filter (\<lambda>c. fst c = f) cs)"
  by (induction cs arbitrary: best) (simp_all add: add_candidate_lookup)

lemma fold_candidates_distinct:
  "distinct (dict_keys best) \<Longrightarrow> distinct (dict_keys (foldl add_candidate best cs))"
  by (induction cs arbitrary: best)
    (auto simp: add_candidate_def Let_def split: option.splits prod.splits if_splits)

lemma add_one_family:
  "(\<forall>v. st = Some v \<longrightarrow> fv_family v = fst c) \<Longrightarrow> \<exists>v. add_one st c = Some v \<and> fv_family v = fst c"
  by (cases st; cases c) (auto simp: new_verdict_def Let_def)

lemma fold_one_family:
  "\<forall>c \<in> set cs. fst c = f \<Longrightarrow> (\<forall>v. st = Some v \<longrightarrow> fv_family v = f) \<Longrightarrow>
     foldl add_one st cs = Some v \<Longrightarrow> fv_family v = f"
proof (induction cs arbitrary: st)
  case (Cons c cs)
  then obtain w where "add_one st c = Some w" "fv_family w = f"
    using add_one_family [of st c] by auto
  with Cons show ?case by auto
qed simp

lemma fold_entry_family:
  assumes "(f, v) \<in> set (foldl add_candidate [] cs)"
  shows "fv_family v = f"
proof -
  have "map_of (foldl add_candidate [] cs) f = Some v"
    using assms fold_candidates_distinct [of "[]" cs] by simp
  then have "foldl add_one None (filter (\<lambda>c. fst c = f) cs) = Some v"
    by (simp add: fold_candidates_lookup)
  then show ?thesis by (rule fold_one_family [rotated 2]) simp_all
qed

text \<open>Two dictionaries with the same entries give the same sorted verdicts.\<close>

lemma same_lookup_set:
  assumes "distinct (map fst xs)" "distinct (map fst ys)" "map_of xs = map_of ys"
  shows "mset xs = mset ys"
proof -
  have "p \<in> set xs \<longleftrightarrow> p \<in> set ys" for p
    using assms map_of_eq_Some_iff [of xs "fst p" "snd p"] map_of_eq_Some_iff [of ys "fst p" "snd p"] by simp
  then have "set xs = set ys" by blast
  moreover have "distinct xs" "distinct ys" using assms(1,2) by (simp_all add: distinct_map)
  ultimately show ?thesis by (simp add: set_eq_iff_mset_eq_distinct)
qed

definition verdicts_of :: "candidate list \<Rightarrow> family_verdict list" where
  "verdicts_of cs = rev (sort_key verdict_key (map snd (foldl add_candidate [] cs)))"

lemma entries_inj: "inj_on verdict_key (set (map snd (foldl add_candidate [] cs)))"
  "distinct (map snd (foldl add_candidate [] cs))"
proof -
  let ?d = "foldl add_candidate [] cs"
  have fams: "map fv_family (map snd ?d) = map fst ?d"
    using fold_entry_family by (auto simp: o_def)
  have "distinct (map fst ?d)" using fold_candidates_distinct [of "[]" cs] by simp
  then have d: "distinct (map fv_family (map snd ?d))" unfolding fams .
  then show "distinct (map snd ?d)" by (rule distinct_map [THEN iffD1, THEN conjunct1])
  have "inj_on fv_family (set (map snd ?d))" using d by (simp only: distinct_map)
  then show "inj_on verdict_key (set (map snd ?d))"
    by (auto simp: inj_on_def verdict_key_def)
qed

lemma verdicts_of_cong:
  assumes "\<And>f. filter (\<lambda>c. fst c = f) cs = filter (\<lambda>c. fst c = f) cs'"
  shows "verdicts_of cs = verdicts_of cs'"
proof -
  let ?d = "foldl add_candidate [] cs" and ?d' = "foldl add_candidate [] cs'"
  have "map_of ?d = map_of ?d'" by (rule ext) (simp add: fold_candidates_lookup assms)
  then have "mset ?d = mset ?d'"
    using fold_candidates_distinct [of "[]" cs] fold_candidates_distinct [of "[]" cs']
    by (intro same_lookup_set) simp_all
  then have m: "mset (map snd ?d) = mset (map snd ?d')" by simp
  have "sort_key verdict_key (map snd ?d) = sort_key verdict_key (map snd ?d')"
    by (rule sort_key_inj_key_eq) (use m entries_inj(1) [of cs] in \<open>simp_all\<close>)
  then show ?thesis by (simp add: verdicts_of_def)
qed

definition cand_rank :: "candidate \<Rightarrow> nat" where "cand_rank c = belief_rank (fst (snd c))"
definition cand_evidence :: "candidate \<Rightarrow> string" where "cand_evidence c = snd (snd (snd c))"

lemma fold_one_evidence:
  assumes "\<forall>c \<in> set cs. cand_rank c \<le> belief_rank (fv_confidence v)"
  shows "foldl add_one (Some v) cs =
     Some (v\<lparr>fv_evidence := fv_evidence v @ first_by (\<lambda>x. x) (set (fv_evidence v)) (map cand_evidence cs)\<rparr>)"
  using assms
proof (induction cs arbitrary: v)
  case (Cons c cs)
  obtain fam conf basis ev where c: "c = (fam, conf, basis, ev)" by (cases c)
  have "\<not> belief_rank (fv_confidence v) < belief_rank conf" using Cons.prems by (simp add: c cand_rank_def)
  then show ?case
    using Cons.IH [of "v"] Cons.IH [of "v\<lparr>fv_evidence := fv_evidence v @ [ev]\<rparr>"] Cons.prems
    by (simp add: c cand_evidence_def)
qed simp

lemma candidates_ranked: "sorted_wrt (\<lambda>c d. cand_rank d \<le> cand_rank c) (candidates order geo db es prior)"
proof -
  have level: "sorted_wrt (\<lambda>c d. cand_rank d \<le> cand_rank c) xs" if "\<forall>c \<in> set xs. cand_rank c = r" for xs r
    using that by (induction xs) simp_all
  show ?thesis
    unfolding candidates_def sorted_wrt_append
    by (intro conjI ballI level [of _ 3] level [of _ 2] level [of _ 1]) (auto simp: cand_rank_def)
qed

lemma filter_is_replicate: "filter (\<lambda>x. x = f) zs = replicate (count (mset zs) f) f"
  by (induction zs) simp_all

lemma match_order:
  assumes "\<And>xs. mset (order xs) = mset xs"
  shows "filter (\<lambda>x. x = f) (match_families order t) = filter (\<lambda>x. x = f) (match_families (\<lambda>xs. xs) t)"
  unfolding filter_is_replicate by (simp add: match_families_def assms)

lemma candidates_order:
  assumes "\<And>xs. mset (order xs) = mset xs"
  shows "filter (\<lambda>c. fst c = f) (candidates order geo db es prior)
     = filter (\<lambda>c. fst c = f) (candidates (\<lambda>xs. xs) geo db es prior)"
  by (simp add: candidates_def filter_concat o_def filter_map match_order [OF assms])

text \<open>
  The attribution does not depend on the order in which Python iterates over a set: it names
  every family that has a candidate exactly once, with the confidence and the basis of its first,
  and strongest, candidate and all evidence for it without repetition, strongest confidence first.
\<close>

theorem attribute_family_exact:
  fixes order geo db es prior
  defines "cs \<equiv> candidates (\<lambda>xs. xs) geo db es prior"
    and "out \<equiv> attribute_family order geo db es prior"
  assumes "\<And>xs. mset (order xs) = mset xs"
  shows "out = attribute_family (\<lambda>xs. xs) geo db es prior
     \<and> sorted_wrt (\<lambda>v w. verdict_key w < verdict_key v) out
     \<and> set out = {v. \<exists>c rest. filter (\<lambda>d. fst d = fst c) cs = c # rest \<and> (\<forall>d \<in> set rest. cand_rank d \<le> cand_rank c)
          \<and> v = (new_verdict c)\<lparr>fv_evidence := first_by (\<lambda>x. x) {} (map cand_evidence (c # rest))\<rparr>}"
proof (intro conjI)
  let ?d = "foldl add_candidate [] cs"
  have same: "out = verdicts_of cs"
    unfolding out_def attribute_family_def verdicts_of_def [symmetric] cs_def
    by (rule verdicts_of_cong) (rule candidates_order [OF assms(3)])
  then show "out = attribute_family (\<lambda>xs. xs) geo db es prior"
    by (simp add: attribute_family_def verdicts_of_def cs_def)
  have "sorted_wrt (<) (map verdict_key (sort_key verdict_key (map snd ?d)))"
    using entries_inj [of cs] by (simp add: strict_sorted_iff distinct_map del: map_map)
  then show "sorted_wrt (\<lambda>v w. verdict_key w < verdict_key v) out"
    by (simp add: same verdicts_of_def sorted_wrt_rev sorted_wrt_map)
  have entry: "v \<in> set out \<longleftrightarrow> (\<exists>f. map_of ?d f = Some v)" for v
    using fold_candidates_distinct [of "[]" cs] by (force simp: same verdicts_of_def)
  have ranked: "sorted_wrt (\<lambda>c d. cand_rank d \<le> cand_rank c) (filter (\<lambda>d. fst d = f) cs)" for f
    unfolding cs_def by (rule sorted_wrt_filter) (rule candidates_ranked)
  have state: "map_of ?d f = (case filter (\<lambda>d. fst d = f) cs of [] \<Rightarrow> None
      | c # rest \<Rightarrow> Some ((new_verdict c)\<lparr>fv_evidence := first_by (\<lambda>x. x) {} (map cand_evidence (c # rest))\<rparr>))" for f
  proof (cases "filter (\<lambda>d. fst d = f) cs")
    case (Cons c rest)
    then have "\<forall>d \<in> set rest. cand_rank d \<le> belief_rank (fv_confidence (new_verdict c))"
      using ranked [of f] by (cases c) (simp add: new_verdict_def cand_rank_def)
    from fold_one_evidence [OF this] Cons show ?thesis
      by (cases c) (simp add: fold_candidates_lookup new_verdict_def cand_evidence_def)
  qed (simp add: fold_candidates_lookup)
  have head: "fst c = f" if "filter (\<lambda>d. fst d = f) cs = c # rest" for f c rest
    using arg_cong [OF that, of set] by auto
  show "set out = {v. \<exists>c rest. filter (\<lambda>d. fst d = fst c) cs = c # rest \<and> (\<forall>d \<in> set rest. cand_rank d \<le> cand_rank c)
          \<and> v = (new_verdict c)\<lparr>fv_evidence := first_by (\<lambda>x. x) {} (map cand_evidence (c # rest))\<rparr>}"
  proof (intro set_eqI iffI CollectI)
    fix v assume "v \<in> set out"
    then obtain f where "map_of ?d f = Some v" using entry by blast
    then obtain c rest where c: "filter (\<lambda>d. fst d = f) cs = c # rest"
        "v = (new_verdict c)\<lparr>fv_evidence := first_by (\<lambda>x. x) {} (map cand_evidence (c # rest))\<rparr>"
      unfolding state by (auto split: list.splits)
    have f: "fst c = f" by (rule head [OF c(1)])
    have "sorted_wrt (\<lambda>c d. cand_rank d \<le> cand_rank c) (c # rest)" by (rule ranked [of f, unfolded c(1)])
    then have le: "\<forall>d \<in> set rest. cand_rank d \<le> cand_rank c" unfolding sorted_wrt.simps by (rule conjunct1)
    show "\<exists>c rest. filter (\<lambda>d. fst d = fst c) cs = c # rest \<and> (\<forall>d \<in> set rest. cand_rank d \<le> cand_rank c)
          \<and> v = (new_verdict c)\<lparr>fv_evidence := first_by (\<lambda>x. x) {} (map cand_evidence (c # rest))\<rparr>"
      unfolding c(2) by (rule exI [of _ c], rule exI [of _ rest]) (intro conjI refl le c(1) [folded f])
  next
    fix v assume "v \<in> {v. \<exists>c rest. filter (\<lambda>d. fst d = fst c) cs = c # rest
          \<and> (\<forall>d \<in> set rest. cand_rank d \<le> cand_rank c)
          \<and> v = (new_verdict c)\<lparr>fv_evidence := first_by (\<lambda>x. x) {} (map cand_evidence (c # rest))\<rparr>}"
    then obtain c rest where "filter (\<lambda>d. fst d = fst c) cs = c # rest"
        "v = (new_verdict c)\<lparr>fv_evidence := first_by (\<lambda>x. x) {} (map cand_evidence (c # rest))\<rparr>"
      by blast
    then have "map_of ?d (fst c) = Some v" by (simp add: state)
    then show "v \<in> set out" using entry by blast
  qed
qed

text \<open>The comparison fails exactly for a mixture of aware and naive times.\<close>

definition mixed :: "timeline_entry list \<Rightarrow> bool" where
  "mixed es = (\<exists>e e'. {e, e'} \<subseteq> set es \<and> aware (entry_time e) \<and> \<not> aware (entry_time e'))"

lemma build_timeline_by_mix:
  "build_timeline accs nets =
     (if mixed (map host_entry accs @ map net_entry nets)
      then Inl (TypeError ''can't compare offset-naive and offset-aware datetimes'')
      else Inr (sort_key (\<lambda>e. instant (entry_time e)) (map host_entry accs @ map net_entry nets)))"
proof -
  have "(list_all (\<lambda>e. aware (entry_time e)) es \<or> list_all (\<lambda>e. \<not> aware (entry_time e)) es) = (\<not> mixed es)" for es
    unfolding list_all_iff mixed_def by blast
  then show ?thesis unfolding build_timeline_def Let_def by (simp only: if_not_P if_P not_not split: if_split) simp
qed

text \<open>
  The timeline contains every host access and every network finding exactly once, in the order
  of their times with simultaneous entries in the order given; it fails only, and always, when some
  times carry a zone and others do not, as an unreadable one does not.
\<close>

theorem build_timeline_exact:
  "(case build_timeline accs nets of
      Inr out \<Rightarrow>
        mset out = mset (map host_entry accs) + mset (map net_entry nets)
        \<and> sorted (map (\<lambda>e. instant (entry_time e)) out)
        \<and> (\<forall>t. filter (\<lambda>e. instant (entry_time e) = t) out
             = filter (\<lambda>e. instant (entry_time e) = t) (map host_entry accs @ map net_entry nets))
    | Inl err \<Rightarrow> (\<exists>m. err = TypeError m))
   \<and> ((\<exists>err. build_timeline accs nets = Inl err) \<longleftrightarrow>
        (\<exists>e e'. {e, e'} \<subseteq> set (map host_entry accs @ map net_entry nets)
           \<and> aware (entry_time e) \<and> \<not> aware (entry_time e')))"
proof (rule conjI)
  let ?es = "map host_entry accs @ map net_entry nets"
  let ?k = "\<lambda>e. instant (entry_time e)"
  have stable: "\<forall>t. filter (\<lambda>e. ?k e = t) (sort_key ?k ?es) = filter (\<lambda>e. ?k e = t) ?es"
    by (intro allI sort_key_stable)
  have perm: "mset (sort_key ?k ?es) = mset (map host_entry accs) + mset (map net_entry nets)"
    by (simp only: mset_sort mset_append)
  show "case build_timeline accs nets of
      Inr out \<Rightarrow> mset out = mset (map host_entry accs) + mset (map net_entry nets)
        \<and> sorted (map ?k out) \<and> (\<forall>t. filter (\<lambda>e. ?k e = t) out = filter (\<lambda>e. ?k e = t) ?es)
    | Inl err \<Rightarrow> \<exists>m. err = TypeError m"
    unfolding build_timeline_by_mix using stable perm by (simp only: if_split sum.case sorted_sort_key) blast
  show "(\<exists>err. build_timeline accs nets = Inl err) \<longleftrightarrow>
        (\<exists>e e'. {e, e'} \<subseteq> set ?es \<and> aware (entry_time e) \<and> \<not> aware (entry_time e'))"
    unfolding build_timeline_by_mix mixed_def [symmetric] by (cases "mixed ?es") simp_all
qed

text \<open>Only the first three keywords can change the item, and only for clipboard and keystroke data.\<close>

lemma refine_loop_other:
  "base \<notin> {Some ''clipboard_data'', Some ''keystroke_log''} \<Longrightarrow> refine_loop base low kws = base"
  by (induction base low kws rule: refine_loop.induct) auto

lemma refine_loop_no_otp: "list_all (\<lambda>kw. snd kw \<noteq> ''otp'') kws \<Longrightarrow> refine_loop base low kws = base"
  by (induction base low kws rule: refine_loop.induct) auto

lemma refine_loop_keywords:
  "refine_loop base low item_keywords =
     (if base \<in> {Some ''clipboard_data'', Some ''keystroke_log''}
         \<and> (contains ''otp'' low \<or> contains ''2fa'' low \<or> contains ''token'' low)
      then Some ''otp'' else base)"
proof (cases "base \<in> {Some ''clipboard_data'', Some ''keystroke_log''}")
  case True
  have rest: "refine_loop base low (drop 3 item_keywords) = base"
    by (rule refine_loop_no_otp) (simp add: item_keywords_def)
  have "item_keywords = (''otp'', ''otp'') # (''2fa'', ''otp'') # (''token'', ''otp'') # drop 3 item_keywords"
    by (simp add: item_keywords_def)
  then have "refine_loop base low item_keywords =
      refine_loop base low ((''otp'', ''otp'') # (''2fa'', ''otp'') # (''token'', ''otp'') # drop 3 item_keywords)"
    by (rule arg_cong)
  then show ?thesis using True by (simp only: refine_loop.simps rest simp_thms if_True) simp
next
  case False
  then show ?thesis by (simp only: refine_loop_other simp_thms if_False)
qed

lemma refine_item_by_words:
  "refine_item base d =
     (let low = str_lower (opt_or_empty d) in
      if base \<in> {Some ''clipboard_data'', Some ''keystroke_log''}
         \<and> (contains ''otp'' low \<or> contains ''2fa'' low \<or> contains ''token'' low)
      then Some ''otp'' else base)"
proof (cases "truthy d")
  case True
  then have "opt_or_empty d = the d" by (cases d) (simp_all add: truthy_def opt_or_empty_def)
  with True show ?thesis by (simp only: refine_item_def Let_def refine_loop_keywords if_True)
next
  case False
  then have "opt_or_empty d = []" by (cases d) (auto simp: truthy_def opt_or_empty_def)
  with False show ?thesis by (simp add: refine_item_def Let_def str_lower_def)
qed

text \<open>
  Every correlated access becomes one provenance record with its own destination, times and
  tier. The item is the one of the host's data type, except that clipboard and keystroke data whose
  network descriptor mentions a one-time password, 2FA or a token is an OTP; and the item counts as
  inferred unless the network finding for the destination was readable.
\<close>

theorem build_provenance_exact:
  "map (\<lambda>p. (pv_data_type p, pv_ip p, pv_port p, pv_accessed p, pv_exfiltrated p, pv_delta p, pv_tier p))
       (build_provenance corr nets arts)
     = map (\<lambda>c. (ce_data_type c, ce_dst_ip c, ce_dst_port c, ce_access_ts c, ce_network_ts c, ce_delta c, ce_tier c)) corr
   \<and> map pv_item (build_provenance corr nets arts) = map (\<lambda>c.
       let d = Option.bind (net_for nets (ce_dst_ip c) (ce_dst_port c)) descriptor;
           low = str_lower (opt_or_empty d)
       in if base_item (ce_data_type c) \<in> {Some ''clipboard_data'', Some ''keystroke_log''}
             \<and> (contains ''otp'' low \<or> contains ''2fa'' low \<or> contains ''token'' low)
          then Some ''otp'' else base_item (ce_data_type c)) corr
   \<and> map pv_inferred (build_provenance corr nets arts) = map (\<lambda>c.
       \<not> (\<exists>e. net_for nets (ce_dst_ip c) (ce_dst_port c) = Some e \<and> ne_plaintext e)) corr"
proof -
  have item: "pv_item (provenance_of nets arts c) =
      refine_item (base_item (ce_data_type c)) (Option.bind (net_for nets (ce_dst_ip c) (ce_dst_port c)) descriptor)" for c
    by (simp only: provenance_of_def Let_def provenance.simps)
  have inferred: "pv_inferred (provenance_of nets arts c) =
      (\<not> (\<exists>e. net_for nets (ce_dst_ip c) (ce_dst_port c) = Some e \<and> ne_plaintext e))" for c
    by (simp only: provenance_of_def Let_def provenance.simps split: option.split) simp
  have own: "pv_data_type (provenance_of nets arts c) = ce_data_type c" "pv_ip (provenance_of nets arts c) = ce_dst_ip c"
    "pv_port (provenance_of nets arts c) = ce_dst_port c" "pv_accessed (provenance_of nets arts c) = ce_access_ts c"
    "pv_exfiltrated (provenance_of nets arts c) = ce_network_ts c" "pv_delta (provenance_of nets arts c) = ce_delta c"
    "pv_tier (provenance_of nets arts c) = ce_tier c" for c
    by (simp_all only: provenance_of_def Let_def provenance.simps)
  show ?thesis
    unfolding build_provenance_def map_map o_def item inferred refine_item_by_words Let_def own by (intro conjI refl)
qed

theorem attribute_family_witness:
  "attribute_family rev (\<lambda>_. (None, None, None)) [] [] (Some ''Emotet'')
     = attribute_family (\<lambda>xs. xs) (\<lambda>_. (None, None, None)) [] [] (Some ''Emotet'')
   \<and> map fv_family (attribute_family rev (\<lambda>_. (None, None, None)) [] [] (Some ''Emotet'')) = [''Emotet'']"
proof
  show "attribute_family rev (\<lambda>_. (None, None, None)) [] [] (Some ''Emotet'')
     = attribute_family (\<lambda>xs. xs) (\<lambda>_. (None, None, None)) [] [] (Some ''Emotet'')"
    by (rule attribute_family_exact [THEN conjunct1]) simp
  show "map fv_family (attribute_family rev (\<lambda>_. (None, None, None)) [] [] (Some ''Emotet'')) = [''Emotet'']"
    by code_simp
qed

end
