(* ===== verification/Tls.thy ===== *)
theory Tls
  imports PyBytes IpAddr "HOL-Library.Char_ord" "HOL-Library.List_Lexorder" "HOL-Library.Multiset"
begin

text \<open>
  TLS client fingerprints: the ClientHello parser, JA3 and JA4 of \<open>pipeline/tls_analysis.py\<close>, and
  the parser of \<open>pipeline/ja3_from_pcap.py\<close> that computes JA3 for captures on its own. MD5 and
  SHA-256 hex digests are parameters.
\<close>

section \<open>Parsing a ClientHello\<close>

definition grease :: "nat list" where
  "grease = [0x0a0a, 0x1a1a, 0x2a2a, 0x3a3a, 0x4a4a, 0x5a5a, 0x6a6a, 0x7a7a,
             0x8a8a, 0x9a9a, 0xaaaa, 0xbaba, 0xcaca, 0xdada, 0xeaea, 0xfafa]"

definition no_grease :: "nat list \<Rightarrow> nat list" where
  "no_grease = filter (\<lambda>c. c \<notin> set grease)"

record hello =
  he_version :: nat
  he_ciphers :: "nat list"
  he_extensions :: "nat list"
  he_curves :: "nat list"
  he_ecpf :: "nat list"
  he_sig_algs :: "nat list"
  he_alpns :: "string list"
  he_sni :: "string option"
  he_versions :: "nat list"

text \<open>\<open>x or None\<close> for a text.\<close>

definition or_none :: "string \<Rightarrow> string option" where
  "or_none s = (if s = [] then None else Some s)"

text \<open>The ALPN loop; \<open>j\<close> stands at a length byte.\<close>

function read_alpns :: "bytes \<Rightarrow> nat \<Rightarrow> string list" where
  "read_alpns body j =
     (if j + 1 \<le> length body
      then let ln = unat (body ! j) in
           if ln = 0 \<or> length body < j + 1 + ln then []
           else ascii_text (slice (j + 1) ln body) # read_alpns body (j + 1 + ln)
      else [])"
  by pat_completeness auto
termination
  by (relation "measure (\<lambda>(body, j). length body - j)") auto

declare read_alpns.simps [simp del]

text \<open>
  One extension of type \<open>et\<close>. An extension body too short for its own length field leaves the
  components as they are; a list running past its body is \<open>struct.error\<close>.
\<close>

definition read_sni :: "bytes \<Rightarrow> string option res" where
  "read_sni body = bind_res (u16 body 3) (\<lambda>nl. Inr (or_none (ascii_text (slice 5 nl body))))"

definition read_extension :: "nat \<Rightarrow> bytes \<Rightarrow> hello \<Rightarrow> hello res" where
  "read_extension et body c0 =
     (let c = (if et \<in> set grease then c0 else c0\<lparr>he_extensions := he_extensions c0 @ [et]\<rparr>) in
      if et = 0x0000 \<and> 5 \<le> length body
      then bind_res (read_sni body) (\<lambda>s. Inr (c\<lparr>he_sni := s\<rparr>))
      else if et = 0x000a \<and> 2 \<le> length body
      then bind_res (u16 body 0) (\<lambda>gl. bind_res (u16_list body 2 gl) (\<lambda>gs.
             Inr (c\<lparr>he_curves := no_grease gs\<rparr>)))
      else if et = 0x000b \<and> 1 \<le> length body
      then Inr (c\<lparr>he_ecpf := map unat (slice 1 (unat (body ! 0)) body)\<rparr>)
      else if et = 0x000d \<and> 2 \<le> length body
      then bind_res (u16 body 0) (\<lambda>sl. bind_res (u16_list body 2 sl) (\<lambda>gs. Inr (c\<lparr>he_sig_algs := gs\<rparr>)))
      else if et = 0x0010 \<and> 2 \<le> length body
      then Inr (c\<lparr>he_alpns := he_alpns c @ read_alpns body 2\<rparr>)
      else if et = 0x002b \<and> 1 \<le> length body
      then bind_res (u16_list body 1 (unat (body ! 0))) (\<lambda>vs. Inr (c\<lparr>he_versions := no_grease vs\<rparr>))
      else Inr c)"

function read_extensions :: "bytes \<Rightarrow> nat \<Rightarrow> nat \<Rightarrow> hello \<Rightarrow> hello res" where
  "read_extensions hs end_at idx c =
     (if idx + 4 \<le> end_at
      then bind_res (u16 hs idx) (\<lambda>et. bind_res (u16 hs (idx + 2)) (\<lambda>el.
           bind_res (read_extension et (slice (idx + 4) el hs) c) (\<lambda>c'.
           read_extensions hs end_at (idx + 4 + el) c')))
      else Inr c)"
  by pat_completeness auto
termination
  by (relation "measure (\<lambda>(hs, end_at, idx, c). end_at - idx)") auto

declare read_extensions.simps [simp del]

text \<open>
  The fixed part: version at 4, the 32 random bytes, session id, cipher list, compression methods;
  the index of the first extension and the announced length of all of them.
\<close>

definition hello_head :: "bytes \<Rightarrow> (nat \<times> nat list \<times> nat \<times> nat) res" where
  "hello_head hs =
     bind_res (u16 hs 4) (\<lambda>ver.
     bind_res (byte_at hs 38) (\<lambda>sid.
     let idx = 39 + sid in
     bind_res (u16 hs idx) (\<lambda>cs.
     bind_res (u16_list hs (idx + 2) cs) (\<lambda>ciphers.
     let idx = idx + 2 + cs in
     bind_res (byte_at hs idx) (\<lambda>comp.
     let idx = idx + 1 + comp in
     bind_res (u16 hs idx) (\<lambda>total.
     Inr (ver, no_grease ciphers, idx + 2, total)))))))"

definition parse_client_hello_raw :: "bytes \<Rightarrow> hello option res" where
  "parse_client_hello_raw hs =
     (if hs = [] \<or> hs ! 0 \<noteq> 1 then Inr None
      else bind_res (hello_head hs) (\<lambda>(ver, ciphers, idx, total).
           bind_res (read_extensions hs (min (idx + total) (length hs)) idx
             \<lparr>he_version = ver, he_ciphers = ciphers, he_extensions = [], he_curves = [], he_ecpf = [],
              he_sig_algs = [], he_alpns = [], he_sni = None, he_versions = []\<rparr>)
           (\<lambda>c. Inr (Some c))))"

definition parse_client_hello :: "bytes \<Rightarrow> hello option" where
  "parse_client_hello hs = (case parse_client_hello_raw hs of Inl e \<Rightarrow> None | Inr r \<Rightarrow> r)"

section \<open>Fingerprints\<close>

definition dashed :: "nat list \<Rightarrow> string" where
  "dashed ks = join ''-'' (map nat_str ks)"

definition ja3_text :: "nat \<Rightarrow> nat list \<Rightarrow> nat list \<Rightarrow> nat list \<Rightarrow> nat list \<Rightarrow> string" where
  "ja3_text ver ciphers exts curves ecpf =
     join '','' [nat_str ver, dashed ciphers, dashed exts, dashed curves, dashed ecpf]"

definition ja3 :: "(string \<Rightarrow> string) \<Rightarrow> hello \<Rightarrow> string" where
  "ja3 md5 c = md5 (ja3_text (he_version c) (he_ciphers c) (he_extensions c) (he_curves c) (he_ecpf c))"

definition version_names :: "(nat \<times> string) list" where
  "version_names = [(0x0304, ''13''), (0x0303, ''12''), (0x0302, ''11''), (0x0301, ''10''), (0x0300, ''s3''), (0x0002, ''s2'')]"

definition two_digits :: "nat \<Rightarrow> string" where
  "two_digits n = (if n < 10 then ''0'' @ nat_str n else nat_str n)"

definition hex4_of :: "nat \<Rightarrow> string" where "hex4_of k = hex_str (int k)"

definition ja4_a :: "hello \<Rightarrow> string \<Rightarrow> string" where
  "ja4_a c transport =
     (let ver_val = (if he_versions c = [] then he_version c else Max (set (he_versions c)));
          ver = (case map_of version_names ver_val of Some v \<Rightarrow> v | None \<Rightarrow> ''00'');
          alpn = (case he_alpns c of a # _ \<Rightarrow> if a = [] then ''00'' else [hd a, last a] | [] \<Rightarrow> ''00'')
      in transport @ ver @ (if he_sni c = None then ''i'' else ''d'')
         @ two_digits (min (length (he_ciphers c)) 99) @ two_digits (min (length (he_extensions c)) 99) @ alpn)"

definition ja4 :: "(string \<Rightarrow> string) \<Rightarrow> hello \<Rightarrow> string \<Rightarrow> string" where
  "ja4 sha256 c transport =
     (let b = take 12 (sha256 (join '','' (sort (map hex4_of (he_ciphers c)))));
          for_c = sort (map hex4_of (filter (\<lambda>e. e \<notin> {0x0000, 0x0010}) (he_extensions c)));
          sig = join '','' (map hex4_of (he_sig_algs c))
      in ja4_a c transport @ ''_'' @ b @ ''_'' @ take 12 (sha256 (join '','' for_c @ ''_'' @ sig)))"

definition fingerprint_client_hello ::
    "(string \<Rightarrow> string) \<Rightarrow> (string \<Rightarrow> string) \<Rightarrow> bytes \<Rightarrow> (string \<times> string \<times> string option) option" where
  "fingerprint_client_hello md5 sha256 hs =
     map_option (\<lambda>c. (ja3 md5 c, ja4 sha256 c ''t'', he_sni c)) (parse_client_hello hs)"

section \<open>The parser of the capture tool\<close>

text \<open>The same loop without signature algorithms, ALPN and versions, and not clamped to the bytes.\<close>

definition read_extension3 :: "nat \<Rightarrow> bytes \<Rightarrow> hello \<Rightarrow> hello res" where
  "read_extension3 et body c0 =
     (let c = (if et \<in> set grease then c0 else c0\<lparr>he_extensions := he_extensions c0 @ [et]\<rparr>) in
      if et = 0x0000 \<and> 5 \<le> length body
      then bind_res (read_sni body) (\<lambda>s. Inr (c\<lparr>he_sni := s\<rparr>))
      else if et = 0x000a \<and> 2 \<le> length body
      then bind_res (u16 body 0) (\<lambda>gl. bind_res (u16_list body 2 gl) (\<lambda>gs.
             Inr (c\<lparr>he_curves := no_grease gs\<rparr>)))
      else if et = 0x000b \<and> 1 \<le> length body
      then Inr (c\<lparr>he_ecpf := map unat (slice 1 (unat (body ! 0)) body)\<rparr>)
      else Inr c)"

function read_extensions3 :: "bytes \<Rightarrow> nat \<Rightarrow> nat \<Rightarrow> hello \<Rightarrow> hello res" where
  "read_extensions3 hs end_at idx c =
     (if idx + 4 \<le> end_at
      then bind_res (u16 hs idx) (\<lambda>et. bind_res (u16 hs (idx + 2)) (\<lambda>el.
           bind_res (read_extension3 et (slice (idx + 4) el hs) c) (\<lambda>c'.
           read_extensions3 hs end_at (idx + 4 + el) c')))
      else Inr c)"
  by pat_completeness auto
termination
  by (relation "measure (\<lambda>(hs, end_at, idx, c). end_at - idx)") auto

declare read_extensions3.simps [simp del]

definition capture_client_hello :: "(string \<Rightarrow> string) \<Rightarrow> bytes \<Rightarrow> (string option \<times> string option) res" where
  "capture_client_hello md5 hs =
     (if hs = [] \<or> hs ! 0 \<noteq> 1 then Inr (None, None)
      else bind_res (hello_head hs) (\<lambda>(ver, ciphers, idx, total).
           bind_res (read_extensions3 hs (idx + total) idx
             \<lparr>he_version = ver, he_ciphers = ciphers, he_extensions = [], he_curves = [], he_ecpf = [],
              he_sig_algs = [], he_alpns = [], he_sni = None, he_versions = []\<rparr>)
           (\<lambda>c. Inr (Some (ja3 md5 c), he_sni c))))"

text \<open>\<open>_parse_server_hello\<close>: any exception gives \<open>None\<close>.\<close>

function server_extensions :: "bytes \<Rightarrow> nat \<Rightarrow> nat \<Rightarrow> nat list res" where
  "server_extensions hs end_at idx =
     (if idx + 4 \<le> end_at
      then bind_res (u16 hs idx) (\<lambda>et. bind_res (u16 hs (idx + 2)) (\<lambda>el.
           bind_res (server_extensions hs end_at (idx + 4 + el)) (\<lambda>es.
           Inr (if et \<in> set grease then es else et # es))))
      else Inr [])"
  by pat_completeness auto
termination
  by (relation "measure (\<lambda>(hs, end_at, idx). end_at - idx)") auto

declare server_extensions.simps [simp del]

definition capture_server_hello :: "(string \<Rightarrow> string) \<Rightarrow> bytes \<Rightarrow> string option" where
  "capture_server_hello md5 hs =
     (if hs = [] \<or> hs ! 0 \<noteq> 2 then None
      else case
        bind_res (u16 hs 4) (\<lambda>ver.
        bind_res (byte_at hs 38) (\<lambda>sid.
        bind_res (u16 hs (39 + sid)) (\<lambda>cipher.
        bind_res (u16 hs (42 + sid)) (\<lambda>total.
        bind_res (server_extensions hs (44 + sid + total) (44 + sid)) (\<lambda>es.
        Inr (nat_str ver @ '','' @ nat_str cipher @ '','' @ dashed es))))))
      of Inl e \<Rightarrow> None | Inr s \<Rightarrow> Some (md5 s))"

section \<open>The wire format\<close>

text \<open>
  A ClientHello as a TLS client writes it (RFC 8446): the extensions the parser reads, with
  their contents, and any others as type and body.
\<close>

datatype extension =
    ServerName string
  | Groups "nat list"
  | PointFormats bytes
  | SigAlgs "nat list"
  | Alpn "string list"
  | Versions "nat list"
  | Other nat bytes

fun ext_type :: "extension \<Rightarrow> nat" where
  "ext_type (ServerName h) = 0x0000"
| "ext_type (Groups gs) = 0x000a"
| "ext_type (PointFormats ps) = 0x000b"
| "ext_type (SigAlgs gs) = 0x000d"
| "ext_type (Alpn ps) = 0x0010"
| "ext_type (Versions vs) = 0x002b"
| "ext_type (Other t b) = t"

definition short_text :: "string \<Rightarrow> bytes" where
  "short_text s = of_nat (length s) # map char_byte s"

fun ext_body :: "extension \<Rightarrow> bytes" where
  "ext_body (ServerName h) =
     be_bytes 2 (length h + 3) @ [0] @ be_bytes 2 (length h) @ map char_byte h"
| "ext_body (Groups gs) = be_bytes 2 (2 * length gs) @ bytes16 gs"
| "ext_body (PointFormats ps) = of_nat (length ps) # ps"
| "ext_body (SigAlgs gs) = be_bytes 2 (2 * length gs) @ bytes16 gs"
| "ext_body (Alpn ps) =
     be_bytes 2 (length (concat (map short_text ps))) @ concat (map short_text ps)"
| "ext_body (Versions vs) = of_nat (2 * length vs) # bytes16 vs"
| "ext_body (Other t b) = b"

definition ascii :: "string \<Rightarrow> bool" where
  "ascii s \<longleftrightarrow> (\<forall>c \<in> set s. (of_char c :: nat) < 128)"

fun ext_ok :: "extension \<Rightarrow> bool" where
  "ext_ok (ServerName h) = (ascii h \<and> length h < 65000)"
| "ext_ok (Groups gs) = (list_all (\<lambda>g. g < 65536) gs \<and> length gs < 32000)"
| "ext_ok (PointFormats ps) = (length ps < 256)"
| "ext_ok (SigAlgs gs) = (list_all (\<lambda>g. g < 65536) gs \<and> length gs < 32000)"
| "ext_ok (Alpn ps) = (list_all (\<lambda>p. p \<noteq> [] \<and> ascii p \<and> length p < 256) ps
     \<and> length (concat (map short_text ps)) < 65000)"
| "ext_ok (Versions vs) = (list_all (\<lambda>g. g < 65536) vs \<and> length vs < 128)"
| "ext_ok (Other t b) = (t < 65536 \<and> t \<notin> {0x0000, 0x000a, 0x000b, 0x000d, 0x0010, 0x002b} \<and> length b < 65536)"

definition ext_bytes :: "extension \<Rightarrow> bytes" where
  "ext_bytes e = be_bytes 2 (ext_type e) @ be_bytes 2 (length (ext_body e)) @ ext_body e"

record client_hello =
  ch_version :: nat
  ch_random :: bytes
  ch_session :: bytes
  ch_ciphers :: "nat list"
  ch_compression :: bytes
  ch_extensions :: "extension list"

definition hello_ok :: "client_hello \<Rightarrow> bool" where
  "hello_ok h \<longleftrightarrow> ch_version h < 65536 \<and> length (ch_random h) = 32 \<and> length (ch_session h) < 256
     \<and> list_all (\<lambda>c. c < 65536) (ch_ciphers h) \<and> length (ch_ciphers h) < 32768
     \<and> length (ch_compression h) < 256 \<and> list_all ext_ok (ch_extensions h)
     \<and> length (concat (map ext_bytes (ch_extensions h))) < 65536"

definition hello_prefix :: "client_hello \<Rightarrow> bytes" where
  "hello_prefix h =
     be_bytes 2 (ch_version h) @ ch_random h @ of_nat (length (ch_session h)) # ch_session h
     @ be_bytes 2 (2 * length (ch_ciphers h)) @ bytes16 (ch_ciphers h)
     @ of_nat (length (ch_compression h)) # ch_compression h
     @ be_bytes 2 (length (concat (map ext_bytes (ch_extensions h))))"

definition encode_hello :: "client_hello \<Rightarrow> bytes" where
  "encode_hello h =
     (let exts = concat (map ext_bytes (ch_extensions h))
      in 1 # be_bytes 3 (length (hello_prefix h @ exts)) @ hello_prefix h @ exts)"

text \<open>What the components of a message are: lists come from the last extension of their kind.\<close>

fun latest :: "'b \<Rightarrow> (extension \<Rightarrow> 'b option) \<Rightarrow> extension list \<Rightarrow> 'b" where
  "latest d f [] = d"
| "latest d f (e # es) = latest (case f e of Some x \<Rightarrow> x | None \<Rightarrow> d) f es"

fun alpn_of :: "extension \<Rightarrow> string list" where
  "alpn_of (Alpn ps) = ps"
| "alpn_of _ = []"

definition components :: "client_hello \<Rightarrow> hello" where
  "components h =
     (let es = ch_extensions h in
      \<lparr>he_version = ch_version h, he_ciphers = no_grease (ch_ciphers h),
       he_extensions = no_grease (map ext_type es),
       he_curves = latest [] (\<lambda>e. case e of Groups gs \<Rightarrow> Some (no_grease gs) | _ \<Rightarrow> None) es,
       he_ecpf = latest [] (\<lambda>e. case e of PointFormats ps \<Rightarrow> Some (map unat ps) | _ \<Rightarrow> None) es,
       he_sig_algs = latest [] (\<lambda>e. case e of SigAlgs gs \<Rightarrow> Some gs | _ \<Rightarrow> None) es,
       he_alpns = concat (map alpn_of es),
       he_sni = latest None (\<lambda>e. case e of ServerName s \<Rightarrow> Some (or_none s) | _ \<Rightarrow> None) es,
       he_versions = latest [] (\<lambda>e. case e of Versions vs \<Rightarrow> Some (no_grease vs) | _ \<Rightarrow> None) es\<rparr>)"

section \<open>Lemmas\<close>

text \<open>The effect of one extension on the components read so far.\<close>

definition add_type :: "extension \<Rightarrow> hello \<Rightarrow> hello" where
  "add_type e c = (if ext_type e \<in> set grease then c else c\<lparr>he_extensions := he_extensions c @ [ext_type e]\<rparr>)"

fun add_content :: "extension \<Rightarrow> hello \<Rightarrow> hello" where
  "add_content (ServerName s) c = c\<lparr>he_sni := or_none s\<rparr>"
| "add_content (Groups gs) c = c\<lparr>he_curves := no_grease gs\<rparr>"
| "add_content (PointFormats ps) c = c\<lparr>he_ecpf := map unat ps\<rparr>"
| "add_content (SigAlgs gs) c = c\<lparr>he_sig_algs := gs\<rparr>"
| "add_content (Alpn ps) c = c\<lparr>he_alpns := he_alpns c @ ps\<rparr>"
| "add_content (Versions vs) c = c\<lparr>he_versions := no_grease vs\<rparr>"
| "add_content (Other t b) c = c"

lemma u16_here: "k < 65536 \<Longrightarrow> u16 (be_bytes 2 k @ r) 0 = Inr k"
  using u16_at [of "[]" 0 k r] by simp

lemma u16_list_here:
  "list_all (\<lambda>g. g < 65536) gs \<Longrightarrow> u16_list (be_bytes 2 k @ bytes16 gs) 2 (2 * length gs) = Inr gs"
  using u16_list_bytes [of "be_bytes 2 k" 2 gs "[]"] by (simp add: list_all_iff)

lemma read_alpns_texts:
  assumes "list_all (\<lambda>p. p \<noteq> [] \<and> ascii p \<and> length p < 256) ps"
  shows "read_alpns (q @ concat (map short_text ps)) (length q) = ps"
  using assms
proof (induction ps arbitrary: q)
  case Nil
  show ?case by (simp add: read_alpns.simps [of _ "length q"])
next
  case (Cons p ps)
  let ?b = "q @ concat (map short_text (p # ps))"
  have here: "length q + 1 \<le> length ?b" "unat (?b ! length q) = length p"
    using Cons.prems by (simp_all add: short_text_def nth_append unat_of_nat)
  have part: "ascii_text (slice (length q + 1) (length p) ?b) = p"
    using Cons.prems by (simp add: short_text_def slice_def ascii_def ascii_text_bytes)
  have "read_alpns ?b (length q + 1 + length p) =
      read_alpns ((q @ short_text p) @ concat (map short_text ps)) (length (q @ short_text p))"
    by (simp add: short_text_def)
  also have "\<dots> = ps" by (rule Cons.IH) (use Cons.prems in simp)
  finally have rest: "read_alpns ?b (length q + 1 + length p) = ps" .
  have long: "\<not> length ?b < length q + 1 + length p" "length p \<noteq> 0"
    using Cons.prems by (simp_all add: short_text_def)
  show ?case
    unfolding read_alpns.simps [of ?b "length q"] here(2) Let_def if_P [OF here(1)]
    using long part rest by simp
qed

lemma read_sni_body:
  "ascii h \<Longrightarrow> length h < 65536 \<Longrightarrow> read_sni (ext_body (ServerName h)) = Inr (or_none h)"
proof -
  assume h: "ascii h" "length h < 65536"
  have "u16 ((be_bytes 2 (length h + 3) @ [0]) @ be_bytes 2 (length h) @ map char_byte h) 3 = Inr (length h)"
    by (rule u16_at) (use h in simp_all)
  moreover have "slice 5 (length h) ((be_bytes 2 (length h + 3) @ [0] @ be_bytes 2 (length h)) @ map char_byte h @ [])
      = map char_byte h"
    by (rule slice_at) simp_all
  ultimately show ?thesis using h by (simp add: read_sni_def ascii_text_bytes ascii_def)
qed

lemma read_extension_content:
  "ext_ok e \<Longrightarrow> read_extension (ext_type e) (ext_body e) c = Inr (add_content e (add_type e c))"
proof (cases e)
  case (ServerName h)
  assume "ext_ok e"
  then have "read_sni (ext_body e) = Inr (or_none h)" unfolding ServerName by (intro read_sni_body) simp_all
  then show ?thesis by (simp add: ServerName read_extension_def add_type_def)
next
  case (Alpn ps)
  assume ok: "ext_ok e"
  then have "read_alpns (ext_body e) 2 = ps"
    using read_alpns_texts [of ps "be_bytes 2 (length (concat (map short_text ps)))"] by (simp add: Alpn)
  then show ?thesis using ok by (simp add: Alpn read_extension_def add_type_def)
next
  case (Versions vs)
  assume ok: "ext_ok e"
  then have "u16_list (ext_body e) 1 (2 * length vs) = Inr vs"
    using u16_list_bytes [of "[of_nat (2 * length vs)]" 1 vs "[]"] by (simp add: Versions list_all_iff)
  moreover have "unat (ext_body e ! 0) = 2 * length vs"
    using unat_byte [of "2 * length vs"] ok unfolding Versions ext_body.simps nth_Cons_0 by simp
  ultimately show ?thesis using ok by (simp add: Versions read_extension_def add_type_def)
qed (simp_all add: read_extension_def add_type_def u16_here u16_list_here slice_def unat_of_nat)

lemma ext_body_length: "ext_ok e \<Longrightarrow> length (ext_body e) < 65536"
  by (cases e) simp_all

lemma ext_type_bound: "ext_ok e \<Longrightarrow> ext_type e < 65536"
  by (cases e) simp_all

lemma ext_bytes_length: "length (ext_bytes e) = 4 + length (ext_body e)"
  by (simp add: ext_bytes_def)

lemma extension_at:
  assumes "ext_ok e" "b = q @ concat (map ext_bytes (e # es))"
  shows "u16 b (length q) = Inr (ext_type e)" "u16 b (length q + 2) = Inr (length (ext_body e))"
    "slice (length q + 4) (length (ext_body e)) b = ext_body e" "length q + 4 \<le> length b"
    "length q + 4 + length (ext_body e) = length (q @ ext_bytes e)" "b = (q @ ext_bytes e) @ concat (map ext_bytes es)"
proof -
  let ?r = "concat (map ext_bytes es)"
  have b: "b = q @ be_bytes 2 (ext_type e) @ be_bytes 2 (length (ext_body e)) @ ext_body e @ ?r"
    using assms(2) by (simp add: ext_bytes_def)
  show "u16 b (length q) = Inr (ext_type e)"
    unfolding b by (rule u16_at) (simp_all add: ext_type_bound assms(1))
  show "u16 b (length q + 2) = Inr (length (ext_body e))"
    using u16_at [of "q @ be_bytes 2 (ext_type e)" "length q + 2" "length (ext_body e)" "ext_body e @ ?r"]
    unfolding b by (simp add: ext_body_length assms(1))
  show "slice (length q + 4) (length (ext_body e)) b = ext_body e"
    using slice_at [of "q @ be_bytes 2 (ext_type e) @ be_bytes 2 (length (ext_body e))" "length q + 4" "ext_body e" _ ?r]
    unfolding b by simp
  show "length q + 4 \<le> length b" by (simp add: b)
  show "length q + 4 + length (ext_body e) = length (q @ ext_bytes e)" by (simp add: ext_bytes_length)
  show "b = (q @ ext_bytes e) @ ?r" using assms(2) by simp
qed

lemma read_extensions_bytes:
  assumes "list_all ext_ok es" "b = q @ concat (map ext_bytes es)"
  shows "read_extensions b (length b) (length q) c = Inr (foldl (\<lambda>c e. add_content e (add_type e c)) c es)"
  using assms
proof (induction es arbitrary: q c)
  case Nil
  then show ?case by (simp add: read_extensions.simps [of _ _ "length q"])
next
  case (Cons e es)
  have ok: "ext_ok e" "list_all ext_ok es" using Cons.prems(1) by simp_all
  note here = extension_at [OF ok(1) Cons.prems(2)]
  show ?case
    by (subst read_extensions.simps) (simp only: if_True here(1,2,3,4,5) bind_res_simps
      read_extension_content [OF ok(1)] Cons.IH [OF ok(2) here(6)] foldl_Cons)
qed

lemma read_extension3_total: "ext_ok e \<Longrightarrow> \<exists>d. read_extension3 (ext_type e) (ext_body e) c = Inr d"
proof (cases e)
  case (ServerName h)
  assume "ext_ok e"
  then have "read_sni (ext_body e) = Inr (or_none h)" unfolding ServerName by (intro read_sni_body) simp_all
  then show ?thesis by (simp add: ServerName read_extension3_def)
qed (simp_all add: read_extension3_def u16_here u16_list_here)

lemma read_extensions3_total:
  assumes "list_all ext_ok es" "b = q @ concat (map ext_bytes es)"
  shows "\<exists>d. read_extensions3 b (length b) (length q) c = Inr d"
  using assms
proof (induction es arbitrary: q c)
  case Nil
  then show ?case by (simp add: read_extensions3.simps [of _ _ "length q"])
next
  case (Cons e es)
  have ok: "ext_ok e" "list_all ext_ok es" using Cons.prems(1) by simp_all
  note here = extension_at [OF ok(1) Cons.prems(2)]
  obtain d where d: "read_extension3 (ext_type e) (ext_body e) c = Inr d"
    using read_extension3_total [OF ok(1)] by blast
  have "read_extensions3 b (length b) (length q) c = read_extensions3 b (length b) (length (q @ ext_bytes e)) d"
    by (subst read_extensions3.simps) (simp only: if_True here(1,2,3,4,5) bind_res_simps d)
  then show ?case using Cons.IH [OF ok(2) here(6)] by simp
qed

lemma no_grease_simps [simp]:
  "no_grease [] = []"
  "no_grease (k # ks) = (if k \<in> set grease then no_grease ks else k # no_grease ks)"
  by (simp_all add: no_grease_def)

lemma not_grease [simp]:
  "0 \<notin> set grease" "10 \<notin> set grease" "11 \<notin> set grease" "13 \<notin> set grease" "16 \<notin> set grease" "43 \<notin> set grease"
  by (simp_all add: grease_def)

lemma read_components:
  "foldl (\<lambda>c e. add_content e (add_type e c)) c es =
     c\<lparr>he_extensions := he_extensions c @ no_grease (map ext_type es),
       he_curves := latest (he_curves c) (\<lambda>e. case e of Groups gs \<Rightarrow> Some (no_grease gs) | _ \<Rightarrow> None) es,
       he_ecpf := latest (he_ecpf c) (\<lambda>e. case e of PointFormats ps \<Rightarrow> Some (map unat ps) | _ \<Rightarrow> None) es,
       he_sig_algs := latest (he_sig_algs c) (\<lambda>e. case e of SigAlgs gs \<Rightarrow> Some gs | _ \<Rightarrow> None) es,
       he_alpns := he_alpns c @ concat (map alpn_of es),
       he_sni := latest (he_sni c) (\<lambda>e. case e of ServerName s \<Rightarrow> Some (or_none s) | _ \<Rightarrow> None) es,
       he_versions := latest (he_versions c) (\<lambda>e. case e of Versions vs \<Rightarrow> Some (no_grease vs) | _ \<Rightarrow> None) es\<rparr>"
proof (induction es arbitrary: c)
  case (Cons e es)
  show ?case unfolding foldl_Cons Cons.IH
    by (cases e) (simp_all add: add_type_def)
qed simp

lemma hello_head_encoded:
  assumes "hello_ok h"
  shows "hello_head (encode_hello h) =
     Inr (ch_version h, no_grease (ch_ciphers h), 4 + length (hello_prefix h),
          length (concat (map ext_bytes (ch_extensions h))))"
proof -
  define exts where "exts = concat (map ext_bytes (ch_extensions h))"
  define L where "L = 1 # be_bytes 3 (length (hello_prefix h @ exts))"
  let ?sid = "ch_session h" and ?cs = "ch_ciphers h" and ?comp = "ch_compression h"
  have enc: "encode_hello h = L @ be_bytes 2 (ch_version h) @ ch_random h @ of_nat (length ?sid) # ?sid
      @ be_bytes 2 (2 * length ?cs) @ bytes16 ?cs @ of_nat (length ?comp) # ?comp @ be_bytes 2 (length exts) @ exts"
    by (simp add: encode_hello_def hello_prefix_def L_def exts_def Let_def)
  have len: "length L = 4" by (simp add: L_def)
  note ok = assms [unfolded hello_ok_def]
  have ver: "u16 (encode_hello h) 4 = Inr (ch_version h)"
    unfolding enc by (rule u16_at) (use ok len in auto)
  have sid: "byte_at (encode_hello h) 38 = Inr (length ?sid)"
    using byte_at_at [of "L @ be_bytes 2 (ch_version h) @ ch_random h" 38 "of_nat (length ?sid)"] ok len
    by (simp add: enc unat_byte)
  have cs: "u16 (encode_hello h) (39 + length ?sid) = Inr (2 * length ?cs)"
    using u16_at [of "L @ be_bytes 2 (ch_version h) @ ch_random h @ of_nat (length ?sid) # ?sid"
        "39 + length ?sid" "2 * length ?cs"] ok len
    by (simp add: enc)
  have ciphers: "u16_list (encode_hello h) (39 + length ?sid + 2) (2 * length ?cs) = Inr ?cs"
    using u16_list_bytes [of "L @ be_bytes 2 (ch_version h) @ ch_random h @ of_nat (length ?sid) # ?sid
        @ be_bytes 2 (2 * length ?cs)" "39 + length ?sid + 2" ?cs] ok len
    by (simp add: enc list_all_iff)
  have comp: "byte_at (encode_hello h) (39 + length ?sid + 2 + 2 * length ?cs) = Inr (length ?comp)"
    using byte_at_at [of "L @ be_bytes 2 (ch_version h) @ ch_random h @ of_nat (length ?sid) # ?sid
        @ be_bytes 2 (2 * length ?cs) @ bytes16 ?cs" "39 + length ?sid + 2 + 2 * length ?cs"
        "of_nat (length ?comp)"] ok len
    by (simp add: enc unat_byte)
  have total: "u16 (encode_hello h) (39 + length ?sid + 2 + 2 * length ?cs + 1 + length ?comp) = Inr (length exts)"
    using u16_at [of "L @ be_bytes 2 (ch_version h) @ ch_random h @ of_nat (length ?sid) # ?sid
        @ be_bytes 2 (2 * length ?cs) @ bytes16 ?cs @ of_nat (length ?comp) # ?comp"
        "39 + length ?sid + 2 + 2 * length ?cs + 1 + length ?comp" "length exts"] ok len
    by (simp add: enc exts_def)
  have "39 + length ?sid + 2 + 2 * length ?cs + 1 + length ?comp + 2 = 4 + length (hello_prefix h)"
    using ok by (simp add: hello_prefix_def)
  then show ?thesis
    unfolding hello_head_def ver sid bind_res_simps Let_def cs ciphers comp total exts_def by simp
qed

lemma parse_encoded:
  assumes "hello_ok h"
  shows "parse_client_hello (encode_hello h) = Some (components h)"
proof -
  let ?exts = "concat (map ext_bytes (ch_extensions h))"
  let ?q = "1 # be_bytes 3 (length (hello_prefix h @ ?exts)) @ hello_prefix h"
  have enc: "encode_hello h = ?q @ ?exts" by (simp add: encode_hello_def Let_def)
  have start: "4 + length (hello_prefix h) = length ?q" by simp
  have exts: "list_all ext_ok (ch_extensions h)" using assms by (simp add: hello_ok_def)
  have stop: "min (length ?q + length ?exts) (length (?q @ ?exts)) = length (?q @ ?exts)" by simp
  have first: "\<not> (?q @ ?exts = [] \<or> (?q @ ?exts) ! 0 \<noteq> 1)" by simp
  have head: "hello_head (?q @ ?exts) = Inr (ch_version h, no_grease (ch_ciphers h), length ?q, length ?exts)"
    using hello_head_encoded [OF assms] unfolding enc start .
  have "parse_client_hello_raw (encode_hello h) = Inr (Some (components h))"
    unfolding enc parse_client_hello_raw_def if_not_P [OF first] head bind_res_simps prod.case
      stop read_extensions_bytes [OF exts refl] read_components
    by (simp add: components_def Let_def)
  then show ?thesis by (simp add: parse_client_hello_def)
qed

lemma capture_encoded:
  assumes "hello_ok h"
  shows "\<exists>r. capture_client_hello md5 (encode_hello h) = Inr r"
proof -
  let ?exts = "concat (map ext_bytes (ch_extensions h))"
  let ?q = "1 # be_bytes 3 (length (hello_prefix h @ ?exts)) @ hello_prefix h"
  have enc: "encode_hello h = ?q @ ?exts" by (simp add: encode_hello_def Let_def)
  have start: "4 + length (hello_prefix h) = length ?q" by simp
  have exts: "list_all ext_ok (ch_extensions h)" using assms by (simp add: hello_ok_def)
  have first: "\<not> (?q @ ?exts = [] \<or> (?q @ ?exts) ! 0 \<noteq> 1)" by simp
  have head: "hello_head (?q @ ?exts) = Inr (ch_version h, no_grease (ch_ciphers h), length ?q, length ?exts)"
    using hello_head_encoded [OF assms] unfolding enc start .
  show ?thesis
    unfolding enc capture_client_hello_def if_not_P [OF first] head bind_res_simps prod.case length_append [symmetric]
    using read_extensions3_total [OF exts refl] by (metis bind_res_simps(2))
qed

text \<open>JA4 sorts before it hashes.\<close>

lemma sort_eq_of_mset: "mset xs = mset ys \<Longrightarrow> sort xs = (sort ys :: 'a :: linorder list)"
  by (rule properties_for_sort) simp_all

lemma ja4_order_free:
  assumes "mset (he_ciphers c) = mset (he_ciphers d)" "mset (he_extensions c) = mset (he_extensions d)"
    and "he_version c = he_version d" "he_versions c = he_versions d" "he_sni c = he_sni d"
    and "he_alpns c = he_alpns d" "he_sig_algs c = he_sig_algs d"
  shows "ja4 sha256 c t = ja4 sha256 d t"
proof -
  have "length (he_ciphers c) = length (he_ciphers d)" "length (he_extensions c) = length (he_extensions d)"
    using assms(1,2) by (auto dest: mset_eq_length)
  then have a: "ja4_a c t = ja4_a d t" by (simp only: ja4_a_def assms)
  have b: "sort (map hex4_of (he_ciphers c)) = sort (map hex4_of (he_ciphers d))"
    by (rule sort_eq_of_mset) (simp add: assms(1))
  have e: "sort (map hex4_of (filter (\<lambda>e. e \<notin> {0x0000, 0x0010}) (he_extensions c)))
      = sort (map hex4_of (filter (\<lambda>e. e \<notin> {0x0000, 0x0010}) (he_extensions d)))"
    by (rule sort_eq_of_mset) (simp only: mset_map mset_filter assms(2))
  show ?thesis by (simp only: ja4_def Let_def a b e assms(7))
qed

text \<open>Extensions of a type no component is read from can be left out, and the rest reordered.\<close>

lemma latest_filter: "(\<And>e. \<not> P e \<Longrightarrow> f e = None) \<Longrightarrow> latest d f (filter P es) = latest d f es"
  by (induction es arbitrary: d) auto

lemma latest_none: "(\<And>e. e \<in> set es \<Longrightarrow> f e = None) \<Longrightarrow> latest d f es = d"
  by (induction es arbitrary: d) auto

lemma latest_unique:
  "e \<in> set es \<Longrightarrow> f e = Some x \<Longrightarrow> (\<And>e'. e' \<in> set es \<Longrightarrow> f e' \<noteq> None \<Longrightarrow> e' = e) \<Longrightarrow> latest d f es = x"
proof (induction es arbitrary: d)
  case (Cons e' es)
  show ?case
  proof (cases "e \<in> set es")
    case True
    show ?thesis using Cons.IH [OF True Cons.prems(2)] Cons.prems(3) by simp
  next
    case False
    then have "f e'' = None" if "e'' \<in> set es" for e'' using Cons.prems(3) [of e''] that by (cases "f e''") auto
    then have "latest d' f es = d'" for d' by (rule latest_none)
    then show ?thesis using Cons.prems(1,2) False by simp
  qed
qed simp

lemma latest_reorder:
  assumes "mset es = mset es'" "distinct (map ext_type es)"
    and "\<And>e. f e \<noteq> None \<Longrightarrow> ext_type e = t"
  shows "latest d f es = latest d f es'"
proof (cases "\<exists>e \<in> set es. f e \<noteq> None")
  case True
  then obtain e x where e: "e \<in> set es" "f e = Some x" by auto
  have only: "e' = e" if "e' \<in> set es" "f e' \<noteq> None" for e'
  proof -
    have "ext_type e' = ext_type e" using assms(3) [OF that(2)] assms(3) [of e] e(2) by simp
    then show ?thesis
      by (rule inj_onD [OF conjunct2 [OF assms(2) [unfolded distinct_map]]]) (rule that(1), rule e(1))
  qed
  have sets: "set es' = set es" using assms(1) by (metis mset_eq_setD)
  have "latest d f es = x" by (rule latest_unique [where e = e]) (simp_all only: e only simp_thms)
  moreover have "latest d f es' = x"
    by (rule latest_unique [where e = e]) (simp_all only: sets e only simp_thms)
  ultimately show ?thesis by simp
next
  case False
  then have "latest d f es = d" "latest d f es' = d"
    using mset_eq_setD [OF assms(1)] by (auto intro!: latest_none)
  then show ?thesis by simp
qed

lemma alpns_latest:
  assumes "distinct (map ext_type es)"
  shows "concat (map alpn_of es) = latest [] (\<lambda>e. case e of Alpn ps \<Rightarrow> Some ps | _ \<Rightarrow> None) es"
  using assms
proof (induction es)
  case (Cons e es)
  show ?case
  proof (cases e)
    case (Alpn ps)
    have none: "alpn_of e' = [] \<and> (case e' of Alpn ps \<Rightarrow> Some ps | _ \<Rightarrow> None) = None" if "e' \<in> set es" for e'
      using Cons.prems that by (cases e') (force simp: Alpn)+
    then have "concat (map alpn_of es) = []" by simp
    moreover have "latest ps (\<lambda>e. case e of Alpn ps \<Rightarrow> Some ps | _ \<Rightarrow> None) es = ps"
      by (rule latest_none) (use none in blast)
    ultimately show ?thesis by (simp add: Alpn)
  qed (use Cons in simp_all)
qed simp

text \<open>The two parsers walk the same extensions; they agree on everything JA3 is made of.\<close>

definition same_ja3 :: "hello \<Rightarrow> hello \<Rightarrow> bool" where
  "same_ja3 c d \<longleftrightarrow> he_version c = he_version d \<and> he_ciphers c = he_ciphers d
     \<and> he_extensions c = he_extensions d \<and> he_curves c = he_curves d \<and> he_ecpf c = he_ecpf d \<and> he_sni c = he_sni d"

lemma same_ja3_step:
  assumes "same_ja3 c d" "read_extension et body c = Inr c'" "read_extension3 et body d = Inr d'"
  shows "same_ja3 c' d'"
proof -
  define c1 where "c1 = (if et \<in> set grease then c else c\<lparr>he_extensions := he_extensions c @ [et]\<rparr>)"
  define d1 where "d1 = (if et \<in> set grease then d else d\<lparr>he_extensions := he_extensions d @ [et]\<rparr>)"
  have same: "same_ja3 c1 d1" using assms(1) by (simp add: same_ja3_def c1_def d1_def)
  note c' = assms(2) [unfolded read_extension_def Let_def c1_def [symmetric]]
  note d' = assms(3) [unfolded read_extension3_def Let_def d1_def [symmetric]]
  consider "et = 0" | "et = 10" | "et = 11" | "et \<notin> {0, 10, 11}" by blast
  then show ?thesis
  proof cases
    case 4
    then have "d' = d1" using d' by simp
    moreover have "same_ja3 c' c1" using c' 4 by (auto simp: same_ja3_def bind_res_Inr_iff split: if_splits)
    ultimately show ?thesis using same by (simp add: same_ja3_def)
  qed (use c' d' same in \<open>auto simp: same_ja3_def bind_res_Inr_iff split: if_splits\<close>)
qed

lemma u16_inside: "u16 hs i = Inr k \<Longrightarrow> i + 2 \<le> length hs"
  by (auto simp: u16_def slice_def split: if_splits)

lemma same_ja3_loop:
  "read_extensions3 hs e3 idx d = Inr d' \<Longrightarrow> read_extensions hs (min e3 (length hs)) idx c = Inr c' \<Longrightarrow>
     same_ja3 c d \<Longrightarrow> same_ja3 c' d'"
proof (induction hs e3 idx d arbitrary: c rule: read_extensions3.induct)
  case (1 hs e3 idx d)
  show ?case
  proof (cases "idx + 4 \<le> e3")
    case False
    then show ?thesis using "1.prems"
      by (simp add: read_extensions3.simps [of hs e3 idx] read_extensions.simps [of hs _ idx])
  next
    case True
    from "1.prems"(1) True obtain et el d1 where s:
      "u16 hs idx = Inr et" "u16 hs (idx + 2) = Inr el"
      "read_extension3 et (slice (idx + 4) el hs) d = Inr d1" "read_extensions3 hs e3 (idx + 4 + el) d1 = Inr d'"
      by (auto simp: read_extensions3.simps [of hs e3 idx] bind_res_Inr_iff)
    have "idx + 4 \<le> length hs" using u16_inside [OF s(2)] by simp
    with True have "idx + 4 \<le> min e3 (length hs)" by simp
    with "1.prems"(2) s(1,2) obtain c1 where c1: "read_extension et (slice (idx + 4) el hs) c = Inr c1"
      "read_extensions hs (min e3 (length hs)) (idx + 4 + el) c1 = Inr c'"
      by (auto simp: read_extensions.simps [of hs _ idx] bind_res_Inr_iff)
    have "same_ja3 c1 d1" by (rule same_ja3_step [OF "1.prems"(3) c1(1) s(3)])
    then show ?thesis by (rule "1.IH" [OF True s(4) c1(2)])
  qed
qed

section \<open>Properties\<close>

text \<open>
  C27. Every ClientHello a client can write is parsed back: its version, its ciphers, extension
  types, curves and versions without the GREASE values, its signature algorithms, the server name
  and all protocol names, each from the last extension that carries it. Its fingerprints are
  computed from exactly these.
\<close>

theorem client_hello_round_trip:
  assumes "hello_ok h"
  shows "parse_client_hello (encode_hello h) = Some (components h)
     \<and> fingerprint_client_hello md5 sha256 (encode_hello h)
       = Some (md5 (join '','' [nat_str (ch_version h), dashed (no_grease (ch_ciphers h)),
                 dashed (no_grease (map ext_type (ch_extensions h))), dashed (he_curves (components h)),
                 dashed (he_ecpf (components h))]),
               ja4 sha256 (components h) ''t'', he_sni (components h))"
  using parse_encoded [OF assms]
  by (simp only: fingerprint_client_hello_def ja3_def ja3_text_def) (simp add: components_def Let_def)

text \<open>An extension without the GREASE values of its list of groups or versions.\<close>

fun degrease :: "extension \<Rightarrow> extension" where
  "degrease (Groups gs) = Groups (no_grease gs)"
| "degrease (Versions vs) = Versions (no_grease vs)"
| "degrease e = e"

lemma degrease_type [simp]: "ext_type (degrease e) = ext_type e" "alpn_of (degrease e) = alpn_of e"
  by (cases e; simp)+

lemma no_grease_twice [simp]: "no_grease (no_grease ks) = no_grease ks"
  by (simp add: no_grease_def)

lemma latest_map: "(\<And>e. f (g e) = f e) \<Longrightarrow> latest d f (map g es) = latest d f es"
  by (induction es arbitrary: d) auto

text \<open>
  C28. JA4 and the server name survive the permutation and the GREASE of a client's lists: two
  ClientHellos of the same version whose ciphers and whose extensions are the same up to order and
  up to GREASE ciphers, GREASE extension types, GREASE groups and GREASE versions have the same JA4
  and server name. Signature algorithms and ALPN names must agree as they are, GREASE included.
\<close>

theorem ja4_randomisation_stable:
  assumes "hello_ok h" "hello_ok h'" "ch_version h = ch_version h'"
    and "mset (no_grease (ch_ciphers h)) = mset (no_grease (ch_ciphers h'))"
    and "mset (map degrease (filter (\<lambda>e. ext_type e \<notin> set grease) (ch_extensions h)))
       = mset (map degrease (filter (\<lambda>e. ext_type e \<notin> set grease) (ch_extensions h')))"
    and "distinct (map ext_type (filter (\<lambda>e. ext_type e \<notin> set grease) (ch_extensions h)))"
  shows "\<exists>j. map_option snd (fingerprint_client_hello md5 sha256 (encode_hello h)) = Some j
     \<and> map_option snd (fingerprint_client_hello md5 sha256 (encode_hello h')) = Some j"
proof -
  let ?P = "\<lambda>e. ext_type e \<notin> set grease"
  let ?es = "map degrease (filter ?P (ch_extensions h))" and ?es' = "map degrease (filter ?P (ch_extensions h'))"
  have distinct: "distinct (map ext_type ?es)" using assms(6) by (simp add: o_def)
  have distinct': "distinct (map ext_type ?es')"
    by (rule mset_eq_imp_distinct_iff [THEN iffD1, OF _ distinct]) (simp only: mset_map [of ext_type] assms(5))
  have same: "latest d f (ch_extensions h) = latest d f (ch_extensions h')"
    if "\<And>e. f e \<noteq> None \<Longrightarrow> ext_type e = t" "t \<notin> set grease" "\<And>e. f (degrease e) = f e" for d f t
  proof -
    have drop: "latest d f (map degrease (filter ?P es)) = latest d f es" for es
      unfolding latest_map [of f degrease, OF that(3)] by (rule latest_filter) (use that in force)
    show ?thesis
      using latest_reorder [of ?es ?es' f t d, OF assms(5) distinct that(1)] unfolding drop .
  qed
  have alpns: "concat (map alpn_of es) = concat (map alpn_of (map degrease (filter ?P es)))" for es
  proof (induction es)
    case (Cons e es)
    then show ?case by (cases e) simp_all
  qed simp
  have types: "mset (no_grease (map ext_type (ch_extensions h))) = mset (no_grease (map ext_type (ch_extensions h')))"
  proof -
    have t: "no_grease (map ext_type es) = map ext_type (map degrease (filter ?P es))" for es
      by (simp add: no_grease_def filter_map o_def)
    show ?thesis unfolding t by (simp only: mset_map [of ext_type] assms(5))
  qed
  have a: "concat (map alpn_of (ch_extensions h)) = concat (map alpn_of (ch_extensions h'))"
    unfolding alpns [of "ch_extensions h"] alpns [of "ch_extensions h'"] alpns_latest [OF distinct] alpns_latest [OF distinct']
    by (rule latest_reorder [OF assms(5) distinct, of _ 16]) (auto split: extension.splits)
  have cases: "(case degrease e of ServerName s \<Rightarrow> Some (or_none s) | _ \<Rightarrow> None)
      = (case e of ServerName s \<Rightarrow> Some (or_none s) | _ \<Rightarrow> None)"
    "(case degrease e of Versions vs \<Rightarrow> Some (no_grease vs) | _ \<Rightarrow> None) = (case e of Versions vs \<Rightarrow> Some (no_grease vs) | _ \<Rightarrow> None)"
    "(case degrease e of SigAlgs gs \<Rightarrow> Some gs | _ \<Rightarrow> None) = (case e of SigAlgs gs \<Rightarrow> Some gs | _ \<Rightarrow> None)" for e
    by (cases e; simp)+
  have sni: "he_sni (components h) = he_sni (components h')"
    unfolding components_def Let_def hello.simps by (rule same [of _ 0]) (auto simp: cases split: extension.splits)
  have "ja4 sha256 (components h) ''t'' = ja4 sha256 (components h') ''t''"
  proof (rule ja4_order_free)
    show "he_versions (components h) = he_versions (components h')"
      unfolding components_def Let_def hello.simps by (rule same [of _ 43]) (auto simp: cases split: extension.splits)
    show "he_sig_algs (components h) = he_sig_algs (components h')"
      unfolding components_def Let_def hello.simps by (rule same [of _ 13]) (auto simp: cases split: extension.splits)
  qed (use assms(3,4) types a sni in \<open>simp_all add: components_def Let_def\<close>)
  then show ?thesis
    by (simp add: fingerprint_client_hello_def parse_encoded [OF assms(1)] parse_encoded [OF assms(2)] sni)
qed

text \<open>
  The two ClientHello parsers of the pipeline agree: whenever both give a fingerprint for the
  same bytes, it is the same JA3 and the same server name.
\<close>

theorem capture_parser_agrees:
  assumes "capture_client_hello md5 hs = Inr r" "parse_client_hello hs = Some c"
  shows "r = (Some (ja3 md5 c), he_sni c)"
proof -
  have first: "\<not> (hs = [] \<or> hs ! 0 \<noteq> 1)" using assms(2) unfolding parse_client_hello_def parse_client_hello_raw_def by (auto split: if_splits)
  obtain ver ciphers idx total d where d: "hello_head hs = Inr (ver, ciphers, idx, total)"
    "read_extensions3 hs (idx + total) idx
       \<lparr>he_version = ver, he_ciphers = ciphers, he_extensions = [], he_curves = [], he_ecpf = [],
        he_sig_algs = [], he_alpns = [], he_sni = None, he_versions = []\<rparr> = Inr d" "r = (Some (ja3 md5 d), he_sni d)"
    using assms(1) first by (auto simp: capture_client_hello_def bind_res_Inr_iff)
  have "read_extensions hs (min (idx + total) (length hs)) idx
       \<lparr>he_version = ver, he_ciphers = ciphers, he_extensions = [], he_curves = [], he_ecpf = [],
        he_sig_algs = [], he_alpns = [], he_sni = None, he_versions = []\<rparr> = Inr c"
    using assms(2) first d(1)
    by (auto simp: parse_client_hello_def parse_client_hello_raw_def bind_res_def split: sum.splits)
  from same_ja3_loop [OF d(2) this] have "same_ja3 c d" by (simp add: same_ja3_def)
  then show ?thesis by (simp add: d(3) same_ja3_def ja3_def)
qed

section \<open>Witnesses\<close>

definition sample_hello :: client_hello where
  "sample_hello = \<lparr>ch_version = 0x0303, ch_random = replicate 32 7, ch_session = [1, 2],
     ch_ciphers = [0x1301, 0xc02f], ch_compression = [0],
     ch_extensions = [ServerName ''a.io'', Groups [29, 23], Alpn [''h2''], SigAlgs [0x0403]]\<rparr>"

text \<open>The same client with GREASE in front and everything in another order.\<close>

definition shuffled_hello :: client_hello where
  "shuffled_hello = sample_hello\<lparr>ch_ciphers := [0x0a0a, 0xc02f, 0x1301],
     ch_extensions := [Other 0x1a1a [], SigAlgs [0x0403], Alpn [''h2''], ServerName ''a.io'', Groups [0x2a2a, 29, 23]]\<rparr>"

lemma sample_hellos_ok: "hello_ok sample_hello" "hello_ok shuffled_hello"
  by (simp_all add: hello_ok_def sample_hello_def shuffled_hello_def ascii_def short_text_def ext_bytes_def)

lemma client_hello_witness:
  "parse_client_hello (encode_hello sample_hello) = Some (components sample_hello)
   \<and> he_sni (components sample_hello) = Some ''a.io''"
  by (rule conjI, rule client_hello_round_trip [OF sample_hellos_ok(1), THEN conjunct1])
    (simp add: components_def sample_hello_def or_none_def)

lemma ja4_witness:
  "\<exists>j. map_option snd (fingerprint_client_hello (\<lambda>s. s) (\<lambda>s. s) (encode_hello sample_hello)) = Some j
     \<and> map_option snd (fingerprint_client_hello (\<lambda>s. s) (\<lambda>s. s) (encode_hello shuffled_hello)) = Some j"
proof (rule ja4_randomisation_stable [OF sample_hellos_ok])
  show "ch_version sample_hello = ch_version shuffled_hello"
    by (simp add: sample_hello_def shuffled_hello_def)
  show "mset (no_grease (ch_ciphers sample_hello)) = mset (no_grease (ch_ciphers shuffled_hello))"
    by (simp add: sample_hello_def shuffled_hello_def grease_def)
  show "mset (map degrease (filter (\<lambda>e. ext_type e \<notin> set grease) (ch_extensions sample_hello)))
      = mset (map degrease (filter (\<lambda>e. ext_type e \<notin> set grease) (ch_extensions shuffled_hello)))"
    by (simp add: sample_hello_def shuffled_hello_def grease_def)
  show "distinct (map ext_type (filter (\<lambda>e. ext_type e \<notin> set grease) (ch_extensions sample_hello)))"
    by (simp add: sample_hello_def grease_def)
qed

text \<open>A GREASE signature algorithm is hashed like any other and changes the fingerprint.\<close>

definition greased_hello :: client_hello where
  "greased_hello = sample_hello\<lparr>ch_extensions := [ServerName ''a.io'', Groups [29, 23], Alpn [''h2''], SigAlgs [0x0a0a, 0x0403]]\<rparr>"

lemma grease_signature_counted:
  "map_option (fst \<circ> snd) (fingerprint_client_hello (\<lambda>s. s) rev (encode_hello sample_hello))
   \<noteq> map_option (fst \<circ> snd) (fingerprint_client_hello (\<lambda>s. s) rev (encode_hello greased_hello))"
proof -
  have ok: "hello_ok greased_hello"
    by (simp add: hello_ok_def sample_hello_def greased_hello_def ascii_def short_text_def ext_bytes_def)
  have c: "components greased_hello = (components sample_hello)\<lparr>he_sig_algs := [0x0a0a, 0x0403]\<rparr>"
    "he_sig_algs (components sample_hello) = [0x0403]"
    by (simp_all add: components_def greased_hello_def sample_hello_def)
  have hex: "hex4_of 0x0403 = ''0403''" "hex4_of 0x0a0a = ''0a0a''" by code_simp+
  have "ja4 rev d ''t'' \<noteq> ja4 rev (d\<lparr>he_sig_algs := [0x0a0a, 0x0403]\<rparr>) ''t''" if "he_sig_algs d = [0x0403]" for d
    using that hex by (simp add: ja4_def ja4_a_def Let_def)
  from this [OF c(2)] have "ja4 rev (components sample_hello) ''t'' \<noteq> ja4 rev (components greased_hello) ''t''"
    unfolding c(1) .
  then show ?thesis
    by (simp add: fingerprint_client_hello_def parse_encoded [OF sample_hellos_ok(1)] parse_encoded [OF ok])
qed

lemma capture_parser_witness:
  "capture_client_hello (\<lambda>s. s) (encode_hello sample_hello)
     = Inr (Some (ja3 (\<lambda>s. s) (components sample_hello)), Some ''a.io'')"
proof -
  obtain r where r: "capture_client_hello (\<lambda>s. s) (encode_hello sample_hello) = Inr r"
    using capture_encoded [OF sample_hellos_ok(1)] by blast
  have "he_sni (components sample_hello) = Some ''a.io''"
    by (simp add: components_def sample_hello_def or_none_def)
  then show ?thesis
    using capture_parser_agrees [OF r parse_encoded [OF sample_hellos_ok(1)]] by (simp add: r)
qed

end
