(* ===== verification/Capture.thy ===== *)
theory Capture
  imports Tls PyFloat
begin

text \<open>
  From the bytes of a capture file to flows and transactions, as the fast log generator does it
  (\<open>tools/generate_zeek_logs.py\<close>): pcap and pcapng records, link and network headers, DNS questions,
  flows oriented from inside to outside, and the HTTP, TLS, FTP and SMTP sniffers.
\<close>

section \<open>Capture files\<close>

text \<open>\<open>struct.unpack("<I")\<close> and its relatives on a slice of the right length.\<close>

definition uint :: "bool \<Rightarrow> bytes \<Rightarrow> nat" where
  "uint little bs = (if little then le_value bs else be_value bs)"

type_synonym link_frame = "pyfloat \<times> nat \<times> bytes"

text \<open>\<open>_iter_pcap\<close> after the header: 16 bytes per record, then its data.\<close>

function pcap_records :: "bool \<Rightarrow> rat \<Rightarrow> nat \<Rightarrow> bytes \<Rightarrow> link_frame list" where
  "pcap_records little scale link bs =
     (if length bs < 16 then []
      else let sec = uint little (slice 0 4 bs); frac = uint little (slice 4 4 bs);
               incl = uint little (slice 8 4 bs); data = slice 16 incl bs
           in if length data < incl then []
              else (fadd (of_nat sec) (fdiv (of_nat frac) scale), link, data)
                   # pcap_records little scale link (drop (16 + incl) bs))"
  by pat_completeness auto
termination
  by (relation "measure (\<lambda>(little, scale, link, bs). length bs)") auto

declare pcap_records.simps [simp del]

definition iter_pcap :: "bytes \<Rightarrow> link_frame list" where
  "iter_pcap bs =
     (let magic = take 4 bs;
          little = (magic = [0xd4, 0xc3, 0xb2, 0xa1] \<or> magic = [0x4d, 0x3c, 0xb2, 0xa1]);
          big = (magic = [0xa1, 0xb2, 0xc3, 0xd4] \<or> magic = [0xa1, 0xb2, 0x3c, 0x4d]);
          nano = (magic = [0x4d, 0x3c, 0xb2, 0xa1] \<or> magic = [0xa1, 0xb2, 0x3c, 0x4d])
      in if length bs < 24 \<or> \<not> little \<and> \<not> big then []
         else pcap_records little (if nano then 1000000000 else 1000000) (uint little (slice 20 4 bs)) (drop 24 bs))"

text \<open>
  \<open>_iter_pcapng\<close>: blocks of a type and a total length. An interface block sets the link type, the
  packet blocks yield a frame; an enhanced packet block shorter than its fixed part is \<open>struct.error\<close>.
\<close>

function pcapng_blocks :: "bool \<Rightarrow> nat \<Rightarrow> bytes \<Rightarrow> link_frame list res" where
  "pcapng_blocks little link bs =
     (if length bs < 8 then Inr []
      else let btype = uint little (slice 0 4 bs); blen = uint little (slice 4 4 bs);
               body = slice 8 (blen - 8) bs; rest = drop blen bs
           in if blen < 12 \<or> length body < blen - 8 then Inr []
              else if btype = 1 then pcapng_blocks little (uint little (slice 0 2 body)) rest
              else if btype = 6 then
                (if length body < 20 then Inl StructError
                 else bind_res (pcapng_blocks little link rest) (\<lambda>fs.
                   Inr ((fdiv (rnd (of_nat (uint little (slice 4 4 body) * 2 ^ 32 + uint little (slice 8 4 body)))) 1000000,
                         link, slice 20 (uint little (slice 12 4 body)) body) # fs)))
              else if btype = 3 then
                bind_res (pcapng_blocks little link rest) (\<lambda>fs.
                  Inr ((0, link, slice 4 (uint little (slice 0 4 body)) body) # fs))
              else pcapng_blocks little link rest)"
  by pat_completeness auto
termination
  by (relation "measure (\<lambda>(little, link, bs). length bs)") auto

declare pcapng_blocks.simps [simp del]

text \<open>\<open>f.read(n)\<close> with \<open>n = -1\<close> reads everything, a smaller \<open>n\<close> is a \<open>ValueError\<close>.\<close>

definition iter_pcapng :: "bytes \<Rightarrow> link_frame list res" where
  "iter_pcapng bs =
     (if length bs < 12 then Inr []
      else let little = (slice 8 4 bs = [0x4d, 0x3c, 0x2b, 0x1a]); total = uint little (slice 4 4 bs)
           in if total < 11 then Inl (ValueError ''read length must be non-negative or -1'')
              else if total = 11 then Inr []
              else pcapng_blocks little 1 (drop total bs))"

definition iter_packets :: "bytes \<Rightarrow> link_frame list res" where
  "iter_packets bs = (if take 4 bs = [0x0a, 0x0d, 0x0d, 0x0a] then iter_pcapng bs else Inr (iter_pcap bs))"

section \<open>Headers\<close>

text \<open>\<open>_l3\<close>: the Ethernet type and what follows.\<close>

definition l3 :: "nat \<Rightarrow> bytes \<Rightarrow> (nat \<times> bytes) option" where
  "l3 link data =
     (if link = 1 then (if length data < 14 then None else Some (be_value (slice 12 2 data), drop 14 data))
      else if link = 113 then (if 16 \<le> length data then Some (be_value (slice 14 2 data), drop 16 data) else None)
      else if link = 276 then (if 20 \<le> length data then Some (be_value (slice 0 2 data), drop 20 data) else None)
      else if 14 \<le> length data then Some (be_value (slice 12 2 data), drop 14 data) else None)"

text \<open>\<open>socket.inet_ntoa\<close>, and \<open>inet_ntop\<close> for IPv6: the first longest run of two or more zero groups is
  compressed, and a compressed prefix of 6 groups, or of 5 before \<open>ffff\<close>, shows the IPv4 address.\<close>

definition ip4_text :: "bytes \<Rightarrow> string" where
  "ip4_text bs = join ''.'' (map (\<lambda>b. nat_str (unat b)) bs)"

function hex_nat :: "nat \<Rightarrow> string" where
  "hex_nat n = (if n < 16 then [''0123456789abcdef'' ! n] else hex_nat (n div 16) @ [''0123456789abcdef'' ! (n mod 16)])"
  by pat_completeness auto
termination
  by (relation "measure id") auto

declare hex_nat.simps [simp del]

definition zero_run :: "nat list \<Rightarrow> nat \<Rightarrow> nat" where
  "zero_run ws i = length (takeWhile (\<lambda>w. w = 0) (drop i ws))"

definition best_run :: "nat list \<Rightarrow> nat \<times> nat" where
  "best_run ws = foldl (\<lambda>(b, n) i. if n < zero_run ws i then (i, zero_run ws i) else (b, n)) (0, 0) [0..<length ws]"

definition ip6_text :: "bytes \<Rightarrow> string" where
  "ip6_text bs =
     (let ws = map (\<lambda>i. be_value (slice (2 * i) 2 bs)) [0..<8]; (b, n) = best_run ws
      in if n < 2 then join '':'' (map hex_nat ws)
         else if b = 0 \<and> (n = 6 \<or> n = 5 \<and> ws ! 5 = 0xffff)
         then ''::'' @ (if n = 5 then ''ffff:'' else []) @ ip4_text (drop 12 bs)
         else join '':'' (map hex_nat (take b ws)) @ ''::'' @ join '':'' (map hex_nat (drop (b + n) ws)))"

text \<open>The network header: protocol number, source, destination and the rest.\<close>

definition ip_header :: "nat \<Rightarrow> bytes \<Rightarrow> (nat \<times> string \<times> string \<times> bytes) option" where
  "ip_header eth ipd =
     (if eth = 0x0800
      then (if length ipd < 20 then None
            else Some (unat (ipd ! 9), ip4_text (slice 12 4 ipd), ip4_text (slice 16 4 ipd),
                       drop (unat (ipd ! 0) mod 16 * 4) ipd))
      else if eth = 0x86dd
      then (if length ipd < 40 then None
            else Some (unat (ipd ! 6), ip6_text (slice 8 16 ipd), ip6_text (slice 24 16 ipd), drop 40 ipd))
      else None)"

datatype transport = Tcp | Udp

record segment =
  sg_ts :: pyfloat
  sg_proto :: transport
  sg_src :: string
  sg_sport :: nat
  sg_dst :: string
  sg_dport :: nat
  sg_data :: bytes

text \<open>A frame as a TCP or UDP segment; anything else is skipped.\<close>

definition l4 :: "pyfloat \<Rightarrow> nat \<times> string \<times> string \<times> bytes \<Rightarrow> segment option" where
  "l4 ts h =
     (let (proto, src, dst, b) = h;
          seg = (\<lambda>p data. Some \<lparr>sg_ts = ts, sg_proto = p, sg_src = src, sg_sport = be_value (slice 0 2 b), sg_dst = dst,
                             sg_dport = be_value (slice 2 2 b), sg_data = data\<rparr>)
      in if proto = 6 then (if length b < 20 then None else seg Tcp (drop (unat (b ! 12) div 16 * 4) b))
         else if proto = 17 then (if length b < 8 then None else seg Udp (drop 8 b))
         else None)"

definition segment_of :: "link_frame \<Rightarrow> segment option" where
  "segment_of f =
     (let (ts, link, data) = f
      in Option.bind (l3 link data) (\<lambda>(eth, ipd). Option.bind (ip_header eth ipd) (l4 ts)))"

section \<open>DNS questions\<close>

definition qtype_names :: "(nat \<times> string) list" where
  "qtype_names = [(1, ''A''), (28, ''AAAA''), (5, ''CNAME''), (16, ''TXT''), (10, ''NULL''), (15, ''MX''),
     (33, ''SRV''), (12, ''PTR''), (6, ''SOA''), (2, ''NS''), (255, ''ANY''), (48, ''DNSKEY'')]"

definition rcode_names :: "(nat \<times> string) list" where
  "rcode_names = [(0, ''NOERROR''), (1, ''FORMERR''), (2, ''SERVFAIL''), (3, ''NXDOMAIN''), (5, ''REFUSED'')]"

definition name_or_number :: "(nat \<times> string) list \<Rightarrow> nat \<Rightarrow> string" where
  "name_or_number names k = (case map_of names k of Some s \<Rightarrow> s | None \<Rightarrow> nat_str k)"

text \<open>The labels of the first question; a compression pointer or a reserved length gives up.\<close>

function question_labels :: "bytes \<Rightarrow> nat \<Rightarrow> (string list \<times> nat) option" where
  "question_labels p i =
     (if i < length p
      then let ln = unat (p ! i) in
           if ln = 0 then Some ([], i + 1)
           else if 64 \<le> ln then None
           else map_option (\<lambda>(ls, j). (ascii_text (slice (i + 1) ln p) # ls, j)) (question_labels p (i + 1 + ln))
      else Some ([], i))"
  by pat_completeness auto
termination
  by (relation "measure (\<lambda>(p, i). length p - i)") auto

declare question_labels.simps [simp del]

record question =
  qu_name :: string
  qu_type :: string
  qu_qr :: nat
  qu_rcode :: string

definition parse_dns :: "bytes \<Rightarrow> question option" where
  "parse_dns p =
     (if length p < 12 then None
      else let flags = be_value (slice 2 2 p); qd = be_value (slice 4 2 p)
           in if qd < 1 then None
              else case question_labels p 12 of
                     None \<Rightarrow> None
                   | Some (ls, i) \<Rightarrow>
                       if length p < i + 2 then None
                       else Some \<lparr>qu_name = join ''.'' ls, qu_type = name_or_number qtype_names (be_value (slice i 2 p)),
                                  qu_qr = flags div 2 ^ 15 mod 2, qu_rcode = name_or_number rcode_names (flags mod 16)\<rparr>)"

section \<open>Flows\<close>

type_synonym host_port = "string \<times> nat"
type_synonym flow_ends = "host_port \<times> host_port"

record flow =
  fl_ts :: pyfloat
  fl_proto :: transport
  fl_orig :: nat
  fl_resp :: nat

text \<open>\<open>tuple(sorted([(src, sp), (dst, dp)]))\<close>.\<close>

definition canonical_key :: "host_port \<Rightarrow> host_port \<Rightarrow> flow_ends" where
  "canonical_key a b = (if fst a < fst b \<or> fst a = fst b \<and> snd a \<le> snd b then (a, b) else (b, a))"

text \<open>The originator is the internal host where exactly one side is internal, else the first sender.\<close>

definition orient_key :: "host_port \<Rightarrow> host_port \<Rightarrow> flow_ends" where
  "orient_key a b =
     (if is_private_ip (fst a) \<and> \<not> is_private_ip (fst b) then (a, b)
      else if is_private_ip (fst b) \<and> \<not> is_private_ip (fst a) then (b, a)
      else (a, b))"

record flow_table =
  tb_flows :: "(flow_ends, flow) dict"
  tb_orient :: "(flow_ends, flow_ends) dict"

definition conn_step :: "flow_table \<Rightarrow> segment \<Rightarrow> flow_table" where
  "conn_step t s =
     (let a = (sg_src s, sg_sport s); b = (sg_dst s, sg_dport s); ck = canonical_key a b;
          t1 = (if ck \<in> set (dict_keys (tb_orient t)) then t
                else let k = orient_key a b in
                     t\<lparr>tb_orient := dict_set ck k (tb_orient t),
                       tb_flows := dict_set k \<lparr>fl_ts = sg_ts s, fl_proto = sg_proto s, fl_orig = 0, fl_resp = 0\<rparr> (tb_flows t)\<rparr>);
          k = the (map_of (tb_orient t1) ck); c = the (map_of (tb_flows t1) k);
          n = length (sg_data s)
      in t1\<lparr>tb_flows := dict_set k
              (if a = fst k then c\<lparr>fl_orig := fl_orig c + n\<rparr> else c\<lparr>fl_resp := fl_resp c + n\<rparr>) (tb_flows t1)\<rparr>)"

section \<open>Transactions\<close>

record http_row =
  hr_seg :: segment
  hr_method :: string
  hr_uri :: string
  hr_host :: "string option"

record tls_row =
  tr_seg :: segment
  tr_ja3 :: string
  tr_ja4 :: string
  tr_sni :: "string option"

record ftp_row =
  fr_seg :: segment
  fr_cmd :: string
  fr_arg :: string

record smtp_row =
  mr_ts :: pyfloat
  mr_src :: string
  mr_dst :: string
  mr_from :: "string option"
  mr_to :: "string list"
  mr_subj :: "string option"

definition is_http :: "bytes \<Rightarrow> bool" where
  "is_http pl \<longleftrightarrow> latin1 (take 4 pl) \<in> {''GET '', ''POST'', ''HEAD'', ''PUT ''}"

definition http_of :: "segment \<Rightarrow> http_row" where
  "http_of s =
     (let lines = split_crlf (latin1 (take 400 (sg_data s))); p = split_on (CHR '' '') (hd lines)
      in \<lparr>hr_seg = s, hr_method = hd p, hr_uri = (if 1 < length p then p ! 1 else ''/''),
          hr_host = foldl (\<lambda>h l. if starts_with (str_lower l) ''host:'' then Some (strip_by space1 (after_colon l)) else h)
                      None (tl lines)\<rparr>)"

definition is_client_hello :: "bytes \<Rightarrow> bool" where
  "is_client_hello pl \<longleftrightarrow> 5 < length pl \<and> pl ! 0 = 0x16 \<and> pl ! 5 = 0x01"

definition tls_of :: "(string \<Rightarrow> string) \<Rightarrow> (string \<Rightarrow> string) \<Rightarrow> segment \<Rightarrow> tls_row list" where
  "tls_of md5 sha256 s =
     (case fingerprint_client_hello md5 sha256 (drop 5 (sg_data s)) of
        None \<Rightarrow> []
      | Some (j3, j4, sni) \<Rightarrow>
          if j3 = [] then [] else [\<lparr>tr_seg = s, tr_ja3 = j3, tr_ja4 = j4, tr_sni = sni\<rparr>])"

definition is_ftp_store :: "segment \<Rightarrow> bool" where
  "is_ftp_store s \<longleftrightarrow> sg_dport s = 21
     \<and> str_upper (latin1 (take 5 (sg_data s))) \<in> {''STOR '', ''STOU '', ''APPE ''}"

definition ftp_of :: "segment \<Rightarrow> ftp_row" where
  "ftp_of s =
     (let line = hd (split_crlf (latin1 (sg_data s)))
      in case split_once (CHR '' '') line of
           Some (c, a) \<Rightarrow> \<lparr>fr_seg = s, fr_cmd = c, fr_arg = a\<rparr>
         | None \<Rightarrow> \<lparr>fr_seg = s, fr_cmd = line, fr_arg = []\<rparr>)"

definition smtp_ports :: "nat set" where "smtp_ports = {25, 587, 465}"

definition address_of :: "string \<Rightarrow> string" where
  "address_of l = strip_by (\<lambda>c. c \<in> {CHR ''<'', CHR ''>''}) (strip_by space1 (after_colon l))"

definition smtp_line :: "smtp_row \<Rightarrow> string \<Rightarrow> smtp_row" where
  "smtp_line tx l =
     (let low = str_lower l in
      if starts_with low ''mail from:'' then tx\<lparr>mr_from := Some (address_of l)\<rparr>
      else if starts_with low ''rcpt to:''
      then (if address_of l = [] \<or> address_of l \<in> set (mr_to tx) then tx else tx\<lparr>mr_to := mr_to tx @ [address_of l]\<rparr>)
      else if starts_with low ''subject:'' then tx\<lparr>mr_subj := Some (strip_by space1 (after_colon l))\<rparr>
      else tx)"

type_synonym smtp_table = "(string \<times> string \<times> nat, smtp_row) dict"

definition smtp_step :: "smtp_table \<Rightarrow> segment \<Rightarrow> smtp_table" where
  "smtp_step d s =
     (let k = (sg_src s, sg_dst s, sg_dport s);
          tx = (case map_of d k of
                  Some tx \<Rightarrow> tx
                | None \<Rightarrow> \<lparr>mr_ts = sg_ts s, mr_src = sg_src s, mr_dst = sg_dst s, mr_from = None, mr_to = [], mr_subj = None\<rparr>)
      in dict_set k (foldl smtp_line tx (split_crlf (latin1 (sg_data s)))) d)"

section \<open>The whole capture\<close>

record capture_state =
  cs_packets :: nat
  cs_table :: flow_table
  cs_http :: "http_row list"
  cs_dns :: "(segment \<times> question) list"
  cs_tls :: "tls_row list"
  cs_ftp :: "ftp_row list"
  cs_smtp :: smtp_table

definition empty_table :: flow_table where
  "empty_table = \<lparr>tb_flows = [], tb_orient = []\<rparr>"

definition empty_capture :: capture_state where
  "empty_capture = \<lparr>cs_packets = 0, cs_table = empty_table, cs_http = [], cs_dns = [], cs_tls = [], cs_ftp = [], cs_smtp = []\<rparr>"

definition sniff_udp :: "segment \<Rightarrow> capture_state \<Rightarrow> capture_state" where
  "sniff_udp s st =
     (if sg_dport s = 53 \<or> sg_sport s = 53
      then (case parse_dns (sg_data s) of Some q \<Rightarrow> st\<lparr>cs_dns := cs_dns st @ [(s, q)]\<rparr> | None \<Rightarrow> st)
      else st)"

definition sniff_tcp :: "(string \<Rightarrow> string) \<Rightarrow> (string \<Rightarrow> string) \<Rightarrow> segment \<Rightarrow> capture_state \<Rightarrow> capture_state" where
  "sniff_tcp md5 sha256 s st =
     (let pl = sg_data s in
      if pl = [] then st
      else if is_http pl then st\<lparr>cs_http := cs_http st @ [http_of s]\<rparr>
      else if is_client_hello pl then st\<lparr>cs_tls := cs_tls st @ tls_of md5 sha256 s\<rparr>
      else if is_ftp_store s then st\<lparr>cs_ftp := cs_ftp st @ [ftp_of s]\<rparr>
      else if sg_dport s \<in> smtp_ports then st\<lparr>cs_smtp := smtp_step (cs_smtp st) s\<rparr>
      else st)"

definition capture_step ::
    "(string \<Rightarrow> string) \<Rightarrow> (string \<Rightarrow> string) \<Rightarrow> capture_state \<Rightarrow> link_frame \<Rightarrow> capture_state" where
  "capture_step md5 sha256 st f =
     (let st1 = st\<lparr>cs_packets := cs_packets st + 1\<rparr>
      in case segment_of f of
           None \<Rightarrow> st1
         | Some s \<Rightarrow>
             let st2 = st1\<lparr>cs_table := conn_step (cs_table st1) s\<rparr>
             in if sg_proto s = Udp then sniff_udp s st2 else sniff_tcp md5 sha256 s st2)"

definition parse_capture ::
    "(string \<Rightarrow> string) \<Rightarrow> (string \<Rightarrow> string) \<Rightarrow> bytes \<Rightarrow> capture_state res" where
  "parse_capture md5 sha256 file =
     bind_res (iter_packets file) (\<lambda>fs. Inr (foldl (capture_step md5 sha256) empty_capture fs))"

section \<open>Lemmas\<close>

text \<open>A classic capture file of either byte order and resolution.\<close>

definition uint_bytes :: "bool \<Rightarrow> nat \<Rightarrow> nat \<Rightarrow> bytes" where
  "uint_bytes little n k = (if little then le_bytes n k else be_bytes n k)"

definition pcap_magic :: "bool \<Rightarrow> bool \<Rightarrow> bytes" where
  "pcap_magic little nano =
     (if little then (if nano then [0x4d, 0x3c, 0xb2, 0xa1] else [0xd4, 0xc3, 0xb2, 0xa1])
      else (if nano then [0xa1, 0xb2, 0x3c, 0x4d] else [0xa1, 0xb2, 0xc3, 0xd4]))"

record pcap_record =
  pr_sec :: nat
  pr_frac :: nat
  pr_orig :: nat
  pr_data :: bytes

definition record_bytes :: "bool \<Rightarrow> pcap_record \<Rightarrow> bytes" where
  "record_bytes little r =
     uint_bytes little 4 (pr_sec r) @ uint_bytes little 4 (pr_frac r) @ uint_bytes little 4 (length (pr_data r))
     @ uint_bytes little 4 (pr_orig r) @ pr_data r"

definition pcap_header :: "bool \<Rightarrow> bool \<Rightarrow> nat \<Rightarrow> bytes" where
  "pcap_header little nano link =
     pcap_magic little nano @ uint_bytes little 2 2 @ uint_bytes little 2 4 @ uint_bytes little 4 0
     @ uint_bytes little 4 0 @ uint_bytes little 4 65535 @ uint_bytes little 4 link"

definition record_ok :: "pcap_record \<Rightarrow> bool" where
  "record_ok r \<longleftrightarrow> pr_sec r < 2 ^ 32 \<and> pr_frac r < 2 ^ 32 \<and> length (pr_data r) < 2 ^ 32"

definition frame_of_record :: "rat \<Rightarrow> nat \<Rightarrow> pcap_record \<Rightarrow> link_frame" where
  "frame_of_record scale link r = (fadd (of_nat (pr_sec r)) (fdiv (of_nat (pr_frac r)) scale), link, pr_data r)"

lemma length_uint_bytes [simp]: "length (uint_bytes little n k) = n"
  by (simp add: uint_bytes_def)

lemma uint_uint_bytes [simp]: "k < 256 ^ n \<Longrightarrow> uint little (uint_bytes little n k) = k"
  by (simp add: uint_def uint_bytes_def)

lemma record_fields:
  assumes "record_ok r"
  shows "uint little (slice 0 4 (record_bytes little r @ rest)) = pr_sec r"
    "uint little (slice 4 4 (record_bytes little r @ rest)) = pr_frac r"
    "uint little (slice 8 4 (record_bytes little r @ rest)) = length (pr_data r)"
    "slice 16 (length (pr_data r)) (record_bytes little r @ rest) = pr_data r"
    "drop (16 + length (pr_data r)) (record_bytes little r @ rest) = rest"
proof -
  let ?b = "uint_bytes little 4" let ?n = "length (pr_data r)"
  note ok = assms [unfolded record_ok_def]
  show "uint little (slice 0 4 (record_bytes little r @ rest)) = pr_sec r"
    using ok by (simp add: record_bytes_def slice_def)
  have "slice 4 4 (?b (pr_sec r) @ ?b (pr_frac r) @ ?b ?n @ ?b (pr_orig r) @ pr_data r @ rest) = ?b (pr_frac r)"
    by (rule slice_at) simp_all
  then show "uint little (slice 4 4 (record_bytes little r @ rest)) = pr_frac r"
    using ok by (simp add: record_bytes_def)
  have "slice 8 4 ((?b (pr_sec r) @ ?b (pr_frac r)) @ ?b ?n @ ?b (pr_orig r) @ pr_data r @ rest) = ?b ?n"
    by (rule slice_at) simp_all
  then show "uint little (slice 8 4 (record_bytes little r @ rest)) = ?n"
    using ok by (simp add: record_bytes_def)
qed (simp_all add: record_bytes_def slice_def)

lemma pcap_records_cut:
  assumes "record_ok r" "n < length (record_bytes little r)"
  shows "pcap_records little scale link (take n (record_bytes little r)) = []"
proof (cases "n < 16")
  case True
  then show ?thesis by (simp add: pcap_records.simps [of _ _ _ "take n _"])
next
  case False
  let ?t = "take n (record_bytes little r)"
  have "slice 8 4 ?t = slice 8 4 (record_bytes little r)" using False assms(2)
    by (simp add: slice_def drop_take min_def)
  then have incl: "uint little (slice 8 4 ?t) = length (pr_data r)"
    using record_fields(3) [OF assms(1), of little "[]"] by simp
  have "length (slice 16 (length (pr_data r)) ?t) < length (pr_data r)"
    using assms(2) False by (simp add: slice_def record_bytes_def)
  then show ?thesis using incl by (simp add: pcap_records.simps [of _ _ _ ?t] Let_def)
qed

lemma pcap_records_written:
  assumes "list_all record_ok rs" "record_ok r" "n < length (record_bytes little r)"
  shows "pcap_records little scale link (concat (map (record_bytes little) rs) @ take n (record_bytes little r))
     = map (frame_of_record scale link) rs"
  using assms(1)
proof (induction rs)
  case Nil
  then show ?case by (simp add: pcap_records_cut assms)
next
  case (Cons q rs)
  let ?rest = "concat (map (record_bytes little) rs) @ take n (record_bytes little r)"
  have ok: "record_ok q" using Cons.prems by simp
  have long: "\<not> length (record_bytes little q @ ?rest) < 16" by (simp add: record_bytes_def)
  have "pcap_records little scale link (record_bytes little q @ ?rest)
      = frame_of_record scale link q # pcap_records little scale link ?rest"
    by (subst pcap_records.simps)
      (simp only: long record_fields [OF ok] Let_def frame_of_record_def if_False less_irrefl)
  then show ?case using Cons by simp
qed

lemma pcap_header_read:
  assumes "link < 2 ^ 32"
  shows "take 4 (pcap_header little nano link @ rest) = pcap_magic little nano"
    "uint little (slice 20 4 (pcap_header little nano link @ rest)) = link"
    "drop 24 (pcap_header little nano link @ rest) = rest" "\<not> length (pcap_header little nano link @ rest) < 24"
proof -
  have m: "length (pcap_magic little nano) = 4" by (simp add: pcap_magic_def)
  then show "take 4 (pcap_header little nano link @ rest) = pcap_magic little nano"
    "drop 24 (pcap_header little nano link @ rest) = rest" "\<not> length (pcap_header little nano link @ rest) < 24"
    by (simp_all add: pcap_header_def)
  have "slice 20 4 ((pcap_magic little nano @ uint_bytes little 2 2 @ uint_bytes little 2 4 @ uint_bytes little 4 0
     @ uint_bytes little 4 0 @ uint_bytes little 4 65535) @ uint_bytes little 4 link @ rest) = uint_bytes little 4 link"
    by (rule slice_at) (simp_all add: m)
  then show "uint little (slice 20 4 (pcap_header little nano link @ rest)) = link"
    using assms by (simp add: pcap_header_def)
qed

text \<open>Flows as a function of the segments seen.\<close>

definition ends :: "segment \<Rightarrow> host_port \<times> host_port" where
  "ends s = ((sg_src s, sg_sport s), (sg_dst s, sg_dport s))"

definition flow_id :: "segment \<Rightarrow> flow_ends" where
  "flow_id s = canonical_key (fst (ends s)) (snd (ends s))"

definition bytes_between :: "segment list \<Rightarrow> host_port \<Rightarrow> host_port \<Rightarrow> nat" where
  "bytes_between segs a b = sum_list (map (\<lambda>s. if ends s = (a, b) then length (sg_data s) else 0) segs)"

definition flow_of :: "segment list \<Rightarrow> flow_ends \<Rightarrow> flow option" where
  "flow_of segs k =
     (case find (\<lambda>s. flow_id s = canonical_key (fst k) (snd k)) segs of
        None \<Rightarrow> None
      | Some s \<Rightarrow>
          if orient_key (fst (ends s)) (snd (ends s)) = k
          then Some \<lparr>fl_ts = sg_ts s, fl_proto = sg_proto s, fl_orig = bytes_between segs (fst k) (snd k),
                 fl_resp = (if fst k = snd k then 0 else bytes_between segs (snd k) (fst k))\<rparr>
          else None)"

lemma canonical_key_commute: "canonical_key a b = canonical_key b a"
  by (cases a; cases b) (auto simp: canonical_key_def)

lemma canonical_key_eq: "canonical_key a b = canonical_key c d \<longleftrightarrow> (a = c \<and> b = d) \<or> (a = d \<and> b = c)"
proof
  assume eq: "canonical_key a b = canonical_key c d"
  have "canonical_key a b = (a, b) \<or> canonical_key a b = (b, a)" for a b
    by (simp add: canonical_key_def)
  from this [of a b] this [of c d] eq show "(a = c \<and> b = d) \<or> (a = d \<and> b = c)" by auto
qed (auto simp: canonical_key_commute)

lemma orient_key_ends: "orient_key a b = (a, b) \<or> orient_key a b = (b, a)"
  by (simp add: orient_key_def)

lemma canonical_orient: "canonical_key (fst (orient_key a b)) (snd (orient_key a b)) = canonical_key a b"
  using orient_key_ends [of a b] by (auto simp: canonical_key_commute)

lemma find_snoc: "find P (xs @ [x]) = (case find P xs of Some y \<Rightarrow> Some y | None \<Rightarrow> if P x then Some x else None)"
  by (induction xs) auto

lemma find_cong_id: "find P xs = Some y \<Longrightarrow> P y"
  by (induction xs) (auto split: if_splits)

lemma bytes_between_snoc:
  "bytes_between (segs @ [s]) a b = bytes_between segs a b + (if ends s = (a, b) then length (sg_data s) else 0)"
  by (simp add: bytes_between_def)

text \<open>A segment of another flow changes nothing, one of the same flow adds to one direction.\<close>

lemma flow_of_other:
  assumes "flow_id s \<noteq> canonical_key (fst k) (snd k)"
  shows "flow_of (segs @ [s]) k = flow_of segs k"
proof -
  obtain x y where k: "k = (x, y)" by (rule prod.exhaust)
  have "ends s \<noteq> (x, y)" "ends s \<noteq> (y, x)"
    using assms by (auto simp: flow_id_def canonical_key_commute k)
  then have same: "bytes_between (segs @ [s]) x y = bytes_between segs x y"
    "bytes_between (segs @ [s]) y x = bytes_between segs y x"
    by (simp_all only: bytes_between_snoc if_False add_0_right)
  have "flow_id s \<noteq> canonical_key x y" using assms by (simp add: k)
  then show ?thesis unfolding k flow_of_def fst_conv snd_conv same find_snoc by (simp split: option.split)
qed

lemma flow_of_new:
  assumes "find (\<lambda>r. flow_id r = flow_id s) segs = None" "canonical_key (fst k) (snd k) = flow_id s"
  shows "flow_of segs k = None" "bytes_between segs (fst k) (snd k) = 0"
proof -
  have none: "flow_id r \<noteq> flow_id s" if "r \<in> set segs" for r
    using assms(1) that by (auto simp: find_None_iff)
  show "flow_of segs k = None" using assms by (simp add: flow_of_def)
  have "ends r \<noteq> (fst k, snd k)" if "r \<in> set segs" for r
    using none [OF that] assms(2) by (auto simp: flow_id_def)
  then show "bytes_between segs (fst k) (snd k) = 0" by (simp add: bytes_between_def)
qed

definition add_segment :: "flow_ends \<Rightarrow> segment \<Rightarrow> flow \<Rightarrow> flow" where
  "add_segment k s c =
     (if fst (ends s) = fst k then c\<lparr>fl_orig := fl_orig c + length (sg_data s)\<rparr>
      else c\<lparr>fl_resp := fl_resp c + length (sg_data s)\<rparr>)"

lemma add_segment_totals:
  assumes "flow_id s = canonical_key (fst k) (snd k)"
    and "fl_orig c = bytes_between segs (fst k) (snd k)"
    and "fl_resp c = (if fst k = snd k then 0 else bytes_between segs (snd k) (fst k))"
  shows "fl_orig (add_segment k s c) = bytes_between (segs @ [s]) (fst k) (snd k)"
    "fl_resp (add_segment k s c) = (if fst k = snd k then 0 else bytes_between (segs @ [s]) (snd k) (fst k))"
    "fl_ts (add_segment k s c) = fl_ts c" "fl_proto (add_segment k s c) = fl_proto c"
proof -
  obtain a b where e: "ends s = (a, b)" by (rule prod.exhaust)
  obtain x y where k: "k = (x, y)" by (rule prod.exhaust)
  have "a = x \<and> b = y \<or> a = y \<and> b = x"
    using assms(1) by (simp add: flow_id_def canonical_key_eq e k)
  then show "fl_orig (add_segment k s c) = bytes_between (segs @ [s]) (fst k) (snd k)"
    "fl_resp (add_segment k s c) = (if fst k = snd k then 0 else bytes_between (segs @ [s]) (snd k) (fst k))"
    "fl_ts (add_segment k s c) = fl_ts c" "fl_proto (add_segment k s c) = fl_proto c"
    using assms(2,3) by (auto simp: add_segment_def e k bytes_between_snoc)
qed

text \<open>One step in these terms.\<close>

definition flow_start :: "segment \<Rightarrow> flow" where
  "flow_start s = \<lparr>fl_ts = sg_ts s, fl_proto = sg_proto s, fl_orig = 0, fl_resp = 0\<rparr>"

definition orient_of :: "segment \<Rightarrow> flow_ends" where
  "orient_of s = orient_key (fst (ends s)) (snd (ends s))"

lemma conn_step_alt:
  "conn_step t s =
     (let t1 = (if flow_id s \<in> set (dict_keys (tb_orient t)) then t
                else t\<lparr>tb_orient := dict_set (flow_id s) (orient_of s) (tb_orient t),
                       tb_flows := dict_set (orient_of s) (flow_start s) (tb_flows t)\<rparr>);
          k = the (map_of (tb_orient t1) (flow_id s))
      in t1\<lparr>tb_flows := dict_set k (add_segment k s (the (map_of (tb_flows t1) k))) (tb_flows t1)\<rparr>)"
  by (simp only: conn_step_def Let_def flow_id_def ends_def add_segment_def fst_conv snd_conv orient_of_def flow_start_def)

lemma conn_step_seen:
  assumes "map_of (tb_orient t) (flow_id s) = Some k" "map_of (tb_flows t) k = Some c"
  shows "conn_step t s = t\<lparr>tb_flows := dict_set k (add_segment k s c) (tb_flows t)\<rparr>"
proof -
  have "flow_id s \<in> set (dict_keys (tb_orient t))"
    using assms(1) by (metis map_of_eq_None_iff option.distinct(1) set_map)
  then show ?thesis unfolding conn_step_alt Let_def by (simp only: if_True assms option.sel)
qed

lemma conn_step_fresh:
  assumes "map_of (tb_orient t) (flow_id s) = None"
  shows "conn_step t s = t\<lparr>tb_orient := dict_set (flow_id s) (orient_of s) (tb_orient t),
       tb_flows := dict_set (orient_of s) (add_segment (orient_of s) s (flow_start s))
                     (dict_set (orient_of s) (flow_start s) (tb_flows t))\<rparr>"
proof -
  have "flow_id s \<notin> set (dict_keys (tb_orient t))" using assms by (simp add: map_of_eq_None_iff)
  then show ?thesis unfolding conn_step_alt Let_def by (simp only: if_False) simp
qed

lemma flow_of_found:
  "find (\<lambda>r. flow_id r = canonical_key (fst k) (snd k)) segs = Some s \<Longrightarrow> flow_of segs k =
     (if orient_of s = k
      then Some \<lparr>fl_ts = sg_ts s, fl_proto = sg_proto s, fl_orig = bytes_between segs (fst k) (snd k),
             fl_resp = (if fst k = snd k then 0 else bytes_between segs (snd k) (fst k))\<rparr>
      else None)"
  by (simp add: flow_of_def orient_of_def)

lemma canonical_orient_of: "canonical_key (fst (orient_of s)) (snd (orient_of s)) = flow_id s"
  by (simp add: orient_of_def canonical_orient flow_id_def)

definition table_ok :: "flow_table \<Rightarrow> segment list \<Rightarrow> bool" where
  "table_ok t segs \<longleftrightarrow> distinct (dict_keys (tb_flows t))
     \<and> (\<forall>i. map_of (tb_orient t) i = map_option orient_of (find (\<lambda>s. flow_id s = i) segs))
     \<and> (\<forall>k. map_of (tb_flows t) k = flow_of segs k)"

lemma table_okD:
  assumes "table_ok t segs"
  shows "distinct (dict_keys (tb_flows t))"
    "map_of (tb_orient t) i = map_option orient_of (find (\<lambda>s. flow_id s = i) segs)"
    "map_of (tb_flows t) k = flow_of segs k"
  using assms unfolding table_ok_def by blast+

lemma flow_of_add:
  assumes "find (\<lambda>r. flow_id r = flow_id s) (segs @ [s]) = Some s0"
    and "fl_ts c = sg_ts s0" "fl_proto c = sg_proto s0"
    and "fl_orig c = bytes_between segs (fst (orient_of s0)) (snd (orient_of s0))"
    and "fl_resp c = (if fst (orient_of s0) = snd (orient_of s0) then 0
                      else bytes_between segs (snd (orient_of s0)) (fst (orient_of s0)))"
  shows "flow_of (segs @ [s]) k =
     (if k = orient_of s0 then Some (add_segment k s c)
      else if canonical_key (fst k) (snd k) = flow_id s then None else flow_of segs k)"
proof -
  have id: "flow_id s0 = flow_id s" using find_cong_id [OF assms(1)] .
  have k0: "flow_id s = canonical_key (fst (orient_of s0)) (snd (orient_of s0))"
    by (simp add: canonical_orient_of id)
  show ?thesis
  proof (cases "canonical_key (fst k) (snd k) = flow_id s")
    case True
    then have found: "find (\<lambda>r. flow_id r = canonical_key (fst k) (snd k)) (segs @ [s]) = Some s0"
      using assms(1) by simp
    show ?thesis
    proof (cases "k = orient_of s0")
      case same: True
      note tot = add_segment_totals [OF k0 assms(4,5)]
      show ?thesis unfolding flow_of_found [OF found] using same
        by (simp add: tot assms(2,3) flow.equality)
    next
      case False
      then show ?thesis using True by (simp add: flow_of_found [OF found])
    qed
  next
    case False
    then have "k \<noteq> orient_of s0" using k0 by auto
    then show ?thesis using False flow_of_other [of s k segs] by simp
  qed
qed

lemma table_ok_step:
  assumes "table_ok t segs"
  shows "table_ok (conn_step t s) (segs @ [s])"
proof -
  note ok = table_okD [OF assms]
  show ?thesis
  proof (cases "find (\<lambda>r. flow_id r = flow_id s) segs")
    case (Some s0)
    have id: "flow_id s0 = flow_id s" using find_cong_id [OF Some] .
    have o: "map_of (tb_orient t) (flow_id s) = Some (orient_of s0)" using ok Some by simp
    have "find (\<lambda>r. flow_id r = canonical_key (fst (orient_of s0)) (snd (orient_of s0))) segs = Some s0"
      by (simp add: canonical_orient_of id Some)
    then obtain c where c: "flow_of segs (orient_of s0) = Some c"
      "fl_ts c = sg_ts s0" "fl_proto c = sg_proto s0"
      "fl_orig c = bytes_between segs (fst (orient_of s0)) (snd (orient_of s0))"
      "fl_resp c = (if fst (orient_of s0) = snd (orient_of s0) then 0
                    else bytes_between segs (snd (orient_of s0)) (fst (orient_of s0)))"
      by (intro that [OF trans [OF flow_of_found if_P [OF refl]]]) simp_all
    have f: "map_of (tb_flows t) (orient_of s0) = Some c" using ok c(1) by simp
    have found: "find (\<lambda>r. flow_id r = flow_id s) (segs @ [s]) = Some s0" by (simp add: find_snoc Some)
    have gone: "flow_of segs k = None" if "canonical_key (fst k) (snd k) = flow_id s" "k \<noteq> orient_of s0" for k
      using that Some by (simp add: flow_of_def orient_of_def)
    show ?thesis
      unfolding table_ok_def conn_step_seen [OF o f] flow_of_add [OF found c(2-5)]
      using ok(1) gone Some by (auto simp: ok(2,3) find_snoc simp del: split_paired_All split: option.splits)
  next
    case None
    have o: "map_of (tb_orient t) (flow_id s) = None" using ok None by simp
    have found: "find (\<lambda>r. flow_id r = flow_id s) (segs @ [s]) = Some s" by (simp add: find_snoc None)
    have zero: "bytes_between segs (fst k) (snd k) = 0" "bytes_between segs (snd k) (fst k) = 0" "flow_of segs k = None"
      if "canonical_key (fst k) (snd k) = flow_id s" for k
      using flow_of_new [OF None that] flow_of_new(2) [OF None, of "(snd k, fst k)"] that
      by (simp_all add: canonical_key_commute)
    note z = zero [OF canonical_orient_of]
    have "fl_ts (flow_start s) = sg_ts s" "fl_proto (flow_start s) = sg_proto s"
      "fl_orig (flow_start s) = bytes_between segs (fst (orient_of s)) (snd (orient_of s))"
      "fl_resp (flow_start s) = (if fst (orient_of s) = snd (orient_of s) then 0
                                 else bytes_between segs (snd (orient_of s)) (fst (orient_of s)))"
      by (simp_all add: flow_start_def z)
    note add = flow_of_add [OF found this]
    show ?thesis
      unfolding table_ok_def conn_step_fresh [OF o] add
      using ok(1) zero None by (auto simp: ok(2,3) find_snoc simp del: split_paired_All split: option.splits)
  qed
qed

lemma table_ok_fold: "table_ok (foldl conn_step empty_table segs) segs"
proof (induction segs rule: rev_induct)
  case Nil
  show ?case by (simp add: table_ok_def empty_table_def flow_of_def)
next
  case (snoc s segs)
  then show ?case using table_ok_step by simp
qed

text \<open>Every payload byte is counted once.\<close>

lemma sum_dict_set:
  "map_of d k = Some c \<Longrightarrow>
     sum_list (map (\<lambda>e. f (snd e)) (dict_set k c' d)) + f c = sum_list (map (\<lambda>e. f (snd e)) d) + (f c' :: nat)"
  "map_of d k = None \<Longrightarrow> sum_list (map (\<lambda>e. f (snd e)) (dict_set k c d)) = sum_list (map (\<lambda>e. f (snd e)) d) + f c"
  by (induction d) auto

definition flow_bytes :: "flow_table \<Rightarrow> nat" where
  "flow_bytes t = sum_list (map (\<lambda>e. fl_orig (snd e) + fl_resp (snd e)) (tb_flows t))"

lemma add_segment_bytes: "fl_orig (add_segment k s c) + fl_resp (add_segment k s c) = fl_orig c + fl_resp c + length (sg_data s)"
  by (simp add: add_segment_def)

lemma conn_step_bytes:
  assumes "table_ok t segs"
  shows "flow_bytes (conn_step t s) = flow_bytes t + length (sg_data s)"
proof -
  let ?f = "\<lambda>c. fl_orig c + fl_resp c"
  note ok = table_okD [OF assms]
  show ?thesis
  proof (cases "find (\<lambda>r. flow_id r = flow_id s) segs")
    case (Some s0)
    have o: "map_of (tb_orient t) (flow_id s) = Some (orient_of s0)" by (simp add: ok(2) Some)
    have "find (\<lambda>r. flow_id r = canonical_key (fst (orient_of s0)) (snd (orient_of s0))) segs = Some s0"
      by (simp add: canonical_orient_of find_cong_id [OF Some] Some)
    then obtain c where f: "map_of (tb_flows t) (orient_of s0) = Some c"
      by (simp add: ok(3) flow_of_found)
    show ?thesis
      using sum_dict_set(1) [OF f, of ?f "add_segment (orient_of s0) s c"] add_segment_bytes [of "orient_of s0" s c]
      by (simp add: flow_bytes_def conn_step_seen [OF o f])
  next
    case None
    have o: "map_of (tb_orient t) (flow_id s) = None" by (simp add: ok(2) None)
    have "map_of (tb_flows t) (orient_of s) = None"
      using flow_of_new(1) [OF None canonical_orient_of] by (simp add: ok(3))
    from sum_dict_set(2) [OF this, of ?f "flow_start s"]
    have start: "sum_list (map (\<lambda>e. ?f (snd e)) (dict_set (orient_of s) (flow_start s) (tb_flows t)))
        = sum_list (map (\<lambda>e. ?f (snd e)) (tb_flows t))" by (simp add: flow_start_def)
    have "map_of (dict_set (orient_of s) (flow_start s) (tb_flows t)) (orient_of s) = Some (flow_start s)" by simp
    from sum_dict_set(1) [OF this, of ?f "add_segment (orient_of s) s (flow_start s)"] start
    show ?thesis
      using add_segment_bytes [of "orient_of s" s "flow_start s"]
      by (simp add: flow_bytes_def conn_step_fresh [OF o])
  qed
qed

lemma fold_bytes:
  "flow_bytes (foldl conn_step empty_table segs) = sum_list (map (\<lambda>s. length (sg_data s)) segs)"
proof (induction segs rule: rev_induct)
  case (snoc s segs)
  then show ?case using conn_step_bytes [OF table_ok_fold [of segs]] by simp
qed (simp add: flow_bytes_def empty_table_def)

lemma sniff_table [simp]:
  "cs_table (sniff_udp s st) = cs_table st" "cs_table (sniff_tcp md5 sha256 s st) = cs_table st"
  by (simp_all add: sniff_udp_def sniff_tcp_def Let_def split: option.split)

lemma capture_step_table:
  "cs_table (capture_step md5 sha256 st f)
     = (case segment_of f of None \<Rightarrow> cs_table st | Some s \<Rightarrow> conn_step (cs_table st) s)"
  by (simp add: capture_step_def Let_def split: option.split)

lemma capture_table:
  "cs_table (foldl (capture_step md5 sha256) st fs) = foldl conn_step (cs_table st) (List.map_filter segment_of fs)"
proof (induction fs arbitrary: st)
  case (Cons f fs)
  show ?case
    by (cases "segment_of f") (simp_all add: Cons capture_step_table List.map_filter_simps)
qed (simp add: List.map_filter_simps)

text \<open>Questions as a resolver writes them.\<close>

definition plain_label :: "string \<Rightarrow> bool" where
  "plain_label l \<longleftrightarrow> l \<noteq> [] \<and> length l < 64 \<and> (\<forall>c \<in> set l. (of_char c :: nat) < 128)"

lemma question_labels_encoded:
  assumes "list_all plain_label ls"
  shows "question_labels (p @ encode_name ls @ r) (length p) = Some (ls, length p + length (encode_name ls))"
  using assms
proof (induction ls arbitrary: p)
  case Nil
  show ?case by (simp add: question_labels.simps [of _ "length p"] nth_append)
next
  case (Cons l ls)
  let ?q = "p @ encode_name (l # ls) @ r"
  have l: "l \<noteq> []" "length l < 64" "label_ok l" using Cons.prems by (auto simp: plain_label_def label_ok_def)
  have here: "length p < length ?q" "unat (?q ! length p) = length l"
    using l by (simp_all add: nth_append unat_byte)
  have label: "ascii_text (slice (length p + 1) (length l) ?q) = l"
    using ascii_text_label [OF l(3)] by (simp add: slice_def)
  have "question_labels ?q (length p + 1 + length l) =
      question_labels ((p @ of_nat (length l) # map char_byte l) @ encode_name ls @ r)
        (length (p @ of_nat (length l) # map char_byte l))"
    by simp
  also have "\<dots> = Some (ls, length p + length (encode_name (l # ls)))"
    by (subst Cons.IH) (use Cons.prems in simp_all)
  finally have rest: "question_labels ?q (length p + 1 + length l) = \<dots>" .
  show ?case
    by (subst question_labels.simps) (use here l label rest in \<open>simp add: Let_def del: encode_name.simps\<close>)
qed

lemma parse_dns_encoded:
  assumes "length hdr = 12" "list_all plain_label ls" "length qt = 2" "0 < be_value (slice 4 2 hdr)"
  shows "parse_dns (hdr @ encode_name ls @ qt @ extra) =
     Some \<lparr>qu_name = join ''.'' ls, qu_type = name_or_number qtype_names (be_value qt),
           qu_qr = be_value (slice 2 2 hdr) div 2 ^ 15 mod 2,
           qu_rcode = name_or_number rcode_names (be_value (slice 2 2 hdr) mod 16)\<rparr>"
proof -
  let ?p = "hdr @ encode_name ls @ qt @ extra"
  let ?i = "12 + length (encode_name ls)"
  have labels: "question_labels ?p 12 = Some (ls, ?i)"
    using question_labels_encoded [OF assms(2), of hdr "qt @ extra"] assms(1) by simp
  have type: "slice ?i 2 ((hdr @ encode_name ls) @ qt @ extra) = qt"
    by (rule slice_at) (use assms in simp_all)
  have parts: "slice 2 2 ?p = slice 2 2 hdr" "slice 4 2 ?p = slice 4 2 hdr" "\<not> length ?p < 12" "\<not> length ?p < ?i + 2"
    using assms(1,3) by (simp_all add: slice_def)
  have "\<not> be_value (slice 4 2 hdr) < 1" using assms(4) by simp
  then show ?thesis
    using type unfolding parse_dns_def Let_def parts labels option.case prod.case append_assoc
    by (simp only: if_not_P parts not_less if_False simp_thms)
qed

text \<open>An Ethernet frame with an IPv4 header without options and a TCP header without options.\<close>

record tcp_frame =
  tf_macs :: bytes
  tf_ip_rest :: bytes
  tf_ip_more :: bytes
  tf_src :: bytes
  tf_dst :: bytes
  tf_sport :: nat
  tf_dport :: nat
  tf_tcp_seq :: bytes
  tf_tcp_rest :: bytes
  tf_payload :: bytes

definition tcp_frame_ok :: "tcp_frame \<Rightarrow> bool" where
  "tcp_frame_ok f \<longleftrightarrow> length (tf_macs f) = 12 \<and> length (tf_ip_rest f) = 5 \<and> length (tf_ip_more f) = 2
     \<and> length (tf_src f) = 4 \<and> length (tf_dst f) = 4 \<and> tf_sport f < 65536 \<and> tf_dport f < 65536
     \<and> length (tf_tcp_seq f) = 8 \<and> length (tf_tcp_rest f) = 7 \<and> length (tf_payload f) + 40 < 65536"

definition tcp_bytes :: "tcp_frame \<Rightarrow> bytes" where
  "tcp_bytes f =
     be_bytes 2 (tf_sport f) @ be_bytes 2 (tf_dport f) @ tf_tcp_seq f @ [0x50] @ tf_tcp_rest f @ tf_payload f"

text \<open>The total length in the header counts the header, the TCP header and the payload.\<close>

definition frame_bytes :: "tcp_frame \<Rightarrow> bytes" where
  "frame_bytes f =
     tf_macs f @ [0x08, 0x00, 0x45, 0] @ be_bytes 2 (40 + length (tf_payload f)) @ tf_ip_rest f @ [6] @ tf_ip_more f
     @ tf_src f @ tf_dst f @ tcp_bytes f"

lemma segment_of_tcp_frame:
  assumes "tcp_frame_ok f"
  shows "segment_of (ts, 1, frame_bytes f @ padding) =
     Some \<lparr>sg_ts = ts, sg_proto = Tcp, sg_src = ip4_text (tf_src f), sg_sport = tf_sport f,
           sg_dst = ip4_text (tf_dst f), sg_dport = tf_dport f, sg_data = tf_payload f @ padding\<rparr>"
proof -
  note ok = assms [unfolded tcp_frame_ok_def]
  let ?ip = "[0x45, 0] @ be_bytes 2 (40 + length (tf_payload f)) @ tf_ip_rest f @ [6] @ tf_ip_more f
     @ tf_src f @ tf_dst f @ tcp_bytes f @ padding"
  have eth: "slice 12 2 (tf_macs f @ [0x08, 0x00] @ ?ip) = [0x08, 0x00]"
    by (rule slice_at) (use ok in simp_all)
  have l3: "l3 1 (frame_bytes f @ padding) = Some (0x0800, ?ip)"
    using eth ok by (simp add: l3_def frame_bytes_def be_value_def)
  have src: "slice 12 4 (([0x45, 0] @ be_bytes 2 (40 + length (tf_payload f)) @ tf_ip_rest f @ [6] @ tf_ip_more f)
      @ tf_src f @ tf_dst f @ tcp_bytes f @ padding) = tf_src f"
    by (rule slice_at) (use ok in simp_all)
  have dst: "slice 16 4 (([0x45, 0] @ be_bytes 2 (40 + length (tf_payload f)) @ tf_ip_rest f @ [6] @ tf_ip_more f
      @ tf_src f) @ tf_dst f @ tcp_bytes f @ padding) = tf_dst f"
    by (rule slice_at) (use ok in simp_all)
  have proto: "([0x45, 0] @ be_bytes 2 (40 + length (tf_payload f)) @ tf_ip_rest f @ [6] @ tf_ip_more f
      @ tf_src f @ tf_dst f @ tcp_bytes f @ padding) ! 9 = 6"
    using nth_at [of "[0x45, 0] @ be_bytes 2 (40 + length (tf_payload f)) @ tf_ip_rest f" 9 6
      "tf_ip_more f @ tf_src f @ tf_dst f @ tcp_bytes f @ padding"] ok by simp
  have ip: "ip_header 0x0800 ?ip = Some (6, ip4_text (tf_src f), ip4_text (tf_dst f), tcp_bytes f @ padding)"
    using src dst proto ok by (simp add: ip_header_def)
  have ports: "slice 0 2 (tcp_bytes f @ padding) = be_bytes 2 (tf_sport f)"
    "slice 2 2 (tcp_bytes f @ padding) = be_bytes 2 (tf_dport f)"
    by (simp_all add: tcp_bytes_def slice_def)
  have offset: "(tcp_bytes f @ padding) ! 12 = 0x50"
    using nth_at [of "be_bytes 2 (tf_sport f) @ be_bytes 2 (tf_dport f) @ tf_tcp_seq f" 12 "0x50"
      "tf_tcp_rest f @ tf_payload f @ padding"] ok by (simp add: tcp_bytes_def)
  have data: "drop 20 (tcp_bytes f @ padding) = tf_payload f @ padding" "\<not> length (tcp_bytes f @ padding) < 20"
    using ok by (simp_all add: tcp_bytes_def)
  have words: "unat (0x50 :: 8 word) div 16 * 4 = 20" by simp
  show ?thesis
    unfolding segment_of_def Let_def prod.case l3 Option.bind.simps ip l4_def ports offset words data(1) if_not_P [OF data(2)]
    using ok by simp
qed

lemma iter_packets_header:
  assumes "link < 2 ^ 32"
  shows "iter_packets (pcap_header little nano link @ rest)
     = Inr (pcap_records little (if nano then 1000000000 else 1000000) link rest)"
proof -
  note h = pcap_header_read [OF assms, of little nano rest]
  have magic: "pcap_magic little nano \<noteq> [0x0a, 0x0d, 0x0d, 0x0a]" by (simp add: pcap_magic_def)
  have kind: "(pcap_magic little nano = [0xd4, 0xc3, 0xb2, 0xa1] \<or> pcap_magic little nano = [0x4d, 0x3c, 0xb2, 0xa1]) = little"
    "(pcap_magic little nano = [0xa1, 0xb2, 0xc3, 0xd4] \<or> pcap_magic little nano = [0xa1, 0xb2, 0x3c, 0x4d]) = (\<not> little)"
    "(pcap_magic little nano = [0x4d, 0x3c, 0xb2, 0xa1] \<or> pcap_magic little nano = [0xa1, 0xb2, 0x3c, 0x4d]) = nano"
    by (simp_all add: pcap_magic_def)
  have "iter_pcap (pcap_header little nano link @ rest)
      = pcap_records little (if nano then 1000000000 else 1000000) link rest"
    unfolding iter_pcap_def Let_def h(1) kind by (simp only: h(2-4) if_False simp_thms)
  then show ?thesis using magic by (simp only: iter_packets_def h(1) if_False)
qed

section \<open>Properties\<close>

text \<open>
  C29. Reading back a classic capture file of either byte order and either resolution gives every
  record's time, link type and data; a file cut off inside a record loses that record only.
\<close>

theorem pcap_round_trip:
  assumes "list_all record_ok rs" "record_ok r" "n < length (record_bytes little r)" "link < 2 ^ 32"
  shows "iter_packets (pcap_header little nano link @ concat (map (record_bytes little) rs) @ take n (record_bytes little r))
     = Inr (map (frame_of_record (if nano then 1000000000 else 1000000) link) rs)"
  using pcap_records_written [OF assms(1-3)] by (simp only: iter_packets_header [OF assms(4)])

text \<open>
  C30. The flows of a capture are exactly the pairs of endpoints that exchanged segments, one flow
  per pair, with the internal side as originator where exactly one side is internal, the time and
  protocol of the first segment, and the payload bytes of either direction; no byte is lost.
\<close>

theorem flow_accounting:
  assumes "iter_packets content = Inr fs"
  defines "segs \<equiv> List.map_filter segment_of fs"
  shows "\<exists>st. parse_capture md5 sha256 content = Inr st \<and> (let t = cs_table st in
     distinct (dict_keys (tb_flows t)) \<and> (\<forall>k. map_of (tb_flows t) k = flow_of segs k)
     \<and> list_all (\<lambda>k. \<not> (is_private_ip (fst (snd k)) \<and> \<not> is_private_ip (fst (fst k)))) (dict_keys (tb_flows t))
     \<and> flow_bytes t = sum_list (map (\<lambda>s. length (sg_data s)) segs))"
proof -
  let ?st = "foldl (capture_step md5 sha256) empty_capture fs"
  define t where "t = foldl conn_step empty_table segs"
  have table: "cs_table ?st = t"
    by (simp add: t_def segs_def capture_table empty_capture_def)
  note ok = table_okD [OF table_ok_fold [of segs], folded t_def]
  have "\<not> (is_private_ip (fst (snd k)) \<and> \<not> is_private_ip (fst (fst k)))" if "k \<in> set (dict_keys (tb_flows t))" for k
  proof -
    have "map_of (tb_flows t) k \<noteq> None" using that by (simp add: map_of_eq_None_iff)
    then obtain a b where "orient_key a b = k"
      by (auto simp: ok(3) flow_of_def split: option.splits if_splits)
    then show ?thesis by (auto simp: orient_key_def split: if_splits)
  qed
  then have "list_all (\<lambda>k. \<not> (is_private_ip (fst (snd k)) \<and> \<not> is_private_ip (fst (fst k)))) (dict_keys (tb_flows t))"
    unfolding list_all_iff by blast
  moreover have "flow_bytes t = sum_list (map (\<lambda>s. length (sg_data s)) segs)"
    unfolding t_def by (rule fold_bytes)
  ultimately show ?thesis
    unfolding parse_capture_def assms(1) bind_res_simps Let_def
    using ok(1,3) table by (intro exI [of _ ?st]) simp
qed

text \<open>
  The payload of a segment is taken to the end of the frame, not to the total length of the IP
  header: whatever pads the frame is counted, and sniffed, as data of the connection.
\<close>

theorem frame_padding_counted:
  assumes "tcp_frame_ok f" "length padding = n"
  shows "\<exists>s. segment_of (ts, 1, frame_bytes f @ padding) = Some s \<and> sg_data s = tf_payload f @ padding
     \<and> flow_bytes (conn_step empty_table s) = length (tf_payload f) + n
     \<and> segment_of (ts, 1, frame_bytes f) = Some (s\<lparr>sg_data := tf_payload f\<rparr>)"
  using segment_of_tcp_frame [OF assms(1), of ts padding] segment_of_tcp_frame [OF assms(1), of ts "[]"]
    conn_step_bytes [OF table_ok_fold [of "[]"]] assms(2)
  by (simp add: flow_bytes_def empty_table_def)

section \<open>Witnesses\<close>

definition sample_record :: pcap_record where
  "sample_record = \<lparr>pr_sec = 1700000000, pr_frac = 500000, pr_orig = 3, pr_data = [1, 2, 3]\<rparr>"

lemma sample_record_ok: "record_ok sample_record"
  by (simp add: sample_record_def record_ok_def)

lemma pcap_witness:
  "iter_packets (pcap_header True False 1 @ record_bytes True sample_record @ take 18 (record_bytes True sample_record))
     = Inr [frame_of_record 1000000 1 sample_record]"
  using pcap_round_trip [of "[sample_record]" sample_record 18 True 1 False] sample_record_ok
  by (simp add: record_bytes_def sample_record_def)

definition sample_frame :: tcp_frame where
  "sample_frame = \<lparr>tf_macs = replicate 12 1, tf_ip_rest = [0, 0, 0, 0, 64], tf_ip_more = [0, 0], tf_src = [10, 0, 0, 5],
     tf_dst = [8, 8, 8, 8], tf_sport = 5000, tf_dport = 443, tf_tcp_seq = replicate 8 0, tf_tcp_rest = replicate 7 0,
     tf_payload = []\<rparr>"

lemma sample_frame_ok: "tcp_frame_ok sample_frame"
  by (simp add: sample_frame_def tcp_frame_ok_def)

text \<open>A bare acknowledgement, padded to the minimal Ethernet frame of 60 bytes, counts as 6 bytes of data.\<close>

lemma padding_witness:
  "length (frame_bytes sample_frame @ replicate 6 0) = 60
   \<and> (\<exists>s. segment_of (0, 1, frame_bytes sample_frame @ replicate 6 0) = Some s
        \<and> flow_bytes (conn_step empty_table s) = 6)"
  using frame_padding_counted [OF sample_frame_ok, of "replicate 6 0" 6 0]
  by (auto simp: frame_bytes_def tcp_bytes_def sample_frame_def)

lemma sample_capture_read:
  "iter_packets (pcap_header True False 1 @ record_bytes True (sample_record\<lparr>pr_data := frame_bytes sample_frame @ replicate 6 0\<rparr>))
     = Inr [(frame_of_record 1000000 1 (sample_record\<lparr>pr_data := frame_bytes sample_frame @ replicate 6 0\<rparr>))]"
proof -
  let ?r = "sample_record\<lparr>pr_data := frame_bytes sample_frame @ replicate 6 0\<rparr>"
  have "record_ok ?r" by (simp add: sample_record_def record_ok_def frame_bytes_def tcp_bytes_def sample_frame_def)
  then show ?thesis
    using pcap_records_written [of "[?r]" ?r 0 True 1000000 1] iter_packets_header [of 1 True False]
    by (simp add: record_bytes_def)
qed

lemma flow_accounting_witness:
  "\<exists>st. parse_capture (\<lambda>s. s) (\<lambda>s. s) (pcap_header True False 1
        @ record_bytes True (sample_record\<lparr>pr_data := frame_bytes sample_frame @ replicate 6 0\<rparr>)) = Inr st
     \<and> flow_bytes (cs_table st) = 6"
  using flow_accounting [OF sample_capture_read, of "\<lambda>s. s" "\<lambda>s. s"]
    segment_of_tcp_frame [OF sample_frame_ok, of _ "replicate 6 0"]
  by (auto simp: frame_of_record_def List.map_filter_simps Let_def sample_frame_def)

end
