(* ===== verification/ZeekLog.thy ===== *)
theory ZeekLog
  imports Capture Bundle PyNum
begin

text \<open>
  Zeek logs: the writer of \<open>tools/generate_zeek_logs.py\<close>, and the reader and the record
  constructors of \<open>pipeline/zeek_ingest.py\<close>. A log is a text of code points; the JSON decoder is a
  parameter. The loader's records are untyped in Python and here: attribute dictionaries. The typed
  records of the detectors are a second step (\<open>typed_bundle\<close>).
\<close>

section \<open>Writing\<close>

abbreviation tab :: char where "tab \<equiv> CHR 0x09"
abbreviation lf :: char where "lf \<equiv> CHR 0x0A"
abbreviation cr :: char where "cr \<equiv> CHR 0x0D"

definition tsv :: "string list \<Rightarrow> string" where
  "tsv fs = join [tab] fs @ [lf]"

definition zeek_header :: "string \<Rightarrow> string list \<Rightarrow> string" where
  "zeek_header name cols =
     ''#separator '' @ [CHR 0x5C] @ ''x09'' @ [lf] @ ''#path'' @ [tab] @ name @ [lf] @ ''#fields'' @ [tab] @ tsv cols"

definition dash :: "string option \<Rightarrow> string" where
  "dash v = (if truthy v then the v else ''-'')"

text \<open>\<open>enumerate(rows)\<close> with the identifiers \<open>C1\<close>, \<open>C2\<close>, ...\<close>

definition numbered :: "char \<Rightarrow> 'a list \<Rightarrow> (string \<times> 'a) list" where
  "numbered c xs = zip (map (\<lambda>i. c # nat_str (i + 1)) [0..<length xs]) xs"

definition proto_name :: "transport \<Rightarrow> string" where
  "proto_name p = (case p of Tcp \<Rightarrow> ''tcp'' | Udp \<Rightarrow> ''udp'')"

definition conn_fields :: "string list" where
  "conn_fields = [''ts'', ''uid'', ''id.orig_h'', ''id.orig_p'', ''id.resp_h'', ''id.resp_p'', ''proto'', ''service'',
     ''duration'', ''orig_bytes'', ''resp_bytes'', ''history'']"

definition conn_values :: "string \<times> flow_ends \<times> flow \<Rightarrow> string list" where
  "conn_values r = (let (uid, (o_end, r_end), c) = r in
     [float_repr (fl_ts c), uid, fst o_end, nat_str (snd o_end), fst r_end, nat_str (snd r_end),
      proto_name (fl_proto c), ''-'', ''-'', nat_str (fl_orig c), nat_str (fl_resp c), ''-''])"

definition conn_log :: "(flow_ends, flow) dict \<Rightarrow> string" where
  "conn_log conns = zeek_header ''conn'' conn_fields @ concat (map (\<lambda>r. tsv (conn_values r)) (numbered (CHR ''C'') conns))"

definition dns_fields :: "string list" where
  "dns_fields = [''ts'', ''uid'', ''id.orig_h'', ''id.orig_p'', ''id.resp_h'', ''id.resp_p'', ''query'', ''qtype_name'',
     ''rcode_name'']"

definition dns_values :: "string \<times> segment \<times> question \<Rightarrow> string list" where
  "dns_values r = (let (uid, s, q) = r in
     [float_repr (sg_ts s), uid, sg_src s, ''0'', sg_dst s, ''53'', dash (Some (qu_name q)), qu_type q, qu_rcode q])"

definition dns_log :: "(segment \<times> question) list \<Rightarrow> string" where
  "dns_log rows = zeek_header ''dns'' dns_fields @ concat (map (\<lambda>r. tsv (dns_values r)) (numbered (CHR ''D'') rows))"

definition http_fields :: "string list" where
  "http_fields = [''ts'', ''uid'', ''id.orig_h'', ''id.orig_p'', ''id.resp_h'', ''id.resp_p'', ''method'', ''host'', ''uri'',
     ''user_agent'', ''status_code'', ''request_body_len'', ''response_body_len'']"

definition flow_columns :: "string \<Rightarrow> segment \<Rightarrow> string list" where
  "flow_columns uid s =
     [float_repr (sg_ts s), uid, sg_src s, nat_str (sg_sport s), sg_dst s, nat_str (sg_dport s)]"

definition http_values :: "string \<times> http_row \<Rightarrow> string list" where
  "http_values r = (let (uid, h) = r in
     flow_columns uid (hr_seg h) @ [hr_method h, dash (hr_host h), hr_uri h, ''-'', ''-'', ''0'', ''0''])"

definition http_log :: "http_row list \<Rightarrow> string" where
  "http_log rows = zeek_header ''http'' http_fields @ concat (map (\<lambda>r. tsv (http_values r)) (numbered (CHR ''H'') rows))"

definition ssl_fields :: "string list" where
  "ssl_fields = [''ts'', ''uid'', ''id.orig_h'', ''id.orig_p'', ''id.resp_h'', ''id.resp_p'', ''version'', ''cipher'',
     ''curve'', ''server_name'', ''ja3'', ''ja3s'', ''ja4'', ''subject'', ''issuer'', ''validation_status'']"

definition ssl_values :: "string \<times> tls_row \<Rightarrow> string list" where
  "ssl_values r = (let (uid, t) = r in
     flow_columns uid (tr_seg t) @ [''-'', ''-'', ''-'', dash (tr_sni t), tr_ja3 t, ''-'', dash (Some (tr_ja4 t)), ''-'', ''-'', ''-''])"

definition ssl_log :: "tls_row list \<Rightarrow> string" where
  "ssl_log rows = zeek_header ''ssl'' ssl_fields @ concat (map (\<lambda>r. tsv (ssl_values r)) (numbered (CHR ''S'') rows))"

definition ftp_fields :: "string list" where
  "ftp_fields = [''ts'', ''uid'', ''id.orig_h'', ''id.orig_p'', ''id.resp_h'', ''id.resp_p'', ''command'', ''arg'', ''reply_code'']"

definition ftp_values :: "string \<times> ftp_row \<Rightarrow> string list" where
  "ftp_values r = (let (uid, f) = r; s = fr_seg f in
     [float_repr (sg_ts s), uid, sg_src s, nat_str (sg_sport s), sg_dst s, ''21'', fr_cmd f, fr_arg f, ''-''])"

definition ftp_log :: "ftp_row list \<Rightarrow> string" where
  "ftp_log rows = zeek_header ''ftp'' ftp_fields @ concat (map (\<lambda>r. tsv (ftp_values r)) (numbered (CHR ''F'') rows))"

definition smtp_fields :: "string list" where
  "smtp_fields = [''ts'', ''uid'', ''id.orig_h'', ''id.resp_h'', ''mailfrom'', ''rcptto'', ''subject'', ''fuids'']"

definition smtp_values :: "string \<times> smtp_row \<Rightarrow> string list" where
  "smtp_values r = (let (uid, t) = r in
     [float_repr (mr_ts t), uid, mr_src t, mr_dst t, dash (mr_from t), dash (Some (join '','' (mr_to t))), dash (mr_subj t), ''-''])"

text \<open>Mails with neither sender nor recipient are skipped, but counted in the identifiers.\<close>

definition smtp_log :: "smtp_table \<Rightarrow> string" where
  "smtp_log d = zeek_header ''smtp'' smtp_fields
     @ concat (map (\<lambda>r. tsv (smtp_values r))
         (filter (\<lambda>(uid, t). truthy (mr_from t) \<or> mr_to t \<noteq> []) (numbered (CHR ''M'') (dict_values d))))"

definition write_logs :: "capture_state \<Rightarrow> (string \<times> string) list" where
  "write_logs st =
     [(''conn.log'', conn_log (tb_flows (cs_table st))), (''dns.log'', dns_log (cs_dns st)),
      (''http.log'', http_log (cs_http st)), (''ssl.log'', ssl_log (cs_tls st)), (''ftp.log'', ftp_log (cs_ftp st)),
      (''smtp.log'', smtp_log (cs_smtp st))]"

section \<open>Reading\<close>

text \<open>The lines of a file opened in text mode: each of LF, CR and CR LF ends one.\<close>

fun text_lines :: "string \<Rightarrow> string list" where
  "text_lines [] = []"
| "text_lines (c # s) =
     (if c = lf then [] # text_lines s
      else if c = cr then [] # (case s of d # s' \<Rightarrow> if d = lf then text_lines s' else text_lines s | [] \<Rightarrow> [])
      else case text_lines s of [] \<Rightarrow> [[c]] | l # ls \<Rightarrow> (c # l) # ls)"

type_synonym log_row = "(string \<times> pyval) list"

definition clean_row :: "log_row \<Rightarrow> log_row" where
  "clean_row r = map (\<lambda>(k, v). (k, if v \<in> {JStr ''-'', JStr ''(empty)'', JStr []} then JNull else v)) r"

text \<open>\<open>dict(zip(fields, vals))\<close>: the last of equal names wins, in the place of the first.\<close>

definition zip_dict :: "string list \<Rightarrow> string list \<Rightarrow> log_row" where
  "zip_dict ks vs = foldl (\<lambda>d (k, v). dict_set k (JStr v) d) [] (zip ks vs)"

fun zeek_rows :: "(string \<Rightarrow> log_row option) \<Rightarrow> string list \<Rightarrow> string list \<Rightarrow> log_row list" where
  "zeek_rows loads cols [] = []"
| "zeek_rows loads cols (l # ls) =
     (if l = [] then zeek_rows loads cols ls
      else if hd l = CHR 0x7B
      then (case loads l of Some r \<Rightarrow> clean_row r # zeek_rows loads cols ls | None \<Rightarrow> zeek_rows loads cols ls)
      else if starts_with l ''#fields'' then zeek_rows loads (tl (split_on tab l)) ls
      else if starts_with l ''#'' then zeek_rows loads cols ls
      else if cols = [] then zeek_rows loads cols ls
      else clean_row (zip_dict cols (split_on tab l)) # zeek_rows loads cols ls)"

definition read_zeek_log :: "(string \<Rightarrow> log_row option) \<Rightarrow> string option \<Rightarrow> log_row list" where
  "read_zeek_log loads content = (case content of None \<Rightarrow> [] | Some t \<Rightarrow> zeek_rows loads [] (text_lines t))"

section \<open>Records\<close>

text \<open>\<open>_num(v, int)\<close> and \<open>_num(v, float)\<close>.\<close>

definition int_field :: "log_row \<Rightarrow> string \<Rightarrow> int \<Rightarrow> int" where
  "int_field r k d = (case py_int (get r k) of Inr n \<Rightarrow> n | Inl e \<Rightarrow> d)"

definition float_field :: "log_row \<Rightarrow> string \<Rightarrow> pyfloat" where
  "float_field r k = (case py_float (get r k) of Inr x \<Rightarrow> x | Inl e \<Rightarrow> 0)"

text \<open>\<open>_num(v, int, None) if v else None\<close> on a text or a number.\<close>

definition code_field :: "log_row \<Rightarrow> string \<Rightarrow> int option" where
  "code_field r k = (if truth (get r k) then case py_int (get r k) of Inr n \<Rightarrow> Some n | Inl e \<Rightarrow> None else None)"

definition or_else :: "pyval \<Rightarrow> pyval \<Rightarrow> pyval" where
  "or_else v d = (if truth v then v else d)"

text \<open>\<open>_list(v)\<close>.\<close>

definition list_field :: "log_row \<Rightarrow> string \<Rightarrow> pyval list" where
  "list_field r k =
     (case get r k of
        JNull \<Rightarrow> []
      | JList xs \<Rightarrow> xs
      | v \<Rightarrow> map JStr (filter (\<lambda>x. x \<noteq> []) (split_on (CHR '','') (py_str v))))"

text \<open>
  The constructor calls. An object is the dictionary of its attributes: the fields of a dataclass
  hold whatever they are given, so every row becomes a record here.
\<close>

type_synonym attributes = "(string \<times> pyval) list"

definition session_args :: "log_row \<Rightarrow> attributes" where
  "session_args r =
     [(''ts'', JFloat (float_field r ''ts'')), (''src_ip'', or_else (get r ''id.orig_h'') (JStr [])),
      (''src_port'', JInt (int_field r ''id.orig_p'' 0)), (''dst_ip'', or_else (get r ''id.resp_h'') (JStr [])),
      (''dst_port'', JInt (int_field r ''id.resp_p'' 0)), (''proto'', or_else (get r ''proto'') (JStr ''tcp'')),
      (''service'', get r ''service''), (''orig_bytes'', JInt (int_field r ''orig_bytes'' 0)),
      (''resp_bytes'', JInt (int_field r ''resp_bytes'' 0)), (''history'', or_else (get r ''history'') (JStr [])),
      (''duration'', JFloat (float_field r ''duration'')), (''conn_state'', get r ''conn_state''), (''uid'', get r ''uid'')]"

definition dns_args :: "log_row \<Rightarrow> attributes" where
  "dns_args r =
     [(''ts'', JFloat (float_field r ''ts'')), (''src_ip'', or_else (get r ''id.orig_h'') (JStr [])),
      (''dst_ip'', or_else (get r ''id.resp_h'') (JStr [])), (''query'', or_else (get r ''query'') (JStr [])),
      (''qtype'', get r ''qtype_name''), (''rcode'', get r ''rcode_name''), (''answers'', JList (list_field r ''answers'')),
      (''uid'', get r ''uid'')]"

definition code_value :: "int option \<Rightarrow> pyval" where
  "code_value c = (case c of Some n \<Rightarrow> JInt n | None \<Rightarrow> JNull)"

definition http_args :: "log_row \<Rightarrow> attributes" where
  "http_args r =
     [(''ts'', JFloat (float_field r ''ts'')), (''src_ip'', or_else (get r ''id.orig_h'') (JStr [])),
      (''dst_ip'', or_else (get r ''id.resp_h'') (JStr [])), (''dst_port'', JInt (int_field r ''id.resp_p'' 80)),
      (''method'', get r ''method''), (''host'', get r ''host''), (''uri'', get r ''uri''),
      (''user_agent'', get r ''user_agent''), (''status_code'', code_value (code_field r ''status_code'')),
      (''req_body_len'', JInt (int_field r ''request_body_len'' 0)),
      (''resp_body_len'', JInt (int_field r ''response_body_len'' 0)), (''uid'', get r ''uid'')]"

definition tls_args :: "log_row \<Rightarrow> attributes" where
  "tls_args r =
     [(''ts'', JFloat (float_field r ''ts'')), (''src_ip'', or_else (get r ''id.orig_h'') (JStr [])),
      (''dst_ip'', or_else (get r ''id.resp_h'') (JStr [])), (''dst_port'', JInt (int_field r ''id.resp_p'' 443)),
      (''server_name'', get r ''server_name''), (''ja3'', get r ''ja3''), (''ja3s'', get r ''ja3s''), (''ja4'', get r ''ja4''),
      (''subject'', get r ''subject''), (''issuer'', get r ''issuer''), (''validation_status'', get r ''validation_status''),
      (''version'', get r ''version''), (''uid'', get r ''uid'')]"

definition ftp_args :: "log_row \<Rightarrow> attributes" where
  "ftp_args r =
     [(''ts'', JFloat (float_field r ''ts'')), (''src_ip'', or_else (get r ''id.orig_h'') (JStr [])),
      (''dst_ip'', or_else (get r ''id.resp_h'') (JStr [])), (''command'', or_else (get r ''command'') (JStr [])),
      (''arg'', get r ''arg''), (''reply_code'', code_value (code_field r ''reply_code'')), (''uid'', get r ''uid'')]"

definition smtp_args :: "log_row \<Rightarrow> attributes" where
  "smtp_args r =
     [(''ts'', JFloat (float_field r ''ts'')), (''src_ip'', or_else (get r ''id.orig_h'') (JStr [])),
      (''dst_ip'', or_else (get r ''id.resp_h'') (JStr [])), (''mail_from'', get r ''mailfrom''),
      (''rcpt_to'', JList (list_field r ''rcptto'')), (''subject'', get r ''subject''),
      (''attachments'', JList (list_field r ''fuids'')), (''uid'', get r ''uid'')]"

definition first_of :: "pyval list \<Rightarrow> pyval" where
  "first_of xs = (case xs of x # _ \<Rightarrow> x | [] \<Rightarrow> JNull)"

definition file_uid :: "log_row \<Rightarrow> pyval" where
  "file_uid r = (case get r ''conn_uids'' of JList xs \<Rightarrow> first_of xs | v \<Rightarrow> v)"

definition file_args :: "log_row \<Rightarrow> attributes" where
  "file_args r =
     [(''ts'', JFloat (float_field r ''ts'')), (''filename'', get r ''filename''), (''mime_type'', get r ''mime_type''),
      (''total_bytes'', JInt (int_field r ''total_bytes'' 0)), (''md5'', get r ''md5''), (''sha256'', get r ''sha256''),
      (''source_ip'', first_of (list_field r ''tx_hosts'')), (''dest_ip'', first_of (list_field r ''rx_hosts'')),
      (''uid'', file_uid r)]"

record zeek_bundle =
  zb_sessions :: "attributes list"
  zb_dns :: "attributes list"
  zb_http :: "attributes list"
  zb_tls :: "attributes list"
  zb_ftp :: "attributes list"
  zb_smtp :: "attributes list"
  zb_artifacts :: "attributes list"

definition load_zeek_dir :: "(string \<Rightarrow> log_row option) \<Rightarrow> (string \<Rightarrow> string option) \<Rightarrow> zeek_bundle" where
  "load_zeek_dir loads dir =
     \<lparr>zb_sessions = map session_args (read_zeek_log loads (dir ''conn.log'')),
      zb_dns = map dns_args (read_zeek_log loads (dir ''dns.log'')),
      zb_http = map http_args (read_zeek_log loads (dir ''http.log'')),
      zb_tls = map tls_args (read_zeek_log loads (dir ''ssl.log'')),
      zb_ftp = map ftp_args (read_zeek_log loads (dir ''ftp.log'')),
      zb_smtp = map smtp_args (read_zeek_log loads (dir ''smtp.log'')),
      zb_artifacts = map file_args (read_zeek_log loads (dir ''files.log''))\<rparr>"

section \<open>Typed records\<close>

text \<open>
  The detectors are modelled on records whose fields have the types \<open>model.py\<close> declares. Attributes
  that have them are such a record; \<open>None\<close> is only a JSON log whose values contradict the declarations,
  which Python would not notice before a detector uses them.
\<close>

definition is_text :: "pyval \<Rightarrow> bool" where
  "is_text v = (case v of JNull \<Rightarrow> True | JStr s \<Rightarrow> True | _ \<Rightarrow> False)"

definition typed :: "log_row \<Rightarrow> string list \<Rightarrow> bool" where
  "typed r ks = list_all (\<lambda>k. is_text (get r k)) ks"

definition text_field :: "log_row \<Rightarrow> string \<Rightarrow> string option" where
  "text_field r k = (case get r k of JStr s \<Rightarrow> Some s | _ \<Rightarrow> None)"

definition float_attr :: "attributes \<Rightarrow> string \<Rightarrow> pyfloat" where
  "float_attr a k = (case get a k of JFloat x \<Rightarrow> x | _ \<Rightarrow> 0)"

definition int_attr :: "attributes \<Rightarrow> string \<Rightarrow> int" where
  "int_attr a k = (case get a k of JInt n \<Rightarrow> n | _ \<Rightarrow> 0)"

definition code_attr :: "attributes \<Rightarrow> string \<Rightarrow> int option" where
  "code_attr a k = (case get a k of JInt n \<Rightarrow> Some n | _ \<Rightarrow> None)"

definition str_attr :: "attributes \<Rightarrow> string \<Rightarrow> string" where
  "str_attr a k = (case get a k of JStr s \<Rightarrow> s | _ \<Rightarrow> [])"

definition texts_attr :: "attributes \<Rightarrow> string \<Rightarrow> string list option" where
  "texts_attr a k =
     (case get a k of JList xs \<Rightarrow> those (map (\<lambda>x. case x of JStr s \<Rightarrow> Some s | _ \<Rightarrow> None) xs) | _ \<Rightarrow> None)"

definition as_session :: "attributes \<Rightarrow> session option" where
  "as_session a =
     (if typed a [''src_ip'', ''dst_ip'', ''proto'', ''service'', ''history'', ''conn_state'', ''uid'']
      then Some \<lparr>ss_ts = float_attr a ''ts'', ss_src_ip = str_attr a ''src_ip'', ss_src_port = int_attr a ''src_port'',
        ss_dst_ip = str_attr a ''dst_ip'', ss_dst_port = int_attr a ''dst_port'', ss_proto = str_attr a ''proto'',
        ss_service = text_field a ''service'', ss_orig_bytes = int_attr a ''orig_bytes'',
        ss_resp_bytes = int_attr a ''resp_bytes'', ss_history = str_attr a ''history'', ss_duration = float_attr a ''duration'',
        ss_conn_state = text_field a ''conn_state'', ss_uid = text_field a ''uid''\<rparr>
      else None)"

definition as_dns :: "attributes \<Rightarrow> dns_tx option" where
  "as_dns a =
     (if typed a [''src_ip'', ''dst_ip'', ''query'', ''qtype'', ''rcode'', ''uid'']
      then map_option (\<lambda>ans. \<lparr>dn_ts = float_attr a ''ts'', dn_src_ip = str_attr a ''src_ip'', dn_dst_ip = str_attr a ''dst_ip'',
        dn_query = str_attr a ''query'', dn_qtype = text_field a ''qtype'', dn_rcode = text_field a ''rcode'',
        dn_answers = ans, dn_uid = text_field a ''uid''\<rparr>) (texts_attr a ''answers'')
      else None)"

definition as_http :: "attributes \<Rightarrow> http_tx option" where
  "as_http a =
     (if typed a [''src_ip'', ''dst_ip'', ''method'', ''host'', ''uri'', ''user_agent'', ''uid'']
      then Some \<lparr>ht_ts = float_attr a ''ts'', ht_src_ip = str_attr a ''src_ip'', ht_dst_ip = str_attr a ''dst_ip'',
        ht_dst_port = int_attr a ''dst_port'', ht_method = text_field a ''method'', ht_host = text_field a ''host'',
        ht_uri = text_field a ''uri'', ht_user_agent = text_field a ''user_agent'', ht_status_code = code_attr a ''status_code'',
        ht_req_body_len = int_attr a ''req_body_len'', ht_resp_body_len = int_attr a ''resp_body_len'',
        ht_uid = text_field a ''uid''\<rparr>
      else None)"

definition as_tls :: "attributes \<Rightarrow> tls_tx option" where
  "as_tls a =
     (if typed a [''src_ip'', ''dst_ip'', ''server_name'', ''ja3'', ''ja3s'', ''ja4'', ''subject'', ''issuer'',
                  ''validation_status'', ''version'', ''uid'']
      then Some \<lparr>tl_ts = float_attr a ''ts'', tl_src_ip = str_attr a ''src_ip'', tl_dst_ip = str_attr a ''dst_ip'',
        tl_dst_port = int_attr a ''dst_port'', tl_server_name = text_field a ''server_name'', tl_ja3 = text_field a ''ja3'',
        tl_ja3s = text_field a ''ja3s'', tl_ja4 = text_field a ''ja4'', tl_subject = text_field a ''subject'',
        tl_issuer = text_field a ''issuer'', tl_validation_status = text_field a ''validation_status'',
        tl_version = text_field a ''version'', tl_uid = text_field a ''uid''\<rparr>
      else None)"

definition as_ftp :: "attributes \<Rightarrow> ftp_tx option" where
  "as_ftp a =
     (if typed a [''src_ip'', ''dst_ip'', ''command'', ''arg'', ''uid'']
      then Some \<lparr>ft_ts = float_attr a ''ts'', ft_src_ip = str_attr a ''src_ip'', ft_dst_ip = str_attr a ''dst_ip'',
        ft_command = str_attr a ''command'', ft_arg = text_field a ''arg'', ft_reply_code = code_attr a ''reply_code'',
        ft_uid = text_field a ''uid''\<rparr>
      else None)"

definition as_smtp :: "attributes \<Rightarrow> smtp_tx option" where
  "as_smtp a =
     (if typed a [''src_ip'', ''dst_ip'', ''mail_from'', ''subject'', ''uid'']
      then Option.bind (texts_attr a ''rcpt_to'') (\<lambda>rcpt. map_option (\<lambda>att.
        \<lparr>sm_ts = float_attr a ''ts'', sm_src_ip = str_attr a ''src_ip'', sm_dst_ip = str_attr a ''dst_ip'',
         sm_mail_from = text_field a ''mail_from'', sm_rcpt_to = rcpt, sm_subject = text_field a ''subject'',
         sm_attachments = att, sm_uid = text_field a ''uid''\<rparr>) (texts_attr a ''attachments''))
      else None)"

definition as_artifact :: "attributes \<Rightarrow> artifact option" where
  "as_artifact a =
     (if typed a [''filename'', ''mime_type'', ''md5'', ''sha256'', ''source_ip'', ''dest_ip'', ''uid'']
      then Some
        \<lparr>ar_ts = float_attr a ''ts'', ar_filename = text_field a ''filename'', ar_mime_type = text_field a ''mime_type'',
         ar_total_bytes = int_attr a ''total_bytes'', ar_md5 = text_field a ''md5'', ar_sha256 = text_field a ''sha256'',
         ar_source_ip = text_field a ''source_ip'', ar_dest_ip = text_field a ''dest_ip'', ar_is_outbound = False,
         ar_uid = text_field a ''uid'', ar_preview = None\<rparr>
      else None)"

definition typed_bundle :: "zeek_bundle \<Rightarrow> analysis_bundle option" where
  "typed_bundle z =
     Option.bind (those (map as_session (zb_sessions z))) (\<lambda>ss.
     Option.bind (those (map as_dns (zb_dns z))) (\<lambda>ds.
     Option.bind (those (map as_http (zb_http z))) (\<lambda>hs.
     Option.bind (those (map as_tls (zb_tls z))) (\<lambda>ts.
     Option.bind (those (map as_ftp (zb_ftp z))) (\<lambda>fs.
     Option.bind (those (map as_smtp (zb_smtp z))) (\<lambda>ms.
     Option.bind (those (map as_artifact (zb_artifacts z))) (\<lambda>as.
     Some \<lparr>b_source = ''zeek'', b_sessions = ss, b_dns = ds, b_http = hs, b_tls = ts, b_ftp = fs, b_smtp = ms,
           b_artifacts = as, b_icmp = []\<rparr>)))))))"

definition session_of :: "log_row \<Rightarrow> session option" where
  "session_of r = as_session (session_args r)"

definition records :: "(string \<Rightarrow> log_row option) \<Rightarrow> (string \<Rightarrow> string option) \<Rightarrow> string \<Rightarrow> (log_row \<Rightarrow> 'a option) \<Rightarrow> 'a list option" where
  "records loads dir name f = those (map f (read_zeek_log loads (dir name)))"

section \<open>Lemmas\<close>

definition plain :: "string \<Rightarrow> bool" where
  "plain s \<longleftrightarrow> tab \<notin> set s \<and> lf \<notin> set s \<and> cr \<notin> set s"

definition value_text :: "string \<Rightarrow> bool" where
  "value_text s \<longleftrightarrow> plain s \<and> s \<notin> {''-'', ''(empty)'', []}"

lemma text_lines_line:
  "lf \<notin> set l \<Longrightarrow> cr \<notin> set l \<Longrightarrow> text_lines (l @ lf # s) = l # text_lines s"
  by (induction l) auto

lemma plain_join: "list_all plain vs \<Longrightarrow> lf \<notin> set (join [tab] vs) \<and> cr \<notin> set (join [tab] vs)"
  by (induction "[tab]" vs rule: join.induct) (auto simp: plain_def)

lemma text_lines_tsv: "list_all plain vs \<Longrightarrow> text_lines (tsv vs @ s) = join [tab] vs # text_lines s"
  using plain_join [of vs] by (simp add: tsv_def text_lines_line)

lemma split_tsv: "vs \<noteq> [] \<Longrightarrow> list_all plain vs \<Longrightarrow> split_on tab (join [tab] vs) = vs"
  by (rule split_on_join) (auto simp: list_all_iff plain_def)

lemma fields_line:
  "cols \<noteq> [] \<Longrightarrow> list_all plain cols \<Longrightarrow> tl (split_on tab (''#fields'' @ [tab] @ join [tab] cols)) = cols"
  using split_on_append [of tab "''#fields''" "join [tab] cols"] split_tsv [of cols] by simp

lemma text_lines_header:
  assumes "plain name" "cols \<noteq> []" "list_all plain cols"
  shows "text_lines (zeek_header name cols @ s) =
      (''#separator '' @ [CHR 0x5C] @ ''x09'') # (''#path'' @ [tab] @ name) # (''#fields'' @ [tab] @ join [tab] cols) # text_lines s"
proof -
  have sep: "text_lines (''#separator '' @ [CHR 0x5C] @ ''x09'' @ lf # r) = (''#separator '' @ [CHR 0x5C] @ ''x09'') # text_lines r" for r
    using text_lines_line [of "''#separator '' @ [CHR 0x5C] @ ''x09''" r] by simp
  have path: "text_lines (''#path'' @ [tab] @ name @ lf # r) = (''#path'' @ [tab] @ name) # text_lines r" for r
    using text_lines_line [of "''#path'' @ [tab] @ name" r] assms(1) by (simp add: plain_def)
  have "text_lines (''#fields'' @ [tab] @ tsv cols @ s) = (''#fields'' @ [tab] @ join [tab] cols) # text_lines s"
    using text_lines_line [of "''#fields'' @ [tab] @ join [tab] cols" s] plain_join [OF assms(3)]
    by (simp add: tsv_def)
  then show ?thesis using sep path by (simp add: zeek_header_def)
qed

lemma zeek_rows_header:
  assumes "plain name" "cols \<noteq> []" "list_all plain cols"
  shows "zeek_rows loads [] (text_lines (zeek_header name cols @ s)) = zeek_rows loads cols (text_lines s)"
  using fields_line [OF assms(2,3)] by (simp add: text_lines_header [OF assms] starts_with_def)

text \<open>A data line is one that does not look like a header, a comment or JSON.\<close>

definition tsv_line :: "string list \<Rightarrow> bool" where
  "tsv_line vs \<longleftrightarrow> list_all plain vs \<and> vs \<noteq> [] \<and> hd vs \<noteq> [] \<and> hd (hd vs) \<notin> {CHR ''#'', CHR 0x7B}"

lemma hd_join: "vs \<noteq> [] \<Longrightarrow> hd vs \<noteq> [] \<Longrightarrow> join [tab] vs \<noteq> [] \<and> hd (join [tab] vs) = hd (hd vs)"
  by (cases vs rule: remdups_adj.cases) auto

lemma zeek_rows_data:
  assumes "cols \<noteq> []" "list_all tsv_line vss"
  shows "zeek_rows loads cols (text_lines (concat (map tsv vss))) = map (\<lambda>vs. clean_row (zip_dict cols vs)) vss"
  using assms(2)
proof (induction vss)
  case (Cons vs vss)
  have vs: "list_all plain vs" "vs \<noteq> []" "join [tab] vs \<noteq> []" "hd (join [tab] vs) \<notin> {CHR ''#'', CHR 0x7B}"
    using Cons.prems hd_join [of vs] by (auto simp: tsv_line_def)
  obtain c l where l: "join [tab] vs = c # l" using vs(3) by (cases "join [tab] vs") auto
  have "\<not> starts_with (c # l) ''#fields''" "\<not> starts_with (c # l) ''#''" "c \<noteq> CHR 0x7B"
    using vs(4) by (auto simp: l starts_with_def)
  moreover have "split_on tab (c # l) = vs" using split_tsv [OF vs(2,1)] by (simp add: l)
  moreover have "text_lines (concat (map tsv (vs # vss))) = (c # l) # text_lines (concat (map tsv vss))"
    using text_lines_tsv [OF vs(1)] by (simp add: l)
  ultimately show ?case using Cons assms(1) by (simp del: text_lines.simps split_on.simps)
qed simp

lemma zip_dict_distinct:
  "distinct ks \<Longrightarrow> zip_dict ks vs = map (\<lambda>(k, v). (k, JStr v)) (zip ks vs)"
proof -
  have "distinct (map fst d @ ks) \<Longrightarrow>
      foldl (\<lambda>d (k, v). dict_set k (JStr v) d) d (zip ks vs) = d @ map (\<lambda>(k, v). (k, JStr v)) (zip ks vs)" for d
  proof (induction ks arbitrary: vs d)
    case (Cons k ks)
    have new: "dict_set k v d = d @ [(k, v)]" if "k \<notin> set (map fst d)" for k :: string and v :: pyval and d
      using that by (induction d) auto
    show ?case using Cons.prems Cons.IH [of "d @ [(k, JStr (hd vs))]" "tl vs"]
      by (cases vs) (auto simp: new)
  qed simp
  from this [of "[]"] show "distinct ks \<Longrightarrow> ?thesis" by (simp add: zip_dict_def)
qed

text \<open>Numbers and addresses are values that read back.\<close>

lemma digit_run_digits: "s \<noteq> [] \<Longrightarrow> list_all is_digit s \<Longrightarrow> digit_run s"
proof (induction s rule: digit_run.induct)
  case (3 c d s)
  have "d \<noteq> CHR ''_''" using "3.prems" by (auto simp: is_digit_def)
  with 3 show ?case by simp
qed simp_all

lemma digits_plain: "list_all is_digit s \<Longrightarrow> s \<noteq> [] \<Longrightarrow> strip s = s \<and> unsign s = (1, s) \<and> filter is_digit s = s"
proof -
  assume a: "list_all is_digit s" "s \<noteq> []"
  have ns: "\<not> is_space c" if "is_digit c" for c using that by (auto simp: is_digit_def is_space_def Let_def)
  have "dropWhile is_space s = s" if "list_all is_digit s" for s
    using that ns by (cases s) auto
  then have "strip s = s" using a(1) by (simp add: strip_def)
  moreover have "unsign s = (1, s)"
    using a by (cases s) (auto simp: unsign_def is_digit_def)
  moreover have "filter is_digit s = s" using a(1) by (simp add: filter_id_conv list_all_iff)
  ultimately show ?thesis by blast
qed

lemma nat_str_digits: "list_all is_digit (nat_str n)" "nat_str n \<noteq> []"
  using dec_str_digits [of "int n"] by (simp_all add: nat_str_def list_all_iff)

lemma py_int_nat_str: "py_int (JStr (nat_str n)) = Inr (int n)"
  using digits_plain [OF nat_str_digits] digit_run_digits [OF nat_str_digits(2,1)]
  by (simp add: int_of_string_def digits_value_def nat_str_def dec_val_dec_str)

text \<open>The texts of floats and addresses.\<close>

lemma repr_candidate_nonneg: "0 < x \<Longrightarrow> repr_candidate x e n = Some k \<Longrightarrow> 0 \<le> k"
proof -
  assume x: "0 < x" and c: "repr_candidate x e n = Some k"
  define lo where "lo = \<lfloor>x / (10 :: rat) powi (e - int n + 1)\<rfloor>"
  have "0 \<le> lo" using x by (simp add: lo_def)
  moreover have "k = lo \<or> k = lo + 1"
    using c unfolding repr_candidate_def Let_def lo_def [symmetric] by (auto split: if_splits)
  ultimately show "0 \<le> k" by auto
qed

lemma repr_digits_nonneg: "0 < x \<Longrightarrow> 0 \<le> fst (repr_digits x e n fuel)"
proof (induction fuel arbitrary: n)
  case 0
  then show ?case by (simp add: rhe_nonneg)
next
  case (Suc fuel)
  then show ?case by (auto simp: repr_candidate_nonneg split: option.split)
qed

definition float_char :: "char \<Rightarrow> bool" where
  "float_char c \<longleftrightarrow> is_digit c \<or> c \<in> {CHR ''.'', CHR ''e'', CHR ''+'', CHR ''-''}"

lemma float_char_simps [simp]:
  "float_char (CHR ''0'')" "float_char (CHR ''.'')" "float_char (CHR ''e'')" "float_char (CHR ''+'')" "float_char (CHR ''-'')"
  by (simp_all add: float_char_def is_digit_def)

lemma rstrip_char_set: "set (rstrip_char c s) \<subseteq> set s"
  by (auto simp: rstrip_char_def dest: set_dropWhileD)

lemma float_repr_chars:
  "list_all float_char (float_repr x) \<and> (CHR ''.'' \<in> set (float_repr x) \<or> CHR ''e'' \<in> set (float_repr x))"
proof (cases "x = 0")
  case False
  obtain k n where kn: "repr_digits \<bar>x\<bar> (dec_exp \<bar>x\<bar>) 1 16 = (k, n)" by (rule prod.exhaust)
  then have "0 \<le> k" using repr_digits_nonneg [of "\<bar>x\<bar>" "dec_exp \<bar>x\<bar>" 1 16] False by simp
  then have dig: "list_all float_char (dec_str k)"
    using dec_str_digits [of k] by (auto simp: list_all_iff float_char_def)
  define ds where "ds = rstrip_char (CHR ''0'') (dec_str k)"
  have ds: "list_all float_char ds"
    using dig rstrip_char_set [of "CHR ''0''" "dec_str k"] by (auto simp: ds_def list_all_iff)
  have part: "list_all float_char (take i ds)" "list_all float_char (drop i ds)" for i
    using ds set_take_subset [of i ds] set_drop_subset [of i ds] by (auto simp: list_all_iff)
  have expo: "list_all float_char (dec_str \<bar>e\<bar>)" for e
    using dec_str_digits [of "\<bar>e\<bar>"] by (auto simp: list_all_iff float_char_def)
  have rep: "list_all float_char (replicate i (CHR ''0''))" for i by (simp add: list_all_iff)
  show ?thesis
    unfolding float_repr_def Let_def kn prod.case ds_def [symmetric] if_not_P [OF False]
    using ds part expo rep by (simp split: if_split)
qed (simp add: float_repr_def)

lemma float_char_plain: "list_all float_char s \<Longrightarrow> plain s \<and> CHR ''('' \<notin> set s \<and> CHR ''#'' \<notin> set s \<and> CHR 0x7B \<notin> set s"
  by (auto simp: list_all_iff plain_def float_char_def is_digit_def)

lemma float_repr_value:
  "value_text (float_repr x)" "float_repr x \<noteq> []" "hd (float_repr x) \<notin> {CHR ''#'', CHR 0x7B}"
proof -
  have p: "plain (float_repr x)" "CHR ''('' \<notin> set (float_repr x)" "CHR ''#'' \<notin> set (float_repr x)" "CHR 0x7B \<notin> set (float_repr x)"
    using float_char_plain conjunct1 [OF float_repr_chars] by blast+
  show ne: "float_repr x \<noteq> []" using conjunct2 [OF float_repr_chars [of x]] by auto
  show "hd (float_repr x) \<notin> {CHR ''#'', CHR 0x7B}" using p(3,4) hd_in_set [OF ne] by auto
  show "value_text (float_repr x)"
    using p(1,2) conjunct2 [OF float_repr_chars [of x]] by (auto simp: value_text_def)
qed

definition address_char :: "char \<Rightarrow> bool" where
  "address_char c \<longleftrightarrow> is_digit c \<or> c \<in> set ''.:abcdef''"

definition address_text :: "string \<Rightarrow> bool" where
  "address_text s \<longleftrightarrow> s \<noteq> [] \<and> list_all address_char s"

lemma address_value: "address_text s \<Longrightarrow> value_text s"
  by (auto simp: address_text_def value_text_def plain_def address_char_def list_all_iff is_digit_def)

lemma join_chars: "list_all P sep \<Longrightarrow> list_all (list_all P) ss \<Longrightarrow> list_all P (join sep ss)"
  by (induction sep ss rule: join.induct) simp_all

lemma nat_str_address: "list_all address_char (nat_str n)"
  using nat_str_digits(1) [of n] by (auto simp: list_all_iff address_char_def)

lemma hex_nat_chars: "list_all address_char (hex_nat n)"
proof (induction n rule: hex_nat.induct)
  case (1 n)
  have "m < 16 \<Longrightarrow> address_char (''0123456789abcdef'' ! m)" for m
    by (auto simp: address_char_def is_digit_def less_Suc_eq numeral_eq_Suc)
  with 1 show ?case by (cases "n < 16") (simp_all add: hex_nat.simps [of n])
qed

lemma address_colon [simp]: "address_char (CHR '':'')" "address_char (CHR ''.'')" "address_char (CHR ''f'')"
  by (simp_all add: address_char_def)

lemma ip4_text_chars: "list_all address_char (ip4_text bs)"
  unfolding ip4_text_def by (rule join_chars) (simp_all add: list_all_iff nat_str_address [unfolded list_all_iff])

lemma ip4_text_address: "bs \<noteq> [] \<Longrightarrow> address_text (ip4_text bs)"
proof -
  assume "bs \<noteq> []"
  then have "ip4_text bs \<noteq> []"
    by (cases bs rule: remdups_adj.cases) (simp_all add: ip4_text_def nat_str_digits)
  then show ?thesis using ip4_text_chars by (simp add: address_text_def)
qed

lemma hex_nat_nonempty: "hex_nat n \<noteq> []"
  by (subst hex_nat.simps) simp

lemma ip6_text_address: "address_text (ip6_text bs)"
proof -
  have groups: "list_all address_char (join '':'' (map hex_nat ks))" for ks
    by (rule join_chars) (simp_all add: list_all_iff hex_nat_chars [unfolded list_all_iff])
  have eight: "join '':'' (map hex_nat (map f [0..<8])) \<noteq> []" for f
    by (simp add: upt_conv_Cons hex_nat_nonempty)
  obtain b n where bn: "best_run (map (\<lambda>i. be_value (slice (2 * i) 2 bs)) [0..<8]) = (b, n)" by (rule prod.exhaust)
  show ?thesis
    unfolding ip6_text_def Let_def bn prod.case address_text_def
    using groups eight ip4_text_chars by (simp split: if_split del: map_map)
qed

lemma segment_addresses:
  "segment_of f = Some s \<Longrightarrow> address_text (sg_src s) \<and> address_text (sg_dst s)"
proof -
  assume "segment_of f = Some s"
  then obtain ts link data eth ipd h where h: "ip_header eth ipd = Some h" "l4 ts h = Some s"
    by (auto simp: segment_of_def bind_eq_Some_conv split: prod.splits)
  obtain proto src dst b where hh: "h = (proto, src, dst, b)" by (cases h)
  have "address_text src \<and> address_text dst"
    using h(1) ip4_text_address [of "slice 12 4 ipd"] ip4_text_address [of "slice 16 4 ipd"] ip6_text_address
    by (auto simp: hh ip_header_def slice_def split: if_splits)
  moreover have "sg_src s = src \<and> sg_dst s = dst"
    using h(2) by (auto simp: hh l4_def Let_def split: if_splits)
  ultimately show ?thesis by simp
qed

lemma capture_flow_addresses:
  assumes "parse_capture md5 sha256 content = Inr st" "k \<in> set (dict_keys (tb_flows (cs_table st)))"
  shows "address_text (fst (fst k)) \<and> address_text (fst (snd k))"
proof -
  obtain fs where fs: "iter_packets content = Inr fs" "st = foldl (capture_step md5 sha256) empty_capture fs"
    using assms(1) by (auto simp: parse_capture_def bind_res_Inr_iff)
  define segs where "segs = List.map_filter segment_of fs"
  have "cs_table st = foldl conn_step empty_table segs"
    by (simp add: fs(2) segs_def capture_table empty_capture_def)
  then have "map_of (tb_flows (cs_table st)) k = flow_of segs k"
    using table_okD(3) [OF table_ok_fold [of segs], of k] by simp
  moreover have "map_of (tb_flows (cs_table st)) k \<noteq> None" using assms(2) by (simp add: map_of_eq_None_iff)
  ultimately have "flow_of segs k \<noteq> None" by simp
  then obtain s where s: "find (\<lambda>s. flow_id s = canonical_key (fst k) (snd k)) segs = Some s" "orient_of s = k"
    by (auto simp: flow_of_def orient_of_def split: option.splits if_splits)
  then have "s \<in> set segs" by (metis find_Some_iff nth_mem)
  then obtain f where "segment_of f = Some s" by (auto simp: segs_def set_map_filter)
  from segment_addresses [OF this] show ?thesis
    using s(2) orient_key_ends [of "fst (ends s)" "snd (ends s)"] by (auto simp: orient_of_def ends_def)
qed

text \<open>A written value as the reader sees it.\<close>

definition seen :: "string \<Rightarrow> pyval" where
  "seen s = (if s \<in> {''-'', ''(empty)'', []} then JNull else JStr s)"

lemma get_written:
  assumes "distinct ks"
  shows "get (clean_row (zip_dict ks vs)) k = (case map_of (zip ks vs) k of Some s \<Rightarrow> seen s | None \<Rightarrow> JNull)"
proof -
  have "clean_row (map (\<lambda>(k, v). (k, JStr v)) d) = map (\<lambda>(k, v). (k, seen v)) d" for d
    by (auto simp: clean_row_def seen_def)
  moreover have "map_of (map (\<lambda>(k, v). (k, seen v)) d) k = map_option seen (map_of d k)" for d
    by (induction d) auto
  ultimately show ?thesis
    by (simp add: zip_dict_distinct [OF assms] get_def split: option.splits)
qed

lemma seen_value [simp]: "value_text s \<Longrightarrow> seen s = JStr s" "seen ''-'' = JNull"
  by (auto simp: seen_def value_text_def)

text \<open>What a flow is after writing and reading it.\<close>

definition read_float :: "pyfloat \<Rightarrow> pyfloat" where
  "read_float x = (case float_of_string (float_repr x) of Some y \<Rightarrow> y | None \<Rightarrow> 0)"

definition flow_session :: "string \<times> flow_ends \<times> flow \<Rightarrow> session" where
  "flow_session r = (let (uid, (o_end, r_end), c) = r in
     \<lparr>ss_ts = read_float (fl_ts c), ss_src_ip = fst o_end, ss_src_port = int (snd o_end), ss_dst_ip = fst r_end,
      ss_dst_port = int (snd r_end), ss_proto = proto_name (fl_proto c), ss_service = None,
      ss_orig_bytes = int (fl_orig c), ss_resp_bytes = int (fl_resp c), ss_history = [], ss_duration = 0,
      ss_conn_state = None, ss_uid = Some uid\<rparr>)"

lemma number_value: "value_text (nat_str n)"
  using address_value [of "nat_str n"] nat_str_address [of n] nat_str_digits(2) [of n]
  by (simp add: address_text_def)

lemma proto_value: "value_text (proto_name p)"
  by (cases p) (simp_all add: proto_name_def value_text_def plain_def)

lemma uid_value: "c \<notin> {tab, lf, cr, CHR ''-'', CHR ''(''} \<Longrightarrow> value_text (c # nat_str n)"
  using number_value [of n] by (auto simp: value_text_def plain_def)

text \<open>Attributes of a record given by an explicit list.\<close>

lemma get_Cons: "get ((k, v) # d) j = (if j = k then v else get d j)"
  by (simp add: get_def)

lemma is_text_simps [simp]: "is_text (JStr s)" "is_text JNull"
  by (simp_all add: is_text_def)

lemmas attr_simps = get_Cons typed_def text_field_def float_attr_def int_attr_def code_attr_def str_attr_def
  texts_attr_def

lemma conn_values_read:
  assumes "value_text uid" "value_text (fst (fst k))" "value_text (fst (snd k))"
  shows "session_of (clean_row (zip_dict conn_fields (conn_values (uid, k, c)))) = Some (flow_session (uid, k, c))"
    "tsv_line (conn_values (uid, k, c))"
proof -
  obtain oe re where k: "k = (oe, re)" by (rule prod.exhaust)
  define r where "r = clean_row (zip_dict conn_fields (conn_values (uid, k, c)))"
  have d: "distinct conn_fields" by (simp add: conn_fields_def)
  note vals = assms number_value proto_value float_repr_value(1)
  have g: "get r ''ts'' = JStr (float_repr (fl_ts c))" "get r ''uid'' = JStr uid" "get r ''id.orig_h'' = JStr (fst oe)"
    "get r ''id.orig_p'' = JStr (nat_str (snd oe))" "get r ''id.resp_h'' = JStr (fst re)"
    "get r ''id.resp_p'' = JStr (nat_str (snd re))" "get r ''proto'' = JStr (proto_name (fl_proto c))"
    "get r ''service'' = JNull" "get r ''duration'' = JNull" "get r ''orig_bytes'' = JStr (nat_str (fl_orig c))"
    "get r ''resp_bytes'' = JStr (nat_str (fl_resp c))" "get r ''history'' = JNull" "get r ''conn_state'' = JNull"
    unfolding r_def get_written [OF d] using vals by (simp_all add: conn_fields_def conn_values_def k)
  have ne: "fst oe \<noteq> []" "fst re \<noteq> []" "proto_name (fl_proto c) \<noteq> []"
    using vals by (auto simp: k value_text_def)
  have ts: "float_field r ''ts'' = read_float (fl_ts c)"
    by (simp add: float_field_def g read_float_def split: option.split)
  have n: "int_field r ''id.orig_p'' 0 = int (snd oe)" "int_field r ''id.resp_p'' 0 = int (snd re)"
    "int_field r ''orig_bytes'' 0 = int (fl_orig c)" "int_field r ''resp_bytes'' 0 = int (fl_resp c)"
    "float_field r ''duration'' = 0"
    by (simp_all add: int_field_def float_field_def g py_int_nat_str del: py_int.simps(4))
  show "session_of (clean_row (zip_dict conn_fields (conn_values (uid, k, c)))) = Some (flow_session (uid, k, c))"
    unfolding r_def [symmetric] session_of_def session_args_def ts n g or_else_def
    using ne by (simp add: as_session_def attr_simps flow_session_def k)
  show "tsv_line (conn_values (uid, k, c))"
    using vals float_repr_value(2,3) [of "fl_ts c"]
    by (simp add: tsv_line_def conn_values_def k value_text_def) (simp add: plain_def)
qed


lemma those_map_Some: "list_all (\<lambda>x. f x = Some (g x)) xs \<Longrightarrow> those (map f xs) = Some (map g xs)"
  by (induction xs) simp_all

lemma numbered_mem: "p \<in> set (numbered c xs) \<Longrightarrow> \<exists>n. fst p = c # nat_str n \<and> snd p \<in> set xs"
proof -
  assume "p \<in> set (numbered c xs)"
  then have "(fst p, snd p) \<in> set (zip (map (\<lambda>i. c # nat_str (i + 1)) [0..<length xs]) xs)"
    by (simp add: numbered_def)
  from set_zip_leftD [OF this] set_zip_rightD [OF this] show ?thesis by auto
qed

lemma byte_char_char [simp]: "byte_char (char_byte c) = c"
  using of_char_mod_256 [where 'a = nat, of c]
  by (simp add: byte_char_def char_byte_def unat_of_nat)

lemma join_append: "xs \<noteq> [] \<Longrightarrow> ys \<noteq> [] \<Longrightarrow> join sep (xs @ ys) = join sep xs @ sep @ join sep ys"
proof (induction sep xs rule: join.induct)
  case (2 sep p)
  then show ?case by (cases ys) simp_all
qed simp_all

lemma split_crlf_plain: "cr \<notin> set s \<Longrightarrow> split_crlf s = [s]"
  by (induction s rule: split_crlf.induct) auto

lemma conn_log_loads:
  assumes "parse_capture md5 sha256 content = Inr st"
  shows "records loads (map_of (write_logs st)) ''conn.log'' session_of
     = Some (map flow_session (numbered (CHR ''C'') (tb_flows (cs_table st))))"
proof -
  let ?rows = "numbered (CHR ''C'') (tb_flows (cs_table st))"
  have row: "session_of (clean_row (zip_dict conn_fields (conn_values r))) = Some (flow_session r) \<and> tsv_line (conn_values r)"
    if r: "r \<in> set ?rows" for r
  proof -
    obtain uid k c where rr: "r = (uid, k, c)" by (cases r)
    obtain n where n: "uid = CHR ''C'' # nat_str n" "(k, c) \<in> set (tb_flows (cs_table st))"
      using numbered_mem [OF r] by (auto simp: rr)
    have "k \<in> set (dict_keys (tb_flows (cs_table st)))" using n(2) by force
    from capture_flow_addresses [OF assms this]
    have "value_text (fst (fst k))" "value_text (fst (snd k))" using address_value by blast+
    moreover have "value_text uid" unfolding n(1) by (rule uid_value) simp
    ultimately show ?thesis unfolding rr using conn_values_read by blast
  qed
  have lines: "list_all tsv_line (map conn_values ?rows)"
    using row by (simp add: list_all_iff)
  have conn: "conn_fields \<noteq> []" "list_all plain conn_fields" "plain ''conn''"
    by (simp_all add: conn_fields_def plain_def)
  have "read_zeek_log loads (Some (conn_log (tb_flows (cs_table st))))
      = map (\<lambda>r. clean_row (zip_dict conn_fields (conn_values r))) ?rows"
    using zeek_rows_data [OF conn(1) lines, of loads] zeek_rows_header [OF conn(3,1,2)]
    by (simp add: read_zeek_log_def conn_log_def o_def)
  moreover have "map_of (write_logs st) ''conn.log'' = Some (conn_log (tb_flows (cs_table st)))"
    by (simp add: write_logs_def)
  ultimately show ?thesis
    using those_map_Some [of "\<lambda>r. session_of (clean_row (zip_dict conn_fields (conn_values r)))" flow_session ?rows] row
    by (simp add: records_def o_def list_all_iff)
qed

section \<open>Logs by their columns\<close>

text \<open>A log that is missing, or has a header and data lines and nothing else.\<close>

definition written :: "(string \<Rightarrow> string option) \<Rightarrow> string \<Rightarrow> string list \<Rightarrow> string list list \<Rightarrow> bool" where
  "written dir name cols rows \<longleftrightarrow>
     (dir name = None \<and> rows = [])
     \<or> (dir name = Some (zeek_header (takeWhile (\<lambda>c. c \<noteq> CHR ''.'') name) cols @ concat (map tsv rows)) \<and> plain name \<and> cols \<noteq> [] \<and> distinct cols
        \<and> list_all plain cols \<and> list_all tsv_line rows)"

definition column :: "string list \<Rightarrow> string list \<Rightarrow> string \<Rightarrow> string option" where
  "column cols vs k =
     (case map_of (zip cols vs) k of
        Some v \<Rightarrow> if v \<in> {''-'', ''(empty)'', []} then None else Some v
      | None \<Rightarrow> None)"

definition text_column :: "string list \<Rightarrow> string list \<Rightarrow> string \<Rightarrow> string \<Rightarrow> string" where
  "text_column cols vs k d = (case column cols vs k of Some v \<Rightarrow> v | None \<Rightarrow> d)"

definition code_column :: "string list \<Rightarrow> string list \<Rightarrow> string \<Rightarrow> int option" where
  "code_column cols vs k = Option.bind (column cols vs k) int_of_string"

definition int_column :: "string list \<Rightarrow> string list \<Rightarrow> string \<Rightarrow> int \<Rightarrow> int" where
  "int_column cols vs k d = (case code_column cols vs k of Some n \<Rightarrow> n | None \<Rightarrow> d)"

definition float_column :: "string list \<Rightarrow> string list \<Rightarrow> string \<Rightarrow> pyfloat" where
  "float_column cols vs k = (case Option.bind (column cols vs k) float_of_string of Some x \<Rightarrow> x | None \<Rightarrow> 0)"

definition list_column :: "string list \<Rightarrow> string list \<Rightarrow> string \<Rightarrow> string list" where
  "list_column cols vs k =
     (case column cols vs k of Some v \<Rightarrow> filter (\<lambda>x. x \<noteq> []) (split_on (CHR '','') v) | None \<Rightarrow> [])"

definition first_item :: "string list \<Rightarrow> string option" where
  "first_item xs = (case xs of x # _ \<Rightarrow> Some x | [] \<Rightarrow> None)"

definition row_at :: "string list \<Rightarrow> string list \<Rightarrow> log_row" where
  "row_at cols vs = clean_row (zip_dict cols vs)"

lemma written_rows:
  assumes "written dir name cols rows"
  shows "read_zeek_log loads (dir name) = map (row_at cols) rows"
proof -
  have "plain (takeWhile P name)" if "plain name" for P
    using that by (auto simp: plain_def dest: set_takeWhileD)
  then show ?thesis
    using assms zeek_rows_data [of cols rows loads] zeek_rows_header [of _ cols loads]
    by (auto simp: written_def read_zeek_log_def row_at_def)
qed

lemma row_get:
  assumes "distinct cols"
  shows "get (row_at cols vs) k = (case column cols vs k of Some s \<Rightarrow> JStr s | None \<Rightarrow> JNull)"
  by (simp add: row_at_def get_written [OF assms] column_def seen_def split: option.split)

lemma column_nonempty: "column cols vs k = Some s \<Longrightarrow> s \<noteq> []"
  by (auto simp: column_def split: option.splits if_splits)

lemma those_texts: "those (map (\<lambda>x. case x of JStr s \<Rightarrow> Some s | _ \<Rightarrow> None) (map JStr xs)) = Some xs"
  by (induction xs) simp_all

text \<open>The conversions of a row's values.\<close>

lemma row_values:
  assumes "distinct cols"
  shows "int_field (row_at cols vs) k d = int_column cols vs k d"
    "float_field (row_at cols vs) k = float_column cols vs k"
    "code_field (row_at cols vs) k = code_column cols vs k"
    "list_field (row_at cols vs) k = map JStr (list_column cols vs k)"
    "or_else (get (row_at cols vs) k) (JStr t) = JStr (text_column cols vs k t)"
    "is_text (get (row_at cols vs) k)"
  using column_nonempty [of cols vs k]
  by (auto simp: int_field_def float_field_def code_field_def list_field_def or_else_def row_get [OF assms] int_column_def
      float_column_def code_column_def list_column_def text_column_def is_text_def split: option.splits)

lemma column_text:
  assumes "distinct cols"
  shows "(case get (row_at cols vs) k of JStr s \<Rightarrow> Some s | _ \<Rightarrow> None) = column cols vs k"
  by (simp add: row_get [OF assms] split: option.split)

lemma code_text:
  "(case code_value c of JInt n \<Rightarrow> Some n | _ \<Rightarrow> None) = c"
  by (simp add: code_value_def split: option.split)

lemma first_text:
  "is_text (first_of (map JStr xs)) \<and> (case first_of (map JStr xs) of JStr s \<Rightarrow> Some s | _ \<Rightarrow> None) = first_item xs"
  by (cases xs) (simp_all add: first_of_def first_item_def is_text_def)

lemma file_uid_row:
  assumes "distinct cols"
  shows "file_uid (row_at cols vs) = get (row_at cols vs) ''conn_uids''"
  by (simp add: file_uid_def row_get [OF assms] split: option.split)

text \<open>The record of a data line, by its columns.\<close>

lemma row_records:
  assumes "distinct cols"
  shows
    "as_session (session_args (row_at cols vs)) = Some \<lparr>ss_ts = float_column cols vs ''ts'', ss_src_ip = text_column
      cols vs ''id.orig_h'' [], ss_src_port = int_column cols vs ''id.orig_p'' 0, ss_dst_ip = text_column cols vs
      ''id.resp_h'' [], ss_dst_port = int_column cols vs ''id.resp_p'' 0, ss_proto = text_column cols vs ''proto'' ''tcp'',
      ss_service = column cols vs ''service'', ss_orig_bytes = int_column cols vs ''orig_bytes'' 0, ss_resp_bytes =
      int_column cols vs ''resp_bytes'' 0, ss_history = text_column cols vs ''history'' [], ss_duration = float_column cols
      vs ''duration'', ss_conn_state = column cols vs ''conn_state'', ss_uid = column cols vs ''uid''\<rparr>"
    "as_dns (dns_args (row_at cols vs)) = Some \<lparr>dn_ts = float_column cols vs ''ts'', dn_src_ip = text_column cols vs
      ''id.orig_h'' [], dn_dst_ip = text_column cols vs ''id.resp_h'' [], dn_query = text_column cols vs ''query'' [],
      dn_qtype = column cols vs ''qtype_name'', dn_rcode = column cols vs ''rcode_name'', dn_answers = list_column cols vs
      ''answers'', dn_uid = column cols vs ''uid''\<rparr>"
    "as_http (http_args (row_at cols vs)) = Some \<lparr>ht_ts = float_column cols vs ''ts'', ht_src_ip = text_column cols vs
      ''id.orig_h'' [], ht_dst_ip = text_column cols vs ''id.resp_h'' [], ht_dst_port = int_column cols vs ''id.resp_p'' 80,
      ht_method = column cols vs ''method'', ht_host = column cols vs ''host'', ht_uri = column cols vs ''uri'',
      ht_user_agent = column cols vs ''user_agent'', ht_status_code = code_column cols vs ''status_code'', ht_req_body_len =
      int_column cols vs ''request_body_len'' 0, ht_resp_body_len = int_column cols vs ''response_body_len'' 0, ht_uid =
      column cols vs ''uid''\<rparr>"
    "as_tls (tls_args (row_at cols vs)) = Some \<lparr>tl_ts = float_column cols vs ''ts'', tl_src_ip = text_column cols vs
      ''id.orig_h'' [], tl_dst_ip = text_column cols vs ''id.resp_h'' [], tl_dst_port = int_column cols vs ''id.resp_p'' 443,
      tl_server_name = column cols vs ''server_name'', tl_ja3 = column cols vs ''ja3'', tl_ja3s = column cols vs ''ja3s'',
      tl_ja4 = column cols vs ''ja4'', tl_subject = column cols vs ''subject'', tl_issuer = column cols vs ''issuer'',
      tl_validation_status = column cols vs ''validation_status'', tl_version = column cols vs ''version'', tl_uid = column
      cols vs ''uid''\<rparr>"
    "as_ftp (ftp_args (row_at cols vs)) = Some \<lparr>ft_ts = float_column cols vs ''ts'', ft_src_ip = text_column cols vs
      ''id.orig_h'' [], ft_dst_ip = text_column cols vs ''id.resp_h'' [], ft_command = text_column cols vs ''command'' [],
      ft_arg = column cols vs ''arg'', ft_reply_code = code_column cols vs ''reply_code'', ft_uid = column cols vs
      ''uid''\<rparr>"
    "as_smtp (smtp_args (row_at cols vs)) = Some \<lparr>sm_ts = float_column cols vs ''ts'', sm_src_ip = text_column cols vs
      ''id.orig_h'' [], sm_dst_ip = text_column cols vs ''id.resp_h'' [], sm_mail_from = column cols vs ''mailfrom'',
      sm_rcpt_to = list_column cols vs ''rcptto'', sm_subject = column cols vs ''subject'', sm_attachments = list_column cols
      vs ''fuids'', sm_uid = column cols vs ''uid''\<rparr>"
    "as_artifact (file_args (row_at cols vs)) = Some \<lparr>ar_ts = float_column cols vs ''ts'', ar_filename = column cols
      vs ''filename'', ar_mime_type = column cols vs ''mime_type'', ar_total_bytes = int_column cols vs ''total_bytes'' 0,
      ar_md5 = column cols vs ''md5'', ar_sha256 = column cols vs ''sha256'', ar_source_ip = first_item (list_column cols vs
      ''tx_hosts''), ar_dest_ip = first_item (list_column cols vs ''rx_hosts''), ar_is_outbound = False, ar_uid = column cols
      vs ''conn_uids'', ar_preview = None\<rparr>"
  by (simp_all add: as_session_def as_dns_def as_http_def as_tls_def as_ftp_def as_smtp_def as_artifact_def
      session_args_def dns_args_def http_args_def tls_args_def ftp_args_def smtp_args_def file_args_def attr_simps
      row_values [OF assms] file_uid_row [OF assms] column_text [OF assms] code_text those_texts first_text
      del: map_map)

lemma written_records:
  assumes "written dir name cols rows" "\<And>vs. distinct cols \<Longrightarrow> f (row_at cols vs) = Some (g vs)"
  shows "those (map f (read_zeek_log loads (dir name))) = Some (map g rows)"
proof -
  have "rows = [] \<or> distinct cols" using assms(1) by (auto simp: written_def)
  then have "those (map (\<lambda>vs. f (row_at cols vs)) rows) = Some (map g rows)"
    by (auto intro!: those_map_Some simp: assms(2) list_all_iff)
  then show ?thesis by (simp add: written_rows [OF assms(1)] o_def)
qed

section \<open>Properties\<close>

text \<open>
  What the log generator writes about the flows of a capture is what the pipeline loads: one
  session per flow, in order, with the same endpoints, protocol and byte counts.
\<close>

theorem conn_log_round_trip:
  assumes "parse_capture md5 sha256 content = Inr st"
  shows "records loads (map_of (write_logs st)) ''conn.log'' session_of
     = Some (map flow_session (numbered (CHR ''C'') (tb_flows (cs_table st))))"
  by (rule conn_log_loads [OF assms])



text \<open>
  C32. The generator does not escape what it writes: one HTTP request whose path holds a line feed and
  tabs, as the sample may send it, is read back as two transactions, the second entirely of the
  sender's choosing.
\<close>

theorem http_log_injection:
  assumes "tsv_line fs" "length fs = 13" "list_all (\<lambda>f. CHR '' '' \<notin> set f) fs"
    and "sg_data s = map char_byte (''GET /'' @ [lf] @ join [tab] fs @ '' HTTP/1.1'')" "length (sg_data s) \<le> 400"
    and "value_text (sg_src s)" "value_text (sg_dst s)"
  shows "is_http (sg_data s) \<and> read_zeek_log loads (Some (http_log [http_of s]))
       = [clean_row (zip_dict http_fields (flow_columns ''H1'' s @ [''GET'', ''-'', ''/''])), clean_row (zip_dict http_fields fs)]"
proof -
  let ?uri = "''/'' @ [lf] @ join [tab] fs"
  let ?text = "''GET'' @ CHR '' '' # ?uri @ CHR '' '' # ''HTTP/1.1''"
  have payload: "latin1 (sg_data s) = ?text" "latin1 (take 400 (sg_data s)) = ?text"
    using assms(5) by (simp_all add: assms(4) latin1_def o_def)
  have http: "is_http (sg_data s)" by (simp add: is_http_def assms(4) latin1_def)
  have nosp: "CHR '' '' \<notin> set (join [tab] fs)"
    using assms(3) by (induction "[tab]" fs rule: join.induct) auto
  have p: "list_all plain fs" using assms(1) by (simp add: tsv_line_def)
  have "split_on (CHR '' '') ?text = ''GET'' # split_on (CHR '' '') (?uri @ CHR '' '' # ''HTTP/1.1'')"
    by (rule split_on_append) simp
  moreover have "split_on (CHR '' '') (?uri @ CHR '' '' # ''HTTP/1.1'') = ?uri # split_on (CHR '' '') ''HTTP/1.1''"
    by (rule split_on_append) (use nosp in simp)
  ultimately have "split_on (CHR '' '') ?text = [''GET'', ?uri, ''HTTP/1.1'']" by simp
  moreover have "cr \<notin> set ?text" using plain_join [OF p] by simp
  ultimately have h: "http_of s = \<lparr>hr_seg = s, hr_method = ''GET'', hr_uri = ?uri, hr_host = None\<rparr>"
    unfolding http_of_def payload Let_def by (simp add: split_crlf_plain)
  have d: "distinct http_fields" "http_fields \<noteq> []" "list_all plain http_fields" "plain ''http''" "length http_fields = 13"
    by (simp_all add: http_fields_def plain_def)
  have one: "nat_str 1 = ''1''" by code_simp
  let ?first = "flow_columns ''H1'' s @ [''GET'', ''-'', ''/'']" and ?rest = "[''-'', ''-'', ''0'', ''0'']"
  have cols: "tsv_line (flow_columns ''H1'' s @ more)" if "list_all plain more" for more
    using assms(6,7) float_repr_value [of "sg_ts s"] number_value that
    by (simp add: tsv_line_def flow_columns_def value_text_def) (simp add: plain_def)
  have "tsv (http_values (''H1'', http_of s)) = tsv ?first @ tsv (fs @ ?rest)"
    using assms(1) join_append [of fs ?rest "[tab]"]
    by (simp add: http_values_def h flow_columns_def dash_def truthy_def tsv_def tsv_line_def)
  moreover have "numbered (CHR ''H'') [http_of s] = [(''H1'', http_of s)]"
    using one by (simp add: numbered_def)
  ultimately have log: "http_log [http_of s] = zeek_header ''http'' http_fields @ concat (map tsv [?first, fs @ ?rest])"
    by (simp add: http_log_def)
  have lines: "list_all tsv_line [?first, fs @ ?rest]"
    using cols [of "[''GET'', ''-'', ''/'']"] assms(1) by (simp add: plain_def tsv_line_def)
  have "zip_dict http_fields (fs @ ?rest) = zip_dict http_fields fs"
    by (simp add: zip_dict_def zip_append2 d(5) assms(2))
  then show ?thesis
    using http zeek_rows_data [OF d(2) lines, of loads] zeek_rows_header [OF d(4,2,3)]
    by (simp add: read_zeek_log_def log)
qed

section \<open>Witnesses\<close>

lemma conn_log_witness:
  "\<exists>st. records (\<lambda>_. None) (map_of (write_logs st)) ''conn.log'' session_of
        = Some (map flow_session (numbered (CHR ''C'') (tb_flows (cs_table st))))
     \<and> parse_capture (\<lambda>s. s) (\<lambda>s. s) (pcap_header True False 1
        @ record_bytes True (sample_record\<lparr>pr_data := frame_bytes sample_frame @ replicate 6 0\<rparr>)) = Inr st"
proof -
  obtain st where st: "parse_capture (\<lambda>s. s) (\<lambda>s. s) (pcap_header True False 1
        @ record_bytes True (sample_record\<lparr>pr_data := frame_bytes sample_frame @ replicate 6 0\<rparr>)) = Inr st"
    by (simp only: parse_capture_def sample_capture_read bind_res_simps)
  then show ?thesis using conn_log_round_trip [OF st] by blast
qed


definition forged_row :: "string list" where
  "forged_row = [''1.0'', ''H9'', ''10.0.0.5'', ''1'', ''6.6.6.6'', ''80'', ''POST'', ''c2.io'', ''/gate.php'', ''-'', ''200'', ''0'', ''0'']"

definition forging_segment :: segment where
  "forging_segment = \<lparr>sg_ts = 0, sg_proto = Tcp, sg_src = ''10.0.0.5'', sg_sport = 5000, sg_dst = ''8.8.8.8'', sg_dport = 80,
     sg_data = map char_byte (''GET /'' @ [lf] @ join [tab] forged_row @ '' HTTP/1.1'')\<rparr>"

lemma http_log_witness:
  "map (\<lambda>r. get r ''id.resp_h'') (read_zeek_log (\<lambda>_. None) (Some (http_log [http_of forging_segment])))
     = [JStr ''8.8.8.8'', JStr ''6.6.6.6'']"
proof -
  have d: "distinct http_fields" by (simp add: http_fields_def)
  have "tsv_line forged_row" "length forged_row = 13" "list_all (\<lambda>f. CHR '' '' \<notin> set f) forged_row"
    by (simp_all add: forged_row_def tsv_line_def plain_def)
  moreover have "sg_data forging_segment = map char_byte (''GET /'' @ [lf] @ join [tab] forged_row @ '' HTTP/1.1'')"
    "length (sg_data forging_segment) \<le> 400"
    by (simp_all add: forging_segment_def forged_row_def)
  moreover have "value_text (sg_src forging_segment)" "value_text (sg_dst forging_segment)"
    by (simp_all add: forging_segment_def value_text_def plain_def)
  ultimately have "read_zeek_log (\<lambda>_. None) (Some (http_log [http_of forging_segment]))
      = [clean_row (zip_dict http_fields (flow_columns ''H1'' forging_segment @ [''GET'', ''-'', ''/''])),
         clean_row (zip_dict http_fields forged_row)]"
    using http_log_injection by blast
  then show ?thesis
    by (simp add: get_written [OF d]) (simp add: http_fields_def flow_columns_def forged_row_def forging_segment_def seen_def)
qed

end
