(* ===== verification/PcapLoader.thy ===== *)
theory PcapLoader
  imports ZeekLog Detect
begin

text \<open>
  The loaders that read a capture through scapy: flows and cleartext requests
  (\<open>pipeline/pcap_loader.py\<close>), DNS, TLS, mail and ICMP (\<open>pipeline/zeek_ingest.py\<close>), outbound content
  (\<open>pipeline/content_recon.py\<close>), and the JA3 log of \<open>pipeline/ja3_from_pcap.py\<close> with its reader
  \<open>pipeline/ja3_loader.py\<close>. What scapy dissects is the input, one \<open>sc_packet\<close> per packet.
\<close>

section \<open>Packets\<close>

text \<open>A DNS layer: query flag, whether it has a question, its name (\<open>None\<close> if reading it fails), type, code.\<close>

record sc_dns =
  sq_qr :: nat
  sq_question :: bool
  sq_name :: "string option"
  sq_type :: nat
  sq_rcode :: nat

text \<open>The payload of the TCP layer, the \<open>Raw\<close> layer, and of ICMP the type and the payload's length.\<close>

record sc_packet =
  sc_time :: pyfloat
  sc_ip4 :: "(string \<times> string) option"
  sc_ip6 :: "(string \<times> string) option"
  sc_tcp :: "(nat \<times> nat \<times> bytes) option"
  sc_raw :: "bytes option"
  sc_icmp :: "(nat \<times> nat) option"
  sc_dns :: "sc_dns option"

text \<open>\<open>pk.getlayer(A) or pk.getlayer(B)\<close>.\<close>

definition or_layer :: "'a option \<Rightarrow> 'a option \<Rightarrow> 'a option" where
  "or_layer a b = (case a of Some x \<Rightarrow> Some x | None \<Rightarrow> b)"

section \<open>Flows\<close>

record pcap_flow =
  pf_ts :: pyfloat
  pf_orig :: nat
  pf_resp :: nat
  pf_method :: "string option"
  pf_host :: "string option"
  pf_uri :: "string option"
  pf_upload :: "string option"

record pcap_table =
  pt_flows :: "(flow_ends, pcap_flow) dict"
  pt_orient :: "(flow_ends, flow_ends) dict"

definition new_flow :: "pyfloat \<Rightarrow> pcap_flow" where
  "new_flow ts = \<lparr>pf_ts = ts, pf_orig = 0, pf_resp = 0, pf_method = None, pf_host = None, pf_uri = None, pf_upload = None\<rparr>"

definition sniff_method :: "string \<Rightarrow> pcap_flow \<Rightarrow> string \<Rightarrow> pcap_flow" where
  "sniff_method text_head f m =
     (if starts_with text_head (m @ '' '')
      then f\<lparr>pf_method := Some m, pf_uri := Some (split_on (CHR '' '') text_head ! 1),
             pf_host := foldl (\<lambda>h l. if starts_with (str_lower l) ''host:'' then Some (strip_by space1 (after_colon l)) else h)
                          (pf_host f) (split_crlf text_head)\<rparr>
      else f)"

definition is_store_line :: "string \<Rightarrow> bool" where
  "is_store_line l \<longleftrightarrow> (let up = str_upper (strip_by space1 l) in
     starts_with up ''STOR '' \<or> starts_with up ''STOU '' \<or> starts_with up ''APPE '' \<or> up = ''STOU'')"

definition sniff_head :: "bytes \<Rightarrow> pcap_flow \<Rightarrow> pcap_flow" where
  "sniff_head raw f =
     (let h = latin1 (take 200 raw);
          f1 = foldl (sniff_method h) f [''POST'', ''GET'', ''PUT'']
      in if pf_upload f1 = None
         then f1\<lparr>pf_upload := map_option (strip_by space1) (find is_store_line (split_crlf h))\<rparr> else f1)"

definition load_step :: "pcap_table \<Rightarrow> sc_packet \<Rightarrow> pcap_table" where
  "load_step t p =
     (case (sc_tcp p, or_layer (sc_ip6 p) (sc_ip4 p)) of
        (Some (sport, dport, payload), Some (src, dst)) \<Rightarrow>
          (let a = (src, sport); b = (dst, dport); ck = canonical_key a b;
               t1 = (if ck \<in> set (dict_keys (pt_orient t)) then t
                     else t\<lparr>pt_orient := dict_set ck (orient_key a b) (pt_orient t)\<rparr>);
               k = the (map_of (pt_orient t1) ck);
               f = (case map_of (pt_flows t1) k of Some f \<Rightarrow> f | None \<Rightarrow> new_flow (sc_time p));
               n = (case sc_raw p of Some r \<Rightarrow> length r | None \<Rightarrow> 0);
               f1 = (if a = fst k
                     then (let f0 = f\<lparr>pf_orig := pf_orig f + n\<rparr>
                           in case sc_raw p of Some r \<Rightarrow> sniff_head r f0 | None \<Rightarrow> f0)
                     else if a = snd k then f\<lparr>pf_resp := pf_resp f + n\<rparr> else f)
           in t1\<lparr>pt_flows := dict_set k f1 (pt_flows t1)\<rparr>)
      | _ \<Rightarrow> t)"

definition load_pcap :: "sc_packet list \<Rightarrow> connection list" where
  "load_pcap ps = map (\<lambda>(k, f).
     \<lparr>cn_ts = pf_ts f, cn_src_ip = fst (fst k), cn_dst_ip = fst (snd k), cn_dst_port = int (snd (snd k)), cn_proto = ''tcp'',
      cn_orig_bytes = int (pf_orig f), cn_resp_bytes = int (pf_resp f), cn_history = [], cn_http_method = pf_method f,
      cn_http_host = pf_host f, cn_http_uri = pf_uri f, cn_ftp_upload_cmd = pf_upload f\<rparr>)
     (pt_flows (foldl load_step \<lparr>pt_flows = [], pt_orient = []\<rparr> ps))"

section \<open>The single pass\<close>

text \<open>\<open>_sniff_smtp\<close>; the flow's transaction is created before its lines are read.\<close>

definition mail_line :: "smtp_tx \<Rightarrow> string \<Rightarrow> smtp_tx" where
  "mail_line tx l =
     (let low = str_lower l in
      if starts_with low ''mail from:'' then tx\<lparr>sm_mail_from := Some (address_of l)\<rparr>
      else if starts_with low ''rcpt to:''
      then (if address_of l = [] \<or> address_of l \<in> set (sm_rcpt_to tx) then tx
            else tx\<lparr>sm_rcpt_to := sm_rcpt_to tx @ [address_of l]\<rparr>)
      else if starts_with low ''subject:'' then tx\<lparr>sm_subject := Some (strip_by space1 (after_colon l))\<rparr>
      else if starts_with low ''content-disposition:'' \<and> contains ''attachment'' low
      then tx\<lparr>sm_attachments := sm_attachments tx @ [''attachment'']\<rparr>
      else tx)"

record pass_state =
  pa_dns :: "dns_tx list"
  pa_tls :: "(string \<times> string \<times> nat, tls_tx) dict"
  pa_smtp :: "(string \<times> string \<times> nat, smtp_tx) dict"
  pa_icmp :: "(string \<times> string \<times> int) list"

definition sniff_mail :: "sc_packet \<Rightarrow> string \<times> string \<times> nat \<Rightarrow> bytes \<Rightarrow> pass_state \<Rightarrow> pass_state" where
  "sniff_mail p k payload st =
     (let tx = (case map_of (pa_smtp st) k of
                  Some tx \<Rightarrow> tx
                | None \<Rightarrow> \<lparr>sm_ts = sc_time p, sm_src_ip = fst k, sm_dst_ip = fst (snd k), sm_mail_from = None, sm_rcpt_to = [],
                           sm_subject = None, sm_attachments = [], sm_uid = None\<rparr>)
      in st\<lparr>pa_smtp := dict_set k (foldl mail_line tx (split_crlf (latin1 payload))) (pa_smtp st)\<rparr>)"

definition sniff_tls ::
    "(string \<Rightarrow> string) \<Rightarrow> (string \<Rightarrow> string) \<Rightarrow> sc_packet \<Rightarrow> string \<times> string \<times> nat \<Rightarrow> bytes \<Rightarrow> pass_state \<Rightarrow> pass_state" where
  "sniff_tls md5 sha256 p k payload st =
     (case fingerprint_client_hello md5 sha256 (drop 5 payload) of
        Some (j3, j4, sni) \<Rightarrow>
          (if j3 = [] \<or> k \<in> set (dict_keys (pa_tls st)) then st
           else st\<lparr>pa_tls := dict_set k
             \<lparr>tl_ts = sc_time p, tl_src_ip = fst k, tl_dst_ip = fst (snd k), tl_dst_port = int (snd (snd k)), tl_server_name = sni,
              tl_ja3 = Some j3, tl_ja3s = None, tl_ja4 = Some j4, tl_subject = None, tl_issuer = None,
              tl_validation_status = None, tl_version = None, tl_uid = None\<rparr> (pa_tls st)\<rparr>)
      | None \<Rightarrow> st)"

definition query_of :: "sc_packet \<Rightarrow> string \<times> string \<Rightarrow> sc_dns \<Rightarrow> dns_tx list" where
  "query_of p l d =
     (case sq_name d of
        None \<Rightarrow> []
      | Some q \<Rightarrow> [\<lparr>dn_ts = sc_time p, dn_src_ip = fst l, dn_dst_ip = snd l, dn_query = rstrip_char (CHR ''.'') q,
                   dn_qtype = Some (name_or_number qtype_names (sq_type d)), dn_rcode = map_of rcode_names (sq_rcode d),
                   dn_answers = [], dn_uid = None\<rparr>])"

definition is_echo :: "sc_packet \<Rightarrow> nat option" where
  "is_echo p = (case sc_icmp p of Some (ty, n) \<Rightarrow> if ty = 8 \<or> ty = 0 then Some n else None | None \<Rightarrow> None)"

definition is_query :: "sc_packet \<Rightarrow> sc_dns option" where
  "is_query p = (case sc_dns p of Some d \<Rightarrow> if sq_question d \<and> sq_qr d = 0 then Some d else None | None \<Rightarrow> None)"

definition pass_step ::
    "(string \<Rightarrow> string) \<Rightarrow> (string \<Rightarrow> string) \<Rightarrow> pass_state \<Rightarrow> sc_packet \<Rightarrow> pass_state" where
  "pass_step md5 sha256 st p =
     (case or_layer (sc_ip4 p) (sc_ip6 p) of
        None \<Rightarrow> st
      | Some l \<Rightarrow>
          (case is_echo p of
             Some n \<Rightarrow> st\<lparr>pa_icmp := pa_icmp st @ [(fst l, snd l, int n)]\<rparr>
           | None \<Rightarrow>
               (case is_query p of
                  Some d \<Rightarrow> st\<lparr>pa_dns := pa_dns st @ query_of p l d\<rparr>
                | None \<Rightarrow>
                    (case sc_tcp p of
                       None \<Rightarrow> st
                     | Some (sport, dport, payload) \<Rightarrow>
                         if is_client_hello payload then sniff_tls md5 sha256 p (fst l, snd l, dport) payload st
                         else if dport \<in> smtp_ports \<and> sc_raw p \<noteq> None then sniff_mail p (fst l, snd l, dport) payload st
                         else st))))"

definition dns_tls_smtp_from_pcap :: "(string \<Rightarrow> string) \<Rightarrow> (string \<Rightarrow> string) \<Rightarrow> sc_packet list \<Rightarrow> pass_state" where
  "dns_tls_smtp_from_pcap md5 sha256 ps =
     foldl (pass_step md5 sha256) \<lparr>pa_dns = [], pa_tls = [], pa_smtp = [], pa_icmp = []\<rparr> ps"

section \<open>The bundle\<close>

definition session_of_conn :: "connection \<Rightarrow> session" where
  "session_of_conn c =
     \<lparr>ss_ts = cn_ts c, ss_src_ip = cn_src_ip c, ss_src_port = 0, ss_dst_ip = cn_dst_ip c, ss_dst_port = cn_dst_port c,
      ss_proto = cn_proto c, ss_service = None, ss_orig_bytes = cn_orig_bytes c, ss_resp_bytes = cn_resp_bytes c,
      ss_history = cn_history c, ss_duration = 0, ss_conn_state = None, ss_uid = None\<rparr>"

definition http_of_conn :: "connection \<Rightarrow> http_tx list" where
  "http_of_conn c =
     (if truthy (cn_http_method c)
      then [\<lparr>ht_ts = cn_ts c, ht_src_ip = cn_src_ip c, ht_dst_ip = cn_dst_ip c, ht_dst_port = cn_dst_port c,
             ht_method = cn_http_method c, ht_host = cn_http_host c, ht_uri = cn_http_uri c, ht_user_agent = None,
             ht_status_code = None, ht_req_body_len = 0, ht_resp_body_len = 0, ht_uid = None\<rparr>]
      else [])"

definition ftp_of_conn :: "connection \<Rightarrow> ftp_tx list" where
  "ftp_of_conn c =
     (if truthy (cn_ftp_upload_cmd c)
      then let cmd = the (cn_ftp_upload_cmd c); sp = split_once (CHR '' '') cmd
           in [\<lparr>ft_ts = cn_ts c, ft_src_ip = cn_src_ip c, ft_dst_ip = cn_dst_ip c,
                ft_command = (case sp of Some (x, _) \<Rightarrow> x | None \<Rightarrow> cmd), ft_arg = map_option snd sp, ft_reply_code = None,
                ft_uid = None\<rparr>]
      else [])"

definition bundle_from_pcap :: "(string \<Rightarrow> string) \<Rightarrow> (string \<Rightarrow> string) \<Rightarrow> sc_packet list \<Rightarrow> analysis_bundle" where
  "bundle_from_pcap md5 sha256 ps =
     (let cs = load_pcap ps; pass = dns_tls_smtp_from_pcap md5 sha256 ps
      in \<lparr>b_source = ''pcap'', b_sessions = map session_of_conn cs, b_dns = pa_dns pass,
          b_http = concat (map http_of_conn cs), b_tls = dict_values (pa_tls pass), b_ftp = concat (map ftp_of_conn cs),
          b_smtp = dict_values (pa_smtp pass), b_artifacts = [], b_icmp = pa_icmp pass\<rparr>)"

text \<open>\<open>load_bundle\<close>: the Zeek directory if it has a connection log, else the capture.\<close>

datatype loaded =
    FromZeek zeek_bundle
  | FromPcap analysis_bundle

definition load_bundle ::
    "(string \<Rightarrow> log_row option) \<Rightarrow> (string \<Rightarrow> string) \<Rightarrow> (string \<Rightarrow> string) \<Rightarrow> sc_packet list option
     \<Rightarrow> (string \<Rightarrow> string option) option \<Rightarrow> loaded res" where
  "load_bundle loads md5 sha256 pcap zeek =
     (case zeek of
        Some dir \<Rightarrow>
          if dir ''conn.log'' \<noteq> None then Inr (FromZeek (load_zeek_dir loads dir))
          else (case pcap of Some ps \<Rightarrow> Inr (FromPcap (bundle_from_pcap md5 sha256 ps))
                | None \<Rightarrow> Inl (ValueError ''load_bundle needs a zeek_dir with conn.log or a pcap_path''))
      | None \<Rightarrow>
          (case pcap of Some ps \<Rightarrow> Inr (FromPcap (bundle_from_pcap md5 sha256 ps))
           | None \<Rightarrow> Inl (ValueError ''load_bundle needs a zeek_dir with conn.log or a pcap_path'')))"

text \<open>A bundle as the detectors are modelled on it: its attributes have the declared types.\<close>

definition typed_loaded :: "loaded \<Rightarrow> analysis_bundle option" where
  "typed_loaded b = (case b of FromZeek z \<Rightarrow> typed_bundle z | FromPcap x \<Rightarrow> Some x)"

section \<open>Outbound content\<close>

record out_flow =
  of_buf :: bytes
  of_size :: nat
  of_ts :: pyfloat

definition recon_step :: "nat \<Rightarrow> (string \<times> string \<times> nat, out_flow) dict \<Rightarrow> sc_packet \<Rightarrow> (string \<times> string \<times> nat, out_flow) dict" where
  "recon_step cap flows p =
     (case (sc_tcp p, sc_raw p, or_layer (sc_ip4 p) (sc_ip6 p)) of
        (Some (sport, dport, data), Some r, Some (src, dst)) \<Rightarrow>
          (if is_private_ip dst \<or> data = [] then flows
           else let k = (src, dst, dport);
                    f = (case map_of flows k of Some f \<Rightarrow> f | None \<Rightarrow> \<lparr>of_buf = [], of_size = 0, of_ts = sc_time p\<rparr>);
                    f1 = f\<lparr>of_size := of_size f + length data\<rparr>
                in dict_set k (if length (of_buf f1) < cap
                               then f1\<lparr>of_buf := of_buf f1 @ take (cap - length (of_buf f1)) data\<rparr> else f1) flows)
      | _ \<Rightarrow> flows)"

definition preview_text :: "bytes \<Rightarrow> string" where
  "preview_text content = map (\<lambda>b. if 32 \<le> unat b \<and> unat b < 127 then byte_char b else CHR ''.'') (take 300 content)"

definition reconstruct_outbound_content ::
    "(bytes \<Rightarrow> string) \<Rightarrow> nat \<Rightarrow> nat \<Rightarrow> sc_packet list \<Rightarrow> artifact list" where
  "reconstruct_outbound_content sha min_bytes cap ps =
     map (\<lambda>((src, dst, dport), f).
       \<lparr>ar_ts = of_ts f, ar_filename = None, ar_mime_type = None, ar_total_bytes = int (of_size f), ar_md5 = None,
        ar_sha256 = Some (sha (of_buf f)), ar_source_ip = Some src, ar_dest_ip = Some dst, ar_is_outbound = True,
        ar_uid = None, ar_preview = Some (preview_text (of_buf f))\<rparr>)
     (filter (\<lambda>(k, f). min_bytes \<le> of_size f) (foldl (recon_step cap) [] ps))"

text \<open>\<open>outbound_artifacts\<close>; the bundle's own artifacts are marked in place, so the result lists them marked.\<close>

definition leaves :: "artifact \<Rightarrow> bool" where
  "leaves a \<longleftrightarrow> ar_is_outbound a
     \<or> truthy (ar_source_ip a) \<and> is_private_ip (the (ar_source_ip a))
       \<and> truthy (ar_dest_ip a) \<and> \<not> is_private_ip (the (ar_dest_ip a))"

definition outbound_artifacts :: "(bytes \<Rightarrow> string) \<Rightarrow> analysis_bundle \<Rightarrow> sc_packet list \<Rightarrow> artifact list" where
  "outbound_artifacts sha b ps =
     (let zeek_out = filter leaves (b_artifacts b)
      in if zeek_out \<noteq> [] then map (\<lambda>a. a\<lparr>ar_is_outbound := True\<rparr>) zeek_out
         else reconstruct_outbound_content sha 64 (2 ^ 20) ps)"

section \<open>The JA3 log\<close>

record ja3_flow =
  jf_ja3 :: "string option"
  jf_ja3s :: "string option"
  jf_name :: "string option"

type_synonym ja3_flows = "(string \<times> string \<times> nat, ja3_flow) dict"

definition ja3_default :: "ja3_flows \<Rightarrow> string \<times> string \<times> nat \<Rightarrow> ja3_flow" where
  "ja3_default d k = (case map_of d k of Some f \<Rightarrow> f | None \<Rightarrow> \<lparr>jf_ja3 = None, jf_ja3s = None, jf_name = None\<rparr>)"

definition extract_step :: "(string \<Rightarrow> string) \<Rightarrow> ja3_flows \<Rightarrow> sc_packet \<Rightarrow> ja3_flows" where
  "extract_step md5 d p =
     (case (sc_tcp p, sc_ip4 p) of
        (Some (sport, dport, payload), Some (src, dst)) \<Rightarrow>
          (if length payload < 6 \<or> payload ! 0 \<noteq> 0x16 then d
           else if payload ! 5 = 1
           then (let k = (src, dst, dport); f = ja3_default d k
                 in dict_set k (case capture_client_hello md5 (drop 5 payload) of
                                  Inr (j, n) \<Rightarrow> f\<lparr>jf_ja3 := j, jf_name := n\<rparr> | Inl e \<Rightarrow> f) d)
           else if payload ! 5 = 2
           then (let k = (dst, src, sport)
                 in dict_set k ((ja3_default d k)\<lparr>jf_ja3s := capture_server_hello md5 (drop 5 payload)\<rparr>) d)
           else d)
      | _ \<Rightarrow> d)"

definition extract_flows :: "(string \<Rightarrow> string) \<Rightarrow> sc_packet list \<Rightarrow> ja3_flows" where
  "extract_flows md5 ps = foldl (extract_step md5) [] ps"

definition ja3_fields :: "string list" where
  "ja3_fields = [''id.orig_h'', ''id.resp_h'', ''id.resp_p'', ''ja3'', ''ja3s'', ''server_name'', ''subject'']"

definition ja3_values :: "(string \<times> string \<times> nat) \<times> ja3_flow \<Rightarrow> string list" where
  "ja3_values r = (let ((src, dst, port), f) = r in
     [src, dst, nat_str port, dash (jf_ja3 f), dash (jf_ja3s f), dash (jf_name f), ''-''])"

definition ja3_known :: "(string \<times> string \<times> nat) \<times> ja3_flow \<Rightarrow> bool" where
  "ja3_known r \<longleftrightarrow> truthy (jf_ja3 (snd r)) \<or> truthy (jf_ja3s (snd r))"

definition write_ssl_log :: "ja3_flows \<Rightarrow> string" where
  "write_ssl_log d = zeek_header ''ssl'' ja3_fields @ concat (map (\<lambda>r. tsv (ja3_values r)) (filter ja3_known d))"

record ja3_record =
  jr_ja3 :: "string option"
  jr_ja3s :: "string option"
  jr_name :: "string option"
  jr_subject :: "string option"

text \<open>\<open>val(key)\<close>: nothing, a dash and \<open>(empty)\<close> are the default; an empty column stays an empty text.\<close>

definition ssl_val :: "log_row \<Rightarrow> string \<Rightarrow> string option" where
  "ssl_val r k =
     (case map_of r k of Some (JStr v) \<Rightarrow> if v \<in> {''-'', ''(empty)''} then None else Some v | _ \<Rightarrow> None)"

definition ssl_port :: "log_row \<Rightarrow> int" where
  "ssl_port r =
     (case map_of r ''id.resp_p'' of
        Some v \<Rightarrow> (case py_int v of Inr n \<Rightarrow> n | Inl e \<Rightarrow> 0)
      | None \<Rightarrow> 0)"

definition ssl_record :: "log_row \<Rightarrow> (string \<times> string \<times> int) \<times> ja3_record" where
  "ssl_record r =
     ((opt_or_empty (ssl_val r ''id.orig_h''), opt_or_empty (ssl_val r ''id.resp_h''), ssl_port r),
      \<lparr>jr_ja3 = ssl_val r ''ja3'', jr_ja3s = ssl_val r ''ja3s'', jr_name = ssl_val r ''server_name'',
       jr_subject = ssl_val r ''subject''\<rparr>)"

fun ssl_rows :: "string list \<Rightarrow> string list \<Rightarrow> log_row list" where
  "ssl_rows cols [] = []"
| "ssl_rows cols (l # ls) =
     (if starts_with l ''#fields'' then ssl_rows (tl (split_on tab l)) ls
      else if starts_with l ''#'' \<or> l = [] then ssl_rows cols ls
      else zip_dict cols (split_on tab l) # ssl_rows cols ls)"

definition load_zeek_ssl :: "string option \<Rightarrow> (string \<times> string \<times> int, ja3_record) dict" where
  "load_zeek_ssl content =
     (case content of
        None \<Rightarrow> []
      | Some t \<Rightarrow> foldl (\<lambda>d r. let (k, x) = ssl_record r in dict_set k x d) [] (ssl_rows [] (text_lines t)))"

definition known_bad_ja3 :: "(string \<times> string) list" where
  "known_bad_ja3 =
     [(''72a589da586844d7f0818ce684948eea'', ''Cobalt Strike default''),
      (''a0e9f5d64349fb13191bc781f81f42e1'', ''Cobalt Strike 4.x''),
      (''e35df3e00ca4ef31d42b34bebaa2f86e'', ''Metasploit default''),
      (''6734f37431670b3ab4292b8f60f29984'', ''Trickbot / IcedID common'')]"

definition check_known_bad_ja3 :: "string option \<Rightarrow> string option" where
  "check_known_bad_ja3 h = (if truthy h then map_of known_bad_ja3 (the h) else None)"

text \<open>\<open>load_zeek_conn\<close> of \<open>pcap_loader.py\<close>, the same rows without the cleaning.\<close>

definition conn_of_row :: "log_row \<Rightarrow> connection" where
  "conn_of_row r =
     (let txt = (\<lambda>k d. case map_of r k of Some (JStr v) \<Rightarrow> v | _ \<Rightarrow> d) in
      \<lparr>cn_ts = float_field r ''ts'', cn_src_ip = txt ''id.orig_h'' [], cn_dst_ip = txt ''id.resp_h'' [],
       cn_dst_port = int_field r ''id.resp_p'' 0, cn_proto = txt ''proto'' ''tcp'', cn_orig_bytes = int_field r ''orig_bytes'' 0,
       cn_resp_bytes = int_field r ''resp_bytes'' 0, cn_history = txt ''history'' [], cn_http_method = None,
       cn_http_host = None, cn_http_uri = None, cn_ftp_upload_cmd = None\<rparr>)"

definition load_zeek_conn :: "string \<Rightarrow> connection list" where
  "load_zeek_conn t = map conn_of_row (ssl_rows [] (text_lines t))"

section \<open>Lemmas\<close>

lemma dict_set_twice: "dict_set k v (dict_set k u d) = dict_set k v d"
  by (induction d) auto

lemma dict_set_map: "map (\<lambda>(k, v). (k, g v)) (dict_set k v d) = dict_set k (g v) (map (\<lambda>(k, v). (k, g v)) d)"
  by (induction d) auto

lemma map_of_map_val: "map_of (map (\<lambda>(k, v). (k, g v)) d) k = map_option g (map_of d k)"
  by (induction d) auto

text \<open>
  The segment a packet adds to a flow, an auxiliary of the proofs: both readers do the same with it,
  whatever clock they took its time from.
\<close>

definition carries :: "sc_packet \<Rightarrow> segment \<Rightarrow> bool" where
  "carries p s \<longleftrightarrow> sc_tcp p = Some (sg_sport s, sg_dport s, sg_data s)
     \<and> or_layer (sc_ip6 p) (sc_ip4 p) = Some (sg_src s, sg_dst s)
     \<and> sg_data s = (case sc_raw p of Some r \<Rightarrow> r | None \<Rightarrow> [])"

text \<open>The same flow in both tables, with a pair of times from \<open>T\<close>.\<close>

definition same_flow :: "(pyfloat \<times> pyfloat) set \<Rightarrow> pcap_flow \<Rightarrow> flow \<Rightarrow> bool" where
  "same_flow T f c \<longleftrightarrow> pf_orig f = fl_orig c \<and> pf_resp f = fl_resp c \<and> (pf_ts f, fl_ts c) \<in> T"

definition dict_rel :: "('a \<Rightarrow> 'b \<Rightarrow> bool) \<Rightarrow> ('k, 'a) dict \<Rightarrow> ('k, 'b) dict \<Rightarrow> bool" where
  "dict_rel R = list_all2 (\<lambda>x y. fst x = fst y \<and> R (snd x) (snd y))"

lemma dict_rel_set:
  "dict_rel R d e \<Longrightarrow> R v w \<Longrightarrow> dict_rel R (dict_set k v d) (dict_set k w e)"
  unfolding dict_rel_def
proof (induction d arbitrary: e)
  case (Cons x d)
  then show ?case by (cases x; cases e) (auto split: if_splits)
qed simp

lemma dict_rel_map_of:
  "dict_rel R d e \<Longrightarrow> rel_option R (map_of d k) (map_of e k)"
  unfolding dict_rel_def by (induction rule: list_all2_induct) auto

lemma dict_rel_mono: "dict_rel R d e \<Longrightarrow> (\<And>x y. R x y \<Longrightarrow> S x y) \<Longrightarrow> dict_rel S d e"
  unfolding dict_rel_def by (erule list_all2_mono) blast

definition same_table :: "(pyfloat \<times> pyfloat) set \<Rightarrow> pcap_table \<Rightarrow> flow_table \<Rightarrow> bool" where
  "same_table T t u \<longleftrightarrow> pt_orient t = tb_orient u \<and> dict_rel (same_flow T) (pt_flows t) (tb_flows u)"

lemma sniff_counts: "pf_ts (sniff_head r f) = pf_ts f \<and> pf_orig (sniff_head r f) = pf_orig f \<and> pf_resp (sniff_head r f) = pf_resp f"
proof -
  have m: "pf_ts (sniff_method h f m) = pf_ts f" "pf_orig (sniff_method h f m) = pf_orig f"
    "pf_resp (sniff_method h f m) = pf_resp f" for h f m
    by (simp_all add: sniff_method_def)
  show ?thesis by (simp add: sniff_head_def Let_def m)
qed

text \<open>The flow a packet is added to.\<close>

definition add_packet :: "flow_ends \<Rightarrow> segment \<Rightarrow> bytes option \<Rightarrow> pcap_flow \<Rightarrow> pcap_flow" where
  "add_packet k s raw f =
     (if fst (ends s) = fst k
      then (let f0 = f\<lparr>pf_orig := pf_orig f + length (sg_data s)\<rparr>
            in case raw of Some r \<Rightarrow> sniff_head r f0 | None \<Rightarrow> f0)
      else if fst (ends s) = snd k then f\<lparr>pf_resp := pf_resp f + length (sg_data s)\<rparr> else f)"

lemma add_packet_counts:
  assumes "same_flow T f c" "fst (ends s) \<in> {fst k, snd k}"
  shows "same_flow T (add_packet k s raw f) (add_segment k s c)"
  using assms by (auto simp: same_flow_def add_packet_def add_segment_def Let_def sniff_counts split: option.splits)

lemma load_step_alt:
  assumes "carries p s"
  shows "load_step t p =
     (let t1 = (if flow_id s \<in> set (dict_keys (pt_orient t)) then t
                else t\<lparr>pt_orient := dict_set (flow_id s) (orient_of s) (pt_orient t)\<rparr>);
          k = the (map_of (pt_orient t1) (flow_id s));
          f = (case map_of (pt_flows t1) k of Some f \<Rightarrow> f | None \<Rightarrow> new_flow (sc_time p))
      in t1\<lparr>pt_flows := dict_set k (add_packet k s (sc_raw p) f) (pt_flows t1)\<rparr>)"
proof -
  have p: "sc_tcp p = Some (sg_sport s, sg_dport s, sg_data s)" "or_layer (sc_ip6 p) (sc_ip4 p) = Some (sg_src s, sg_dst s)"
    and n: "(case sc_raw p of Some r \<Rightarrow> length r | None \<Rightarrow> 0) = length (sg_data s)"
    using assms by (auto simp: carries_def split: option.splits)
  have e: "ends s = ((sg_src s, sg_sport s), (sg_dst s, sg_dport s))" by (simp add: ends_def)
  show ?thesis
    unfolding load_step_def p Let_def prod.case option.case n flow_id_def orient_of_def add_packet_def e fst_conv snd_conv
    by (rule refl)
qed

lemma same_table_step:
  assumes "same_table T t u" "table_ok u segs" "carries p s" "(sc_time p, sg_ts s) \<in> T"
  shows "same_table T (load_step t p) (conn_step u s)"
proof -
  note ok = table_okD [OF assms(2)]
  have o: "pt_orient t = tb_orient u" and fl: "dict_rel (same_flow T) (pt_flows t) (tb_flows u)"
    using assms(1) by (simp_all add: same_table_def)
  note look = dict_rel_map_of [OF fl]
  have side: "fst (ends s) \<in> {fst k, snd k}" if "canonical_key (fst k) (snd k) = flow_id s" for k
    using that by (auto simp: flow_id_def canonical_key_eq)
  show ?thesis
  proof (cases "find (\<lambda>r. flow_id r = flow_id s) segs")
    case (Some s0)
    have id: "flow_id s0 = flow_id s" using find_cong_id [OF Some] .
    let ?k = "orient_of s0"
    have k: "map_of (tb_orient u) (flow_id s) = Some ?k" using ok(2) Some by simp
    have "find (\<lambda>r. flow_id r = canonical_key (fst ?k) (snd ?k)) segs = Some s0"
      by (simp add: canonical_orient_of id Some)
    then obtain c where c: "map_of (tb_flows u) ?k = Some c" by (simp add: ok(3) flow_of_found)
    then obtain f where f: "map_of (pt_flows t) ?k = Some f" "same_flow T f c"
      using look [of ?k] by (auto simp: option_rel_Some2)
    have mem: "flow_id s \<in> set (dict_keys (tb_orient u))"
      using k by (metis map_of_eq_None_iff option.distinct(1) set_map)
    have "load_step t p = t\<lparr>pt_flows := dict_set ?k (add_packet ?k s (sc_raw p) f) (pt_flows t)\<rparr>"
      unfolding load_step_alt [OF assms(3)] Let_def o by (simp only: if_P [OF mem] o k option.sel f option.case)
    moreover have "same_flow T (add_packet ?k s (sc_raw p) f) (add_segment ?k s c)"
      by (rule add_packet_counts [OF f(2) side]) (simp add: canonical_orient_of id)
    ultimately show ?thesis
      unfolding same_table_def conn_step_seen [OF k c] by (simp add: o dict_rel_set [OF fl])
  next
    case None
    let ?k = "orient_of s"
    have k: "map_of (tb_orient u) (flow_id s) = None" using ok(2) None by simp
    have new: "map_of (tb_flows u) ?k = None"
      using flow_of_new(1) [OF None canonical_orient_of] by (simp add: ok(3))
    then have f: "map_of (pt_flows t) ?k = None" using look [of ?k] by simp
    have mem: "flow_id s \<notin> set (dict_keys (tb_orient u))" using k by (simp add: map_of_eq_None_iff)
    have "load_step t p = t\<lparr>pt_orient := dict_set (flow_id s) ?k (pt_orient t),
        pt_flows := dict_set ?k (add_packet ?k s (sc_raw p) (new_flow (sc_time p))) (pt_flows t)\<rparr>"
      unfolding load_step_alt [OF assms(3)] Let_def o if_not_P [OF mem]
      by (simp add: f)
    moreover have "same_flow T (add_packet ?k s (sc_raw p) (new_flow (sc_time p))) (add_segment ?k s (flow_start s))"
      by (rule add_packet_counts [OF _ side [OF canonical_orient_of]])
        (simp add: same_flow_def new_flow_def flow_start_def assms(4))
    ultimately show ?thesis
      unfolding same_table_def conn_step_fresh [OF k] by (simp add: o dict_set_twice dict_rel_set [OF fl])
  qed
qed

lemma same_table_fold:
  assumes "list_all2 carries ps segs"
  shows "same_table (set (zip (map sc_time ps) (map sg_ts segs)))
     (foldl load_step \<lparr>pt_flows = [], pt_orient = []\<rparr> ps) (foldl conn_step empty_table segs)"
  using assms
proof (induction ps arbitrary: segs rule: rev_induct)
  case Nil
  then show ?case by (simp add: same_table_def empty_table_def dict_rel_def)
next
  case (snoc p ps)
  then obtain segs' s where segs: "segs = segs' @ [s]" "list_all2 carries ps segs'" "carries p s"
    by (auto simp: list_all2_append1 list_all2_Cons1)
  let ?T = "set (zip (map sc_time (ps @ [p])) (map sg_ts segs))"
  have len: "length ps = length segs'" using segs(2) by (rule list_all2_lengthD)
  have "same_table ?T (foldl load_step \<lparr>pt_flows = [], pt_orient = []\<rparr> ps) (foldl conn_step empty_table segs')"
    using snoc.IH [OF segs(2)] len
    by (auto simp: same_table_def segs(1) same_flow_def elim!: dict_rel_mono)
  from same_table_step [OF this table_ok_fold segs(3)] show ?case using len by (simp add: segs(1))
qed

text \<open>
  An unfragmented TCP segment over IPv4 and Ethernet, without options and without padding, and what
  scapy documents of its dissection: the IP and TCP layers carry the header's fields, and a payload
  that no registered protocol claims is the \<open>Raw\<close> layer. Its time is scapy's own.
\<close>

definition unfragmented :: "tcp_frame \<Rightarrow> bool" where
  "unfragmented f \<longleftrightarrow> tcp_frame_ok f \<and> tf_ip_rest f ! 2 \<in> {0, 0x40} \<and> tf_ip_rest f ! 3 = 0"

definition dissected :: "sc_packet \<Rightarrow> tcp_frame \<Rightarrow> bool" where
  "dissected p f \<longleftrightarrow> sc_ip4 p = Some (ip4_text (tf_src f), ip4_text (tf_dst f)) \<and> sc_ip6 p = None
     \<and> sc_tcp p = Some (tf_sport f, tf_dport f, tf_payload f)
     \<and> sc_raw p = (if tf_payload f = [] then None else Some (tf_payload f))"

definition frame_segment :: "pyfloat \<times> tcp_frame \<Rightarrow> segment" where
  "frame_segment x = (let (ts, f) = x in
     \<lparr>sg_ts = ts, sg_proto = Tcp, sg_src = ip4_text (tf_src f), sg_sport = tf_sport f,
      sg_dst = ip4_text (tf_dst f), sg_dport = tf_dport f, sg_data = tf_payload f\<rparr>)"

lemma frame_segments:
  "list_all (\<lambda>x. unfragmented (snd x)) xs \<Longrightarrow>
     List.map_filter segment_of (map (\<lambda>(ts, f). (ts, 1, frame_bytes f)) xs) = map frame_segment xs"
proof (induction xs)
  case (Cons x xs)
  obtain ts f where x: "x = (ts, f)" by (cases x)
  have "segment_of (ts, 1, frame_bytes f) = Some (frame_segment x)"
    using segment_of_tcp_frame [of f ts "[]"] Cons.prems by (simp add: x unfragmented_def frame_segment_def)
  then show ?case using Cons by (simp add: x List.map_filter_simps)
qed (simp add: List.map_filter_simps)

lemma dissected_carries: "dissected p f \<Longrightarrow> carries p (frame_segment (ts, f))"
  by (simp add: dissected_def carries_def frame_segment_def or_layer_def)

definition same_connection :: "(pyfloat \<times> pyfloat) set \<Rightarrow> connection \<Rightarrow> flow_ends \<times> flow \<Rightarrow> bool" where
  "same_connection T c e \<longleftrightarrow>
     cn_src_ip c = fst (fst (fst e)) \<and> cn_dst_ip c = fst (snd (fst e)) \<and> cn_dst_port c = int (snd (snd (fst e)))
     \<and> cn_orig_bytes c = int (fl_orig (snd e)) \<and> cn_resp_bytes c = int (fl_resp (snd e)) \<and> (cn_ts c, fl_ts (snd e)) \<in> T"

lemma load_pcap_flows:
  assumes "list_all2 carries ps segs"
  shows "list_all2 (same_connection (set (zip (map sc_time ps) (map sg_ts segs))))
     (load_pcap ps) (tb_flows (foldl conn_step empty_table segs))"
  using same_table_fold [OF assms] unfolding same_table_def dict_rel_def load_pcap_def
  by (auto simp: list_all2_map1 same_connection_def same_flow_def split_beta elim!: list_all2_mono)

lemma foldl_dict_set:
  "distinct (dict_keys d @ dict_keys xs) \<Longrightarrow> foldl (\<lambda>d (k, v). dict_set k v d) d xs = d @ xs"
proof (induction xs arbitrary: d)
  case (Cons x xs)
  have "dict_set (fst x) (snd x) d = d @ [x]" if "fst x \<notin> set (dict_keys d)"
    using that by (induction d) auto
  then show ?case using Cons.prems Cons.IH [of "d @ [x]"] by (simp add: split_beta)
qed simp

text \<open>The bytes sent to a public address, by flow and in the order of the capture.\<close>

definition outbound :: "sc_packet \<Rightarrow> ((string \<times> string \<times> nat) \<times> pyfloat \<times> bytes) option" where
  "outbound p =
     (case (sc_tcp p, sc_raw p, or_layer (sc_ip4 p) (sc_ip6 p)) of
        (Some (sport, dport, data), Some r, Some (src, dst)) \<Rightarrow>
          (if is_private_ip dst \<or> data = [] then None else Some ((src, dst, dport), sc_time p, data))
      | _ \<Rightarrow> None)"

definition stream :: "sc_packet list \<Rightarrow> string \<times> string \<times> nat \<Rightarrow> (pyfloat \<times> bytes) list" where
  "stream ps k = map snd (filter (\<lambda>o_data. fst o_data = k) (List.map_filter outbound ps))"

definition sent :: "sc_packet list \<Rightarrow> string \<times> string \<times> nat \<Rightarrow> bytes" where
  "sent ps k = concat (map snd (stream ps k))"

definition stream_flow :: "nat \<Rightarrow> (pyfloat \<times> bytes) list \<Rightarrow> out_flow option" where
  "stream_flow cap xs =
     (if xs = [] then None
      else Some \<lparr>of_buf = take cap (concat (map snd xs)), of_size = length (concat (map snd xs)), of_ts = fst (xs ! 0)\<rparr>)"

lemma out_flow_updates:
  "f\<lparr>of_size := n, of_buf := b\<rparr> = \<lparr>of_buf = b, of_size = n, of_ts = of_ts f\<rparr>"
  "f\<lparr>of_size := n\<rparr> = \<lparr>of_buf = of_buf f, of_size = n, of_ts = of_ts f\<rparr>" for f :: out_flow
  by simp_all

lemma recon_step_alt:
  "recon_step cap d p =
     (case outbound p of
        None \<Rightarrow> d
      | Some (k, ts, data) \<Rightarrow>
          (let f = (case map_of d k of Some f \<Rightarrow> f | None \<Rightarrow> \<lparr>of_buf = [], of_size = 0, of_ts = ts\<rparr>)
           in dict_set k \<lparr>of_buf = of_buf f @ take (cap - length (of_buf f)) data, of_size = of_size f + length data, of_ts = of_ts f\<rparr> d))"
  by (cases "sc_tcp p"; cases "sc_raw p"; cases "or_layer (sc_ip4 p) (sc_ip6 p)")
    (simp_all add: recon_step_def outbound_def split_beta Let_def out_flow_updates cong: option.case_cong)

lemma stream_snoc:
  "stream (ps @ [p]) k = stream ps k @ (case outbound p of Some e \<Rightarrow> if fst e = k then [snd e] else [] | None \<Rightarrow> [])"
  by (cases "outbound p") (simp_all add: stream_def List.map_filter_def del: split_paired_All split_paired_Ex)

lemma stream_flow_snoc:
  "stream_flow cap (xs @ [(ts, data)]) = Some
     (let f = (case stream_flow cap xs of Some f \<Rightarrow> f | None \<Rightarrow> \<lparr>of_buf = [], of_size = 0, of_ts = ts\<rparr>)
      in \<lparr>of_buf = of_buf f @ take (cap - length (of_buf f)) data, of_size = of_size f + length data, of_ts = of_ts f\<rparr>)"
  by (cases xs) (simp_all add: stream_flow_def Let_def min_def)

lemma recon_flows:
  "map_of (foldl (recon_step cap) [] ps) k = stream_flow cap (stream ps k)
   \<and> distinct (dict_keys (foldl (recon_step cap) [] ps))"
proof (induction ps arbitrary: k rule: rev_induct)
  case Nil
  show ?case by (simp add: stream_def List.map_filter_simps stream_flow_def)
next
  case (snoc p ps)
  show ?case
  proof (cases "outbound p")
    case None
    then show ?thesis using snoc by (simp add: recon_step_alt stream_snoc)
  next
    case (Some o_data)
    obtain k' ts data where o: "o_data = (k', ts, data)" by (cases o_data) auto
    define d where "d = foldl (recon_step cap) [] ps"
    have d: "map_of d k = stream_flow cap (stream ps k)" "distinct (dict_keys d)" for k
      using snoc [of k] by (simp_all only: d_def)
    have "stream (ps @ [p]) k = stream ps k @ (if k' = k then [(ts, data)] else [])"
      by (simp add: stream_snoc Some o)
    moreover have "foldl (recon_step cap) [] (ps @ [p]) = dict_set k' (the (stream_flow cap (stream ps k' @ [(ts, data)]))) d"
      by (simp add: d_def [symmetric] recon_step_alt [of cap d p] Some o d(1) stream_flow_snoc Let_def)
    ultimately show ?thesis
      using d by (auto simp: stream_flow_snoc)
  qed
qed

text \<open>The artifact of a flow.\<close>

definition stream_artifact :: "(bytes \<Rightarrow> string) \<Rightarrow> nat \<Rightarrow> sc_packet list \<Rightarrow> string \<times> string \<times> nat \<Rightarrow> artifact" where
  "stream_artifact sha cap ps k =
     \<lparr>ar_ts = fst (stream ps k ! 0), ar_filename = None, ar_mime_type = None, ar_total_bytes = int (length (sent ps k)),
      ar_md5 = None, ar_sha256 = Some (sha (take cap (sent ps k))), ar_source_ip = Some (fst k), ar_dest_ip = Some (fst (snd k)),
      ar_is_outbound = True, ar_uid = None, ar_preview = Some (preview_text (take cap (sent ps k)))\<rparr>"

text \<open>The JA3 log as its reader sees it.\<close>

definition ja3_plain :: "(string \<times> string \<times> nat) \<times> ja3_flow \<Rightarrow> bool" where
  "ja3_plain r = (let ((src, dst, port), f) = r in address_text src \<and> address_text dst
     \<and> list_all (\<lambda>v. truthy v \<longrightarrow> value_text (the v)) [jf_ja3 f, jf_ja3s f, jf_name f])"

definition nonempty :: "string option \<Rightarrow> string option" where
  "nonempty v = (if truthy v then v else None)"

definition ja3_read :: "(string \<times> string \<times> nat) \<times> ja3_flow \<Rightarrow> (string \<times> string \<times> int) \<times> ja3_record" where
  "ja3_read r = (let ((src, dst, port), f) = r in
     ((src, dst, int port),
      \<lparr>jr_ja3 = nonempty (jf_ja3 f), jr_ja3s = nonempty (jf_ja3s f), jr_name = nonempty (jf_name f), jr_subject = None\<rparr>))"

lemma ssl_rows_header:
  assumes "plain name" "cols \<noteq> []" "list_all plain cols"
  shows "ssl_rows [] (text_lines (zeek_header name cols @ s)) = ssl_rows cols (text_lines s)"
  by (simp add: text_lines_header [OF assms] split_tsv [OF assms(2,3)] starts_with_def)

lemma ssl_rows_data:
  "list_all tsv_line vss \<Longrightarrow> ssl_rows cols (text_lines (concat (map tsv vss))) = map (zip_dict cols) vss"
proof (induction vss)
  case (Cons vs vss)
  have vs: "list_all plain vs" "vs \<noteq> []" "join [tab] vs \<noteq> []" "hd (join [tab] vs) \<notin> {CHR ''#'', CHR 0x7B}"
    using Cons.prems hd_join [of vs] by (auto simp: tsv_line_def)
  have "\<not> starts_with (join [tab] vs) ''#fields''" "\<not> starts_with (join [tab] vs) ''#''"
    using vs(3,4) by (auto simp: starts_with_def) (cases "join [tab] vs"; simp)+
  then show ?case using Cons vs(3) by (simp add: text_lines_tsv [OF vs(1)] split_tsv [OF vs(2,1)])
qed simp

lemma ja3_values_read:
  assumes "ja3_plain r"
  shows "ssl_record (zip_dict ja3_fields (ja3_values r)) = ja3_read r" "tsv_line (ja3_values r)"
proof -
  obtain src dst port f where r: "r = ((src, dst, port), f)" by (metis prod.collapse)
  have d: "distinct ja3_fields" by (simp add: ja3_fields_def)
  have a: "value_text src" "value_text dst" "address_text src"
    using assms address_value by (auto simp: ja3_plain_def r)
  have get: "map_of (zip_dict ja3_fields (ja3_values r)) k = map_option JStr (map_of (zip ja3_fields (ja3_values r)) k)" for k
    unfolding zip_dict_distinct [OF d] by (rule map_of_map_val)
  have addr: "ssl_val (zip_dict ja3_fields (ja3_values r)) ''id.orig_h'' = Some src"
    "ssl_val (zip_dict ja3_fields (ja3_values r)) ''id.resp_h'' = Some dst"
    "ssl_val (zip_dict ja3_fields (ja3_values r)) ''subject'' = None"
    using a by (simp_all add: ssl_val_def get value_text_def) (simp_all add: ja3_fields_def ja3_values_def r)
  have dash: "(if dash v \<in> {''-'', ''(empty)''} then None else Some (dash v)) = nonempty v"
    if "truthy v \<longrightarrow> value_text (the v)" for v
    using that by (auto simp: dash_def nonempty_def value_text_def truthy_def split: option.splits)
  have vals: "ssl_val (zip_dict ja3_fields (ja3_values r)) ''ja3'' = nonempty (jf_ja3 f)"
    "ssl_val (zip_dict ja3_fields (ja3_values r)) ''ja3s'' = nonempty (jf_ja3s f)"
    "ssl_val (zip_dict ja3_fields (ja3_values r)) ''server_name'' = nonempty (jf_name f)"
    using assms dash [of "jf_ja3 f"] dash [of "jf_ja3s f"] dash [of "jf_name f"]
    unfolding ssl_val_def get by (simp_all add: ja3_fields_def ja3_values_def ja3_plain_def r)
  have port: "ssl_port (zip_dict ja3_fields (ja3_values r)) = int port"
    using py_int_nat_str [of port] unfolding ssl_port_def get by (simp add: ja3_fields_def ja3_values_def r)
  show "ssl_record (zip_dict ja3_fields (ja3_values r)) = ja3_read r"
    unfolding ssl_record_def addr vals port by (simp add: ja3_read_def r opt_or_empty_def)
  have "plain (dash v)" if "truthy v \<longrightarrow> value_text (the v)" for v
    using that by (auto simp: dash_def value_text_def plain_def)
  moreover have "src \<noteq> []" "hd src \<notin> {CHR ''#'', CHR 0x7B}"
    using a(3) by (cases src; auto simp: address_text_def address_char_def is_digit_def)+
  ultimately show "tsv_line (ja3_values r)"
    using assms a number_value [of port]
    by (simp add: tsv_line_def ja3_values_def r ja3_plain_def value_text_def) (simp add: plain_def)
qed

lemma extract_flows_distinct: "distinct (dict_keys (extract_flows md5 ps))"
proof -
  have step: "distinct (dict_keys (extract_step md5 d p))" if "distinct (dict_keys d)" for d p
    using that by (auto simp: extract_step_def Let_def split: option.split)
  have "distinct (dict_keys (foldl (extract_step md5) d ps))" if "distinct (dict_keys d)" for d
    using that by (induction ps arbitrary: d) (simp_all add: step)
  from this [of "[]"] show ?thesis by (simp add: extract_flows_def)
qed

section \<open>Properties\<close>

text \<open>
  C33. The two readers of a capture agree on plain TCP traffic: for a capture of unfragmented TCP
  segments over IPv4, without options or padding, whose payloads scapy leaves in the \<open>Raw\<close> layer,
  \<open>load_pcap\<close> returns the flows of the log generator, in the same order, with the same originator,
  responder and byte counts; the time of a flow is in both the time of the same packet, each by its own clock.
\<close>

theorem capture_readers_agree:
  assumes "iter_packets content = Inr (map (\<lambda>(ts, f). (ts, 1, frame_bytes f)) xs)"
    and "list_all (\<lambda>x. unfragmented (snd x)) xs" "list_all2 (\<lambda>p x. dissected p (snd x)) ps xs"
  shows "\<exists>st. parse_capture md5 sha256 content = Inr st
     \<and> list_all2 (\<lambda>c ((o_end, r_end), f). cn_src_ip c = fst o_end \<and> cn_dst_ip c = fst r_end \<and> cn_dst_port c = int (snd r_end)
          \<and> cn_orig_bytes c = int (fl_orig f) \<and> cn_resp_bytes c = int (fl_resp f)
          \<and> (cn_ts c, fl_ts f) \<in> set (zip (map sc_time ps) (map fst xs)))
        (load_pcap ps) (tb_flows (cs_table st))"
proof -
  have "list_all2 carries ps (map frame_segment xs)"
    unfolding list_all2_map2
    by (rule list_all2_mono [OF assms(3)]) (use dissected_carries in \<open>force\<close>)
  from load_pcap_flows [OF this] have "list_all2 (same_connection (set (zip (map sc_time ps) (map fst xs))))
      (load_pcap ps) (tb_flows (foldl conn_step empty_table (map frame_segment xs)))"
    by (simp add: o_def frame_segment_def split_beta)
  then have "list_all2 (\<lambda>c ((o_end, r_end), f). cn_src_ip c = fst o_end \<and> cn_dst_ip c = fst r_end \<and> cn_dst_port c = int (snd r_end)
          \<and> cn_orig_bytes c = int (fl_orig f) \<and> cn_resp_bytes c = int (fl_resp f)
          \<and> (cn_ts c, fl_ts f) \<in> set (zip (map sc_time ps) (map fst xs)))
      (load_pcap ps) (tb_flows (foldl conn_step empty_table (map frame_segment xs)))"
    by (rule list_all2_mono) (auto simp: same_connection_def)
  then show ?thesis
    using assms(1) by (simp add: parse_capture_def capture_table empty_capture_def frame_segments [OF assms(2)] del: One_nat_def)
qed

text \<open>
  Content reconstruction yields one artifact for every flow to a public address that carried
  enough bytes: its size is the number of bytes sent, its digest and preview are of the first
  \<open>cap\<close> of them, in the order of the capture.
\<close>

theorem outbound_content_exact:
  "\<exists>ks. distinct ks \<and> set ks = {k. stream ps k \<noteq> []} \<and> list_all (\<lambda>(src, dst, port). \<not> is_private_ip dst) ks
     \<and> reconstruct_outbound_content sha min_bytes cap ps
         = map (stream_artifact sha cap ps) (filter (\<lambda>k. min_bytes \<le> length (sent ps k)) ks)"
proof -
  define d where "d = foldl (recon_step cap) [] ps"
  have look: "map_of d k = stream_flow cap (stream ps k)" for k
    unfolding d_def by (rule conjunct1 [OF recon_flows])
  have dist: "distinct (dict_keys d)" unfolding d_def by (rule conjunct2 [OF recon_flows [where k = undefined]])
  have keys: "k \<in> set (dict_keys d) \<longleftrightarrow> stream ps k \<noteq> []" for k
  proof -
    have "k \<in> set (dict_keys d) \<longleftrightarrow> map_of d k \<noteq> None" by (simp add: map_of_eq_None_iff)
    then show ?thesis by (simp add: look stream_flow_def)
  qed
  have public: "\<not> is_private_ip (fst (snd k))" if k: "k \<in> set (dict_keys d)" for k
  proof -
    obtain x where "(k, x) \<in> set (List.map_filter outbound ps)"
      using k unfolding keys stream_def by (force simp: filter_empty_conv)
    then obtain p where "outbound p = Some (k, x)" by (auto simp: set_map_filter)
    then show ?thesis by (auto simp: outbound_def split: option.splits if_splits)
  qed
  have entry: "snd e = \<lparr>of_buf = take cap (sent ps (fst e)), of_size = length (sent ps (fst e)), of_ts = fst (stream ps (fst e) ! 0)\<rparr>"
    if e: "e \<in> set d" for e
  proof -
    have "map_of d (fst e) = Some (snd e)" using e dist by (simp add: map_of_eq_Some_iff)
    then show ?thesis by (simp add: look stream_flow_def sent_def split: if_splits)
  qed
  have "reconstruct_outbound_content sha min_bytes cap ps
      = map (\<lambda>e. stream_artifact sha cap ps (fst e)) (filter (\<lambda>e. min_bytes \<le> length (sent ps (fst e))) d)"
    unfolding reconstruct_outbound_content_def d_def [symmetric]
    by (rule map_cong [OF filter_cong [OF refl]])
      (auto simp: entry split_beta stream_artifact_def dest!: entry)
  also have "\<dots> = map (stream_artifact sha cap ps) (filter (\<lambda>k. min_bytes \<le> length (sent ps k)) (dict_keys d))"
    by (simp add: filter_map o_def)
  finally have artifacts: "reconstruct_outbound_content sha min_bytes cap ps
      = map (stream_artifact sha cap ps) (filter (\<lambda>k. min_bytes \<le> length (sent ps k)) (dict_keys d))" .
  have "list_all (\<lambda>(src, dst, port). \<not> is_private_ip dst) (dict_keys d)"
    unfolding list_all_iff by (intro ballI) (use public in \<open>simp add: split_beta\<close>)
  moreover have "set (dict_keys d) = {k. stream ps k \<noteq> []}" using keys by blast
  ultimately show ?thesis using dist artifacts by blast
qed

text \<open>
  The JA3 log that is written from a capture is read back as its fingerprinted flows, in order,
  with their ports, fingerprints and server names, if the names hold no control characters.
\<close>

theorem ja3_log_round_trip:
  assumes "list_all ja3_plain (extract_flows md5 ps)"
  shows "load_zeek_ssl (Some (write_ssl_log (extract_flows md5 ps))) = map ja3_read (filter ja3_known (extract_flows md5 ps))"
proof -
  let ?d = "filter ja3_known (extract_flows md5 ps)"
  have plain: "ja3_plain r" if "r \<in> set ?d" for r using assms that by (auto simp: list_all_iff)
  have lines: "list_all tsv_line (map ja3_values ?d)"
    using plain ja3_values_read(2) by (simp add: list_all_iff)
  have conn: "ja3_fields \<noteq> []" "list_all plain ja3_fields" "plain ''ssl''"
    by (simp_all add: ja3_fields_def plain_def)
  have rows: "ssl_rows [] (text_lines (write_ssl_log (extract_flows md5 ps))) = map (\<lambda>r. zip_dict ja3_fields (ja3_values r)) ?d"
    using ssl_rows_data [OF lines] ssl_rows_header [OF conn(3,1,2)] by (simp add: write_ssl_log_def o_def)
  have "foldl (\<lambda>d r. let (k, x) = ssl_record r in dict_set k x d) d0 (map (\<lambda>r. zip_dict ja3_fields (ja3_values r)) rs)
      = foldl (\<lambda>d (k, v). dict_set k v d) d0 (map ja3_read rs)" if "\<And>r. r \<in> set rs \<Longrightarrow> ja3_plain r" for rs d0
    using that by (induction rs arbitrary: d0) (simp_all add: ja3_values_read(1))
  from this [of ?d "[]"] have "load_zeek_ssl (Some (write_ssl_log (extract_flows md5 ps)))
      = foldl (\<lambda>d (k, v). dict_set k v d) [] (map ja3_read ?d)"
    using plain by (simp add: load_zeek_ssl_def rows)
  also have "\<dots> = map ja3_read ?d"
  proof -
    have inj: "inj (\<lambda>(src :: string, dst :: string, port). (src, dst, int port))" by (auto intro!: injI)
    have "dict_keys (map ja3_read ?d) = map (\<lambda>(src, dst, port). (src, dst, int port)) (dict_keys ?d)"
      by (simp add: ja3_read_def split_beta o_def)
    moreover have "distinct (dict_keys ?d)" using extract_flows_distinct distinct_map_filter by blast
    ultimately have "distinct (dict_keys (map ja3_read ?d))"
      using inj by (simp only: distinct_map inj_on_subset [OF _ subset_UNIV] simp_thms)
    then show ?thesis using foldl_dict_set [of "[]" "map ja3_read ?d"] by simp
  qed
  finally show ?thesis .
qed

section \<open>Witnesses\<close>

lemma sample_capture_unpadded:
  "iter_packets (pcap_header True False 1 @ record_bytes True (sample_record\<lparr>pr_data := frame_bytes sample_frame\<rparr>))
     = Inr [(frame_of_record 1000000 1 (sample_record\<lparr>pr_data := frame_bytes sample_frame\<rparr>))]"
proof -
  let ?r = "sample_record\<lparr>pr_data := frame_bytes sample_frame\<rparr>"
  have "record_ok ?r" by (simp add: sample_record_def record_ok_def frame_bytes_def tcp_bytes_def sample_frame_def)
  then show ?thesis
    using pcap_records_written [of "[?r]" ?r 0 True 1000000 1] iter_packets_header [of 1 True False]
    by (simp add: record_bytes_def)
qed

definition sample_packet :: sc_packet where
  "sample_packet = \<lparr>sc_time = fadd 1700000000 (fdiv 500000 1000000), sc_ip4 = Some (ip4_text [10, 0, 0, 5], ip4_text [8, 8, 8, 8]),
     sc_ip6 = None, sc_tcp = Some (5000, 443, []), sc_raw = None, sc_icmp = None, sc_dns = None\<rparr>"

lemma capture_readers_witness:
  "\<exists>st. parse_capture (\<lambda>s. s) (\<lambda>s. s) (pcap_header True False 1
        @ record_bytes True (sample_record\<lparr>pr_data := frame_bytes sample_frame\<rparr>)) = Inr st
     \<and> length (load_pcap [sample_packet]) = length (tb_flows (cs_table st))"
proof -
  have frames: "iter_packets (pcap_header True False 1 @ record_bytes True (sample_record\<lparr>pr_data := frame_bytes sample_frame\<rparr>))
      = Inr (map (\<lambda>(ts, f). (ts, 1, frame_bytes f)) [(fadd 1700000000 (fdiv 500000 1000000), sample_frame)])"
    unfolding sample_capture_unpadded by (simp add: frame_of_record_def sample_record_def)
  have ok: "list_all (\<lambda>x. unfragmented (snd x)) [(fadd 1700000000 (fdiv 500000 1000000), sample_frame)]"
    using sample_frame_ok by (simp add: unfragmented_def sample_frame_def)
  have dis: "list_all2 (\<lambda>p x. dissected p (snd x)) [sample_packet] [(fadd 1700000000 (fdiv 500000 1000000), sample_frame)]"
    by (simp add: dissected_def sample_packet_def sample_frame_def)
  show ?thesis
    using capture_readers_agree [OF frames ok dis, of "\<lambda>s. s" "\<lambda>s. s"] by (auto dest: list_all2_lengthD)
qed

definition hello_packet :: sc_packet where
  "hello_packet = sample_packet\<lparr>sc_tcp := Some (5000, 443, [0x16, 3, 1, 0, 0] @ encode_hello sample_hello)\<rparr>"

lemma hello_packet_flows:
  "extract_flows (\<lambda>_. ''00ff'') [hello_packet]
     = [((ip4_text [10, 0, 0, 5], ip4_text [8, 8, 8, 8], 443), \<lparr>jf_ja3 = Some ''00ff'', jf_ja3s = None, jf_name = Some ''a.io''\<rparr>)]"
proof -
  obtain r where r: "capture_client_hello (\<lambda>_. ''00ff'') (encode_hello sample_hello) = Inr r"
    using capture_encoded [OF sample_hellos_ok(1)] by blast
  have "he_sni (components sample_hello) = Some ''a.io''"
    by (simp add: components_def sample_hello_def or_none_def)
  then have "r = (Some ''00ff'', Some ''a.io'')"
    using capture_parser_agrees [OF r parse_encoded [OF sample_hellos_ok(1)]] by (simp add: ja3_def)
  moreover obtain t where "encode_hello sample_hello = 1 # t" by (simp add: encode_hello_def Let_def)
  ultimately show ?thesis
    using r by (simp add: extract_flows_def extract_step_def hello_packet_def sample_packet_def ja3_default_def Let_def)
qed

lemma ja3_log_witness:
  "load_zeek_ssl (Some (write_ssl_log (extract_flows (\<lambda>_. ''00ff'') [hello_packet])))
     = [((ip4_text [10, 0, 0, 5], ip4_text [8, 8, 8, 8], 443),
         \<lparr>jr_ja3 = Some ''00ff'', jr_ja3s = None, jr_name = Some ''a.io'', jr_subject = None\<rparr>)]"
proof -
  have "list_all ja3_plain (extract_flows (\<lambda>_. ''00ff'') [hello_packet])"
    using ip4_text_address by (simp add: hello_packet_flows ja3_plain_def truthy_def value_text_def plain_def)
  from ja3_log_round_trip [OF this] show ?thesis
    by (simp add: hello_packet_flows ja3_known_def ja3_read_def nonempty_def truthy_def)
qed

end
