(* ===== verification/Iocs.thy ===== *)
theory Iocs
  imports PyNum Json
begin

text \<open>
  Export of the pipeline's events as indicators (\<open>pipeline/export_iocs.py\<close>): the CSV file, one row
  per destination, as the text that Python's \<open>csv\<close> writer produces, and the STIX 2.1 bundle. An
  event is the dictionary the JSON file holds; the UUID functions and the clock are parameters, the
  random UUIDs a sequence of which every draw takes the next.
\<close>

type_synonym ioc_event = "(string \<times> pyval) list"

section \<open>CSV\<close>

definition ioc_fields :: "string list" where
  "ioc_fields = [''destination_ip'', ''destination_port'', ''destination_domain'', ''confidence_tier'', ''confidence_score'',
     ''reputation_score'', ''reputation_note'', ''reputation_source'', ''asn_org'', ''mitre_technique_id'',
     ''data_type_accessed'', ''timestamp'', ''evidence_hash'']"

text \<open>Equality of dictionary keys: numbers and booleans by value (\<open>py_eq_key\<close>).\<close>

definition eq_key :: "pyval \<Rightarrow> pyval" where
  "eq_key v = (case num_of v of Some x \<Rightarrow> JFloat x | None \<Rightarrow> v)"

definition csv_destination :: "ioc_event \<Rightarrow> pyval" where
  "csv_destination e = (if truth (get e ''destination_ip'') then get e ''destination_ip'' else get e ''destination_domain'')"

definition csv_key :: "ioc_event \<Rightarrow> pyval \<times> pyval" where
  "csv_key e = (eq_key (csv_destination e), eq_key (get e ''destination_port''))"

definition csv_rows :: "ioc_event list \<Rightarrow> pyval list list res" where
  "csv_rows events =
     (if list_all (\<lambda>e. hashable (csv_destination e) \<and> hashable (get e ''destination_port'')) events
      then Inr (map (\<lambda>e. map (get e) ioc_fields) (first_by csv_key {} events))
      else Inl (TypeError ''unhashable type''))"

text \<open>The \<open>excel\<close> dialect: quoting where needed, quotes doubled, lines end in CR LF.\<close>

abbreviation quote :: char where "quote \<equiv> CHR 0x22"

definition csv_text :: "pyval \<Rightarrow> string" where
  "csv_text v = (if v = JNull then [] else py_str v)"

definition csv_field :: "string \<Rightarrow> string" where
  "csv_field s =
     (if set s \<inter> {CHR '','', quote, CHR 0x0D, CHR 0x0A} = {} then s
      else quote # concat (map (\<lambda>c. if c = quote then [quote, quote] else [c]) s) @ [quote])"

definition csv_line :: "string list \<Rightarrow> string" where
  "csv_line fs = join '','' (map csv_field fs) @ [CHR 0x0D, CHR 0x0A]"

definition export_csv :: "ioc_event list \<Rightarrow> (nat \<times> string option) res" where
  "export_csv events =
     (if events = [] then Inr (0, None)
      else bind_res (csv_rows events) (\<lambda>rows.
        Inr (length rows, Some (concat (map csv_line (ioc_fields # map (map csv_text) rows))))))"

section \<open>STIX\<close>

record stix_env =
  sx_uuid5 :: "string \<Rightarrow> string"
  sx_uuid4 :: "nat \<Rightarrow> string"
  sx_now :: string

text \<open>\<open>e.get(k, default)\<close>.\<close>

definition get_or :: "ioc_event \<Rightarrow> string \<Rightarrow> pyval \<Rightarrow> pyval" where
  "get_or e k d = (case map_of e k of Some v \<Rightarrow> v | None \<Rightarrow> d)"

definition observable :: "ioc_event \<Rightarrow> (string \<times> string \<times> string) option" where
  "observable e =
     (let ip = get e ''destination_ip''; dom = get e ''destination_domain'' in
      if truth ip
      then Some (''ip:'' @ py_str ip, ''[ipv4-addr:value = '' @ [CHR 0x27] @ py_str ip @ [CHR 0x27] @ '']'', ''IP: '' @ py_str ip)
      else if truth dom
      then Some (''domain:'' @ py_str dom, ''[domain-name:value = '' @ [CHR 0x27] @ py_str dom @ [CHR 0x27] @ '']'',
                 ''domain: '' @ py_str dom)
      else None)"

definition dest_str :: "ioc_event \<Rightarrow> pyval" where
  "dest_str e =
     (let ip = get e ''destination_ip'' in
      if truth ip then JStr (py_str ip @ '':'' @ py_str (get e ''destination_port''))
      else if truth (get e ''destination_domain'') then get e ''destination_domain'' else JStr ''unknown'')"

definition stix_confidence :: "pyval \<Rightarrow> int res" where
  "stix_confidence t =
     (if hashable t
      then Inr (if t = JStr ''confirmed'' then 95 else if t = JStr ''strong'' then 75 else if t = JStr ''weak'' then 40 else 15)
      else Inl (TypeError ''unhashable type''))"

definition indicator_id :: "stix_env \<Rightarrow> string \<Rightarrow> string" where
  "indicator_id en key = ''indicator--'' @ sx_uuid5 en key"

definition dash_note :: string where "dash_note = '' '' @ [CHR 0xE2, CHR 0x80, CHR 0x94] @ '' ''"

definition indicator_name :: "ioc_event \<Rightarrow> string \<Rightarrow> string" where
  "indicator_name e label =
     (let note = get e ''reputation_note''
      in ''Malicious '' @ label @ (if truth note then dash_note @ py_str note else []))"

definition indicator_text :: "ioc_event \<Rightarrow> string" where
  "indicator_text e =
     (let note = get e ''reputation_note''
      in ''Destination '' @ py_str (dest_str e) @ '' flagged as '' @ py_str (get_or e ''confidence_tier'' (JStr ''unknown''))
         @ '' by E-Rakshak Windows C2/Exfil module. ''
         @ (if truth note
            then ''Attribution: '' @ py_str note @ '' (source: '' @ py_str (get_or e ''reputation_source'' (JStr ''n/a'')) @ ''). ''
            else [])
         @ ''MITRE: '' @ py_str (get_or e ''mitre_technique_id'' (JStr ''N/A'')) @ ''.'')"

text \<open>The reference to the technique; \<open>mitre.replace\<close> needs a string.\<close>

definition mitre_reference :: "pyval \<Rightarrow> (string \<times> pyval) list res" where
  "mitre_reference m =
     (if \<not> truth m then Inr []
      else case m of
        JStr t \<Rightarrow> Inr [(''external_references'', JList [JObj
          [(''source_name'', JStr ''mitre-attack''), (''external_id'', m),
           (''url'', JStr (''https://attack.mitre.org/techniques/'' @ replace_char (CHR ''.'') ''/'' t @ ''/''))]])]
      | _ \<Rightarrow> Inl (AttributeError ''replace''))"

definition indicator_object :: "stix_env \<Rightarrow> ioc_event \<Rightarrow> string \<Rightarrow> string \<Rightarrow> string \<Rightarrow> ioc_event res" where
  "indicator_object en e key pattern label =
     bind_res (stix_confidence (get_or e ''confidence_tier'' (JStr ''unconfirmed''))) (\<lambda>conf.
     bind_res (mitre_reference (get e ''mitre_technique_id'')) (\<lambda>refs.
     Inr ([(''type'', JStr ''indicator''), (''spec_version'', JStr ''2.1''), (''id'', JStr (indicator_id en key)),
           (''created'', JStr (sx_now en)), (''modified'', JStr (sx_now en)), (''name'', JStr (indicator_name e label)),
           (''description'', JStr (indicator_text e)), (''pattern'', JStr pattern), (''pattern_type'', JStr ''stix''),
           (''valid_from'', get_or e ''timestamp'' (JStr (sx_now en))), (''confidence'', JInt conf),
           (''labels'', JList [JStr ''malicious-activity''])] @ refs)))"

fun indicators :: "stix_env \<Rightarrow> ioc_event list \<Rightarrow> (string, string) dict \<Rightarrow> (ioc_event list \<times> (string, string) dict) res" where
  "indicators en [] seen = Inr ([], seen)"
| "indicators en (e # es) seen =
     (case observable e of
        None \<Rightarrow> indicators en es seen
      | Some (key, pattern, label) \<Rightarrow>
          if key \<in> set (dict_keys seen) then indicators en es seen
          else bind_res (indicator_object en e key pattern label) (\<lambda>i.
               bind_res (indicators en es (dict_set key (indicator_id en key) seen)) (\<lambda>(os, seen').
               Inr (i # os, seen'))))"

definition observed_id :: "stix_env \<Rightarrow> nat \<Rightarrow> ioc_event \<Rightarrow> string" where
  "observed_id en n e = ''observed-data--'' @ py_str (get_or e ''event_id'' (JStr (sx_uuid4 en n)))"

definition observed_object :: "stix_env \<Rightarrow> nat \<Rightarrow> ioc_event \<Rightarrow> ioc_event" where
  "observed_object en n e =
     [(''type'', JStr ''observed-data''), (''spec_version'', JStr ''2.1''), (''id'', JStr (observed_id en n e)),
      (''created'', JStr (sx_now en)), (''modified'', JStr (sx_now en)),
      (''first_observed'', get_or e ''timestamp'' (JStr (sx_now en))),
      (''last_observed'', get_or e ''timestamp'' (JStr (sx_now en))), (''number_observed'', JInt 1), (''object_refs'', JList [])]"

definition relationship :: "stix_env \<Rightarrow> nat \<Rightarrow> string \<Rightarrow> string \<Rightarrow> ioc_event" where
  "relationship en n source target =
     [(''type'', JStr ''relationship''), (''spec_version'', JStr ''2.1''), (''id'', JStr (''relationship--'' @ sx_uuid4 en n)),
      (''created'', JStr (sx_now en)), (''modified'', JStr (sx_now en)), (''relationship_type'', JStr ''based-on''),
      (''source_ref'', JStr source), (''target_ref'', JStr target)]"

text \<open>The default of \<open>e.get("event_id", uuid.uuid4())\<close> is drawn whether it is used or not.\<close>

fun observations :: "stix_env \<Rightarrow> (string, string) dict \<Rightarrow> nat \<Rightarrow> ioc_event list \<Rightarrow> ioc_event list \<times> nat" where
  "observations en seen n [] = ([], n)"
| "observations en seen n (e # es) =
     (case observable e of
        None \<Rightarrow> observations en seen n es
      | Some (key, pattern, label) \<Rightarrow>
          (case map_of seen key of
             None \<Rightarrow> (let (os, m) = observations en seen (n + 1) es in (observed_object en n e # os, m))
           | Some source \<Rightarrow>
               (let (os, m) = observations en seen (n + 2) es
                in (observed_object en n e # relationship en (n + 1) source (observed_id en n e) # os, m))))"

definition export_stix :: "stix_env \<Rightarrow> ioc_event list \<Rightarrow> (nat \<times> ioc_event option) res" where
  "export_stix en events =
     (if events = [] then Inr (0, None)
      else bind_res (indicators en events []) (\<lambda>(is, seen).
        let (os, n) = observations en seen 0 events
        in Inr (length seen, Some
          [(''type'', JStr ''bundle''), (''id'', JStr (''bundle--'' @ sx_uuid4 en n)),
           (''objects'', JList (map JObj (is @ os)))])))"

section \<open>Lemmas\<close>

lemma py_eq_key: "py_eq a b \<longleftrightarrow> eq_key a = eq_key b"
  by (cases a; cases b) (auto simp: py_eq_def eq_key_def)

text \<open>A reader of comma-separated values as RFC 4180 describes them.\<close>

datatype csv_mode = Start | Plain | Quoted | Closed

fun csv_scan :: "csv_mode \<Rightarrow> string \<Rightarrow> string list \<Rightarrow> string \<Rightarrow> string list list" where
  "csv_scan m acc row [] = (if m = Start \<and> row = [] then [] else [row @ [acc]])"
| "csv_scan m acc row (c # s) =
     (if m = Quoted then (if c = quote then csv_scan Closed acc row s else csv_scan Quoted (acc @ [c]) row s)
      else if c = quote then (if m = Closed then csv_scan Quoted (acc @ [c]) row s else csv_scan Quoted acc row s)
      else if c = CHR '','' then csv_scan Start [] (row @ [acc]) s
      else if c = CHR 0x0D then csv_scan m acc row s
      else if c = CHR 0x0A then (row @ [acc]) # csv_scan Start [] [] s
      else csv_scan Plain (acc @ [c]) row s)"

lemma csv_scan_plain:
  "set s \<inter> {CHR '','', quote, CHR 0x0D, CHR 0x0A} = {} \<Longrightarrow> m \<in> {Start, Plain} \<Longrightarrow>
     csv_scan m acc row (s @ r) = csv_scan (if s = [] then m else Plain) (acc @ s) row r"
  by (induction s arbitrary: m acc) auto

lemma csv_scan_quoted:
  "csv_scan Quoted acc row (concat (map (\<lambda>c. if c = quote then [quote, quote] else [c]) s) @ r) = csv_scan Quoted (acc @ s) row r"
  by (induction s arbitrary: acc) simp_all

lemma csv_scan_field:
  "csv_scan Start [] row (csv_field s @ CHR '','' # r) = csv_scan Start [] (row @ [s]) r"
  "csv_scan Start [] row (csv_field s @ CHR 0x0D # CHR 0x0A # r) = (row @ [s]) # csv_scan Start [] [] r"
  using csv_scan_plain [of s Start "[]" row] csv_scan_quoted [of "[]" row s]
  by (simp_all add: csv_field_def)

lemma csv_scan_line: "fs \<noteq> [] \<Longrightarrow> csv_scan Start [] row (csv_line fs @ r) = (row @ fs) # csv_scan Start [] [] r"
proof (induction fs arbitrary: row)
  case (Cons f fs)
  then show ?case
    by (cases fs) (simp_all add: csv_line_def csv_scan_field del: csv_scan.simps)
qed simp

lemma csv_scan_lines: "list_all (\<lambda>fs. fs \<noteq> []) rows \<Longrightarrow> csv_scan Start [] [] (concat (map csv_line rows)) = rows"
  by (induction rows) (simp_all add: csv_scan_line del: csv_scan.simps(2))

text \<open>The indicators: one per observable, in order.\<close>

lemma indicator_fields:
  "indicator_object en e key pattern label = Inr i \<Longrightarrow>
     get i ''type'' = JStr ''indicator'' \<and> get i ''id'' = JStr (indicator_id en key) \<and> get i ''pattern'' = JStr pattern"
  by (auto simp: indicator_object_def bind_res_Inr_iff get_def)

lemma indicators_spec:
  assumes "indicators en es seen = Inr (is, seen')"
  shows "map (\<lambda>i. (get i ''type'', get i ''id'', get i ''pattern'')) is
       = map (\<lambda>(key, pattern, label). (JStr ''indicator'', JStr (indicator_id en key), JStr pattern))
           (first_by fst (set (dict_keys seen)) (List.map_filter observable es))
     \<and> length seen' = length seen + length is
     \<and> (\<forall>k. map_of seen' k =
          (if map_of seen k = None \<and> k \<in> fst ` set (List.map_filter observable es) then Some (indicator_id en k) else map_of seen k))"
  using assms
proof (induction es arbitrary: seen "is" seen')
  case (Cons e es)
  show ?case
  proof (cases "observable e")
    case None
    then show ?thesis using Cons by (simp add: List.map_filter_simps)
  next
    case (Some x)
    obtain key pattern label where x: "x = (key, pattern, label)" by (cases x)
    show ?thesis
    proof (cases "key \<in> set (dict_keys seen)")
      case True
      then have "map_of seen key \<noteq> None" by (simp add: map_of_eq_None_iff)
      then show ?thesis using Cons True by (auto simp: List.map_filter_simps Some x)
    next
      case False
      then have new: "map_of seen key = None" by (simp add: map_of_eq_None_iff)
      obtain i os where i: "indicator_object en e key pattern label = Inr i" "is = i # os"
        "indicators en es (dict_set key (indicator_id en key) seen) = Inr (os, seen')"
        using Cons.prems False by (auto simp: Some x bind_res_Inr_iff)
      have "length (dict_set key (indicator_id en key) seen) = Suc (length seen)"
        using False by (induction seen) auto
      moreover have "set (dict_keys (dict_set key (indicator_id en key) seen)) = insert key (set (dict_keys seen))"
        by (simp add: dict_keys_set insert_absorb)
      ultimately show ?thesis
        using Cons.IH [OF i(3)] indicator_fields [OF i(1)] False new by (auto simp: List.map_filter_simps Some x i(2))
    qed
  qed
qed (simp add: List.map_filter_simps)

text \<open>The observations: one per event with a destination, each followed by its relationship.\<close>

fun linked :: "stix_env \<Rightarrow> nat \<Rightarrow> ioc_event list \<Rightarrow> ioc_event list" where
  "linked en n [] = []"
| "linked en n (e # es) =
     (case observable e of
        None \<Rightarrow> linked en n es
      | Some (key, x) \<Rightarrow>
          observed_object en n e # relationship en (n + 1) (indicator_id en key) (observed_id en n e) # linked en (n + 2) es)"

lemma observations_linked:
  assumes "\<And>key. key \<in> fst ` set (List.map_filter observable es) \<Longrightarrow> map_of seen key = Some (indicator_id en key)"
  shows "observations en seen n es = (linked en n es, n + 2 * length (List.map_filter observable es))"
  using assms
proof (induction es arbitrary: n)
  case (Cons e es)
  show ?case
  proof (cases "observable e")
    case None
    then show ?thesis using Cons by (simp add: List.map_filter_simps)
  next
    case (Some x)
    then show ?thesis using Cons by (cases x) (simp add: List.map_filter_simps)
  qed
qed (simp add: List.map_filter_simps)

definition is_type :: "string \<Rightarrow> ioc_event \<Rightarrow> bool" where
  "is_type t o_data \<longleftrightarrow> get o_data ''type'' = JStr t"

lemma linked_fields [simp]:
  "is_type ''observed-data'' (observed_object en n e)" "\<not> is_type ''relationship'' (observed_object en n e)"
  "is_type ''relationship'' (relationship en n a b)" "\<not> is_type ''observed-data'' (relationship en n a b)"
  "get (observed_object en n e) ''id'' = JStr (observed_id en n e)"
  "get (relationship en n a b) ''id'' = JStr (''relationship--'' @ sx_uuid4 en n)"
  "get (relationship en n a b) ''source_ref'' = JStr a" "get (relationship en n a b) ''target_ref'' = JStr b"
  by (simp_all add: is_type_def observed_object_def relationship_def get_def)

lemma linked_counts:
  "length (filter (is_type ''observed-data'') (linked en n es)) = length (List.map_filter observable es)"
  "length (filter (is_type ''relationship'') (linked en n es)) = length (List.map_filter observable es)"
  by (induction es arbitrary: n) (auto simp: List.map_filter_simps split: option.split)

lemma linked_refs:
  assumes "r \<in> set (linked en n es)" "is_type ''relationship'' r"
  shows "(\<exists>key \<in> fst ` set (List.map_filter observable es). get r ''source_ref'' = JStr (indicator_id en key))
     \<and> (\<exists>o_data \<in> set (linked en n es). is_type ''observed-data'' o_data \<and> get o_data ''id'' = get r ''target_ref'')"
  using assms
proof (induction es arbitrary: n)
  case (Cons e es)
  show ?case
  proof (cases "observable e")
    case (Some x)
    obtain key y where x: "x = (key, y)" by (cases x)
    show ?thesis
    proof (cases "r \<in> set (linked en (n + 2) es)")
      case True
      from Cons.IH [OF this Cons.prems(2)] show ?thesis by (auto simp: Some x List.map_filter_simps)
    next
      case False
      then have "r = relationship en (n + 1) (indicator_id en key) (observed_id en n e)"
        using Cons.prems by (auto simp: Some x)
      then show ?thesis by (simp add: Some x List.map_filter_simps)
    qed
  qed (use Cons in \<open>simp add: List.map_filter_simps\<close>)
qed simp

lemma linked_ids:
  assumes "inj (sx_uuid4 en)"
  shows "distinct (map (\<lambda>r. get r ''id'') (filter (is_type ''relationship'') (linked en n es)))
     \<and> (\<forall>v \<in> set (map (\<lambda>r. get r ''id'') (filter (is_type ''relationship'') (linked en n es))).
          \<exists>k\<ge>n. v = JStr (''relationship--'' @ sx_uuid4 en k))"
proof (induction es arbitrary: n)
  case (Cons e es)
  show ?case
  proof (cases "observable e")
    case (Some x)
    obtain key y where x: "x = (key, y)" by (cases x)
    define ids where "ids = map (\<lambda>r. get r ''id'') (filter (is_type ''relationship'') (linked en (n + 2) es))"
    have ih: "distinct ids" "\<forall>v \<in> set ids. \<exists>k\<ge>n + 2. v = JStr (''relationship--'' @ sx_uuid4 en k)"
      using Cons [of "n + 2"] unfolding ids_def by blast+
    have head: "map (\<lambda>r. get r ''id'') (filter (is_type ''relationship'') (linked en n (e # es)))
        = JStr (''relationship--'' @ sx_uuid4 en (n + 1)) # ids"
      by (simp add: Some x ids_def)
    have "sx_uuid4 en (n + 1) \<noteq> sx_uuid4 en k" if "n + 2 \<le> k" for k
      using that injD [OF assms, of "n + 1" k] by auto
    then have "JStr (''relationship--'' @ sx_uuid4 en (n + 1)) \<notin> set ids" using ih(2) by fastforce
    moreover have "\<exists>k\<ge>n. v = JStr (''relationship--'' @ sx_uuid4 en k)" if "v \<in> set ids" for v
      using ih(2) that by (meson le_add1 order_trans)
    moreover have "\<exists>k\<ge>n. JStr (''relationship--'' @ sx_uuid4 en (n + 1)) = JStr (''relationship--'' @ sx_uuid4 en k)"
      by (intro exI [of _ "n + 1"]) simp
    ultimately show ?thesis unfolding head list.set distinct.simps using ih(1) by blast
  qed (use Cons in simp)
qed simp

section \<open>Properties\<close>

text \<open>
  The CSV export loses no destination and no field: a reader of comma-separated values gets back
  the header and one row per destination and port, that of its first event, field by field, whatever
  commas, quotes and line breaks the fields hold.
\<close>

theorem csv_export_exact:
  assumes "export_csv events = Inr (n, Some t)"
  shows "\<exists>kept. kept = first_by csv_key {} events \<and> n = length kept
     \<and> csv_scan Start [] [] t = ioc_fields # map (\<lambda>e. map (\<lambda>k. csv_text (get e k)) ioc_fields) kept
     \<and> distinct (map csv_key kept) \<and> csv_key ` set kept = csv_key ` set events"
proof -
  let ?kept = "first_by csv_key {} events"
  have t: "n = length ?kept" "t = concat (map csv_line (ioc_fields # map (\<lambda>e. map (\<lambda>k. csv_text (get e k)) ioc_fields) ?kept))"
    using assms by (auto simp: export_csv_def csv_rows_def o_def split: if_splits)
  have "csv_scan Start [] [] t = ioc_fields # map (\<lambda>e. map (\<lambda>k. csv_text (get e k)) ioc_fields) ?kept"
    unfolding t(2) by (rule csv_scan_lines) (simp add: ioc_fields_def list_all_iff)
  then show ?thesis using t(1) first_by_distinct [of csv_key "{}" events] first_by_keys [of csv_key "{}" events] by simp
qed

text \<open>
  The STIX bundle is closed under its references: it has one indicator per distinct destination,
  with the pattern of its first event; one observation and one relationship per event with a
  destination; every relationship points from an indicator to an observation of the bundle, and
  no two relationships share an identifier while the random UUIDs differ.
\<close>

theorem stix_bundle_closed:
  assumes "export_stix en events = Inr (n, Some b)" "inj (sx_uuid4 en)"
  shows "\<exists>is os. get b ''objects'' = JList (map JObj (is @ os)) \<and> n = length is
     \<and> map (\<lambda>i. (get i ''type'', get i ''id'', get i ''pattern'')) is
         = map (\<lambda>(key, pattern, label). (JStr ''indicator'', JStr (indicator_id en key), JStr pattern))
             (first_by fst {} (List.map_filter observable events))
     \<and> length (filter (is_type ''observed-data'') os) = length (List.map_filter observable events)
     \<and> length (filter (is_type ''relationship'') os) = length (List.map_filter observable events)
     \<and> (\<forall>r \<in> set os. is_type ''relationship'' r \<longrightarrow> (\<exists>i \<in> set is. get i ''id'' = get r ''source_ref'')
          \<and> (\<exists>o_data \<in> set os. is_type ''observed-data'' o_data \<and> get o_data ''id'' = get r ''target_ref''))
     \<and> distinct (map (\<lambda>r. get r ''id'') (filter (is_type ''relationship'') os))"
proof -
  obtain "is" seen where i: "indicators en events [] = Inr (is, seen)"
    using assms(1) by (auto simp: export_stix_def bind_res_Inr_iff split: if_splits)
  note spec = indicators_spec [OF i]
  have "observations en seen 0 events = (linked en 0 events, 0 + 2 * length (List.map_filter observable events))"
    by (rule observations_linked) (use spec in simp)
  then have b: "n = length is" "get b ''objects'' = JList (map JObj (is @ linked en 0 events))"
    using assms(1) spec by (auto simp: export_stix_def i get_def split: if_splits)
  have ids: "\<exists>i \<in> set is. get i ''id'' = JStr (indicator_id en key)" if key: "key \<in> fst ` set (List.map_filter observable events)" for key
  proof -
    have "key \<in> fst ` set (first_by fst {} (List.map_filter observable events))" using key by (simp add: first_by_keys)
    then have "(JStr ''indicator'', JStr (indicator_id en key)) \<in> (\<lambda>(a, b, c). (a, b)) ` set (map (\<lambda>i. (get i ''type'', get i ''id'', get i ''pattern'')) is)"
      using spec by (force simp: image_iff)
    then show ?thesis by auto
  qed
  have refs: "\<forall>r \<in> set (linked en 0 events). is_type ''relationship'' r \<longrightarrow> (\<exists>i \<in> set is. get i ''id'' = get r ''source_ref'')
      \<and> (\<exists>o_data \<in> set (linked en 0 events). is_type ''observed-data'' o_data \<and> get o_data ''id'' = get r ''target_ref'')"
    using linked_refs [of _ en 0 events] ids by metis
  show ?thesis
    by (intro exI [of _ "is"] exI [of _ "linked en 0 events"] conjI b refs conjunct1 [OF linked_ids [OF assms(2)]] linked_counts)
      (use spec in simp)
qed

section \<open>Witnesses\<close>

definition quoted_event :: ioc_event where
  "quoted_event = [(''destination_ip'', JStr ''6.6.6.6''), (''destination_port'', JInt 443), (''event_id'', JStr ''e1''),
     (''reputation_note'', JStr (''a,b '' @ [quote]))]"

lemma csv_export_witness:
  "\<exists>t. export_csv [quoted_event, quoted_event] = Inr (1, Some t) \<and> length (csv_scan Start [] [] t) = 2"
proof -
  have one: "first_by csv_key {} [quoted_event, quoted_event] = [quoted_event]" by simp
  have "list_all (\<lambda>e. hashable (csv_destination e) \<and> hashable (get e ''destination_port'')) [quoted_event, quoted_event]"
    by (simp add: quoted_event_def csv_destination_def get_def)
  then obtain t where t: "export_csv [quoted_event, quoted_event] = Inr (1, Some t)"
    by (simp add: export_csv_def csv_rows_def)
  then show ?thesis using csv_export_exact [OF t] unfolding one by simp
qed

definition sample_stix :: stix_env where
  "sample_stix = \<lparr>sx_uuid5 = (\<lambda>k. k), sx_uuid4 = nat_str, sx_now = ''2026-02-03T16:00:00+00:00''\<rparr>"

lemma stix_bundle_witness:
  "\<exists>b is os. export_stix sample_stix [quoted_event, quoted_event] = Inr (1, Some b)
     \<and> get b ''objects'' = JList (map JObj (is @ os)) \<and> length is = 1 \<and> length (filter (is_type ''relationship'') os) = 2"
proof -
  have inj: "inj (sx_uuid4 sample_stix)" 
    by (rule injI, simp add: sample_stix_def nat_str_def, drule dec_str_inj [rotated 2], simp_all)
  have o: "observable quoted_event = Some (''ip:6.6.6.6'', ''[ipv4-addr:value = '' @ [CHR 0x27] @ ''6.6.6.6'' @ [CHR 0x27] @ '']'', ''IP: 6.6.6.6'')"
    by (simp add: observable_def quoted_event_def get_def py_str_def)
  obtain i where i: "indicator_object sample_stix quoted_event ''ip:6.6.6.6'' ''[ipv4-addr:value = '6.6.6.6']'' ''IP: 6.6.6.6'' = Inr i"
    by (simp add: indicator_object_def stix_confidence_def mitre_reference_def quoted_event_def get_def get_or_def)
  have "\<exists>b. export_stix sample_stix [quoted_event, quoted_event] = Inr (1, Some b)"
    using i by (simp add: export_stix_def o split_beta)
  then obtain b where b: "export_stix sample_stix [quoted_event, quoted_event] = Inr (1, Some b)" by blast
  obtain "is" os where io: "get b ''objects'' = JList (map JObj (is @ os))" "1 = length is"
    "length (filter (is_type ''relationship'') os) = length (List.map_filter observable [quoted_event, quoted_event])"
    using stix_bundle_closed [OF b inj] by blast
  have "length (List.map_filter observable [quoted_event, quoted_event]) = 2" by (simp add: List.map_filter_simps o)
  with io have "length is = 1" "length (filter (is_type ''relationship'') os) = 2" by (simp_all only:)
  then show ?thesis using b io(1) by blast
qed

end
