(* ===== verification/Harden.thy ===== *)
theory Harden
  imports PyStr "HOL-Library.While_Combinator"
begin

text \<open>
  Hardening of a libvirt domain against virtual-machine detection
  (\<open>scripts/harden-libvirt-domain.py\<close>). A document is a tree of elements; every function of the
  script that changes an element in place is a function from the element to the changed one.
  White space between elements and the serialisation are left out. The environment, the digests
  and the name-based UUID are parameters.
\<close>

section \<open>Elements\<close>

datatype xml = Elem (xtag: string) (xattrs: "(string, string) dict") (xtext: "string option") (xkids: "xml list")

definition set_attr :: "string \<Rightarrow> string \<Rightarrow> xml \<Rightarrow> xml" where
  "set_attr k v e = Elem (xtag e) (dict_set k v (xattrs e)) (xtext e) (xkids e)"

definition set_text :: "string \<Rightarrow> xml \<Rightarrow> xml" where
  "set_text t e = Elem (xtag e) (xattrs e) (Some t) (xkids e)"

definition edit_kids :: "(xml list \<Rightarrow> xml list) \<Rightarrow> xml \<Rightarrow> xml" where
  "edit_kids f e = Elem (xtag e) (xattrs e) (xtext e) (f (xkids e))"

definition get_attr :: "string \<Rightarrow> xml \<Rightarrow> string option" where
  "get_attr k e = map_of (xattrs e) k"

definition new_elem :: "string \<Rightarrow> xml" where "new_elem t = Elem t [] None []"

definition child :: "xml \<Rightarrow> string \<Rightarrow> xml option" where
  "child p t = find (\<lambda>c. xtag c = t) (xkids p)"

text \<open>
  \<open>upsert t f\<close>: the first child with the tag, appended if there is none, is changed by \<open>f\<close>; this is
  \<open>ensure_child\<close> followed by what the caller does to the element it returns. \<open>update_first\<close> changes it
  only if there is one.
\<close>

fun upsert :: "string \<Rightarrow> (xml \<Rightarrow> xml) \<Rightarrow> xml list \<Rightarrow> xml list" where
  "upsert t f [] = [f (new_elem t)]"
| "upsert t f (x # xs) = (if xtag x = t then f x # xs else x # upsert t f xs)"

fun update_first :: "(xml \<Rightarrow> bool) \<Rightarrow> (xml \<Rightarrow> xml) \<Rightarrow> xml list \<Rightarrow> xml list" where
  "update_first P f [] = []"
| "update_first P f (x # xs) = (if P x then f x # xs else x # update_first P f xs)"

definition with_child :: "string \<Rightarrow> (xml \<Rightarrow> xml) \<Rightarrow> xml \<Rightarrow> xml" where
  "with_child t f = edit_kids (upsert t f)"

definition update_child :: "string \<Rightarrow> (xml \<Rightarrow> xml) \<Rightarrow> xml \<Rightarrow> xml" where
  "update_child t f = edit_kids (update_first (\<lambda>c. xtag c = t) f)"

definition append_child :: "xml \<Rightarrow> xml \<Rightarrow> xml" where
  "append_child c = edit_kids (\<lambda>xs. xs @ [c])"

definition set_entry :: "string \<Rightarrow> string \<Rightarrow> xml \<Rightarrow> xml" where
  "set_entry name v sect =
     (let named = (\<lambda>c. xtag c = ''entry'' \<and> get_attr ''name'' c = Some name) in
      if list_ex named (xkids sect) then edit_kids (update_first named (set_text v)) sect
      else append_child (Elem ''entry'' [(''name'', name)] (Some v) []) sect)"

text \<open>\<open>insert_after\<close>: drop the first element with the tag, insert behind the last of the given tags.\<close>

fun remove_first :: "(xml \<Rightarrow> bool) \<Rightarrow> xml list \<Rightarrow> xml list" where
  "remove_first P [] = []"
| "remove_first P (x # xs) = (if P x then xs else x # remove_first P xs)"

fun insert_behind :: "(xml \<Rightarrow> bool) \<Rightarrow> xml \<Rightarrow> xml list \<Rightarrow> xml list" where
  "insert_behind P c [] = [c]"
| "insert_behind P c (x # xs) =
     (if list_ex P xs then x # insert_behind P c xs
      else if P x then x # c # xs else c # x # xs)"

definition insert_after :: "xml \<Rightarrow> string set \<Rightarrow> xml \<Rightarrow> xml" where
  "insert_after c tags = edit_kids (\<lambda>xs. insert_behind (\<lambda>x. xtag x \<in> tags) c (remove_first (\<lambda>x. xtag x = xtag c) xs))"

section \<open>The stages\<close>

record harden_env =
  hv_var :: "string \<Rightarrow> string option"
  hv_sha256 :: "string \<Rightarrow> string"
  hv_sha1 :: "string \<Rightarrow> string"
  hv_uuid5 :: "string \<Rightarrow> string"

definition env_value :: "harden_env \<Rightarrow> string \<Rightarrow> string \<Rightarrow> string" where
  "env_value en name dflt = (case hv_var en name of Some v \<Rightarrow> v | None \<Rightarrow> dflt)"

definition deterministic_serial :: "harden_env \<Rightarrow> string \<Rightarrow> string \<Rightarrow> nat \<Rightarrow> string" where
  "deterministic_serial en name pre n = take n (pre @ str_upper (hv_sha256 en name))"

definition deterministic_uuid :: "harden_env \<Rightarrow> string \<Rightarrow> string" where
  "deterministic_uuid en name = hv_uuid5 en (''winstdt.local/'' @ name)"

definition smbios :: "harden_env \<Rightarrow> string \<Rightarrow> (string \<times> string) list \<Rightarrow> xml" where
  "smbios en t entries = foldl (\<lambda>e (k, v). set_entry k v e) (new_elem t) entries"

definition build_sysinfo :: "harden_env \<Rightarrow> string \<Rightarrow> string \<Rightarrow> xml" where
  "build_sysinfo en name uuid =
     (let v = (\<lambda>k d. env_value en (''WINSTDT_SMBIOS_'' @ k) d) in
      Elem ''sysinfo'' [(''type'', ''smbios'')] None
        [smbios en ''bios''
           [(''vendor'', v ''BIOS_VENDOR'' ''Dell Inc.''), (''version'', v ''BIOS_VERSION'' ''1.18.0''),
            (''date'', v ''BIOS_DATE'' ''09/12/2023''), (''release'', v ''BIOS_RELEASE'' ''1.18'')],
         smbios en ''system''
           [(''manufacturer'', v ''SYSTEM_MANUFACTURER'' ''Dell Inc.''), (''product'', v ''SYSTEM_PRODUCT'' ''Latitude 5540''),
            (''version'', v ''SYSTEM_VERSION'' ''1.0''), (''serial'', v ''SYSTEM_SERIAL'' (deterministic_serial en name ''DL'' 14)),
            (''uuid'', v ''SYSTEM_UUID'' (if uuid = [] then deterministic_uuid en name else uuid)),
            (''sku'', v ''SYSTEM_SKU'' ''0B19''), (''family'', v ''SYSTEM_FAMILY'' ''Latitude'')],
         smbios en ''baseBoard''
           [(''manufacturer'', v ''BOARD_MANUFACTURER'' ''Dell Inc.''), (''product'', v ''BOARD_PRODUCT'' ''0M6C7G''),
            (''version'', v ''BOARD_VERSION'' ''A00''), (''serial'', v ''BOARD_SERIAL'' (deterministic_serial en name ''BRD'' 14))],
         smbios en ''chassis''
           [(''manufacturer'', v ''CHASSIS_MANUFACTURER'' ''Dell Inc.''), (''version'', v ''CHASSIS_VERSION'' ''1.0''),
            (''serial'', v ''CHASSIS_SERIAL'' (deterministic_serial en name ''CHS'' 14)),
            (''asset'', v ''CHASSIS_ASSET'' (deterministic_serial en name ''ASSET'' 12)), (''sku'', v ''CHASSIS_SKU'' ''Notebook'')]])"

definition harden_os :: "xml \<Rightarrow> xml" where
  "harden_os = with_child ''os'' (with_child ''smbios'' (set_attr ''mode'' ''sysinfo''))"

definition harden_features :: "string \<Rightarrow> xml \<Rightarrow> xml" where
  "harden_features vendor = with_child ''features''
     (\<lambda>fs. update_child ''hyperv'' (with_child ''vendor_id'' (\<lambda>v. set_attr ''value'' (take 12 vendor) (set_attr ''state'' ''on'' v)))
        (with_child ''kvm'' (with_child ''hidden'' (set_attr ''state'' ''on'')) fs))"

definition topology :: "int \<Rightarrow> xml \<Rightarrow> xml" where
  "topology cpus = with_child ''topology'' (\<lambda>t. set_attr ''threads'' ''1'' (set_attr ''cores'' (int_str cpus)
     (set_attr ''dies'' ''1'' (set_attr ''sockets'' ''1'' t))))"

fun insert_next :: "(xml \<Rightarrow> bool) \<Rightarrow> xml \<Rightarrow> xml list \<Rightarrow> xml list" where
  "insert_next P c [] = [c]"
| "insert_next P c (x # xs) = (if P x then x # c # xs else x # insert_next P c xs)"

definition attribute_or :: "string \<Rightarrow> xml \<Rightarrow> string \<Rightarrow> string" where
  "attribute_or k e d = (case get_attr k e of Some v \<Rightarrow> v | None \<Rightarrow> d)"

definition harden_cpu :: "harden_env \<Rightarrow> int \<Rightarrow> xml \<Rightarrow> xml" where
  "harden_cpu en cpus root =
     (let r = with_child ''vcpu'' (\<lambda>v. set_text (int_str cpus) (set_attr ''placement'' ''static'' v)) root in
      case child r ''cpu'' of
        None \<Rightarrow>
          (let cpu = topology cpus (Elem ''cpu'' [(''mode'', ''host-passthrough''), (''check'', ''none''), (''migratable'', ''on'')] None [])
           in if child r ''features'' = None then edit_kids (\<lambda>xs. cpu # xs) r
              else edit_kids (insert_next (\<lambda>x. xtag x = ''features'') cpu) r)
      | Some c \<Rightarrow>
          update_child ''cpu'' (\<lambda>c. topology cpus
            (set_attr ''check'' (env_value en ''WINSTDT_CPU_CHECK'' (attribute_or ''check'' c ''none''))
              (set_attr ''mode'' (env_value en ''WINSTDT_CPU_MODE'' (attribute_or ''mode'' c ''host-passthrough'')) c))) r)"

definition disk_wwn :: "harden_env \<Rightarrow> string \<Rightarrow> nat \<Rightarrow> xml \<Rightarrow> xml" where
  "disk_wwn en name i disk =
     (if (case child disk ''target'' of Some t \<Rightarrow> get_attr ''bus'' t \<in> {Some ''ide'', Some ''scsi''} | None \<Rightarrow> False)
      then with_child ''wwn'' (set_text (env_value en ''WINSTDT_DISK_WWN'' (take 16 (hv_sha1 en (name @ ''-'' @ nat_str i))))) disk
      else edit_kids (remove_first (\<lambda>c. xtag c = ''wwn'')) disk)"

definition harden_disk :: "harden_env \<Rightarrow> string \<Rightarrow> nat \<Rightarrow> xml \<Rightarrow> xml" where
  "harden_disk en name i disk =
     (if get_attr ''device'' disk \<noteq> Some ''disk'' then disk
      else disk_wwn en name i
        (with_child ''serial'' (set_text (env_value en ''WINSTDT_DISK_SERIAL''
             (deterministic_serial en (name @ ''-'' @ nat_str i) ''WD'' 18)))
          (with_child ''alias'' (set_attr ''name'' (''ua-winst-disk'' @ nat_str i)) disk)))"

fun number_disks :: "harden_env \<Rightarrow> string \<Rightarrow> nat \<Rightarrow> xml list \<Rightarrow> xml list" where
  "number_disks en name i [] = []"
| "number_disks en name i (x # xs) =
     (if xtag x = ''disk'' then harden_disk en name i x # number_disks en name (i + 1) xs
      else x # number_disks en name i xs)"

definition clear_balloon :: "xml \<Rightarrow> xml" where
  "clear_balloon x = (if xtag x = ''memballoon'' then Elem ''memballoon'' [(''model'', ''none'')] None [] else x)"

definition harden_disks :: "harden_env \<Rightarrow> string \<Rightarrow> xml \<Rightarrow> xml" where
  "harden_disks en name = update_child ''devices'' (edit_kids (\<lambda>xs. map clear_balloon (number_disks en name 1 xs)))"

section \<open>QEMU arguments\<close>

definition qemu :: "string \<Rightarrow> string" where
  "qemu t = [CHR 0x7B] @ ''http://libvirt.org/schemas/domain/qemu/1.0'' @ [CHR 0x7D] @ t"

definition is_arg :: "xml \<Rightarrow> bool" where "is_arg x \<longleftrightarrow> xtag x = qemu ''arg''"

definition arg_elem :: "string \<Rightarrow> xml" where "arg_elem v = Elem (qemu ''arg'') [(''value'', v)] None []"

fun has_pair :: "string \<Rightarrow> string \<Rightarrow> xml list \<Rightarrow> bool" where
  "has_pair a b (x # y # xs) \<longleftrightarrow> get_attr ''value'' x = Some a \<and> get_attr ''value'' y = Some b \<or> has_pair a b (y # xs)"
| "has_pair a b _ \<longleftrightarrow> False"

definition append_qemu_arg_pair :: "string \<Rightarrow> string \<Rightarrow> xml \<Rightarrow> xml" where
  "append_qemu_arg_pair a b cl =
     (if has_pair a b (filter is_arg (xkids cl)) then cl
      else append_child (arg_elem b) (append_child (arg_elem a) cl))"

text \<open>
  The removal loop: \<open>args\<close> is read again after every removal, the index stays; otherwise it advances.
\<close>

fun drop_nth :: "('a \<Rightarrow> bool) \<Rightarrow> nat \<Rightarrow> 'a list \<Rightarrow> 'a list" where
  "drop_nth P i [] = []"
| "drop_nth P i (x # xs) =
     (if P x then (case i of 0 \<Rightarrow> xs | Suc j \<Rightarrow> x # drop_nth P j xs) else x # drop_nth P i xs)"

definition is_pair :: "string \<Rightarrow> string \<Rightarrow> xml \<Rightarrow> xml \<Rightarrow> bool" where
  "is_pair a pre x y \<longleftrightarrow> get_attr ''value'' x = Some a
     \<and> starts_with (case get_attr ''value'' y of Some v \<Rightarrow> v | None \<Rightarrow> []) pre"

definition loop_guard :: "xml list \<times> nat \<Rightarrow> bool" where
  "loop_guard s = (snd s + 1 < length (filter is_arg (fst s)))"

definition loop_body :: "string \<Rightarrow> string \<Rightarrow> xml list \<times> nat \<Rightarrow> xml list \<times> nat" where
  "loop_body a pre s =
     (let (xs, i) = s; args = filter is_arg xs in
      if is_pair a pre (args ! i) (args ! (i + 1)) then (drop_nth is_arg i (drop_nth is_arg i xs), i) else (xs, i + 1))"

definition remove_qemu_arg_pair_prefix :: "string \<Rightarrow> string \<Rightarrow> xml \<Rightarrow> xml option" where
  "remove_qemu_arg_pair_prefix a pre cl =
     map_option (\<lambda>s. edit_kids (\<lambda>_. fst s) cl) (while_option loop_guard (loop_body a pre) (xkids cl, 0))"

definition disk_model :: "harden_env \<Rightarrow> string" where
  "disk_model en = env_value en ''WINSTDT_DISK_MODEL'' ''WDC WD5000LPCX-75VHAT0''"

definition harden_commandline :: "harden_env \<Rightarrow> xml \<Rightarrow> xml option" where
  "harden_commandline en cl =
     (let m = append_qemu_arg_pair ''-machine''
                (''x-oem-id='' @ take 6 (env_value en ''WINSTDT_ACPI_OEM_ID'' ''DELL'') @ '',x-oem-table-id=''
                 @ take 8 (env_value en ''WINSTDT_ACPI_OEM_TABLE_ID'' ''CBX3'')) cl
      in if env_value en ''WINSTDT_ENABLE_QEMU_DISK_MODEL_SET'' ''0'' = ''1''
         then Some (append_qemu_arg_pair ''-set'' (''device.sata0-0-0.model='' @ disk_model en) m)
         else remove_qemu_arg_pair_prefix ''-set'' ''device.sata0-0-0.model='' m)"

text \<open>\<open>None\<close> would be a loop that does not end.\<close>

definition harden_qemu_commandline :: "harden_env \<Rightarrow> xml \<Rightarrow> xml option" where
  "harden_qemu_commandline en root =
     (let cl = (case child root (qemu ''commandline'') of Some c \<Rightarrow> c | None \<Rightarrow> new_elem (qemu ''commandline''))
      in map_option (\<lambda>cl'. with_child (qemu ''commandline'') (\<lambda>_. cl') root) (harden_commandline en cl))"

section \<open>QEMU overrides\<close>

definition property_elem :: "string \<Rightarrow> string \<Rightarrow> string \<Rightarrow> xml" where
  "property_elem name ty v = Elem (qemu ''property'') [(''name'', name), (''type'', ty), (''value'', v)] None []"

definition harden_frontend :: "harden_env \<Rightarrow> xml \<Rightarrow> xml" where
  "harden_frontend en = edit_kids (\<lambda>xs.
     filter (\<lambda>x. \<not> (xtag x = qemu ''property'' \<and> get_attr ''name'' x \<in> {Some ''model'', Some ''rotation_rate''})) xs
     @ [property_elem ''model'' ''string'' (disk_model en), property_elem ''rotation_rate'' ''unsigned'' ''5400''])"

definition is_disk_device :: "xml \<Rightarrow> bool" where
  "is_disk_device x \<longleftrightarrow> xtag x = qemu ''device'' \<and> get_attr ''alias'' x = Some ''ua-winst-disk1''"

definition harden_override :: "harden_env \<Rightarrow> xml \<Rightarrow> xml" where
  "harden_override en ov =
     (let f = with_child (qemu ''frontend'') (harden_frontend en) in
      if list_ex is_disk_device (xkids ov) then edit_kids (update_first is_disk_device f) ov
      else append_child (f (Elem (qemu ''device'') [(''alias'', ''ua-winst-disk1'')] None [])) ov)"

definition harden_qemu_overrides :: "harden_env \<Rightarrow> xml \<Rightarrow> xml" where
  "harden_qemu_overrides en = with_child (qemu ''override'') (harden_override en)"

section \<open>The script\<close>

definition remove_runtime_only_fields :: "xml \<Rightarrow> xml" where
  "remove_runtime_only_fields root =
     update_child ''devices'' (edit_kids (map (edit_kids (filter (\<lambda>x. xtag x \<notin> {''alias'', ''address''})))))
       (Elem (xtag root) (filter (\<lambda>(k, v). k \<noteq> ''id'') (xattrs root)) (xtext root)
         (filter (\<lambda>x. xtag x \<noteq> ''seclabel'') (xkids root)))"

text \<open>\<open>main\<close>: an empty \<open>name\<close> element has no text, and \<open>None.encode\<close> raises.\<close>

definition domain_name :: "xml \<Rightarrow> string option" where
  "domain_name root = (case child root ''name'' of Some n \<Rightarrow> xtext n | None \<Rightarrow> Some ''winstdt-win10-22h2'')"

definition domain_uuid :: "xml \<Rightarrow> string" where
  "domain_uuid root =
     (case child root ''uuid'' of Some u \<Rightarrow> (case xtext u of Some t \<Rightarrow> t | None \<Rightarrow> []) | None \<Rightarrow> [])"

definition harden :: "harden_env \<Rightarrow> int \<Rightarrow> string \<Rightarrow> xml \<Rightarrow> xml res option" where
  "harden en cpus vendor root =
     (case domain_name root of
        None \<Rightarrow> Some (Inl (AttributeError ''encode''))
      | Some name \<Rightarrow>
          (let r = remove_runtime_only_fields root;
               r1 = insert_after (build_sysinfo en name (domain_uuid r)) {''name'', ''uuid''} r;
               r2 = harden_disks en name (harden_cpu en cpus (harden_features vendor (harden_os r1)))
           in map_option (\<lambda>r3. Inr (harden_qemu_overrides en r3)) (harden_qemu_commandline en r2)))"

section \<open>Lemmas\<close>

lemma xtag_edits [simp]:
  "xtag (set_attr k v e) = xtag e" "xtag (set_text x e) = xtag e" "xtag (edit_kids f e) = xtag e"
  "xtag (with_child t g e) = xtag e" "xtag (update_child t g e) = xtag e" "xtag (append_child c e) = xtag e"
  "xtag (new_elem t) = t"
  by (simp_all add: set_attr_def set_text_def edit_kids_def with_child_def update_child_def append_child_def new_elem_def)

lemma attr_edits [simp]:
  "get_attr k (set_attr k' v e) = (if k = k' then Some v else get_attr k e)" "get_attr k (set_text x e) = get_attr k e"
  "get_attr k (edit_kids f e) = get_attr k e" "get_attr k (with_child t g e) = get_attr k e" "get_attr k (update_child t g e) = get_attr k e"
  "get_attr k (append_child c e) = get_attr k e"
  by (auto simp: get_attr_def set_attr_def set_text_def edit_kids_def with_child_def update_child_def append_child_def)

lemma xkids_edits [simp]:
  "xkids (edit_kids f e) = f (xkids e)" "xkids (with_child t g e) = upsert t g (xkids e)"
  "xkids (update_child t g e) = update_first (\<lambda>c. xtag c = t) g (xkids e)" "xkids (append_child c e) = xkids e @ [c]"
  "xkids (set_attr k v e) = xkids e" "xkids (set_text x e) = xkids e" "xkids (new_elem t) = []"
  by (simp_all add: set_attr_def set_text_def edit_kids_def with_child_def update_child_def append_child_def new_elem_def)

lemma child_attr [simp]: "child (set_attr k v e) t = child e t" "child (set_text x e) t = child e t"
  by (simp_all add: child_def)

lemma child_tag: "child p t = Some c \<Longrightarrow> xtag c = t"
  unfolding child_def by (induction "xkids p") (auto simp: find_Some_iff)

text \<open>The children with certain tags, in order; edits of a child with another tag keep them.\<close>

definition pick :: "(string \<Rightarrow> bool) \<Rightarrow> xml \<Rightarrow> xml list" where
  "pick Q e = filter (\<lambda>x. Q (xtag x)) (xkids e)"

lemma pick_with:
  assumes "\<not> Q t" "\<And>x. xtag x = t \<Longrightarrow> xtag (f x) = t"
  shows "pick Q (with_child t f p) = pick Q p" "pick Q (update_child t f p) = pick Q p"
proof -
  have "filter (\<lambda>x. Q (xtag x)) (upsert t f xs) = filter (\<lambda>x. Q (xtag x)) xs"
    "filter (\<lambda>x. Q (xtag x)) (update_first (\<lambda>c. xtag c = t) f xs) = filter (\<lambda>x. Q (xtag x)) xs" for xs
    by (induction xs) (use assms in auto)
  then show "pick Q (with_child t f p) = pick Q p" "pick Q (update_child t f p) = pick Q p" by (simp_all add: pick_def)
qed

text \<open>The elements the script has no business with.\<close>

definition touched :: "string set" where
  "touched = {''seclabel'', ''sysinfo'', ''os'', ''features'', ''vcpu'', ''cpu'', ''devices'', qemu ''commandline'', qemu ''override''}"

definition untouched :: "xml \<Rightarrow> xml list" where
  "untouched = pick (\<lambda>t. t \<notin> touched)"

text \<open>
  How a result relates to what it came from. \<open>kids t\<close>: the children with a tag, in order. \<open>revised P new R\<close>:
  the first child that satisfies \<open>P\<close>, or \<open>new\<close> where there is none, became one it is related to by
  \<open>R\<close>, and the later ones stayed. \<open>same_but P\<close>: nothing but children that satisfy \<open>P\<close> changed. \<open>sets\<close>:
  nothing but the named attributes changed.
\<close>

definition kids :: "string \<Rightarrow> xml \<Rightarrow> xml list" where
  "kids t = pick (\<lambda>t'. t' = t)"

definition same_but :: "(xml \<Rightarrow> bool) \<Rightarrow> xml \<Rightarrow> xml \<Rightarrow> bool" where
  "same_but P e e' \<longleftrightarrow> xtag e' = xtag e \<and> xattrs e' = xattrs e \<and> xtext e' = xtext e
     \<and> filter (\<lambda>x. \<not> P x) (xkids e') = filter (\<lambda>x. \<not> P x) (xkids e)"

definition revised :: "xml \<Rightarrow> (xml \<Rightarrow> xml \<Rightarrow> bool) \<Rightarrow> xml list \<Rightarrow> xml list \<Rightarrow> bool" where
  "revised new R cs cs' \<longleftrightarrow> (\<exists>c'. cs' = c' # tl cs \<and> R (case cs of c # _ \<Rightarrow> c | [] \<Rightarrow> new) c')"

definition sole :: "(xml \<Rightarrow> bool) \<Rightarrow> xml \<Rightarrow> (xml \<Rightarrow> xml \<Rightarrow> bool) \<Rightarrow> xml \<Rightarrow> xml \<Rightarrow> bool" where
  "sole P new R e e' \<longleftrightarrow> same_but P e e' \<and> revised new R (filter P (xkids e)) (filter P (xkids e'))"

definition only_child :: "string \<Rightarrow> (xml \<Rightarrow> xml \<Rightarrow> bool) \<Rightarrow> xml \<Rightarrow> xml \<Rightarrow> bool" where
  "only_child t = sole (\<lambda>x. xtag x = t) (new_elem t)"

definition sets :: "(string \<times> string) list \<Rightarrow> xml \<Rightarrow> xml \<Rightarrow> bool" where
  "sets kvs e e' \<longleftrightarrow> xtag e' = xtag e \<and> xtext e' = xtext e \<and> xkids e' = xkids e
     \<and> (\<forall>k. get_attr k e' = (case map_of kvs k of Some v \<Rightarrow> Some v | None \<Rightarrow> get_attr k e))"

text \<open>What must become of each element the script changes.\<close>

definition features_hardened :: "string \<Rightarrow> xml \<Rightarrow> xml \<Rightarrow> bool" where
  "features_hardened vendor f f' \<longleftrightarrow>
     same_but (\<lambda>x. xtag x \<in> {''kvm'', ''hyperv''}) f f'
     \<and> revised (new_elem ''kvm'') (only_child ''hidden'' (sets [(''state'', ''on'')])) (kids ''kvm'' f) (kids ''kvm'' f')
     \<and> (if kids ''hyperv'' f = [] then kids ''hyperv'' f' = []
        else revised (new_elem ''hyperv'') (only_child ''vendor_id'' (sets [(''value'', take 12 vendor), (''state'', ''on'')]))
               (kids ''hyperv'' f) (kids ''hyperv'' f'))"

definition topology_set :: "int \<Rightarrow> xml \<Rightarrow> xml \<Rightarrow> bool" where
  "topology_set cpus = only_child ''topology''
     (sets [(''threads'', ''1''), (''cores'', int_str cpus), (''dies'', ''1''), (''sockets'', ''1'')])"

definition cpu_hardened :: "harden_env \<Rightarrow> int \<Rightarrow> xml list \<Rightarrow> xml list \<Rightarrow> bool" where
  "cpu_hardened en cpus cs cs' \<longleftrightarrow>
     (if cs = [] then \<exists>c'. cs' = [c'] \<and>
        topology_set cpus (Elem ''cpu'' [(''mode'', ''host-passthrough''), (''check'', ''none''), (''migratable'', ''on'')] None []) c'
      else revised (new_elem ''cpu'') (\<lambda>c c'. \<exists>d.
        sets [(''check'', env_value en ''WINSTDT_CPU_CHECK'' (attribute_or ''check'' c ''none'')),
              (''mode'', env_value en ''WINSTDT_CPU_MODE'' (attribute_or ''mode'' c ''host-passthrough''))] c d \<and> topology_set cpus d c') cs cs')"

definition disk_hardened :: "harden_env \<Rightarrow> string \<Rightarrow> nat \<Rightarrow> xml \<Rightarrow> xml \<Rightarrow> bool" where
  "disk_hardened en name i x y \<longleftrightarrow>
     (let label = name @ ''-'' @ nat_str i in
      same_but (\<lambda>c. xtag c \<in> {''alias'', ''serial'', ''wwn''}) x y
      \<and> kids ''alias'' y = [Elem ''alias'' [(''name'', ''ua-winst-disk'' @ nat_str i)] None []]
      \<and> revised (new_elem ''serial'') (\<lambda>s s'. s' = set_text (env_value en ''WINSTDT_DISK_SERIAL'' (deterministic_serial en label ''WD'' 18)) s)
          (kids ''serial'' x) (kids ''serial'' y)
      \<and> (if \<exists>t. child x ''target'' = Some t \<and> get_attr ''bus'' t \<in> {Some ''ide'', Some ''scsi''}
         then revised (new_elem ''wwn'') (\<lambda>w w'. w' = set_text (env_value en ''WINSTDT_DISK_WWN'' (take 16 (hv_sha1 en label))) w)
                (kids ''wwn'' x) (kids ''wwn'' y)
         else kids ''wwn'' y = tl (kids ''wwn'' x)))"

definition without_runtime :: "xml \<Rightarrow> xml" where
  "without_runtime x = Elem (xtag x) (xattrs x) (xtext x) (filter (\<lambda>c. xtag c \<notin> {''alias'', ''address''}) (xkids x))"

definition device_hardened :: "harden_env \<Rightarrow> string \<Rightarrow> nat \<Rightarrow> xml \<Rightarrow> xml \<Rightarrow> bool" where
  "device_hardened en name i x y \<longleftrightarrow>
     (if xtag x = ''memballoon'' then y = Elem ''memballoon'' [(''model'', ''none'')] None []
      else if xtag x = ''disk'' \<and> get_attr ''device'' x = Some ''disk'' then disk_hardened en name i (without_runtime x) y
      else y = without_runtime x)"

definition devices_hardened :: "harden_env \<Rightarrow> string \<Rightarrow> xml \<Rightarrow> xml \<Rightarrow> bool" where
  "devices_hardened en name d d' \<longleftrightarrow>
     xtag d' = xtag d \<and> xattrs d' = xattrs d \<and> xtext d' = xtext d \<and> length (xkids d') = length (xkids d)
     \<and> (\<forall>j < length (xkids d). device_hardened en name (Suc (length (filter (\<lambda>x. xtag x = ''disk'') (take j (xkids d)))))
          (xkids d ! j) (xkids d' ! j))"

definition frontend_hardened :: "harden_env \<Rightarrow> xml \<Rightarrow> xml \<Rightarrow> bool" where
  "frontend_hardened en f f' \<longleftrightarrow> xtag f' = xtag f \<and> xattrs f' = xattrs f \<and> xtext f' = xtext f
     \<and> xkids f' = filter (\<lambda>x. \<not> (xtag x = qemu ''property'' \<and> get_attr ''name'' x \<in> {Some ''model'', Some ''rotation_rate''})) (xkids f)
         @ [property_elem ''model'' ''string'' (disk_model en), property_elem ''rotation_rate'' ''unsigned'' ''5400'']"

definition override_hardened :: "harden_env \<Rightarrow> xml \<Rightarrow> xml \<Rightarrow> bool" where
  "override_hardened en = sole is_disk_device (Elem (qemu ''device'') [(''alias'', ''ua-winst-disk1'')] None [])
     (only_child (qemu ''frontend'') (frontend_hardened en))"

text \<open>Edits as revisions.\<close>

lemma same_attrs [simp]:
  "xattrs (edit_kids f e) = xattrs e" "xattrs (with_child t g e) = xattrs e" "xattrs (update_child t g e) = xattrs e"
  "xattrs (append_child c e) = xattrs e" "xtext (edit_kids f e) = xtext e" "xtext (with_child t g e) = xtext e"
  "xtext (update_child t g e) = xtext e" "xtext (append_child c e) = xtext e" "xtext (set_attr k v e) = xtext e"
  by (simp_all add: set_attr_def edit_kids_def with_child_def update_child_def append_child_def)

lemma filter_update_first:
  assumes "\<And>x. P x \<Longrightarrow> P (f x)"
  shows "filter P (update_first P f xs) = (case filter P xs of c # cs \<Rightarrow> f c # cs | [] \<Rightarrow> [])"
    "filter (\<lambda>x. \<not> P x) (update_first P f xs) = filter (\<lambda>x. \<not> P x) xs"
  by (induction xs) (use assms in auto)

lemma filter_upsert:
  assumes "\<And>x. xtag x = t \<Longrightarrow> xtag (f x) = t"
  shows "filter (\<lambda>x. xtag x = t) (upsert t f xs)
       = (case filter (\<lambda>x. xtag x = t) xs of c # cs \<Rightarrow> f c # cs | [] \<Rightarrow> [f (new_elem t)])"
    "filter (\<lambda>x. xtag x \<noteq> t) (upsert t f xs) = filter (\<lambda>x. xtag x \<noteq> t) xs"
  by (induction xs) (use assms in auto)

lemma kids_with:
  assumes "\<And>x. xtag x = t \<Longrightarrow> xtag (f x) = t"
  shows "kids t' (with_child t f p) = (if t' = t then f (case kids t p of c # _ \<Rightarrow> c | [] \<Rightarrow> new_elem t) # tl (kids t p) else kids t' p)"
  using filter_upsert(1) [of t f "xkids p", OF assms] pick_with(1) [of "\<lambda>x. x = t'" t f p] assms
  by (auto simp: kids_def pick_def split: list.splits)

lemma kids_update:
  assumes "\<And>x. xtag x = t \<Longrightarrow> xtag (f x) = t"
  shows "kids t' (update_child t f p) = (if t' = t then (case kids t p of c # cs \<Rightarrow> f c # cs | [] \<Rightarrow> []) else kids t' p)"
  using filter_update_first(1) [of "\<lambda>x. xtag x = t" f "xkids p", OF assms] pick_with(2) [of "\<lambda>x. x = t'" t f p] assms
  by (auto simp: kids_def pick_def)

lemma revised_with:
  assumes "\<And>x. xtag x = t \<Longrightarrow> xtag (f x) = t" "\<And>x. R x (f x)"
  shows "revised (new_elem t) R (kids t p) (kids t (with_child t f p))"
  using assms by (auto simp: revised_def kids_with [of t f, OF assms(1)])

lemma only_child_with:
  assumes "\<And>x. xtag x = t \<Longrightarrow> xtag (f x) = t" "\<And>x. R x (f x)"
  shows "only_child t R p (with_child t f p)"
  using revised_with [of t f R p, OF assms] filter_upsert(2) [of t f "xkids p", OF assms(1)]
  by (simp add: only_child_def sole_def same_but_def kids_def pick_def)

lemma sets_nil: "sets [] e e"
  by (simp add: sets_def)

lemma sets_attr: "sets kvs e e' \<Longrightarrow> map_of kvs k = None \<Longrightarrow> sets ((k, v) # kvs) e (set_attr k v e')"
  by (auto simp: sets_def)

lemma child_kids: "child p t = (case kids t p of c # _ \<Rightarrow> Some c | [] \<Rightarrow> None)"
proof -
  have "find (\<lambda>c. xtag c = t) xs = (case filter (\<lambda>x. xtag x = t) xs of c # _ \<Rightarrow> Some c | [] \<Rightarrow> None)" for xs
    by (induction xs) auto
  then show ?thesis by (simp add: child_def kids_def pick_def)
qed

text \<open>The loop that removes argument pairs.\<close>

fun strip_pairs :: "string \<Rightarrow> string \<Rightarrow> xml list \<Rightarrow> xml list" where
  "strip_pairs a pre (x # y # xs) = (if is_pair a pre x y then strip_pairs a pre xs else x # strip_pairs a pre (y # xs))"
| "strip_pairs a pre xs = xs"

lemma drop_nth_filter:
  "filter P (drop_nth P i xs) = take i (filter P xs) @ drop (Suc i) (filter P xs)"
  "filter (\<lambda>x. \<not> P x) (drop_nth P i xs) = filter (\<lambda>x. \<not> P x) xs"
  by (induction P i xs rule: drop_nth.induct) (auto split: nat.split)

lemma drop_two:
  assumes "i + 1 < length (filter P xs)"
  shows "filter P (drop_nth P i (drop_nth P i xs)) = take i (filter P xs) @ drop (i + 2) (filter P xs)"
  using assms by (simp add: drop_nth_filter)

definition loop_inv :: "string \<Rightarrow> string \<Rightarrow> xml list \<Rightarrow> xml list \<times> nat \<Rightarrow> bool" where
  "loop_inv a pre xs0 s \<longleftrightarrow>
     take (snd s) (filter is_arg (fst s)) @ strip_pairs a pre (drop (snd s) (filter is_arg (fst s))) = strip_pairs a pre (filter is_arg xs0)
     \<and> filter (\<lambda>x. \<not> is_arg x) (fst s) = filter (\<lambda>x. \<not> is_arg x) xs0"

lemma loop_step:
  assumes "loop_inv a pre xs0 s" "loop_guard s"
  shows "loop_inv a pre xs0 (loop_body a pre s)
     \<and> length (filter is_arg (fst (loop_body a pre s))) - snd (loop_body a pre s) < length (filter is_arg (fst s)) - snd s"
proof -
  obtain xs i where s: "s = (xs, i)" by (cases s)
  define args where "args = filter is_arg xs"
  have i: "i + 1 < length args" using assms(2) by (simp add: loop_guard_def s args_def)
  then have split: "drop i args = args ! i # args ! (i + 1) # drop (i + 2) args"
    "drop (i + 1) args = args ! (i + 1) # drop (i + 2) args"
    by (simp_all add: Cons_nth_drop_Suc)
  note inv = assms(1) [unfolded loop_inv_def s fst_conv snd_conv, folded args_def]
  show ?thesis
  proof (cases "is_pair a pre (args ! i) (args ! (i + 1))")
    case True
    then have body: "loop_body a pre s = (drop_nth is_arg i (drop_nth is_arg i xs), i)"
      by (simp add: loop_body_def s args_def Let_def)
    have args': "filter is_arg (drop_nth is_arg i (drop_nth is_arg i xs)) = take i args @ drop (i + 2) args"
      using drop_two i unfolding args_def by blast
    have "strip_pairs a pre (drop i args) = strip_pairs a pre (drop (i + 2) args)"
      unfolding split(1) using True by simp
    then show ?thesis
      using inv i unfolding body loop_inv_def fst_conv snd_conv args'
      by (simp add: drop_nth_filter(2) s args_def [symmetric] min_def)
  next
    case False
    then have body: "loop_body a pre s = (xs, i + 1)"
      by (simp add: loop_body_def s args_def Let_def)
    have "strip_pairs a pre (drop i args) = args ! i # strip_pairs a pre (drop (i + 1) args)"
      unfolding split using False by simp
    then show ?thesis
      using inv i unfolding body loop_inv_def fst_conv snd_conv args_def [symmetric]
      by (simp add: take_Suc_conv_app_nth s args_def [symmetric])
  qed
qed

lemma strip_short: "length xs < 2 \<Longrightarrow> strip_pairs a pre xs = xs"
  by (cases xs rule: remdups_adj.cases) simp_all

lemma removal_loop:
  "\<exists>xs i. while_option loop_guard (loop_body a pre) (xs0, 0) = Some (xs, i)
     \<and> filter is_arg xs = strip_pairs a pre (filter is_arg xs0) \<and> filter (\<lambda>x. \<not> is_arg x) xs = filter (\<lambda>x. \<not> is_arg x) xs0"
proof -
  have start: "loop_inv a pre xs0 (xs0, 0)" by (simp add: loop_inv_def)
  have "\<exists>s. while_option loop_guard (loop_body a pre) (xs0, 0) = Some s"
    by (rule measure_while_option_Some [where P = "loop_inv a pre xs0" and f = "\<lambda>s. length (filter is_arg (fst s)) - snd s"])
      (use loop_step start in blast)+
  then obtain xs i where w: "while_option loop_guard (loop_body a pre) (xs0, 0) = Some (xs, i)" by fastforce
  have "loop_inv a pre xs0 (xs, i)"
    by (rule while_option_rule [where P = "loop_inv a pre xs0", OF _ w start]) (use loop_step in blast)
  moreover have "\<not> i + 1 < length (filter is_arg xs)"
    using while_option_stop [OF w] by (simp add: loop_guard_def)
  ultimately show ?thesis using w by (auto simp: loop_inv_def strip_short)
qed

text \<open>The stages, one by one.\<close>

lemma harden_os_facts:
  "revised (new_elem ''os'') (only_child ''smbios'' (sets [(''mode'', ''sysinfo'')])) (kids ''os'' p) (kids ''os'' (harden_os p))"
  "t \<noteq> ''os'' \<Longrightarrow> kids t (harden_os p) = kids t p" "\<not> Q ''os'' \<Longrightarrow> pick Q (harden_os p) = pick Q p"
  "xattrs (harden_os p) = xattrs p" "xtag (harden_os p) = xtag p" "xtext (harden_os p) = xtext p"
  unfolding harden_os_def
  by (intro revised_with only_child_with sets_attr sets_nil, simp_all add: kids_with pick_with)

lemma hyperv_kept: "t \<noteq> ''hyperv'' \<Longrightarrow> (\<And>x. xtag (f x) = xtag x) \<Longrightarrow> kids t (update_child ''hyperv'' f p) = kids t p"
  by (simp add: kids_update)

lemma features_edit:
  "features_hardened v f (update_child ''hyperv'' (with_child ''vendor_id'' (\<lambda>x. set_attr ''value'' (take 12 v) (set_attr ''state'' ''on'' x)))
     (with_child ''kvm'' (with_child ''hidden'' (set_attr ''state'' ''on'')) f))"
proof -
  define g where "g = with_child ''vendor_id'' (\<lambda>x. set_attr ''value'' (take 12 v) (set_attr ''state'' ''on'' x))"
  define h where "h = with_child ''hidden'' (set_attr ''state'' ''on'')"
  have tags: "xtag (g x) = xtag x" "xtag (h x) = xtag x" for x by (simp_all add: g_def h_def)
  have hv: "only_child ''vendor_id'' (sets [(''value'', take 12 v), (''state'', ''on'')]) x (g x)" for x
    unfolding g_def by (intro only_child_with sets_attr sets_nil) simp_all
  have kvm: "only_child ''hidden'' (sets [(''state'', ''on'')]) x (h x)" for x
    unfolding h_def by (intro only_child_with sets_attr sets_nil) simp_all
  have "pick (\<lambda>t. t \<notin> {''kvm'', ''hyperv''}) (update_child ''hyperv'' g (with_child ''kvm'' h f)) = pick (\<lambda>t. t \<notin> {''kvm'', ''hyperv''}) f"
    by (simp add: pick_with tags)
  then have "same_but (\<lambda>x. xtag x \<in> {''kvm'', ''hyperv''}) f (update_child ''hyperv'' g (with_child ''kvm'' h f))"
    by (simp add: same_but_def pick_def)
  moreover have "kids ''kvm'' (update_child ''hyperv'' g (with_child ''kvm'' h f)) = kids ''kvm'' (with_child ''kvm'' h f)"
    by (simp add: hyperv_kept tags)
  moreover have "kids ''hyperv'' (update_child ''hyperv'' g (with_child ''kvm'' h f))
      = (case kids ''hyperv'' f of c # cs \<Rightarrow> g c # cs | [] \<Rightarrow> [])"
    by (simp add: kids_update kids_with tags)
  ultimately show ?thesis
    unfolding g_def [symmetric] h_def [symmetric] features_hardened_def
    using revised_with [of "''kvm''" h "only_child ''hidden'' (sets [(''state'', ''on'')])" f] kvm hv tags by (auto simp: revised_def split: list.split)
qed

lemma harden_features_facts:
  "revised (new_elem ''features'') (features_hardened v) (kids ''features'' p) (kids ''features'' (harden_features v p))"
  "t \<noteq> ''features'' \<Longrightarrow> kids t (harden_features v p) = kids t p" "\<not> Q ''features'' \<Longrightarrow> pick Q (harden_features v p) = pick Q p"
  "xattrs (harden_features v p) = xattrs p" "xtag (harden_features v p) = xtag p" "xtext (harden_features v p) = xtext p"
  unfolding harden_features_def by (intro revised_with features_edit, simp_all add: kids_with pick_with)

lemma topology_edit: "topology_set n c (topology n c)" "xtag (topology n c) = xtag c"
  unfolding topology_set_def topology_def by (intro only_child_with sets_attr sets_nil) simp_all

lemma pick_insert_next:
  "\<not> Q (xtag c) \<Longrightarrow> filter (\<lambda>x. Q (xtag x)) (insert_next P c xs) = filter (\<lambda>x. Q (xtag x)) xs"
  "Q (xtag c) \<Longrightarrow> filter (\<lambda>x. Q (xtag x)) xs = [] \<Longrightarrow> filter (\<lambda>x. Q (xtag x)) (insert_next P c xs) = [c]"
  by (induction xs) (auto split: if_splits simp: filter_empty_conv)

lemma harden_cpu_facts:
  "cpu_hardened en n (kids ''cpu'' p) (kids ''cpu'' (harden_cpu en n p))"
  "revised (new_elem ''vcpu'') (\<lambda>v. sets [(''placement'', ''static'')] (set_text (int_str n) v)) (kids ''vcpu'' p) (kids ''vcpu'' (harden_cpu en n p))"
  "t \<noteq> ''cpu'' \<Longrightarrow> t \<noteq> ''vcpu'' \<Longrightarrow> kids t (harden_cpu en n p) = kids t p"
  "\<not> Q ''cpu'' \<Longrightarrow> \<not> Q ''vcpu'' \<Longrightarrow> pick Q (harden_cpu en n p) = pick Q p"
  "xattrs (harden_cpu en n p) = xattrs p" "xtag (harden_cpu en n p) = xtag p" "xtext (harden_cpu en n p) = xtext p"
proof -
  define r where "r = with_child ''vcpu'' (\<lambda>v. set_text (int_str n) (set_attr ''placement'' ''static'' v)) p"
  define new where "new = topology n (Elem ''cpu'' [(''mode'', ''host-passthrough''), (''check'', ''none''), (''migratable'', ''on'')] None [])"
  define attrs where "attrs = (\<lambda>c. set_attr ''check'' (env_value en ''WINSTDT_CPU_CHECK'' (attribute_or ''check'' c ''none''))
              (set_attr ''mode'' (env_value en ''WINSTDT_CPU_MODE'' (attribute_or ''mode'' c ''host-passthrough'')) c))"
  define edit where "edit = (\<lambda>c. topology n (attrs c))"
  have cpu: "harden_cpu en n p = (case child r ''cpu'' of
        None \<Rightarrow> (if child r ''features'' = None then edit_kids (\<lambda>xs. new # xs) r
                 else edit_kids (insert_next (\<lambda>x. xtag x = ''features'') new) r)
      | Some c \<Rightarrow> update_child ''cpu'' edit r)"
    unfolding harden_cpu_def Let_def r_def new_def edit_def attrs_def by (rule refl)
  have new: "xtag new = ''cpu''" "topology_set n (Elem ''cpu'' [(''mode'', ''host-passthrough''), (''check'', ''none''), (''migratable'', ''on'')] None []) new"
    unfolding new_def by (simp add: topology_edit, rule topology_edit)
  have edit: "xtag (edit c) = xtag c" "topology_set n (attrs c) (edit c)"
    "sets [(''check'', env_value en ''WINSTDT_CPU_CHECK'' (attribute_or ''check'' c ''none'')),
           (''mode'', env_value en ''WINSTDT_CPU_MODE'' (attribute_or ''mode'' c ''host-passthrough''))] c (attrs c)" for c
    unfolding edit_def by (simp add: topology_edit attrs_def, rule topology_edit) (unfold attrs_def, intro sets_attr sets_nil, simp_all)
  have r: "kids t r = (if t = ''vcpu'' then kids t r else kids t p)" "\<not> Q ''vcpu'' \<Longrightarrow> pick Q r = pick Q p"
    "xattrs r = xattrs p" "xtag r = xtag p" "xtext r = xtext p" for t Q
    by (simp_all add: r_def kids_with pick_with)
  have stage: "pick Q (harden_cpu en n p) = pick Q r" if "\<not> Q ''cpu''" for Q
    using that new(1) edit(1) by (simp add: cpu pick_with split: option.split) (simp add: pick_def pick_insert_next)
  show "cpu_hardened en n (kids ''cpu'' p) (kids ''cpu'' (harden_cpu en n p))"
  proof (cases "kids ''cpu'' p")
    case Nil
    then have none: "child r ''cpu'' = None" "filter (\<lambda>x. xtag x = ''cpu'') (xkids r) = []"
      using r(1) [of "''cpu''"] by (simp_all add: child_kids) (simp add: kids_def pick_def)
    have "kids ''cpu'' (harden_cpu en n p) = [new]"
      using none new(1) pick_insert_next(2) [of "\<lambda>t. t = ''cpu''" new "xkids r"] by (auto simp: cpu kids_def pick_def)
    then show ?thesis using Nil new(2) by (simp add: cpu_hardened_def)
  next
    case (Cons c cs)
    then have "child r ''cpu'' = Some c" "kids ''cpu'' r = c # cs"
      using r(1) [of "''cpu''"] by (simp_all add: child_kids)
    then have "kids ''cpu'' (harden_cpu en n p) = edit c # cs" by (simp add: cpu kids_update edit(1))
    moreover have "\<exists>d. sets [(''check'', env_value en ''WINSTDT_CPU_CHECK'' (attribute_or ''check'' c ''none'')),
           (''mode'', env_value en ''WINSTDT_CPU_MODE'' (attribute_or ''mode'' c ''host-passthrough''))] c d \<and> topology_set n d (edit c)"
      using edit(2,3) by blast
    ultimately show ?thesis using Cons by (simp add: cpu_hardened_def revised_def)
  qed
  have "sets [(''placement'', ''static'')] (set_text (int_str n) v) (set_text (int_str n) (set_attr ''placement'' ''static'' v))" for v
    by (simp add: sets_def) (simp add: set_text_def)
  then have "revised (new_elem ''vcpu'') (\<lambda>v. sets [(''placement'', ''static'')] (set_text (int_str n) v)) (kids ''vcpu'' p) (kids ''vcpu'' r)"
    unfolding r_def by (intro revised_with) simp_all
  then show "revised (new_elem ''vcpu'') (\<lambda>v. sets [(''placement'', ''static'')] (set_text (int_str n) v)) (kids ''vcpu'' p) (kids ''vcpu'' (harden_cpu en n p))"
    using stage [of "\<lambda>t. t = ''vcpu''"] by (simp add: kids_def)
  show "kids t (harden_cpu en n p) = kids t p" if "t \<noteq> ''cpu''" "t \<noteq> ''vcpu''"
    using stage [of "\<lambda>t'. t' = t"] r(1) [of t] that by (simp add: kids_def)
  show "pick Q (harden_cpu en n p) = pick Q p" if "\<not> Q ''cpu''" "\<not> Q ''vcpu''"
    using stage r(2) that by simp
  show "xattrs (harden_cpu en n p) = xattrs p" "xtag (harden_cpu en n p) = xtag p" "xtext (harden_cpu en n p) = xtext p"
    using r(3-5) by (simp_all add: cpu split: option.split)
qed

text \<open>Disks and devices.\<close>

lemma remove_first_tag:
  "filter (\<lambda>x. xtag x = t') (remove_first (\<lambda>c. xtag c = t) xs)
     = (if t' = t then tl (filter (\<lambda>x. xtag x = t) xs) else filter (\<lambda>x. xtag x = t') xs)"
  "\<not> Q t \<Longrightarrow> filter (\<lambda>x. Q (xtag x)) (remove_first (\<lambda>c. xtag c = t) xs) = filter (\<lambda>x. Q (xtag x)) xs"
  by (induction xs) auto

lemma disk_wwn_facts:
  "\<not> Q ''wwn'' \<Longrightarrow> pick Q (disk_wwn en name i e) = pick Q e"
  "xtag (disk_wwn en name i e) = xtag e" "xattrs (disk_wwn en name i e) = xattrs e" "xtext (disk_wwn en name i e) = xtext e"
  "if \<exists>t. child e ''target'' = Some t \<and> get_attr ''bus'' t \<in> {Some ''ide'', Some ''scsi''}
     then revised (new_elem ''wwn'') (\<lambda>w w'. w' = set_text (env_value en ''WINSTDT_DISK_WWN'' (take 16 (hv_sha1 en (name @ ''-'' @ nat_str i)))) w)
            (kids ''wwn'' e) (kids ''wwn'' (disk_wwn en name i e))
     else kids ''wwn'' (disk_wwn en name i e) = tl (kids ''wwn'' e)"
proof -
  show "\<not> Q ''wwn'' \<Longrightarrow> pick Q (disk_wwn en name i e) = pick Q e"
    by (simp add: disk_wwn_def pick_with) (simp add: pick_def remove_first_tag(2))
  show "xtag (disk_wwn en name i e) = xtag e" "xattrs (disk_wwn en name i e) = xattrs e" "xtext (disk_wwn en name i e) = xtext e"
    by (simp_all add: disk_wwn_def)
  define bus where "bus \<longleftrightarrow> (case child e ''target'' of Some t \<Rightarrow> get_attr ''bus'' t \<in> {Some ''ide'', Some ''scsi''} | None \<Rightarrow> False)"
  have bus: "(\<exists>t. child e ''target'' = Some t \<and> get_attr ''bus'' t \<in> {Some ''ide'', Some ''scsi''}) = bus"
    by (cases "child e ''target''") (simp_all add: bus_def)
  show "if \<exists>t. child e ''target'' = Some t \<and> get_attr ''bus'' t \<in> {Some ''ide'', Some ''scsi''}
     then revised (new_elem ''wwn'') (\<lambda>w w'. w' = set_text (env_value en ''WINSTDT_DISK_WWN'' (take 16 (hv_sha1 en (name @ ''-'' @ nat_str i)))) w)
            (kids ''wwn'' e) (kids ''wwn'' (disk_wwn en name i e))
     else kids ''wwn'' (disk_wwn en name i e) = tl (kids ''wwn'' e)"
    unfolding bus unfolding disk_wwn_def bus_def [symmetric]
    using revised_with [of "''wwn''" "set_text w" "\<lambda>x y. y = set_text w x" e for w]
    by (cases bus) (simp, simp add: kids_def pick_def remove_first_tag(1))
qed

lemma harden_disk_facts:
  assumes "get_attr ''device'' x = Some ''disk''" "kids ''alias'' x = []"
  shows "disk_hardened en name i x (harden_disk en name i x)"
proof -
  define n where "n = env_value en ''WINSTDT_DISK_SERIAL'' (deterministic_serial en (name @ ''-'' @ nat_str i) ''WD'' 18)"
  define a where "a = with_child ''alias'' (set_attr ''name'' (''ua-winst-disk'' @ nat_str i)) x"
  define b where "b = with_child ''serial'' (set_text n) a"
  have run: "harden_disk en name i x = disk_wwn en name i b"
    using assms(1) by (simp add: harden_disk_def b_def a_def n_def)
  have kb: "kids t b = kids t x" if "t \<noteq> ''alias''" "t \<noteq> ''serial''" for t
    using that by (simp add: b_def a_def kids_with)
  have "kids ''alias'' b = [Elem ''alias'' [(''name'', ''ua-winst-disk'' @ nat_str i)] None []]"
    using assms(2) by (simp add: b_def a_def kids_with) (simp add: set_attr_def new_elem_def)
  moreover have "revised (new_elem ''serial'') (\<lambda>s s'. s' = set_text n s) (kids ''serial'' x) (kids ''serial'' b)"
    using revised_with [of "''serial''" "set_text n" "\<lambda>s s'. s' = set_text n s" a] by (simp add: b_def a_def kids_with)
  moreover have "kids ''alias'' (disk_wwn en name i b) = kids ''alias'' b" "kids ''serial'' (disk_wwn en name i b) = kids ''serial'' b"
    by (simp_all add: kids_def disk_wwn_facts)
  moreover have "same_but (\<lambda>c. xtag c \<in> {''alias'', ''serial'', ''wwn''}) x (disk_wwn en name i b)"
  proof -
    have "pick (\<lambda>t. t \<notin> {''alias'', ''serial'', ''wwn''}) (disk_wwn en name i b) = pick (\<lambda>t. t \<notin> {''alias'', ''serial'', ''wwn''}) x"
      by (simp add: disk_wwn_facts(1) b_def a_def pick_with)
    then show ?thesis by (simp add: same_but_def pick_def disk_wwn_facts(2-4)) (simp add: b_def a_def set_text_def)
  qed
  moreover have "child b ''target'' = child x ''target''" "kids ''wwn'' b = kids ''wwn'' x"
    by (simp_all add: child_kids kb)
  ultimately show ?thesis
    using disk_wwn_facts(5) [of b en name i] unfolding disk_hardened_def Let_def run n_def
    by (intro conjI) (assumption | simp only:)+
qed

lemma kids_without_runtime: "kids ''alias'' (without_runtime x) = []" "xtag (without_runtime x) = xtag x"
  "get_attr k (without_runtime x) = get_attr k x"
  by (auto simp: without_runtime_def kids_def pick_def filter_empty_conv get_attr_def)

lemma harden_disk_tag: "xtag (harden_disk en name i x) = xtag x"
  by (simp add: harden_disk_def disk_wwn_facts)

lemma number_disks_facts:
  "length (number_disks en name i xs) = length xs"
  "j < length xs \<Longrightarrow> device_hardened en name (i + length (filter (\<lambda>x. xtag x = ''disk'') (take j xs))) (xs ! j)
     (clear_balloon (number_disks en name i (map without_runtime xs) ! j))"
proof (induction xs arbitrary: i j)
  case (Cons y ys)
  case 1 show ?case using Cons(1) by simp
  case 2
  let ?i = "if xtag y = ''disk'' then i + 1 else i"
  have here: "device_hardened en name i y (clear_balloon (if xtag y = ''disk'' then harden_disk en name i (without_runtime y) else without_runtime y))"
  proof (cases "xtag y = ''disk''")
    case True
    then show ?thesis
      using harden_disk_facts [OF _ kids_without_runtime(1), of y en name i]
      by (simp add: device_hardened_def clear_balloon_def harden_disk_tag kids_without_runtime)
        (simp add: harden_disk_def kids_without_runtime)
  next
    case False
    then show ?thesis by (simp add: device_hardened_def clear_balloon_def kids_without_runtime)
  qed
  show ?case
  proof (cases j)
    case 0
    then show ?thesis using here by (simp add: kids_without_runtime split: if_splits)
  next
    case (Suc k)
    have "device_hardened en name (?i + length (filter (\<lambda>x. xtag x = ''disk'') (take k ys))) (ys ! k)
       (clear_balloon (number_disks en name ?i (map without_runtime ys) ! k))"
      using Cons(2) [of k ?i] 2 Suc by simp
    then show ?thesis using Suc by (simp add: kids_without_runtime split: if_splits)
  qed
qed simp_all

lemma harden_disks_facts:
  "kids t (harden_disks en name p) = (if t = ''devices'' then
     (case kids ''devices'' p of d # ds \<Rightarrow> edit_kids (\<lambda>xs. map clear_balloon (number_disks en name 1 xs)) d # ds | [] \<Rightarrow> [])
   else kids t p)"
  "\<not> Q ''devices'' \<Longrightarrow> pick Q (harden_disks en name p) = pick Q p"
  "xattrs (harden_disks en name p) = xattrs p" "xtag (harden_disks en name p) = xtag p" "xtext (harden_disks en name p) = xtext p"
  by (simp_all add: harden_disks_def kids_update pick_with del: One_nat_def)

text \<open>The first stages: runtime fields and SMBIOS data.\<close>

lemma insert_behind_facts:
  "set (insert_behind P c xs) = insert c (set xs)"
  "\<not> Q (xtag c) \<Longrightarrow> filter (\<lambda>x. Q (xtag x)) (insert_behind P c xs) = filter (\<lambda>x. Q (xtag x)) xs"
  "Q (xtag c) \<Longrightarrow> \<exists>us vs. filter (\<lambda>x. Q (xtag x)) (insert_behind P c xs) = us @ c # vs \<and> filter (\<lambda>x. Q (xtag x)) xs = us @ vs"
proof -
  have "\<exists>us vs. insert_behind P c xs = us @ c # vs \<and> xs = us @ vs"
  proof (induction xs)
    case (Cons x xs)
    then obtain us vs where IH: "insert_behind P c xs = us @ c # vs" "xs = us @ vs" by blast
    show ?case
    proof (cases "list_ex P xs")
      case True
      then have "insert_behind P c (x # xs) = (x # us) @ c # vs" using IH(1) by simp
      moreover have "x # xs = (x # us) @ vs" using IH(2) by simp
      ultimately show ?thesis by blast
    next
      case False
      then have "insert_behind P c (x # xs) = [x] @ c # xs \<and> x # xs = [x] @ xs
          \<or> insert_behind P c (x # xs) = [] @ c # x # xs \<and> x # xs = [] @ (x # xs)" by simp
      then show ?thesis by blast
    qed
  qed simp
  then obtain us vs where split: "insert_behind P c xs = us @ c # vs" "xs = us @ vs" by blast
  show "set (insert_behind P c xs) = insert c (set xs)"
    "\<not> Q (xtag c) \<Longrightarrow> filter (\<lambda>x. Q (xtag x)) (insert_behind P c xs) = filter (\<lambda>x. Q (xtag x)) xs"
    unfolding split(1) by (simp_all add: split(2))
  show "\<exists>us vs. filter (\<lambda>x. Q (xtag x)) (insert_behind P c xs) = us @ c # vs \<and> filter (\<lambda>x. Q (xtag x)) xs = us @ vs" if "Q (xtag c)"
    unfolding split(1) using that by (simp add: split(2)) blast
qed

lemma insert_after_facts:
  "\<exists>us vs. kids (xtag c) (insert_after c tags p) = us @ c # vs \<and> tl (kids (xtag c) p) = us @ vs"
  "\<not> Q (xtag c) \<Longrightarrow> pick Q (insert_after c tags p) = pick Q p" "xattrs (insert_after c tags p) = xattrs p"
  "xtag (insert_after c tags p) = xtag p" "xtext (insert_after c tags p) = xtext p"
  using insert_behind_facts(3) [of "\<lambda>t. t = xtag c" c "\<lambda>x. xtag x \<in> tags" "remove_first (\<lambda>x. xtag x = xtag c) (xkids p)"]
  by (simp_all add: insert_after_def kids_def pick_def insert_behind_facts(2) remove_first_tag)

lemma runtime_facts:
  "xattrs (remove_runtime_only_fields p) = filter (\<lambda>(k, v). k \<noteq> ''id'') (xattrs p)"
  "xtag (remove_runtime_only_fields p) = xtag p" "xtext (remove_runtime_only_fields p) = xtext p"
  "kids ''seclabel'' (remove_runtime_only_fields p) = []"
  "\<not> Q ''seclabel'' \<Longrightarrow> \<not> Q ''devices'' \<Longrightarrow> pick Q (remove_runtime_only_fields p) = pick Q p"
  "kids ''devices'' (remove_runtime_only_fields p)
     = (case kids ''devices'' p of d # ds \<Rightarrow> edit_kids (map without_runtime) d # ds | [] \<Rightarrow> [])"
proof -
  let ?q = "Elem (xtag p) (filter (\<lambda>(k, v). k \<noteq> ''id'') (xattrs p)) (xtext p) (filter (\<lambda>x. xtag x \<noteq> ''seclabel'') (xkids p))"
  have strip: "edit_kids (filter (\<lambda>x. xtag x \<notin> {''alias'', ''address''})) = without_runtime"
    by (simp add: fun_eq_iff edit_kids_def without_runtime_def)
  have run: "remove_runtime_only_fields p = update_child ''devices'' (edit_kids (map without_runtime)) ?q"
    by (simp only: remove_runtime_only_fields_def strip)
  show "xattrs (remove_runtime_only_fields p) = filter (\<lambda>(k, v). k \<noteq> ''id'') (xattrs p)"
    "xtag (remove_runtime_only_fields p) = xtag p" "xtext (remove_runtime_only_fields p) = xtext p" by (simp_all add: run)
  have q: "pick Q ?q = pick Q p" if "\<not> Q ''seclabel''" for Q
    unfolding pick_def xml.sel filter_filter by (rule filter_cong) (use that in auto)
  have none: "kids ''seclabel'' ?q = []" by (simp add: kids_def pick_def filter_empty_conv)
  then show "kids ''seclabel'' (remove_runtime_only_fields p) = []" by (simp add: run kids_update)
  show "pick Q (remove_runtime_only_fields p) = pick Q p" if "\<not> Q ''seclabel''" "\<not> Q ''devices''" for Q
    using q that by (simp add: run pick_with)
  show "kids ''devices'' (remove_runtime_only_fields p)
     = (case kids ''devices'' p of d # ds \<Rightarrow> edit_kids (map without_runtime) d # ds | [] \<Rightarrow> [])"
    using q [of "\<lambda>t. t = ''devices''"] by (simp add: run kids_update) (simp add: kids_def)
qed

text \<open>The argument pair for the ACPI tables survives the removal of other pairs.\<close>

lemma has_pair_cons: "has_pair a b xs \<Longrightarrow> has_pair a b (x # xs)"
  by (cases xs) simp_all

lemma has_pair_strip:
  "a \<noteq> c \<Longrightarrow> \<not> starts_with a pre \<Longrightarrow> \<not> starts_with b pre \<Longrightarrow> b \<noteq> c \<Longrightarrow> has_pair a b xs \<Longrightarrow>
     has_pair a b (strip_pairs c pre xs)"
proof (induction c pre xs rule: strip_pairs.induct)
  case (1 c pre x y xs)
  show ?case
  proof (cases "is_pair c pre x y")
    case True
    then have xy: "get_attr ''value'' x = Some c" "get_attr ''value'' y \<noteq> Some a"
      using "1.prems" by (auto simp: is_pair_def)
    have "has_pair a b (y # xs)" using "1.prems"(1,5) xy(1) by auto
    then have "has_pair a b xs" using xy(2) by (cases xs) simp_all
    then show ?thesis using "1.IH"(1) [OF True "1.prems"(1-4)] True by simp
  next
    case False
    show ?thesis
    proof (cases "get_attr ''value'' x = Some a \<and> get_attr ''value'' y = Some b")
      case here: True
      then have "\<exists>ys. strip_pairs c pre (y # xs) = y # ys"
        using "1.prems"(4) by (cases xs) (simp_all add: is_pair_def)
      then show ?thesis using False here by auto
    next
      case other: False
      then have "has_pair a b (y # xs)" using "1.prems"(5) by auto
      from "1.IH"(2) [OF False "1.prems"(1-4) this] show ?thesis using False has_pair_cons by simp
    qed
  qed
qed simp_all

definition machine_pair :: "harden_env \<Rightarrow> string" where
  "machine_pair en = ''x-oem-id='' @ take 6 (env_value en ''WINSTDT_ACPI_OEM_ID'' ''DELL'') @ '',x-oem-table-id=''
     @ take 8 (env_value en ''WINSTDT_ACPI_OEM_TABLE_ID'' ''CBX3'')"

lemma has_pair_append: "has_pair a b xs \<Longrightarrow> has_pair a b (xs @ ys)"
  by (induction a b xs rule: has_pair.induct) (auto simp: has_pair_cons)

text \<open>What must become of the arguments: a pair that is not there is put at the end.\<close>

definition with_pair :: "string \<Rightarrow> string \<Rightarrow> xml list \<Rightarrow> xml list" where
  "with_pair a b args = (if has_pair a b args then args else args @ [arg_elem a, arg_elem b])"

definition arguments_hardened :: "harden_env \<Rightarrow> xml list \<Rightarrow> xml list" where
  "arguments_hardened en args =
     (let m = with_pair ''-machine'' (machine_pair en) args in
      if env_value en ''WINSTDT_ENABLE_QEMU_DISK_MODEL_SET'' ''0'' = ''1''
      then with_pair ''-set'' (''device.sata0-0-0.model='' @ disk_model en) m
      else strip_pairs ''-set'' ''device.sata0-0-0.model='' m)"

definition commandline_hardened :: "harden_env \<Rightarrow> xml \<Rightarrow> xml \<Rightarrow> bool" where
  "commandline_hardened en c c' \<longleftrightarrow> same_but is_arg c c'
     \<and> filter is_arg (xkids c') = arguments_hardened en (filter is_arg (xkids c))
     \<and> has_pair ''-machine'' (machine_pair en) (filter is_arg (xkids c'))"

lemma append_pair_facts:
  "filter is_arg (xkids (append_qemu_arg_pair a b cl)) = with_pair a b (filter is_arg (xkids cl))"
  "same_but is_arg cl (append_qemu_arg_pair a b cl)" "xtag (append_qemu_arg_pair a b cl) = xtag cl"
  by (simp_all add: append_qemu_arg_pair_def with_pair_def same_but_def) (simp_all add: arg_elem_def is_arg_def)

lemma with_pair_facts: "has_pair a b (with_pair a b args)" "has_pair c d args \<Longrightarrow> has_pair c d (with_pair a b args)"
proof -
  have "has_pair a b (xs @ [arg_elem a, arg_elem b])" for xs
    by (induction xs) (simp_all add: has_pair_cons, simp add: arg_elem_def get_attr_def)
  then show "has_pair a b (with_pair a b args)" by (simp add: with_pair_def)
qed (simp add: with_pair_def has_pair_append)

lemma arguments_have_pair: "has_pair ''-machine'' (machine_pair en) (arguments_hardened en args)"
proof -
  have "has_pair ''-machine'' (machine_pair en) (strip_pairs ''-set'' ''device.sata0-0-0.model='' (with_pair ''-machine'' (machine_pair en) args))"
    by (rule has_pair_strip [OF _ _ _ _ with_pair_facts(1)]) (simp_all add: machine_pair_def starts_with_def)
  then show ?thesis
    unfolding arguments_hardened_def Let_def using with_pair_facts by (simp del: strip_pairs.simps)
qed

lemma same_but_trans: "same_but P a b \<Longrightarrow> same_but P b c \<Longrightarrow> same_but P a c"
  by (simp add: same_but_def)

lemma harden_commandline_facts:
  "\<exists>cl'. harden_commandline en cl = Some cl' \<and> xtag cl' = xtag cl \<and> commandline_hardened en cl cl'"
proof -
  define m where "m = append_qemu_arg_pair ''-machine'' (machine_pair en) cl"
  have m: "filter is_arg (xkids m) = with_pair ''-machine'' (machine_pair en) (filter is_arg (xkids cl))"
    "same_but is_arg cl m" "xtag m = xtag cl"
    by (simp_all add: m_def append_pair_facts)
  have cl: "harden_commandline en cl = (if env_value en ''WINSTDT_ENABLE_QEMU_DISK_MODEL_SET'' ''0'' = ''1''
         then Some (append_qemu_arg_pair ''-set'' (''device.sata0-0-0.model='' @ disk_model en) m)
         else remove_qemu_arg_pair_prefix ''-set'' ''device.sata0-0-0.model='' m)"
    unfolding harden_commandline_def Let_def m_def machine_pair_def by (rule refl)
  obtain xs i where loop: "while_option loop_guard (loop_body ''-set'' ''device.sata0-0-0.model='') (xkids m, 0) = Some (xs, i)"
    "filter is_arg xs = strip_pairs ''-set'' ''device.sata0-0-0.model='' (filter is_arg (xkids m))"
    "filter (\<lambda>x. \<not> is_arg x) xs = filter (\<lambda>x. \<not> is_arg x) (xkids m)"
    using removal_loop [of "''-set''" "''device.sata0-0-0.model=''" "xkids m"] by blast
  obtain cl' where cl': "harden_commandline en cl = Some cl'" "xtag cl' = xtag m" "same_but is_arg m cl'"
    "filter is_arg (xkids cl') = arguments_hardened en (filter is_arg (xkids cl))"
  proof (cases "env_value en ''WINSTDT_ENABLE_QEMU_DISK_MODEL_SET'' ''0'' = ''1''")
    case True
    show thesis
      by (rule that, simp only: cl True simp_thms if_True)
        (simp_all only: append_pair_facts arguments_hardened_def Let_def True simp_thms if_True m)
  next
    case False
    have "remove_qemu_arg_pair_prefix ''-set'' ''device.sata0-0-0.model='' m = Some (edit_kids (\<lambda>_. xs) m)"
      by (simp only: remove_qemu_arg_pair_prefix_def loop option.map fst_conv)
    then show thesis
      using False loop(2,3) m(1) that [of "edit_kids (\<lambda>_. xs) m"]
      by (simp add: cl same_but_def arguments_hardened_def Let_def)
  qed
  then show ?thesis
    using arguments_have_pair same_but_trans [OF m(2)] by (auto simp: commandline_hardened_def m(3))
qed

lemma harden_qemu_facts:
  "\<exists>r. harden_qemu_commandline en p = Some r
     \<and> revised (new_elem (qemu ''commandline'')) (commandline_hardened en) (kids (qemu ''commandline'') p) (kids (qemu ''commandline'') r)
     \<and> (\<forall>Q. \<not> Q (qemu ''commandline'') \<longrightarrow> pick Q r = pick Q p) \<and> xattrs r = xattrs p \<and> xtag r = xtag p \<and> xtext r = xtext p"
proof -
  define cl where "cl = (case child p (qemu ''commandline'') of Some c \<Rightarrow> c | None \<Rightarrow> new_elem (qemu ''commandline''))"
  have "xtag cl = qemu ''commandline''" by (auto simp: cl_def child_tag split: option.split)
  then obtain cl' where cl': "harden_commandline en cl = Some cl'" "xtag cl' = qemu ''commandline''" "commandline_hardened en cl cl'"
    using harden_commandline_facts [of en cl] by auto
  have "cl = (case kids (qemu ''commandline'') p of c # _ \<Rightarrow> c | [] \<Rightarrow> new_elem (qemu ''commandline''))"
    by (simp add: cl_def child_kids split: list.split)
  then show ?thesis
    using cl' by (simp add: harden_qemu_commandline_def cl_def [symmetric] kids_with pick_with revised_def)
qed

lemma frontend_edit: "frontend_hardened en f (harden_frontend en f)"
  by (simp only: frontend_hardened_def harden_frontend_def xkids_edits xtag_edits same_attrs simp_thms)

lemma override_edit: "override_hardened en ov (harden_override en ov)" "xtag (harden_override en ov) = xtag ov"
proof -
  define f where "f = with_child (qemu ''frontend'') (harden_frontend en)"
  have f: "only_child (qemu ''frontend'') (frontend_hardened en) x (f x)" for x
    unfolding f_def by (intro only_child_with frontend_edit) (simp add: harden_frontend_def)
  have dev: "is_disk_device (f x) = is_disk_device x" for x by (simp add: is_disk_device_def f_def)
  have run: "harden_override en ov = (if list_ex is_disk_device (xkids ov) then edit_kids (update_first is_disk_device f) ov
      else append_child (f (Elem (qemu ''device'') [(''alias'', ''ua-winst-disk1'')] None [])) ov)"
    by (simp add: harden_override_def f_def Let_def)
  show "xtag (harden_override en ov) = xtag ov" by (simp add: run)
  have new: "is_disk_device (Elem (qemu ''device'') [(''alias'', ''ua-winst-disk1'')] None [])"
    by (simp add: is_disk_device_def get_attr_def)
  show "override_hardened en ov (harden_override en ov)"
  proof (cases "filter is_disk_device (xkids ov)")
    case Nil
    then have "\<not> list_ex is_disk_device (xkids ov)" by (simp add: list_ex_iff filter_empty_conv)
    then show ?thesis
      using Nil new f by (simp add: override_hardened_def sole_def same_but_def revised_def run dev)
  next
    case (Cons d ds)
    then have "d \<in> set (filter is_disk_device (xkids ov))" by simp
    then have "list_ex is_disk_device (xkids ov)" by (auto simp: list_ex_iff)
    then show ?thesis
      using Cons f filter_update_first [of is_disk_device f "xkids ov"]
      by (simp add: override_hardened_def sole_def same_but_def revised_def run dev)
  qed
qed

lemma harden_override_facts:
  "revised (new_elem (qemu ''override'')) (override_hardened en) (kids (qemu ''override'') p) (kids (qemu ''override'') (harden_qemu_overrides en p))"
  "\<not> Q (qemu ''override'') \<Longrightarrow> pick Q (harden_qemu_overrides en p) = pick Q p"
  "xattrs (harden_qemu_overrides en p) = xattrs p" "xtag (harden_qemu_overrides en p) = xtag p" "xtext (harden_qemu_overrides en p) = xtext p"
  unfolding harden_qemu_overrides_def by (intro revised_with override_edit, simp_all add: override_edit pick_with)

text \<open>The stages that do not concern QEMU, together.\<close>

definition disguise :: "harden_env \<Rightarrow> string \<Rightarrow> int \<Rightarrow> string \<Rightarrow> xml \<Rightarrow> xml" where
  "disguise en name cpus vendor p = harden_disks en name (harden_cpu en cpus (harden_features vendor (harden_os p)))"

lemma disguise_facts:
  "\<not> Q ''os'' \<Longrightarrow> \<not> Q ''features'' \<Longrightarrow> \<not> Q ''cpu'' \<Longrightarrow> \<not> Q ''vcpu'' \<Longrightarrow> \<not> Q ''devices'' \<Longrightarrow>
     pick Q (disguise en name cpus vendor p) = pick Q p"
  "xattrs (disguise en name cpus vendor p) = xattrs p" "xtag (disguise en name cpus vendor p) = xtag p"
  "xtext (disguise en name cpus vendor p) = xtext p"
  by (simp_all add: disguise_def harden_os_facts(3-) harden_features_facts(3-) harden_cpu_facts(4-) harden_disks_facts(2-))

lemma disguised_elements:
  "revised (new_elem ''os'') (only_child ''smbios'' (sets [(''mode'', ''sysinfo'')])) (kids ''os'' p) (kids ''os'' (disguise en name cpus vendor p))"
  "revised (new_elem ''features'') (features_hardened vendor) (kids ''features'' p) (kids ''features'' (disguise en name cpus vendor p))"
  "revised (new_elem ''vcpu'') (\<lambda>v. sets [(''placement'', ''static'')] (set_text (int_str cpus) v)) (kids ''vcpu'' p)
     (kids ''vcpu'' (disguise en name cpus vendor p))"
  "cpu_hardened en cpus (kids ''cpu'' p) (kids ''cpu'' (disguise en name cpus vendor p))"
  "kids ''devices'' (disguise en name cpus vendor p) = (case kids ''devices'' p of
      d # ds \<Rightarrow> edit_kids (\<lambda>xs. map clear_balloon (number_disks en name 1 xs)) d # ds | [] \<Rightarrow> [])"
proof -
  define q where "q = harden_features vendor (harden_os p)"
  have run: "disguise en name cpus vendor p = harden_disks en name (harden_cpu en cpus q)" by (simp add: disguise_def q_def)
  have q: "kids ''vcpu'' q = kids ''vcpu'' p" "kids ''cpu'' q = kids ''cpu'' p" "kids ''devices'' q = kids ''devices'' p"
    "kids ''os'' q = kids ''os'' (harden_os p)"
    by (simp_all add: q_def harden_os_facts harden_features_facts)
  note eqs = run harden_disks_facts(1) harden_cpu_facts(3) q
  show "revised (new_elem ''os'') (only_child ''smbios'' (sets [(''mode'', ''sysinfo'')])) (kids ''os'' p) (kids ''os'' (disguise en name cpus vendor p))"
    using harden_os_facts(1) by (simp add: eqs)
  show "revised (new_elem ''features'') (features_hardened vendor) (kids ''features'' p) (kids ''features'' (disguise en name cpus vendor p))"
    using harden_features_facts(1) [of vendor "harden_os p"] by (simp add: eqs) (simp add: q_def harden_os_facts)
  show "revised (new_elem ''vcpu'') (\<lambda>v. sets [(''placement'', ''static'')] (set_text (int_str cpus) v)) (kids ''vcpu'' p)
     (kids ''vcpu'' (disguise en name cpus vendor p))"
    using harden_cpu_facts(2) [of cpus q en] by (simp add: eqs)
  show "cpu_hardened en cpus (kids ''cpu'' p) (kids ''cpu'' (disguise en name cpus vendor p))"
    using harden_cpu_facts(1) [of en cpus q] by (simp add: eqs)
  show "kids ''devices'' (disguise en name cpus vendor p) = (case kids ''devices'' p of
      d # ds \<Rightarrow> edit_kids (\<lambda>xs. map clear_balloon (number_disks en name 1 xs)) d # ds | [] \<Rightarrow> [])"
    by (simp add: eqs del: One_nat_def)
qed

lemma devices_edit:
  "devices_hardened en name d (edit_kids (\<lambda>xs. map clear_balloon (number_disks en name 1 xs)) (edit_kids (map without_runtime) d))"
  using number_disks_facts [where i = 1 and en = en and name = name and xs = "xkids d"]
  by (simp add: devices_hardened_def number_disks_facts(1))

section \<open>Properties\<close>

text \<open>
  C34. The loop that removes argument pairs ends for every command line, and what it leaves is exactly
  one left-to-right sweep: no other argument and no other element is lost.
\<close>

theorem removal_loop_ends:
  "\<exists>cl'. remove_qemu_arg_pair_prefix a pre cl = Some cl'
     \<and> filter is_arg (xkids cl') = strip_pairs a pre (filter is_arg (xkids cl))
     \<and> filter (\<lambda>x. \<not> is_arg x) (xkids cl') = filter (\<lambda>x. \<not> is_arg x) (xkids cl)
     \<and> xtag cl' = xtag cl \<and> (\<forall>k. get_attr k cl' = get_attr k cl)"
  using removal_loop [of a pre "xkids cl"] by (auto simp: remove_qemu_arg_pair_prefix_def)

text \<open>
  One sweep does not remove every pair: removing one can form another whose first half is already
  behind.
\<close>

theorem removal_leaves_pair:
  "map (get_attr ''value'') (strip_pairs ''-set'' ''d='' (map arg_elem [''-set'', ''-set'', ''d=1'', ''d=2'']))
     = [Some ''-set'', Some ''d=2'']"
  by (simp add: is_pair_def arg_elem_def get_attr_def starts_with_def)


section \<open>Witnesses\<close>

definition sample_harden :: harden_env where
  "sample_harden = \<lparr>hv_var = (\<lambda>_. None), hv_sha256 = (\<lambda>s. s), hv_sha1 = (\<lambda>s. s), hv_uuid5 = (\<lambda>s. s)\<rparr>"

definition sample_domain :: xml where
  "sample_domain = Elem ''domain'' [(''id'', ''3'')] None
     [Elem ''name'' [] (Some ''win10'') [], Elem ''seclabel'' [] None [],
      Elem ''devices'' [] None [Elem ''disk'' [(''device'', ''disk'')] None [Elem ''alias'' [(''name'', ''sata0-0-0'')] None []]]]"


end
