(* ===== verification/CaseRun.thy ===== *)
theory CaseRun
  imports Report PcapLoader Iocs TimeText FileTree
begin

text \<open>
  One run of the pipeline: \<open>main\<close> of \<open>pipeline/orchestrator.py\<close>, from the arguments to the
  documents under \<open>output/\<close>, and the manifest of \<open>pipeline/evidence.py\<close> that opens them. The file
  system, scapy, the JSON decoder, the digests, the clock and the UUIDs are the record \<open>run_env\<close>;
  a run yields the documents it has written and whether it ended or raised. What is printed is
  left out, except for the statements of provenance, which can raise.
\<close>

section \<open>The case manifest\<close>

record case_manifest =
  cm_case_id :: string
  cm_created :: string
  cm_inputs :: "input_record list"
  cm_parameters :: "(string \<times> pyval) list"
  cm_versions :: "(string \<times> string) list"

definition tool_versions :: "string \<Rightarrow> string \<Rightarrow> string option \<Rightarrow> (string \<times> string) list" where
  "tool_versions python platform scapy =
     [(''python'', python), (''platform'', platform), (''schema'', ''1.2''),
      (''scapy'', case scapy of Some v \<Rightarrow> v | None \<Rightarrow> ''absent'')]"

definition build_case_manifest ::
    "(string \<Rightarrow> string) \<Rightarrow> (string \<Rightarrow> string option) \<Rightarrow> (string \<Rightarrow> string list option) \<Rightarrow> string
     \<Rightarrow> (string \<times> string) list \<Rightarrow> string option \<Rightarrow> string option \<Rightarrow> string option
     \<Rightarrow> (string \<times> pyval) list \<Rightarrow> case_manifest" where
  "build_case_manifest H file listdir now versions sample pcap zeek_dir params =
     (let inputs = collect_inputs H file listdir sample pcap zeek_dir
      in \<lparr>cm_case_id = case_id H inputs params, cm_created = now, cm_inputs = inputs,
          cm_parameters = params, cm_versions = versions\<rparr>)"

definition input_obj :: "input_record \<Rightarrow> pyval" where
  "input_obj r = JObj [(''role'', JStr (inp_role r)), (''path'', JStr (inp_path r)),
     (''sha256'', JStr (inp_sha256 r)), (''size_bytes'', JInt (int (inp_size r)))]"

definition manifest_obj :: "case_manifest \<Rightarrow> pyval" where
  "manifest_obj m = JObj [(''case_id'', JStr (cm_case_id m)), (''created_utc'', JStr (cm_created m)),
     (''inputs'', JList (map input_obj (cm_inputs m))), (''parameters'', JObj (cm_parameters m)),
     (''tool_versions'', JObj (map (\<lambda>(k, v). (k, JStr v)) (cm_versions m)))]"

section \<open>Arguments\<close>

record run_args =
  ra_pcap :: string
  ra_access :: string
  ra_zeek :: "string option"
  ra_prior :: "string option"
  ra_handoff :: "string option"

text \<open>The argument after the last occurrence of a flag; every argument is looked at, the script's name too.\<close>

fun flag_value :: "string \<Rightarrow> string list \<Rightarrow> string option" where
  "flag_value f (x # y # r) =
     (case flag_value f (y # r) of Some v \<Rightarrow> Some v | None \<Rightarrow> if x = f then Some y else None)"
| "flag_value f _ = None"

definition parse_args :: "string list \<Rightarrow> run_args" where
  "parse_args argv =
     \<lparr>ra_pcap = (if 1 < length argv then argv ! 1 else ''data/sample_infostealer.pcap''),
      ra_access = (if 2 < length argv then argv ! 2 else ''data/access_events_fixture.json''),
      ra_zeek = flag_value ''--zeek-dir'' argv, ra_prior = flag_value ''--static-prior'' argv,
      ra_handoff = flag_value ''--handoff'' argv\<rparr>"

section \<open>Inputs\<close>

record run_env =
  rv_net :: env
  rv_file :: "string \<Rightarrow> string option"
  rv_listdir :: "string \<Rightarrow> string list option"
  rv_json :: "string \<Rightarrow> string + pyval"
  rv_log_row :: "string \<Rightarrow> log_row option"
  rv_packets :: "string \<Rightarrow> sc_packet list res"
  rv_md5 :: "string \<Rightarrow> string"
  rv_sha256 :: "string \<Rightarrow> string"
  rv_local_utc :: "int \<Rightarrow> int"
  rv_schema :: "(pyval \<Rightarrow> bool) option"
  rv_providers :: "(string \<times> string list) list option"
  rv_uuid :: "nat \<Rightarrow> string"
  rv_stix :: stix_env
  rv_order :: "string list \<Rightarrow> string list"
  rv_now :: string
  rv_versions :: "(string \<times> string) list"

definition json_file :: "run_env \<Rightarrow> string \<Rightarrow> (string + pyval) option" where
  "json_file en p = map_option (rv_json en) (rv_file en p)"

definition read_handoff :: "run_env \<Rightarrow> string option \<Rightarrow> handoff option res" where
  "read_handoff en p =
     (if \<not> truthy p then Inr None
      else case json_file en (the p) of
             None \<Rightarrow> Inl (OSError (the p))
           | Some (Inl m) \<Rightarrow> Inl (ValueError m)
           | Some (Inr v) \<Rightarrow> bind_res (load_handoff (rv_schema en) False v) (\<lambda>h. Inr (Some h)))"

definition read_prior :: "run_env \<Rightarrow> string option \<Rightarrow> (string + pyval) option" where
  "read_prior en p = (if truthy p then json_file en (the p) else None)"

definition load_case_bundle :: "run_env \<Rightarrow> run_args \<Rightarrow> string \<Rightarrow> loaded res" where
  "load_case_bundle en a content =
     (let zeek = (if truthy (ra_zeek a) then Some (\<lambda>n. rv_file en (join_path (the (ra_zeek a)) n)) else None);
          load = (\<lambda>ps. load_bundle (rv_log_row en) (rv_md5 en) (rv_sha256 en) ps zeek)
      in if (case zeek of Some dir \<Rightarrow> dir ''conn.log'' \<noteq> None | None \<Rightarrow> False) then load None
         else bind_res (rv_packets en content) (\<lambda>ps. load (Some ps)))"

definition host_report :: "run_env \<Rightarrow> string \<Rightarrow> ingest_report res" where
  "host_report en p =
     (case json_file en p of
        None \<Rightarrow> Inr \<lparr>ir_events = [], ir_errors = []\<rparr>
      | Some f \<Rightarrow> load_etw_events p (Some f) False)"

text \<open>
  The family named by the prior. A family that is no text is used as it is; it enters the verdicts
  by its text here. One that cannot be a dictionary key raises.
\<close>

definition static_family :: "(string + pyval) option \<Rightarrow> string option res" where
  "static_family prior =
     (case prior of
        None \<Rightarrow> Inr None
      | Some f \<Rightarrow> bind_res (load_static_prior [] (Some f)) (\<lambda>(p, errs).
          if \<not> truth (sp_family p) then Inr None
          else if hashable (sp_family p) then Inr (Some (py_str (sp_family p)))
          else Inl (TypeError ''unhashable type'')))"

section \<open>The run\<close>

datatype document =
    ManifestDoc case_manifest
  | NetworkDoc "net_event list"
  | NotesDoc "string list" "handoff option"
  | RowsDoc "row list"
  | CsvDoc string
  | StixDoc ioc_event
  | FamilyDoc "family_verdict list"
  | ProvenanceDoc "(provenance \<times> string) list"
  | TimelineDoc "timeline_entry list"

text \<open>The documents written, and how it ended; an exception ends the run and keeps what was written.\<close>

type_synonym job = "document list \<times> unit res"

definition run_step :: "'a res \<Rightarrow> ('a \<Rightarrow> job) \<Rightarrow> job" where
  "run_step r f = (case r of Inl e \<Rightarrow> ([], Inl e) | Inr x \<Rightarrow> f x)"

definition put_docs :: "document list \<Rightarrow> job \<Rightarrow> job" where
  "put_docs ds j = (ds @ fst j, snd j)"

text \<open>Both exports are in one \<open>try\<close>: the first exception skips the rest.\<close>

definition ioc_docs :: "stix_env \<Rightarrow> row list \<Rightarrow> document list" where
  "ioc_docs sx rows =
     (case export_csv rows of
        Inl e \<Rightarrow> []
      | Inr (n, csv) \<Rightarrow>
          (case csv of None \<Rightarrow> [] | Some t \<Rightarrow> [CsvDoc t])
          @ (case export_stix sx rows of
               Inl e \<Rightarrow> []
             | Inr (m, b) \<Rightarrow> (case b of None \<Rightarrow> [] | Some s \<Rightarrow> [StixDoc s])))"

text \<open>A capture that scapy cannot open has no content to reconstruct.\<close>

definition outbound_content :: "run_env \<Rightarrow> string \<Rightarrow> artifact list" where
  "outbound_content en content =
     (case rv_packets en content of
        Inl e \<Rightarrow> []
      | Inr ps \<Rightarrow> reconstruct_outbound_content (\<lambda>bs. rv_sha256 en (map byte_char bs)) 64 (2 ^ 20) ps)"

text \<open>Stage 3; the clock assessment is only printed, but it can raise.\<close>

definition correlation_stage ::
    "run_env \<Rightarrow> etw_event list \<Rightarrow> net_event list \<Rightarrow> handoff option \<Rightarrow> (corr_event list \<times> string list) res" where
  "correlation_stage en evs net ho =
     bind_res (if evs = [] then Inr None
               else bind_res (assess_clock_sync evs (map ne_timestamp net) 15) (\<lambda>s. Inr (Some s))) (\<lambda>sync.
     bind_res (correlate (map EtwAccess evs) net time_window_seconds True) (\<lambda>cs.
     Inr (gate_correlated (provider_map (rv_providers en)) cs ho)))"

definition notes_docs :: "string list \<Rightarrow> handoff option \<Rightarrow> document list" where
  "notes_docs ns ho = (if ns = [] then [] else [NotesDoc ns ho])"

definition analyze_case :: "run_env \<Rightarrow> run_args \<Rightarrow> handoff option \<Rightarrow> string \<Rightarrow> analysis_bundle \<Rightarrow> job" where
  "analyze_case en a ho content b =
     (let prior = read_prior en (ra_prior a) in
      run_step (build_network_events (rv_net en) (rv_local_utc en) b prior ho) (\<lambda>(net, notes).
      put_docs [NetworkDoc net] (
      run_step (host_report en (ra_access a)) (\<lambda>rep.
      run_step (correlation_stage en (ir_events rep) net ho) (\<lambda>(cs, cnotes).
      put_docs (notes_docs (notes @ cnotes) ho) (
      let rows = emit_schema_rows (rv_sha256 en) (rv_uuid en) net cs (rv_sha256 en content) ho in
      put_docs (RowsDoc rows # ioc_docs (rv_stix en) rows) (
      run_step (static_family prior) (\<lambda>fam.
      put_docs [FamilyDoc (attribute_family (rv_order en) (en_geo (rv_net en)) (en_db (rv_net en)) net fam)] (
      let prov = build_provenance cs net (outbound_content en content) in
      run_step (map_res statement prov) (\<lambda>texts.
      put_docs [ProvenanceDoc (zip prov texts)] (
      run_step (build_timeline (map EtwAccess (ir_events rep)) net) (\<lambda>tl.
      put_docs [TimelineDoc tl] ([], Inr ())))))))))))))"

definition run_manifest :: "run_env \<Rightarrow> run_args \<Rightarrow> case_manifest" where
  "run_manifest en a =
     build_case_manifest (rv_sha256 en) (rv_file en) (rv_listdir en) (rv_now en) (rv_versions en)
       None (Some (ra_pcap a)) (ra_zeek a) [(''acc_events'', JStr (base_name (ra_access a)))]"

text \<open>
  \<open>None\<close> is a run that is not modelled: JSON logs whose values contradict the types \<open>model.py\<close> declares
  (\<open>typed_loaded\<close>). Every other run is.
\<close>

definition run_case :: "run_env \<Rightarrow> run_args \<Rightarrow> job option" where
  "run_case en a =
     (case read_handoff en (ra_handoff a) of
        Inl e \<Rightarrow> Some ([], Inl e)
      | Inr ho \<Rightarrow>
          (case rv_file en (ra_pcap a) of
             None \<Rightarrow> Some ([], Inl (OSError (ra_pcap a)))
           | Some content \<Rightarrow>
               (case load_case_bundle en a content of
                  Inl e \<Rightarrow> Some ([ManifestDoc (run_manifest en a)], Inl e)
                | Inr l \<Rightarrow>
                    map_option (\<lambda>b. put_docs [ManifestDoc (run_manifest en a)] (analyze_case en a ho content b))
                      (typed_loaded l))))"

definition main_run :: "run_env \<Rightarrow> string list \<Rightarrow> job option" where
  "main_run en argv = run_case en (parse_args argv)"

section \<open>Lemmas: the later stages cannot fail\<close>

text \<open>A time stamp with an offset.\<close>

definition stamp_ok :: "string \<Rightarrow> bool" where
  "stamp_ok s \<longleftrightarrow> (\<exists>t. parse_iso s = Some t \<and> aware t)"

lemma stamped_stamp: "stamped e \<longleftrightarrow> stamp_ok (ne_timestamp e)"
  by (simp add: stamped_iff stamp_ok_def)

lemma iso_stamp: "Orchestrator.iso x = Inr s \<Longrightarrow> stamp_ok s"
proof -
  assume "Orchestrator.iso x = Inr s"
  then obtain t where t: "fromtimestamp_utc x = Inr t" and s: "s = isoformat t"
    by (auto simp: Orchestrator.iso_def bind_res_Inr_iff)
  from t have "t = utc_of (ts_us x)" "in_calendar (ts_us x)"
    by (simp_all add: fromtimestamp_utc_def in_calendar_def Let_def split: if_splits)
  then show ?thesis by (auto simp: stamp_ok_def s parse_iso_texts)
qed

lemma stamp_of_stamp: "stamp_of conns ip port = Inr s \<Longrightarrow> stamp_ok s"
  by (auto simp: stamp_of_def intro: iso_stamp)

lemma event_stamps:
  "exfil_event en b conns v = Inr e \<Longrightarrow> stamped e"
  "beacon_event en b conns w = Inr e \<Longrightarrow> stamped e"
  "e \<in> set (dns_events en st dns) \<Longrightarrow> stamp_ok st \<Longrightarrow> stamped e"
  "e \<in> set (service_events en st b) \<Longrightarrow> stamp_ok st \<Longrightarrow> stamped e"
  "e \<in> set (egress_events en st b conns es) \<Longrightarrow> stamp_ok st \<Longrightarrow> stamped e"
  by (auto simp: stamped_stamp exfil_event_def beacon_event_def bind_res_Inr_iff Let_def
      dns_events_def dns_event_def service_events_def cloud_event_def smtp_event_def http_event_def covert_event_def
      egress_events_def egress_event_def ip_event_def split: prod.splits dest!: stamp_of_stamp)

lemma tls_step_stamps:
  assumes "tls_step en conns (evs, covered) t = Inr (evs', covered')" "e \<in> set evs'"
  shows "e \<in> set evs \<or> stamped e"
  using assms
  by (auto simp: tls_step_def Let_def bind_res_Inr_iff ja3_event_def cert_event_def stamped_stamp
      split: if_splits option.splits dest!: stamp_of_stamp)

lemma tls_loop_stamps:
  "tls_loop en conns st ts = Inr es \<Longrightarrow> e \<in> set es \<Longrightarrow> e \<in> set (fst st) \<or> stamped e"
proof (induction en conns st ts rule: tls_loop.induct)
  case (2 en conns st t ts)
  then obtain evs' covered' where s: "tls_step en conns st t = Inr (evs', covered')"
    and r: "tls_loop en conns (evs', covered') ts = Inr es"
    by (auto simp: bind_res_Inr_iff)
  then show ?case
    using 2(1) [OF r 2(3)] tls_step_stamps [of en conns "fst st" "snd st" t] by auto
qed simp

lemma detected_stamps:
  assumes "detected_events en b = Inr (es, st)"
  shows "stamp_ok st \<and> (\<forall>e \<in> set es. stamped e)"
proof -
  let ?conns = "to_connections b"
  from assms obtain ex be es1 where
    ex: "map_res (exfil_event en b ?conns) (all_exfils ?conns) = Inr ex" and
    be: "map_res (beacon_event en b ?conns) (filter bv_is_beacon (detect_beaconing (en_pstdev en) ?conns 4 (1 / 4) 1)) = Inr be" and
    tls: "tls_loop en ?conns (ex @ be, set (map ne_dst_ip (ex @ be))) (b_tls b) = Inr es1" and
    st: "Orchestrator.iso (dns_ts (b_dns b) ?conns) = Inr st" and
    es: "es = (es1 @ dns_events en st (b_dns b) @ service_events en st b)
           @ egress_events en st b ?conns (es1 @ dns_events en st (b_dns b) @ service_events en st b)"
    by (auto simp: detected_events_def Let_def bind_res_Inr_iff)
  have st: "stamp_ok st" using st by (rule iso_stamp)
  have "stamped e" if "e \<in> set ex" for e using map_res_mem [OF ex that] event_stamps(1) by blast
  moreover have "stamped e" if "e \<in> set be" for e using map_res_mem [OF be that] event_stamps(2) by blast
  ultimately have "\<forall>e \<in> set es1. stamped e" using tls_loop_stamps [OF tls] by auto
  then show ?thesis using st event_stamps(3-5) unfolding es by auto
qed

lemma finding_stamp: "finding_id a = finding_id b \<Longrightarrow> stamped a = stamped b"
  by (simp add: finding_id_def stamped_stamp)

lemma stamped_map: "map finding_id xs = map finding_id ys \<Longrightarrow> \<forall>e \<in> set ys. stamped e \<Longrightarrow> \<forall>e \<in> set xs. stamped e"
proof (induction xs arbitrary: ys)
  case (Cons x xs)
  then show ?case by (cases ys) (auto dest: finding_stamp)
qed simp

text \<open>Every finding of the network stage carries an aware time.\<close>

lemma network_stamps:
  assumes "build_network_events en L b prior ho = Inr (out, notes)" "e \<in> set out"
  shows "stamped e"
proof -
  from assms(1) obtain es st es2 where d: "detected_events en (scoped L b ho) = Inr (es, st)"
    and p: "prior_stage st prior (grade en es) = Inr es2" and out: "out = map (final_gate en ho) es2"
    by (rule build_network_events_parts)
  have st: "stamp_ok st" and es: "\<forall>e \<in> set es. stamped e" using detected_stamps [OF d] by simp_all
  have g: "\<forall>e \<in> set (grade en es). stamped e" using grade_ids es by (rule stamped_map)
  have "stamped e" if "e \<in> set es2" for e
  proof (cases prior)
    case None
    then show ?thesis using p g that by (simp add: prior_stage_def)
  next
    case (Some pf)
    with p obtain q where q: "apply_static_prior st q (grade en es) = Inr es2"
      by (auto simp: prior_stage_def bind_res_Inr_iff)
    show ?thesis
      using g st by (auto intro: static_prior_memE [OF q that] simp: stamped_stamp dormant_event_def Let_def)
  qed
  then show ?thesis using assms(2) final_gate_id [of en ho, THEN finding_stamp] by (auto simp: out)
qed

lemma map_filter_aware:
  "\<forall>n \<in> set nets. stamped n \<Longrightarrow> \<forall>t \<in> set (List.map_filter parse_iso (map ne_timestamp nets)). aware t"
  by (auto simp: List.map_filter_def stamped_iff)

lemma assess_clock_sync_total:
  assumes "\<forall>e \<in> set evs. valid_event e" "\<forall>n \<in> set nets. stamped n"
  shows "\<exists>s. assess_clock_sync evs (map ne_timestamp nets) w = Inr s"
proof -
  have "\<exists>ds. pair_deltas (map ev_timestamp evs) (List.map_filter parse_iso (map ne_timestamp nets)) = Inr ds"
    unfolding pair_deltas_def
    using assms(1) map_filter_aware [OF assms(2)]
    by (intro map_res_total) (auto simp: delta_def dt_sub_aware aware_ev_timestamp)
  then show ?thesis
    by (auto simp: assess_clock_sync_def Let_def split: prod.splits)
qed

lemma correlation_stage_total:
  assumes "\<forall>e \<in> set evs. valid_event e" "\<forall>n \<in> set nets. stamped n"
  shows "\<exists>cs notes. correlation_stage en evs nets ho = Inr (cs, notes)"
proof -
  obtain cs where cs: "correlate (map EtwAccess evs) nets time_window_seconds True = Inr cs"
    using correlate_total [of "map EtwAccess evs" nets time_window_seconds True] assms
    by (auto simp: valid_event_readable time_window_seconds_def)
  obtain s where s: "assess_clock_sync evs (map ne_timestamp nets) 15 = Inr s"
    using assess_clock_sync_total [OF assms] by blast
  show ?thesis
    by (cases "gate_correlated (provider_map (rv_providers en)) cs ho") (simp add: correlation_stage_def cs s)
qed

text \<open>Host events and findings all have aware times, so the timeline can be sorted.\<close>

lemma build_timeline_total:
  assumes "\<forall>e \<in> set evs. valid_event e" "\<forall>n \<in> set nets. stamped n"
  shows "\<exists>tl. build_timeline (map EtwAccess evs) nets = Inr tl
     \<and> mset tl = mset (map host_entry (map EtwAccess evs)) + mset (map net_entry nets)
     \<and> sorted (map (\<lambda>e. instant (entry_time e)) tl)"
proof -
  have "aware (entry_time (host_entry (EtwAccess e)))" if "e \<in> set evs" for e
  proof -
    from assms(1) that obtain t where t: "parse_iso (ev_raw_timestamp e) = Some t" "aware t"
      by (auto simp: valid_event_def)
    moreover have "parse_iso [] = None" by code_simp
    ultimately have "ev_raw_timestamp e \<noteq> []" by auto
    then show ?thesis using t by (simp add: host_entry_def entry_time_def Let_def)
  qed
  moreover have "aware (entry_time (net_entry n))" if "n \<in> set nets" for n
    using assms(2) that by (auto simp: stamped_iff net_entry_def entry_time_def Let_def split: option.splits)
  ultimately have "list_all (\<lambda>e. aware (entry_time e)) (map host_entry (map EtwAccess evs) @ map net_entry nets)"
    by (auto simp: list_all_iff)
  then show ?thesis
    unfolding build_timeline_def Let_def by (simp only: if_True simp_thms sum.inject ex_simps) (simp del: map_map)
qed

text \<open>Reconstructed artifacts always carry a digest, so no statement is cut short.\<close>

lemma artifact_for_mem: "artifact_for arts ip = Some a \<Longrightarrow> a \<in> set arts"
proof -
  have "foldl (larger (Some ip)) cur arts = Some a \<Longrightarrow> a \<in> set arts \<or> cur = Some a" for cur
    by (induction arts arbitrary: cur) (auto simp: larger_def split: if_splits option.splits)
  then show "artifact_for arts ip = Some a \<Longrightarrow> a \<in> set arts"
    unfolding artifact_for_def by blast
qed

lemma statement_total:
  assumes "\<forall>a \<in> set arts. ar_sha256 a \<noteq> None"
  shows "\<exists>t. statement (provenance_of nets arts c) = Inr t"
proof (cases "artifact_for arts (ce_dst_ip c)")
  case None
  then show ?thesis by (simp add: statement_def provenance_of_def Let_def)
next
  case (Some a)
  then obtain h where "ar_sha256 a = Some h" using assms artifact_for_mem by blast
  then show ?thesis by (simp add: statement_def provenance_of_def Let_def Some)
qed

lemma outbound_content_digests: "\<forall>a \<in> set (outbound_content en content). ar_sha256 a \<noteq> None"
  by (auto simp: outbound_content_def reconstruct_outbound_content_def split: sum.splits)

lemma statements_total: "\<exists>ts. map_res statement (build_provenance cs nets (outbound_content en content)) = Inr ts"
  unfolding build_provenance_def
  using statement_total [OF outbound_content_digests] by (intro map_res_total) auto

text \<open>Emitted rows can always be exported.\<close>

definition flat_row :: "row \<Rightarrow> bool" where
  "flat_row r \<longleftrightarrow> (\<forall>k \<in> {''destination_ip'', ''destination_domain'', ''mitre_technique_id''}.
       get r k = JNull \<or> (\<exists>s. get r k = JStr s))
     \<and> (\<exists>n. get r ''destination_port'' = JInt n) \<and> (\<exists>t. map_of r ''confidence_tier'' = Some (JStr t))"

lemma str_val_plain: "str_val v = JNull \<or> (\<exists>s. str_val v = JStr s)"
  by (cases v) (simp_all add: str_val_def)

lemma corr_row_flat: "flat_row (corr_row ids nets u c)"
  unfolding flat_row_def corr_row_def row_head_def Let_def get_def
  using str_val_plain by (simp del: split_paired_Ex)

lemma net_row_flat: "flat_row (net_row ids u e)"
  unfolding flat_row_def net_row_def row_head_def Let_def get_def
  using str_val_plain by (simp del: split_paired_Ex)

lemma unsealed_flat: "r \<in> set (unsealed_rows uuid nets cs sample ho) \<Longrightarrow> flat_row r"
  using corr_row_flat net_row_flat by (auto simp: unsealed_rows_def Let_def)

lemma flat_append: "flat_row r \<Longrightarrow> flat_row (r @ [(''manifest_sha256'', v)])"
  by (auto simp: flat_row_def get_def map_add_def split: option.splits)

lemma flat_seal: "flat_row r \<Longrightarrow> flat_row (seal_row r h)"
  by (simp add: flat_row_def get_seal_row) (simp add: seal_row_def)

lemma flat_seal_rows: "\<forall>r \<in> set rs. flat_row r \<Longrightarrow> \<forall>r \<in> set (seal_rows H p rs). flat_row r"
  by (induction rs arbitrary: p) (auto simp: Let_def flat_seal)

lemma emitted_flat: "\<forall>r \<in> set (emit_schema_rows H uuid nets cs sample ho). flat_row r"
  unfolding emit_schema_rows_def
proof (rule flat_seal_rows)
  have "\<forall>r \<in> set (unsealed_rows uuid nets cs sample ho). flat_row r" using unsealed_flat by blast
  then show "\<forall>r \<in> set (mark_seed (chain_seed ho) (unsealed_rows uuid nets cs sample ho)). flat_row r"
    by (cases "unsealed_rows uuid nets cs sample ho") (simp_all add: mark_seed_def flat_append)
qed

lemma flat_csv: "\<forall>r \<in> set rows. flat_row r \<Longrightarrow> rows \<noteq> [] \<Longrightarrow> \<exists>n t. export_csv rows = Inr (n, Some t)"
proof -
  assume flat: "\<forall>r \<in> set rows. flat_row r" and "rows \<noteq> []"
  have "hashable (csv_destination r) \<and> hashable (get r ''destination_port'')" if "flat_row r" for r
    using that by (auto simp: flat_row_def csv_destination_def)
  then have "list_all (\<lambda>e. hashable (csv_destination e) \<and> hashable (get e ''destination_port'')) rows"
    using flat by (simp add: list_all_iff)
  with \<open>rows \<noteq> []\<close> show ?thesis by (simp add: export_csv_def csv_rows_def)
qed

lemma flat_indicator: "flat_row r \<Longrightarrow> \<exists>i. indicator_object sx r key pattern label = Inr i"
proof -
  assume flat: "flat_row r"
  then obtain t where t: "get_or r ''confidence_tier'' (JStr ''unconfirmed'') = JStr t"
    by (auto simp: flat_row_def get_or_def)
  obtain c where c: "stix_confidence (JStr t) = Inr c" by (simp add: stix_confidence_def)
  from flat have "get r ''mitre_technique_id'' = JNull \<or> (\<exists>s. get r ''mitre_technique_id'' = JStr s)"
    by (simp add: flat_row_def)
  then have "\<exists>m. mitre_reference (get r ''mitre_technique_id'') = Inr m"
    by (elim disjE exE) (simp_all add: mitre_reference_def)
  then obtain m where "mitre_reference (get r ''mitre_technique_id'') = Inr m" ..
  then show ?thesis by (simp add: indicator_object_def t c)
qed

lemma flat_indicators: "\<forall>r \<in> set rows. flat_row r \<Longrightarrow> \<exists>is d'. indicators sx rows d = Inr (is, d')"
proof (induction rows arbitrary: d)
  case (Cons r rows)
  have tail: "\<exists>is d'. indicators sx rows s = Inr (is, d')" for s using Cons by simp
  show ?case
  proof (cases "observable r")
    case None
    then show ?thesis using tail by simp
  next
    case (Some x)
    obtain key pattern label where x: "x = (key, pattern, label)" by (cases x)
    obtain i where "indicator_object sx r key pattern label = Inr i" using flat_indicator Cons.prems by fastforce
    moreover obtain "is" d' where "indicators sx rows (dict_set key (indicator_id sx key) d) = Inr (is, d')" using tail by blast
    ultimately show ?thesis using Some tail [of d] by (simp add: x)
  qed
qed simp

lemma emitted_iocs:
  assumes "rows = emit_schema_rows H uuid nets cs sample ho" "rows \<noteq> []"
  shows "\<exists>t s. ioc_docs sx rows = [CsvDoc t, StixDoc s]"
proof -
  have flat: "\<forall>r \<in> set rows. flat_row r" unfolding assms(1) by (rule emitted_flat)
  obtain n t where csv: "export_csv rows = Inr (n, Some t)" using flat_csv [OF flat assms(2)] by blast
  obtain "is" seen where i: "indicators sx rows [] = Inr (is, seen)" using flat_indicators [OF flat] by blast
  have "\<exists>m s. export_stix sx rows = Inr (m, Some s)"
    using assms(2) by (simp add: export_stix_def i split: prod.splits)
  then show ?thesis by (auto simp: ioc_docs_def csv)
qed

section \<open>Lemmas: the case identity\<close>

definition hex_text :: "string \<Rightarrow> bool" where
  "hex_text s \<longleftrightarrow> list_all (\<lambda>c. c \<in> set ''0123456789abcdef'') s"

definition quote_char :: char where "quote_char = char_of (34 :: nat)"

lemma code_points_ascii: "\<forall>a \<in> set s. a < 0xC0 \<Longrightarrow> code_points s = s"
  by (induction s rule: code_points.induct) auto

lemma hex_codes:
  "c \<in> set ''0123456789abcdef'' \<Longrightarrow> (of_char c :: int) < 0xC0 \<and> json_char (of_char c) = [c] \<and> c \<noteq> quote_char"
proof -
  have "list_all (\<lambda>c. (of_char c :: int) < 0xC0 \<and> json_char (of_char c) = [c] \<and> c \<noteq> quote_char) ''0123456789abcdef''"
    by code_simp
  then show "c \<in> set ''0123456789abcdef'' \<Longrightarrow> ?thesis" unfolding list_all_iff by blast
qed

lemma bracket_no_quote: "CHR '']'' \<noteq> quote_char" "quote_char \<noteq> CHR '']''" "quote_char \<noteq> CHR '',''"
  by code_simp+

lemma json_string_hex: "hex_text s \<Longrightarrow> json_string s = quote_char # s @ [quote_char]"
proof -
  assume s: "hex_text s"
  have "concat (map json_char (map of_char s)) = s"
    using s by (induction s) (auto simp: hex_text_def hex_codes simp del: set_simps)
  moreover have "code_points (map of_char s) = map of_char s"
    using s hex_codes by (intro code_points_ascii) (auto simp: hex_text_def list_all_iff simp del: set_simps)
  ultimately show ?thesis by (simp add: json_string_def quote_char_def)
qed

text \<open>The digests can be read off the text again, up to the bracket that closes them.\<close>

lemma quoted_prefix:
  "quote_char \<notin> set d \<Longrightarrow> quote_char \<notin> set e \<Longrightarrow> d @ quote_char # r = e @ quote_char # r' \<longleftrightarrow> d = e \<and> r = r'"
proof (induction d arbitrary: e)
  case Nil
  then show ?case by (cases e) auto
next
  case (Cons a d)
  then show ?case by (cases e) auto
qed

lemma hex_no_quote: "hex_text s \<Longrightarrow> quote_char \<notin> set s"
  using hex_codes by (auto simp: hex_text_def list_all_iff simp del: set_simps)

fun digest_list :: "string list \<Rightarrow> string" where
  "digest_list [] = []"
| "digest_list [d] = quote_char # d @ [quote_char]"
| "digest_list (d # e # ds) = quote_char # d @ quote_char # '', '' @ digest_list (e # ds)"

lemma join_digests: "list_all hex_text ds \<Longrightarrow> join '', '' (map (\<lambda>d. json_string d) ds) = digest_list ds"
  by (induction ds rule: digest_list.induct) (simp_all add: json_string_hex)

lemma digest_list_cons: "\<exists>r. digest_list (d # ds) = quote_char # d @ quote_char # r"
  by (cases ds) auto

lemma digest_list_inj:
  "list_all hex_text ds \<Longrightarrow> list_all hex_text es \<Longrightarrow>
     digest_list ds @ CHR '']'' # r = digest_list es @ CHR '']'' # r' \<Longrightarrow> ds = es \<and> r = r'"
proof (induction ds arbitrary: es rule: digest_list.induct)
  case 1
  then show ?case by (cases es rule: digest_list.cases) (simp_all add: bracket_no_quote)
next
  case (2 d)
  then show ?case
    by (cases es rule: digest_list.cases) (auto simp: quoted_prefix hex_no_quote bracket_no_quote)
next
  case (3 d e ds)
  show ?case
  proof (cases es rule: digest_list.cases)
    case (3 d' e' es')
    then show ?thesis using "3.IH" [of "e' # es'"] "3.prems" by (auto simp: quoted_prefix hex_no_quote)
  qed (use "3.prems" in \<open>auto simp: quoted_prefix hex_no_quote bracket_no_quote\<close>)
qed

lemma dumps_inputs:
  "json_dumps (JObj [(''inputs'', u), (''parameters'', v)]) = char_of (123 :: nat) # json_string ''inputs'' @ '': '' @ json_dumps u
     @ '', '' @ json_string ''parameters'' @ '': '' @ json_dumps v @ [char_of (125 :: nat)]"
proof -
  have "sort_key fst [(''inputs'', a :: string), (''parameters'', b)] = [(''inputs'', a), (''parameters'', b)]" for a b
    by (simp add: less_list_code less_eq_list_code)
  then show ?thesis by simp
qed

lemma case_text_digests:
  assumes "list_all hex_text (map inp_sha256 inputs)"
  shows "case_text inputs params = [char_of (123 :: nat), quote_char] @ ''inputs'' @ quote_char # '': ['' @
     digest_list (sort (map inp_sha256 inputs)) @ CHR '']'' # '', '' @ quote_char # ''parameters'' @ quote_char # '': '' @
     json_dumps (JObj params) @ [char_of (125 :: nat)]"
proof -
  have "json_string ''inputs'' = quote_char # ''inputs'' @ [quote_char]" "json_string ''parameters'' = quote_char # ''parameters'' @ [quote_char]"
    by code_simp+
  moreover have "list_all hex_text (sort (map inp_sha256 inputs))" using assms by (simp add: list_all_iff)
  moreover have "json_dumps (JList (map JStr ds)) = ''['' @ join '', '' (map (\<lambda>d. json_string d) ds) @ '']''" for ds
    by (simp add: o_def)
  ultimately show ?thesis by (simp add: case_text_def dumps_inputs join_digests del: json_dumps.simps)
qed

lemma case_text_eq:
  assumes "list_all hex_text (map inp_sha256 xs)" "list_all hex_text (map inp_sha256 ys)"
  shows "case_text xs ps = case_text ys qs \<longleftrightarrow>
     mset (map inp_sha256 xs) = mset (map inp_sha256 ys) \<and> json_dumps (JObj ps) = json_dumps (JObj qs)"
proof
  assume "case_text xs ps = case_text ys qs"
  then have e: "digest_list (sort (map inp_sha256 xs)) @ CHR '']'' # '', '' @ quote_char # ''parameters'' @ quote_char # '': '' @
     json_dumps (JObj ps) @ [char_of (125 :: nat)]
     = digest_list (sort (map inp_sha256 ys)) @ CHR '']'' # '', '' @ quote_char # ''parameters'' @ quote_char # '': '' @
     json_dumps (JObj qs) @ [char_of (125 :: nat)]"
    unfolding case_text_digests [OF assms(1)] case_text_digests [OF assms(2)] by (simp del: json_dumps.simps)
  have "list_all hex_text (sort (map inp_sha256 xs))" "list_all hex_text (sort (map inp_sha256 ys))"
    using assms by (simp_all add: list_all_iff)
  note same = digest_list_inj [OF this e]
  have "mset (sort (map inp_sha256 xs)) = mset (sort (map inp_sha256 ys))" by (simp only: conjunct1 [OF same])
  moreover have "json_dumps (JObj ps) = json_dumps (JObj qs)"
    using conjunct2 [OF same] by (simp del: json_dumps.simps)
  ultimately show "mset (map inp_sha256 xs) = mset (map inp_sha256 ys) \<and> json_dumps (JObj ps) = json_dumps (JObj qs)"
    by (simp only: mset_sort)
next
  assume a: "mset (map inp_sha256 xs) = mset (map inp_sha256 ys) \<and> json_dumps (JObj ps) = json_dumps (JObj qs)"
  then have "sort (map inp_sha256 xs) = sort (map inp_sha256 ys)" by (metis properties_for_sort mset_sort sorted_sort)
  then show "case_text xs ps = case_text ys qs"
    unfolding case_text_digests [OF assms(1)] case_text_digests [OF assms(2)] using a by simp
qed

section \<open>Properties\<close>

text \<open>Ingested events are valid, whatever was in the file.\<close>

lemma ingest_valid: "ingest v False = Inr rep \<Longrightarrow> e \<in> set (ir_events rep) \<Longrightarrow> valid_event e"
proof (cases "list_of v")
  case (Some raws)
  assume "ingest v False = Inr rep" "e \<in> set (ir_events rep)"
  with Some obtain r where loop: "ingest_loop False 0 raws \<lparr>ir_events = [], ir_errors = []\<rparr> = Inr r"
    and e: "e \<in> set (ir_events r)"
    by (auto simp: ingest_def bind_res_Inr_iff)
  then have "e \<in> set (List.map_filter accepted raws)" using ingest_loop_Inr [OF loop] by simp
  then show ?thesis by (auto simp: List.map_filter_def accepted_def split: sum.splits intro: parse_event_valid)
qed (auto simp: ingest_def)

lemma host_report_valid: "host_report en p = Inr rep \<Longrightarrow> \<forall>e \<in> set (ir_events rep). valid_event e"
  by (auto simp: host_report_def load_etw_events_def split: option.splits sum.splits intro: ingest_valid)

text \<open>The gate keeps everything of a correlation but its tier.\<close>

definition corr_ends :: "corr_event \<Rightarrow> string \<times> string \<times> string \<times> int" where
  "corr_ends c = (ce_access_ts c, ce_network_ts c, ce_dst_ip c, ce_dst_port c)"

lemma gate_ends: "map corr_ends (fst (gate_correlated pmap cs ho)) = map corr_ends cs"
proof (cases ho)
  case (Some h)
  have "corr_ends (gate_corr pmap h c) = corr_ends c" for c
  proof -
    have "corr_ends ((gate_corr pmap h c)\<lparr>ce_tier := Weak\<rparr>) = corr_ends (c\<lparr>ce_tier := Weak\<rparr>)"
      by (simp only: corr_gate.frames)
    then show ?thesis by (simp add: corr_ends_def)
  qed
  then show ?thesis by (simp add: Some gate_correlated_map)
qed (simp add: gate_correlated_def)

lemma correlation_stage_grounded:
  assumes "correlation_stage en evs nets ho = Inr (cs, notes)" "c \<in> set cs"
  shows "\<exists>e \<in> set evs. \<exists>n \<in> set nets. follows 15 (EtwAccess e) n
     \<and> corr_ends c = (raw_stamp (EtwAccess e), ne_timestamp n, ne_dst_ip n, ne_dst_port n)"
proof -
  from assms(1) obtain ms where ms: "correlate (map EtwAccess evs) nets 15 True = Inr ms"
    and cs: "cs = fst (gate_correlated (provider_map (rv_providers en)) ms ho)"
    by (auto simp: correlation_stage_def bind_res_Inr_iff time_window_seconds_def)
  have "corr_ends c \<in> set (map corr_ends ms)"
    using assms(2) unfolding cs gate_ends [symmetric, of ms "provider_map (rv_providers en)" ho] by simp
  then obtain m where m: "m \<in> set ms" "corr_ends c = corr_ends m" by auto
  have "m \<in> set (all_matches 15 (map EtwAccess evs) nets)"
    using correlate_Inr [OF ms] m(1) best_of_spec by auto
  then obtain e n where "e \<in> set evs" "n \<in> set nets" "follows 15 (EtwAccess e) n" "m = finding_of 15 (EtwAccess e) n"
    by (auto simp: all_matches_def)
  then show ?thesis
    using m(2) by (intro bexI [of _ e] bexI [of _ n]) (simp_all add: corr_ends_def finding_of_def corr_of_def Let_def)
qed


lemma input_of_hex: "\<forall>t. hex_text (H t) \<Longrightarrow> list_all (\<lambda>r. hex_text (inp_sha256 r)) (input_of H f role p)"
  by (cases "f p") (simp_all add: input_of_def)

lemma collect_inputs_hex:
  assumes "\<forall>t. hex_text (H t)"
  shows "list_all hex_text (map inp_sha256 (collect_inputs H f ls sm pc zd))"
proof -
  note one = input_of_hex [OF assms]
  have "list_all (\<lambda>r. hex_text (inp_sha256 r)) (concat (map (\<lambda>n. input_of H f role (g n)) ns))" for role g and ns :: "string list"
    by (induction ns) (simp_all add: one)
  then have "list_all (\<lambda>r. hex_text (inp_sha256 r)) (collect_inputs H f ls sm pc zd)"
    unfolding collect_inputs_def using one by (cases "ls (the zd)") simp_all
  then show ?thesis by (simp add: list_all_length)
qed

text \<open>
  C11. The case identity is exactly the content: two manifests have the same case id if and only if
  their inputs have the same digests, however the files are named, listed and dated, and the same
  parameters, or else the two texts that were hashed are a collision of the digest.
\<close>

theorem case_id_identifies:
  assumes "\<forall>t. hex_text (H t)"
    and "m = build_case_manifest H f ls now vs sm pc zd ps" "m' = build_case_manifest H f' ls' now' vs' sm' pc' zd' qs"
  shows "cm_case_id m = cm_case_id m' \<longleftrightarrow>
     mset (map inp_sha256 (cm_inputs m)) = mset (map inp_sha256 (cm_inputs m')) \<and> json_dumps (JObj ps) = json_dumps (JObj qs)
     \<or> case_text (cm_inputs m) ps \<noteq> case_text (cm_inputs m') qs
       \<and> H (case_text (cm_inputs m) ps) = H (case_text (cm_inputs m') qs)"
proof -
  have i: "list_all hex_text (map inp_sha256 (cm_inputs m))" "list_all hex_text (map inp_sha256 (cm_inputs m'))"
    unfolding assms(2,3) build_case_manifest_def Let_def using collect_inputs_hex [OF assms(1)] by simp_all
  have "cm_case_id m = H (case_text (cm_inputs m) ps)" "cm_case_id m' = H (case_text (cm_inputs m') qs)"
    by (simp_all add: assms(2,3) build_case_manifest_def case_id_def Let_def)
  then show ?thesis using case_text_eq [OF i, of ps qs] by metis
qed

section \<open>A concrete run\<close>

text \<open>A large upload in the connection log, five seconds after a clipboard read.\<close>

definition upload_row :: log_row where
  "upload_row = [(''ts'', JInt 1700000005), (''id.orig_h'', JStr ''10.0.0.5''), (''id.resp_h'', JStr ''203.0.113.9''),
     (''id.resp_p'', JInt 443), (''orig_bytes'', JInt 300000), (''resp_bytes'', JInt 100)]"

definition sample_case :: run_env where
  "sample_case = \<lparr>rv_net = sample_env [], rv_file = (\<lambda>p. if p = ''z/conn.log'' then Some [CHR 0x7B] else if p \<in> {''c.pcap'', ''a.json''} then Some p else None),
     rv_listdir = (\<lambda>_. None),
     rv_json = (\<lambda>_. Inr (JList [JObj [(''timestamp'', JStr ''2023-11-14T22:13:20Z''), (''data_type'', JStr ''clipboard''),
        (''api_call'', JStr ''GetClipboardData'')]])),
     rv_log_row = (\<lambda>_. Some upload_row), rv_packets = (\<lambda>_. Inr []), rv_md5 = (\<lambda>s. s), rv_sha256 = (\<lambda>s. s),
     rv_local_utc = (\<lambda>t. t), rv_schema = None, rv_providers = None, rv_uuid = nat_str,
     rv_stix = sample_stix, rv_order = (\<lambda>xs. xs), rv_now = ''2026-02-03T16:00:00+00:00'', rv_versions = []\<rparr>"

definition sample_args :: run_args where
  "sample_args = parse_args [''orchestrator.py'', ''c.pcap'', ''a.json'', ''--zeek-dir'', ''z'']"

definition sample_bundle_res :: "analysis_bundle option res" where
  "sample_bundle_res = map_sum (\<lambda>e. e) typed_loaded (load_case_bundle sample_case sample_args ''c.pcap'')"

lemma sample_loaded1: "case sample_bundle_res of Inr (Some b) \<Rightarrow> length (b_sessions b) = 1 | _ \<Rightarrow> False"
  by code_simp

lemma sample_loaded: "case sample_bundle_res of Inr (Some b) \<Rightarrow>
    (case build_network_events (rv_net sample_case) (rv_local_utc sample_case) b (read_prior sample_case (ra_prior sample_args)) None of
       Inr (net, notes) \<Rightarrow> length net = 1 | _ \<Rightarrow> False) | _ \<Rightarrow> False"
  by code_simp

lemma sample_host: "case host_report sample_case (ra_access sample_args) of Inr rep \<Rightarrow> length (ir_events rep) = 1 | _ \<Rightarrow> False"
  by code_simp


text \<open>The same capture under another name is the same case.\<close>

lemma case_id_witness:
  "cm_case_id (build_case_manifest (\<lambda>t. ''ab'') (\<lambda>p. Some ''x'') (\<lambda>_. None) ''t'' [] None (Some ''p'') None [])
   = cm_case_id (build_case_manifest (\<lambda>t. ''ab'') (\<lambda>p. Some ''x'') (\<lambda>_. None) ''u'' [] None (Some ''q'') None [])"
  by (rule case_id_identifies [THEN iffD2, OF _ refl refl])
    (simp_all add: hex_text_def build_case_manifest_def collect_inputs_def input_of_def truthy_def Let_def)

end
