(* ===== verification/Result.thy ===== *)
theory Result
  imports FileTree Evidence
begin

text \<open>
  Sealing of a result bundle (\<open>scripts/build-c2-result.py\<close>). The staging directory, the hand-off,
  the pinned runtime and the project are file trees; the JSON decoder, SHA-256 and the clock are
  parameters. Only a run that reaches its end has a result: every check that fails is an exception
  that leaves the bundle without its hash manifest.
\<close>

section \<open>Arguments\<close>

record seal_env =
  se_load :: "string \<Rightarrow> pyval res"
  se_hash :: "string \<Rightarrow> string"
  se_now :: string

record seal_args =
  sa_task :: int
  sa_started :: string
  sa_host_network :: bool
  sa_zeek_mode :: string

text \<open>Who a result is about: task, sample and capture.\<close>

record identity =
  id_task :: int
  id_sample :: string
  id_pcap :: string

definition identity_fields :: "identity \<Rightarrow> (string \<times> pyval) list" where
  "identity_fields i = [(''task_id'', JInt (id_task i)), (''sample_id'', JStr (id_sample i)), (''pcap_sha256'', JStr (id_pcap i))]"

section \<open>Custody of the rows\<close>

text \<open>
  The raw events are checked one after the other, so a row that is no object raises only when the
  rows before it pass.
\<close>

definition check_events ::
    "(string \<Rightarrow> string) \<Rightarrow> string \<Rightarrow> int \<Rightarrow> string \<Rightarrow> pyval \<Rightarrow> (row list \<times> string) res" where
  "check_events H session task seed raw =
     bind_res (items_of raw) (\<lambda>vs.
       let rows = map obj_of (takeWhile is_obj vs) in
       bind_res (check_rows H (JStr session) (JInt task) seed 0 seed rows) (\<lambda>tip.
         if list_all is_obj vs then Inr (rows, tip) else Inl (AttributeError ''get'')))"

definition publish_row :: "identity \<Rightarrow> row \<Rightarrow> row" where
  "publish_row i r =
     dict_set ''stage_status'' (JStr ''complete'')
       (dict_set ''pcap_sha256'' (JStr (id_pcap i))
         (dict_set ''sample_id'' (JStr (id_sample i)) (dict_set ''task_id'' (JInt (id_task i)) r)))"

definition events_obj :: "identity \<Rightarrow> row list \<Rightarrow> pyval" where
  "events_obj i rows =
     JObj ((''schema_version'', JStr ''1.1'') # identity_fields i
       @ [(''events'', JList (map (\<lambda>r. JObj (publish_row i r)) rows))])"

section \<open>Normalized reports\<close>

definition evidence_item :: "pyval \<Rightarrow> pyval" where
  "evidence_item v = (if is_obj v then v else JObj [(''detail'', JStr (py_str v))])"

definition finding_obj :: "pyval \<Rightarrow> pyval res" where
  "finding_obj f =
     bind_res (get_default f ''evidence'' (JList [])) (\<lambda>ev.
     bind_res (items_of ev) (\<lambda>items.
     eval_fields [(''family'', item f ''family''), (''confidence'', item f ''confidence''), (''basis'', item f ''basis''),
       (''evidence'', Inr (JList (map evidence_item items)))]))"

definition attribution_obj :: "identity \<Rightarrow> pyval \<Rightarrow> pyval res" where
  "attribution_obj i raw =
     bind_res (items_of raw) (\<lambda>fs.
     bind_res (map_res finding_obj fs) (\<lambda>findings.
       Inr (JObj (identity_fields i @ [(''findings'', JList findings)]))))"

text \<open>\<open>x or {}\<close>, \<open>list(x or [])\<close>, and the names of unavailable providers.\<close>

definition or_empty :: "pyval \<Rightarrow> pyval" where
  "or_empty v = (if truth v then v else JObj [])"

definition list_or_empty :: "pyval \<Rightarrow> pyval list res" where
  "list_or_empty v = (if truth v then items_of v else Inr [])"

definition flag :: "pyval \<Rightarrow> string \<Rightarrow> pyval res" where
  "flag v k = bind_res (get_default v k JNull) (\<lambda>x. Inr (JBool (truth x)))"

definition unavailable :: "pyval \<Rightarrow> pyval res" where
  "unavailable telemetry =
     bind_res (get_default telemetry ''providers_unavailable'' (JList [])) (\<lambda>v.
     bind_res (items_of v) (\<lambda>items.
       Inr (JList (filter truth (map (\<lambda>x. get (obj_of x) ''provider'') (filter is_obj items))))))"

definition guest_ip :: "pyval \<Rightarrow> pyval res" where
  "guest_ip manifest = bind_res (item manifest ''guest_vm_identity'') (\<lambda>g. item g ''guest_ip'')"

text \<open>\<open>manifest\<close> has been subscripted before, so it is an object here.\<close>

definition notes_obj :: "identity \<Rightarrow> string \<Rightarrow> pyval \<Rightarrow> pyval \<Rightarrow> pyval res" where
  "notes_obj i session manifest raw_notes =
     (let corr = or_empty (get (obj_of manifest) ''correlation'');
          tel = or_empty (get (obj_of manifest) ''telemetry'')
      in eval_fields
        ((''schema_version'', Inr (JStr ''1.0'')) # map (\<lambda>(k, v). (k, Inr v)) (identity_fields i) @
         [(''session_id'', Inr (JStr session)), (''network_mode'', item manifest ''network_mode''),
          (''clock_quality_acceptable'', flag corr ''clock_quality_acceptable''),
          (''telemetry_degraded'', flag tel ''telemetry_degraded''),
          (''providers_unavailable'', unavailable tel),
          (''scope_filter'', eval_fields
             [(''guest_ip'', guest_ip manifest), (''detonation_start_utc'', item manifest ''detonation_start_utc''),
              (''detonation_end_utc'', item manifest ''detonation_end_utc''), (''applied'', Inr (JBool True))]),
          (''notes'', bind_res (get_default raw_notes ''notes'' JNull) (\<lambda>n. bind_res (list_or_empty n) (\<lambda>ns. Inr (JList ns))))]))"

section \<open>The immutable hand-off\<close>

text \<open>Equality of dictionaries: the same keys with the same values, in any order.\<close>

definition same_dict :: "(string \<times> pyval) list \<Rightarrow> (string \<times> pyval) list \<Rightarrow> bool" where
  "same_dict a b \<longleftrightarrow> list_all (\<lambda>k. map_of a k = map_of b k) (dict_keys a @ dict_keys b)"

definition hashes_obj :: "(string \<times> string) list \<Rightarrow> (string \<times> pyval) list" where
  "hashes_obj hs = map (\<lambda>(p, h). (p, JStr h)) hs"

definition handoff_unchanged :: "(string \<Rightarrow> string) \<Rightarrow> pyval \<Rightarrow> files \<Rightarrow> bool" where
  "handoff_unchanged H before handoff \<longleftrightarrow>
     is_obj before \<and> same_dict (obj_of before) (hashes_obj (file_hashes H handoff))"

section \<open>Provenance\<close>

definition stage_inputs :: "files \<Rightarrow> files" where
  "stage_inputs b =
     List.map_filter (\<lambda>(p, c). if starts_with p ''inputs/'' then Some (drop 7 p, c) else None) b"

definition patch_hashes :: "(string \<Rightarrow> string) \<Rightarrow> files \<Rightarrow> pyval \<Rightarrow> pyval res" where
  "patch_hashes H project lock =
     bind_res (item lock ''patches'') (\<lambda>p.
     bind_res (item p ''series'') (\<lambda>series.
     bind_res (items_of series) (\<lambda>ns.
     bind_res (map_res (\<lambda>n. case n of
         JStr s \<Rightarrow> bind_res (read_file project (''integrations/c2-exfil-patches/'' @ s)) (\<lambda>c.
           Inr (JObj [(''name'', n), (''sha256'', JStr (H c))]))
       | _ \<Rightarrow> Inl (TypeError ''unsupported operand type(s) for /'')) ns) (\<lambda>ps. Inr (JList ps)))))"

text \<open>List concatenation; \<open>list + x\<close> raises unless \<open>x\<close> is a list too.\<close>

definition plus_list :: "pyval \<Rightarrow> pyval \<Rightarrow> pyval res" where
  "plus_list a b =
     (case (a, b) of (JList xs, JList ys) \<Rightarrow> Inr (JList (xs @ ys))
      | _ \<Rightarrow> Inl (TypeError ''can only concatenate list''))"

record seal_inputs =
  si_manifest :: pyval
  si_session :: string
  si_seed :: string
  si_tip :: string
  si_count :: nat
  si_notes :: "pyval list"

definition handoff_context :: "seal_args \<Rightarrow> seal_inputs \<Rightarrow> pyval res" where
  "handoff_context a s =
     (let m = si_manifest s; corr = or_empty (get (obj_of m) ''correlation''); tel = or_empty (get (obj_of m) ''telemetry'')
      in eval_fields
        [(''session_id'', Inr (JStr (si_session s))), (''cape_task_id'', Inr (JInt (sa_task a))),
         (''network_mode'', item m ''network_mode''), (''guest_ip'', guest_ip m),
         (''detonation_start_utc'', item m ''detonation_start_utc''), (''detonation_end_utc'', item m ''detonation_end_utc''),
         (''clock_quality_acceptable'', flag corr ''clock_quality_acceptable''),
         (''telemetry_degraded'', flag tel ''telemetry_degraded''),
         (''providers_unavailable'', unavailable tel), (''manifest_sha256'', Inr (JStr (si_seed s)))])"

definition custody_obj :: "seal_inputs \<Rightarrow> pyval" where
  "custody_obj s = JObj [(''seed_sha256'', JStr (si_seed s)), (''tip_sha256'', JStr (si_tip s)),
     (''event_count'', JInt (int (si_count s))), (''verified'', JBool True)]"

definition availability :: "bool \<Rightarrow> string \<Rightarrow> string \<Rightarrow> pyval res" where
  "availability b yes no = Inr (JStr (if b then yes else no))"

definition result_provenance ::
    "seal_env \<Rightarrow> seal_args \<Rightarrow> identity \<Rightarrow> seal_inputs \<Rightarrow> files \<Rightarrow> (string \<times> pyval) list \<Rightarrow> pyval \<Rightarrow> pyval
     \<Rightarrow> pyval list \<Rightarrow> pyval \<Rightarrow> string \<Rightarrow> pyval \<Rightarrow> pyval \<Rightarrow> pyval \<Rightarrow> pyval res" where
  "result_provenance en a i s b input_hashes before lock patches runtime_manifest model_text suricata tls zeek =
     (let sql = map_of b ''output/sql-verification.json'' \<noteq> None; native = (sa_zeek_mode a = ''native'') in
      bind_res (se_load en model_text) (\<lambda>model.
      eval_fields
        [(''schema_version'', Inr (JStr ''1.1'')), (''task_id'', Inr (JInt (sa_task a))),
         (''sample_sha256'', Inr (JStr (id_sample i))), (''pcap_sha256'', Inr (JStr (id_pcap i))),
         (''upstream_repository'', item lock ''repository''), (''upstream_commit'', item lock ''commit''),
         (''compatibility_patch_hashes'', Inr (JList patches)),
         (''effective_runtime_tree_sha256'', item runtime_manifest ''effective_tree_sha256''),
         (''dependency_lock_sha256'', item lock ''dependency_lock_sha256''),
         (''input_hashes'', Inr (JObj input_hashes)), (''handoff_hashes'', Inr before),
         (''correlation_mode'', availability (sa_host_network a) ''host_network'' ''network_only''),
         (''zeek'', eval_fields
            [(''zeek_mode'', Inr (JStr (sa_zeek_mode a))), (''limitations'', item zeek ''limitations''),
             (''generated_files'', item zeek ''generated_files''), (''parser_validation'', item zeek ''parser_validation''),
             (''input_pcap_sha256'', Inr (JStr (id_pcap i)))]),
         (''feed_revisions'', Inr (JList [])),
         (''model_revisions'', bind_res (get_default model ''threshold'' (JFloat (1 / 2))) (\<lambda>th.
            bind_res (get_default model ''meta'' (JObj [])) (\<lambda>meta.
            Inr (JList [JObj [(''name'', JStr ''offline_explainable_dga_lr''), (''path'', JStr ''data/models/dga_lr.json''),
              (''sha256'', JStr (se_hash en model_text)), (''threshold'', th), (''metadata'', meta)]])))),
         (''database_schema_version'', item lock ''database_schema_version''),
         (''handoff_context'', handoff_context a s),
         (''custody_chain'', Inr (custody_obj s)), (''fixture_usage'', Inr (JBool False)),
         (''started_at_utc'', Inr (JStr (sa_started a))), (''ended_at_utc'', Inr (JStr (se_now en))),
         (''warnings'', bind_res (item zeek ''limitations'') (\<lambda>l. bind_res (item zeek ''warnings'') (\<lambda>w.
            bind_res (plus_list l w) (\<lambda>lw. plus_list lw (JList (si_notes s)))))),
         (''degraded_features'', Inr (JList (if native then [] else [JStr ''zeek'']))),
         (''optional_inputs'', eval_fields
            [(''access_events'', availability (sa_host_network a) ''available'' ''disabled''),
             (''handoff_manifest'', Inr (JStr ''available'')), (''static_prior'', Inr (JStr ''available'')),
             (''suricata'', item suricata ''status''), (''tls'', item tls ''status''),
             (''postgresql'', availability sql ''available'' ''disabled'')]),
         (''stages'', eval_fields
            [(''network'', Inr (JStr ''complete'')), (''handoff_gating'', Inr (JStr ''complete'')),
             (''correlation'', availability (sa_host_network a) ''complete'' ''not_available''),
             (''attribution'', Inr (JStr ''complete'')), (''ioc_export'', Inr (JStr ''complete'')),
             (''zeek'', availability native ''complete'' ''degraded''),
             (''postgresql'', availability sql ''complete'' ''not_available'')])]))"

section \<open>The run\<close>

text \<open>The identity of the result, checked against the hand-off.\<close>

definition result_identity ::
    "seal_env \<Rightarrow> seal_args \<Rightarrow> files \<Rightarrow> files \<Rightarrow> (identity \<times> pyval \<times> string \<times> string \<times> pyval) res" where
  "result_identity en a stage handoff =
     bind_res (read_json (se_load en) handoff ''sample.meta.json'') (\<lambda>meta.
     bind_res (read_json (se_load en) handoff ''manifest.json'') (\<lambda>manifest.
     bind_res (item meta ''sample_sha256'') (\<lambda>v. bind_res (lower_of v) (\<lambda>sample.
     bind_res (read_file stage ''inputs/capture.pcapng'') (\<lambda>capture.
     bind_res (read_json (se_load en) stage ''output/exfil_events.json'') (\<lambda>raw.
     bind_res (item manifest ''session_id'') (\<lambda>session.
     bind_res (item manifest ''cape_task_id'') (\<lambda>tid.
     if \<not> py_eq tid (JInt (sa_task a)) then Inl (SystemExit ''handoff identity does not match result identity'')
     else bind_res (item manifest ''sample_sha256'') (\<lambda>w. bind_res (lower_of w) (\<lambda>msample.
     if msample \<noteq> sample then Inl (SystemExit ''handoff identity does not match result identity'')
     else bind_res (item manifest ''integrity'') (\<lambda>integ.
          bind_res (item integ ''hash_manifest_sha256'') (\<lambda>x. bind_res (lower_of x) (\<lambda>seed.
       Inr (\<lparr>id_task = sa_task a, id_sample = sample, id_pcap = se_hash en capture\<rparr>,
            manifest, py_str session, seed, raw))))))))))))))"

text \<open>The documents below \<open>output/\<close>.\<close>

definition write_outputs ::
    "seal_env \<Rightarrow> identity \<Rightarrow> string \<Rightarrow> pyval \<Rightarrow> row list \<Rightarrow> files \<Rightarrow> (files \<times> pyval list) res" where
  "write_outputs en i session manifest rows stage =
     (let b1 = remove_file ''output/exfil_events.json'' (write_json ''output/events.json'' (events_obj i rows) stage) in
      bind_res (read_json (se_load en) b1 ''output/attribution.json'') (\<lambda>raw_attribution.
      bind_res (attribution_obj i raw_attribution) (\<lambda>attribution.
      let b2 = write_json ''output/attribution.json'' attribution b1 in
      bind_res (read_json (se_load en) b2 ''output/timeline.json'') (\<lambda>timeline.
      let b3 = write_json ''output/timeline.json'' (JObj (identity_fields i @ [(''entries'', timeline)])) b2 in
      bind_res (if map_of b3 ''output/analysis_notes.json'' = None then Inr (JObj [])
                else read_json (se_load en) b3 ''output/analysis_notes.json'') (\<lambda>raw_notes.
      bind_res (notes_obj i session manifest raw_notes) (\<lambda>notes.
      bind_res (list_or_empty (get (obj_of raw_notes) ''notes'')) (\<lambda>note_list.
      let b4 = write_json ''output/analysis_notes.json'' notes b3;
          b5 = rename_file ''output/provenance.json'' ''output/item-provenance.json'' b4;
          b6 = rename_file ''output/iocs_stix.json'' ''output/iocs/iocs_stix.json''
                 (rename_file ''output/iocs.csv'' ''output/iocs/iocs.csv'' b5)
      in Inr (write_json ''output/iocs/identity.json'' (JObj (identity_fields i)) b6, note_list))))))))"

text \<open>Everything that only goes into the provenance.\<close>

definition add_provenance ::
    "seal_env \<Rightarrow> seal_args \<Rightarrow> identity \<Rightarrow> seal_inputs \<Rightarrow> pyval \<Rightarrow> files \<Rightarrow> files \<Rightarrow> files \<Rightarrow> files res" where
  "add_provenance en a i s before runtime project b =
     bind_res (read_json (se_load en) project ''config/c2-exfil.lock.json'') (\<lambda>lock.
     bind_res (read_json (se_load en) runtime ''runtime-manifest.json'') (\<lambda>runtime_manifest.
     bind_res (patch_hashes (se_hash en) project lock) (\<lambda>patches.
     let input_hashes = filter (\<lambda>(p, h). p \<noteq> ''handoff-hashes.before.json'')
           (hashes_obj (file_hashes (se_hash en) (stage_inputs b))) in
     bind_res (read_json (se_load en) b ''inputs/suricata-input.json'') (\<lambda>suricata.
     bind_res (item suricata ''status'') (\<lambda>suricata_status.
     bind_res (read_json (se_load en) b ''inputs/tls-input.json'') (\<lambda>tls.
     bind_res (item tls ''status'') (\<lambda>tls_status.
     bind_res (read_json (se_load en) b ''inputs/zeek-selection.json'') (\<lambda>zeek.
     bind_res (item zeek ''zeek_mode'') (\<lambda>mode.
     bind_res (if mode \<noteq> JStr (sa_zeek_mode a) then Inr JNull else item zeek ''input_pcap_sha256'') (\<lambda>zpcap.
     if mode \<noteq> JStr (sa_zeek_mode a) \<or> zpcap \<noteq> JStr (id_pcap i)
     then Inl (SystemExit ''Zeek selection provenance does not match the analyzed PCAP'')
     else bind_res (item zeek ''limitations'') (\<lambda>limitations.
          bind_res (read_file runtime ''source/data/models/dga_lr.json'') (\<lambda>model_text.
          bind_res (result_provenance en a i s b input_hashes before lock (case patches of JList ps \<Rightarrow> ps | _ \<Rightarrow> [])
            runtime_manifest model_text suricata tls zeek) (\<lambda>prov.
          Inr (write_json ''provenance.json'' prov b))))))))))))))"

definition result_hash_lines :: "(string \<Rightarrow> string) \<Rightarrow> files \<Rightarrow> string" where
  "result_hash_lines H b =
     concat (map (\<lambda>(p, h). h @ ''  '' @ p @ [char_of (10 :: nat)])
       (sort_key fst (filter (\<lambda>(p, h). p \<noteq> ''hashes.sha256'') (file_hashes H b))))"

definition seal_result :: "seal_env \<Rightarrow> seal_args \<Rightarrow> files \<Rightarrow> files \<Rightarrow> files \<Rightarrow> files \<Rightarrow> files res" where
  "seal_result en a stage handoff runtime project =
     bind_res (result_identity en a stage handoff) (\<lambda>(i, manifest, session, seed, raw).
     bind_res (check_events (se_hash en) session (sa_task a) seed raw) (\<lambda>(rows, tip).
     bind_res (write_outputs en i session manifest rows stage) (\<lambda>(b, ns).
     bind_res (read_json (se_load en) b ''inputs/handoff-hashes.before.json'') (\<lambda>before.
     if \<not> handoff_unchanged (se_hash en) before handoff
     then Inl (SystemExit ''immutable handoff changed during analysis'')
     else bind_res (add_provenance en a i
            \<lparr>si_manifest = manifest, si_session = session, si_seed = seed, si_tip = tip, si_count = length rows, si_notes = ns\<rparr>
            before runtime project b) (\<lambda>b'.
          Inr (dict_set ''hashes.sha256'' (result_hash_lines (se_hash en) b') b'))))))"

section \<open>Lemmas\<close>

lemma check_rows_valid:
  "check_rows H session task seed n prev rows = Inr tip \<Longrightarrow>
     custody.valid_from H prev rows \<and> tip = custody.tip H prev rows
     \<and> (\<forall>r \<in> set rows. get r ''session_id'' = session \<and> get r ''cape_task_id'' = task)"
proof (induction rows arbitrary: n prev)
  case (Cons r rs)
  from Cons.prems have c: "get r ''session_id'' = session" "get r ''cape_task_id'' = task" "row_hash r = Some (row_link H prev r)"
    and rest: "check_rows H session task seed (Suc n) (row_link H prev r) rs = Inr tip"
    unfolding check_rows.simps Let_def by (simp_all only: split: if_split_asm) simp_all
  from Cons.IH [OF rest] c show ?case by simp
qed simp

lemma write_outputs_Inr:
  assumes "write_outputs en i session manifest rows stage = Inr (b, ns)"
  shows "map_of b ''output/events.json'' = Some (json_pretty 0 (events_obj i rows) @ [char_of (10 :: nat)])"
    and "map_of b ''output/exfil_events.json'' = None"
    and "distinct (dict_keys stage) \<Longrightarrow> distinct (dict_keys b)"
    and "starts_with p ''inputs/'' \<Longrightarrow> map_of b p = map_of stage p"
proof -
  from assms obtain attribution timeline nt where b: "b =
      write_json ''output/iocs/identity.json'' (JObj (identity_fields i))
       (rename_file ''output/iocs_stix.json'' ''output/iocs/iocs_stix.json''
         (rename_file ''output/iocs.csv'' ''output/iocs/iocs.csv''
           (rename_file ''output/provenance.json'' ''output/item-provenance.json''
             (write_json ''output/analysis_notes.json'' nt
               (write_json ''output/timeline.json'' (JObj (identity_fields i @ [(''entries'', timeline)]))
                 (write_json ''output/attribution.json'' attribution
                   (remove_file ''output/exfil_events.json'' (write_json ''output/events.json'' (events_obj i rows) stage))))))))"
    unfolding write_outputs_def Let_def bind_res_Inr_iff by blast
  show "map_of b ''output/events.json'' = Some (json_pretty 0 (events_obj i rows) @ [char_of (10 :: nat)])"
    "map_of b ''output/exfil_events.json'' = None"
    unfolding b by (simp_all add: rename_file_lookup)
  show "distinct (dict_keys stage) \<Longrightarrow> distinct (dict_keys b)"
    unfolding b by (intro distinct_write_json distinct_rename_file distinct_remove_file)
  assume "starts_with p ''inputs/''"
  then have "p \<noteq> ''output/'' @ q" for q by (auto simp: starts_with_def)
  from this [of "''iocs/identity.json''"] this [of "''iocs_stix.json''"] this [of "''iocs/iocs_stix.json''"]
    this [of "''iocs.csv''"] this [of "''iocs/iocs.csv''"] this [of "''provenance.json''"] this [of "''item-provenance.json''"]
    this [of "''analysis_notes.json''"] this [of "''timeline.json''"] this [of "''attribution.json''"]
    this [of "''exfil_events.json''"] this [of "''events.json''"]
  show "map_of b p = map_of stage p" unfolding b by (simp add: rename_file_lookup)
qed

lemma add_provenance_Inr:
  assumes "add_provenance en a i s before runtime project b = Inr b'"
  shows "\<exists>prov. b' = write_json ''provenance.json'' prov b \<and> item prov ''custody_chain'' = Inr (custody_obj s)
     \<and> item prov ''handoff_hashes'' = Inr before \<and> item prov ''sample_sha256'' = Inr (JStr (id_sample i))"
proof -
  from assms obtain input_hashes lock patches runtime_manifest model_text suricata tls zeek prov where
    b': "b' = write_json ''provenance.json'' prov b" and
    "result_provenance en a i s b input_hashes before lock patches runtime_manifest model_text suricata tls zeek = Inr prov"
    by (auto simp: add_provenance_def bind_res_Inr_iff Let_def split: if_splits)
  then obtain fs where fs: "eval_fields fs = Inr prov"
    "map_of fs ''custody_chain'' = Some (Inr (custody_obj s))" "map_of fs ''handoff_hashes'' = Some (Inr before)"
    "map_of fs ''sample_sha256'' = Some (Inr (JStr (id_sample i)))"
    by (force simp: result_provenance_def bind_res_Inr_iff Let_def)
  show ?thesis
    using b' eval_fields_get [OF fs(1,2)] eval_fields_get [OF fs(1,3)] eval_fields_get [OF fs(1,4)] by auto
qed

lemma result_hash_lines_spec:
  assumes "distinct (dict_keys b)"
  shows "\<exists>ls. result_hash_lines H b = concat (map (\<lambda>(p, h). h @ ''  '' @ p @ [char_of (10 :: nat)]) ls)
     \<and> sorted (map fst ls) \<and> distinct (map fst ls)
     \<and> set ls = {(p, H c) | p c. map_of b p = Some c \<and> p \<noteq> ''hashes.sha256''}"
proof -
  let ?ls = "sort_key fst (filter (\<lambda>(p, h). p \<noteq> ''hashes.sha256'') (file_hashes H b))"
  have d: "distinct (dict_keys (file_hashes H b))"
    using assms file_hashes_keys [of H b] by (metis mset_eq_imp_distinct_iff)
  have "mset (map fst ?ls) = mset (map fst (filter (\<lambda>(p, h). p \<noteq> ''hashes.sha256'') (file_hashes H b)))"
    by (rule sort_key_keys)
  moreover have "distinct (map fst (filter (\<lambda>(p, h). p \<noteq> ''hashes.sha256'') (file_hashes H b)))"
    using d by (simp add: distinct_map_filter)
  ultimately have "distinct (map fst ?ls)" by (metis mset_eq_imp_distinct_iff)
  moreover have "(p, c) \<in> set b \<longleftrightarrow> map_of b p = Some c" for p c using assms by simp
  then have "set ?ls = {(p, H c) | p c. map_of b p = Some c \<and> p \<noteq> ''hashes.sha256''}"
    by (auto simp: set_file_hashes)
  ultimately show ?thesis
    unfolding result_hash_lines_def by (intro exI [of _ ?ls]) simp
qed

lemma same_dict_eq: "same_dict a b \<Longrightarrow> map_of a = map_of b"
proof
  fix k
  assume s: "same_dict a b"
  show "map_of a k = map_of b k"
  proof (cases "k \<in> set (dict_keys a @ dict_keys b)")
    case True
    then show ?thesis using s unfolding same_dict_def list_all_iff by blast
  next
    case False
    then have "map_of a k = None" "map_of b k = None" by (simp_all add: map_of_eq_None_iff)
    then show ?thesis by simp
  qed
qed

lemma handoff_unchanged_eq:
  assumes "handoff_unchanged H before handoff" "distinct (dict_keys handoff)"
  shows "get (obj_of before) p = (case map_of handoff p of None \<Rightarrow> JNull | Some c \<Rightarrow> JStr (H c))"
proof -
  have "map_of (obj_of before) = map_of (hashes_obj (file_hashes H handoff))"
    using assms(1) same_dict_eq unfolding handoff_unchanged_def by blast
  moreover have "map_of (hashes_obj d) p = map_option JStr (map_of d p)" for d
    unfolding hashes_obj_def by (induction d) auto
  ultimately show ?thesis
    by (simp add: get_def file_hashes_lookup [OF assms(2)] split: option.split)
qed

text \<open>
  C6. A result is only sealed over unbroken custody: the sample and task are those of the hand-off, every
  row belongs to them and the rows are a valid chain from the hand-off's manifest digest to the tip
  that the provenance records; the hand-off still has exactly the files and digests recorded before
  the analysis; the raw rows are replaced by the published ones; and the hash manifest lists, sorted
  and once each, exactly the other files of the bundle with their digests.
\<close>

theorem sealed_result_sound:
  assumes "seal_result en a stage handoff runtime project = Inr out"
    and "distinct (dict_keys stage)" "distinct (dict_keys handoff)"
  shows "\<exists>i manifest session seed raw rows tip prov before ls.
     result_identity en a stage handoff = Inr (i, manifest, session, seed, raw)
     \<and> custody.valid_from (se_hash en) seed rows \<and> tip = custody.tip (se_hash en) seed rows
     \<and> (\<forall>r \<in> set rows. get r ''session_id'' = JStr session \<and> get r ''cape_task_id'' = JInt (sa_task a))
     \<and> read_json (se_load en) stage ''inputs/handoff-hashes.before.json'' = Inr before
     \<and> (\<forall>p. get (obj_of before) p = (case map_of handoff p of None \<Rightarrow> JNull | Some c \<Rightarrow> JStr (se_hash en c)))
     \<and> map_of out ''output/exfil_events.json'' = None
     \<and> map_of out ''output/events.json'' = Some (json_pretty 0 (events_obj i rows) @ [char_of (10 :: nat)])
     \<and> map_of out ''provenance.json'' = Some (json_pretty 0 prov @ [char_of (10 :: nat)])
     \<and> item prov ''custody_chain'' = Inr (JObj [(''seed_sha256'', JStr seed), (''tip_sha256'', JStr tip),
          (''event_count'', JInt (int (length rows))), (''verified'', JBool True)])
     \<and> item prov ''handoff_hashes'' = Inr before \<and> item prov ''sample_sha256'' = Inr (JStr (id_sample i))
     \<and> map_of out ''hashes.sha256'' = Some (concat (map (\<lambda>(p, h). h @ ''  '' @ p @ [char_of (10 :: nat)]) ls))
     \<and> sorted (map fst ls) \<and> distinct (map fst ls)
     \<and> set ls = {(p, se_hash en c) | p c. map_of out p = Some c \<and> p \<noteq> ''hashes.sha256''}"
proof -
  from assms(1) obtain i manifest session seed raw rows tip b ns before b' where
    ident: "result_identity en a stage handoff = Inr (i, manifest, session, seed, raw)" and
    ev: "check_events (se_hash en) session (sa_task a) seed raw = Inr (rows, tip)" and
    outs: "write_outputs en i session manifest rows stage = Inr (b, ns)" and
    bef: "read_json (se_load en) b ''inputs/handoff-hashes.before.json'' = Inr before" and
    same: "handoff_unchanged (se_hash en) before handoff" and
    prov: "add_provenance en a i \<lparr>si_manifest = manifest, si_session = session, si_seed = seed, si_tip = tip,
        si_count = length rows, si_notes = ns\<rparr> before runtime project b = Inr b'" and
    out: "out = dict_set ''hashes.sha256'' (result_hash_lines (se_hash en) b') b'"
    by (auto simp: seal_result_def bind_res_Inr_iff split: if_splits)
  note w = write_outputs_Inr [OF outs]
  obtain pv where pv: "b' = write_json ''provenance.json'' pv b" "item pv ''handoff_hashes'' = Inr before"
      "item pv ''sample_sha256'' = Inr (JStr (id_sample i))"
    and chain: "item pv ''custody_chain'' = Inr (JObj [(''seed_sha256'', JStr seed), (''tip_sha256'', JStr tip),
          (''event_count'', JInt (int (length rows))), (''verified'', JBool True)])"
    using add_provenance_Inr [OF prov] by (auto simp: custody_obj_def)
  have "check_rows (se_hash en) (JStr session) (JInt (sa_task a)) seed 0 seed rows = Inr tip"
    using ev by (auto simp: check_events_def bind_res_Inr_iff Let_def split: if_splits)
  note valid = check_rows_valid [OF this]
  have "distinct (dict_keys b')" unfolding pv(1) using w(3) [OF assms(2)] by (rule distinct_write_json)
  then obtain ls where ls: "result_hash_lines (se_hash en) b' = concat (map (\<lambda>(p, h). h @ ''  '' @ p @ [char_of (10 :: nat)]) ls)"
      "sorted (map fst ls)" "distinct (map fst ls)"
      "set ls = {(p, se_hash en c) | p c. map_of b' p = Some c \<and> p \<noteq> ''hashes.sha256''}"
    using result_hash_lines_spec by blast
  have inputs: "read_json (se_load en) stage ''inputs/handoff-hashes.before.json'' = Inr before"
    using bef w(4) [of "''inputs/handoff-hashes.before.json''"] by (simp add: read_json_def read_file_def starts_with_def)
  have set: "set ls = {(p, se_hash en c) | p c. map_of out p = Some c \<and> p \<noteq> ''hashes.sha256''}"
    unfolding ls(4) by (auto simp: out)
  have o: "map_of out ''output/exfil_events.json'' = None"
    "map_of out ''output/events.json'' = Some (json_pretty 0 (events_obj i rows) @ [char_of (10 :: nat)])"
    "map_of out ''provenance.json'' = Some (json_pretty 0 pv @ [char_of (10 :: nat)])"
    "map_of out ''hashes.sha256'' = Some (concat (map (\<lambda>(p, h). h @ ''  '' @ p @ [char_of (10 :: nat)]) ls))"
    using w(1,2) ls(1) by (simp_all add: out pv(1))
  show ?thesis
    using ident valid inputs handoff_unchanged_eq [OF same assms(3)] o chain pv(2,3) ls(2,3) set by blast
qed

section \<open>A concrete result\<close>

definition sample_docs :: "(string \<times> pyval) list" where
  "sample_docs =
     [(''meta'', JObj [(''sample_sha256'', JStr ''AB'')]),
      (''manifest'', JObj [(''session_id'', JStr ''s1''), (''cape_task_id'', JInt 7), (''sample_sha256'', JStr ''ab''),
         (''integrity'', JObj [(''hash_manifest_sha256'', JStr ''d'')]), (''network_mode'', JStr ''none''),
         (''guest_vm_identity'', JObj [(''guest_ip'', JStr ''10.0.0.5'')]), (''detonation_start_utc'', JNull),
         (''detonation_end_utc'', JNull)]),
      (''events'', JList [JObj [(''session_id'', JStr ''s1''), (''cape_task_id'', JInt 7), (''manifest_sha256'', JStr ''d''),
         (''evidence_hash'', JStr ''h'')]]),
      (''list'', JList []), (''before'', JObj [(''sample.meta.json'', JStr ''h''), (''manifest.json'', JStr ''h'')]),
      (''lock'', JObj [(''patches'', JObj [(''series'', JList [])]), (''repository'', JStr ''r''), (''commit'', JStr ''c''),
         (''dependency_lock_sha256'', JStr ''l''), (''database_schema_version'', JInt 1)]),
      (''runtime'', JObj [(''effective_tree_sha256'', JStr ''t'')]), (''status'', JObj [(''status'', JStr ''available'')]),
      (''zeek'', JObj [(''zeek_mode'', JStr ''native''), (''input_pcap_sha256'', JStr ''h''), (''limitations'', JList []),
         (''warnings'', JList []), (''generated_files'', JList []), (''parser_validation'', JStr ''passed'')]),
      (''model'', JObj [])]"

definition sample_seal :: seal_env where
  "sample_seal = \<lparr>se_load = (\<lambda>t. case map_of sample_docs t of Some v \<Rightarrow> Inr v | None \<Rightarrow> Inl (ValueError t)),
     se_hash = (\<lambda>_. ''h''), se_now = ''now''\<rparr>"

definition sample_stage :: files where
  "sample_stage = [(''inputs/capture.pcapng'', ''x''), (''output/exfil_events.json'', ''events''),
     (''output/attribution.json'', ''list''), (''output/timeline.json'', ''list''),
     (''inputs/handoff-hashes.before.json'', ''before''), (''inputs/suricata-input.json'', ''status''),
     (''inputs/tls-input.json'', ''status''), (''inputs/zeek-selection.json'', ''zeek'')]"

definition seal_sample_args :: seal_args where
  "seal_sample_args = \<lparr>sa_task = 7, sa_started = ''t0'', sa_host_network = True, sa_zeek_mode = ''native''\<rparr>"

definition seal_sample_handoff :: files where
  "seal_sample_handoff = [(''sample.meta.json'', ''meta''), (''manifest.json'', ''manifest'')]"

definition sample_manifest :: pyval where
  "sample_manifest = (case map_of sample_docs ''manifest'' of Some v \<Rightarrow> v | None \<Rightarrow> JNull)"

definition sample_identity :: identity where
  "sample_identity = \<lparr>id_task = 7, id_sample = ''ab'', id_pcap = ''h''\<rparr>"

definition seal_sample_event :: row where
  "seal_sample_event = [(''session_id'', JStr ''s1''), (''cape_task_id'', JInt 7), (''manifest_sha256'', JStr ''d''),
         (''evidence_hash'', JStr ''h'')]"

lemma sample_result_identity: "result_identity sample_seal seal_sample_args sample_stage seal_sample_handoff
   = Inr (sample_identity, sample_manifest, ''s1'', ''d'', JList [JObj seal_sample_event])"
  by code_simp

lemma sample_events: "check_events (se_hash sample_seal) ''s1'' (sa_task seal_sample_args) ''d'' (JList [JObj seal_sample_event])
   = Inr ([seal_sample_event], ''h'')"
  by code_simp

lemma sample_notes: "\<not> isl (notes_obj sample_identity ''s1'' sample_manifest (JObj []))"
  by code_simp

lemma sample_attribution: "\<not> isl (attribution_obj sample_identity (JList []))"
  by code_simp

lemma sample_outputs: "\<exists>b. write_outputs sample_seal sample_identity ''s1'' sample_manifest [seal_sample_event] sample_stage = Inr (b, [])"
proof -
  obtain n a where "notes_obj sample_identity ''s1'' sample_manifest (JObj []) = Inr n" "attribution_obj sample_identity (JList []) = Inr a"
    using sample_notes sample_attribution by (metis sum.collapse(2))
  then show ?thesis
   by (simp add: write_outputs_def Let_def sample_stage_def read_json_def read_file_def sample_seal_def sample_docs_def list_or_empty_def)
qed

definition sample_runtime :: files where
  "sample_runtime = [(''runtime-manifest.json'', ''runtime''), (''source/data/models/dga_lr.json'', ''model'')]"

definition sample_project :: files where
  "sample_project = [(''config/c2-exfil.lock.json'', ''lock'')]"

definition sample_before :: pyval where
  "sample_before = JObj [(''sample.meta.json'', JStr ''h''), (''manifest.json'', JStr ''h'')]"

definition sample_si :: seal_inputs where
  "sample_si = \<lparr>si_manifest = sample_manifest, si_session = ''s1'', si_seed = ''d'', si_tip = ''h'', si_count = 1, si_notes = []\<rparr>"

lemma sample_context: "\<not> isl (handoff_context seal_sample_args sample_si)"
  by code_simp

lemma sample_provenance:
  assumes "\<And>p. starts_with p ''inputs/'' \<Longrightarrow> map_of b p = map_of sample_stage p"
  shows "\<exists>b'. add_provenance sample_seal seal_sample_args sample_identity sample_si sample_before sample_runtime sample_project b = Inr b'"
proof -
  have i: "map_of b ''inputs/suricata-input.json'' = Some ''status''" "map_of b ''inputs/tls-input.json'' = Some ''status''"
    "map_of b ''inputs/zeek-selection.json'' = Some ''zeek''"
    by (simp_all add: assms starts_with_def sample_stage_def)
  obtain c where "handoff_context seal_sample_args sample_si = Inr c"
    using sample_context by (metis sum.collapse(2))
  then show ?thesis
    by (simp add: add_provenance_def result_provenance_def Let_def read_json_def read_file_def i sample_seal_def
        sample_docs_def sample_runtime_def sample_project_def seal_sample_args_def sample_identity_def patch_hashes_def
        availability_def eval_fields_def plus_list_def list_or_empty_def get_default_def)
qed

lemma sample_before_unchanged: "handoff_unchanged (se_hash sample_seal) sample_before seal_sample_handoff"
  by code_simp

lemma sample_seal_returns:
  "\<exists>out. seal_result sample_seal seal_sample_args sample_stage seal_sample_handoff sample_runtime sample_project = Inr out"
proof -
  obtain b where b: "write_outputs sample_seal sample_identity ''s1'' sample_manifest [seal_sample_event] sample_stage = Inr (b, [])"
    using sample_outputs by blast
  note inputs = write_outputs_Inr(4) [OF b]
  obtain b' where b': "add_provenance sample_seal seal_sample_args sample_identity sample_si sample_before sample_runtime sample_project b = Inr b'"
    using sample_provenance [OF inputs] by blast
  have "map_of b ''inputs/handoff-hashes.before.json'' = Some ''before''"
    by (simp add: inputs starts_with_def sample_stage_def)
  then have "read_json (se_load sample_seal) b ''inputs/handoff-hashes.before.json'' = Inr sample_before"
    by (simp add: read_json_def read_file_def sample_seal_def sample_docs_def sample_before_def)
  then show ?thesis
    using b' sample_before_unchanged
    by (simp add: seal_result_def sample_result_identity sample_events b sample_si_def)
qed

lemma sealed_result_witness:
  "\<exists>out. seal_result sample_seal seal_sample_args sample_stage seal_sample_handoff sample_runtime sample_project = Inr out
     \<and> map_of out ''output/exfil_events.json'' = None"
proof -
  obtain out where out: "seal_result sample_seal seal_sample_args sample_stage seal_sample_handoff sample_runtime sample_project = Inr out"
    using sample_seal_returns by blast
  have "distinct (dict_keys sample_stage)" "distinct (dict_keys seal_sample_handoff)"
    by code_simp+
  from sealed_result_sound [OF out this] show ?thesis using out by blast
qed

text \<open>
  The rows are published with columns that the chain does not cover, under the digests of the rows
  without them: a published row is rejected by the check that its raw row has passed.
\<close>

definition raw_row :: row where
  "raw_row = [(''session_id'', JStr ''s1''), (''cape_task_id'', JInt 7), (''manifest_sha256'', JStr ''d'')]"

lemma published_rows_break_chain:
  "\<exists>tip. check_rows (\<lambda>s. s) (JStr ''s1'') (JInt 7) ''d'' 0 ''d'' [seal_row raw_row (row_link (\<lambda>s. s) ''d'' raw_row)] = Inr tip"
  "check_rows (\<lambda>s. s) (JStr ''s1'') (JInt 7) ''d'' 0 ''d''
     [publish_row \<lparr>id_task = 7, id_sample = ''ab'', id_pcap = ''p''\<rparr> (seal_row raw_row (row_link (\<lambda>s. s) ''d'' raw_row))]
   = Inl (SystemExit ''event 0 evidence chain mismatch'')"
proof -
  have "\<not> isl (check_rows (\<lambda>s. s) (JStr ''s1'') (JInt 7) ''d'' 0 ''d'' [seal_row raw_row (row_link (\<lambda>s. s) ''d'' raw_row)])"
    by code_simp
  then show "\<exists>tip. check_rows (\<lambda>s. s) (JStr ''s1'') (JInt 7) ''d'' 0 ''d'' [seal_row raw_row (row_link (\<lambda>s. s) ''d'' raw_row)] = Inr tip"
    using sum.collapse(2) by metis
qed code_simp

end
