(* ===== verification/Dga.thy ===== *)
theory Dga
  imports PyNum Dns Json
begin

text \<open>
  The classifier of generated names: inference (\<open>pipeline/dga_classifier.py\<close>) and training
  (\<open>tools/train_dga_classifier.py\<close>). A model is what its JSON file holds, so its fields are
  untyped values and scoring may raise. \<open>math.log2\<close> and \<open>math.exp\<close>, the random generator and
  numpy's gradient descent are parameters.
\<close>

section \<open>Features\<close>

definition substrings :: "string \<Rightarrow> nat \<Rightarrow> string list" where
  "substrings s n = map (\<lambda>i. take n (drop i s)) [0..<Suc (length s) - n]"

definition char_ngrams :: "nat list \<Rightarrow> string \<Rightarrow> string list" where
  "char_ngrams ns s = concat (map (substrings (CHR ''^'' # s @ ''$'')) ns)"

definition is_vowel :: "char \<Rightarrow> bool" where
  "is_vowel c \<longleftrightarrow> c \<in> set ''aeiou''"

definition consonant_step :: "int \<times> int \<Rightarrow> char \<Rightarrow> int \<times> int" where
  "consonant_step st c = (let (run, best) = st in
     if (is_lower c \<or> is_upper c) \<and> \<not> is_vowel c then (run + 1, max best (run + 1)) else (0, best))"

definition max_consonant_run :: "string \<Rightarrow> int" where
  "max_consonant_run s = snd (foldl consonant_step (0, 0) s)"

definition count_chars :: "(char \<Rightarrow> bool) \<Rightarrow> string \<Rightarrow> int" where
  "count_chars P s = int (length (filter P s))"

definition ngram_features :: "string \<Rightarrow> (string \<times> pyfloat) list" where
  "ngram_features s =
     (let grams = char_ngrams [2, 3] s; denom = max (int (length grams)) 1
      in map (\<lambda>(g, c). (''ng:'' @ g, idiv c denom)) (counter grams))"

definition scalar_features :: "(pyfloat \<Rightarrow> pyfloat) \<Rightarrow> string \<Rightarrow> (string \<times> pyfloat) list" where
  "scalar_features log2 s =
     (let n = int (length s) in
      [(''f:len'', idiv (min n 30) 30), (''f:vowel_ratio'', idiv (count_chars is_vowel s) n),
       (''f:digit_ratio'', idiv (count_chars is_digit s) n),
       (''f:max_consonant_run'', idiv (min (max_consonant_run s) 10) 10),
       (''f:entropy'', fdiv (min (entropy log2 s) 5) 5)])"

definition featurize :: "(pyfloat \<Rightarrow> pyfloat) \<Rightarrow> string \<Rightarrow> (string \<times> pyfloat) list" where
  "featurize log2 sld =
     (let s = str_lower sld in if s = [] then [] else ngram_features s @ scalar_features log2 s)"

section \<open>The model\<close>

record lr_model =
  lr_vocab :: pyval
  lr_weights :: pyval
  lr_bias :: pyval
  lr_threshold :: pyval
  lr_meta :: pyval

record lr_score =
  sc_is_dga :: bool
  sc_probability :: pyfloat
  sc_top :: "(string \<times> pyfloat) list"
  sc_threshold :: pyval

definition load_model :: "pyval \<Rightarrow> lr_model res" where
  "load_model m =
     bind_res (item m ''vocab'') (\<lambda>v. bind_res (item m ''weights'') (\<lambda>w. bind_res (item m ''bias'') (\<lambda>b.
     bind_res (get_default m ''threshold'' (JFloat (1 / 2))) (\<lambda>t. bind_res (get_default m ''meta'' (JObj [])) (\<lambda>meta.
       Inr \<lparr>lr_vocab = v, lr_weights = w, lr_bias = b, lr_threshold = t,
            lr_meta = (if truth meta then meta else JObj [])\<rparr>)))))"

text \<open>\<open>weights[idx]\<close>; negative positions count from the end.\<close>

definition weight_at :: "pyval \<Rightarrow> pyval \<Rightarrow> pyval res" where
  "weight_at w i =
     (case (w, i) of
        (JList ws, JInt k) \<Rightarrow>
          if 0 \<le> k \<and> k < int (length ws) then Inr (ws ! nat k)
          else if - int (length ws) \<le> k \<and> k < 0 then Inr (ws ! nat (int (length ws) + k))
          else Inl IndexError
      | (JList ws, JBool b) \<Rightarrow>
          if (if b then 1 else 0) < length ws then Inr (ws ! (if b then 1 else 0)) else Inl IndexError
      | _ \<Rightarrow> Inl (TypeError ''indices must be integers''))"

text \<open>Arithmetic of a value from the file with a float.\<close>

definition number :: "pyval \<Rightarrow> pyfloat res" where
  "number v = (if num_of v = None then Inl (TypeError ''unsupported operand type(s)'') else py_float v)"

definition times_float :: "pyval \<Rightarrow> pyfloat \<Rightarrow> pyfloat res" where
  "times_float v x = bind_res (number v) (\<lambda>r. Inr (fmul r x))"

definition plus_float :: "pyval \<Rightarrow> pyfloat \<Rightarrow> pyval res" where
  "plus_float v x = bind_res (number v) (\<lambda>r. Inr (JFloat (fadd r x)))"

fun score_loop ::
    "lr_model \<Rightarrow> (string \<times> pyfloat) list \<Rightarrow> pyval \<Rightarrow> (string \<times> pyfloat) list \<Rightarrow> (pyval \<times> (string \<times> pyfloat) list) res" where
  "score_loop m [] z contribs = Inr (z, contribs)"
| "score_loop m ((name, val) # fs) z contribs =
     bind_res (get_default (lr_vocab m) name JNull) (\<lambda>idx.
       if idx = JNull then score_loop m fs z contribs
       else bind_res (weight_at (lr_weights m) idx) (\<lambda>w. bind_res (times_float w val) (\<lambda>c.
            bind_res (plus_float z c) (\<lambda>z'.
              score_loop m fs z' (if c \<noteq> 0 then contribs @ [(name, pyround 4 c)] else contribs)))))"

definition sigmoid :: "(pyfloat \<Rightarrow> pyfloat) \<Rightarrow> pyfloat \<Rightarrow> pyfloat" where
  "sigmoid ex x = (if x < - 60 then 0 else if 60 < x then 1 else fdiv 1 (fadd 1 (ex (- x))))"

definition dga_score ::
    "(pyfloat \<Rightarrow> pyfloat) \<Rightarrow> (pyfloat \<Rightarrow> pyfloat) \<Rightarrow> lr_model \<Rightarrow> nat \<Rightarrow> string \<Rightarrow> lr_score res" where
  "dga_score log2 ex m top_k sld =
     bind_res (score_loop m (featurize log2 sld) (lr_bias m) []) (\<lambda>(z, contribs).
     bind_res (number z) (\<lambda>x. bind_res (number (lr_threshold m)) (\<lambda>t.
       let prob = sigmoid ex x in
       Inr \<lparr>sc_is_dga = t \<le> prob, sc_probability = pyround 4 prob,
            sc_top = take top_k (sort_key (\<lambda>p. - snd p) contribs), sc_threshold = lr_threshold m\<rparr>)))"

text \<open>The cached default model: the module variable is the state.\<close>

definition get_model ::
    "(string \<Rightarrow> pyval res option) \<Rightarrow> string \<Rightarrow> lr_model option \<Rightarrow> (lr_model option \<times> lr_model option) res" where
  "get_model read path cache =
     (case cache of Some m \<Rightarrow> Inr (Some m, cache)
      | None \<Rightarrow> (case read path of None \<Rightarrow> Inr (None, None)
          | Some r \<Rightarrow> bind_res r (\<lambda>v. bind_res (load_model v) (\<lambda>m. Inr (Some m, Some m)))))"

text \<open>As the DNS detector calls it, with a model that can be scored.\<close>

definition dga_scorer :: "(pyfloat \<Rightarrow> pyfloat) \<Rightarrow> (pyfloat \<Rightarrow> pyfloat) \<Rightarrow> lr_model \<Rightarrow> string \<Rightarrow> pyfloat \<times> string list" where
  "dga_scorer log2 ex m sld =
     (case dga_score log2 ex m 6 sld of Inr s \<Rightarrow> (sc_probability s, map fst (sc_top s)) | Inl e \<Rightarrow> (0, []))"

section \<open>Training data\<close>

text \<open>The random generator as state passing: a range, a position, distinct positions, a permutation.\<close>

record 's rng =
  rg_int :: "int \<Rightarrow> int \<Rightarrow> 's \<Rightarrow> int \<times> 's"
  rg_below :: "nat \<Rightarrow> 's \<Rightarrow> nat \<times> 's"
  rg_sample :: "nat \<Rightarrow> nat \<Rightarrow> 's \<Rightarrow> nat list \<times> 's"
  rg_shuffle :: "nat \<Rightarrow> 's \<Rightarrow> nat list \<times> 's"

fun draws :: "nat \<Rightarrow> ('s \<Rightarrow> 'a \<times> 's) \<Rightarrow> 's \<Rightarrow> 'a list \<times> 's" where
  "draws 0 f s = ([], s)"
| "draws (Suc n) f s = (let (x, s1) = f s; (xs, s2) = draws n f s1 in (x # xs, s2))"

definition choose_from :: "'s rng \<Rightarrow> 'a list \<Rightarrow> 's \<Rightarrow> 'a \<times> 's" where
  "choose_from g xs s = (let (i, s1) = rg_below g (length xs) s in (xs ! i, s1))"

definition shuffled :: "'s rng \<Rightarrow> 'a list \<Rightarrow> 's \<Rightarrow> 'a list \<times> 's" where
  "shuffled g xs s = (let (p, s1) = rg_shuffle g (length xs) s in (map (\<lambda>i. xs ! i) p, s1))"

definition alpha :: string where "alpha = ''abcdefghijklmnopqrstuvwxyz''"
definition alnum :: string where "alnum = alpha @ ''0123456789''"

definition word_lines :: "string list \<Rightarrow> string list" where
  "word_lines ls = map strip (filter (\<lambda>w. strip w \<noteq> [] \<and> \<not> starts_with w ''#'') ls)"

definition domain_lines :: "string list \<Rightarrow> string list" where
  "domain_lines ls = map str_lower (word_lines ls)"

definition gen_random :: "'s rng \<Rightarrow> nat \<Rightarrow> 's \<Rightarrow> string list \<times> 's" where
  "gen_random g n = draws n (\<lambda>s. let (l, s1) = rg_int g 7 15 s in draws (nat l) (choose_from g alpha) s1)"

definition gen_random_alnum :: "'s rng \<Rightarrow> nat \<Rightarrow> 's \<Rightarrow> string list \<times> 's" where
  "gen_random_alnum g n = draws n (\<lambda>s. let (l, s1) = rg_int g 8 20 s in draws (nat l) (choose_from g alnum) s1)"

definition short_words :: "string list \<Rightarrow> string list" where
  "short_words ws = filter (\<lambda>w. 3 \<le> length w \<and> length w \<le> 8) ws"

definition gen_dictionary :: "'s rng \<Rightarrow> string list \<Rightarrow> nat \<Rightarrow> 's \<Rightarrow> (string list \<times> 's) res" where
  "gen_dictionary g ws n s =
     (let short = short_words ws in
      if short = [] \<and> 0 < n then Inl IndexError
      else Inr (draws n (\<lambda>s. let (k, s1) = choose_from g [2, 2, 2, 3] s; (ps, s2) = draws k (choose_from g short) s1
                              in (concat ps, s2)) s))"

record training_set =
  ts_samples :: "(string \<times> int) list"
  ts_negatives :: nat
  ts_positives :: nat

definition build_dataset :: "'s rng \<Rightarrow> string list \<Rightarrow> string list \<Rightarrow> 's \<Rightarrow> training_set res" where
  "build_dataset g ws benign s =
     (let (picked, s1) = rg_sample g (length ws) (min 12000 (length ws)) s;
          neg = first_by id {} (benign @ map (\<lambda>i. ws ! i) picked);
          target = length neg; per = target div 3;
          (pos1, s2) = gen_random g per s1; (pos2, s3) = gen_random_alnum g per s2
      in bind_res (gen_dictionary g ws (target - 2 * per) s3) (\<lambda>(pos3, s4).
         let pos = pos1 @ pos2 @ pos3;
             (xs, s5) = shuffled g (map (\<lambda>w. (w, 0)) neg @ map (\<lambda>w. (w, 1)) pos) s4
         in Inr \<lparr>ts_samples = xs, ts_negatives = length neg, ts_positives = length pos\<rparr>))"

section \<open>Vocabulary, vectors and metrics\<close>

definition document_frequencies :: "(pyfloat \<Rightarrow> pyfloat) \<Rightarrow> (string \<times> int) list \<Rightarrow> (string, int) dict" where
  "document_frequencies log2 samples = counter (concat (map (\<lambda>p. dict_keys (featurize log2 (fst p))) samples))"

definition kept_features :: "(pyfloat \<Rightarrow> pyfloat) \<Rightarrow> int \<Rightarrow> nat \<Rightarrow> (string \<times> int) list \<Rightarrow> string list" where
  "kept_features log2 min_df max_features samples =
     (let df = document_frequencies log2 samples;
          scalars = filter (\<lambda>n. starts_with n ''f:'') (dict_keys df);
          ngrams = filter (\<lambda>(n, c). starts_with n ''ng:'' \<and> min_df \<le> c) df
      in scalars @ map fst (take max_features (sort_key (\<lambda>p. - snd p) ngrams)))"

definition build_vocab :: "(pyfloat \<Rightarrow> pyfloat) \<Rightarrow> int \<Rightarrow> nat \<Rightarrow> (string \<times> int) list \<Rightarrow> (string \<times> nat) list" where
  "build_vocab log2 min_df max_features samples =
     (let names = sort (kept_features log2 min_df max_features samples) in zip names [0..<length names])"

definition feature_row :: "(pyfloat \<Rightarrow> pyfloat) \<Rightarrow> (pyfloat \<Rightarrow> pyfloat) \<Rightarrow> (string \<times> nat) list \<Rightarrow> string \<Rightarrow> pyfloat list" where
  "feature_row f32 log2 vocab w =
     foldl (\<lambda>row (name, val). case map_of vocab name of None \<Rightarrow> row | Some j \<Rightarrow> row[j := f32 val])
       (replicate (length vocab) 0) (featurize log2 w)"

definition vectorize ::
    "(pyfloat \<Rightarrow> pyfloat) \<Rightarrow> (pyfloat \<Rightarrow> pyfloat) \<Rightarrow> (string \<times> int) list \<Rightarrow> (string \<times> nat) list \<Rightarrow> pyfloat list list \<times> pyfloat list" where
  "vectorize f32 log2 samples vocab =
     (map (\<lambda>p. feature_row f32 log2 vocab (fst p)) samples, map (\<lambda>p. of_int (snd p)) samples)"

definition count_pairs :: "bool \<Rightarrow> pyfloat \<Rightarrow> (bool \<times> pyfloat) list \<Rightarrow> int" where
  "count_pairs p y ps = int (length (filter (\<lambda>q. q = (p, y)) ps))"

text \<open>\<open>evaluate\<close> from the probabilities that numpy computes for the rows.\<close>

definition evaluate :: "pyfloat \<Rightarrow> pyfloat list \<Rightarrow> pyfloat list \<Rightarrow> pyval res" where
  "evaluate thr probs ys =
     (if ys = [] then Inl ZeroDivisionError
      else let ps = zip (map (\<lambda>p. thr \<le> p) probs) ys;
               tp = count_pairs True 1 ps; tn = count_pairs False 0 ps;
               fp = count_pairs True 0 ps; fn = count_pairs False 1 ps
           in Inr (JObj [(''accuracy'', JFloat (pyround 4 (idiv (tp + tn) (int (length ys))))),
                (''precision'', JFloat (pyround 4 (if tp + fp \<noteq> 0 then idiv tp (tp + fp) else 0))),
                (''recall'', JFloat (pyround 4 (if tp + fn \<noteq> 0 then idiv tp (tp + fn) else 0)))]))"

section \<open>Training\<close>

text \<open>
  What numpy does: the gradient descent over rows of a given width, to weights and bias, and the
  probabilities of rows; \<open>te_f32\<close> is the conversion to single precision.
\<close>

record train_env =
  te_log2 :: "pyfloat \<Rightarrow> pyfloat"
  te_f32 :: "pyfloat \<Rightarrow> pyfloat"
  te_train :: "nat \<Rightarrow> pyfloat list list \<times> pyfloat list \<Rightarrow> pyfloat list \<times> pyfloat"
  te_predict :: "pyfloat list list \<Rightarrow> pyfloat list \<Rightarrow> pyfloat \<Rightarrow> pyfloat list"
  te_now :: string

definition split_at :: "nat \<Rightarrow> nat" where
  "split_at n = nat \<lfloor>fmul (of_nat n) (rnd (85 / 100))\<rfloor>"

definition dataset_obj :: "training_set \<Rightarrow> pyval" where
  "dataset_obj ts = JObj [(''negatives'', JInt (int (ts_negatives ts))), (''positives'', JInt (int (ts_positives ts))),
     (''families'', JList (map JStr [''benign_domains'', ''english_words'', ''random_char'', ''random_alnum'', ''dictionary_concat'']))]"

definition training_note :: string where
  "training_note = ''Positives are faithful reproductions of published DGA family structures (random + dictionary-concat), not any ''
     @ ''single botnet seed. Replace with labeled feeds and re-run to harden. Generalisation to real DGAs is asserted in ''
     @ ''tests/test_dga_classifier.py against published IOCs.''"

definition model_doc :: "(string \<times> nat) list \<Rightarrow> pyfloat list \<Rightarrow> pyfloat \<Rightarrow> pyval \<Rightarrow> pyval" where
  "model_doc vocab ws b meta =
     JObj [(''model'', JStr ''logistic_regression''), (''features'', JStr ''char_ngrams(2,3)+boundary+linguistic_scalars''),
       (''vocab'', JObj (map (\<lambda>(n, j). (n, JInt (int j))) vocab)),
       (''weights'', JList (map (\<lambda>x. JFloat (pyround 6 x)) ws)), (''bias'', JFloat (pyround 6 b)),
       (''threshold'', JFloat (1 / 2)), (''meta'', meta)]"

definition train_model :: "'s rng \<Rightarrow> train_env \<Rightarrow> string list \<Rightarrow> string list \<Rightarrow> 's \<Rightarrow> pyval res" where
  "train_model g en ws benign s =
     bind_res (build_dataset g (word_lines ws) (domain_lines benign) s) (\<lambda>ts.
       let samples = fst (shuffled g (ts_samples ts) s);
           cut = split_at (length samples); tr = take cut samples; va = drop cut samples;
           vocab = build_vocab (te_log2 en) 20 6000 tr;
           vt = vectorize (te_f32 en) (te_log2 en) tr vocab; vv = vectorize (te_f32 en) (te_log2 en) va vocab;
           (w, b) = te_train en (length vocab) vt
       in bind_res (evaluate (1 / 2) (te_predict en (fst vt) w b) (snd vt)) (\<lambda>mt.
          bind_res (evaluate (1 / 2) (te_predict en (fst vv) w b) (snd vv)) (\<lambda>mv.
          Inr (model_doc vocab w b
            (JObj [(''trained_utc'', JStr (te_now en)), (''seed'', JInt 1337), (''n_train'', JInt (int (length tr))),
              (''n_val'', JInt (int (length va))), (''n_features'', JInt (int (length vocab))),
              (''data_provenance'', dataset_obj ts), (''metrics'', JObj [(''train'', mt), (''val'', mv)]),
              (''note'', JStr training_note)])))))"

section \<open>Scoring, as a sum\<close>

text \<open>The terms of the sum that the score is: weight times value for every known feature.\<close>

definition score_terms :: "(string \<times> nat) list \<Rightarrow> pyfloat list \<Rightarrow> (string \<times> pyfloat) list \<Rightarrow> (string \<times> pyfloat) list" where
  "score_terms vocab ws fs =
     List.map_filter (\<lambda>(n, v). map_option (\<lambda>j. (n, fmul (ws ! j) v)) (map_of vocab n)) fs"

definition explained :: "(string \<times> pyfloat) list \<Rightarrow> (string \<times> pyfloat) list" where
  "explained ts = map (\<lambda>(n, c). (n, pyround 4 c)) (filter (\<lambda>(n, c). c \<noteq> 0) ts)"

lemma map_of_ints: "map_of (map (\<lambda>(n, j). (n, JInt (int j))) vocab) k = map_option (\<lambda>j. JInt (int j)) (map_of vocab k)"
  by (induction vocab) auto

lemma score_loop_terms:
  assumes "lr_vocab m = JObj (map (\<lambda>(n, j). (n, JInt (int j))) vocab)" "lr_weights m = JList (map JFloat ws)"
    and "\<forall>j \<in> snd ` set vocab. j < length ws"
  shows "score_loop m fs (JFloat z) cs =
     Inr (JFloat (foldl fadd z (map snd (score_terms vocab ws fs))), cs @ explained (score_terms vocab ws fs))"
proof (induction fs arbitrary: z cs)
  case Nil
  then show ?case by (simp add: score_terms_def explained_def)
next
  case (Cons p fs)
  obtain n v where p: "p = (n, v)" by (cases p)
  show ?case
  proof (cases "map_of vocab n")
    case None
    then show ?thesis using Cons.IH by (simp add: p assms(1) map_of_ints score_terms_def List.map_filter_simps)
  next
    case (Some j)
    then have "j < length ws" using assms(3) by (force dest: map_of_SomeD)
    then show ?thesis
      using Some Cons.IH
      by (simp add: p assms(1,2) map_of_ints weight_at_def times_float_def plus_float_def number_def
          score_terms_def List.map_filter_simps explained_def)
  qed
qed

lemma sigmoid_unit: "(\<And>x. 0 \<le> ex x) \<Longrightarrow> unit_interval (sigmoid ex x)"
proof -
  assume e: "\<And>x. 0 \<le> ex x"
  have "1 \<le> fadd 1 (ex (- x))" using rnd_mono [of 1 "1 + ex (- x)"] e by (simp add: fadd_def)
  then have "unit_interval (1 / fadd 1 (ex (- x)))" by (simp add: unit_interval_def)
  then have "unit_interval (fdiv 1 (fadd 1 (ex (- x))))" unfolding fdiv_def by (rule rnd_unit)
  then show ?thesis by (simp add: sigmoid_def unit_interval_def)
qed

lemma score_of_doc:
  assumes "\<forall>j \<in> snd ` set vocab. j < length ws" "\<And>x. 0 \<le> ex x"
  defines "rs \<equiv> map (pyround 6) ws"
  shows "\<exists>m. load_model (model_doc vocab ws b meta) = Inr m \<and> (\<forall>k sld.
     let ts = score_terms vocab rs (featurize log2 sld); prob = sigmoid ex (foldl fadd (pyround 6 b) (map snd ts)) in
     dga_score log2 ex m k sld = Inr \<lparr>sc_is_dga = 1 / 2 \<le> prob, sc_probability = pyround 4 prob,
       sc_top = take k (sort_key (\<lambda>p. - snd p) (explained ts)), sc_threshold = JFloat (1 / 2)\<rparr>
     \<and> unit_interval prob)"
proof -
  obtain m where m: "load_model (model_doc vocab ws b meta) = Inr m"
    "lr_vocab m = JObj (map (\<lambda>(n, j). (n, JInt (int j))) vocab)" "lr_weights m = JList (map JFloat rs)"
    "lr_bias m = JFloat (pyround 6 b)" "lr_threshold m = JFloat (1 / 2)"
    by (simp add: load_model_def model_doc_def rs_def o_def)
  have "\<forall>j \<in> snd ` set vocab. j < length rs" using assms(1) by (simp add: rs_def)
  from score_loop_terms [OF m(2,3) this] show ?thesis
    using m sigmoid_unit [OF assms(2)] by (simp add: dga_score_def number_def Let_def)
qed

lemma build_vocab_positions:
  "snd ` set (build_vocab log2 min_df k samples) = {0..<length (build_vocab log2 min_df k samples)}"
proof -
  have "map snd (build_vocab log2 min_df k samples) = [0..<length (build_vocab log2 min_df k samples)]"
    by (simp add: build_vocab_def Let_def)
  then show ?thesis by (metis set_map set_upt)
qed

lemma train_model_Inr:
  assumes "train_model g en ws benign s = Inr doc"
  shows "\<exists>tr w b meta. let vocab = build_vocab (te_log2 en) 20 6000 tr in
     (w, b) = te_train en (length vocab) (vectorize (te_f32 en) (te_log2 en) tr vocab) \<and> doc = model_doc vocab w b meta"
  using assms unfolding train_model_def bind_res_Inr_iff Let_def split_beta
  by (metis prod.collapse sum.inject(2))

text \<open>The data set is balanced, whatever the generator draws.\<close>

lemma draws_length: "length (fst (draws n f s)) = n"
  by (induction n arbitrary: s) (simp_all add: split_beta Let_def)

lemma dataset_balanced:
  assumes "build_dataset g ws benign s = Inr ts"
  shows "ts_positives ts = ts_negatives ts"
proof -
  let ?neg = "first_by id {} (benign @ map ((!) ws) (fst (rg_sample g (length ws) (min 12000 (length ws)) s)))"
  have g: "length pos = n" if "gen_dictionary g ws n s = Inr (pos, s')" for n s pos s'
    using that by (auto simp: gen_dictionary_def Let_def split: if_splits) (metis fst_conv draws_length)
  have d: "length (fst (gen_random g n s)) = n" "length (fst (gen_random_alnum g n s)) = n" for n s
    by (simp_all add: gen_random_def gen_random_alnum_def draws_length)
  show ?thesis
    using assms d unfolding build_dataset_def Let_def split_beta bind_res_Inr_iff
    by (auto dest!: g) 
qed

text \<open>The cache ignores the path it is asked for.\<close>

lemma get_model_ignores_path:
  "get_model read path None = Inr (Some m, cache) \<Longrightarrow> get_model read other cache = Inr (Some m, cache)"
  by (auto simp: get_model_def bind_res_Inr_iff split: option.splits)

section \<open>Properties\<close>

text \<open>
  C38. Whatever the training data, the generator and the descent are, a model that training writes can be
  loaded and scores every label without an exception: the probability is the logistic function of the
  bias plus weight times value over the known features and lies in [0,1], the verdict compares it
  with one half before rounding, and the explanation is the largest terms of exactly that sum.
\<close>

theorem trained_model_scores:
  assumes "train_model g en ws benign s = Inr doc"
    and "\<And>d v. length (fst (te_train en d v)) = d" and "\<And>x. 0 \<le> ex x"
  shows "\<exists>m vocab w b meta. doc = model_doc vocab w b meta \<and> load_model doc = Inr m \<and> (\<forall>k sld.
     let ts = score_terms vocab (map (pyround 6) w) (featurize (te_log2 en) sld);
         prob = sigmoid ex (foldl fadd (pyround 6 b) (map snd ts)) in
     dga_score (te_log2 en) ex m k sld = Inr \<lparr>sc_is_dga = 1 / 2 \<le> prob, sc_probability = pyround 4 prob,
       sc_top = take k (sort_key (\<lambda>p. - snd p) (explained ts)), sc_threshold = JFloat (1 / 2)\<rparr>
     \<and> unit_interval prob)"
proof -
  obtain tr w b meta where t: "(w, b) = te_train en (length (build_vocab (te_log2 en) 20 6000 tr))
      (vectorize (te_f32 en) (te_log2 en) tr (build_vocab (te_log2 en) 20 6000 tr))"
    and doc: "doc = model_doc (build_vocab (te_log2 en) 20 6000 tr) w b meta"
    using train_model_Inr [OF assms(1)] by (auto simp: Let_def)
  have "length w = length (build_vocab (te_log2 en) 20 6000 tr)" using assms(2) by (metis fst_conv t)
  then have "\<forall>j \<in> snd ` set (build_vocab (te_log2 en) 20 6000 tr). j < length w"
    unfolding build_vocab_positions by simp
  from score_of_doc [where ex = ex, OF this assms(3), of b meta "te_log2 en"] show ?thesis unfolding doc by blast
qed

definition first_rng :: "unit rng" where
  "first_rng = \<lparr>rg_int = (\<lambda>a b s. (a, s)), rg_below = (\<lambda>n s. (0, s)), rg_sample = (\<lambda>n k s. ([0..<k], s)),
     rg_shuffle = (\<lambda>n s. ([0..<n], s))\<rparr>"

definition flat_training :: train_env where
  "flat_training = \<lparr>te_log2 = (\<lambda>x. 0), te_f32 = (\<lambda>x. x), te_train = (\<lambda>d v. (replicate d 1, 0)),
     te_predict = (\<lambda>rows w b. map (\<lambda>r. 1) rows), te_now = ''now''\<rparr>"

definition sample_training :: "pyval res" where
  "sample_training = train_model first_rng flat_training [''abc''] [''x'', ''y'', ''z''] ()"

lemma sample_dataset: "build_dataset first_rng (word_lines [''abc'']) (domain_lines [''x'', ''y'', ''z'']) ()
   = Inr \<lparr>ts_samples = [(''x'', 0), (''y'', 0), (''z'', 0), (''abc'', 0), (''aaaaaaa'', 1), (''aaaaaaaa'', 1),
       (''abcabc'', 1), (''abcabc'', 1)], ts_negatives = 4, ts_positives = 4\<rparr>"
  by code_simp

lemma sample_split: "split_at (Suc (Suc (Suc (Suc (Suc (Suc (Suc (Suc 0)))))))) = 6"
  by code_simp

lemma sample_shuffle: "rg_shuffle first_rng n u = ([0..<n], u)"
  by (simp add: first_rng_def)

lemma sample_training_done: "\<exists>doc. sample_training = Inr doc"
  by (simp add: sample_training_def train_model_def sample_dataset shuffled_def sample_shuffle sample_split
      evaluate_def vectorize_def split_beta Let_def) 

lemma trained_model_witness:
  "\<exists>doc m. sample_training = Inr doc \<and> load_model doc = Inr m
     \<and> (\<exists>sc. dga_score (\<lambda>x. 0) (\<lambda>x. 1) m 6 ''winst'' = Inr sc)"
proof -
  obtain doc where doc: "sample_training = Inr doc" using sample_training_done by blast
  have "\<And>d v. length (fst (te_train flat_training d v)) = d" by (simp add: flat_training_def)
  from trained_model_scores [OF doc [unfolded sample_training_def] this, of "\<lambda>x. 1"]
  show ?thesis using doc by (auto simp: Let_def flat_training_def)
qed

end
