(* ===== verification/StaticGen.thy ===== *)
theory StaticGen
  imports StaticPrior FileTree
begin

text \<open>
  The generator of the static prior (\<open>scripts/generate-static-prior.py\<close>) and the reader that
  the deployed pipeline has for its documents (the patch 0004 to \<open>pipeline/static_prior.py\<close>; without
  it the reader looks for other keys). The JSON decoder, SHA-256 and the schema validator are
  parameters.
\<close>

section \<open>Classification of a text\<close>

definition is_letter :: "char \<Rightarrow> bool" where
  "is_letter c \<longleftrightarrow> is_lower c \<or> is_upper c"

definition is_alnum :: "char \<Rightarrow> bool" where
  "is_alnum c \<longleftrightarrow> is_letter c \<or> is_digit c"

definition is_hex :: "char \<Rightarrow> bool" where
  "is_hex c \<longleftrightarrow> c \<in> set ''0123456789abcdefABCDEF''"

text \<open>\<open>urlparse(v).scheme\<close>.\<close>

definition url_scheme :: "string \<Rightarrow> string" where
  "url_scheme url =
     (case split_once (CHR '':'') (filter (\<lambda>c. of_char c \<notin> {9, 10, 13 :: nat}) url) of
        None \<Rightarrow> []
      | Some (a, b) \<Rightarrow>
          if a \<noteq> [] \<and> is_letter (hd a) \<and> (\<forall>c \<in> set a. is_scheme_char c) then str_lower a else [])"

definition hash_shaped :: "string \<Rightarrow> bool" where
  "hash_shaped v \<longleftrightarrow> length v \<in> {32, 40, 64} \<and> list_all is_hex v"

text \<open>One at-sign, no space, and a dot inside the part after it.\<close>

definition email_shaped :: "string \<Rightarrow> bool" where
  "email_shaped v \<longleftrightarrow>
     (case split_on (CHR ''@'') v of
        [a, b] \<Rightarrow> a \<noteq> [] \<and> list_all (\<lambda>c. \<not> is_space c) (a @ b) \<and> CHR ''.'' \<in> set (butlast (tl b))
      | _ \<Rightarrow> False)"

definition label_shaped :: "string \<Rightarrow> bool" where
  "label_shaped l \<longleftrightarrow> l \<noteq> [] \<and> length l \<le> 63 \<and> list_all (\<lambda>c. is_alnum c \<or> c = CHR ''-'') l
     \<and> is_alnum (hd l) \<and> is_alnum (last l)"

definition domain_shaped :: "string \<Rightarrow> bool" where
  "domain_shaped v \<longleftrightarrow>
     (let ls = split_on (CHR ''.'') v in
      1 \<le> length v \<and> length v \<le> 253 \<and> 2 \<le> length ls \<and> list_all label_shaped (butlast ls)
      \<and> list_all is_letter (last ls) \<and> 2 \<le> length (last ls) \<and> length (last ls) \<le> 63)"

definition classify :: "string \<Rightarrow> (string \<times> string) option res" where
  "classify value =
     (let v = strip value in
      if ip_address v \<noteq> None then Inr (Some (''ip'', v))
      else bind_res (url_hostname v) (\<lambda>host.
        if url_scheme v \<in> {''http'', ''https'', ''ftp''} \<and> host \<noteq> [] then Inr (Some (''url'', v))
        else if hash_shaped v then Inr (Some (''hash'', str_lower v))
        else if email_shaped v then Inr (Some (''email'', str_lower v))
        else if domain_shaped v then Inr (Some (''domain'', rstrip_char (CHR ''.'') (str_lower v)))
        else Inr None))"

section \<open>Walking a report\<close>

record gen_state =
  gs_iocs :: "(string \<times> string \<times> pyval) list"
  gs_caps :: "string list"
  gs_family :: pyval

text \<open>\<open>T\d{4}(?:\.\d{3})?\<close>.\<close>

definition technique_shaped :: "string \<Rightarrow> bool" where
  "technique_shaped v \<longleftrightarrow>
     length v \<in> {5, 9} \<and> take 1 v = ''T'' \<and> list_all is_digit (take 4 (drop 1 v))
     \<and> (length v = 9 \<longrightarrow> v ! 5 = CHR ''.'' \<and> list_all is_digit (drop 6 v))"

definition ioc_tokens :: "string list" where
  "ioc_tokens = [''ioc'', ''url'', ''domain'', ''host'', ''ip'', ''email'', ''hash'']"

definition explicit_family :: "(string \<times> pyval) list \<Rightarrow> pyval \<Rightarrow> pyval" where
  "explicit_family d old =
     (let x = obj_of (get d ''family_attribution'') in
      if is_obj (get d ''family_attribution'') \<and> truth (get x ''family'') \<and> truth (get x ''evidence'')
      then JObj [(''family'', JStr (py_str (get x ''family''))), (''evidence'', get x ''evidence'')] else old)"

text \<open>An exception keeps what the walk has collected before it.\<close>

definition walk_text :: "string \<Rightarrow> pyval \<Rightarrow> string \<Rightarrow> gen_state \<Rightarrow> gen_state \<times> py_error option" where
  "walk_text key prov v st =
     (let st1 = (if technique_shaped v then st\<lparr>gs_caps := gs_caps st @ [v]\<rparr> else st) in
      if list_ex (\<lambda>t. contains t key) ioc_tokens
      then (case classify v of
              Inl e \<Rightarrow> (st1, Some e)
            | Inr None \<Rightarrow> (st1, None)
            | Inr (Some (t, x)) \<Rightarrow> (st1\<lparr>gs_iocs := gs_iocs st1 @ [(t, x, prov)]\<rparr>, None))
      else (st1, None))"

fun walk :: "pyval \<Rightarrow> string \<Rightarrow> pyval \<Rightarrow> gen_state \<Rightarrow> gen_state \<times> py_error option"
  and walk_items :: "(string \<times> pyval) list \<Rightarrow> pyval \<Rightarrow> gen_state \<Rightarrow> gen_state \<times> py_error option"
  and walk_list :: "pyval list \<Rightarrow> string \<Rightarrow> pyval \<Rightarrow> gen_state \<Rightarrow> gen_state \<times> py_error option" where
  "walk (JObj d) key prov st = walk_items d prov (st\<lparr>gs_family := explicit_family d (gs_family st)\<rparr>)"
| "walk (JList xs) key prov st = walk_list xs key prov st"
| "walk (JStr s) key prov st = walk_text key prov s st"
| "walk _ key prov st = (st, None)"
| "walk_items [] prov st = (st, None)"
| "walk_items ((k, v) # d) prov st =
     (case walk v (str_lower k) prov st of
        (st', Some e) \<Rightarrow> (st', Some e) | (st', None) \<Rightarrow> walk_items d prov st')"
| "walk_list [] key prov st = (st, None)"
| "walk_list (x # xs) key prov st =
     (case walk x key prov st of
        (st', Some e) \<Rightarrow> (st', Some e) | (st', None) \<Rightarrow> walk_list xs key prov st')"

section \<open>The document\<close>

record gen_env =
  gn_load :: "string \<Rightarrow> pyval res"
  gn_hash :: "string \<Rightarrow> string"
  gn_validate :: "pyval \<Rightarrow> unit res"

text \<open>\<open>analysis.glob("*.json")\<close>, sorted.\<close>

definition report_files :: "files \<Rightarrow> files" where
  "report_files b =
     sort_key (\<lambda>(p, c). path_key p)
       (filter (\<lambda>(p, c). starts_with p ''analysis/'' \<and> CHR ''/'' \<notin> set (drop 9 p) \<and> ends_with p ''.json'') b)"

fun error_text :: "py_error \<Rightarrow> string" where
  "error_text (ValueError s) = s"
| "error_text (OSError s) = s"
| "error_text (TypeError s) = s"
| "error_text (KeyError s) = s"
| "error_text (RuntimeError s) = s"
| "error_text (AttributeError s) = s"
| "error_text (SystemExit s) = s"
| "error_text _ = []"

fun is_value_error :: "py_error \<Rightarrow> bool" where
  "is_value_error (ValueError s) = True"
| "is_value_error (OSError s) = True"
| "is_value_error _ = False"

definition artifact_obj :: "(string \<Rightarrow> string) \<Rightarrow> string \<times> string \<Rightarrow> pyval" where
  "artifact_obj H f = JObj [(''path'', JStr (fst f)), (''sha256'', JStr (H (snd f)))]"

definition source_obj :: "(string \<Rightarrow> string) \<Rightarrow> string \<times> string \<Rightarrow> pyval" where
  "source_obj H f = JObj [(''source_path'', JStr (fst f)), (''source_sha256'', JStr (H (snd f)))]"

text \<open>One report: \<open>OSError\<close> and \<open>ValueError\<close> become warnings, anything else ends the run.\<close>

definition report_step :: "gen_env \<Rightarrow> gen_state \<times> string list \<Rightarrow> string \<times> string \<Rightarrow> (gen_state \<times> string list) res" where
  "report_step en acc f =
     (let (st, ws) = acc;
          (st', err) = (case gn_load en (snd f) of Inl e \<Rightarrow> (st, Some e) | Inr v \<Rightarrow> walk v [] (source_obj (gn_hash en) f) st)
      in case err of
           None \<Rightarrow> Inr (st', ws)
         | Some e \<Rightarrow> if is_value_error e then Inr (st', ws @ [fst f @ '': '' @ error_text e]) else Inl e)"

fun report_loop :: "gen_env \<Rightarrow> files \<Rightarrow> gen_state \<times> string list \<Rightarrow> (gen_state \<times> string list) res" where
  "report_loop en [] acc = Inr acc"
| "report_loop en (f # fs) acc = bind_res (report_step en acc f) (report_loop en fs)"

definition ioc_obj :: "(string \<times> string) \<times> pyval \<Rightarrow> pyval" where
  "ioc_obj p = JObj [(''type'', JStr (fst (fst p))), (''value'', JStr (snd (fst p))), (''provenance'', snd p)]"

text \<open>\<open>{(item["type"], item["value"]): item ...}\<close>: the last item of a key at the place of the first.\<close>

definition dedup_iocs :: "(string \<times> string \<times> pyval) list \<Rightarrow> ((string \<times> string) \<times> pyval) list" where
  "dedup_iocs xs = foldl (\<lambda>d (t, v, p). dict_set (t, v) p d) [] xs"

definition prior_doc :: "gen_env \<Rightarrow> string \<Rightarrow> files \<Rightarrow> gen_state \<Rightarrow> string list \<Rightarrow> pyval" where
  "prior_doc en sample fs st ws =
     JObj [(''schema_version'', JStr ''1.0''), (''sample_sha256'', JStr sample),
       (''capa_capabilities'', JList (map JStr (sort (remdups (gs_caps st))))),
       (''iocs'', JList (map ioc_obj (dedup_iocs (gs_iocs st)))),
       (''family_attribution'', gs_family st),
       (''source_artifacts'', JList (map (artifact_obj (gn_hash en)) fs)),
       (''extraction_warnings'', JList (map JStr ws))]"

definition generate_prior :: "gen_env \<Rightarrow> files \<Rightarrow> pyval res" where
  "generate_prior en b =
     bind_res (read_json (gn_load en) b ''sample.meta.json'') (\<lambda>meta.
     let fs = report_files b in
     bind_res (report_loop en fs (\<lparr>gs_iocs = [], gs_caps = [], gs_family = JNull\<rparr>, [])) (\<lambda>(st, ws).
     bind_res (item meta ''sample_sha256'') (\<lambda>s.
     let doc = prior_doc en (str_lower (py_str s)) fs st ws in
     bind_res (gn_validate en doc) (\<lambda>_. Inr doc))))"

section \<open>The reader of the deployed pipeline\<close>

definition patched_family :: "(string \<times> pyval) list \<Rightarrow> pyval" where
  "patched_family d =
     (let fa = get d ''family_attribution'';
          explicit = (if is_obj fa \<and> truth (get (obj_of fa) ''evidence'') then get (obj_of fa) ''family'' else JNull)
      in if fa \<noteq> JNull then explicit else get d ''family'')"

definition patched_capabilities :: "(string \<times> pyval) list \<Rightarrow> pyval" where
  "patched_capabilities d =
     (if truth (get d ''capa_capabilities'') then get d ''capa_capabilities'' else get d ''capabilities'')"

definition patched_indicators :: "(string \<times> pyval) list \<Rightarrow> pyval" where
  "patched_indicators d = (case map_of d ''iocs'' of Some v \<Rightarrow> v | None \<Rightarrow> get d ''c2_indicators'')"

definition ingest_prior_patched :: "pyval \<Rightarrow> (static_prior \<times> string list) res" where
  "ingest_prior_patched raw =
     (if \<not> is_obj raw then Inl (AttributeError ''get'')
      else let d = obj_of raw in
        bind_res (iterate (patched_capabilities d)) (\<lambda>caps.
        bind_res (iterate (patched_indicators d)) (\<lambda>xs.
        bind_res (prior_loop 0 xs [] []) (\<lambda>(inds, errs).
          Inr (\<lparr>sp_sample = get d ''sample_sha256'', sp_family = patched_family d,
                sp_capabilities = caps, sp_indicators = inds\<rparr>, errs)))))"

section \<open>Lemmas\<close>

definition trimmed :: "string \<Rightarrow> bool" where
  "trimmed s \<longleftrightarrow> s = [] \<or> (\<not> is_space (hd s) \<and> \<not> is_space (last s))"

lemma trimmed_rev: "trimmed (rev s) = trimmed s"
  by (auto simp: trimmed_def hd_rev last_rev)

lemma last_dropWhile: "dropWhile P s \<noteq> [] \<Longrightarrow> last (dropWhile P s) = last s"
  by (induction s) auto

lemma strip_trimmed: "trimmed (strip s)"
proof -
  have "trimmed (dropWhile is_space (rev (dropWhile is_space s)))"
  proof (cases "dropWhile is_space (rev (dropWhile is_space s)) = []")
    case False
    then have "dropWhile is_space s \<noteq> []" by (metis dropWhile.simps(1) rev.simps(1))
    then have "\<not> is_space (last (dropWhile is_space (rev (dropWhile is_space s))))"
      using last_dropWhile [OF False] hd_dropWhile [of is_space s] by (simp add: last_rev)
    then show ?thesis using hd_dropWhile [OF False] by (simp add: trimmed_def)
  qed (simp add: trimmed_def)
  then show ?thesis by (simp add: strip_def trimmed_rev)
qed

lemma dropWhile_hd: "s = [] \<or> \<not> P (hd s) \<Longrightarrow> dropWhile P s = s"
  by (cases s) auto

lemma trimmed_strip: "trimmed s \<Longrightarrow> strip s = s"
  by (cases "s = []") (simp_all add: strip_def trimmed_def dropWhile_hd hd_rev)

lemma is_space_lower: "is_space (lower_char c) = is_space c"
  by (auto simp: is_space_def lower_char_def is_upper_def Let_def)

lemma trimmed_lower: "trimmed s \<Longrightarrow> trimmed (str_lower s)"
  by (cases "s = []") (auto simp: trimmed_def str_lower_def hd_map last_map is_space_lower)

lemma last_split_on: "last (split_on c s) \<noteq> [] \<Longrightarrow> s \<noteq> [] \<and> last s = last (last (split_on c s))"
proof (induction s)
  case (Cons x s)
  obtain p ps where p: "split_on c s = p # ps" using split_on_nonempty by (metis list.exhaust)
  show ?case
  proof (cases "last (split_on c s) = []")
    case True
    then have "s = []" if "ps = []" using that p join_split_on [of c s] by simp
    then show ?thesis using Cons.prems True p by (auto split: if_splits)
  next
    case False
    then show ?thesis using Cons.IH Cons.prems p by (auto split: if_splits)
  qed
qed simp

lemma letter_lower:
  assumes "is_letter c"
  shows "\<not> is_space c" "lower_char c \<noteq> CHR ''.''"
proof -
  have c: "65 \<le> (of_char c :: nat)" "(of_char c :: nat) \<le> 122"
    using assms by (auto simp: is_letter_def is_lower_def is_upper_def Let_def)
  then show "\<not> is_space c" by (simp add: is_space_def Let_def)
  have "(of_char (lower_char c) :: nat) \<ge> 65"
    using c by (auto simp: lower_char_def is_upper_def Let_def)
  then show "lower_char c \<noteq> CHR ''.''" by auto
qed

lemma domain_last:
  assumes "domain_shaped v"
  shows "v \<noteq> []" "is_letter (last v)"
proof -
  let ?l = "last (split_on (CHR ''.'') v)"
  have l: "list_all is_letter ?l" "?l \<noteq> []" using assms by (auto simp: domain_shaped_def Let_def)
  from last_split_on [OF l(2)] l show "v \<noteq> []" "is_letter (last v)" by (simp_all add: list_all_iff)
qed

lemma rstrip_char_id: "s \<noteq> [] \<Longrightarrow> last s \<noteq> c \<Longrightarrow> rstrip_char c s = s"
  by (simp add: rstrip_char_def dropWhile_hd hd_rev)

lemma domain_rstrip: "domain_shaped v \<Longrightarrow> rstrip_char (CHR ''.'') (str_lower v) = str_lower v"
  by (intro rstrip_char_id) (simp_all add: domain_last last_map letter_lower str_lower_def)

lemma classify_shape:
  assumes "classify v = Inr (Some (t, x))"
  shows "t \<in> set valid_types" "x \<noteq> []" "strip x = x"
proof -
  let ?v = "strip v"
  have e: "ip_address [] = None" "url_scheme [] = []" "\<not> hash_shaped []" "\<not> email_shaped []" by code_simp+
  have x: "(x = ?v \<or> x = str_lower ?v) \<and> ?v \<noteq> [] \<and> t \<in> set valid_types"
    using assms e domain_rstrip [of ?v] domain_last(1) [of ?v]
    by (auto simp: classify_def Let_def bind_res_Inr_iff valid_types_def split: if_splits)
  then show "t \<in> set valid_types" "x \<noteq> []" by (metis str_lower_Nil_iff)+
  show "strip x = x" using x strip_trimmed [of v] trimmed_lower trimmed_strip by blast
qed

text \<open>What the walk keeps: well-formed indicators, and a family that is absent or named.\<close>

definition good_ioc :: "string \<times> string \<times> pyval \<Rightarrow> bool" where
  "good_ioc i \<longleftrightarrow> fst i \<in> set valid_types \<and> fst (snd i) \<noteq> [] \<and> strip (fst (snd i)) = fst (snd i)"

definition good_family :: "pyval \<Rightarrow> bool" where
  "good_family f \<longleftrightarrow> f = JNull \<or> (\<exists>n e. f = JObj [(''family'', JStr n), (''evidence'', e)] \<and> truth e)"

definition good_state :: "gen_state \<Rightarrow> bool" where
  "good_state st \<longleftrightarrow> list_all good_ioc (gs_iocs st) \<and> good_family (gs_family st)"

lemma walk_text_good: "good_state st \<Longrightarrow> good_state (fst (walk_text key prov v st))"
  using classify_shape [of v] by (auto simp: walk_text_def Let_def good_state_def good_ioc_def split: sum.split option.split)

lemma walk_good:
  shows "good_state st \<Longrightarrow> good_state (fst (walk v key prov st))"
    and "good_state st \<Longrightarrow> good_state (fst (walk_items d prov st))"
    and "good_state st \<Longrightarrow> good_state (fst (walk_list xs key prov st))"
proof (induction v key prov st and d prov st and xs key prov st rule: walk_walk_items_walk_list.induct)
  case (1 d key prov st)
  have "good_state (st\<lparr>gs_family := explicit_family d (gs_family st)\<rparr>)"
    using 1(2) by (auto simp: good_state_def good_family_def explicit_family_def Let_def)
  from 1(1) [OF this] show ?case by simp
qed (auto simp: walk_text_good split: prod.split option.split)

lemma report_loop_good:
  "good_state (fst acc) \<Longrightarrow> report_loop en fs acc = Inr acc' \<Longrightarrow> good_state (fst acc')"
proof (induction fs arbitrary: acc)
  case (Cons f fs)
  from Cons.prems(2) obtain a where a: "report_step en acc f = Inr a" "report_loop en fs a = Inr acc'"
    by (auto simp: bind_res_Inr_iff)
  have "good_state (fst a)"
    using a(1) Cons.prems(1) walk_good(1) [of "fst acc"]
    by (auto simp: report_step_def Let_def split_beta split: sum.splits option.splits if_splits)
  from Cons.IH [OF this a(2)] show ?case .
qed simp

lemma dedup_iocs_good:
  assumes "list_all good_ioc xs"
  shows "\<forall>((t, v), p) \<in> set (dedup_iocs xs). good_ioc (t, v, p)" "distinct (dict_keys (dedup_iocs xs))"
proof -
  have "(\<forall>((t, v), p) \<in> set (foldl (\<lambda>d (t, v, p). dict_set (t, v) p d) d xs). good_ioc (t, v, p))
      \<and> distinct (dict_keys (foldl (\<lambda>d (t, v, p). dict_set (t, v) p d) d xs))"
    if "\<forall>((t, v), p) \<in> set d. good_ioc (t, v, p)" "distinct (dict_keys d)" for d
    using that assms
  proof (induction xs arbitrary: d)
    case (Cons x xs)
    obtain t v p where x: "x = (t, v, p)" by (cases x)
    have "\<forall>((t, v), p) \<in> set (dict_set (t, v) p d). good_ioc (t, v, p)" "distinct (dict_keys (dict_set (t, v) p d))"
      using Cons.prems set_dict_set [OF Cons.prems(2), of "(t, v)" p] by (auto simp: x)
    then show ?case using Cons.IH Cons.prems by (simp add: x)
  qed simp
  from this [of "[]"] show "\<forall>((t, v), p) \<in> set (dedup_iocs xs). good_ioc (t, v, p)" "distinct (dict_keys (dedup_iocs xs))"
    by (simp_all add: dedup_iocs_def)
qed

lemma prior_loop_good:
  "\<forall>((t, v), p) \<in> set ds. good_ioc (t, v, p) \<Longrightarrow>
     prior_loop i (map ioc_obj ds) inds errs = Inr (inds @ map (\<lambda>((t, v), p). \<lparr>in_type = t, in_value = v\<rparr>) ds, errs)"
proof (induction ds arbitrary: i inds)
  case (Cons d ds)
  obtain t v p where d: "d = ((t, v), p)" by (cases d) auto
  have "read_indicator i (ioc_obj d) = Inr (Inr \<lparr>in_type = t, in_value = v\<rparr>)"
    using Cons.prems by (auto simp: d read_indicator_def ioc_obj_def good_ioc_def Let_def)
  then show ?case using Cons by (simp add: d)
qed simp

definition family_name :: "pyval \<Rightarrow> pyval" where
  "family_name f = get (obj_of f) ''family''"

section \<open>Properties\<close>

text \<open>
  C36. What the generator writes is what the deployed reader takes in: every indicator of the document is
  accepted, none is reported as an error, sample, family and techniques are those of the document.
  The reader as it stands in the pipeline directory looks for other keys and takes in nothing but
  the sample.
\<close>

theorem generated_prior_ingests:
  assumes "generate_prior en b = Inr doc"
  shows "\<exists>sample st ws. doc = prior_doc en sample (report_files b) st ws
     \<and> ingest_prior_patched doc = Inr (\<lparr>sp_sample = JStr sample, sp_family = family_name (gs_family st),
          sp_capabilities = map JStr (sort (remdups (gs_caps st))),
          sp_indicators = map (\<lambda>((t, v), p). \<lparr>in_type = t, in_value = v\<rparr>) (dedup_iocs (gs_iocs st))\<rparr>, [])
     \<and> ingest_prior doc = Inr (\<lparr>sp_sample = JStr sample, sp_family = JNull, sp_capabilities = [], sp_indicators = []\<rparr>, [])"
proof -
  from assms obtain s st ws where loop: "report_loop en (report_files b) (\<lparr>gs_iocs = [], gs_caps = [], gs_family = JNull\<rparr>, []) = Inr (st, ws)"
    and doc: "doc = prior_doc en (str_lower (py_str s)) (report_files b) st ws"
    by (auto simp: generate_prior_def bind_res_Inr_iff Let_def)
  have good: "good_state st"
    using report_loop_good [OF _ loop] by (simp add: good_state_def good_family_def)
  note iocs = prior_loop_good [OF dedup_iocs_good(1), of "gs_iocs st" 0 "[]" "[]"]
  have "ingest_prior_patched doc = Inr (\<lparr>sp_sample = JStr (str_lower (py_str s)), sp_family = family_name (gs_family st),
          sp_capabilities = map JStr (sort (remdups (gs_caps st))),
          sp_indicators = map (\<lambda>((t, v), p). \<lparr>in_type = t, in_value = v\<rparr>) (dedup_iocs (gs_iocs st))\<rparr>, [])"
    using iocs good
    by (auto simp: doc prior_doc_def ingest_prior_patched_def patched_family_def patched_capabilities_def
        patched_indicators_def iterate_def good_state_def good_family_def family_name_def Let_def)
  moreover have "ingest_prior doc = Inr (\<lparr>sp_sample = JStr (str_lower (py_str s)), sp_family = JNull, sp_capabilities = [],
       sp_indicators = []\<rparr>, [])"
    by (simp add: doc prior_doc_def ingest_prior_def iterate_def)
  ultimately show ?thesis using doc by blast
qed

definition sample_gen :: gen_env where
  "sample_gen = \<lparr>gn_load = (\<lambda>t. if t = ''meta'' then Inr (JObj [(''sample_sha256'', JStr ''AB'')])
       else if t = ''floss'' then Inr (JObj [(''urls'', JList [JStr ''Evil.example'', JStr ''10.0.0.9'', JStr ''Evil.example'']),
         (''family_attribution'', JObj [(''family'', JStr ''suppobox''), (''evidence'', JList [JNull])])])
       else Inl (ValueError ''not JSON'')), gn_hash = (\<lambda>_. ''h''), gn_validate = (\<lambda>_. Inr ())\<rparr>"

definition sample_tree :: files where
  "sample_tree = [(''sample.meta.json'', ''meta''), (''analysis/floss.json'', ''floss''), (''analysis/bad.json'', ''x'')]"

lemma sample_generated: "\<not> isl (generate_prior sample_gen sample_tree)"
  by code_simp

lemma generated_prior_witness:
  "\<exists>doc prior. generate_prior sample_gen sample_tree = Inr doc \<and> ingest_prior_patched doc = Inr (prior, [])"
proof -
  obtain doc where doc: "generate_prior sample_gen sample_tree = Inr doc" using sample_generated by (metis sum.collapse(2))
  from generated_prior_ingests [OF doc] show ?thesis using doc by blast
qed

end
