(* ===== verification/Prep.thy ===== *)
theory Prep
  imports FileTree
begin

text \<open>
  What is prepared before the analyzer runs: the choice between native Zeek logs and the fallback
  (\<open>scripts/prepare-zeek-input.py\<close>) and the normal form of Suricata and TLS records
  (\<open>scripts/normalize-c2-adapter-inputs.py\<close>). The JSON decoder, SHA-256 and the fallback process
  are parameters.
\<close>

section \<open>Lines\<close>

text \<open>
  \<open>s.splitlines()\<close>: how many bytes of the text's UTF-8 form are a line end at its head, none if it begins
  with something else. Beside the ASCII line ends there are U+0085, U+2028 and U+2029.
\<close>

definition line_end :: "string \<Rightarrow> nat" where
  "line_end t = (case t of
       [] \<Rightarrow> 0
     | c # s \<Rightarrow>
         if c = CHR 0x0D then (if starts_with s [CHR 0x0A] then 2 else 1)
         else if c \<in> {CHR 0x0A, CHR 0x0B, CHR 0x0C, CHR 0x1C, CHR 0x1D, CHR 0x1E} then 1
         else if c = CHR 0xC2 then (if starts_with s [CHR 0x85] then 2 else 0)
         else if c = CHR 0xE2 then (if starts_with s [CHR 0x80, CHR 0xA8] \<or> starts_with s [CHR 0x80, CHR 0xA9] then 3 else 0)
         else 0)"

fun split_lines :: "string \<Rightarrow> string list" where
  "split_lines [] = []"
| "split_lines (c # s) =
     (let n = line_end (c # s) in
      if n \<noteq> 0 then [] # split_lines (drop (n - 1) s)
      else case split_lines s of [] \<Rightarrow> [[c]] | l # ls \<Rightarrow> (c # l) # ls)"

definition full_lines :: "string \<Rightarrow> string list" where
  "full_lines s = filter (\<lambda>l. l \<noteq> []) (split_lines s)"

section \<open>Native Zeek logs\<close>

text \<open>\<open>all(isinstance(json.loads(line), dict) ...)\<close>: decoding stops at the first line that is no object.\<close>

fun all_objects :: "(string \<Rightarrow> pyval res) \<Rightarrow> string list \<Rightarrow> bool res" where
  "all_objects loads [] = Inr True"
| "all_objects loads (l # ls) = bind_res (loads l) (\<lambda>v. if is_obj v then all_objects loads ls else Inr False)"

definition columns :: "string \<Rightarrow> nat" where
  "columns l = length (split_on (char_of (9 :: nat)) l)"

definition tab_separated :: "string list \<Rightarrow> bool" where
  "tab_separated ls =
     (case find (\<lambda>l. starts_with l ''#fields'') ls of
        None \<Rightarrow> False
      | Some f \<Rightarrow> 0 < columns f - 1 \<and> list_all (\<lambda>l. starts_with l ''#'' \<or> columns l = columns f - 1) ls)"

definition valid_log :: "(string \<Rightarrow> pyval res) \<Rightarrow> string option \<Rightarrow> bool res" where
  "valid_log loads content =
     (case content of
        None \<Rightarrow> Inr False
      | Some t \<Rightarrow>
          let ls = full_lines t in
          if t = [] \<or> ls = [] then Inr False
          else if starts_with (lstrip (hd ls)) [char_of (123 :: nat)] then all_objects loads ls
          else Inr (tab_separated ls))"

fun all_valid :: "(string \<Rightarrow> pyval res) \<Rightarrow> string list \<Rightarrow> bool res" where
  "all_valid loads [] = Inr True"
| "all_valid loads (t # ts) = bind_res (valid_log loads (Some t)) (\<lambda>b. if b then all_valid loads ts else Inr False)"

text \<open>A directory's files by name; no directory at all is \<open>None\<close>.\<close>

definition log_files :: "files \<Rightarrow> files" where
  "log_files d = filter (\<lambda>(n, c). ends_with n ''.log'') d"

definition valid_directory :: "(string \<Rightarrow> pyval res) \<Rightarrow> files option \<Rightarrow> bool res" where
  "valid_directory loads dir =
     (case dir of
        None \<Rightarrow> Inr False
      | Some d \<Rightarrow> bind_res (valid_log loads (map_of d ''conn.log'')) (\<lambda>b.
          if b then all_valid loads (map snd (log_files d)) else Inr False))"

section \<open>Selection\<close>

text \<open>The \<open>--native\<close> argument: not given, not a directory, or a directory.\<close>

datatype native_arg = NotGiven | NoDirectory | Directory files

fun native_dir :: "native_arg \<Rightarrow> files option" where
  "native_dir (Directory d) = Some d"
| "native_dir _ = None"

text \<open>The fallback process: the output directory it leaves, and its error if it failed.\<close>

record zeek_env =
  zk_load :: "string \<Rightarrow> pyval res"
  zk_hash :: "string \<Rightarrow> string"
  zk_fallback :: "string \<Rightarrow> files \<times> string option"

definition copy_logs :: "files \<Rightarrow> files \<Rightarrow> files" where
  "copy_logs src out = foldl (\<lambda>dst (n, c). dict_set n c dst) out (log_files src)"

definition zeek_limitations :: "string \<Rightarrow> string list" where
  "zeek_limitations mode =
     (if mode = ''upstream_fallback'' then [''not equivalent to native Zeek'', ''x509.log unsupported'', ''files.log unsupported'']
      else if mode = ''pcap_only'' then [''Zeek enrichment unavailable''] else [])"

definition run_fallback :: "zeek_env \<Rightarrow> string \<Rightarrow> string list \<Rightarrow> (string \<times> files \<times> string list) res" where
  "run_fallback en pcap ws =
     (let (out, err) = zk_fallback en pcap in
      case err of
        Some e \<Rightarrow> Inr (''pcap_only'', [], ws @ [''upstream fallback failed: '' @ e])
      | None \<Rightarrow> bind_res (valid_directory (zk_load en) (Some out)) (\<lambda>ok.
          if ok then Inr (''upstream_fallback'', out, ws)
          else Inr (''pcap_only'', [], ws @ [''upstream fallback did not produce a valid conn.log''])))"

definition choose_logs :: "zeek_env \<Rightarrow> string \<Rightarrow> native_arg \<Rightarrow> files \<Rightarrow> (string \<times> files \<times> string list) res" where
  "choose_logs en pcap native out =
     bind_res (valid_directory (zk_load en) (native_dir native)) (\<lambda>ok.
       if ok then Inr (''native'', copy_logs (the (native_dir native)) out, [])
       else run_fallback en pcap
         (if native = NotGiven then [] else [''native Zeek directory failed complete validation; using fallback'']))"

definition zeek_metadata :: "zeek_env \<Rightarrow> string \<Rightarrow> string \<Rightarrow> files \<Rightarrow> string list \<Rightarrow> pyval" where
  "zeek_metadata en pcap mode out ws =
     JObj [(''schema_version'', JStr ''1.0''), (''zeek_mode'', JStr mode), (''input_pcap_sha256'', JStr (zk_hash en pcap)),
       (''generated_files'', JList (map JStr (sort (map fst (log_files out))))),
       (''parser_validation'', JStr (if mode \<noteq> ''pcap_only'' then ''passed'' else ''not_available'')),
       (''limitations'', JList (map JStr (zeek_limitations mode))), (''warnings'', JList (map JStr ws))]"

definition prepare_zeek :: "zeek_env \<Rightarrow> string \<Rightarrow> native_arg \<Rightarrow> files \<Rightarrow> (string \<times> files \<times> pyval) res" where
  "prepare_zeek en pcap native out =
     bind_res (choose_logs en pcap native out) (\<lambda>(mode, out', ws).
       Inr (mode, out', zeek_metadata en pcap mode out' ws))"

section \<open>Suricata and TLS records\<close>

definition adapter_provenance :: "pyval \<Rightarrow> pyval \<Rightarrow> string list \<Rightarrow> pyval" where
  "adapter_provenance input digest unsupported =
     JObj [(''input'', input), (''input_sha256'', digest), (''unsupported_fields'', JList (map JStr unsupported))]"

definition adapter_doc :: "string \<Rightarrow> string \<Rightarrow> pyval list \<Rightarrow> pyval \<Rightarrow> pyval" where
  "adapter_doc status rows_key rows prov =
     JObj [(''schema_version'', JStr ''1.0''), (''status'', JStr status), (rows_key, JList rows), (''adapter_provenance'', prov)]"

definition absent_doc :: "string \<Rightarrow> string \<Rightarrow> pyval" where
  "absent_doc status rows_key = adapter_doc status rows_key [] (adapter_provenance JNull JNull [])"

definition alias_of :: "string \<Rightarrow> string" where
  "alias_of k =
     (if k = ''srcip'' then ''src_ip'' else if k = ''srcport'' then ''src_port''
      else if k = ''dstip'' then ''dest_ip'' else if k = ''dstport'' then ''dest_port'' else k)"

definition suricata_fields :: "string list" where
  "suricata_fields = [''timestamp'', ''event_type'', ''src_ip'', ''src_port'', ''dest_ip'', ''dest_port'', ''proto'',
     ''alert'', ''dns'', ''http'', ''tls'']"

definition tls_fields :: "string list" where
  "tls_fields = [''timestamp'', ''server_name'', ''destination_ip'', ''destination_port'', ''ja3'', ''ja4'', ''certificate_sha256'']"

text \<open>\<open>event.items()\<close>, the fields a document keeps and the names of the others.\<close>

definition items_obj :: "pyval \<Rightarrow> (string \<times> pyval) list res" where
  "items_obj v = (if is_obj v then Inr (obj_of v) else Inl (AttributeError ''items''))"

definition keep_fields :: "string list \<Rightarrow> (string \<times> pyval) list \<Rightarrow> pyval" where
  "keep_fields supported d = JObj (filter (\<lambda>(k, v). k \<in> set supported) d)"

definition unsupported_fields :: "string list \<Rightarrow> (string \<times> pyval) list list \<Rightarrow> string list" where
  "unsupported_fields supported ds = sort (remdups (filter (\<lambda>k. k \<notin> set supported) (concat (map dict_keys ds))))"

definition rename_fields :: "(string \<times> pyval) list \<Rightarrow> (string \<times> pyval) list" where
  "rename_fields d = foldl (\<lambda>e (k, v). dict_set (alias_of k) v e) [] d"

text \<open>\<open>{"event_type": event_type.rstrip("s"), **record}\<close> for every record of every list of CAPE's result.\<close>

definition cape_event :: "string \<Rightarrow> (string \<times> pyval) list \<Rightarrow> pyval" where
  "cape_event kind r =
     JObj (foldl (\<lambda>e (k, v). dict_set k v e) [(''event_type'', JStr (rstrip_char (CHR ''s'') kind))] r)"

definition cape_events :: "(string \<times> pyval) list \<Rightarrow> pyval list" where
  "cape_events cape =
     concat (map (\<lambda>(kind, v). case v of
       JList rs \<Rightarrow> map (\<lambda>r. cape_event kind (obj_of r)) (filter is_obj rs) | _ \<Rightarrow> []) cape)"

text \<open>The whole text is one document, or one document per line.\<close>

definition suricata_rows :: "(string \<Rightarrow> pyval res) \<Rightarrow> string \<Rightarrow> pyval list res" where
  "suricata_rows loads t =
     (case loads t of
        Inr (JList xs) \<Rightarrow> Inr xs
      | Inr v \<Rightarrow> Inr [v]
      | Inl (ValueError _) \<Rightarrow> map_res loads (full_lines t)
      | Inl e \<Rightarrow> Inl e)"

definition unwrap_cape :: "pyval list \<Rightarrow> pyval list res" where
  "unwrap_cape raw =
     (case raw of
        [v] \<Rightarrow> (if \<not> is_obj v then Inl (AttributeError ''get'')
                 else if get (obj_of v) ''tool'' = JStr ''suricata'' \<and> is_obj (get (obj_of v) ''result'')
                 then Inr (cape_events (obj_of (get (obj_of v) ''result''))) else Inr raw)
      | _ \<Rightarrow> Inr raw)"

record input_file =
  if_path :: string
  if_content :: "string res"

definition normalize_suricata :: "(string \<Rightarrow> pyval res) \<Rightarrow> (string \<Rightarrow> string) \<Rightarrow> input_file \<Rightarrow> pyval res" where
  "normalize_suricata loads H f =
     bind_res (if_content f) (\<lambda>t. bind_res (suricata_rows loads t) (\<lambda>raw0. bind_res (unwrap_cape raw0) (\<lambda>raw.
     bind_res (map_res items_obj raw) (\<lambda>ds. let es = map rename_fields ds in
       Inr (adapter_doc ''available'' ''events'' (map (keep_fields suricata_fields) es)
         (adapter_provenance (JStr (if_path f)) (JStr (H t)) (unsupported_fields suricata_fields es)))))))"

definition normalize_tls :: "(string \<Rightarrow> pyval res) \<Rightarrow> (string \<Rightarrow> string) \<Rightarrow> input_file \<Rightarrow> pyval res" where
  "normalize_tls loads H f =
     bind_res (if_content f) (\<lambda>t. bind_res (loads t) (\<lambda>v.
     bind_res (case v of JList xs \<Rightarrow> Inr v | _ \<Rightarrow> get_default v ''records'' (JList [])) (\<lambda>r.
     bind_res (items_of r) (\<lambda>raw. bind_res (map_res items_obj raw) (\<lambda>ds.
       Inr (adapter_doc ''available'' ''records'' (map (keep_fields tls_fields) ds)
         (adapter_provenance (JStr (if_path f)) (JStr (H t)) (unsupported_fields tls_fields ds))))))))"

fun io_error :: "py_error \<Rightarrow> bool" where
  "io_error (ValueError s) = True"
| "io_error (OSError s) = True"
| "io_error _ = False"

fun is_attribute_error :: "py_error \<Rightarrow> bool" where
  "is_attribute_error (AttributeError s) = True"
| "is_attribute_error _ = False"

definition guarded :: "(py_error \<Rightarrow> bool) \<Rightarrow> string \<Rightarrow> pyval res \<Rightarrow> pyval res" where
  "guarded caught rows_key r =
     (case r of Inr d \<Rightarrow> Inr d | Inl e \<Rightarrow> if caught e then Inr (absent_doc ''invalid'' rows_key) else Inl e)"

definition normalize_inputs ::
    "(string \<Rightarrow> pyval res) \<Rightarrow> (string \<Rightarrow> string) \<Rightarrow> input_file option \<Rightarrow> input_file option \<Rightarrow> (pyval \<times> pyval) res" where
  "normalize_inputs loads H suricata tls =
     bind_res (case suricata of None \<Rightarrow> Inr (absent_doc ''not_available'' ''events'')
       | Some f \<Rightarrow> guarded io_error ''events'' (normalize_suricata loads H f)) (\<lambda>s.
     bind_res (case tls of None \<Rightarrow> Inr (absent_doc ''not_available'' ''records'')
       | Some f \<Rightarrow> guarded (\<lambda>e. io_error e \<or> is_attribute_error e) ''records'' (normalize_tls loads H f)) (\<lambda>t.
     Inr (s, t)))"

section \<open>Lemmas\<close>

lemma copy_logs_map:
  assumes "distinct (dict_keys d)"
  shows "map_of (copy_logs d out) = map_of out ++ map_of (log_files d)"
proof -
  have "map_of (foldl (\<lambda>dst (n, c). dict_set n c dst) dst src) = map_of dst ++ map_of src"
    if "distinct (dict_keys src)" for src dst :: files
    using that
  proof (induction src arbitrary: dst)
    case (Cons p src)
    obtain n c where p: "p = (n, c)" by (cases p)
    have "map_of src n = None" using Cons.prems by (simp add: p map_of_eq_None_iff)
    then have eq: "map_of (dict_set n c dst) ++ map_of src = map_of dst ++ map_of (p # src)"
      unfolding dict_get_set by (auto simp: p map_add_def fun_eq_iff split: option.split)
    have "map_of (foldl (\<lambda>dst (n, c). dict_set n c dst) (dict_set n c dst) src) = map_of (dict_set n c dst) ++ map_of src"
      using Cons by simp
    then show ?case by (simp only: eq) (simp only: p foldl.simps prod.case)
  qed simp
  moreover have "distinct (dict_keys (log_files d))" using assms by (simp add: log_files_def distinct_map_filter)
  ultimately show ?thesis by (simp add: copy_logs_def)
qed

text \<open>What a readable log is, and a directory of them.\<close>

definition log_readable :: "(string \<Rightarrow> pyval res) \<Rightarrow> string \<Rightarrow> bool" where
  "log_readable loads t \<longleftrightarrow> full_lines t \<noteq> [] \<and>
     (if starts_with (lstrip (hd (full_lines t))) [char_of (123 :: nat)]
      then \<forall>l \<in> set (full_lines t). \<exists>d. loads l = Inr (JObj d)
      else \<exists>header names. find (\<lambda>l. starts_with l ''#fields'') (full_lines t) = Some header
        \<and> tl (split_on (char_of (9 :: nat)) header) = names \<and> names \<noteq> []
        \<and> (\<forall>l \<in> set (full_lines t). \<not> starts_with l ''#'' \<longrightarrow> length (split_on (char_of (9 :: nat)) l) = length names))"

definition logs_readable :: "(string \<Rightarrow> pyval res) \<Rightarrow> files \<Rightarrow> bool" where
  "logs_readable loads d \<longleftrightarrow> (\<exists>c. map_of d ''conn.log'' = Some c) \<and> (\<forall>(n, t) \<in> set d. ends_with n ''.log'' \<longrightarrow> log_readable loads t)"

lemma all_objects_iff: "all_objects loads ls = Inr True \<longleftrightarrow> (\<forall>l \<in> set ls. \<exists>d. loads l = Inr (JObj d))"
proof (induction ls)
  case (Cons l ls)
  show ?case
  proof (cases "loads l")
    case (Inr v)
    then show ?thesis using Cons by (cases v) auto
  qed auto
qed simp

lemma valid_log_iff: "valid_log loads (Some t) = Inr True \<longleftrightarrow> log_readable loads t"
proof -
  have cols: "columns l - 1 = length (tl (split_on (char_of (9 :: nat)) l))" for l by (simp add: columns_def)
  have tab: "tab_separated ls \<longleftrightarrow> (\<exists>header names. find (\<lambda>l. starts_with l ''#fields'') ls = Some header
        \<and> tl (split_on (char_of (9 :: nat)) header) = names \<and> names \<noteq> []
        \<and> (\<forall>l \<in> set ls. \<not> starts_with l ''#'' \<longrightarrow> length (split_on (char_of (9 :: nat)) l) = length names))" for ls
    unfolding tab_separated_def cols length_greater_0_conv list_all_iff
    by (cases "find (\<lambda>l. starts_with l ''#fields'') ls") (simp, simp add: columns_def imp_conv_disj)
  have "full_lines [] = []" by (simp add: full_lines_def)
  then have "valid_log loads (Some t) = Inr True \<longleftrightarrow> full_lines t \<noteq> [] \<and>
      (if starts_with (lstrip (hd (full_lines t))) [char_of (123 :: nat)] then all_objects loads (full_lines t) = Inr True
       else tab_separated (full_lines t))"
    by (auto simp: valid_log_def Let_def)
  then show ?thesis by (simp only: log_readable_def all_objects_iff tab)
qed

lemma all_valid_iff: "all_valid loads ts = Inr True \<longleftrightarrow> (\<forall>t \<in> set ts. log_readable loads t)"
proof (induction ts)
  case (Cons t ts)
  have "all_valid loads (t # ts) = Inr True \<longleftrightarrow> valid_log loads (Some t) = Inr True \<and> all_valid loads ts = Inr True"
    by (cases "valid_log loads (Some t)") simp_all
  then show ?case using Cons valid_log_iff by simp
qed simp

lemma valid_directory_iff: "valid_directory loads (Some d) = Inr True \<longleftrightarrow> logs_readable loads d"
proof -
  have conn: "ends_with ''conn.log'' ''.log''" by code_simp
  have "valid_directory loads (Some d) = Inr True \<longleftrightarrow>
      (\<exists>c. map_of d ''conn.log'' = Some c \<and> log_readable loads c) \<and> (\<forall>t \<in> set (map snd (log_files d)). log_readable loads t)"
  proof (cases "map_of d ''conn.log''")
    case None
    then show ?thesis by (simp add: valid_directory_def valid_log_def)
  next
    case (Some c)
    have "valid_directory loads (Some d) = Inr True \<longleftrightarrow>
        valid_log loads (Some c) = Inr True \<and> all_valid loads (map snd (log_files d)) = Inr True"
      by (cases "valid_log loads (Some c)") (simp_all add: valid_directory_def Some)
    then show ?thesis by (simp only: valid_log_iff all_valid_iff Some) simp
  qed
  also have "\<dots> \<longleftrightarrow> logs_readable loads d"
    using conn by (auto simp: logs_readable_def log_files_def dest: map_of_SomeD)
  finally show ?thesis .
qed

lemma run_fallback_cases:
  assumes "run_fallback en pcap ws = Inr (mode, out, ws')"
  shows "(mode = ''pcap_only'' \<and> out = [] \<and> ws' \<noteq> [])
     \<or> (mode = ''upstream_fallback'' \<and> zk_fallback en pcap = (out, None) \<and> valid_directory (zk_load en) (Some out) = Inr True)"
  using assms by (auto simp: run_fallback_def bind_res_Inr_iff split_beta prod_eq_iff split: option.splits if_splits)

section \<open>Properties\<close>

text \<open>
  C37. The mode that is reported is the one the files have: native exactly for a directory with a
  conn.log all of whose \<open>.log\<close> files are readable, every line of which is a JSON object or, below a
  \<open>#fields\<close> line, has as many columns as that names. Then exactly its logs are copied, over the files of the
  same name the output directory had; what else the output directory had stays in it and, if it ends in
  \<open>.log\<close>, is listed as generated. Otherwise the readable output of a fallback that succeeded is handed on, or
  nothing at all. The capture's digest is recorded, and only the native mode has no limitation.
\<close>

theorem zeek_selection_exact:
  assumes "prepare_zeek en pcap native out = Inr (mode, out', meta)"
    and "\<And>d. native = Directory d \<Longrightarrow> distinct (dict_keys d)"
  shows "(mode = ''native'' \<longleftrightarrow> (\<exists>d. native = Directory d \<and> (\<exists>c. map_of d ''conn.log'' = Some c)
         \<and> (\<forall>(n, t) \<in> set d. ends_with n ''.log'' \<longrightarrow> log_readable (zk_load en) t)))
     \<and> (mode = ''native'' \<longrightarrow> (\<exists>d. native = Directory d
         \<and> map_of out' = (\<lambda>n. if ends_with n ''.log'' \<and> n \<in> dom (map_of d) then map_of d n else map_of out n)))
     \<and> (mode = ''upstream_fallback'' \<longrightarrow> zk_fallback en pcap = (out', None) \<and> (\<exists>c. map_of out' ''conn.log'' = Some c)
         \<and> (\<forall>(n, t) \<in> set out'. ends_with n ''.log'' \<longrightarrow> log_readable (zk_load en) t))
     \<and> mode \<in> {''native'', ''upstream_fallback'', ''pcap_only''} \<and> (mode = ''pcap_only'' \<longleftrightarrow> out' = [])
     \<and> item meta ''zeek_mode'' = Inr (JStr mode) \<and> item meta ''input_pcap_sha256'' = Inr (JStr (zk_hash en pcap))
     \<and> item meta ''generated_files'' = Inr (JList (map JStr (sort (filter (\<lambda>n. ends_with n ''.log'') (map fst out')))))
     \<and> (item meta ''limitations'' = Inr (JList []) \<longleftrightarrow> mode = ''native'')"
proof -
  from assms(1) obtain ws ok where ok: "valid_directory (zk_load en) (native_dir native) = Inr ok"
    and c: "(if ok then Inr (''native'', copy_logs (the (native_dir native)) out, [])
       else run_fallback en pcap (if native = NotGiven then []
         else [''native Zeek directory failed complete validation; using fallback''])) = Inr (mode, out', ws)"
    and meta: "meta = zeek_metadata en pcap mode out' ws"
    by (auto simp: prepare_zeek_def choose_logs_def bind_res_Inr_iff)
  have readable: "ok \<longleftrightarrow> (\<exists>d. native = Directory d \<and> logs_readable (zk_load en) d)"
  proof (cases native)
    case (Directory d)
    then show ?thesis using ok valid_directory_iff [of "zk_load en" d] by simp
  qed (use ok in \<open>simp_all add: valid_directory_def\<close>)
  have names: "map fst (log_files out') = filter (\<lambda>n. ends_with n ''.log'') (map fst out')"
    by (simp add: log_files_def filter_map comp_def case_prod_unfold)
  have fields: "item meta ''zeek_mode'' = Inr (JStr mode)" "item meta ''input_pcap_sha256'' = Inr (JStr (zk_hash en pcap))"
    "item meta ''generated_files'' = Inr (JList (map JStr (sort (filter (\<lambda>n. ends_with n ''.log'') (map fst out')))))"
    "item meta ''limitations'' = Inr (JList (map JStr (zeek_limitations mode)))"
    by (simp_all add: meta zeek_metadata_def names)
  note spec = logs_readable_def [symmetric]
  show ?thesis
  proof (cases ok)
    case True
    then obtain d where d: "native = Directory d" "logs_readable (zk_load en) d" using readable by blast
    then have m: "mode = ''native''" "map_of out' = map_of out ++ map_of (log_files d)"
      using c True copy_logs_map [OF assms(2) [OF d(1)]] by auto
    have logs: "map_of (log_files d) n = (if ends_with n ''.log'' then map_of d n else None)" for n
      unfolding log_files_def by (induction d) auto
    have out: "map_of out' = (\<lambda>n. if ends_with n ''.log'' \<and> n \<in> dom (map_of d) then map_of d n else map_of out n)"
      unfolding m(2) by (auto simp: map_add_def logs fun_eq_iff split: option.split)
    obtain c where "map_of d ''conn.log'' = Some c" using d(2) by (auto simp: logs_readable_def)
    moreover have "ends_with ''conn.log'' ''.log''" by code_simp
    ultimately have "map_of out' ''conn.log'' = Some c" by (simp add: m(2) map_add_def logs)
    then have "out' \<noteq> []" by auto
    then show ?thesis using fields d out m(1) by (simp add: zeek_limitations_def spec)
  next
    case False
    then have no: "\<not> (\<exists>d. native = Directory d \<and> logs_readable (zk_load en) d)" using readable by simp
    have "run_fallback en pcap (if native = NotGiven then []
         else [''native Zeek directory failed complete validation; using fallback'']) = Inr (mode, out', ws)" using c False by simp
    from run_fallback_cases [OF this] show ?thesis
    proof (elim disjE conjE)
      assume m: "mode = ''upstream_fallback''" "zk_fallback en pcap = (out', None)" "valid_directory (zk_load en) (Some out') = Inr True"
      then have "logs_readable (zk_load en) out'" using valid_directory_iff by blast
      moreover from this have "out' \<noteq> []" by (auto simp: logs_readable_def)
      ultimately show ?thesis using m no fields by (simp add: zeek_limitations_def spec)
    qed (use fields no in \<open>simp add: zeek_limitations_def spec\<close>)
  qed
qed

definition sample_zeek :: zeek_env where
  "sample_zeek = \<lparr>zk_load = (\<lambda>t. if t = [char_of (123 :: nat), char_of (125 :: nat)] then Inr (JObj []) else Inl (ValueError ''json'')),
     zk_hash = (\<lambda>_. ''h''), zk_fallback = (\<lambda>_. ([], Some ''exit 1''))\<rparr>"

definition sample_native :: files where
  "sample_native = [(''conn.log'', [char_of (123 :: nat), char_of (125 :: nat), char_of (10 :: nat)]), (''readme'', ''x'')]"

lemma sample_selected: "case prepare_zeek sample_zeek ''p'' (Directory sample_native) [(''old.log'', ''x'')] of Inl e \<Rightarrow> False | Inr (m, d, v) \<Rightarrow> m = ''native''"
  by code_simp

lemma zeek_selection_witness:
  "\<exists>out' meta. prepare_zeek sample_zeek ''p'' (Directory sample_native) [(''old.log'', ''x'')] = Inr (''native'', out', meta)
     \<and> map_of out' ''conn.log'' = map_of sample_native ''conn.log'' \<and> map_of out' ''readme'' = None \<and> map_of out' ''old.log'' = Some ''x''"
proof -
  obtain out' meta where r: "prepare_zeek sample_zeek ''p'' (Directory sample_native) [(''old.log'', ''x'')] = Inr (''native'', out', meta)"
    using sample_selected by (auto split: sum.splits)
  have dist: "distinct (dict_keys sample_native)" by code_simp
  have ends: "ends_with ''conn.log'' ''.log''" "\<not> ends_with ''readme'' ''.log''" by code_simp+
  have "map_of out' = (\<lambda>n. if ends_with n ''.log'' \<and> n \<in> dom (map_of sample_native) then map_of sample_native n
      else map_of [(''old.log'', ''x'')] n)"
    using zeek_selection_exact [OF r] dist by auto
  then show ?thesis using r ends by (simp add: sample_native_def)
qed

text \<open>A line that is not JSON ends the script instead of selecting the fallback.\<close>

lemma malformed_native_line_raises:
  "prepare_zeek sample_zeek ''p'' (Directory [(''conn.log'', [char_of (123 :: nat), char_of (10 :: nat)])]) [] = Inl (ValueError ''json'')"
  by code_simp

text \<open>CAPE's \<open>tls\<close> and \<open>dns\<close> records lose the last letter of their event type.\<close>

lemma cape_event_type_cut:
  "cape_event ''tls'' [] = JObj [(''event_type'', JStr ''tl'')]" "cape_event ''dns'' [] = JObj [(''event_type'', JStr ''dn'')]"
  by code_simp+

text \<open>Of a Suricata record only supported fields are kept, and every other name is listed.\<close>

lemma keep_fields_supported: "fst ` set (obj_of (keep_fields supported d)) = fst ` set d \<inter> set supported"
  by (force simp: keep_fields_def)

lemma unsupported_listed: "set (unsupported_fields supported ds) = (\<Union>d \<in> set ds. fst ` set d) - set supported"
  by (auto simp: unsupported_fields_def)

text \<open>An element that is no object is reported for TLS, but ends the script for Suricata.\<close>

lemma element_kind_differs:
  "if_content f = Inr ''x'' \<Longrightarrow> loads ''x'' = Inr (JList [JInt 1, JInt 2]) \<Longrightarrow>
     normalize_inputs loads H None (Some f) = Inr (absent_doc ''not_available'' ''events'', absent_doc ''invalid'' ''records'')
     \<and> normalize_inputs loads H (Some f) tls = Inl (AttributeError ''items'')"
  by (simp add: normalize_inputs_def normalize_tls_def normalize_suricata_def suricata_rows_def unwrap_cape_def
      items_obj_def guarded_def)

end
