(* ===== verification/Score.thy ===== *)
theory Score
  imports Orchestrator
begin

text \<open>
  Measuring the pipeline against ground truth (\<open>pipeline/validate.py\<close>): what a run flags at each
  confidence threshold, the counts per sample, and precision and recall. The captures' findings are
  the network events of the orchestrator.
\<close>

section \<open>What a run flags\<close>

definition domain_kinds :: "string set" where
  "domain_kinds = {''dns_tunnel'', ''dga'', ''cloud_exfil'', ''cloud_staging''}"

definition indicator_of :: "net_event \<Rightarrow> string" where
  "indicator_of e =
     (if ne_kind e \<in> domain_kinds
      then (case ne_domain e of Some d \<Rightarrow> if d \<noteq> [] then d else ne_dst_ip e | None \<Rightarrow> ne_dst_ip e)
      else ne_dst_ip e)"

text \<open>\<open>by_tier\<close>; a tier that is not set counts as weak.\<close>

definition tier_of :: "net_event \<Rightarrow> tier" where
  "tier_of e = (case ne_tier e of Some t \<Rightarrow> t | None \<Rightarrow> Weak)"

definition by_tier :: "net_event list \<Rightarrow> tier \<Rightarrow> string set" where
  "by_tier es t = set (map indicator_of (filter (\<lambda>e. tier_of e = t) es))"

datatype threshold = AtConfirmed | AtStrong | AtAny

definition thresholds :: "threshold list" where
  "thresholds = [AtConfirmed, AtStrong, AtAny]"

fun flagged :: "net_event list \<Rightarrow> threshold \<Rightarrow> string set" where
  "flagged es AtConfirmed = by_tier es Confirmed"
| "flagged es AtStrong = by_tier es Confirmed \<union> by_tier es Strong"
| "flagged es AtAny = by_tier es Confirmed \<union> by_tier es Strong \<union> by_tier es Weak"

section \<open>Counts\<close>

record counts =
  ct_tp :: int
  ct_fp :: int
  ct_fn :: int

definition hit_counts :: "string set \<Rightarrow> string set \<Rightarrow> counts" where
  "hit_counts fl tru = \<lparr>ct_tp = int (card (fl \<inter> tru)), ct_fp = int (card (fl - tru)), ct_fn = int (card (tru - fl))\<rparr>"

definition add_counts :: "counts \<Rightarrow> counts \<Rightarrow> counts" where
  "add_counts a b = \<lparr>ct_tp = ct_tp a + ct_tp b, ct_fp = ct_fp a + ct_fp b, ct_fn = ct_fn a + ct_fn b\<rparr>"

text \<open>A sample of the ground truth, and what the pipeline found in its capture; no capture is \<open>None\<close>.\<close>

record sample =
  sm_ips :: "string list"
  sm_domains :: "string list"
  sm_benign :: bool
  sm_events :: "net_event list option"

definition is_malware :: "sample \<Rightarrow> bool" where
  "is_malware s \<longleftrightarrow> (sm_ips s \<noteq> [] \<or> sm_domains s \<noteq> []) \<and> \<not> sm_benign s"

definition truth_of :: "sample \<Rightarrow> string set" where
  "truth_of s = set (sm_ips s) \<union> set (sm_domains s)"

definition no_counts :: counts where
  "no_counts = \<lparr>ct_tp = 0, ct_fp = 0, ct_fn = 0\<rparr>"

definition sample_counts :: "threshold \<Rightarrow> sample \<Rightarrow> counts" where
  "sample_counts t s =
     (case sm_events s of
        None \<Rightarrow> no_counts
      | Some es \<Rightarrow> if is_malware s then hit_counts (flagged es t) (truth_of s)
                    else no_counts\<lparr>ct_fp := int (card (flagged es t))\<rparr>)"

text \<open>The malware samples come first, then the benign controls.\<close>

definition aggregate :: "sample list \<Rightarrow> threshold \<Rightarrow> counts" where
  "aggregate ss t = foldl (\<lambda>c s. add_counts c (sample_counts t s)) no_counts
     (filter is_malware ss @ filter (\<lambda>s. \<not> is_malware s) ss)"

definition precision :: "counts \<Rightarrow> pyfloat" where
  "precision c = (if ct_tp c + ct_fp c \<noteq> 0 then idiv (ct_tp c) (ct_tp c + ct_fp c) else 1)"

definition recall :: "counts \<Rightarrow> pyfloat" where
  "recall c = (if ct_tp c + ct_fn c \<noteq> 0 then idiv (ct_tp c) (ct_tp c + ct_fn c) else 0)"

definition short_name :: "string \<Rightarrow> string" where
  "short_name n = (let base = last (split_on (CHR ''/'') n) in
     if 40 < length base then take 37 base @ ''...'' else base)"

section \<open>Lemmas\<close>

lemma flagged_finite: "finite (flagged es t)"
  by (cases t) (simp_all add: by_tier_def)

lemma flagged_mono: "flagged es AtConfirmed \<subseteq> flagged es AtStrong" "flagged es AtStrong \<subseteq> flagged es AtAny"
  by auto

lemma hit_counts_mono:
  assumes "a \<subseteq> b" "finite b" "finite tr"
  shows "ct_tp (hit_counts a tr) \<le> ct_tp (hit_counts b tr)" "ct_fp (hit_counts a tr) \<le> ct_fp (hit_counts b tr)" "ct_fn (hit_counts b tr) \<le> ct_fn (hit_counts a tr)"
    "ct_tp (hit_counts a tr) + ct_fn (hit_counts a tr) = int (card tr)"
proof -
  show "ct_tp (hit_counts a tr) \<le> ct_tp (hit_counts b tr)" "ct_fp (hit_counts a tr) \<le> ct_fp (hit_counts b tr)" "ct_fn (hit_counts b tr) \<le> ct_fn (hit_counts a tr)"
    using assms by (auto simp: hit_counts_def intro!: card_mono)
  have "card (a \<inter> tr) + card (tr - a) = card tr"
    using assms(3) card_Int_Diff [of tr a] by (simp add: Int_commute)
  then show "ct_tp (hit_counts a tr) + ct_fn (hit_counts a tr) = int (card tr)" by (simp add: hit_counts_def)
qed

lemma aggregate_sum:
  "ct_tp (aggregate ss t) = (\<Sum>s \<leftarrow> ss. ct_tp (sample_counts t s))"
  "ct_fp (aggregate ss t) = (\<Sum>s \<leftarrow> ss. ct_fp (sample_counts t s))"
  "ct_fn (aggregate ss t) = (\<Sum>s \<leftarrow> ss. ct_fn (sample_counts t s))"
proof -
  have f: "ct_tp (foldl (\<lambda>c s. add_counts c (sample_counts t s)) c xs) = ct_tp c + (\<Sum>s \<leftarrow> xs. ct_tp (sample_counts t s))"
    "ct_fp (foldl (\<lambda>c s. add_counts c (sample_counts t s)) c xs) = ct_fp c + (\<Sum>s \<leftarrow> xs. ct_fp (sample_counts t s))"
    "ct_fn (foldl (\<lambda>c s. add_counts c (sample_counts t s)) c xs) = ct_fn c + (\<Sum>s \<leftarrow> xs. ct_fn (sample_counts t s))" for c xs
    by (induction xs arbitrary: c) (simp_all add: add_counts_def)
  have p: "(\<Sum>s \<leftarrow> filter is_malware ss @ filter (\<lambda>s. \<not> is_malware s) ss. g s) = (\<Sum>s \<leftarrow> ss. g s)" for g :: "sample \<Rightarrow> int"
    by (induction ss) simp_all
  show "ct_tp (aggregate ss t) = (\<Sum>s \<leftarrow> ss. ct_tp (sample_counts t s))"
    "ct_fp (aggregate ss t) = (\<Sum>s \<leftarrow> ss. ct_fp (sample_counts t s))"
    "ct_fn (aggregate ss t) = (\<Sum>s \<leftarrow> ss. ct_fn (sample_counts t s))"
    unfolding aggregate_def f p by (simp_all add: no_counts_def)
qed

definition next_threshold :: "threshold \<Rightarrow> threshold \<Rightarrow> bool" where
  "next_threshold u t \<longleftrightarrow> u = AtConfirmed \<and> t = AtStrong \<or> u = AtStrong \<and> t = AtAny"

lemma sample_counts_mono:
  assumes "next_threshold u t"
  shows "ct_tp (sample_counts u s) \<le> ct_tp (sample_counts t s)" "ct_fp (sample_counts u s) \<le> ct_fp (sample_counts t s)"
    "ct_fn (sample_counts t s) \<le> ct_fn (sample_counts u s)"
    "ct_tp (sample_counts u s) + ct_fn (sample_counts u s) = ct_tp (sample_counts t s) + ct_fn (sample_counts t s)"
proof -
  have sub: "flagged es u \<subseteq> flagged es t" for es using assms flagged_mono by (auto simp: next_threshold_def)
  have fin: "finite (truth_of s)" by (simp add: truth_of_def)
  note m = hit_counts_mono [OF sub flagged_finite fin] and e = hit_counts_mono(4) [OF subset_refl flagged_finite fin]
  show "ct_tp (sample_counts u s) \<le> ct_tp (sample_counts t s)"
    using m(1) by (simp add: sample_counts_def no_counts_def split: option.split)
  show "ct_fp (sample_counts u s) \<le> ct_fp (sample_counts t s)"
    using m(2) card_mono [OF flagged_finite sub] by (simp add: sample_counts_def no_counts_def split: option.split)
  show "ct_fn (sample_counts t s) \<le> ct_fn (sample_counts u s)"
    using m(3) by (simp add: sample_counts_def no_counts_def split: option.split)
  show "ct_tp (sample_counts u s) + ct_fn (sample_counts u s) = ct_tp (sample_counts t s) + ct_fn (sample_counts t s)"
    using e by (simp add: sample_counts_def no_counts_def split: option.split)
qed

lemma aggregate_mono:
  assumes "next_threshold u t"
  shows "ct_tp (aggregate ss u) \<le> ct_tp (aggregate ss t)" "ct_fp (aggregate ss u) \<le> ct_fp (aggregate ss t)"
    "ct_tp (aggregate ss u) + ct_fn (aggregate ss u) = ct_tp (aggregate ss t) + ct_fn (aggregate ss t)"
  unfolding aggregate_sum
    using sample_counts_mono [OF assms]
    by (auto simp: sum_list_addf [symmetric] intro!: sum_list_mono)

lemma counts_nonneg: "0 \<le> ct_tp (aggregate ss t)" "0 \<le> ct_fn (aggregate ss t)" "0 \<le> ct_fp (aggregate ss t)"
  unfolding aggregate_sum
  by (auto intro!: sum_list_nonneg simp: sample_counts_def no_counts_def hit_counts_def split: option.splits)

section \<open>Properties\<close>

text \<open>
  Loosening the threshold never loses a hit and never hides a false alarm: over any set of samples,
  hits, false alarms and recall only grow from confirmed to strong to any, precision and recall lie
  in [0,1], and what is flagged at the loosest threshold is exactly what is confirmed, strong or weak.
\<close>

theorem thresholds_monotone:
  "sorted (map (\<lambda>t. ct_tp (aggregate ss t)) thresholds) \<and> sorted (map (\<lambda>t. ct_fp (aggregate ss t)) thresholds)
   \<and> sorted (map (\<lambda>t. recall (aggregate ss t)) thresholds)
   \<and> (\<forall>t. unit_interval (precision (aggregate ss t)) \<and> unit_interval (recall (aggregate ss t)))
   \<and> flagged es AtAny = indicator_of ` {e. e \<in> set es \<and> tier_of e \<in> {Confirmed, Strong, Weak}}"
proof (intro conjI allI)
  have n: "next_threshold AtConfirmed AtStrong" "next_threshold AtStrong AtAny" by (simp_all add: next_threshold_def)
  have r: "recall (aggregate ss u) \<le> recall (aggregate ss t)" if "next_threshold u t" for u t
    using aggregate_mono [OF that, of ss] counts_nonneg [of ss u]
    by (auto simp: recall_def idiv_def intro!: rnd_mono divide_right_mono)
  show "sorted (map (\<lambda>t. ct_tp (aggregate ss t)) thresholds)" "sorted (map (\<lambda>t. ct_fp (aggregate ss t)) thresholds)"
    "sorted (map (\<lambda>t. recall (aggregate ss t)) thresholds)"
    using n [THEN aggregate_mono(1), of ss] n [THEN aggregate_mono(2), of ss] n [THEN r]
    by (simp_all add: thresholds_def)
  fix t
  show "unit_interval (precision (aggregate ss t))"
    using counts_nonneg [of ss t] idiv_unit [of "ct_tp (aggregate ss t)" "ct_tp (aggregate ss t) + ct_fp (aggregate ss t)"]
    by (simp add: precision_def unit_interval_def)
  show "unit_interval (recall (aggregate ss t))"
    using counts_nonneg [of ss t] idiv_unit [of "ct_tp (aggregate ss t)" "ct_tp (aggregate ss t) + ct_fn (aggregate ss t)"]
    by (simp add: recall_def unit_interval_def)
next
  show "flagged es AtAny = indicator_of ` {e. e \<in> set es \<and> tier_of e \<in> {Confirmed, Strong, Weak}}"
    by (auto simp: by_tier_def)
qed

end
