(* ===== verification/Store.thy ===== *)
theory Store
  imports PyNum
begin

text \<open>
  Loading a run's rows into the shared database (\<open>pipeline/db_loader.py\<close>, tables in \<open>sql/schema.sql\<close>).
  The two tables are dictionaries from their primary keys; the statements are the upsert of the sample
  and, for every row, an insertion that a conflict on the event id turns into nothing. The columns that
  may not be null and the reference of an event to its sample are modelled; whether the column types
  take the values is a parameter. The load is one transaction: an exception leaves the tables as they were.
\<close>

section \<open>Tables\<close>

record database =
  db_samples :: "(pyval \<times> pyval \<times> pyval) list"
  db_events :: "(pyval \<times> (string \<times> pyval) list) list"

text \<open>The types of the columns: of a sample's key and tier, and of an event's values.\<close>

record column_types =
  ct_sample :: "pyval \<Rightarrow> pyval \<Rightarrow> bool"
  ct_event :: "(string \<times> pyval) list \<Rightarrow> bool"

definition event_columns :: "string list" where
  "event_columns =
     [''event_id'', ''sample_id'', ''session_id'', ''cape_task_id'', ''platform'', ''timestamp'', ''data_type_accessed'',
      ''access_api_call'', ''destination_ip'', ''destination_port'', ''destination_domain'', ''asn'', ''asn_org'',
      ''geo_country'', ''reputation_score'', ''reputation_note'', ''reputation_source'', ''ja3_hash'',
      ''plaintext_available'', ''confidence_score'', ''confidence_tier'', ''mitre_technique_id'', ''manifest_sha256'',
      ''evidence_hash'']"

definition event_values :: "(string \<times> pyval) list \<Rightarrow> (string \<times> pyval) list" where
  "event_values r = map (\<lambda>k. (k, get r k)) event_columns"

section \<open>The tier of a sample\<close>

definition tier_order :: "pyval \<Rightarrow> int" where
  "tier_order t =
     (if t = JStr ''confirmed'' then 3 else if t = JStr ''strong'' then 2 else if t = JStr ''weak'' then 1 else 0)"

text \<open>\<open>max(..., key=...)\<close>: the first of the largest; a tier that cannot be hashed raises.\<close>

fun max_tier :: "pyval \<Rightarrow> pyval list \<Rightarrow> pyval" where
  "max_tier best [] = best"
| "max_tier best (t # ts) = max_tier (if tier_order best < tier_order t then t else best) ts"

definition row_tier :: "pyval \<Rightarrow> pyval res" where
  "row_tier r = bind_res (item r ''confidence_tier'') (\<lambda>t.
     if hashable t then Inr t else Inl (TypeError (''unhashable type: '' @ str_repr (type_name t))))"

section \<open>Statements\<close>

definition violation :: py_error where
  "violation = RuntimeError ''constraint violation''"

definition upsert_sample :: "column_types \<Rightarrow> pyval \<Rightarrow> pyval \<Rightarrow> database \<Rightarrow> database res" where
  "upsert_sample ct sid tier db =
     (if sid = JNull \<or> tier = JNull \<or> \<not> ct_sample ct sid tier then Inl violation
      else Inr (db\<lparr>db_samples := (case map_of (db_samples db) sid of
        None \<Rightarrow> dict_set sid (JStr ''windows'', tier) (db_samples db)
      | Some (p, _) \<Rightarrow> dict_set sid (p, tier) (db_samples db))\<rparr>))"

text \<open>The reference is checked for a row that is inserted, not for one that is in conflict.\<close>

definition refers :: "database \<Rightarrow> pyval \<Rightarrow> bool" where
  "refers db sid \<longleftrightarrow> sid = JNull \<or> map_of (db_samples db) sid \<noteq> None"

definition insert_event :: "column_types \<Rightarrow> pyval \<Rightarrow> database \<Rightarrow> database res" where
  "insert_event ct r db =
     (if \<not> is_obj r then Inl (AttributeError ''get'')
      else let row = obj_of r; vs = event_values row; k = get row ''event_id'' in
        if k = JNull \<or> get row ''platform'' = JNull \<or> get row ''timestamp'' = JNull \<or> \<not> ct_event ct vs then Inl violation
        else if map_of (db_events db) k \<noteq> None then Inr db
        else if \<not> refers db (get row ''sample_id'') then Inl violation
        else Inr (db\<lparr>db_events := dict_set k vs (db_events db)\<rparr>))"

fun insert_events :: "column_types \<Rightarrow> pyval list \<Rightarrow> database \<Rightarrow> database res" where
  "insert_events ct [] db = Inr db"
| "insert_events ct (r # rs) db = bind_res (insert_event ct r db) (insert_events ct rs)"

definition load_rows :: "column_types \<Rightarrow> pyval \<Rightarrow> database \<Rightarrow> database res" where
  "load_rows ct v db =
     (if \<not> truth v then Inr db
      else case v of
        JList (r # rs) \<Rightarrow>
          bind_res (item r ''sample_id'') (\<lambda>sid.
          bind_res (map_res row_tier (r # rs)) (\<lambda>ts.
          bind_res (upsert_sample ct sid (max_tier (hd ts) (tl ts)) db) (insert_events ct (r # rs))))
      | JObj d \<Rightarrow> Inl (KeyError ''0'')
      | _ \<Rightarrow> Inl (TypeError ''rows[0] has no column''))"

section \<open>Lemmas\<close>

text \<open>What is stored under an event id after some rows: what was there, else the first row that has the id.\<close>

definition has_id :: "pyval \<Rightarrow> pyval \<Rightarrow> bool" where
  "has_id k r \<longleftrightarrow> get (obj_of r) ''event_id'' = k"

definition after :: "pyval list \<Rightarrow> database \<Rightarrow> pyval \<Rightarrow> (string \<times> pyval) list option" where
  "after rs db k = (case map_of (db_events db) k of
     Some vs \<Rightarrow> Some vs | None \<Rightarrow> map_option (\<lambda>r. event_values (obj_of r)) (find (has_id k) rs))"

lemma get_event_values: "k \<in> set event_columns \<Longrightarrow> get (event_values r) k = get r k"
proof -
  have "map_of (map (\<lambda>k. (k, get r k)) ks) k = (if k \<in> set ks then Some (get r k) else None)" for ks
    by (induction ks) auto
  then show "k \<in> set event_columns \<Longrightarrow> get (event_values r) k = get r k"
    by (simp add: event_values_def get_def)
qed

lemma insert_event_Inr:
  assumes "insert_event ct r db = Inr db'"
  shows "map_of (db_events db') k = after [r] db k" "db_samples db' = db_samples db"
    "map_of (db_events db) (get (obj_of r) ''event_id'') = None \<Longrightarrow> refers db (get (obj_of r) ''sample_id'')"
  using assms by (auto simp: insert_event_def after_def has_id_def Let_def split: if_splits option.splits)

lemma after_step:
  assumes "\<And>k. map_of (db_events d) k = after [r] db k"
  shows "after rs d k = after (r # rs) db k"
  unfolding after_def [of rs d] assms by (auto simp: after_def split: option.split)

lemma insert_events_Inr:
  assumes "insert_events ct rs db = Inr db'"
  shows "(\<forall>k. map_of (db_events db') k = after rs db k) \<and> db_samples db' = db_samples db
     \<and> (\<forall>k r. map_of (db_events db) k = None \<longrightarrow> find (has_id k) rs = Some r \<longrightarrow> refers db (get (obj_of r) ''sample_id''))"
  using assms
proof (induction rs arbitrary: db)
  case (Cons r rs)
  from Cons.prems obtain d where d: "insert_event ct r db = Inr d" "insert_events ct rs d = Inr db'"
    by (auto simp: bind_res_Inr_iff)
  note i = insert_event_Inr [OF d(1)] and IH = Cons.IH [OF d(2)]
  have "refers db (get (obj_of r') ''sample_id'')"
    if "map_of (db_events db) k = None" "find (has_id k) (r # rs) = Some r'" for k r'
  proof (cases "has_id k r")
    case True
    then show ?thesis using that i(3) by (simp add: has_id_def)
  next
    case False
    then have "map_of (db_events d) k = None" using that(1) i(1) [of k] by (simp add: after_def)
    then have "refers d (get (obj_of r') ''sample_id'')" using IH that(2) False by simp
    then show ?thesis using i(2) by (simp add: refers_def)
  qed
  then show ?case using IH i(2) after_step [OF i(1)] by auto
qed (simp add: after_def split: option.split)

lemma insert_events_again:
  "insert_events ct rs d = Inr d' \<Longrightarrow> \<forall>r \<in> set rs. map_of (db_events db) (get (obj_of r) ''event_id'') \<noteq> None \<Longrightarrow>
     insert_events ct rs db = Inr db"
proof (induction rs arbitrary: d)
  case (Cons r rs)
  from Cons.prems(1) obtain d1 where d: "insert_event ct r d = Inr d1" "insert_events ct rs d1 = Inr d'"
    by (auto simp: bind_res_Inr_iff)
  have "insert_event ct r db = Inr db"
    using d(1) Cons.prems(2) by (auto simp: insert_event_def Let_def split: if_splits)
  then show ?case using Cons.IH [OF d(2)] Cons.prems(2) by simp
qed simp

lemma dict_set_same: "map_of d k = Some v \<Longrightarrow> dict_set k v d = d"
  by (induction k v d rule: dict_set.induct) (auto split: if_splits)

lemma upsert_sample_Inr:
  assumes "upsert_sample ct sid t db = Inr d"
  shows "map_of (db_samples d) = (map_of (db_samples db))(sid \<mapsto>
      (case map_of (db_samples db) sid of None \<Rightarrow> JStr ''windows'' | Some (p, _) \<Rightarrow> p, t))"
    "db_events d = db_events db" "db_samples e = db_samples d \<Longrightarrow> upsert_sample ct sid t e = Inr e"
  using assms by (auto simp: upsert_sample_def dict_set_same split: if_splits option.splits)

lemma max_tier_max: "max_tier b ts \<in> insert b (set ts) \<and> (\<forall>t \<in> insert b (set ts). tier_order t \<le> tier_order (max_tier b ts))"
proof (induction ts arbitrary: b)
  case (Cons t ts)
  let ?c = "if tier_order b < tier_order t then t else b"
  have "tier_order b \<le> tier_order ?c" "tier_order t \<le> tier_order ?c" "?c \<in> {b, t}" by auto
  then show ?case using Cons [of ?c] by (auto intro: order_trans)
qed simp

lemma row_tier_Inr: "row_tier r = Inr t \<Longrightarrow> item r ''confidence_tier'' = Inr t"
  by (auto simp: row_tier_def bind_res_Inr_iff split: if_splits)

lemma highest_tier:
  assumes "map_res row_tier rows = Inr ts" "rows \<noteq> []"
  shows "(\<exists>x \<in> set rows. item x ''confidence_tier'' = Inr (max_tier (hd ts) (tl ts)))
     \<and> (\<forall>x \<in> set rows. \<exists>t. item x ''confidence_tier'' = Inr t \<and> tier_order t \<le> tier_order (max_tier (hd ts) (tl ts)))"
proof -
  have all: "list_all2 (\<lambda>x t. item x ''confidence_tier'' = Inr t) rows ts"
    using assms(1) row_tier_Inr unfolding map_res_Inr_all2 by (auto elim!: list_all2_mono simp del: list_all2_Cons1)
  then have "ts \<noteq> []" using assms(2) by auto
  then have "insert (hd ts) (set (tl ts)) = set ts" by (cases ts) auto
  then have max: "max_tier (hd ts) (tl ts) \<in> set ts" "\<forall>t \<in> set ts. tier_order t \<le> tier_order (max_tier (hd ts) (tl ts))"
    using max_tier_max [of "hd ts" "tl ts"] by auto
  obtain i where i: "i < length ts" "ts ! i = max_tier (hd ts) (tl ts)" using max(1) by (auto simp: in_set_conv_nth)
  have "item (rows ! i) ''confidence_tier'' = Inr (max_tier (hd ts) (tl ts))" "rows ! i \<in> set rows"
    using all i by (auto simp: list_all2_conv_all_nth)
  moreover have "\<exists>t. item x ''confidence_tier'' = Inr t \<and> tier_order t \<le> tier_order (max_tier (hd ts) (tl ts))" if "x \<in> set rows" for x
  proof -
    obtain j where "j < length rows" "rows ! j = x" using \<open>x \<in> set rows\<close> by (auto simp: in_set_conv_nth)
    then show ?thesis using all max(2) by (auto simp: list_all2_conv_all_nth intro!: exI [of _ "ts ! j"])
  qed
  ultimately show ?thesis by blast
qed

section \<open>Properties\<close>

text \<open>
  C39. Loading a run again changes nothing: the same load on the result of a load that succeeds gives that
  result. Under every event id the result holds the event that was there before, else the values of
  the first row with that id, else nothing; so a row whose id is taken is not stored. The sample of
  the first row is entered, or keeps its platform, with the highest tier of the rows, no other sample
  changes, and every event that was added refers to a sample of the result or to none.
\<close>

theorem load_idempotent:
  assumes "load_rows ct (JList rows) db = Inr db'"
  shows "load_rows ct (JList rows) db' = Inr db'
     \<and> (\<forall>k. map_of (db_events db') k = (case map_of (db_events db) k of
          Some vs \<Rightarrow> Some vs
        | None \<Rightarrow> map_option (\<lambda>r. event_values (obj_of r)) (find (\<lambda>r. get (obj_of r) ''event_id'' = k) rows)))
     \<and> (\<forall>k vs. map_of (db_events db') k = Some vs \<and> map_of (db_events db) k = None \<longrightarrow>
          get vs ''sample_id'' = JNull \<or> map_of (db_samples db') (get vs ''sample_id'') \<noteq> None)
     \<and> (if rows = [] then db' = db
        else \<exists>sid tier. item (hd rows) ''sample_id'' = Inr sid
          \<and> (\<exists>r \<in> set rows. item r ''confidence_tier'' = Inr tier)
          \<and> (\<forall>r \<in> set rows. \<exists>t. item r ''confidence_tier'' = Inr t \<and> tier_order t \<le> tier_order tier)
          \<and> map_of (db_samples db') = (map_of (db_samples db))(sid \<mapsto>
              (case map_of (db_samples db) sid of None \<Rightarrow> JStr ''windows'' | Some (p, _) \<Rightarrow> p, tier)))"
proof -
  consider "rows = []" "db' = db" | r rs sid ts d where "rows = r # rs" "item r ''sample_id'' = Inr sid"
      "map_res row_tier rows = Inr ts" "upsert_sample ct sid (max_tier (hd ts) (tl ts)) db = Inr d" "insert_events ct rows d = Inr db'"
    using assms by (cases rows) (auto simp: load_rows_def bind_res_Inr_iff)
  then show ?thesis
  proof cases
    case 1
    then show ?thesis by (auto simp: load_rows_def split: option.split)
  next
    case 2
    note u = upsert_sample_Inr [OF 2(4)] and i = insert_events_Inr [OF 2(5)]
    have ids: "has_id k = (\<lambda>r. get (obj_of r) ''event_id'' = k)" for k by (simp add: has_id_def fun_eq_iff)
    have events: "map_of (db_events db') k = after rows db k" for k using i u(2) by (simp add: after_def)
    have "map_of (db_events db') (get (obj_of x) ''event_id'') \<noteq> None" if "x \<in> set rows" for x
    proof -
      have "find (has_id (get (obj_of x) ''event_id'')) rows \<noteq> None"
        using that by (auto simp: find_None_iff has_id_def)
      then show ?thesis by (auto simp: events after_def split: option.split)
    qed
    then have again: "load_rows ct (JList rows) db' = Inr db'"
      using 2 u(3) [of db'] i insert_events_again [OF 2(5)] by (simp add: load_rows_def)
    have "get vs ''sample_id'' = JNull \<or> map_of (db_samples db') (get vs ''sample_id'') \<noteq> None"
      if new: "map_of (db_events db') k = Some vs" "map_of (db_events db) k = None" for k vs
    proof -
      obtain x where x: "find (has_id k) rows = Some x" "vs = event_values (obj_of x)"
        using new(1) unfolding events [of k] after_def by (auto simp: new(2))
      have "refers d (get (obj_of x) ''sample_id'')" using i x(1) new(2) u(2) by simp
      moreover have "get vs ''sample_id'' = get (obj_of x) ''sample_id''"
        unfolding x(2) by (rule get_event_values) (simp add: event_columns_def)
      ultimately show ?thesis using i by (simp add: refers_def)
    qed
    moreover have "map_of (db_samples db') = (map_of (db_samples db))(sid \<mapsto>
        (case map_of (db_samples db) sid of None \<Rightarrow> JStr ''windows'' | Some (p, _) \<Rightarrow> p, max_tier (hd ts) (tl ts)))"
      using u(1) i by simp
    moreover note highest_tier [OF 2(3)]
    moreover have "rows \<noteq> []" "item (hd rows) ''sample_id'' = Inr sid" using 2(1,2) by simp_all
    ultimately show ?thesis
      using again events unfolding after_def ids if_not_P [OF \<open>rows \<noteq> []\<close>] by blast
  qed
qed

definition any_type :: column_types where
  "any_type = \<lparr>ct_sample = (\<lambda>_ _. True), ct_event = (\<lambda>_. True)\<rparr>"

definition sample_row :: "string \<Rightarrow> string \<Rightarrow> pyval" where
  "sample_row e tier = JObj [(''event_id'', JStr e), (''sample_id'', JStr ''s''), (''platform'', JStr ''windows''),
     (''timestamp'', JStr ''2024-01-01T00:00:00Z''), (''confidence_tier'', JStr tier)]"

definition sample_rows :: "pyval list" where
  "sample_rows = [sample_row ''e1'' ''weak'', sample_row ''e2'' ''strong'', sample_row ''e1'' ''confirmed'']"

lemma sample_rows_load: "\<not> isl (load_rows any_type (JList sample_rows) \<lparr>db_samples = [], db_events = []\<rparr>)"
  by code_simp

lemma load_idempotent_witness:
  "\<exists>db'. load_rows any_type (JList sample_rows) \<lparr>db_samples = [], db_events = []\<rparr> = Inr db'
     \<and> load_rows any_type (JList sample_rows) db' = Inr db'
     \<and> map_of (db_events db') (JStr ''e1'') = Some (event_values (obj_of (sample_row ''e1'' ''weak'')))"
proof -
  obtain db' where "load_rows any_type (JList sample_rows) \<lparr>db_samples = [], db_events = []\<rparr> = Inr db'"
    using sample_rows_load by (metis sum.collapse(2))
  from load_idempotent [OF this] this show ?thesis by (auto simp: sample_rows_def sample_row_def get_def)
qed

text \<open>A row of another sample that the database does not know ends the load.\<close>

lemma foreign_sample_raises:
  "load_rows any_type (JList [sample_row ''e1'' ''weak'', JObj [(''event_id'', JStr ''e2''), (''sample_id'', JStr ''other''),
      (''platform'', JStr ''windows''), (''timestamp'', JStr ''x''), (''confidence_tier'', JStr ''weak'')]])
     \<lparr>db_samples = [], db_events = []\<rparr> = Inl violation"
  by code_simp

end
