(* ===== verification/Pickup.thy ===== *)
theory Pickup
  imports Prelude
begin

text \<open>
  The guest-side auxiliary that starts the event trace and uploads it at the end of the analysis
  (\<open>analyzer/windows/modules/auxiliary/winstdt_etw_pickup.py\<close>). What it does is the list of its
  actions; the files of the guest and the outcomes of the agent are parameters. Start and finish
  run in two threads, so the times of their actions are written out.
\<close>

section \<open>Actions\<close>

datatype agent_command = Stop | Start

datatype action = Run agent_command | Upload string string | Warn string

record guest =
  gu_enabled :: bool
  gu_agent :: bool
  gu_config :: bool
  gu_file :: "string \<Rightarrow> string option"
  gu_fails :: "agent_command \<Rightarrow> string option"

definition agent_ready :: "guest \<Rightarrow> bool" where
  "agent_ready g \<longleftrightarrow> gu_agent g \<and> gu_config g"

text \<open>\<open>_run_etw_agent\<close> inside its \<open>try\<close>: a failure is logged and goes no further.\<close>

definition try_agent :: "guest \<Rightarrow> agent_command \<Rightarrow> string \<Rightarrow> action list" where
  "try_agent g c note = Run c # (case gu_fails g c of None \<Rightarrow> [] | Some e \<Rightarrow> [Warn (note @ e)])"

definition upload_if_present :: "guest \<Rightarrow> string \<Rightarrow> string \<Rightarrow> action list" where
  "upload_if_present g name dst =
     (case gu_file g name of
        None \<Rightarrow> [Warn (''WinST/DT ETW artifact missing: '' @ name)]
      | Some c \<Rightarrow> if c = [] then [Warn (''WinST/DT ETW artifact is empty: '' @ name)] else [Upload c dst])"

text \<open>\<open>start\<close>: whether the thread is started; what the thread does after its delay.\<close>

definition starts_capture :: "guest \<Rightarrow> bool" where
  "starts_capture g \<longleftrightarrow> gu_enabled g \<and> agent_ready g"

definition delayed_start :: "guest \<Rightarrow> action list" where
  "delayed_start g = try_agent g Stop ''stale-session stop before start returned: '' @ try_agent g Start ''delayed start failed: ''"

definition artifacts :: "(string \<times> string) list" where
  "artifacts = [(''trace.etl'', ''aux/trace.etl''), (''telemetry.json'', ''aux/telemetry.json''), (''etw_state.json'', ''aux/etw_state.json'')]"

definition finish :: "guest \<Rightarrow> action list" where
  "finish g =
     (if \<not> gu_enabled g then []
      else (if agent_ready g then try_agent g Stop ''stop failed before pickup: ''
            else [Warn ''agent/config missing; pickup will only upload existing files''])
        @ concat (map (\<lambda>(name, dst). upload_if_present g name dst) artifacts))"

section \<open>Times\<close>

text \<open>
  Seconds from the start of the analysis: the thread sleeps \<open>start_delay\<close>, then each agent call takes
  at most \<open>agent_timeout\<close>; \<open>finish\<close> waits for the thread, but no longer than \<open>join_timeout\<close>.
\<close>

definition start_delay :: nat where "start_delay = 10"
definition agent_timeout :: nat where "agent_timeout = 30"
definition join_timeout :: nat where "join_timeout = 45"

definition thread_end :: "nat \<Rightarrow> nat \<Rightarrow> nat" where
  "thread_end stop_time start_time = start_delay + stop_time + start_time"

definition join_returns :: "nat \<Rightarrow> nat \<Rightarrow> nat" where
  "join_returns finish_at ends = min (max finish_at ends) (finish_at + join_timeout)"

section \<open>Lemmas\<close>

lemma upload_mem:
  "Upload c dst \<in> set (upload_if_present g name d) \<longleftrightarrow> dst = d \<and> c \<noteq> [] \<and> gu_file g name = Some c"
  by (auto simp: upload_if_present_def split: option.split)

lemma try_agent_no_upload: "Upload c dst \<notin> set (try_agent g x n)"
  by (simp add: try_agent_def split: option.split)

lemma uploads_exact:
  "Upload c dst \<in> set (finish g) \<longleftrightarrow>
     gu_enabled g \<and> c \<noteq> [] \<and> (\<exists>name. (name, dst) \<in> set artifacts \<and> gu_file g name = Some c)"
  by (auto simp: finish_def try_agent_no_upload upload_mem)

text \<open>The trace is stopped before anything is uploaded.\<close>

lemma upload_no_run: "Run x \<notin> set (upload_if_present g n d)"
  by (simp add: upload_if_present_def split: option.split)

lemma stop_before_upload:
  assumes "starts_capture g"
  shows "hd (finish g) = Run Stop" "Run Start \<notin> set (finish g)"
proof -
  have g: "gu_enabled g" "agent_ready g" using assms by (simp_all add: starts_capture_def)
  then show "hd (finish g) = Run Stop" by (simp add: finish_def try_agent_def)
  have "Run Start \<notin> set (try_agent g Stop n)" for n by (simp add: try_agent_def split: option.split)
  then show "Run Start \<notin> set (finish g)" using g by (auto simp: finish_def upload_no_run split_beta)
qed

text \<open>
  An analysis that runs at least 25 seconds is picked up after its trace was started: the wait for
  the starting thread ends with the thread, however long the agent takes within its limit, and never
  later than 45 seconds. A shorter one can be picked up while the start is still under way.
\<close>

lemma pickup_waits_for_start:
  "(25 \<le> finish_at \<longrightarrow> stop_time \<le> agent_timeout \<longrightarrow> start_time \<le> agent_timeout \<longrightarrow>
      join_returns finish_at (thread_end stop_time start_time) = max finish_at (thread_end stop_time start_time))
   \<and> join_returns finish_at (thread_end stop_time start_time) \<le> finish_at + join_timeout
   \<and> (\<forall>early < 25. join_returns early (thread_end agent_timeout agent_timeout) < thread_end agent_timeout agent_timeout)"
  by (auto simp: join_returns_def thread_end_def agent_timeout_def start_delay_def join_timeout_def)

end
