(* ===== verification/Ledger.thy ===== *)
theory Ledger
  imports AccessEvents FileTree Prep
begin

text \<open>
  The operator's scripts around a deployment: the digest of a source tree
  (\<open>c2-tree-hash.py\<close>), the acceptance ledger (\<open>update-acceptance-ledger.py\<close>), the check of the
  documentation against it (\<open>check-capability-status.py\<close>), the capability metadata
  (\<open>write-analysis-capability-metadata.py\<close>), the merge of configuration files
  (\<open>merge-cape-ini.py\<close>) and the export of access events (\<open>generate-access-events.py\<close>). Processes
  are the results they return; SHA-256, the JSON decoder and the clock are parameters.
\<close>

section \<open>Digest of a tree\<close>

definition ignored_parts :: "string list" where
  "ignored_parts = [''__pycache__'', ''.pytest_cache'', ''.venv'']"

text \<open>\<open>path.parts\<close> begins with the parts of the root.\<close>

definition counted_file :: "string list \<Rightarrow> string \<times> string \<Rightarrow> bool" where
  "counted_file rparts f \<longleftrightarrow> list_all (\<lambda>p. p \<notin> set ignored_parts) (rparts @ path_key (fst f))"

definition tree_line :: "(string \<Rightarrow> string) \<Rightarrow> string \<times> string \<Rightarrow> string" where
  "tree_line H f = H (snd f) @ ''  '' @ fst f @ [char_of (10 :: nat)]"

definition tree_hash :: "(string \<Rightarrow> string) \<Rightarrow> string list \<Rightarrow> files \<Rightarrow> string" where
  "tree_hash H rparts b =
     H (concat (map (tree_line H) (filter (counted_file rparts) (sort_key (\<lambda>f. path_key (fst f)) b))))"

section \<open>Documentation against the ledger\<close>

definition strip_char :: "char \<Rightarrow> string \<Rightarrow> string" where
  "strip_char c s = rev (dropWhile (\<lambda>x. x = c) (rev (dropWhile (\<lambda>x. x = c) s)))"

definition table_columns :: "string \<Rightarrow> string list" where
  "table_columns l = map strip (split_on (CHR ''|'') (strip_char (CHR ''|'') (strip l)))"

definition gate_char :: "char \<Rightarrow> bool" where
  "gate_char c \<longleftrightarrow> is_lower c \<or> is_digit c \<or> c = CHR ''_''"

definition marker_here :: "string \<Rightarrow> string option" where
  "marker_here s =
     (let rest = drop 12 s; g = takeWhile gate_char rest in
      if starts_with s ''[acceptance:'' \<and> g \<noteq> [] \<and> starts_with (dropWhile gate_char rest) '']'' then Some g else None)"

text \<open>\<open>re.search(r"\[acceptance:([a-z0-9_]+)\]", s)\<close>: the leftmost marker.\<close>

fun find_marker :: "string \<Rightarrow> string option" where
  "find_marker [] = None"
| "find_marker (c # s) = (case marker_here (c # s) of Some g \<Rightarrow> Some g | None \<Rightarrow> find_marker s)"

text \<open>One line: nothing to say, a failure, or an exception.\<close>

definition check_line :: "pyval \<Rightarrow> nat \<times> string \<Rightarrow> string list res" where
  "check_line entries nl =
     (let (n, l) = nl; cs = table_columns l in
      if length cs < 3 \<or> cs ! 1 \<noteq> ''Working'' then Inr []
      else case find_marker (cs ! 2) of
             None \<Rightarrow> Inr [''line '' @ nat_str n @ '': Working lacks an acceptance marker'']
           | Some g \<Rightarrow> bind_res (get_default entries g (JObj [])) (\<lambda>e. bind_res (get_default e ''status'' JNull) (\<lambda>st.
               Inr (if st \<noteq> JStr ''passed''
                    then [''line '' @ nat_str n @ '': acceptance gate '' @ str_repr g @ '' is not passed''] else []))))"

definition check_capabilities :: "(string \<Rightarrow> pyval res) \<Rightarrow> string \<Rightarrow> string \<Rightarrow> unit res" where
  "check_capabilities loads doc ledger =
     bind_res (loads ledger) (\<lambda>l. bind_res (get_default l ''entries'' (JObj [])) (\<lambda>entries.
     bind_res (map_res (check_line entries) (enumerate 1 (split_lines doc))) (\<lambda>fs.
       if concat fs = [] then Inr () else Inl (SystemExit (join [char_of (10 :: nat)] (concat fs))))))"

section \<open>The ledger\<close>

record process =
  pr_code :: int
  pr_out :: string
  pr_err :: string

definition last_1000 :: "string \<Rightarrow> string" where
  "last_1000 s = drop (length s - 1000) s"

definition entry_obj :: "bool \<Rightarrow> string \<Rightarrow> string list \<Rightarrow> string list \<Rightarrow> pyval" where
  "entry_obj passed otherwise evidence limitations =
     JObj [(''status'', JStr (if passed then ''passed'' else otherwise)), (''evidence'', JList (map JStr evidence)),
       (''limitations'', JList (map JStr limitations))]"

text \<open>\<open>command\<close>, which no caller gives a limitation.\<close>

definition command_entry :: "process \<Rightarrow> string \<Rightarrow> pyval" where
  "command_entry p evidence =
     entry_obj (pr_code p = 0) ''failed''
       (if strip (pr_out p) \<noteq> [] then [evidence, last_1000 (strip (pr_out p))] else [evidence])
       (if pr_code p \<noteq> 0 \<and> strip (pr_err p) \<noteq> [] then [last_1000 (strip (pr_err p))] else [])"

definition network_entry :: "process \<Rightarrow> pyval" where
  "network_entry p =
     (let ok = (pr_code p = 0 \<and> \<not> contains ''<forward'' (pr_out p)) in
      entry_obj ok ''failed'' (if ok then [''virsh net-dumpxml: no forward element''] else [])
        (if ok then [] else [if strip (pr_err p) \<noteq> [] then strip (pr_err p) else ''forwarding element present'']))"

definition receipt_entry :: "process \<Rightarrow> pyval" where
  "receipt_entry p =
     entry_obj (pr_code p = 0 \<and> strip (pr_out p) \<noteq> []) ''failed''
       (if strip (pr_out p) \<noteq> [] then [''private responder returned signed receipt log''] else [])
       (if pr_code p = 0 then [] else [strip (pr_err p)])"

definition get_all :: "string \<Rightarrow> pyval list \<Rightarrow> pyval list res" where
  "get_all k = map_res (\<lambda>v. get_default v k JNull)"

definition reboots_passed :: "pyval \<Rightarrow> bool res" where
  "reboots_passed state =
     bind_res (get_default state ''cycles'' (JList [])) (\<lambda>cs.
     bind_res (get_default state ''complete'' JNull) (\<lambda>complete.
     if complete \<noteq> JBool True then Inr False
     else bind_res (items_of cs) (\<lambda>cycles.
       if length cycles \<noteq> 3 then Inr False
       else bind_res (get_all ''phase'' cycles) (\<lambda>phases.
         if phases \<noteq> map JStr [''prepare'', ''after-reboot-1'', ''after-reboot-2''] then Inr False
         else bind_res (get_all ''boot_id'' cycles) (\<lambda>ids.
           if \<not> list_all hashable ids then Inl (TypeError ''unhashable type'')
           else if length (remdups ids) \<noteq> 3 then Inr False
           else bind_res (get_all ''passed'' cycles) (\<lambda>ps. Inr (list_all (\<lambda>p. p = JBool True) ps)))))))"

definition reboot_entry :: "string \<Rightarrow> bool \<Rightarrow> pyval" where
  "reboot_entry path passed =
     entry_obj passed ''pending'' (if passed then [path] else [])
       (if passed then [] else [''requires two operator-initiated reboots''])"

definition required_tests :: "string list" where
  "required_tests = [''wrong_destination'', ''wrong_port'', ''policy_expiry_open_connection'', ''byte_quota'',
     ''connection_ceiling'', ''dns_pin'', ''dns_bypass'', ''responder_unavailable'', ''emergency_stop'', ''approved_destination'']"

definition gateway_passed :: "pyval \<Rightarrow> bool res" where
  "gateway_passed v =
     bind_res (get_default v ''status'' JNull) (\<lambda>st.
     if st \<noteq> JStr ''passed'' \<or> get (obj_of v) ''public_route_absent'' \<noteq> JBool True
        \<or> get (obj_of v) ''captures_preserved'' \<noteq> JBool True \<or> get (obj_of v) ''gateway_revoked'' \<noteq> JBool True
     then Inr False
     else bind_res (get_default v ''tests'' (JObj [])) (\<lambda>tests. bind_res (items_of tests) (\<lambda>present.
       if \<not> list_all (\<lambda>n. JStr n \<in> set present) required_tests then Inr False
       else bind_res (item v ''tests'') (\<lambda>ts.
            bind_res (map_res (\<lambda>n. get_default ts n JNull) required_tests) (\<lambda>rs.
              Inr (list_all (\<lambda>r. r = JStr ''passed'') rs))))))"

definition gateway_entry :: "string \<Rightarrow> bool \<Rightarrow> pyval" where
  "gateway_entry path passed =
     entry_obj passed ''failed'' (if passed then [path] else [])
       (if passed then [] else [''latest gateway negative matrix is incomplete or failed''])"

text \<open>What the run reads: the ledgers, the processes' results and the newest acceptance files.\<close>

record ledger_inputs =
  li_initial :: pyval
  li_existing :: "pyval option"
  li_libvirt :: process
  li_die :: process
  li_pytest :: process
  li_network :: process
  li_receipt :: process
  li_reboots :: "(string \<times> pyval) option"
  li_gateway :: "(string \<times> pyval) option"
  li_accepted :: "(string \<times> pyval) option"
  li_now :: string
  li_boot_id :: string

definition start_ledger :: "ledger_inputs \<Rightarrow> pyval res" where
  "start_ledger i =
     (case li_existing i of
        None \<Rightarrow> Inr (li_initial i)
      | Some e \<Rightarrow> bind_res (get_default e ''schema_version'' JNull) (\<lambda>v.
          Inr (if v = JStr ''1.0'' then e else li_initial i)))"

text \<open>\<open>ledger["entries"][name] = entry\<close>.\<close>

definition put_entry :: "string \<Rightarrow> pyval \<Rightarrow> pyval \<Rightarrow> pyval res" where
  "put_entry name entry l =
     bind_res (item l ''entries'') (\<lambda>es.
       if is_obj es then Inr (JObj (dict_set ''entries'' (JObj (dict_set name entry (obj_of es))) (obj_of l)))
       else Inl (TypeError ''object does not support item assignment''))"

definition reboot_step :: "ledger_inputs \<Rightarrow> pyval \<Rightarrow> pyval res" where
  "reboot_step i l =
     (case li_reboots i of None \<Rightarrow> Inr l
      | Some (path, state) \<Rightarrow> bind_res (reboots_passed state) (\<lambda>ok. put_entry ''libvirt_two_reboots'' (reboot_entry path ok) l))"

definition gateway_step :: "ledger_inputs \<Rightarrow> pyval \<Rightarrow> pyval res" where
  "gateway_step i l =
     (case li_gateway i of None \<Rightarrow> Inr l
      | Some (path, v) \<Rightarrow> bind_res (gateway_passed v) (\<lambda>ok. put_entry ''gateway_negative_matrix'' (gateway_entry path ok) l))"

definition accepted_step :: "ledger_inputs \<Rightarrow> pyval \<Rightarrow> pyval res" where
  "accepted_step i l =
     (case li_accepted i of None \<Rightarrow> Inr l
      | Some (path, v) \<Rightarrow> bind_res (get_default v ''status'' JNull) (\<lambda>st.
          if st = JStr ''passed'' then put_entry ''full_end_to_end'' (entry_obj True ''failed'' [path] []) l else Inr l))"

definition update_ledger :: "ledger_inputs \<Rightarrow> pyval res" where
  "update_ledger i =
     bind_res (start_ledger i) (\<lambda>l0.
     bind_res (put_entry ''libvirt_live_recovery'' (command_entry (li_libvirt i) ''repair-libvirt-runtime.sh --validate-only'') l0) (\<lambda>l1.
     bind_res (put_entry ''die_3_10'' (command_entry (li_die i) ''live pinned DIE validation'') l1) (\<lambda>l2.
     bind_res (put_entry ''c2_compatibility'' (command_entry (li_pytest i) ''compatibility, bundle, feed and Zeek tests'') l2) (\<lambda>l3.
     bind_res (put_entry ''controlled_services_network'' (network_entry (li_network i)) l3) (\<lambda>l4.
     bind_res (put_entry ''controlled_responder_positive'' (receipt_entry (li_receipt i)) l4) (\<lambda>l5.
     bind_res (reboot_step i l5) (\<lambda>l6. bind_res (gateway_step i l6) (\<lambda>l7. bind_res (accepted_step i l7) (\<lambda>l8.
       Inr (JObj (dict_set ''host_boot_id'' (JStr (strip (li_boot_id i)))
         (dict_set ''updated_at_utc'' (JStr (li_now i)) (obj_of l8)))))))))))))"

section \<open>Capability metadata\<close>

definition rule_line :: "string \<Rightarrow> bool" where
  "rule_line l \<longleftrightarrow> list_ex (\<lambda>p. starts_with (lstrip l) p) [''alert '', ''drop '', ''reject '']"

definition capability_metadata ::
    "(string \<Rightarrow> string) \<Rightarrow> string \<Rightarrow> string \<Rightarrow> string list \<Rightarrow> string \<times> string \<Rightarrow> pyval \<Rightarrow> pyval res" where
  "capability_metadata H now suricata_version rule_lines rules lock =
     (let tool = (\<lambda>k. bind_res (item lock ''tools'') (\<lambda>t. item t k)) in
      eval_fields
        [(''schema_version'', Inr (JStr ''1.0'')), (''generated_at_utc'', Inr (JStr now)),
         (''cape_commit'', bind_res (item lock ''cape'') (\<lambda>c. item c ''commit'')),
         (''tools'', eval_fields [(''flare_capa'', tool ''flare_capa''), (''floss'', tool ''floss''),
            (''volatility3'', tool ''volatility3''), (''suricata'', Inr (JObj [(''version'', JStr suricata_version)]))]),
         (''external_data'', item lock ''external_data''),
         (''suricata'', Inr (JObj [(''rules_path'', JStr (fst rules)), (''rules_sha256'', JStr (H (snd rules))),
            (''enabled_rule_count'', JInt (int (length (filter rule_line rule_lines)))),
            (''mode'', JStr ''passive_offline_pcap'')]))])"

section \<open>Configuration files\<close>

text \<open>A parsed configuration: the defaults, and the sections with their own options.\<close>

record ini =
  in_defaults :: "(string \<times> string) list"
  in_sections :: "(string \<times> (string \<times> string) list) list"

text \<open>\<open>over.items(section)\<close>: the defaults, overridden by the section's own options.\<close>

definition section_items :: "ini \<Rightarrow> (string \<times> string) list \<Rightarrow> (string \<times> string) list" where
  "section_items over opts = foldl (\<lambda>d (k, v). dict_set k v d) (in_defaults over) opts"

definition merge_section :: "ini \<Rightarrow> ini \<Rightarrow> string \<times> (string \<times> string) list \<Rightarrow> ini" where
  "merge_section over base sec =
     (let own = (case map_of (in_sections base) (fst sec) of Some o1 \<Rightarrow> o1 | None \<Rightarrow> []) in
      base\<lparr>in_sections := dict_set (fst sec)
        (foldl (\<lambda>d (k, v). dict_set k v d) own (section_items over (snd sec))) (in_sections base)\<rparr>)"

definition merge_ini :: "ini \<Rightarrow> ini \<Rightarrow> ini" where
  "merge_ini base over = foldl (merge_section over) base (in_sections over)"

section \<open>Export of access events\<close>

definition write_access_artifacts ::
    "(access_event list \<Rightarrow> bool) option \<Rightarrow> pyval \<Rightarrow> pyval \<Rightarrow> pyval \<Rightarrow> pyval \<Rightarrow> pyval list option
     \<Rightarrow> string \<Rightarrow> string \<Rightarrow> files \<Rightarrow> files res" where
  "write_access_artifacts validator results clock start_v end_v etw events_path status_path b =
     bind_res (build_access_events validator results clock start_v end_v etw) (\<lambda>(events, st).
       Inr (write_json status_path (status_obj st)
              (write_json events_path (JList (map access_obj events)) b)))"

definition generate_access_events ::
    "(access_event list \<Rightarrow> bool) option \<Rightarrow> pyval \<Rightarrow> pyval \<Rightarrow> pyval list option \<Rightarrow> string \<Rightarrow> string \<Rightarrow> files \<Rightarrow> files res" where
  "generate_access_events validator report clock etw events_path status_path b =
     bind_res (get_default report ''info'' (JObj [])) (\<lambda>info.
     bind_res (get_default info ''started'' JNull) (\<lambda>s.
     bind_res (if truth s then get_default info ''ended'' JNull else Inr JNull) (\<lambda>e.
     if \<not> truth s \<or> \<not> truth e then Inl (SystemExit ''CAPE report lacks the analysis start/end interval'')
     else write_access_artifacts validator report clock s e etw events_path status_path b)))"

section \<open>Lemmas\<close>

lemma tree_hash_ignores: "tree_hash H rparts b = tree_hash H rparts (filter (counted_file rparts) b)"
  by (simp add: tree_hash_def filter_sort [symmetric])

text \<open>Below a directory that is ignored, every tree has the digest of the empty text.\<close>

lemma tree_hash_below_ignored:
  "p \<in> set rparts \<Longrightarrow> p \<in> set ignored_parts \<Longrightarrow> tree_hash H rparts b = H []"
proof -
  assume "p \<in> set rparts" "p \<in> set ignored_parts"
  then have "\<not> counted_file rparts f" for f by (auto simp: counted_file_def list_all_iff)
  then show ?thesis by (simp add: tree_hash_def)
qed

lemma marker_here_Some:
  assumes "marker_here s = Some g"
  shows "\<exists>r. s = ''[acceptance:'' @ g @ '']'' @ r"
proof -
  have s: "starts_with s ''[acceptance:''" and g: "g = takeWhile gate_char (drop 12 s)"
    and e: "starts_with (dropWhile gate_char (drop 12 s)) '']''"
    using assms by (auto simp: marker_here_def Let_def split: if_splits)
  obtain r where r: "s = ''[acceptance:'' @ r" using s by (auto simp: starts_with_iff)
  obtain q where q: "dropWhile gate_char r = '']'' @ q" using e by (auto simp: starts_with_iff r)
  have "r = g @ '']'' @ q" using g q takeWhile_dropWhile_id [of gate_char r] by (simp add: r)
  then show ?thesis by (simp add: r)
qed

lemma find_marker_Some: "find_marker s = Some g \<Longrightarrow> contains (''[acceptance:'' @ g @ '']'') s"
proof (induction s)
  case (Cons c s)
  show ?case
  proof (cases "marker_here (c # s)")
    case None
    then have "contains (''[acceptance:'' @ g @ '']'') s" using Cons by simp
    then show ?thesis by (metis append_Cons contains_iff)
  next
    case (Some h)
    then obtain r where "c # s = ''[acceptance:'' @ g @ '']'' @ r" using marker_here_Some Cons.prems by fastforce
    then show ?thesis unfolding contains_iff by (metis append_Nil append_assoc)
  qed
qed simp

lemma gateway_passed_all:
  assumes "gateway_passed v = Inr True" "n \<in> set required_tests"
  shows "\<exists>ts. item v ''tests'' = Inr (JObj ts) \<and> get ts n = JStr ''passed''"
proof -
  from assms(1) obtain tests rs where t: "item v ''tests'' = Inr tests"
      "map_res (\<lambda>n. get_default tests n JNull) required_tests = Inr rs" "list_all (\<lambda>r. r = JStr ''passed'') rs"
    by (auto simp: gateway_passed_def bind_res_Inr_iff split: if_splits)
  have "list_all2 (\<lambda>n r. get_default tests n JNull = Inr r) required_tests rs"
    using t(2) by (simp add: map_res_Inr_all2)
  then obtain i where i: "i < length rs" "required_tests ! i = n" "get_default tests n JNull = Inr (rs ! i)"
    using assms(2) by (auto simp: list_all2_conv_all_nth in_set_conv_nth)
  then have "get_default tests n JNull = Inr (JStr ''passed'')" using t(3) i by (auto simp: list_all_iff)
  then show ?thesis
    using t(1) by (cases tests) (auto simp: get_default_def get_def split: option.splits)
qed

lemma foldl_set_lookup:
  "map_of (foldl (\<lambda>d (k, v). dict_set k v d) d xs) k = (case map_of (rev xs) k of Some v \<Rightarrow> Some v | None \<Rightarrow> map_of d k)"
  by (induction xs rule: rev_induct) (auto split: option.split)

lemma merge_section_lookup:
  "map_of (in_sections (merge_section over base (s, opts))) t =
     (if t = s then Some (foldl (\<lambda>d (k, v). dict_set k v d)
        (case map_of (in_sections base) s of Some o1 \<Rightarrow> o1 | None \<Rightarrow> []) (section_items over opts))
      else map_of (in_sections base) t)"
  by (simp add: merge_section_def Let_def)

text \<open>A merged file has the options of the overlay's sections, the others as they were.\<close>

lemma merge_ini_lookup:
  assumes "distinct (map fst (in_sections over))" "map_of (in_sections over) s = Some opts"
  shows "map_of (in_sections (merge_ini base over)) s = Some (foldl (\<lambda>d (k, v). dict_set k v d)
     (case map_of (in_sections base) s of Some o1 \<Rightarrow> o1 | None \<Rightarrow> []) (section_items over opts))"
proof -
  have "map_of (in_sections (foldl (merge_section over) b xs)) s =
      (case map_of xs s of
         None \<Rightarrow> map_of (in_sections b) s
       | Some opts \<Rightarrow> Some (foldl (\<lambda>d (k, v). dict_set k v d)
           (case map_of (in_sections b) s of Some o1 \<Rightarrow> o1 | None \<Rightarrow> []) (section_items over opts)))"
    if "distinct (map fst xs)" for xs b
    using that
  proof (induction xs arbitrary: b)
    case (Cons x xs)
    obtain t os where x: "x = (t, os)" by (cases x)
    show ?case
    proof (cases "t = s")
      case True
      then have "map_of xs s = None" using Cons.prems by (simp add: x map_of_eq_None_iff)
      then show ?thesis using Cons True by (simp add: x merge_section_lookup)
    next
      case False
      then show ?thesis using Cons by (simp add: x merge_section_lookup split: option.split)
    qed
  qed simp
  from this [OF assms(1), of base] show ?thesis by (simp add: merge_ini_def assms(2))
qed

lemma merge_ini_option:
  assumes "distinct (map fst (in_sections over))" "map_of (in_sections over) s = Some opts"
    and "map_of (in_sections (merge_ini base over)) s = Some merged"
  shows "map_of merged k = (case map_of (rev (section_items over opts)) k of Some v \<Rightarrow> Some v
     | None \<Rightarrow> (case map_of (in_sections base) s of Some o1 \<Rightarrow> map_of o1 k | None \<Rightarrow> None))"
  using assms(3) unfolding merge_ini_lookup [OF assms(1,2)] by (auto simp: foldl_set_lookup split: option.splits)

section \<open>Properties\<close>

text \<open>
  C40. Nothing is documented as working that has not been accepted: when the check passes, every table row
  whose second column says Working has a marker in its third, and the gate the marker names has
  passed in the ledger.
\<close>

theorem working_rows_accepted:
  assumes "check_capabilities loads doc ledger = Inr ()"
  shows "\<exists>l entries. loads ledger = Inr l \<and> get_default l ''entries'' (JObj []) = Inr entries
     \<and> (\<forall>line \<in> set (split_lines doc). 3 \<le> length (table_columns line) \<and> table_columns line ! 1 = ''Working'' \<longrightarrow>
          (\<exists>g e. contains (''[acceptance:'' @ g @ '']'') (table_columns line ! 2)
             \<and> get_default entries g (JObj []) = Inr e \<and> get_default e ''status'' JNull = Inr (JStr ''passed'')))"
proof -
  from assms obtain l entries fs where l: "loads ledger = Inr l" "get_default l ''entries'' (JObj []) = Inr entries"
    and fs: "map_res (check_line entries) (enumerate 1 (split_lines doc)) = Inr fs" "concat fs = []"
    by (auto simp: check_capabilities_def bind_res_Inr_iff split: if_splits)
  have "\<exists>g e. contains (''[acceptance:'' @ g @ '']'') (table_columns line ! 2)
      \<and> get_default entries g (JObj []) = Inr e \<and> get_default e ''status'' JNull = Inr (JStr ''passed'')"
    if line: "line \<in> set (split_lines doc)" "3 \<le> length (table_columns line)" "table_columns line ! 1 = ''Working''" for line
  proof -
    obtain i where i: "i < length (split_lines doc)" "split_lines doc ! i = line" using line(1) by (auto simp: in_set_conv_nth)
    have len: "length fs = length (split_lines doc)" using map_res_length [OF fs(1)] by simp
    have "check_line entries (1 + i, line) = Inr (fs ! i)"
      using fs(1) i by (auto simp: map_res_Inr_all2 list_all2_conv_all_nth nth_enumerate_eq)
    moreover have "fs ! i = []" using fs(2) i len by simp
    ultimately show ?thesis
      using line(2,3) find_marker_Some by (auto simp: check_line_def bind_res_Inr_iff Let_def split: option.splits if_splits)
  qed
  then show ?thesis using l by blast
qed

lemma working_rows_witness:
  "\<exists>g. contains (''[acceptance:'' @ g @ '']'') (table_columns ''| capa | Working | [acceptance:die_3_10] |'' ! 2)"
proof -
  have c: "check_capabilities (\<lambda>_. Inr (JObj [(''entries'', JObj [(''die_3_10'', JObj [(''status'', JStr ''passed'')])])]))
      ''| capa | Working | [acceptance:die_3_10] |'' ''ledger'' = Inr ()" by code_simp
  have "''| capa | Working | [acceptance:die_3_10] |'' \<in> set (split_lines ''| capa | Working | [acceptance:die_3_10] |'')"
    "3 \<le> length (table_columns ''| capa | Working | [acceptance:die_3_10] |'')"
    "table_columns ''| capa | Working | [acceptance:die_3_10] |'' ! 1 = ''Working''" by code_simp+
  with working_rows_accepted [OF c] show ?thesis by blast
qed

end
