(* ===== verification/GoldenReport.thy ===== *)
theory GoldenReport
  imports FileTree
begin

text \<open>
  The draft of a golden-image report (\<open>scripts/validation/draft-golden-image-report.py\<close>): a
  Markdown text over the evidence that was retrieved from the guest. It is always a rejection that a
  reviewer has to lift. The JSON decoder and the clock's texts are parameters.
\<close>

section \<open>Categories\<close>

definition required_categories :: "string list" where
  "required_categories =
     [''SMBIOS/DMI vendor/product/serial checks'', ''BIOS/firmware strings where configurable'',
      ''Obvious QEMU/KVM/VMware/VirtualBox registry artifacts'', ''Hostname/username/workgroup blacklist checks'',
      ''Obvious sandbox/security-tool process/service-name checks'', ''Default QEMU disk/CD-ROM/device strings where configurable'',
      ''CPU count'', ''RAM size'', ''Disk size/free space'', ''Recent files not empty'', ''Browser profile not empty'',
      ''Normal installed software present'', ''Downloads/TEMP profile patterns not pristine'',
      ''Boot warm-up and human-interaction evidence'']"

definition non_blocking_categories :: "string list" where
  "non_blocking_categories =
     [''RDTSC/timing checks'', ''CPUID timing side channels'', ''Debugger checks'', ''Deep hypervisor introspection'',
      ''Requires driver modification/re-signing'', ''Requires custom QEMU build'', ''Requires kernel-level patching'',
      ''Malware-specific bypass-code category'']"

section \<open>Reading the evidence\<close>

text \<open>The first file of that name in path order, as its path below the root.\<close>

definition first_evidence :: "files \<Rightarrow> string \<Rightarrow> (string \<times> string) option" where
  "first_evidence b name =
     (case sort_key (\<lambda>f. path_key (fst f)) (filter (\<lambda>f. base_name (fst f) = name) b) of
        [] \<Rightarrow> None | f # fs \<Rightarrow> Some f)"

fun field_text :: "string \<Rightarrow> pyval \<Rightarrow> string" where
  "field_text dflt JNull = dflt"
| "field_text dflt (JList xs) = join '', '' (map (\<lambda>x. field_text [] x) xs)"
| "field_text dflt (JObj d) = join '', '' (map (\<lambda>p. fst p @ ''='' @ field_text [] (snd p)) d)"
| "field_text dflt v = py_str v"

fun nested :: "pyval \<Rightarrow> string list \<Rightarrow> pyval" where
  "nested v [] = v"
| "nested v (k # ks) = (if is_obj v then nested (get (obj_of v) k) ks else JNull)"

record report_env =
  re_load :: "string \<Rightarrow> pyval res"
  re_root :: string
  re_stamp :: string
  re_date :: string

definition full_path :: "report_env \<Rightarrow> string \<Rightarrow> string" where
  "full_path en p = re_root en @ ''/'' @ p"

definition rel :: "report_env \<Rightarrow> (string \<times> string) option \<Rightarrow> string" where
  "rel en f = (case f of None \<Rightarrow> ''pending'' | Some g \<Rightarrow> full_path en (fst g))"

definition read_or_empty :: "report_env \<Rightarrow> (string \<times> string) option \<Rightarrow> pyval res" where
  "read_or_empty en f = (case f of None \<Rightarrow> Inr (JObj []) | Some g \<Rightarrow> re_load en (snd g))"

text \<open>Summary and path of a tool's result.\<close>

definition tool_summary :: "report_env \<Rightarrow> files \<Rightarrow> string \<Rightarrow> (string \<times> string) res" where
  "tool_summary en b name =
     (case first_evidence b (name @ ''.result.json'') of
        None \<Rightarrow> Inr (''Pending review'', ''pending'')
      | Some f \<Rightarrow>
          bind_res (re_load en (snd f)) (\<lambda>r.
          bind_res (get_default r ''sha256'' JNull) (\<lambda>h. bind_res (get_default r ''completed'' JNull) (\<lambda>c.
          bind_res (get_default r ''exit_code'' JNull) (\<lambda>x.
            Inr (''sha256='' @ field_text ''unknown'' h @ ''; completed='' @ field_text ''unknown'' c
                   @ ''; exit_code='' @ field_text ''unknown'' x, full_path en (fst f)))))))"

section \<open>The report\<close>

record report_args =
  ra_image :: string
  ra_snapshot :: string
  ra_git_ref :: string
  ra_kvm :: string
  ra_vmcloak :: string
  ra_hardening :: string
  ra_task_note :: string
  ra_task_report :: string
  ra_bundle :: string

definition md_row :: "string list \<Rightarrow> string" where
  "md_row cs = ''| '' @ join '' | '' cs @ '' |''"

definition machine_text :: "pyval \<Rightarrow> pyval res" where
  "machine_text sys =
     (let computer = nested sys [''computer_system'']; c = (if truth computer then computer else JObj []);
          disks = nested sys [''disks'']; d = (if truth disks then disks else JList []) in
      bind_res (get_default c ''NumberOfLogicalProcessors'' JNull) (\<lambda>n.
      bind_res (get_default c ''TotalPhysicalMemory'' JNull) (\<lambda>m.
        Inr (JStr (field_text ''Pending review'' n @ '' logical CPUs; '' @ field_text ''Pending review'' m
          @ '' bytes RAM; disks='' @ field_text ''Pending review'' d)))))"

definition metadata_lines :: "report_env \<Rightarrow> report_args \<Rightarrow> string \<Rightarrow> string \<Rightarrow> string \<Rightarrow> string \<Rightarrow> string list" where
  "metadata_lines en a os_text machine al pafish =
     [''# Golden Image Anti-Evasion Validation Report'', [], ''## Run Metadata'', [], ''| Field | Value |'', ''|---|---|'',
      md_row [''Report ID'', ''anti-evasion-'' @ re_stamp en], md_row [''Validation date'', re_date en],
      ''| Validator | WinST/DT anti-evasion evidence collector plus manual strict-subset review |'',
      md_row [''Golden image build ID'', ra_image a], md_row [''Golden image path/snapshot'', ra_snapshot a],
      md_row [''CAPEv2 git ref'', ra_git_ref a], md_row [''CAPEv2 `kvm-qemu.sh` used'', ra_kvm a],
      md_row [''VMCloak build date'', ra_vmcloak a], md_row [''Post-hardening script/ref'', ra_hardening a],
      md_row [''Windows edition/version/build'', os_text], md_row [''CPU/RAM/disk configuration'', machine],
      md_row [''al-khaser version/ref'', al], md_row [''Pafish version/ref'', pafish], []]"

definition sanity_lines :: "report_env \<Rightarrow> report_args \<Rightarrow> string list" where
  "sanity_lines en a =
     [''## Detonation Sanity Check'', [], ''| Check | Result | Evidence/notes |'', ''|---|---|---|'',
      md_row [''CAPEv2 stock benign detonation completed'', ''Pass'', ra_task_note a],
      md_row [''Guest booted from hardened snapshot'', ''Pass'', ra_snapshot a],
      ''| CAPE agent reachable | Pass | CAPE agent was used to stage and retrieve validation evidence |'',
      md_row [''Result retrieval completed'', ''Pass'', re_root en], []]"

definition pending_row :: "report_env \<Rightarrow> string \<Rightarrow> string" where
  "pending_row en c = md_row [c, ''Pending review'', ''Pending review'', ''Review raw outputs under `'' @ re_root en @ ''`'']"

definition residual_row :: "report_env \<Rightarrow> string \<Rightarrow> string" where
  "residual_row en c = md_row [c, ''Pending review'', ''Pending review'', ''Record observed failures from `'' @ re_root en @ ''`'']"

definition gate_lines :: "report_env \<Rightarrow> string list" where
  "gate_lines en =
     [''## Required Gate Results'', [],
      ''Use `Pass`, `Fail`, or `N/A` after reviewing the raw tool output. Any `Fail` in this table rejects the golden image for MVP use.'',
      [], ''| Category | al-khaser | Pafish | Evidence/notes |'', ''|---|---|---|---|'']
     @ map (pending_row en) required_categories
     @ [[], ''## Non-Blocking Findings'', [],
        ''These findings do not block MVP acceptance, but every observed failure must be recorded.'', [],
        ''| Category | al-khaser | Pafish | Residual-risk note |'', ''|---|---|---|---|'']
     @ map (residual_row en) non_blocking_categories"

definition decision_row :: string where
  "decision_row = ''| MVP gate decision | Rejected pending evidence review |''"

definition decision_lines :: "string list" where
  "decision_lines =
     [[], ''## Decision'', [], ''| Field | Value |'', ''|---|---|'', decision_row,
      ''| Rejection reason, if any | Strict-subset category mapping has not been completed |'',
      ''| Required follow-up before use | Review al-khaser/Pafish output, fill every required category, then accept only if no required category fails |'',
      ''| Residual risk accepted by | Pending |'', []]"

definition attachment :: "string \<Rightarrow> string \<Rightarrow> string" where
  "attachment what p = ''- '' @ what @ '': `'' @ p @ ''`''"

definition attachment_lines :: "report_env \<Rightarrow> report_args \<Rightarrow> files \<Rightarrow> string \<Rightarrow> string \<Rightarrow> string list" where
  "attachment_lines en a b al_result pafish_result =
     (let p = (\<lambda>n. rel en (first_evidence b n)) in
      [''## Attachments'', [], attachment ''Evidence summary'' (p ''summary.json''),
       attachment ''System context'' (p ''system-context.json''), attachment ''al-khaser result'' al_result,
       attachment ''al-khaser stdout'' (p ''al-khaser.stdout.txt''), attachment ''al-khaser stderr'' (p ''al-khaser.stderr.txt''),
       attachment ''Pafish result'' pafish_result, attachment ''Pafish stdout'' (p ''pafish.stdout.txt''),
       attachment ''Pafish stderr'' (p ''pafish.stderr.txt''),
       attachment ''CAPEv2 benign detonation task/report'' (ra_task_report a),
       attachment ''WinST/DT handoff bundle'' (ra_bundle a)])"

definition report_lines :: "report_env \<Rightarrow> report_args \<Rightarrow> files \<Rightarrow> string list res" where
  "report_lines en a b =
     bind_res (read_or_empty en (first_evidence b ''system-context.json'')) (\<lambda>sys.
     bind_res (read_or_empty en (first_evidence b ''summary.json'')) (\<lambda>summary.
     bind_res (tool_summary en b ''al-khaser'') (\<lambda>(al, al_result).
     bind_res (tool_summary en b ''pafish'') (\<lambda>(pafish, pafish_result).
     let os_info = nested sys [''windows_version'']; os_obj = (if truth os_info then os_info else JObj []) in
     bind_res (machine_text sys) (\<lambda>machine.
       Inr (metadata_lines en a (field_text ''Pending review'' os_obj) (py_str machine) al pafish
            @ sanity_lines en a @ gate_lines en @ decision_lines @ attachment_lines en a b al_result pafish_result))))))"

definition render_report :: "report_env \<Rightarrow> report_args \<Rightarrow> files \<Rightarrow> string res" where
  "render_report en a b = bind_res (report_lines en a b) (\<lambda>ls. Inr (join [char_of (10 :: nat)] ls @ [char_of (10 :: nat)]))"

section \<open>Lemmas\<close>

text \<open>Whatever the evidence says, the draft rejects and leaves every required category open.\<close>

lemma draft_rejects:
  assumes "report_lines en a b = Inr ls"
  shows "decision_row \<in> set ls" "\<forall>c \<in> set required_categories. pending_row en c \<in> set ls"
    "\<forall>c \<in> set non_blocking_categories. residual_row en c \<in> set ls"
  using assms unfolding report_lines_def bind_res_Inr_iff Let_def
  by (auto simp: decision_lines_def gate_lines_def bind_res_Inr_iff)

lemma join_contains: "l \<in> set ls \<Longrightarrow> \<exists>a b. join s ls = a @ l @ b"
proof (induction s ls rule: join.induct)
  case (2 s p)
  then show ?case by (auto intro: exI [of _ "[]"])
next
  case (3 s p q ps)
  show ?case
  proof (cases "l = p")
    case True
    then show ?thesis by (metis append_Nil join.simps(3))
  next
    case False
    then obtain a b where "join s (q # ps) = a @ l @ b" using 3 by auto
    then have "join s (p # q # ps) = (p @ s @ a) @ l @ b" by simp
    then show ?thesis by blast
  qed
qed simp

text \<open>A text from the guest is inserted as it is: with line feeds in it the guest writes lines of the report.\<close>

lemma guest_text_forges_lines:
  assumes "report_lines en a b = Inr ls" "first_evidence b ''system-context.json'' = Some f"
    and "re_load en (snd f) = Inr (JObj [(''windows_version'', JStr v)])"
    and "v = x @ [char_of (10 :: nat)] @ forged @ [char_of (10 :: nat)] @ y"
  shows "\<exists>u w. render_report en a b = Inr (u @ [char_of (10 :: nat)] @ forged @ [char_of (10 :: nat)] @ w)"
proof -
  have v: "truth (JStr v)" by (simp add: assms(4))
  have row: "md_row [''Windows edition/version/build'', v] \<in> set ls"
    using assms(1) v unfolding report_lines_def bind_res_Inr_iff Let_def
    by (auto simp: assms(2,3) read_or_empty_def metadata_lines_def bind_res_Inr_iff)
  obtain p q where "join [char_of (10 :: nat)] ls = p @ md_row [''Windows edition/version/build'', v] @ q"
    using join_contains [OF row] by blast
  then have "render_report en a b = Inr ((p @ ''| '' @ ''Windows edition/version/build'' @ '' | '' @ x) @ [char_of (10 :: nat)] @ forged
       @ [char_of (10 :: nat)] @ (y @ '' |'' @ q @ [char_of (10 :: nat)]))"
    by (simp add: render_report_def assms(1,4) md_row_def)
  then show ?thesis by blast
qed

end
