(* ===== verification/Netmon.thy ===== *)
theory Netmon
  imports PyBytes TimeText
begin

text \<open>
  Conversion of Network Monitor captures (\<open>tools/netmon2pcap.py\<close>): from the bytes of a file to the
  times and frames that are written. Scapy, which decodes a frame and writes the result, is the
  parameter \<open>decodes\<close>: whether it accepts a frame.
\<close>

section \<open>Reading\<close>

text \<open>\<open>struct.unpack_from\<close> of one little-endian integer.\<close>

definition le_at :: "nat \<Rightarrow> bytes \<Rightarrow> nat \<Rightarrow> nat res" where
  "le_at n b i = (if i + n \<le> length b then Inr (le_value (slice i n b)) else Inl StructError)"

definition le_list_at :: "nat \<Rightarrow> bytes \<Rightarrow> nat \<Rightarrow> nat \<Rightarrow> nat list res" where
  "le_list_at n b i k = map_res (\<lambda>j. le_at n b (i + n * j)) [0..<k]"

text \<open>\<open>datetime(year, month, day, hour, minute, second, microsecond)\<close> in UTC, as microseconds.\<close>

definition datetime_us :: "int \<Rightarrow> int \<Rightarrow> int \<Rightarrow> int \<Rightarrow> int \<Rightarrow> int \<Rightarrow> int \<Rightarrow> int res" where
  "datetime_us y m d h mi s us =
     (if 1 \<le> y \<and> y \<le> 9999 \<and> 1 \<le> m \<and> m \<le> 12 \<and> 1 \<le> d \<and> d \<le> days_in_month y m
         \<and> 0 \<le> h \<and> h < 24 \<and> 0 \<le> mi \<and> mi < 60 \<and> 0 \<le> s \<and> s < 60 \<and> 0 \<le> us \<and> us < 10 ^ 6
      then Inr ((ymd_ord y m d - epoch_ord) * day_us + ((h * 60 + mi) * 60 + s) * 10 ^ 6 + us)
      else Inl (ValueError ''day is out of range for month''))"

definition start_us :: "nat list \<Rightarrow> int res" where
  "start_us st = datetime_us (int (st ! 0)) (int (st ! 1)) (int (st ! 3)) (int (st ! 4)) (int (st ! 5)) (int (st ! 6))
     (int (st ! 7) * 1000)"

text \<open>One frame of the table; a frame that scapy rejects is left out.\<close>

definition read_frame :: "(bytes \<Rightarrow> bool) \<Rightarrow> int \<Rightarrow> bytes \<Rightarrow> nat \<Rightarrow> (pyfloat \<times> bytes) option res" where
  "read_frame decodes start b i =
     bind_res (le_at 8 b i) (\<lambda>ts. bind_res (le_at 4 b (i + 8)) (\<lambda>orig. bind_res (le_at 4 b (i + 12)) (\<lambda>incl.
       let frame = slice (i + 16) incl b in
       if \<not> decodes frame then Inr None
       else if \<not> in_calendar (start + int ts) then Inl OverflowError
       else Inr (Some (timestamp (utc_of (start + int ts)), frame)))))"

definition convert :: "(bytes \<Rightarrow> bool) \<Rightarrow> string \<Rightarrow> bytes \<Rightarrow> (pyfloat \<times> bytes) list res" where
  "convert decodes src b =
     (if take 4 b \<noteq> map char_byte ''GMBU'' then Inl (ValueError (src @ '': not a NetMon 2.x capture (bad magic)''))
      else bind_res (le_list_at 2 b 8 8) (\<lambda>st. bind_res (start_us st) (\<lambda>start.
           bind_res (le_at 4 b 24) (\<lambda>table. bind_res (le_at 4 b 28) (\<lambda>len.
           bind_res (le_list_at 4 b table (len div 4)) (\<lambda>offsets.
           bind_res (map_res (read_frame decodes start b) offsets) (\<lambda>ps. Inr (List.map_filter id ps))))))))"

section \<open>Writing\<close>

text \<open>A capture in that format: the frames behind the header, the table at the end.\<close>

definition frame_record :: "nat \<times> nat \<times> bytes \<Rightarrow> bytes" where
  "frame_record f = (let (ts, orig, frame) = f in le_bytes 8 ts @ le_bytes 4 orig @ le_bytes 4 (length frame) @ frame)"

fun frame_offsets :: "nat \<Rightarrow> (nat \<times> nat \<times> bytes) list \<Rightarrow> nat list" where
  "frame_offsets i [] = []"
| "frame_offsets i (f # fs) = i # frame_offsets (i + 16 + length (snd (snd f))) fs"

definition frame_area :: "(nat \<times> nat \<times> bytes) list \<Rightarrow> bytes" where
  "frame_area fs = concat (map frame_record fs)"

definition netmon_file :: "bytes \<Rightarrow> nat list \<Rightarrow> bytes \<Rightarrow> (nat \<times> nat \<times> bytes) list \<Rightarrow> bytes" where
  "netmon_file version st rest fs =
     map char_byte ''GMBU'' @ version @ concat (map (le_bytes 2) st) @ le_bytes 4 (128 + length (frame_area fs))
     @ le_bytes 4 (4 * length fs) @ rest @ frame_area fs @ concat (map (le_bytes 4) (frame_offsets 128 fs))"

section \<open>Lemmas\<close>

lemma le_at_bytes: "length p = i \<Longrightarrow> k < 256 ^ n \<Longrightarrow> le_at n (p @ le_bytes n k @ r) i = Inr k"
  by (auto simp: le_at_def slice_at)

lemma length_le_list: "length (concat (map (le_bytes n) ks)) = n * length ks"
  by (induction ks) simp_all

lemma le_list_bytes:
  assumes "length p = i" "\<forall>k \<in> set ks. k < 256 ^ n"
  shows "le_list_at n (p @ concat (map (le_bytes n) ks) @ r) i (length ks) = Inr ks"
  unfolding le_list_at_def using assms
proof (induction ks arbitrary: r rule: rev_induct)
  case (snoc k ks)
  have "le_at n ((p @ concat (map (le_bytes n) ks)) @ le_bytes n k @ r) (i + n * length ks) = Inr k"
    by (rule le_at_bytes) (use snoc.prems in \<open>simp_all add: length_le_list\<close>)
  moreover have "map_res (\<lambda>j. le_at n (p @ concat (map (le_bytes n) ks) @ le_bytes n k @ r) (i + n * j)) [0..<length ks] = Inr ks"
    using snoc by simp
  ultimately show ?case by (simp add: map_res_append)
qed simp

lemma length_frame_record: "length (frame_record f) = 16 + length (snd (snd f))"
  by (simp add: frame_record_def split_beta)

lemma length_frame_offsets [simp]: "length (frame_offsets i fs) = length fs"
  by (induction fs arbitrary: i) simp_all

lemma frame_offsets_bound: "\<forall>k \<in> set (frame_offsets i fs). k \<le> i + length (frame_area fs)"
proof (induction fs arbitrary: i)
  case (Cons f fs)
  have "\<forall>k \<in> set (frame_offsets (i + 16 + length (snd (snd f))) fs). k \<le> i + 16 + length (snd (snd f)) + length (frame_area fs)"
    by (rule Cons.IH)
  then show ?case by (auto simp: frame_area_def length_frame_record)
qed simp

definition frame_fits :: "int \<Rightarrow> nat \<times> nat \<times> bytes \<Rightarrow> bool" where
  "frame_fits start f \<longleftrightarrow> fst f < 256 ^ 8 \<and> fst (snd f) < 256 ^ 4 \<and> length (snd (snd f)) < 256 ^ 4 \<and> in_calendar (start + int (fst f))"

lemma read_frame_record:
  assumes "length p = i" "frame_fits start f"
  shows "read_frame decodes start (p @ frame_record f @ r) i =
     Inr (if decodes (snd (snd f)) then Some (timestamp (utc_of (start + int (fst f))), snd (snd f)) else None)"
proof -
  obtain ts orig fr where f: "f = (ts, orig, fr)" by (cases f)
  let ?b = "p @ le_bytes 8 ts @ le_bytes 4 orig @ le_bytes 4 (length fr) @ fr @ r"
  have b: "p @ frame_record f @ r = ?b" by (simp add: frame_record_def f)
  have "le_at 8 ?b i = Inr ts" using assms by (intro le_at_bytes) (simp_all add: frame_fits_def f)
  moreover have "le_at 4 ((p @ le_bytes 8 ts) @ le_bytes 4 orig @ le_bytes 4 (length fr) @ fr @ r) (i + 8) = Inr orig"
    using assms by (intro le_at_bytes) (simp_all add: frame_fits_def f)
  moreover have "le_at 4 ((p @ le_bytes 8 ts @ le_bytes 4 orig) @ le_bytes 4 (length fr) @ fr @ r) (i + 12) = Inr (length fr)"
    using assms by (intro le_at_bytes) (simp_all add: frame_fits_def f)
  moreover have "slice (i + 16) (length fr) ((p @ le_bytes 8 ts @ le_bytes 4 orig @ le_bytes 4 (length fr)) @ fr @ r) = fr"
    by (rule slice_at) (use assms in simp_all)
  ultimately show ?thesis using assms(2) unfolding b read_frame_def by (simp add: frame_fits_def f)
qed

lemma read_frames:
  assumes "length p = i" "\<forall>f \<in> set fs. frame_fits start f"
  shows "map_res (read_frame decodes start (p @ frame_area fs @ r)) (frame_offsets i fs) =
     Inr (map (\<lambda>f. if decodes (snd (snd f)) then Some (timestamp (utc_of (start + int (fst f))), snd (snd f)) else None) fs)"
  using assms
proof (induction fs arbitrary: p i)
  case (Cons f fs)
  have "map_res (read_frame decodes start ((p @ frame_record f) @ frame_area fs @ r)) (frame_offsets (i + 16 + length (snd (snd f))) fs) =
     Inr (map (\<lambda>f. if decodes (snd (snd f)) then Some (timestamp (utc_of (start + int (fst f))), snd (snd f)) else None) fs)"
    by (rule Cons.IH) (use Cons.prems in \<open>simp_all add: length_frame_record\<close>)
  then show ?case
    using read_frame_record [of p i start f decodes "frame_area fs @ r"] Cons.prems by (simp add: frame_area_def)
qed simp

lemma convert_written:
  assumes "length version = 4" "length st = 8" "\<forall>k \<in> set st. k < 65536" "length rest = 96"
    and "start_us st = Inr start" "\<forall>f \<in> set fs. frame_fits start f" "128 + length (frame_area fs) < 256 ^ 4" "4 * length fs < 256 ^ 4"
  shows "convert decodes src (netmon_file version st rest fs) =
     Inr (map (\<lambda>f. (timestamp (utc_of (start + int (fst f))), snd (snd f))) (filter (\<lambda>f. decodes (snd (snd f))) fs))"
proof -
  let ?magic = "map char_byte ''GMBU''"
  let ?st = "concat (map (le_bytes 2) st)"
  let ?t = "le_bytes 4 (128 + length (frame_area fs))"
  let ?n = "le_bytes 4 (4 * length fs)"
  let ?o = "concat (map (le_bytes 4) (frame_offsets 128 fs))"
  let ?b = "?magic @ version @ ?st @ ?t @ ?n @ rest @ frame_area fs @ ?o"
  have st: "length ?st = 16" using assms(2) by (simp add: length_le_list)
  have "le_list_at 2 ((?magic @ version) @ ?st @ ?t @ ?n @ rest @ frame_area fs @ ?o) 8 (length st) = Inr st"
    by (rule le_list_bytes) (use assms in simp_all)
  then have 1: "le_list_at 2 ?b 8 8 = Inr st" using assms(2) by simp
  have "le_at 4 ((?magic @ version @ ?st) @ ?t @ ?n @ rest @ frame_area fs @ ?o) 24 = Inr (128 + length (frame_area fs))"
    by (rule le_at_bytes) (use assms st in simp_all)
  then have 2: "le_at 4 ?b 24 = Inr (128 + length (frame_area fs))" by simp
  have "le_at 4 ((?magic @ version @ ?st @ ?t) @ ?n @ rest @ frame_area fs @ ?o) 28 = Inr (4 * length fs)"
    by (rule le_at_bytes) (use assms st in simp_all)
  then have 3: "le_at 4 ?b 28 = Inr (4 * length fs)" by simp
  have "le_list_at 4 ((?magic @ version @ ?st @ ?t @ ?n @ rest @ frame_area fs) @ ?o @ []) (128 + length (frame_area fs))
      (length (frame_offsets 128 fs)) = Inr (frame_offsets 128 fs)"
    by (rule le_list_bytes) (use assms st frame_offsets_bound [of 128 fs] in auto)
  then have 4: "le_list_at 4 ?b (128 + length (frame_area fs)) (length fs) = Inr (frame_offsets 128 fs)" by simp
  have "map_res (read_frame decodes start ((?magic @ version @ ?st @ ?t @ ?n @ rest) @ frame_area fs @ ?o)) (frame_offsets 128 fs) =
     Inr (map (\<lambda>f. if decodes (snd (snd f)) then Some (timestamp (utc_of (start + int (fst f))), snd (snd f)) else None) fs)"
    by (rule read_frames) (use assms st in simp_all)
  then have 5: "map_res (read_frame decodes start ?b) (frame_offsets 128 fs) =
     Inr (map (\<lambda>f. if decodes (snd (snd f)) then Some (timestamp (utc_of (start + int (fst f))), snd (snd f)) else None) fs)" by simp
  have m: "take 4 ?b = ?magic" by simp
  have f: "List.map_filter id (map (\<lambda>f. if decodes (snd (snd f)) then Some (timestamp (utc_of (start + int (fst f))), snd (snd f)) else None) fs)
     = map (\<lambda>f. (timestamp (utc_of (start + int (fst f))), snd (snd f))) (filter (\<lambda>f. decodes (snd (snd f))) fs)"
    by (induction fs) (simp_all add: List.map_filter_simps)
  have "convert decodes src ?b = Inr (List.map_filter id (map (\<lambda>f. if decodes (snd (snd f))
      then Some (timestamp (utc_of (start + int (fst f))), snd (snd f)) else None) fs))"
    using 1 2 3 4 5 assms(5) unfolding convert_def m by simp
  then show ?thesis unfolding f netmon_file_def .
qed

end
