(* ===== verification/Scenarios.thy ===== *)
theory Scenarios
  imports Report
begin

text \<open>
  The synthetic host and network timelines of \<open>tools/etw_scenario_gen.py\<close>, and what correlation and
  provenance make of each of them.
\<close>

section \<open>Building blocks\<close>

text \<open>2026-02-03 16:13:00 UTC in microseconds, and a time some seconds after it.\<close>

definition scenario_start :: int where
  "scenario_start = (ymd_ord 2026 2 3 - epoch_ord) * day_us + (16 * 60 + 13) * 60 * 10 ^ 6"

definition at_seconds :: "int \<Rightarrow> string" where
  "at_seconds s = isoformat (utc_of (scenario_start + s * 10 ^ 6))"

definition access_at :: "string \<Rightarrow> string \<Rightarrow> int \<Rightarrow> access" where
  "access_at data_type api_call s = RawAccess (Some (at_seconds s)) (Some data_type) (Some api_call) None"

definition net_at :: "string \<Rightarrow> string \<Rightarrow> int \<Rightarrow> int \<Rightarrow> pyfloat \<Rightarrow> bool \<Rightarrow> net_event" where
  "net_at dst kind port s conf rep = (blank_event kind dst port (at_seconds s) conf rep)\<lparr>ne_plaintext := True\<rparr>"

definition usual_confidence :: pyfloat where
  "usual_confidence = rnd (8 / 10)"

type_synonym scenario = "access list \<times> net_event list"

section \<open>Scenarios\<close>

definition aligned :: scenario where
  "aligned = ([access_at ''browser_credentials'' ''CryptUnprotectData'' 1],
     [(net_at ''198.51.100.7'' ''exfil'' 80 4 usual_confidence False)\<lparr>ne_http_uri := Some ''STOR passwords.txt''\<rparr>])"

definition skewed :: scenario where
  "skewed = ([access_at ''browser_credentials'' ''CryptUnprotectData'' 1],
     [net_at ''198.51.100.7'' ''exfil'' 80 600 usual_confidence False])"

definition many_to_many :: scenario where
  "many_to_many =
     ([access_at ''browser_credentials'' ''CryptUnprotectData'' 1, access_at ''keystrokes'' ''SetWindowsHookEx'' 2],
      [net_at ''198.51.100.7'' ''exfil'' 80 4 (rnd (9 / 10)) True, net_at ''198.51.100.7'' ''exfil'' 80 5 (1 / 2) False,
       net_at ''203.0.113.9'' ''exfil'' 80 6 (rnd (6 / 10)) False])"

definition causal_chain :: scenario where
  "causal_chain =
     ([access_at ''browser_credentials'' ''CryptUnprotectData'' 1, access_at ''keystrokes'' ''SetWindowsHookEx'' 10],
      [(net_at ''198.51.100.7'' ''exfil'' 80 3 usual_confidence True)\<lparr>ne_http_uri := Some ''STOR creds.txt''\<rparr>,
       (net_at ''203.0.113.9'' ''smtp_exfil'' 80 12 usual_confidence False)\<lparr>ne_smtp_subject := Some ''keylog dump''\<rparr>])"

definition otp_example :: scenario where
  "otp_example = ([access_at ''clipboard'' ''GetClipboardData'' 1],
     [(net_at ''198.51.100.7'' ''http_c2'' 80 4 (rnd (7 / 10)) False)\<lparr>ne_http_uri := Some ''/gate.php?otp=1''\<rparr>])"

definition full_stealer :: scenario where
  "full_stealer =
     ([access_at ''browser_credentials'' ''CryptUnprotectData'' 1, access_at ''crypto_wallet'' ''ReadFile(wallet.dat)'' 4,
       access_at ''keystrokes'' ''SetWindowsHookEx'' 7, access_at ''screenshot'' ''BitBlt'' 10,
       access_at ''system_info'' ''GetComputerNameExW'' 13, access_at ''clipboard'' ''GetClipboardData'' 16],
      [(net_at ''198.51.100.7'' ''exfil'' 21 3 usual_confidence True)\<lparr>ne_http_uri := Some ''STOR passwords.txt''\<rparr>,
       (net_at ''198.51.100.7'' ''exfil'' 21 6 usual_confidence True)\<lparr>ne_http_uri := Some ''STOR wallet.dat''\<rparr>,
       (net_at ''203.0.113.9'' ''smtp_exfil'' 25 9 usual_confidence False)\<lparr>ne_smtp_subject := Some ''keylog dump''\<rparr>,
       net_at ''203.0.113.9'' ''smtp_exfil'' 25 12 usual_confidence False,
       (net_at ''45.77.9.9'' ''cloud_exfil'' 443 15 usual_confidence False)
         \<lparr>ne_plaintext := False, ne_domain := Some ''api.telegram.org'', ne_cloud_service := Some ''Telegram Bot API''\<rparr>,
       (net_at ''192.0.2.50'' ''http_c2'' 80 18 usual_confidence False)\<lparr>ne_http_uri := Some ''/gate.php?otp=1''\<rparr>])"

definition scenarios :: "(string \<times> scenario) list" where
  "scenarios = [(''aligned'', aligned), (''skewed'', skewed), (''many_to_many'', many_to_many),
     (''causal_chain'', causal_chain), (''otp'', otp_example), (''full_stealer'', full_stealer)]"

text \<open>\<open>_demo\<close>: best-match correlation, the provenance records and their statements.\<close>

definition correlated :: "scenario \<Rightarrow> corr_event list res" where
  "correlated s = correlate (fst s) (snd s) time_window_seconds True"

definition demo_statements :: "scenario \<Rightarrow> string list res" where
  "demo_statements s = bind_res (correlated s) (\<lambda>cs. map_res statement (build_provenance cs (snd s) []))"

definition matched_destinations :: "scenario \<Rightarrow> (string option \<times> string) list res" where
  "matched_destinations s = bind_res (correlated s) (\<lambda>cs. Inr (map (\<lambda>c. (ce_data_type c, ce_dst_ip c)) cs))"

definition items_found :: "scenario \<Rightarrow> string option list res" where
  "items_found s = bind_res (correlated s) (\<lambda>cs. Inr (map pv_item (build_provenance cs (snd s) [])))"

section \<open>What becomes of them\<close>

lemma skewed_not_correlated: "matched_destinations skewed = Inr []"
  by code_simp

lemma aligned_correlated: "matched_destinations aligned = Inr [(Some ''browser_credentials'', ''198.51.100.7'')]"
  by code_simp

lemma many_to_many_collapsed:
  "matched_destinations many_to_many = Inr [(Some ''browser_credentials'', ''198.51.100.7''), (Some ''keystrokes'', ''198.51.100.7'')]"
  by code_simp

lemma causal_chain_separated:
  "matched_destinations causal_chain = Inr [(Some ''browser_credentials'', ''198.51.100.7''), (Some ''keystrokes'', ''203.0.113.9'')]"
  by code_simp

lemma otp_recognised: "items_found otp_example = Inr [Some ''otp'']"
  by code_simp

end
