(* ===== verification/Spec2Isabelle.thy ===== *)
theory Spec2Isabelle
  imports Prelude Orchestrator Evidence Json HandoffExport Gateway Responder Report PcapLoader Iocs Harden CaseRun Result Dga StaticGen Prep Score Store Pickup Ledger GoldenReport Netmon Scenarios
begin

text \<open>
  Verification development for the WinST/DT analysis module (Python). A detonation in CAPE leaves
  a network capture, an event trace and CAPE's results; the reporting module packs them into a
  hash-manifested hand-off bundle; the C2/exfiltration pipeline reads the bundle, detects and
  correlates suspicious traffic, grades every finding by what independently confirms it, and emits
  evidence rows on a hash chain that the result builder checks again. The development models these
  steps in the order of the data.

  \<^bold>\<open>Python.\<close> \<open>Prelude\<close> has errors as values (\<open>'a res\<close>), insertion-ordered dictionaries and the
  seen-set loop; \<open>PyStr\<close> strings as bytes; \<open>PyFloat\<close> finite binary64 floats as rationals that
  every operation rounds; \<open>PyTime\<close> and \<open>TimeText\<close> datetimes and their texts; \<open>PyVal\<close> and
  \<open>PyNum\<close> JSON values and the conversions that may fail; \<open>Json\<close> \<open>json.dumps\<close>; \<open>IpAddr\<close> and
  \<open>PyUrl\<close> the used parts of \<open>ipaddress\<close> and \<open>urllib\<close>.

  \<^bold>\<open>Before the pipeline.\<close> \<open>Clock\<close>: \<open>scripts/measure-clock-offset.py\<close> and the CAPE auxiliary
  \<open>winstdt_clock_sync.py\<close>, whose background thread is the step relation \<open>sampler_step\<close>.
  \<open>AccessEvents\<close>: \<open>winstdt/access_events.py\<close>, guest API calls on the host clock.
  \<open>HandoffExport\<close>: \<open>cape/modules/reporting/winstdt_handoff_export.py\<close>, the whole content of the
  bundle; the file tree is a dictionary, the analysis directory, SHA-256, the JSON decoder, the
  environment and the converter are the record \<open>export_env\<close>.

  \<^bold>\<open>The pipeline\<close> (\<open>integrations/c2-exfil/pipeline\<close>). \<open>Bundle\<close>: \<open>model.py\<close> and
  \<open>bundle_filter.py\<close>. Detectors: \<open>Traffic\<close> (\<open>traffic_analysis.py\<close>), \<open>Dns\<close>
  (\<open>dns_analysis.py\<close>), \<open>Detect\<close> (\<open>app_exfil.py\<close>, \<open>http_analysis.py\<close>,
  \<open>covert_channels.py\<close>, certificates of \<open>tls_analysis.py\<close>). \<open>Etw\<close> (\<open>etw_ingest.py\<close>) validates
  host events; \<open>NetEvent\<close> is the event dictionary of the orchestrator; \<open>Correlation\<close>
  (\<open>correlation.py\<close>) pairs both. Grading: \<open>Intel\<close> (\<open>attribution.py\<close>, \<open>feed_import.py\<close>),
  \<open>StaticPrior\<close> (\<open>static_prior.py\<close>), \<open>Allowlist\<close> (\<open>allowlist.py\<close>), \<open>Gate\<close> (the contract of
  a gate as a locale, which \<open>Allowlist\<close> and \<open>Handoff\<close> interpret) and \<open>Handoff\<close>
  (\<open>handoff.py\<close>). \<open>Orchestrator\<close> composes the stages of \<open>build_network_events\<close> in their order.
  \<open>Evidence\<close> emits the rows (\<open>emit_schema_rows\<close>), verifies the chain (\<open>evidence.py\<close>) and has the
  seeded check of \<open>scripts/build-c2-result.py\<close>.

  \<^bold>\<open>Around the pipeline.\<close> \<open>Gateway\<close> (\<open>scripts/configure-egress-gateway.py\<close>) loads, approves
  and renders the policy under which a sample may reach the network; \<open>Responder\<close>
  (\<open>responder/controlled_responder.py\<close>) is the service it may reach: DNS answers from bytes to
  bytes and the receipt log of HTTP posts. \<open>Report\<close> has what is told about a case afterwards:
  \<open>timeline.py\<close>, \<open>provenance.py\<close> and \<open>family_attribution.py\<close>; \<open>Iocs\<close> exports its indicators as CSV
  text and as a STIX bundle (\<open>export_iocs.py\<close>). \<open>CaseRun\<close> is \<open>orchestrator.main\<close>: the command
  line, the readers behind it and every stage in its order, down to the list of documents that a run
  writes (\<open>run_case\<close>). \<open>FileTree\<close> has directories as dictionaries from paths to contents, shared
  by the exporter and by \<open>Result\<close> (\<open>scripts/build-c2-result.py\<close>): \<open>seal_result\<close> takes the staging
  directory, hand-off, runtime and project trees to the sealed bundle. \<open>Dga\<close> is the classifier of
  generated names, inference (\<open>dga_classifier.py\<close>) and training (\<open>train_dga_classifier.py\<close>), whose
  score enters \<open>Dns\<close> as a function (\<open>dga_scorer\<close>). \<open>Score\<close> (\<open>validate.py\<close>) counts what the events of
  the orchestrator flag at each threshold; \<open>Store\<close> (\<open>db_loader.py\<close>) is the load into the database as
  two tables. \<open>Harden\<close> (\<open>scripts/harden-libvirt-domain.py\<close>)
  prepares the virtual machine: a tree of elements, its removal loop a \<open>while_option\<close>.

  \<^bold>\<open>Operation.\<close> \<open>StaticGen\<close> (\<open>scripts/generate-static-prior.py\<close>) extracts the static prior from the
  reports of a bundle; its documents fit the reader of \<open>StaticPrior\<close> only as the compatibility patch
  0004 changes it (\<open>ingest_prior_patched\<close>). \<open>Prep\<close> chooses the Zeek logs (\<open>prepare-zeek-input.py\<close>) and
  brings Suricata and TLS records into their normal form (\<open>normalize-c2-adapter-inputs.py\<close>). \<open>Ledger\<close>
  has the tree digest, the acceptance ledger and the check of the documentation against it, the
  capability metadata, the merge of configuration files and the export of access events (the scripts
  of those names). \<open>GoldenReport\<close> (\<open>scripts/validation/draft-golden-image-report.py\<close>) drafts a Markdown
  report, \<open>Netmon\<close> (\<open>tools/netmon2pcap.py\<close>) converts captures, \<open>Scenarios\<close>
  (\<open>tools/etw_scenario_gen.py\<close>) has the synthetic timelines and what correlation makes of them,
  \<open>Pickup\<close> is the guest's auxiliary \<open>winstdt_etw_pickup.py\<close>: its actions, and the times at which
  its two threads act.

  \<^bold>\<open>From the wire to the bundle.\<close> \<open>PyBytes\<close> has bytes as 8-bit words, their texts and
  integers. \<open>Tls\<close> reads a ClientHello and computes JA3 and JA4 (\<open>tls_analysis.py\<close>, and the second
  parser in \<open>ja3_from_pcap.py\<close>). \<open>Capture\<close> is \<open>tools/generate_zeek_logs.py\<close> up to its writers:
  capture files, headers, flows and sniffers, from the bytes of the file on. \<open>ZeekLog\<close> has its
  writers and the reader of Zeek logs in \<open>zeek_ingest.py\<close>. \<open>PcapLoader\<close> has what is read through
  scapy: \<open>pcap_loader.py\<close>, the fallback of \<open>zeek_ingest.py\<close>, \<open>content_recon.py\<close>,
  \<open>ja3_from_pcap.py\<close> and \<open>ja3_loader.py\<close>. Scapy's dissection of a packet is the record
  \<open>sc_packet\<close>, the JSON decoder and the digests are parameters. The loaders return attribute
  dictionaries, untyped as in Python; \<open>typed_loaded\<close> is the step to the records of the detectors.

  \<^bold>\<open>What is shown.\<close> A finding ends confirmed exactly when independent evidence names it, and no
  gate, allowlist or stage raises a tier or loses a finding. Correlation returns exactly the pairs
  inside the window, with tiers determined by score and reputation; best-match mode keeps one best
  pair per access. Ingestion keeps exactly the valid rows and reports one error per other row.
  Every detector reports exactly the flows of its condition, with confidences in [0,1]. Past the
  network stage a run can fail at two named places only and otherwise delivers every document; the
  case id identifies inputs and parameters.
  Emitted rows pass the seeded check, a result is sealed only over unbroken custody and an unchanged
  hand-off, and two accepted chains with the same last digest have the same
  content or exhibit a collision. Times written are read back as the same instant. Interpolated
  clock offsets stay between their end points; a measured offset lies within its uncertainty.
  An exported bundle's manifest loads unless the schema is enforced, and refers to a hash manifest that
  covers exactly the files.
  A ruleset exists only for a signed policy and lets the guest reach only its destinations; the
  responder answers well-formed queries exactly and logs exactly the accepted posts. Timeline and
  family verdicts lose nothing and do not depend on how Python iterates over a set. Capture files,
  ClientHello messages, connection logs and JA3 logs are read back as they were written; flows are
  exactly the endpoint pairs seen, both capture readers find the same ones, and no payload byte is
  lost between the capture and the bundle. The sampling thread ends in every fair schedule.
  A trained model always loads and scores as the weighted sum it documents; a generated prior is
  taken in indicator by indicator; the Zeek mode that is reported is the one the files have; a second
  load of a run changes nothing; nothing documented as working lacks a passed gate; hits, false
  alarms and recall only grow as the threshold is loosened (\<open>thresholds_monotone\<close>).
  The CSV export reads back field by field, the STIX bundle is closed under its references, and a
  hardened domain has the same devices without the marks it is meant to hide, while inside and beside
  the elements that are changed all else stays as it was.

  \<^bold>\<open>Bounds.\<close> All recursions are structural or have a \<open>measure\<close>; there is no fuel. One loop of
  \<open>Harden\<close> is a \<open>while_option\<close>, shown to end (\<open>removal_loop_ends\<close>). Integers
  are Python's unbounded ones; only bytes have a width. The hash function is a parameter
  throughout: statements about digests either hold for every function or name the collision.

  \<^bold>\<open>Deviations that the proofs brought out\<close>: a chain seeded with a manifest digest does not verify
  standalone (\<open>seeded_chain_fails_verification\<close>); the exporter never writes the clock quality that the
  loader reads and the schema requires (\<open>exported_manifest_loads\<close>); a host clock that is set back
  gives a negative uncertainty and a malformed answer ends the sampling thread (\<open>sampler_step\<close>);
  GREASE signature algorithms enter the fingerprint (\<open>grease_signature_counted\<close>); the
  header-based clock sample can miss its uncertainty (\<open>header_sample_error\<close>); a probe under way at \<open>stop\<close> can still replace the start sample
  (\<open>sampler_stable_after_stop\<close>); the allowlist's reason depends on set order
  (\<open>allowlist_match_depends_on_order\<close>); some row values abort the tolerant ingestion
  (\<open>unhashable_data_type_raises\<close>); published rows no longer verify under their own digests
  (\<open>published_rows_break_chain\<close>); frame padding counts as payload (\<open>frame_padding_counted\<close>) and a
  request path can forge log rows (\<open>http_log_injection\<close>). The scripts cut CAPE's event types
  (\<open>cape_event_type_cut\<close>), stop at a malformed native line (\<open>malformed_native_line_raises\<close>), report
  stale logs as validated (\<open>zeek_selection_exact\<close>), hash nothing
  below an ignored directory (\<open>tree_hash_below_ignored\<close>) and let the guest write report lines
  (\<open>guest_text_forges_lines\<close>).

  \<^bold>\<open>Parameters.\<close> SHA-256, MD5, the JSON decoder, scapy, the clock, UUIDs, \<open>math.log2\<close> and
  \<open>math.exp\<close>, the random generator, numpy's gradient descent, the schema validators, the types of the database's
  columns and the processes a script runs are arguments of the definitions; what a
  theorem needs of one is a hypothesis of it (\<open>math.exp\<close> is not negative, a descent returns one weight
  per column, a digest is a hexadecimal text).

  \<^bold>\<open>Not modelled.\<close> The generator \<open>ftp_traffic_gen.py\<close>, which only drives scapy, what programs print, the argument
  parsers of the scripts, sockets, file permissions and the shell scripts that call all this. The
  compatibility patches are modelled only where a theory says so; the rest describes the pipeline
  directory as it is. NaN, infinities and non-ASCII case mapping are not represented.
\<close>

section \<open>Lemmas\<close>

lemma session_bytes:
  "ss_orig_bytes (flow_session r) + ss_resp_bytes (flow_session r) = int (fl_orig (snd (snd r)) + fl_resp (snd (snd r)))"
  by (simp add: flow_session_def split_beta)

lemma numbered_bytes:
  "sum_list (map (\<lambda>r. int (fl_orig (snd (snd r)) + fl_resp (snd (snd r)))) (numbered c conns))
     = int (sum_list (map (\<lambda>e. fl_orig (snd e) + fl_resp (snd e)) conns))"
proof -
  have "map (\<lambda>r. int (fl_orig (snd (snd r)) + fl_resp (snd (snd r)))) (numbered c conns)
      = map (\<lambda>e. int (fl_orig (snd e) + fl_resp (snd e))) (map snd (numbered c conns))" by simp
  also have "map snd (numbered c conns) = conns" by (simp add: numbered_def)
  finally have rows: "map (\<lambda>r. int (fl_orig (snd (snd r)) + fl_resp (snd (snd r)))) (numbered c conns)
      = map (\<lambda>e. int (fl_orig (snd e) + fl_resp (snd e))) conns" .
  show ?thesis unfolding rows by (induction conns) simp_all
qed

section \<open>Properties across components\<close>

text \<open>
  C7. No byte is lost on the way from the wire to the bundle: the sessions the pipeline loads from the
  connection log of a capture carry, together, every payload byte of the TCP and UDP segments in it.
\<close>

theorem wire_to_bundle:
  assumes "iter_packets content = Inr fs"
  shows "\<exists>st ss. parse_capture md5 sha256 content = Inr st
     \<and> records loads (map_of (write_logs st)) ''conn.log'' session_of = Some ss
     \<and> sum_list (map (\<lambda>s. ss_orig_bytes s + ss_resp_bytes s) ss)
         = int (sum_list (map (\<lambda>s. length (sg_data s)) (List.map_filter segment_of fs)))"
proof -
  define st where "st = foldl (capture_step md5 sha256) empty_capture fs"
  have st: "parse_capture md5 sha256 content = Inr st" by (simp add: parse_capture_def assms st_def)
  have "cs_table st = foldl conn_step empty_table (List.map_filter segment_of fs)"
    by (simp add: st_def capture_table empty_capture_def)
  then have "flow_bytes (cs_table st) = sum_list (map (\<lambda>s. length (sg_data s)) (List.map_filter segment_of fs))"
    by (simp add: fold_bytes)
  then show ?thesis
    using st conn_log_loads [OF st, of loads] numbered_bytes [of "CHR ''C''" "tb_flows (cs_table st)"]
    by (simp add: session_bytes o_def flow_bytes_def)
qed

lemma wire_to_bundle_witness:
  "\<exists>st ss. parse_capture (\<lambda>s. s) (\<lambda>s. s) (pcap_header True False 1
        @ record_bytes True (sample_record\<lparr>pr_data := frame_bytes sample_frame @ replicate 6 0\<rparr>)) = Inr st
     \<and> records (\<lambda>_. None) (map_of (write_logs st)) ''conn.log'' session_of = Some ss
     \<and> sum_list (map (\<lambda>s. ss_orig_bytes s + ss_resp_bytes s) ss) = 6"
  using wire_to_bundle [OF sample_capture_read, of "\<lambda>s. s" "\<lambda>s. s" "\<lambda>_. None"]
    segment_of_tcp_frame [OF sample_frame_ok, of _ "replicate 6 0"]
  by (simp add: frame_of_record_def List.map_filter_simps sample_frame_def)

text \<open>
  The log tells the fixture from the rest: what the responder answers to a question is read off
  the capture as a response with the same name and type, without error for the fixture's name and
  as a name that does not exist for every other.
\<close>

theorem responder_reply_logged:
  assumes "length hdr = 12" "list_all plain_label ls" "length qt = 2" "length qc = 2" "0 < be_value (slice 4 2 hdr)"
  shows "parse_dns (dns_response (hdr @ encode_name ls @ (qt @ qc) @ extra)) =
     Some \<lparr>qu_name = join ''.'' ls, qu_type = name_or_number qtype_names (be_value qt), qu_qr = 1,
           qu_rcode = (if str_lower (join ''.'' ls) = ''validation.winstdt.test'' then ''NOERROR'' else ''NXDOMAIN'')\<rparr>"
proof -
  have labels: "list_all label_ok ls" using assms(2) by (auto simp: list_all_iff plain_label_def label_ok_def)
  define count where "count = take 2 (drop 4 hdr)"
  have count: "length count = 2" "be_value count = be_value (slice 4 2 hdr)" using assms(1) by (simp_all add: count_def slice_def)
  have reply: "parse_dns ((take 2 hdr @ [0x81, b] @ count @ [0, c, 0, 0, 0, 0]) @ encode_name ls @ qt @ more) =
      Some \<lparr>qu_name = join ''.'' ls, qu_type = name_or_number qtype_names (be_value qt),
            qu_qr = be_value [0x81, b] div 2 ^ 15 mod 2, qu_rcode = name_or_number rcode_names (be_value [0x81, b] mod 16)\<rparr>"
    for b c more
  proof -
    let ?h = "take 2 hdr @ [0x81, b] @ count @ [0, c, 0, 0, 0, 0]"
    have slices: "slice 2 2 ?h = [0x81, b]" "slice 4 2 ?h = count" "length ?h = 12"
      using assms(1) count(1) by (simp_all add: slice_def)
    show ?thesis
      using parse_dns_encoded [of ?h ls qt more, OF slices(3) assms(2,3)] assms(5) count(2) unfolding slices by simp
  qed
  have codes: "be_value [0x81, 0x80] = 33152" "be_value [0x81, 0x83] = 33155" by (simp_all add: be_value_def)
  have names: "name_or_number rcode_names 0 = ''NOERROR''" "name_or_number rcode_names 3 = ''NXDOMAIN''"
    by (simp_all add: name_or_number_def rcode_names_def)
  show ?thesis
    using dns_response_exact [OF assms(1) labels, of "qt @ qc" extra] assms(3,4) reply [where b = "0x80" and c = 1] reply [where b = "0x83" and c = 0]
    by (simp add: codes names count_def)
qed

lemma responder_reply_witness:
  "parse_dns (dns_response ([7, 7, 1, 0, 0, 1, 0, 0, 0, 0, 0, 0] @ encode_name [''evil'', ''io''] @ ([0, 1] @ [0, 1]) @ []))
     = Some \<lparr>qu_name = ''evil.io'', qu_type = ''A'', qu_qr = 1, qu_rcode = ''NXDOMAIN''\<rparr>"
proof -
  have "list_all plain_label [''evil'', ''io'']" by (simp add: plain_label_def)
  moreover have "str_lower (join ''.'' [''evil'', ''io'']) \<noteq> ''validation.winstdt.test''" by code_simp
  ultimately show ?thesis
    using responder_reply_logged [of "[7, 7, 1, 0, 0, 1, 0, 0, 0, 0, 0, 0]" "[''evil'', ''io'']" "[0, 1]" "[0, 1]" "[]"]
    by (simp add: be_value_def slice_def name_or_number_def qtype_names_def)
qed

end
